(* ===== verification/Prelude.thy ===== *)
theory Prelude
  imports Main "HOL-Library.AList"
begin

text \<open>
  Shared material: the Python exceptions the modelled code can raise, Python dictionaries as
  association lists in insertion order, list slices with Python's index rules, and the generic
  locale of objects that move through a life cycle. Every component theory builds on it.
\<close>

named_theorems dict_simps \<open>reading and writing dictionaries\<close>
named_theorems op_defs \<open>the definitions of the operations of the model\<close>

section \<open>Exceptions\<close>

text \<open>
  An operation that may raise returns a value of \<open>py_error + 'a\<close>. Where the source has changed
  its state before it raises, the changed state is returned beside the error.
\<close>

datatype py_error =
    ValueError string
  | KeyError string
  | IndexError
  | TypeError
  | ZeroDivisionError
  | OverflowError
  | AttributeError
  | PolicyError string
  | RuntimeError string
  | OSError

type_synonym 'a result = "py_error + 'a"

section \<open>Dictionaries\<close>

text \<open>
  A dictionary iterates in insertion order, and an assignment to a present key keeps its place.
  \<^const>\<open>AList.update\<close> does exactly that. Reading is \<^const>\<open>map_of\<close>.
\<close>

type_synonym 'v dict = "(string \<times> 'v) list"

abbreviation dget :: "('k \<times> 'v) list \<Rightarrow> 'k \<Rightarrow> 'v option" where
  "dget d k \<equiv> map_of d k"

abbreviation dset :: "'k \<Rightarrow> 'v \<Rightarrow> ('k \<times> 'v) list \<Rightarrow> ('k \<times> 'v) list" where
  "dset k v d \<equiv> AList.update k v d"

abbreviation dkeys :: "('k \<times> 'v) list \<Rightarrow> 'k list" where
  "dkeys d \<equiv> map fst d"

abbreviation dvalues :: "('k \<times> 'v) list \<Rightarrow> 'v list" where
  "dvalues d \<equiv> map snd d"

text \<open>A loop over the values that mutates each object in place.\<close>

definition dmap :: "('v \<Rightarrow> 'v) \<Rightarrow> ('k \<times> 'v) list \<Rightarrow> ('k \<times> 'v) list" where
  "dmap f d = map (\<lambda>(k, v). (k, f v)) d"

text \<open>\<open>d.get(k, default)\<close>.\<close>

definition dget_default :: "('k \<times> 'v) list \<Rightarrow> 'k \<Rightarrow> 'v \<Rightarrow> 'v" where
  "dget_default d k v = (case dget d k of None \<Rightarrow> v | Some w \<Rightarrow> w)"

text \<open>\<open>d.setdefault(k, []).append(x)\<close>.\<close>

definition dappend :: "'k \<Rightarrow> 'x \<Rightarrow> ('k \<times> 'x list) list \<Rightarrow> ('k \<times> 'x list) list" where
  "dappend k x d = dset k (dget_default d k [] @ [x]) d"

lemma dget_dset [simp, dict_simps]: "dget (dset k v d) k' = (if k' = k then Some v else dget d k')"
  by (simp add: update_conv')

lemma dget_dmap [simp, dict_simps]: "dget (dmap f d) k = map_option f (dget d k)"
  by (simp add: dmap_def map_of_map)

lemma dkeys_dmap [simp, dict_simps]: "dkeys (dmap f d) = dkeys d"
  by (simp add: dmap_def case_prod_beta comp_def)

lemma dvalues_dmap [simp, dict_simps]: "dvalues (dmap f d) = map f (dvalues d)"
  by (simp add: dmap_def case_prod_beta comp_def)

lemma dmap_id: "(\<And>v. v \<in> set (dvalues d) \<Longrightarrow> f v = v) \<Longrightarrow> dmap f d = d"
  by (induction d) (auto simp: dmap_def)

lemma dmap_dmap: "dmap f (dmap g d) = dmap (\<lambda>v. f (g v)) d"
  by (simp add: dmap_def case_prod_beta comp_def)

lemma dset_fresh: "k \<notin> set (dkeys d) \<Longrightarrow> dset k v d = d @ [(k, v)]"
  by (induction d) auto

lemma keys_dset [simp, dict_simps]: "fst ` set (dset k v d) = insert k (fst ` set d)"
  using update_keys [of k v d] by (auto simp flip: set_map)

lemma keys_dmap [simp, dict_simps]: "fst ` set (dmap f d) = fst ` set d"
  by (simp add: dmap_def image_image case_prod_beta)

lemma dget_default_dset [simp, dict_simps]:
  "dget_default (dset k v d) k' w = (if k' = k then v else dget_default d k' w)"
  by (simp add: dget_default_def)

lemma dget_dappend [simp, dict_simps]:
  "dget (dappend k x d) k' = (if k' = k then Some (dget_default d k [] @ [x]) else dget d k')"
  by (simp add: dappend_def)

lemma dget_Some_key: "dget d k = Some v \<Longrightarrow> k \<in> set (dkeys d)"
  by (force dest: map_of_SomeD)

lemma dget_None_key: "dget d k = None \<longleftrightarrow> k \<notin> set (dkeys d)"
  by (metis list.set_map map_of_eq_None_iff)

lemma dvalues_dset_subset: "set (dvalues (dset k v d)) \<subseteq> insert v (set (dvalues d))"
  by (induction d) auto

lemma distinct_dset [simp, dict_simps]: "distinct (dkeys (dset k v d)) = distinct (dkeys d)"
proof (cases "k \<in> set (dkeys d)")
  case True
  then have "dkeys (dset k v d) = dkeys d"
    by (simp add: update_keys)
  then show ?thesis by simp
next
  case False
  then show ?thesis by (simp add: dset_fresh)
qed

text \<open>Writing a value that a view does not tell apart leaves the view of the whole dictionary.\<close>

lemma dmap_dset_same:
  assumes "dget d k = Some v" and "f w = f v"
  shows "dmap f (dset k w d) = dmap f d"
  using assms by (induction d) (auto simp: dmap_def split: if_splits)

text \<open>The change of a total over the values when one entry is written.\<close>

lemma sum_dset_present:
  fixes f :: "'v \<Rightarrow> 'b :: ab_group_add"
  assumes "distinct (dkeys d)" and "dget d k = Some v"
  shows "sum_list (map f (dvalues (dset k w d))) = sum_list (map f (dvalues d)) - f v + f w"
  using assms
proof (induction d)
  case Nil
  then show ?case by simp
next
  case (Cons p d)
  then show ?case by (cases p) (auto simp: algebra_simps)
qed

lemma sum_dset_fresh:
  fixes f :: "'v \<Rightarrow> 'b :: comm_monoid_add"
  assumes "k \<notin> set (dkeys d)"
  shows "sum_list (map f (dvalues (dset k w d))) = sum_list (map f (dvalues d)) + f w"
  using assms by (simp add: dset_fresh)

section \<open>Comprehensions\<close>

lemma map_filter_same: "(\<And>x. x \<in> set xs \<Longrightarrow> f x = g x) \<Longrightarrow> List.map_filter f xs = List.map_filter g xs"
  by (simp add: List.map_filter_def cong: filter_cong)

lemma map_filter_snoc [simp]:
  "List.map_filter f (xs @ [x]) = List.map_filter f xs @ (case f x of None \<Rightarrow> [] | Some y \<Rightarrow> [y])"
  by (simp add: List.map_filter_def split: option.split)

section \<open>Slices\<close>

text \<open>\<open>xs[i:]\<close> and \<open>xs[:i]\<close>: a negative index counts from the end and both are clamped.\<close>

definition slice_from :: "int \<Rightarrow> 'a list \<Rightarrow> 'a list" where
  "slice_from i xs = drop (nat (if i < 0 then int (length xs) + i else i)) xs"

definition slice_to :: "int \<Rightarrow> 'a list \<Rightarrow> 'a list" where
  "slice_to i xs = take (nat (if i < 0 then int (length xs) + i else i)) xs"

lemma slice_from_last:
  assumes "0 < n"
  shows "slice_from (- n) xs = drop (length xs - nat n) xs"
proof -
  have "nat (int (length xs) + - n) = length xs - nat n"
    using assms by linarith
  then show ?thesis using assms by (simp add: slice_from_def)
qed

lemma set_slice_from: "set (slice_from i xs) \<subseteq> set xs"
  by (simp add: slice_from_def set_drop_subset)

lemma slice_from_zero [simp]: "slice_from 0 xs = xs"
  by (simp add: slice_from_def)

section \<open>Invariants of components\<close>

text \<open>
  The state of a run is the state of a component and that of its environment. The interface: one call of the component keeps an invariant of its state,
  whatever it does with the environment; every run of calls then keeps it.
\<close>

locale component_invariant =
  fixes step :: "'c \<times> 'e \<Rightarrow> 'c \<times> 'e \<Rightarrow> bool"
    and ok :: "'c \<Rightarrow> bool"
  assumes step_ok: "step s t \<Longrightarrow> ok (fst s) \<Longrightarrow> ok (fst t)"
begin

lemma run_ok: "step\<^sup>*\<^sup>* s t \<Longrightarrow> ok (fst s) \<Longrightarrow> ok (fst t)"
  by (induction rule: rtranclp_induct) (auto intro: step_ok)

lemma reached_ok: "step\<^sup>*\<^sup>* (c, e) (c', e') \<Longrightarrow> ok c \<Longrightarrow> ok c'"
  using run_ok by fastforce

end

section \<open>Life cycles\<close>

text \<open>
  Several components keep a dictionary of objects whose status moves along the edges of a fixed
  graph. The interface: \<open>status s k\<close> is the status of object \<open>k\<close> in state \<open>s\<close>, \<open>step\<close> is one call
  of the component, and a call leaves every status alone or moves it along one edge.
\<close>

locale lifecycle =
  fixes status :: "'s \<Rightarrow> 'k \<Rightarrow> 'st option"
    and step :: "'s \<Rightarrow> 's \<Rightarrow> bool"
    and edge :: "'st \<Rightarrow> 'st \<Rightarrow> bool"
  assumes step_edge:
    "step s t \<Longrightarrow> status s k = Some a \<Longrightarrow> \<exists>b. status t k = Some b \<and> (b = a \<or> edge a b)"
begin

text \<open>A run of calls takes a status along a path of the graph, and no object is ever lost.\<close>

lemma run_path:
  assumes "step\<^sup>*\<^sup>* s t" and "status s k = Some a"
  shows "\<exists>b. status t k = Some b \<and> edge\<^sup>*\<^sup>* a b"
  using assms
proof (induction rule: rtranclp_induct)
  case base
  then show ?case by blast
next
  case (step t u)
  then obtain b where "status t k = Some b" and "edge\<^sup>*\<^sup>* a b" by blast
  with step_edge [OF \<open>step t u\<close>] show ?case
    by (metis rtranclp.rtrancl_into_rtrancl)
qed

text \<open>A status with no outgoing edge is final.\<close>

lemma final_stays:
  assumes "step\<^sup>*\<^sup>* s t" and "status s k = Some a" and "\<And>b. \<not> edge a b"
  shows "status t k = Some a"
proof -
  from run_path [OF assms(1,2)] obtain b where "status t k = Some b" and "edge\<^sup>*\<^sup>* a b" by blast
  moreover from this(2) assms(3) have "b = a" by (metis converse_rtranclpE)
  ultimately show ?thesis by simp
qed

text \<open>A rank that every edge raises bounds where a run can lead.\<close>

lemma run_rank:
  fixes rank :: "'st \<Rightarrow> nat"
  assumes "step\<^sup>*\<^sup>* s t" and "status s k = Some a" and "status t k = Some b"
    and "\<And>x y. edge x y \<Longrightarrow> rank x < rank y"
  shows "b = a \<or> rank a < rank b"
proof -
  from run_path [OF assms(1,2)] assms(3) have "edge\<^sup>*\<^sup>* a b" by simp
  then show ?thesis
  proof (induction rule: rtranclp_induct)
    case base
    then show ?case by simp
  next
    case (step x y)
    with assms(4) show ?case by fastforce
  qed
qed

end

end
