(* ===== verification/PyFloat.thy ===== *)
theory PyFloat
  imports Prelude "HOL-Library.Log_Nat" Complex_Main
begin

text \<open>
  Python's \<open>float\<close>, IEEE 754 binary64, with round to nearest, ties to even. A finite float is the
  rational number it denotes; every arithmetic operation is the exact rational operation followed
  by \<open>rnd\<close>, the rounding to 53 significant bits (with gradual underflow), and a result of
  magnitude \<open>2^1024\<close> or more is an infinity. The sign of zero is not kept. The interface the
  components rely on is the locale \<open>rounding\<close>, interpreted at the end of the theory on \<open>rnd\<close>.
\<close>

section \<open>Rounding\<close>

definition pow2 :: "int \<Rightarrow> rat" where
  "pow2 e = (if 0 \<le> e then 2 ^ nat e else 1 / 2 ^ nat (- e))"

text \<open>The binary exponent of a positive rational, from the lengths of numerator and denominator.\<close>

definition ilog2 :: "rat \<Rightarrow> int" where
  "ilog2 x = (let (p, q) = quotient_of x; k = bitlen p - bitlen q
              in if pow2 k \<le> x then k else k - 1)"

text \<open>Round a rational to the nearest integer, ties to even.\<close>

definition rhe :: "rat \<Rightarrow> int" where
  "rhe y = (let n = \<lfloor>y\<rfloor>; d = y - of_int n
            in if d < 1 / 2 then n else if d > 1 / 2 then n + 1 else if even n then n else n + 1)"

text \<open>The exponent of the unit in the last place.\<close>

definition fexp :: "rat \<Rightarrow> int" where
  "fexp x = max (ilog2 \<bar>x\<bar> - 52) (- 1074)"

definition rnd :: "rat \<Rightarrow> rat" where
  "rnd x = (if x = 0 then 0 else of_int (rhe (x / pow2 (fexp x))) * pow2 (fexp x))"

lemma pow2_pos [simp]: "0 < pow2 e"
  by (simp add: pow2_def)

lemma pow2_nz [simp]: "pow2 e \<noteq> 0"
  using pow2_pos [of e] by linarith

lemma abs_pow2 [simp]: "\<bar>pow2 e\<bar> = pow2 e"
  by (simp add: order_less_imp_le)

lemma pow2_0 [simp]: "pow2 0 = 1"
  by (simp add: pow2_def)

lemma pow2_1 [simp]: "pow2 1 = 2"
  by (simp add: pow2_def)

lemma pow2_add: "pow2 (a + b) = pow2 a * pow2 b"
proof -
  have pn: "pow2 (int m + - int n) = 2 ^ m / 2 ^ n" for m n
  proof (cases "n \<le> m")
    case True
    then show ?thesis
      by (simp add: pow2_def power_diff nat_diff_distrib' flip: of_nat_diff)
  next
    case False
    then have "nat (- (int m + - int n)) = n - m" and "m \<le> n" by simp_all
    then show ?thesis using False
      by (simp add: pow2_def power_diff)
  qed
  obtain m n where a: "a = int m - int n" by (metis int_diff_cases)
  obtain m' n' where b: "b = int m' - int n'" by (metis int_diff_cases)
  have "a + b = int (m + m') + - int (n + n')" using a b by simp
  then have "pow2 (a + b) = 2 ^ (m + m') / 2 ^ (n + n')" using pn by metis
  moreover have "pow2 a = 2 ^ m / 2 ^ n" "pow2 b = 2 ^ m' / 2 ^ n'"
    using pn [of m n] pn [of m' n'] a b by simp_all
  ultimately show ?thesis by (simp add: power_add)
qed

lemma pow2_nat: "pow2 (int n) = 2 ^ n"
  by (simp add: pow2_def)

lemma pow2_mono: "a \<le> b \<Longrightarrow> pow2 a \<le> pow2 b"
proof -
  assume "a \<le> b"
  then obtain n where "b = a + int n" by (metis zle_iff_zadd)
  then have "pow2 b = pow2 a * 2 ^ n" by (simp add: pow2_add pow2_nat)
  moreover have "pow2 a * 1 \<le> pow2 a * 2 ^ n"
    by (intro mult_left_mono) (simp_all add: order_less_imp_le)
  ultimately show ?thesis by simp
qed

lemma pow2_less_iff: "pow2 a < pow2 b \<longleftrightarrow> a < b"
proof -
  have "pow2 a < pow2 b" if "a < b"
  proof -
    have "pow2 (a + 1) = 2 * pow2 a" by (simp add: pow2_add)
    moreover have "pow2 (a + 1) \<le> pow2 b" using that by (intro pow2_mono) simp
    ultimately show ?thesis using pow2_pos [of a] by linarith
  qed
  then show ?thesis using pow2_mono [of b a] by fastforce
qed

lemma bitlen_pow2_bounds:
  assumes "0 < p"
  shows "pow2 (bitlen p - 1) \<le> of_int p" and "of_int p < pow2 (bitlen p)"
proof -
  have b: "0 < bitlen p"
    using bitlen_eq_zero_iff [of p] bitlen_nonneg [of p] assms by linarith
  have "2 ^ nat (bitlen p - 1) \<le> p" and "p < 2 ^ nat (bitlen p)"
    using bitlen_bounds [OF assms] by auto
  then have "(of_int (2 ^ nat (bitlen p - 1)) :: rat) \<le> of_int p"
    and "(of_int p :: rat) < of_int (2 ^ nat (bitlen p))"
    by (simp_all only: of_int_le_iff of_int_less_iff)
  with b show "pow2 (bitlen p - 1) \<le> of_int p" and "of_int p < pow2 (bitlen p)"
    by (simp_all add: pow2_def)
qed

lemma ilog2_bounds:
  assumes "0 < x"
  shows "pow2 (ilog2 x) \<le> x" and "x < pow2 (ilog2 x + 1)"
proof -
  obtain p q where pq: "quotient_of x = (p, q)" by (cases "quotient_of x")
  have q: "0 < q" using quotient_of_denom_pos [OF pq] .
  have x: "x = of_int p / of_int q" using quotient_of_div [OF pq] .
  have p: "0 < p" using assms q x by (simp add: zero_less_divide_iff)
  define k where "k = bitlen p - bitlen q"
  have lo: "pow2 (k - 1) \<le> x"
  proof -
    have "pow2 (k - 1) * of_int q \<le> pow2 (k - 1) * pow2 (bitlen q)"
      using bitlen_pow2_bounds(2) [OF q] by (simp add: mult_left_mono)
    also have "\<dots> = pow2 (bitlen p - 1)" by (simp add: k_def flip: pow2_add)
    also have "\<dots> \<le> of_int p" using bitlen_pow2_bounds(1) [OF p] .
    finally show ?thesis using q x by (simp add: pos_le_divide_eq)
  qed
  have hi: "x < pow2 (k + 1)"
  proof -
    have "of_int p < pow2 (bitlen p)" using bitlen_pow2_bounds(2) [OF p] .
    also have "\<dots> = pow2 (k + 1) * pow2 (bitlen q - 1)" by (simp add: k_def flip: pow2_add)
    also have "\<dots> \<le> pow2 (k + 1) * of_int q"
      using bitlen_pow2_bounds(1) [OF q] by (simp add: mult_left_mono)
    finally show ?thesis using q x by (simp add: pos_divide_less_eq)
  qed
  have "ilog2 x = (if pow2 k \<le> x then k else k - 1)"
    by (simp add: ilog2_def pq k_def)
  with lo hi show "pow2 (ilog2 x) \<le> x" and "x < pow2 (ilog2 x + 1)" by auto
qed

lemma ilog2_ge: "0 < x \<Longrightarrow> pow2 e \<le> x \<Longrightarrow> e \<le> ilog2 x"
  using ilog2_bounds(2) [of x] pow2_less_iff [of e "ilog2 x + 1"] by linarith

lemma ilog2_less: "0 < x \<Longrightarrow> x < pow2 e \<Longrightarrow> ilog2 x < e"
  using ilog2_bounds(1) [of x] pow2_less_iff [of "ilog2 x" e] by linarith

lemma ilog2_mono: "0 < x \<Longrightarrow> x \<le> y \<Longrightarrow> ilog2 x \<le> ilog2 y"
  using ilog2_bounds(1) [of x] ilog2_ge [of y "ilog2 x"] by simp

lemma rhe_of_int [simp]: "rhe (of_int n) = n"
  by (simp add: rhe_def)

lemma rhe_bounds: "y - 1 / 2 \<le> of_int (rhe y)" "of_int (rhe y) \<le> y + 1 / 2"
  by (auto simp: rhe_def Let_def) linarith+

lemma rhe_mono: "x \<le> y \<Longrightarrow> rhe x \<le> rhe y"
proof -
  assume le: "x \<le> y"
  have fl: "\<lfloor>x\<rfloor> \<le> \<lfloor>y\<rfloor>" using le by (rule floor_mono)
  have "rhe x \<le> \<lfloor>x\<rfloor> + 1" and "\<lfloor>y\<rfloor> \<le> rhe y" by (auto simp: rhe_def Let_def)
  then show ?thesis
  proof (cases "\<lfloor>x\<rfloor> = \<lfloor>y\<rfloor>")
    case True
    with le show ?thesis by (auto simp: rhe_def Let_def)
  next
    case False
    with fl \<open>rhe x \<le> \<lfloor>x\<rfloor> + 1\<close> \<open>\<lfloor>y\<rfloor> \<le> rhe y\<close> show ?thesis by linarith
  qed
qed

lemma rhe_le_int: "y \<le> of_int n \<Longrightarrow> rhe y \<le> n"
  using rhe_mono [of y "of_int n"] by simp

lemma rhe_ge_int: "of_int n \<le> y \<Longrightarrow> n \<le> rhe y"
  using rhe_mono [of "of_int n" y] by simp

lemma rnd_0 [simp]: "rnd 0 = 0"
  by (simp add: rnd_def)

lemma rnd_pos_le:
  assumes "0 < x" and "x \<le> of_int m * pow2 e" and "fexp x \<le> e"
  shows "rnd x \<le> of_int m * pow2 e"
proof -
  obtain n where e: "e = fexp x + int n" using assms(3) by (metis zle_iff_zadd)
  have eq: "of_int m * pow2 e = of_int (m * 2 ^ n) * pow2 (fexp x)"
    by (simp add: e pow2_add pow2_nat)
  from assms(2) have "x \<le> of_int (m * 2 ^ n) * pow2 (fexp x)" by (simp only: eq)
  then have "x / pow2 (fexp x) \<le> of_int (m * 2 ^ n)"
    by (simp add: pos_divide_le_eq)
  then have "rhe (x / pow2 (fexp x)) \<le> m * 2 ^ n" by (rule rhe_le_int)
  then have "of_int (rhe (x / pow2 (fexp x))) * pow2 (fexp x) \<le> of_int (m * 2 ^ n) * pow2 (fexp x)"
    by (intro mult_right_mono) (simp_all only: of_int_le_iff order_less_imp_le pow2_pos)
  then show ?thesis unfolding eq rnd_def using assms(1) by simp
qed

lemma rnd_pos_ge:
  assumes "0 < x" and "of_int m * pow2 e \<le> x" and "fexp x \<le> e"
  shows "of_int m * pow2 e \<le> rnd x"
proof -
  obtain n where e: "e = fexp x + int n" using assms(3) by (metis zle_iff_zadd)
  have eq: "of_int m * pow2 e = of_int (m * 2 ^ n) * pow2 (fexp x)"
    by (simp add: e pow2_add pow2_nat)
  from assms(2) have "of_int (m * 2 ^ n) * pow2 (fexp x) \<le> x" by (simp only: eq)
  then have "of_int (m * 2 ^ n) \<le> x / pow2 (fexp x)"
    by (simp add: pos_le_divide_eq)
  then have "m * 2 ^ n \<le> rhe (x / pow2 (fexp x))" by (rule rhe_ge_int)
  then have "of_int (m * 2 ^ n) * pow2 (fexp x) \<le> of_int (rhe (x / pow2 (fexp x))) * pow2 (fexp x)"
    by (intro mult_right_mono) (simp_all only: of_int_le_iff order_less_imp_le pow2_pos)
  then show ?thesis unfolding eq rnd_def using assms(1) by simp
qed

lemma rnd_minus: "rnd (- x) = - rnd x"
proof -
  have r: "rhe (- y) = - rhe y" for y
  proof (cases "y = of_int \<lfloor>y\<rfloor>")
    case True
    then show ?thesis by (metis of_int_minus rhe_of_int)
  next
    case False
    then have "\<lceil>y\<rceil> = \<lfloor>y\<rfloor> + 1" by (metis ceiling_altdef)
    then have "\<lfloor>- y\<rfloor> = - \<lfloor>y\<rfloor> - 1" by (simp add: floor_minus)
    moreover have "(2 :: rat) * y = of_int (2 * \<lfloor>y\<rfloor> + 1) \<longleftrightarrow> y - of_int \<lfloor>y\<rfloor> = 1 / 2" by auto
    ultimately show ?thesis by (auto simp: rhe_def Let_def)
  qed
  have "fexp (- x) = fexp x" by (simp add: fexp_def)
  then show ?thesis by (simp add: rnd_def r)
qed

lemma rnd_mono_pos:
  assumes "0 < x" and "x \<le> y"
  shows "rnd x \<le> rnd y"
proof (cases "fexp x = fexp y")
  case True
  have "x / pow2 (fexp x) \<le> y / pow2 (fexp x)"
    using assms(2) by (intro divide_right_mono) (simp_all add: order_less_imp_le)
  then have "rhe (x / pow2 (fexp x)) \<le> rhe (y / pow2 (fexp x))" by (rule rhe_mono)
  then have "of_int (rhe (x / pow2 (fexp x))) * pow2 (fexp x)
      \<le> of_int (rhe (y / pow2 (fexp x))) * pow2 (fexp x)"
    by (intro mult_right_mono) (simp_all add: order_less_imp_le)
  with True assms show ?thesis by (simp add: rnd_def)
next
  case False
  from assms have le: "ilog2 x \<le> ilog2 y" by (rule ilog2_mono)
  with False assms have fx: "fexp x < fexp y" and fy: "fexp y = ilog2 y - 52"
    by (auto simp: fexp_def)
  define b where "b = pow2 (ilog2 y)"
  have b: "b = of_int (2 ^ 52) * pow2 (fexp y)"
    using pow2_add [of 52 "fexp y"] by (simp add: b_def fy pow2_def [of 52])
  have "ilog2 x + 1 \<le> ilog2 y" using fx fy assms(1) by (simp add: fexp_def)
  then have "x \<le> b"
    using ilog2_bounds(2) [OF assms(1)] pow2_mono [of "ilog2 x + 1" "ilog2 y"] by (simp add: b_def)
  then have "rnd x \<le> b" using rnd_pos_le [OF assms(1), of "2 ^ 52" "fexp y"] b fx by simp
  moreover have "b \<le> rnd y"
    using rnd_pos_ge [of y "2 ^ 52" "fexp y"] b assms ilog2_bounds(1) [of y] by (simp add: b_def)
  ultimately show ?thesis by simp
qed

lemma rnd_nonneg: "0 \<le> x \<Longrightarrow> 0 \<le> rnd x"
  using rnd_pos_ge [of x 0 "fexp x"] by (cases "x = 0") auto

lemma rnd_mono: "x \<le> y \<Longrightarrow> rnd x \<le> rnd y"
proof -
  assume le: "x \<le> y"
  consider "0 < x" | "x \<le> 0" "0 \<le> y" | "y < 0" using le by linarith
  then show ?thesis
  proof cases
    case 1
    then show ?thesis using le by (rule rnd_mono_pos)
  next
    case 2
    then show ?thesis using rnd_nonneg [of "- x"] rnd_nonneg [of y] by (simp add: rnd_minus)
  next
    case 3
    then show ?thesis using rnd_mono_pos [of "- y" "- x"] le by (simp add: rnd_minus)
  qed
qed

lemma rnd_rep_pos:
  assumes m: "0 < m" "m \<le> 2 ^ 53" and e: "- 1074 \<le> e"
  shows "rnd (of_int m * pow2 e) = of_int m * pow2 e"
proof -
  define x where "x = of_int m * pow2 e"
  have x: "0 < x" using m by (simp add: x_def)
  have "of_int m \<le> (of_int (2 ^ 53) :: rat)" using m(2) by (simp only: of_int_le_iff)
  then have "x \<le> pow2 (53 + e)"
    by (simp add: x_def pow2_add pow2_def [of 53] mult_right_mono order_less_imp_le)
  then have le: "ilog2 x \<le> 53 + e"
    using x ilog2_bounds(1) [OF x] pow2_less_iff [of "53 + e" "ilog2 x"] by linarith
  show ?thesis
  proof (cases "fexp x \<le> e")
    case True
    then show ?thesis
      using rnd_pos_le [OF x, of m e] rnd_pos_ge [OF x, of m e] by (simp add: x_def)
  next
    case False
    with le e x have fe: "fexp x = e + 1" and il: "ilog2 x = 53 + e" by (auto simp: fexp_def)
    from ilog2_bounds(1) [OF x] il have "pow2 (53 + e) \<le> x" by simp
    with \<open>x \<le> pow2 (53 + e)\<close> have "x = of_int (2 ^ 52) * pow2 (e + 1)"
      by (simp add: pow2_add pow2_def [of 53])
    then show ?thesis
      using rnd_pos_le [OF x, of "2 ^ 52" "e + 1"] rnd_pos_ge [OF x, of "2 ^ 52" "e + 1"] fe
      by (simp add: x_def)
  qed
qed

lemma rnd_rep:
  assumes "\<bar>m\<bar> \<le> 2 ^ 53" and "- 1074 \<le> e"
  shows "rnd (of_int m * pow2 e) = of_int m * pow2 e"
proof -
  consider "0 < m" | "m = 0" | "m < 0" by linarith
  then show ?thesis
  proof cases
    case 1
    then show ?thesis using assms by (intro rnd_rep_pos) auto
  next
    case 2
    then show ?thesis by simp
  next
    case 3
    then have "rnd (of_int (- m) * pow2 e) = of_int (- m) * pow2 e"
      using assms by (intro rnd_rep_pos) auto
    then have "rnd (- (of_int m * pow2 e)) = - (of_int m * pow2 e)" by simp
    then show ?thesis by (simp only: rnd_minus neg_equal_iff_equal)
  qed
qed

lemma rnd_error:
  assumes "pow2 (- 1022) \<le> \<bar>x\<bar>"
  shows "\<bar>rnd x - x\<bar> \<le> \<bar>x\<bar> * pow2 (- 53)"
proof -
  have x: "0 < \<bar>x\<bar>" "x \<noteq> 0" using assms pow2_pos [of "- 1022"] by linarith+
  have fe: "fexp x = ilog2 \<bar>x\<bar> - 52" using ilog2_ge [OF x(1) assms] by (simp add: fexp_def)
  define u where "u = pow2 (fexp x)"
  have u: "0 < u" by (simp add: u_def)
  have "\<bar>of_int (rhe (x / u)) - x / u\<bar> \<le> 1 / 2" using rhe_bounds [of "x / u"] by linarith
  then have "\<bar>of_int (rhe (x / u)) - x / u\<bar> * u \<le> 1 / 2 * u"
    using u by (intro mult_right_mono) auto
  moreover have "(of_int (rhe (x / u)) - x / u) * u = rnd x - x"
    using u x by (simp add: rnd_def left_diff_distrib flip: u_def)
  then have "\<bar>of_int (rhe (x / u)) - x / u\<bar> * u = \<bar>rnd x - x\<bar>"
    using u by (metis abs_mult abs_of_pos)
  moreover have "1 / 2 * u = pow2 (ilog2 \<bar>x\<bar>) * pow2 (- 53)"
    using pow2_add [of "ilog2 \<bar>x\<bar> - 52" "- 1"] pow2_add [of "ilog2 \<bar>x\<bar>" "- 53"]
    by (simp add: u_def fe pow2_def [of "- 1"])
  moreover have "pow2 (ilog2 \<bar>x\<bar>) * pow2 (- 53) \<le> \<bar>x\<bar> * pow2 (- 53)"
    using ilog2_bounds(1) [OF x(1)] by (intro mult_right_mono) (simp_all add: order_less_imp_le)
  ultimately show ?thesis by linarith
qed

section \<open>The interface of the rounding\<close>

text \<open>
  What the components use of the rounding: it is monotone, odd, exact on the representable
  numbers and within half a unit in the last place in the normal range.
\<close>

locale rounding =
  fixes R :: "rat \<Rightarrow> rat"
  assumes mono: "x \<le> y \<Longrightarrow> R x \<le> R y"
    and odd: "R (- x) = - R x"
    and exact: "\<bar>m\<bar> \<le> 2 ^ 53 \<Longrightarrow> - 1074 \<le> e \<Longrightarrow> R (of_int m * pow2 e) = of_int m * pow2 e"
    and error: "pow2 (- 1022) \<le> \<bar>x\<bar> \<Longrightarrow> \<bar>R x - x\<bar> \<le> \<bar>x\<bar> * pow2 (- 53)"
begin

lemma int_exact: "\<bar>m\<bar> \<le> 2 ^ 53 \<Longrightarrow> R (of_int m) = of_int m"
  using exact [of m 0] by simp

lemma zero: "R 0 = 0"
  using int_exact [of 0] by simp

lemma nonneg: "0 \<le> x \<Longrightarrow> 0 \<le> R x"
  using mono [of 0 x] zero by simp

lemma nonpos: "x \<le> 0 \<Longrightarrow> R x \<le> 0"
  using mono [of x 0] zero by simp

text \<open>Comparing a rounded quantity with a representable bound loses nothing on one side.\<close>

lemma ge_fixed: "R c = c \<Longrightarrow> c \<le> x \<Longrightarrow> c \<le> R x"
  using mono [of c x] by simp

lemma le_fixed: "R c = c \<Longrightarrow> x \<le> c \<Longrightarrow> R x \<le> c"
  using mono [of x c] by simp

lemma abs_le_fixed: "R c = c \<Longrightarrow> \<bar>x\<bar> \<le> c \<Longrightarrow> \<bar>R x\<bar> \<le> c"
  using le_fixed [of c x] le_fixed [of c "- x"] by (simp add: odd abs_le_iff)

lemma less_of_rounded: "R c = c \<Longrightarrow> R x < c \<Longrightarrow> x < c"
  using ge_fixed [of c x] by linarith

lemma pos_of_rounded: "0 < R x \<Longrightarrow> 0 < x"
  using nonpos [of x] by linarith

lemma half_ulp_upper: "pow2 (- 1022) \<le> x \<Longrightarrow> R x \<le> x * (1 + pow2 (- 53))"
  using error [of x] pow2_pos [of "- 1022"] by (simp add: distrib_left)

lemma half_ulp_lower: "pow2 (- 1022) \<le> x \<Longrightarrow> x * (1 - pow2 (- 53)) \<le> R x"
  using error [of x] pow2_pos [of "- 1022"] by (simp add: right_diff_distrib)

end

interpretation f64: rounding rnd
  by unfold_locales (fact rnd_mono rnd_minus rnd_rep rnd_error)+

section \<open>Floats and their operations\<close>

datatype pyfloat = Fin rat | PInf | NInf | NaN

text \<open>The float nearest to a rational; also what a decimal literal denotes.\<close>

definition f_overflow :: rat where
  "f_overflow = 2 ^ 1024"

definition mkf :: "rat \<Rightarrow> pyfloat" where
  "mkf x = (let r = rnd x in if f_overflow \<le> r then PInf else if r \<le> - f_overflow then NInf else Fin r)"

fun fneg :: "pyfloat \<Rightarrow> pyfloat" where
  "fneg (Fin a) = Fin (- a)"
| "fneg PInf = NInf"
| "fneg NInf = PInf"
| "fneg NaN = NaN"

fun fadd :: "pyfloat \<Rightarrow> pyfloat \<Rightarrow> pyfloat" where
  "fadd (Fin a) (Fin b) = mkf (a + b)"
| "fadd NaN y = NaN"
| "fadd x NaN = NaN"
| "fadd PInf NInf = NaN"
| "fadd NInf PInf = NaN"
| "fadd PInf y = PInf"
| "fadd NInf y = NInf"
| "fadd x PInf = PInf"
| "fadd x NInf = NInf"

definition fsub :: "pyfloat \<Rightarrow> pyfloat \<Rightarrow> pyfloat" where
  "fsub x y = fadd x (fneg y)"

text \<open>The infinity with the sign of a rational, not a number for zero.\<close>

definition signed_inf :: "rat \<Rightarrow> pyfloat" where
  "signed_inf a = (if 0 < a then PInf else if a < 0 then NInf else NaN)"

fun fmul :: "pyfloat \<Rightarrow> pyfloat \<Rightarrow> pyfloat" where
  "fmul (Fin a) (Fin b) = mkf (a * b)"
| "fmul NaN y = NaN"
| "fmul x NaN = NaN"
| "fmul (Fin a) PInf = signed_inf a"
| "fmul (Fin a) NInf = signed_inf (- a)"
| "fmul PInf (Fin b) = signed_inf b"
| "fmul NInf (Fin b) = signed_inf (- b)"
| "fmul PInf PInf = PInf"
| "fmul PInf NInf = NInf"
| "fmul NInf PInf = NInf"
| "fmul NInf NInf = PInf"

text \<open>\<open>x / y\<close> on floats raises on a zero divisor.\<close>

fun fdiv :: "pyfloat \<Rightarrow> pyfloat \<Rightarrow> pyfloat result" where
  "fdiv (Fin a) (Fin b) = (if b = 0 then Inl ZeroDivisionError else Inr (mkf (a / b)))"
| "fdiv PInf (Fin b) =
     (if b = 0 then Inl ZeroDivisionError else Inr (signed_inf b))"
| "fdiv NInf (Fin b) =
     (if b = 0 then Inl ZeroDivisionError else Inr (signed_inf (- b)))"
| "fdiv NaN (Fin b) = (if b = 0 then Inl ZeroDivisionError else Inr NaN)"
| "fdiv (Fin a) PInf = Inr (Fin 0)"
| "fdiv (Fin a) NInf = Inr (Fin 0)"
| "fdiv x y = Inr NaN"

fun fabs :: "pyfloat \<Rightarrow> pyfloat" where
  "fabs (Fin a) = Fin \<bar>a\<bar>"
| "fabs PInf = PInf"
| "fabs NInf = PInf"
| "fabs NaN = NaN"

text \<open>Comparisons; a NaN compares false with everything.\<close>

fun flt :: "pyfloat \<Rightarrow> pyfloat \<Rightarrow> bool" where
  "flt (Fin a) (Fin b) \<longleftrightarrow> a < b"
| "flt (Fin a) PInf \<longleftrightarrow> True"
| "flt NInf (Fin b) \<longleftrightarrow> True"
| "flt NInf PInf \<longleftrightarrow> True"
| "flt x y \<longleftrightarrow> False"

fun fle :: "pyfloat \<Rightarrow> pyfloat \<Rightarrow> bool" where
  "fle (Fin a) (Fin b) \<longleftrightarrow> a \<le> b"
| "fle (Fin a) PInf \<longleftrightarrow> True"
| "fle NInf (Fin b) \<longleftrightarrow> True"
| "fle NInf PInf \<longleftrightarrow> True"
| "fle PInf PInf \<longleftrightarrow> True"
| "fle NInf NInf \<longleftrightarrow> True"
| "fle x y \<longleftrightarrow> False"

definition feq :: "pyfloat \<Rightarrow> pyfloat \<Rightarrow> bool" where
  "feq x y \<longleftrightarrow> x \<noteq> NaN \<and> x = y"

text \<open>The truth value of a float: everything but zero.\<close>

definition ftruthy :: "pyfloat \<Rightarrow> bool" where
  "ftruthy x \<longleftrightarrow> x \<noteq> Fin 0"

text \<open>\<open>min(x, y)\<close> and \<open>max(x, y)\<close> keep the first argument unless the second is better.\<close>

definition fmin :: "pyfloat \<Rightarrow> pyfloat \<Rightarrow> pyfloat" where
  "fmin x y = (if flt y x then y else x)"

definition fmax :: "pyfloat \<Rightarrow> pyfloat \<Rightarrow> pyfloat" where
  "fmax x y = (if flt x y then y else x)"

text \<open>\<open>float(n)\<close>, also applied to the integer operand of a mixed operation.\<close>

definition of_pyint :: "int \<Rightarrow> pyfloat result" where
  "of_pyint n = (case mkf (of_int n) of Fin r \<Rightarrow> Inr (Fin r) | _ \<Rightarrow> Inl OverflowError)"

text \<open>\<open>a / b\<close> on integers is the correctly rounded quotient.\<close>

definition truediv :: "int \<Rightarrow> int \<Rightarrow> pyfloat result" where
  "truediv a b = (if b = 0 then Inl ZeroDivisionError
     else case mkf (of_int a / of_int b) of Fin r \<Rightarrow> Inr (Fin r) | _ \<Rightarrow> Inl OverflowError)"

text \<open>\<open>int(x)\<close> truncates towards zero.\<close>

definition rtrunc :: "rat \<Rightarrow> int" where
  "rtrunc a = (if 0 \<le> a then \<lfloor>a\<rfloor> else \<lceil>a\<rceil>)"

fun ftrunc :: "pyfloat \<Rightarrow> int result" where
  "ftrunc (Fin a) = Inr (rtrunc a)"
| "ftrunc NaN = Inl (ValueError ''cannot convert float NaN to integer'')"
| "ftrunc x = Inl OverflowError"

text \<open>\<open>round(x, n)\<close>: the float nearest to the exact value rounded at \<open>n\<close> decimals.\<close>

fun fround :: "pyfloat \<Rightarrow> nat \<Rightarrow> pyfloat" where
  "fround (Fin a) n = mkf (of_int (rhe (a * 10 ^ n)) / 10 ^ n)"
| "fround x n = x"

text \<open>\<open>sum(xs)\<close> adds from the left, starting with zero.\<close>

definition fsum :: "pyfloat list \<Rightarrow> pyfloat" where
  "fsum xs = fold (\<lambda>x acc. fadd acc x) xs (Fin 0)"

text \<open>The value of a finite float.\<close>

fun rat_of :: "pyfloat \<Rightarrow> rat" where
  "rat_of (Fin a) = a"
| "rat_of x = 0"

definition is_fin :: "pyfloat \<Rightarrow> bool" where
  "is_fin x \<longleftrightarrow> (case x of Fin r \<Rightarrow> True | _ \<Rightarrow> False)"

section \<open>Facts the components use\<close>

text \<open>A certificate for the rounding of a concrete number: its exponent and its mantissa.\<close>

lemma rnd_eqI:
  assumes "- 1074 \<le> e" and "pow2 (e + 52) \<le> x" and "x < pow2 (e + 53)"
    and "\<bar>x - of_int m * pow2 e\<bar> < pow2 e / 2"
  shows "rnd x = of_int m * pow2 e"
proof -
  have x: "0 < x" using assms(2) pow2_pos [of "e + 52"] by linarith
  have "ilog2 x = e + 52"
    using ilog2_ge [OF x assms(2)] ilog2_less [OF x assms(3)] by linarith
  then have fe: "fexp x = e" using x assms(1) by (simp add: fexp_def)
  have "\<bar>x / pow2 e - of_int m\<bar> * pow2 e = \<bar>x - of_int m * pow2 e\<bar>"
    using abs_mult [of "x / pow2 e - of_int m" "pow2 e"]
    by (simp add: left_diff_distrib order_less_imp_le)
  then have "\<bar>x / pow2 e - of_int m\<bar> * pow2 e < 1 / 2 * pow2 e" using assms(4) by simp
  then have near: "\<bar>x / pow2 e - of_int m\<bar> < 1 / 2" by (simp only: mult_less_cancel_right_pos pow2_pos)
  have "rhe (x / pow2 e) = m"
    using rhe_bounds [of "x / pow2 e"] near by linarith
  then show ?thesis using x fe by (simp add: rnd_def)
qed

lemma mkf_Fin: "\<bar>rnd x\<bar> < f_overflow \<Longrightarrow> mkf x = Fin (rnd x)"
  by (auto simp: mkf_def Let_def)

lemma mkf_eqI:
  assumes "- 1074 \<le> e" and "pow2 (e + 52) \<le> x" and "x < pow2 (e + 53)"
    and "\<bar>x - of_int m * pow2 e\<bar> < pow2 e / 2" and "\<bar>of_int m * pow2 e\<bar> < f_overflow"
  shows "mkf x = Fin (of_int m * pow2 e)"
  using rnd_eqI [OF assms(1-4)] mkf_Fin [of x] assms(5) by simp

lemma f_overflow_big: "2 ^ 53 < f_overflow"
  unfolding f_overflow_def by (rule power_strict_increasing) simp_all

lemma mkf_rep:
  assumes "\<bar>m\<bar> \<le> 2 ^ 53" and "- 1074 \<le> e" and "e \<le> 0"
  shows "mkf (of_int m * pow2 e) = Fin (of_int m * pow2 e)"
proof -
  have "\<bar>of_int m :: rat\<bar> \<le> 2 ^ 53"
    using assms(1) by (metis of_int_abs of_int_le_iff of_int_numeral of_int_power)
  moreover have "pow2 e \<le> 1" using pow2_mono [OF assms(3)] by simp
  ultimately have "\<bar>of_int m :: rat\<bar> * pow2 e \<le> 2 ^ 53 * 1"
    by (intro mult_mono) (simp_all add: order_less_imp_le)
  then have "\<bar>of_int m * pow2 e\<bar> < f_overflow" using f_overflow_big by (simp add: abs_mult)
  then show ?thesis using mkf_Fin rnd_rep [OF assms(1,2)] by metis
qed

lemma mkf_of_int: "\<bar>m\<bar> \<le> 2 ^ 53 \<Longrightarrow> mkf (of_int m) = Fin (of_int m)"
  using mkf_rep [of m 0] by simp

lemma mkf_numeral [simp]:
  "numeral n \<le> (2 ^ 53 :: int) \<Longrightarrow> mkf (numeral n) = Fin (numeral n)"
  "numeral n \<le> (2 ^ 53 :: int) \<Longrightarrow> mkf (- numeral n) = Fin (- numeral n)"
  using mkf_of_int [of "numeral n"] mkf_of_int [of "- numeral n"] by simp_all

lemma mkf_0_1 [simp]: "mkf 0 = Fin 0" "mkf 1 = Fin 1"
  using mkf_of_int [of 0] mkf_of_int [of 1] by simp_all

lemma of_pyint_small: "\<bar>m\<bar> \<le> 2 ^ 53 \<Longrightarrow> of_pyint m = Inr (Fin (of_int m))"
  by (simp add: of_pyint_def mkf_of_int)

lemma mkf_not_NaN [simp]: "mkf x \<noteq> NaN"
  by (simp add: mkf_def Let_def)

lemma mkf_Fin_D: "mkf x = Fin r \<Longrightarrow> r = rnd x"
  by (auto simp: mkf_def Let_def split: if_splits)

lemma truediv_Inr: "truediv a b = Inr q \<Longrightarrow> b \<noteq> 0 \<and> q = Fin (rnd (of_int a / of_int b))"
  using mkf_Fin_D [of "of_int a / of_int b"]
  by (cases "mkf (of_int a / of_int b)") (auto simp: truediv_def split: if_splits)

lemma truediv_0 [simp]: "truediv a 0 = Inl ZeroDivisionError"
  by (simp add: truediv_def)

lemma of_pyint_Inr: "of_pyint n = Inr q \<Longrightarrow> q = Fin (rnd (of_int n))"
  by (cases "mkf (of_int n)") (auto simp: of_pyint_def dest: mkf_Fin_D)

text \<open>An integer quotient of moderate size never overflows.\<close>

lemma truediv_small:
  assumes "b \<noteq> 0" and "\<bar>a\<bar> \<le> 2 ^ 53"
  shows "truediv a b = Inr (Fin (rnd (of_int a / of_int b)))"
proof -
  have "1 \<le> \<bar>of_int b :: rat\<bar>" using assms(1) by (metis int_one_le_iff_zero_less of_int_1_le_iff of_int_abs zero_less_abs_iff)
  then have "\<bar>of_int a / of_int b\<bar> \<le> \<bar>of_int a :: rat\<bar> / 1"
    unfolding abs_divide by (intro divide_left_mono) auto
  also have "\<dots> \<le> 2 ^ 53"
    using assms(2) by (metis div_by_1 of_int_abs of_int_le_iff of_int_numeral of_int_power)
  finally have q: "\<bar>of_int a / of_int b :: rat\<bar> \<le> 2 ^ 53" .
  have f: "rnd (2 ^ 53) = 2 ^ 53" using f64.int_exact [of "2 ^ 53"] by simp
  from f64.abs_le_fixed [OF f q] have "mkf (of_int a / of_int b) = Fin (rnd (of_int a / of_int b))"
    using f_overflow_big by (intro mkf_Fin) simp
  then show ?thesis using assms(1) by (simp add: truediv_def)
qed

lemma fle_iff: "fle x y \<longleftrightarrow> flt x y \<or> feq x y"
  by (cases x; cases y) (auto simp: feq_def)

lemma flt_irrefl [simp]: "\<not> flt x x"
  by (cases x) auto

lemma flt_trans: "flt x y \<Longrightarrow> flt y z \<Longrightarrow> flt x z"
  by (cases x; cases y; cases z) auto

lemma fle_trans: "fle x y \<Longrightarrow> fle y z \<Longrightarrow> fle x z"
  by (cases x; cases y; cases z) auto

lemma not_flt_fle: "x \<noteq> NaN \<Longrightarrow> y \<noteq> NaN \<Longrightarrow> \<not> flt x y \<longleftrightarrow> fle y x"
  by (cases x; cases y) auto

lemma fsum_Nil [simp]: "fsum [] = Fin 0"
  by (simp add: fsum_def)

lemma fsum_snoc [simp]: "fsum (xs @ [x]) = fadd (fsum xs) x"
  by (simp add: fsum_def)

lemma rtrunc_nonneg: "0 \<le> a \<Longrightarrow> 0 \<le> rtrunc a"
  by (simp add: rtrunc_def)

lemma rtrunc_le: "0 \<le> a \<Longrightarrow> of_int (rtrunc a) \<le> a"
  by (simp add: rtrunc_def)

lemma rtrunc_of_int [simp]: "rtrunc (of_int n) = n"
  by (simp add: rtrunc_def)

section \<open>Truncated quotients\<close>

text \<open>
  Scaling an integer by a float just above \<open>1 / d\<close> and truncating is exact integer division, as long as
  the integer stays below \<open>2^52\<close>; so is truncating a rounded quotient.
\<close>

lemma trunc_scaled:
  assumes d: "0 < d" "d \<le> 2 ^ 53" and n: "0 \<le> n" "n < 2 ^ 52" and c: "1 / of_int d \<le> c" "c \<le> (1 / of_int d) * (1 + pow2 (- 53))"
  shows "rtrunc (rnd (of_int n * c)) = n div d"
proof (cases "n = 0")
  case True
  then show ?thesis by (simp add: rtrunc_def)
next
  case False
  define x where "x = of_int n * c"
  have dd: "(0 :: rat) < of_int d" using d by simp
  have q: "n div d * d + n mod d = n" "0 \<le> n mod d" "n mod d \<le> d - 1" using d by simp_all
  have lo: "of_int (n div d) \<le> x"
  proof -
    have "(of_int (n div d) :: rat) \<le> of_int n * (1 / of_int d)"
    proof -
      have "(of_int (n div d * d) :: rat) \<le> of_int n" using q by (simp only: of_int_le_iff)
      then show ?thesis using dd by (simp add: field_simps)
    qed
    also have "\<dots> \<le> x" unfolding x_def using n c by (intro mult_left_mono) auto
    finally show ?thesis .
  qed
  have "n div d \<le> n" using n d by (metis div_by_1 int_one_le_iff_zero_less zdiv_mono2 zero_less_one)
  then have fx: "rnd (of_int (n div d)) = of_int (n div d)"
    using n d pos_imp_zdiv_nonneg_iff [of d n] by (intro f64.int_exact) auto
  have low: "of_int (n div d) \<le> rnd x" by (rule f64.ge_fixed [OF fx lo])
  have "(of_int d :: rat) \<le> of_int (2 ^ 53)" using d by (simp only: of_int_le_iff)
  then have "pow2 (- 53) \<le> 1 / of_int d" using dd by (simp add: pow2_def field_simps)
  then have "pow2 (- 1022) \<le> c" using c pow2_mono [of "- 1022" "- 53"] by simp
  moreover have "1 * c \<le> of_int n * c"
    using n False c dd by (intro mult_right_mono) (auto intro: order_trans [rotated])
  ultimately have "pow2 (- 1022) \<le> x" by (simp add: x_def)
  then have "rnd x \<le> x * (1 + pow2 (- 53))" by (rule f64.half_ulp_upper)
  also have "\<dots> \<le> (of_int n * ((1 / of_int d) * (1 + pow2 (- 53)))) * (1 + pow2 (- 53))"
    unfolding x_def using n c pow2_pos [of "- 53"] by (intro mult_right_mono mult_left_mono) (auto simp: pow2_def)
  also have "\<dots> = of_int n / of_int d + of_int n / of_int d * (2 * pow2 (- 53) + pow2 (- 53) * pow2 (- 53))"
    by (simp add: algebra_simps add_divide_distrib)
  also have "\<dots> < of_int n / of_int d + 1 / of_int d"
  proof -
    have "of_int n * (2 * pow2 (- 53) + pow2 (- 53) * pow2 (- 53)) < (1 :: rat)"
    proof -
      have "n \<le> 2 ^ 52 - 1" using n by simp
      then have "(of_int n :: rat) \<le> of_int (2 ^ 52 - 1)" by (simp only: of_int_le_iff)
      then have "of_int n * (2 * pow2 (- 53) + pow2 (- 53) * pow2 (- 53)) \<le> of_int (2 ^ 52 - 1) * (2 * pow2 (- 53) + pow2 (- 53) * pow2 (- 53))"
        by (intro mult_right_mono) (auto simp: pow2_def)
      also have "\<dots> < 1" by (simp add: pow2_def)
      finally show ?thesis .
    qed
    then show ?thesis using dd by (simp add: divide_strict_right_mono)
  qed
  also have "\<dots> \<le> of_int (n div d) + 1"
  proof -
    have "n + 1 \<le> (n div d + 1) * d" using q unfolding distrib_right by linarith
    then have "(of_int (n + 1) :: rat) \<le> of_int ((n div d + 1) * d)" by (simp only: of_int_le_iff)
    then show ?thesis using dd by (simp add: field_simps)
  qed
  finally have "rnd x < of_int (n div d) + 1" .
  then have "\<lfloor>rnd x\<rfloor> = n div d" using low by (intro floor_unique) auto
  moreover have "0 \<le> rnd x"
    using low n d pos_imp_zdiv_nonneg_iff [of d n] by (meson of_int_0_le_iff order_trans)
  ultimately show ?thesis by (simp add: rtrunc_def x_def)
qed
lemma trunc_quotient:
  assumes "0 < d" "d \<le> 2 ^ 53" and "0 \<le> n" "n < 2 ^ 52"
  shows "\<exists>q. truediv n d = Inr q \<and> ftrunc q = Inr (n div d)"
proof -
  have "rtrunc (rnd (of_int n * (1 / of_int d))) = n div d"
    using assms by (intro trunc_scaled) (simp_all add: field_simps pow2_def)
  then show ?thesis using assms by (simp add: truediv_small)
qed

section \<open>Absolute errors\<close>

text \<open>The error of one rounding for a bounded argument, subnormal results included.\<close>

lemma rnd_abs_error:
  assumes "\<bar>x\<bar> \<le> b"
  shows "\<bar>rnd x - x\<bar> \<le> b * pow2 (- 53) + pow2 (- 1021)"
proof (cases "pow2 (- 1022) \<le> \<bar>x\<bar>")
  case True
  have "\<bar>x\<bar> * pow2 (- 53) \<le> b * pow2 (- 53)"
    using assms by (intro mult_right_mono) (simp_all add: order_less_imp_le)
  with f64.error [OF True] pow2_pos [of "- 1021"] show ?thesis by linarith
next
  case False
  have "rnd (pow2 (- 1022)) = pow2 (- 1022)" using rnd_rep [of 1 "- 1022"] by simp
  then have "\<bar>rnd x\<bar> \<le> pow2 (- 1022)" using False by (intro f64.abs_le_fixed) simp_all
  moreover have "pow2 (- 1021) = 2 * pow2 (- 1022)" using pow2_add [of 1 "- 1022"] by simp
  moreover have "0 \<le> b * pow2 (- 53)" using assms by (intro mult_nonneg_nonneg) (auto simp: order_less_imp_le)
  ultimately show ?thesis using False by linarith
qed

text \<open>Rounded numbers of moderate size do not overflow.\<close>

lemma mkf_moderate:
  assumes "\<bar>x\<bar> \<le> 2 ^ 53"
  shows "mkf x = Fin (rnd x)"
proof -
  have "rnd (2 ^ 53) = 2 ^ 53" using f64.int_exact [of "2 ^ 53"] by simp
  then have "\<bar>rnd x\<bar> \<le> 2 ^ 53" using assms by (rule f64.abs_le_fixed)
  then show ?thesis using f_overflow_big by (intro mkf_Fin) linarith
qed

lemma fround_error:
  assumes "\<bar>x\<bar> \<le> b" and "b \<le> 2 ^ 52"
  shows "\<exists>r. fround (Fin x) n = Fin r \<and> \<bar>r - x\<bar> \<le> 1 / (2 * 10 ^ n) + (b + 1) * pow2 (- 53) + pow2 (- 1021)"
proof -
  define y where "y = of_int (rhe (x * 10 ^ n)) / (10 ^ n :: rat)"
  have p: "(1 :: rat) \<le> 10 ^ n" by simp
  have "\<bar>of_int (rhe (x * 10 ^ n)) - x * 10 ^ n\<bar> \<le> (1 / 2 :: rat)"
    using rhe_bounds [of "x * 10 ^ n"] by linarith
  moreover have "\<bar>y - x\<bar> * 10 ^ n = \<bar>of_int (rhe (x * 10 ^ n)) - x * 10 ^ n\<bar>"
    using abs_mult [of "y - x" "10 ^ n"] by (simp add: y_def left_diff_distrib)
  ultimately have "\<bar>y - x\<bar> * 10 ^ n \<le> 1 / 2" by simp
  then have d: "\<bar>y - x\<bar> \<le> 1 / (2 * 10 ^ n)" by (simp add: field_simps)
  have "(1 :: rat) \<le> 2 * 10 ^ n" using p by linarith
  then have "1 / (2 * 10 ^ n) \<le> (1 :: rat)" by simp
  with d assms(1) have y: "\<bar>y\<bar> \<le> b + 1" by linarith
  have "fround (Fin x) n = mkf y" by (simp add: y_def)
  also have "\<dots> = Fin (rnd y)" using y assms(2) by (intro mkf_moderate) simp
  finally show ?thesis using rnd_abs_error [OF y] d by force
qed

text \<open>A value closer than half a unit of the last decimal to a multiple of it.\<close>

lemma rhe_near: "\<bar>y - of_int k\<bar> < 1 / 2 \<Longrightarrow> rhe y = k"
  using rhe_bounds [of y] by linarith

lemma fround_near: "\<bar>x * 10 ^ n - of_int k\<bar> < 1 / 2 \<Longrightarrow> fround (Fin x) n = mkf (of_int k / 10 ^ n)"
  by (simp add: rhe_near)

end
