(* ===== verification/PyStr.thy ===== *)
theory PyStr
  imports PyFloat "HOL-Library.Char_ord" "HOL-Library.List_Lexorder"
begin

text \<open>
  Text the program builds: decimal integers, \<open>repr\<close> of a float (the shortest digits that read back
  as the same float), fixed-point formats and \<open>json.dumps\<close>. Keys of a JSON object are sorted by
  code point where the source passes \<open>sort_keys=True\<close>.
\<close>

section \<open>Integers\<close>

definition digit_char :: "nat \<Rightarrow> char" where
  "digit_char n = ''0123456789'' ! n"

fun dec_nat :: "nat \<Rightarrow> string" where
  "dec_nat n = (if n < 10 then [digit_char n] else dec_nat (n div 10) @ [digit_char (n mod 10)])"

declare dec_nat.simps [simp del]

definition dec_int :: "int \<Rightarrow> string" where
  "dec_int n = (if n < 0 then ''-'' @ dec_nat (nat (- n)) else dec_nat (nat n))"

section \<open>Floats\<close>

definition pow10 :: "int \<Rightarrow> rat" where
  "pow10 e = (if 0 \<le> e then 10 ^ nat e else 1 / 10 ^ nat (- e))"

text \<open>The decimal exponent, from the binary one and corrected by comparison.\<close>

definition ilog10 :: "rat \<Rightarrow> int" where
  "ilog10 x = (let k = (ilog2 x * 1233) div 4096
     in if pow10 (k + 1) \<le> x then k + 1 else if x < pow10 k then k - 1 else k)"

text \<open>
  The nearer of the two decimals of \<open>n\<close> digits around a positive \<open>x\<close> that reads back as \<open>x\<close>,
  as its digits and the exponent of its last digit.
\<close>

definition shortest_at :: "rat \<Rightarrow> nat \<Rightarrow> (nat \<times> int) option" where
  "shortest_at x n = (let e = ilog10 x - int n + 1; y = x / pow10 e; lo = \<lfloor>y\<rfloor>; hi = lo + 1;
       ok = (\<lambda>m. mkf (of_int m * pow10 e) = Fin x);
       near = (if y - of_int lo \<le> of_int hi - y then [lo, hi] else [hi, lo])
     in case filter ok near of [] \<Rightarrow> None | m # _ \<Rightarrow> Some (nat m, e))"

fun shortest_from :: "rat \<Rightarrow> nat list \<Rightarrow> nat \<times> int" where
  "shortest_from x [] = (nat \<lfloor>x / pow10 (ilog10 x - 16)\<rfloor>, ilog10 x - 16)"
| "shortest_from x (n # ns) = (case shortest_at x n of Some r \<Rightarrow> r | None \<Rightarrow> shortest_from x ns)"

definition strip_zeros :: "string \<Rightarrow> string" where
  "strip_zeros s = rev (dropWhile (\<lambda>c. c = CHR ''0'') (rev s))"

definition repr_pos :: "rat \<Rightarrow> string" where
  "repr_pos x = (let (m, e) = shortest_from x [1..<18]; full = dec_nat m; ds = strip_zeros full;
       point = int (length full) + e
     in if point \<le> - 4 \<or> 16 < point then
          (let k = point - 1; ks = dec_int \<bar>k\<bar>
           in take 1 ds @ (if length ds = 1 then [] else ''.'' @ drop 1 ds) @ ''e''
              @ (if k < 0 then ''-'' else ''+'') @ (if length ks = 1 then ''0'' @ ks else ks))
        else if point \<le> 0 then ''0.'' @ replicate (nat (- point)) (CHR ''0'') @ ds
        else if int (length ds) \<le> point
          then ds @ replicate (nat point - length ds) (CHR ''0'') @ ''.0''
        else take (nat point) ds @ ''.'' @ drop (nat point) ds)"

definition repr_fin :: "rat \<Rightarrow> string" where
  "repr_fin x = (if x = 0 then ''0.0'' else if x < 0 then ''-'' @ repr_pos (- x) else repr_pos x)"

fun frepr :: "pyfloat \<Rightarrow> string" where
  "frepr (Fin x) = repr_fin x"
| "frepr PInf = ''inf''"
| "frepr NInf = ''-inf''"
| "frepr NaN = ''nan''"

text \<open>\<open>f"{x:.nf}"\<close>.\<close>

definition fixed_pos :: "nat \<Rightarrow> rat \<Rightarrow> string" where
  "fixed_pos n x = (let m = nat (rhe (x * 10 ^ n)); ds = dec_nat (m mod 10 ^ n)
     in dec_nat (m div 10 ^ n)
        @ (if n = 0 then [] else ''.'' @ replicate (n - length ds) (CHR ''0'') @ ds))"

fun ffixed :: "nat \<Rightarrow> pyfloat \<Rightarrow> string" where
  "ffixed n (Fin x) = (if x < 0 then ''-'' @ fixed_pos n (- x) else fixed_pos n x)"
| "ffixed n PInf = ''inf''"
| "ffixed n NInf = ''-inf''"
| "ffixed n NaN = ''nan''"

section \<open>JSON\<close>

datatype json =
    JNull
  | JBool bool
  | JInt int
  | JFloat pyfloat
  | JStr string
  | JList "json list"
  | JObj "(string \<times> json) list"

definition join :: "string \<Rightarrow> string list \<Rightarrow> string" where
  "join sep xs = concat (case xs of [] \<Rightarrow> [] | y # ys \<Rightarrow> y # map (\<lambda>s. sep @ s) ys)"

definition hex4 :: "nat \<Rightarrow> string" where
  "hex4 n = map (\<lambda>i. ''0123456789abcdef'' ! (n div 16 ^ (3 - i) mod 16)) [0..<4]"

text \<open>\<open>ascii\<close> is the argument \<open>ensure_ascii\<close>.\<close>

definition escape_char :: "bool \<Rightarrow> char \<Rightarrow> string" where
  "escape_char ascii c = (let n = of_char c :: nat; bs = CHR 0x5C in
     if n = 34 \<or> n = 92 then [bs, c]
     else if n = 10 then [bs, CHR ''n'']
     else if n = 13 then [bs, CHR ''r'']
     else if n = 9 then [bs, CHR ''t'']
     else if n = 12 then [bs, CHR ''f'']
     else if n = 8 then [bs, CHR ''b'']
     else if n < 32 \<or> ascii \<and> 126 < n then [bs, CHR ''u''] @ hex4 n
     else [c])"

definition json_string :: "bool \<Rightarrow> string \<Rightarrow> string" where
  "json_string ascii s = [CHR 0x22] @ concat (map (escape_char ascii) s) @ [CHR 0x22]"

fun json_float :: "pyfloat \<Rightarrow> string" where
  "json_float (Fin x) = repr_fin x"
| "json_float PInf = ''Infinity''"
| "json_float NInf = ''-Infinity''"
| "json_float NaN = ''NaN''"

definition json_object :: "bool \<Rightarrow> bool \<Rightarrow> (string \<times> string) list \<Rightarrow> string" where
  "json_object ascii sorted_keys kvs =
     (let ordered = (if sorted_keys then sort_key fst kvs else kvs)
      in ''{'' @ join '', '' (map (\<lambda>(k, v). json_string ascii k @ '': '' @ v) ordered) @ ''}'')"

fun dumps :: "bool \<Rightarrow> bool \<Rightarrow> json \<Rightarrow> string" where
  "dumps ascii sk JNull = ''null''"
| "dumps ascii sk (JBool b) = (if b then ''true'' else ''false'')"
| "dumps ascii sk (JInt n) = dec_int n"
| "dumps ascii sk (JFloat x) = json_float x"
| "dumps ascii sk (JStr s) = json_string ascii s"
| "dumps ascii sk (JList xs) = ''['' @ join '', '' (map (dumps ascii sk) xs) @ '']''"
| "dumps ascii sk (JObj kvs) =
     json_object ascii sk (map (\<lambda>(k, v). (k, dumps ascii sk v)) kvs)"

text \<open>\<open>json.dumps(x, sort_keys=True)\<close>.\<close>

definition dumps_sorted :: "json \<Rightarrow> string" where
  "dumps_sorted = dumps True True"

definition jstrs :: "string list \<Rightarrow> json" where
  "jstrs xs = JList (map JStr xs)"

section \<open>Characters of the printed values\<close>

text \<open>
  Numbers print without quotes, and a string of plain characters prints as itself between quotes.
  This is what makes a field of a hashed JSON text recoverable from the text.
\<close>

definition plain_char :: "char \<Rightarrow> bool" where
  "plain_char c \<longleftrightarrow> (let n = of_char c :: nat in 32 \<le> n \<and> n \<le> 126 \<and> n \<noteq> 34 \<and> n \<noteq> 92)"

definition plain :: "string \<Rightarrow> bool" where
  "plain s \<longleftrightarrow> list_all plain_char s"

lemma plain_simps [simp]:
  "plain []"
  "plain (c # s) \<longleftrightarrow> plain_char c \<and> plain s"
  "plain (s @ t) \<longleftrightarrow> plain s \<and> plain t"
  "plain (if b then s else t) \<longleftrightarrow> (if b then plain s else plain t)"
  by (simp_all add: plain_def)

lemma plain_no_quote: "plain s \<Longrightarrow> CHR 0x22 \<notin> set s"
  by (auto simp: plain_def list_all_iff plain_char_def)

lemma plain_subset: "plain s \<Longrightarrow> set t \<subseteq> set s \<Longrightarrow> plain t"
  by (auto simp: plain_def list_all_iff)

lemma plain_parts [simp]:
  "plain s \<Longrightarrow> plain (take n s)"
  "plain s \<Longrightarrow> plain (drop n s)"
  "plain s \<Longrightarrow> plain (strip_zeros s)"
  by (erule plain_subset, auto simp: strip_zeros_def dest: in_set_takeD in_set_dropD set_dropWhileD)+

lemma plain_replicate [simp]: "plain_char c \<Longrightarrow> plain (replicate n c)"
  by (auto simp: plain_def list_all_iff)

lemma json_string_plain: "plain s \<Longrightarrow> json_string ascii s = [CHR 0x22] @ s @ [CHR 0x22]"
proof -
  assume "plain s"
  then have "concat (map (escape_char ascii) s) = s"
    by (induction s) (auto simp: escape_char_def plain_char_def Let_def)
  then show ?thesis by (simp add: json_string_def)
qed

lemma plain_digit [simp]: "n < 10 \<Longrightarrow> plain_char (digit_char n)"
proof -
  assume "n < 10"
  then have "digit_char n \<in> set ''0123456789''" unfolding digit_char_def by (intro nth_mem) simp
  then show ?thesis by (auto simp: plain_char_def)
qed

lemma plain_dec_nat [simp]: "plain (dec_nat n)"
proof (induction n rule: dec_nat.induct)
  case (1 n)
  then show ?case by (subst dec_nat.simps) simp
qed

lemma plain_dec_int [simp]: "plain (dec_int n)"
  by (simp add: dec_int_def plain_char_def)

lemma plain_repr_pos [simp]: "plain (repr_pos x)"
  by (simp add: repr_pos_def Let_def case_prod_beta plain_char_def)

lemma plain_json_float [simp]: "plain (json_float x)"
  by (cases x) (simp_all add: repr_fin_def plain_char_def)

text \<open>Splitting a text at the last occurrence of a character is unambiguous.\<close>

lemma split_at_first:
  "p @ c # q = p' @ c # q' \<Longrightarrow> c \<notin> set p \<Longrightarrow> c \<notin> set p' \<Longrightarrow> p = p' \<and> q = q'"
  by (induction p arbitrary: p') (auto simp: Cons_eq_append_conv append_eq_Cons_conv)

lemma split_at_last:
  assumes "a @ c # b = a' @ c # b'" and "c \<notin> set b" and "c \<notin> set b'"
  shows "a = a' \<and> b = b'"
proof -
  have "rev b @ c # rev a = rev b' @ c # rev a'"
    using arg_cong [OF assms(1), of rev] by simp
  from split_at_first [OF this] assms(2,3) show ?thesis by simp
qed

text \<open>A text that ends in a fixed number of quote-free fields, each after a quote.\<close>

definition quote_fields :: "string list \<Rightarrow> string" where
  "quote_fields bs = concat (map (Cons (CHR 0x22)) bs)"

lemma quote_fields_inj:
  assumes "a @ quote_fields bs = a' @ quote_fields bs'" and "length bs = length bs'"
    and "list_all (\<lambda>b. CHR 0x22 \<notin> set b) bs" and "list_all (\<lambda>b. CHR 0x22 \<notin> set b) bs'"
  shows "a = a' \<and> bs = bs'"
  using assms
proof (induction bs arbitrary: bs' rule: rev_induct)
  case Nil
  then show ?case by simp
next
  case (snoc b bs)
  then obtain cs c where bs': "bs' = cs @ [c]" by (metis length_append_singleton length_0_conv nat.distinct(1) rev_exhaust)
  with snoc.prems have "(a @ quote_fields bs) @ CHR 0x22 # b = (a' @ quote_fields cs) @ CHR 0x22 # c"
    by (simp add: quote_fields_def)
  from split_at_last [OF this] snoc.prems(3,4) bs'
  have "a @ quote_fields bs = a' @ quote_fields cs" and "b = c" by auto
  with snoc.IH [of cs] snoc.prems bs' show ?case by auto
qed

end
