(* ===== verification/L3_Config.thy ===== *)
theory L3_Config
  imports PyStr
begin

text \<open>
  \<open>membra-l3/membra_l3/config.py\<close>: the tokens, the routes between them and the policy parameters.
  Decimal literals are the floats nearest to them.
\<close>

datatype chain = SOLANA | ETHEREUM | BASE | ARBITRUM | POLYGON

fun chain_value :: "chain \<Rightarrow> string" where
  "chain_value SOLANA = ''solana''"
| "chain_value ETHEREUM = ''ethereum''"
| "chain_value BASE = ''base''"
| "chain_value ARBITRUM = ''arbitrum''"
| "chain_value POLYGON = ''polygon''"

datatype token_status = APPROVED | PENDING | DEPRECATED | BLACKLISTED

record token_config =
  tc_symbol :: string
  tc_name :: string
  tc_chain :: chain
  tc_address :: string
  tc_decimals :: int
  tc_status :: token_status
  tc_min_route_amount :: int
  tc_max_route_amount :: int

record route_config =
  rc_from_token :: string
  rc_to_token :: string
  rc_adapter :: string
  rc_fee_bps :: int
  rc_min_liquidity_usd :: pyfloat
  rc_enabled :: bool

record l3_config =
  intent_claim_window_seconds :: int
  max_intent_amount_usd :: pyfloat
  min_intent_amount_usd :: pyfloat
  gas_vault_min_coverage_ratio :: pyfloat
  gas_vault_target_coverage_ratio :: pyfloat
  fee_credit_expiry_seconds :: int
  max_fee_credit_per_user_usd :: pyfloat
  volatility_twap_window_seconds :: int
  volatility_min_data_points :: int
  volatility_signal_threshold :: pyfloat
  oracle_staleness_seconds :: int
  dev_required_approvals :: int
  dev_review_window_seconds :: int
  max_supply :: int
  max_emission_per_epoch :: int
  epoch_duration_seconds :: int
  cfg_tokens :: "token_config dict"
  cfg_routes :: "route_config list"

text \<open>The constructors with the dataclass defaults for the fields the source leaves out.\<close>

definition mk_token :: "string \<Rightarrow> string \<Rightarrow> chain \<Rightarrow> string \<Rightarrow> int \<Rightarrow> token_config" where
  "mk_token tok nm ch addr dec = \<lparr>tc_symbol = tok, tc_name = nm, tc_chain = ch, tc_address = addr,
     tc_decimals = dec, tc_status = APPROVED, tc_min_route_amount = 0,
     tc_max_route_amount = 1000000000000\<rparr>"

definition mk_route :: "string \<Rightarrow> string \<Rightarrow> string \<Rightarrow> int \<Rightarrow> route_config" where
  "mk_route from to adapter fee = \<lparr>rc_from_token = from, rc_to_token = to, rc_adapter = adapter,
     rc_fee_bps = fee, rc_min_liquidity_usd = Fin 10000, rc_enabled = True\<rparr>"

definition init_default_tokens :: "token_config dict \<Rightarrow> token_config dict" where
  "init_default_tokens d = fold (\<lambda>t. dset (tc_symbol t) t) [
     mk_token ''MEMBRA'' ''MEMBRA Protocol Token'' SOLANA ''membra_token_mint_address_placeholder'' 9,
     mk_token ''USDC'' ''USD Coin'' SOLANA ''EPjFWdd5AufqSSqeM2qN1xzybapC8G4wEGGkZwyTDt1v'' 6,
     mk_token ''SOL'' ''Solana'' SOLANA ''So11111111111111111111111111111111111111112'' 9,
     mk_token ''USDT'' ''Tether USD'' SOLANA ''Es9vMFrzaCERmJfrF4H2FYD4KCoNkY11McCe8BenwNYB'' 6,
     mk_token ''USDC_ETH'' ''USD Coin (Ethereum)'' ETHEREUM
       ''0xA0b86991c6218b36c1d19D4a2e9Eb0cE3606eB48'' 6,
     mk_token ''WETH'' ''Wrapped Ether'' ETHEREUM ''0xC02aaA39b223FE8D0A0e5C4F27eAD9083C756Cc2'' 18] d"

definition init_default_routes :: "route_config list" where
  "init_default_routes = [
     mk_route ''MEMBRA'' ''USDC'' ''SplSwapAdapter'' 30,
     mk_route ''USDC'' ''MEMBRA'' ''SplSwapAdapter'' 30,
     mk_route ''SOL'' ''USDC'' ''SplSwapAdapter'' 30,
     mk_route ''USDC'' ''SOL'' ''SplSwapAdapter'' 30,
     mk_route ''USDC'' ''USDC_ETH'' ''WormholeBridgeAdapter'' 10,
     mk_route ''USDC_ETH'' ''USDC'' ''WormholeBridgeAdapter'' 10,
     mk_route ''MEMBRA'' ''SOL'' ''SplSwapAdapter'' 30,
     mk_route ''SOL'' ''MEMBRA'' ''SplSwapAdapter'' 30]"

definition post_init :: "l3_config \<Rightarrow> l3_config" where
  "post_init c =
     (let c = (if cfg_tokens c = [] then c\<lparr>cfg_tokens := init_default_tokens (cfg_tokens c)\<rparr> else c)
      in if cfg_routes c = [] then c\<lparr>cfg_routes := init_default_routes\<rparr> else c)"

definition DEFAULT_CONFIG :: l3_config where
  "DEFAULT_CONFIG = post_init \<lparr>
     intent_claim_window_seconds = 604800,
     max_intent_amount_usd = Fin 100000,
     min_intent_amount_usd = mkf (1 / 100),
     gas_vault_min_coverage_ratio = mkf (15 / 10),
     gas_vault_target_coverage_ratio = Fin 3,
     fee_credit_expiry_seconds = 86400,
     max_fee_credit_per_user_usd = Fin 10,
     volatility_twap_window_seconds = 3600,
     volatility_min_data_points = 12,
     volatility_signal_threshold = mkf (2 / 100),
     oracle_staleness_seconds = 300,
     dev_required_approvals = 3,
     dev_review_window_seconds = 259200,
     max_supply = 1000000000000000,
     max_emission_per_epoch = 10000000000000,
     epoch_duration_seconds = 86400,
     cfg_tokens = [],
     cfg_routes = []\<rparr>"

definition get_token :: "l3_config \<Rightarrow> string \<Rightarrow> token_config option" where
  "get_token c s = dget (cfg_tokens c) s"

fun find_route :: "route_config list \<Rightarrow> string \<Rightarrow> string \<Rightarrow> route_config option" where
  "find_route [] from to = None"
| "find_route (r # rs) from to =
     (if rc_from_token r = from \<and> rc_to_token r = to \<and> rc_enabled r then Some r
      else find_route rs from to)"

definition get_route :: "l3_config \<Rightarrow> string \<Rightarrow> string \<Rightarrow> route_config option" where
  "get_route c from to = find_route (cfg_routes c) from to"

definition is_token_approved :: "l3_config \<Rightarrow> string \<Rightarrow> bool" where
  "is_token_approved c s =
     (case dget (cfg_tokens c) s of None \<Rightarrow> False | Some t \<Rightarrow> tc_status t = APPROVED)"

lemma find_route_Some:
  "find_route rs from to = Some r \<Longrightarrow>
     r \<in> set rs \<and> rc_from_token r = from \<and> rc_to_token r = to \<and> rc_enabled r"
  by (induction rs) (auto split: if_splits)

lemma find_route_None:
  "find_route rs from to = None \<longleftrightarrow>
     (\<forall>r \<in> set rs. \<not> (rc_from_token r = from \<and> rc_to_token r = to \<and> rc_enabled r))"
  by (induction rs) auto

lemma mkf_three_halves: "mkf (3 / 2) = Fin (3 / 2)"
  using mkf_rep [of 3 "- 1"] by (simp add: pow2_def)

lemma default_config_simps [simp]:
  "intent_claim_window_seconds DEFAULT_CONFIG = 604800"
  "gas_vault_min_coverage_ratio DEFAULT_CONFIG = Fin (3 / 2)"
  "gas_vault_target_coverage_ratio DEFAULT_CONFIG = Fin 3"
  "fee_credit_expiry_seconds DEFAULT_CONFIG = 86400"
  "max_fee_credit_per_user_usd DEFAULT_CONFIG = Fin 10"
  "volatility_twap_window_seconds DEFAULT_CONFIG = 3600"
  "oracle_staleness_seconds DEFAULT_CONFIG = 300"
  "cfg_tokens DEFAULT_CONFIG = init_default_tokens []"
  "cfg_routes DEFAULT_CONFIG = init_default_routes"
  by (simp_all add: DEFAULT_CONFIG_def post_init_def Let_def mkf_three_halves)

end
