(* ===== verification/Sha256.thy ===== *)
theory Sha256
  imports Prelude "HOL-Library.Word"
begin

text \<open>
  The part of \<open>hashlib\<close> the program uses: \<open>sha256(data).hexdigest()\<close>, FIPS 180-4, on 32-bit words,
  and the UTF-8 encoding of \<open>str.encode()\<close>. A string is a list of code points below 256.
\<close>

unbundle bit_operations_syntax

type_synonym u32 = "32 word"

section \<open>UTF-8\<close>

definition utf8_char :: "char \<Rightarrow> nat list" where
  "utf8_char c = (let n = of_char c in if n < 128 then [n] else [192 + n div 64, 128 + n mod 64])"

definition encode :: "string \<Rightarrow> nat list" where
  "encode s = concat (map utf8_char s)"

section \<open>SHA-256\<close>

text \<open>
  The standard's constants: the first 32 bits of the fractional parts of the cube roots of the first
  64 primes, and of the square roots of the first eight. \<open>root_bits\<close> finds the integer part of the
  \<open>k\<close>-th root of \<open>n\<close> bit by bit, from bit \<open>b\<close> down.
\<close>

fun root_bits :: "nat \<Rightarrow> int \<Rightarrow> int \<Rightarrow> nat \<Rightarrow> int" where
  "root_bits k n r 0 = (if (r + 1) ^ k \<le> n then r + 1 else r)"
| "root_bits k n r (Suc b) = root_bits k n (if (r + 2 ^ Suc b) ^ k \<le> n then r + 2 ^ Suc b else r) b"

definition small_primes :: "int list" where
  "small_primes = [
    2, 3, 5, 7, 11, 13, 17, 19, 23, 29, 31, 37, 41, 43, 47, 53,
    59, 61, 67, 71, 73, 79, 83, 89, 97, 101, 103, 107, 109, 113, 127, 131,
    137, 139, 149, 151, 157, 163, 167, 173, 179, 181, 191, 193, 197, 199, 211, 223,
    227, 229, 233, 239, 241, 251, 257, 263, 269, 271, 277, 281, 283, 293, 307, 311]"

definition k256 :: "u32 list" where
  "k256 = map (\<lambda>p. of_int (root_bits 3 (p * 2 ^ 96) 0 35)) small_primes"

definition h256 :: "u32 list" where
  "h256 = map (\<lambda>p. of_int (root_bits 2 (p * 2 ^ 64) 0 35)) (take 8 small_primes)"

definition rotr :: "nat \<Rightarrow> u32 \<Rightarrow> u32" where
  "rotr n x = drop_bit n x OR push_bit (32 - n) x"

definition big_sigma0 :: "u32 \<Rightarrow> u32" where
  "big_sigma0 x = rotr 2 x XOR rotr 13 x XOR rotr 22 x"

definition big_sigma1 :: "u32 \<Rightarrow> u32" where
  "big_sigma1 x = rotr 6 x XOR rotr 11 x XOR rotr 25 x"

definition small_sigma0 :: "u32 \<Rightarrow> u32" where
  "small_sigma0 x = rotr 7 x XOR rotr 18 x XOR drop_bit 3 x"

definition small_sigma1 :: "u32 \<Rightarrow> u32" where
  "small_sigma1 x = rotr 17 x XOR rotr 19 x XOR drop_bit 10 x"

definition ch :: "u32 \<Rightarrow> u32 \<Rightarrow> u32 \<Rightarrow> u32" where
  "ch x y z = (x AND y) XOR (NOT x AND z)"

definition maj :: "u32 \<Rightarrow> u32 \<Rightarrow> u32 \<Rightarrow> u32" where
  "maj x y z = (x AND y) XOR (x AND z) XOR (y AND z)"

text \<open>Padding: a one bit, zeros, and the bit length in eight bytes.\<close>

definition pad :: "nat list \<Rightarrow> nat list" where
  "pad m = (let n = length m in
     m @ [128] @ replicate ((119 - n mod 64) mod 64) 0
       @ map (\<lambda>i. (8 * n) div 256 ^ (7 - i) mod 256) [0..<8])"

fun be_words :: "nat list \<Rightarrow> u32 list" where
  "be_words (a # b # c # d # r) = of_nat (((a * 256 + b) * 256 + c) * 256 + d) # be_words r"
| "be_words _ = []"

fun blocks :: "u32 list \<Rightarrow> u32 list list" where
  "blocks ws = (if length ws < 16 then [] else take 16 ws # blocks (drop 16 ws))"

text \<open>The message schedule grows from the sixteen words of a block to sixty-four.\<close>

fun schedule :: "nat \<Rightarrow> u32 list \<Rightarrow> u32 list" where
  "schedule 0 ws = ws"
| "schedule (Suc n) ws = (let k = length ws in
     schedule n (ws @ [small_sigma1 (ws ! (k - 2)) + ws ! (k - 7)
                       + small_sigma0 (ws ! (k - 15)) + ws ! (k - 16)]))"

fun round256 :: "u32 \<times> u32 \<Rightarrow> u32 list \<Rightarrow> u32 list" where
  "round256 (k, w) [a, b, c, d, e, f, g, h] =
     (let t1 = h + big_sigma1 e + ch e f g + k + w; t2 = big_sigma0 a + maj a b c
      in [t1 + t2, a, b, c, d + t1, e, f, g])"
| "round256 kw st = st"

definition compress :: "u32 list \<Rightarrow> u32 list \<Rightarrow> u32 list" where
  "compress st b = map2 (+) st (fold round256 (zip k256 (schedule 48 b)) st)"

definition sha256_words :: "nat list \<Rightarrow> u32 list" where
  "sha256_words m = fold (\<lambda>b st. compress st b) (blocks (be_words (pad m))) h256"

definition hex_digit :: "nat \<Rightarrow> char" where
  "hex_digit n = ''0123456789abcdef'' ! n"

definition hex_word :: "u32 \<Rightarrow> string" where
  "hex_word w = map (\<lambda>i. hex_digit (unat w div 16 ^ (7 - i) mod 16)) [0..<8]"

definition hexdigest :: "nat list \<Rightarrow> string" where
  "hexdigest m = concat (map hex_word (sha256_words m))"

text \<open>\<open>hashlib.sha256(s.encode()).hexdigest()\<close>.\<close>

definition sha256_hex :: "string \<Rightarrow> string" where
  "sha256_hex s = hexdigest (encode s)"

declare blocks.simps [simp del]

section \<open>The shape of a digest\<close>

lemma length_round256 [simp]: "length (round256 kw st) = length st"
  by (induction kw st rule: round256.induct) (simp_all add: Let_def)

lemma length_rounds [simp]: "length (fold round256 kws st) = length st"
  by (induction kws arbitrary: st) simp_all

lemma length_compress: "length (compress st b) = length st"
  by (simp add: compress_def)

lemma length_sha256_words: "length (sha256_words m) = 8"
proof -
  have "length (fold (\<lambda>b st. compress st b) bs st) = length st" for bs st
    by (induction bs arbitrary: st) (simp_all add: length_compress)
  then show ?thesis by (simp add: sha256_words_def h256_def small_primes_def)
qed

lemma length_hexdigest [simp]: "length (hexdigest m) = 64"
proof -
  have "length (concat (map hex_word ws)) = 8 * length ws" for ws
    by (induction ws) (simp_all add: hex_word_def)
  then show ?thesis by (simp add: hexdigest_def length_sha256_words)
qed

lemma length_sha256_hex [simp]: "length (sha256_hex s) = 64"
  by (simp add: sha256_hex_def)

lemma hex_digit_in: "n < 16 \<Longrightarrow> hex_digit n \<in> set ''0123456789abcdef''"
  unfolding hex_digit_def by (intro nth_mem) simp

lemma set_hexdigest: "set (hexdigest m) \<subseteq> set ''0123456789abcdef''"
proof -
  have "set (hex_word w) \<subseteq> set ''0123456789abcdef''" for w
  proof -
    have "hex_digit (unat w div 16 ^ (7 - i) mod 16) \<in> set ''0123456789abcdef''" for i
      by (rule hex_digit_in) simp
    then show ?thesis by (auto simp: hex_word_def simp del: set_simps)
  qed
  then show ?thesis unfolding hexdigest_def by (simp del: set_simps) blast
qed

lemma set_sha256_hex: "set (sha256_hex s) \<subseteq> set ''0123456789abcdef''"
  unfolding sha256_hex_def by (rule set_hexdigest)

end
