(* ===== verification/Hash_Chain.thy ===== *)
theory Hash_Chain
  imports PyStr Sha256
begin

text \<open>
  Hash-chained logs. An entry has a text \<open>payload\<close> that is hashed and that contains the hash of the
  entry before it. The locale states what a log must provide, namely that the previous hash can be
  recovered from the payload, and proves tamper evidence once for every such log: two logs with the
  same head agree on every payload, or they exhibit two different texts with the same digest.
\<close>

text \<open>The hash that starts every chain: sixty-four zeros.\<close>

definition genesis_hash :: string where
  "genesis_hash = replicate 64 (CHR ''0'')"

text \<open>Every entry names the hash of the one before it, the first one the given hash.\<close>

fun linked :: "('e \<Rightarrow> string) \<Rightarrow> ('e \<Rightarrow> string) \<Rightarrow> string \<Rightarrow> 'e list \<Rightarrow> bool" where
  "linked payload prev h [] \<longleftrightarrow> True"
| "linked payload prev h (e # es) \<longleftrightarrow> prev e = h \<and> linked payload prev (sha256_hex (payload e)) es"

text \<open>The hash of the last entry.\<close>

fun chain_tip :: "('e \<Rightarrow> string) \<Rightarrow> string \<Rightarrow> 'e list \<Rightarrow> string" where
  "chain_tip payload h [] = h"
| "chain_tip payload h (e # es) = chain_tip payload (sha256_hex (payload e)) es"

text \<open>Two lists of entries contain two different payloads with one digest at the same place.\<close>

definition collide :: "('e \<Rightarrow> string) \<Rightarrow> 'e list \<Rightarrow> 'e list \<Rightarrow> bool" where
  "collide payload es es' \<longleftrightarrow> (\<exists>i < min (length es) (length es').
     payload (es ! i) \<noteq> payload (es' ! i) \<and>
     sha256_hex (payload (es ! i)) = sha256_hex (payload (es' ! i)))"

lemma chain_tip_snoc [simp]: "chain_tip payload h (es @ [e]) = sha256_hex (payload e)"
  by (induction es arbitrary: h) simp_all

lemma linked_snoc [simp]:
  "linked payload prev h (es @ [e]) \<longleftrightarrow>
     linked payload prev h es \<and> prev e = chain_tip payload h es"
  by (induction es arbitrary: h) auto

lemma linked_append:
  "linked payload prev h (es @ fs) \<longleftrightarrow>
     linked payload prev h es \<and> linked payload prev (chain_tip payload h es) fs"
  by (induction es arbitrary: h) auto

lemma collide_snoc:
  assumes "length es = length es'" and "collide payload es es'"
  shows "collide payload (es @ [e]) (es' @ [e'])"
proof -
  from assms obtain i where i: "i < length es'" "payload (es ! i) \<noteq> payload (es' ! i)"
    "sha256_hex (payload (es ! i)) = sha256_hex (payload (es' ! i))"
    by (auto simp: collide_def)
  then show ?thesis using assms(1) by (auto simp: collide_def nth_append intro!: exI [of _ i])
qed

lemma plain_genesis [simp]: "plain genesis_hash"
  by (simp add: genesis_hash_def plain_char_def)

lemma plain_sha256_hex [simp]: "plain (sha256_hex s)"
proof (rule plain_subset)
  show "set (sha256_hex s) \<subseteq> set ''0123456789abcdef''" by (rule set_sha256_hex)
qed (simp add: plain_char_def)

lemma plain_chain_tip: "plain h \<Longrightarrow> plain (chain_tip payload h es)"
  by (cases es rule: rev_cases) simp_all

locale hash_chain =
  fixes payload :: "'e \<Rightarrow> string"
    and prev :: "'e \<Rightarrow> string"
  assumes payload_prev:
    "plain (prev e) \<Longrightarrow> plain (prev e') \<Longrightarrow> payload e = payload e' \<Longrightarrow> prev e = prev e'"
begin

text \<open>The head fixes the history, up to a collision found in the two histories.\<close>

lemma tip_determines:
  assumes "linked payload prev h es" and "linked payload prev h es'"
    and "plain h" and "length es = length es'"
    and "chain_tip payload h es = chain_tip payload h es'"
  shows "map payload es = map payload es' \<or> collide payload es es'"
  using assms
proof (induction es arbitrary: es' rule: rev_induct)
  case Nil
  then show ?case by simp
next
  case (snoc e es)
  then obtain fs f where es': "es' = fs @ [f]" and len: "length es = length fs"
    by (metis length_append_singleton length_0_conv old.nat.distinct(1) rev_exhaust diff_Suc_1)
  show ?case
  proof (cases "payload e = payload f")
    case False
    with snoc.prems es' len have "collide payload (es @ [e]) es'"
      by (auto simp: collide_def nth_append intro!: exI [of _ "length fs"])
    then show ?thesis ..
  next
    case True
    have "plain (prev e)" "plain (prev f)"
      using snoc.prems es' by (auto simp: plain_chain_tip)
    with True have "prev e = prev f" by (intro payload_prev)
    with snoc.prems es' have "chain_tip payload h es = chain_tip payload h fs" by simp
    with snoc.IH [of fs] snoc.prems es' len
    have "map payload es = map payload fs \<or> collide payload es fs" by simp
    with True es' collide_snoc [OF len] show ?thesis by auto
  qed
qed

text \<open>
  Rewriting one entry inside a linked log breaks the link of the next entry, unless the new payload
  collides with the old one.
\<close>

lemma rewrite_detected:
  assumes "linked payload prev h (es @ e # f # fs)"
    and "payload e' \<noteq> payload e"
    and "linked payload prev h (es @ e' # f # fs)"
  shows "sha256_hex (payload e') = sha256_hex (payload e)"
  using assms by (simp add: linked_append)

end

end
