(* ===== verification/Runtime.thy ===== *)
theory Runtime
  imports PyStr Sha256
begin

text \<open>
  What the environment supplies: the readings of \<open>time.time()\<close> and the values of \<open>uuid.uuid4().hex\<close>, in
  the order the program asks for them. Both are arbitrary sequences; what a property needs of them
  (a clock that does not run backwards, fresh identifiers) is a hypothesis of that property.
\<close>

record runtime =
  clock :: "nat \<Rightarrow> pyfloat"
  clock_pos :: nat
  uuids :: "nat \<Rightarrow> string"
  uuid_pos :: nat

text \<open>\<open>time.time()\<close>.\<close>

definition time_time :: "'x runtime_scheme \<Rightarrow> pyfloat \<times> 'x runtime_scheme" where
  "time_time r = (clock r (clock_pos r), r\<lparr>clock_pos := Suc (clock_pos r)\<rparr>)"

text \<open>\<open>uuid.uuid4().hex\<close>.\<close>

definition uuid4_hex :: "'x runtime_scheme \<Rightarrow> string \<times> 'x runtime_scheme" where
  "uuid4_hex r = (uuids r (uuid_pos r), r\<lparr>uuid_pos := Suc (uuid_pos r)\<rparr>)"

text \<open>The clock never runs backwards and reads finite values.\<close>

definition clock_ok :: "'x runtime_scheme \<Rightarrow> bool" where
  "clock_ok r \<longleftrightarrow> (\<forall>i j. i \<le> j \<longrightarrow> fle (clock r i) (clock r j))"

end
