(* ===== verification/Proof_Book.thy ===== *)
theory Proof_Book
  imports Hash_Chain Runtime
begin

text \<open>
  \<open>membra-l3/membra_l3/proof_book.py\<close>: the append-only, hash-chained log of the layer, and the
  process state every L3 module shares, namely the environment and the log singleton \<open>proof_book\<close>.
\<close>

section \<open>Data\<close>

datatype proof_type =
    VOLATILITY | DEVELOPMENT | ZK_COMPUTE | GOVERNANCE | FEE_CREDIT | ROUTE_VALIDATION
  | ORACLE_UPDATE | TREASURY | IDENTITY_LINK

fun proof_type_value :: "proof_type \<Rightarrow> string" where
  "proof_type_value VOLATILITY = ''proof_of_volatility''"
| "proof_type_value DEVELOPMENT = ''proof_of_development''"
| "proof_type_value ZK_COMPUTE = ''zk_compute_receipt''"
| "proof_type_value GOVERNANCE = ''governance_action''"
| "proof_type_value FEE_CREDIT = ''fee_credit_issuance''"
| "proof_type_value ROUTE_VALIDATION = ''route_validation''"
| "proof_type_value ORACLE_UPDATE = ''oracle_update''"
| "proof_type_value TREASURY = ''treasury_action''"
| "proof_type_value IDENTITY_LINK = ''identity_link''"

record proof_entry =
  pe_type :: proof_type
  pe_data :: "json dict"
  pe_timestamp :: pyfloat
  pe_prev_hash :: string
  pe_entry_hash :: string

text \<open>The JSON text that \<open>compute_hash\<close> hashes.\<close>

definition pe_payload :: "proof_entry \<Rightarrow> string" where
  "pe_payload e = dumps_sorted (JObj [
     (''type'', JStr (proof_type_value (pe_type e))),
     (''data'', JObj (pe_data e)),
     (''timestamp'', JFloat (pe_timestamp e)),
     (''prev_hash'', JStr (pe_prev_hash e))])"

definition compute_hash :: "proof_entry \<Rightarrow> string" where
  "compute_hash e = sha256_hex (pe_payload e)"

definition seal :: "string \<Rightarrow> proof_entry \<Rightarrow> proof_entry" where
  "seal h e = (let e' = e\<lparr>pe_prev_hash := h\<rparr> in e'\<lparr>pe_entry_hash := compute_hash e'\<rparr>)"

record proof_book =
  pb_entries :: "proof_entry list"
  pb_last_hash :: string

section \<open>Operations\<close>

definition proof_book_init :: proof_book where
  "proof_book_init = \<lparr>pb_entries = [], pb_last_hash = genesis_hash\<rparr>"

text \<open>\<open>append\<close>; the time is the default of the field \<open>timestamp\<close>.\<close>

definition append_entry ::
  "proof_type \<Rightarrow> json dict \<Rightarrow> pyfloat \<Rightarrow> proof_book \<Rightarrow> proof_entry \<times> proof_book" where
  "append_entry ty d now b =
     (let e = seal (pb_last_hash b)
                \<lparr>pe_type = ty, pe_data = d, pe_timestamp = now, pe_prev_hash = [], pe_entry_hash = []\<rparr>
      in (e, b\<lparr>pb_entries := pb_entries b @ [e], pb_last_hash := pe_entry_hash e\<rparr>))"

text \<open>\<open>get_entries\<close>: a missing type or a missing or zero time does not filter.\<close>

definition get_entries ::
  "proof_book \<Rightarrow> proof_type option \<Rightarrow> pyfloat option \<Rightarrow> int \<Rightarrow> proof_entry list" where
  "get_entries b ty since limit =
     (let results = pb_entries b;
          results = (case ty of None \<Rightarrow> results | Some t \<Rightarrow> filter (\<lambda>e. pe_type e = t) results);
          results = (case since of None \<Rightarrow> results
            | Some s \<Rightarrow> if ftruthy s then filter (\<lambda>e. fle s (pe_timestamp e)) results else results)
      in slice_from (- limit) results)"

fun verify_loop :: "string \<Rightarrow> proof_entry list \<Rightarrow> bool" where
  "verify_loop expected [] = True"
| "verify_loop expected (e # es) =
     (if pe_prev_hash e \<noteq> expected then False
      else let expected' = compute_hash e in
        if pe_entry_hash e \<noteq> expected' then False else verify_loop expected' es)"

definition verify_chain :: "proof_book \<Rightarrow> bool" where
  "verify_chain b = verify_loop genesis_hash (pb_entries b)"

definition entry_count :: "proof_book \<Rightarrow> int" where
  "entry_count b = int (length (pb_entries b))"

text \<open>\<open>export\<close>: one dictionary per entry, in field order, enums as their values.\<close>

definition export_entry :: "proof_entry \<Rightarrow> json dict" where
  "export_entry e = [
     (''proof_type'', JStr (proof_type_value (pe_type e))),
     (''data'', JObj (pe_data e)),
     (''timestamp'', JFloat (pe_timestamp e)),
     (''prev_hash'', JStr (pe_prev_hash e)),
     (''entry_hash'', JStr (pe_entry_hash e))]"

definition export :: "proof_book \<Rightarrow> json dict list" where
  "export b = map export_entry (pb_entries b)"

section \<open>The shared process state\<close>

record l3_env = runtime +
  book :: proof_book

text \<open>The next reading of the clock, and the state after it.\<close>

abbreviation tick :: "l3_env \<Rightarrow> l3_env" where
  "tick env \<equiv> env\<lparr>clock_pos := Suc (clock_pos env)\<rparr>"

abbreviation now_of :: "l3_env \<Rightarrow> pyfloat" where
  "now_of env \<equiv> clock env (clock_pos env)"

text \<open>\<open>proof_book.append(...)\<close> on the singleton.\<close>

definition log_proof :: "proof_type \<Rightarrow> json dict \<Rightarrow> l3_env \<Rightarrow> proof_entry \<times> l3_env" where
  "log_proof ty d env =
     (let (now, env) = time_time env; (e, b) = append_entry ty d now (book env)
      in (e, env\<lparr>book := b\<rparr>))"

text \<open>A process state for concrete runs: the clock counts readings and the book holds \<open>es\<close>.\<close>

definition sample_env :: "proof_entry list \<Rightarrow> l3_env" where
  "sample_env es = \<lparr>clock = (\<lambda>i. Fin (of_nat i)), clock_pos = 0,
     uuids = (\<lambda>i. ''id'' @ dec_nat i), uuid_pos = 0,
     book = \<lparr>pb_entries = es, pb_last_hash = genesis_hash\<rparr>\<rparr>"

lemma sample_env_simps [simp]:
  "clock (sample_env es) i = Fin (of_nat i)" "clock_pos (sample_env es) = 0"
  "uuids (sample_env es) i = ''id'' @ dec_nat i" "uuid_pos (sample_env es) = 0"
  "pb_entries (book (sample_env es)) = es"
  by (simp_all add: sample_env_def)

section \<open>Shape of the hashed text\<close>

lemma pe_payload_text:
  assumes "plain (pe_prev_hash e)"
  shows "pe_payload e =
    (''{'' @ [CHR 0x22] @ ''data'' @ [CHR 0x22] @ '': '' @ dumps True True (JObj (pe_data e)) @ '', ''
      @ [CHR 0x22] @ ''prev_hash'' @ [CHR 0x22] @ '': '')
    @ quote_fields [pe_prev_hash e, '', '', ''timestamp'', '': '' @ json_float (pe_timestamp e) @ '', '',
        ''type'', '': '', proof_type_value (pe_type e), ''}'']"
proof -
  have ty: "plain (proof_type_value t)" for t
    by (cases t) (simp_all add: plain_char_def)
  show ?thesis
    using assms
    by (simp add: pe_payload_def dumps_sorted_def json_object_def join_def json_string_plain ty
          quote_fields_def plain_char_def insort_key.simps less_list_code less_eq_list_code)
qed

text \<open>Reading the text from its end recovers the type and the previous hash.\<close>

lemma proof_type_value_inj: "proof_type_value s = proof_type_value t \<longleftrightarrow> s = t"
  by (cases s; cases t) simp_all

lemma pe_payload_fields:
  assumes "plain (pe_prev_hash e)" and "plain (pe_prev_hash f)" and "pe_payload e = pe_payload f"
  shows "pe_prev_hash e = pe_prev_hash f \<and> pe_type e = pe_type f"
proof -
  have q: "CHR 0x22 \<notin> set (proof_type_value t)" for t
    by (cases t) simp_all
  have r: "CHR 0x22 \<notin> set (json_float x)" for x
    by (rule plain_no_quote) simp
  note eq = assms(3) [unfolded pe_payload_text [OF assms(1)] pe_payload_text [OF assms(2)]]
  from quote_fields_inj [OF eq] show ?thesis
    using q r plain_no_quote [OF assms(1)] plain_no_quote [OF assms(2)] by (simp add: proof_type_value_inj)
qed

interpretation pb: hash_chain pe_payload pe_prev_hash
  by unfold_locales (rule pe_payload_fields [THEN conjunct1])

section \<open>The invariant of the log\<close>

text \<open>The chain verifies and the remembered hash is the hash of the last entry.\<close>

definition book_ok :: "proof_book \<Rightarrow> bool" where
  "book_ok b \<longleftrightarrow> verify_chain b \<and> pb_last_hash b = chain_tip pe_payload genesis_hash (pb_entries b)"

lemma verify_loop_linked:
  "verify_loop h es \<longleftrightarrow>
     linked pe_payload pe_prev_hash h es \<and> (\<forall>e \<in> set es. pe_entry_hash e = compute_hash e)"
  by (induction es arbitrary: h) (auto simp: Let_def compute_hash_def)

lemma verify_chain_linked:
  "verify_chain b \<longleftrightarrow> linked pe_payload pe_prev_hash genesis_hash (pb_entries b)
     \<and> (\<forall>e \<in> set (pb_entries b). pe_entry_hash e = compute_hash e)"
  by (simp add: verify_chain_def verify_loop_linked)

lemma book_ok_init: "book_ok proof_book_init"
  by (simp add: book_ok_def proof_book_init_def verify_chain_def)

lemma seal_simps [simp]:
  "pe_prev_hash (seal h e) = h"
  "pe_entry_hash (seal h e) = sha256_hex (pe_payload (seal h e))"
  by (simp_all add: seal_def Let_def compute_hash_def pe_payload_def)

lemma book_ok_append: "book_ok b \<Longrightarrow> book_ok (snd (append_entry ty d now b))"
  by (simp add: book_ok_def append_entry_def Let_def verify_chain_linked compute_hash_def)

lemma append_entry_simps [simp]:
  "pb_entries (snd (append_entry ty d now b)) = pb_entries b @ [fst (append_entry ty d now b)]"
  "pe_type (fst (append_entry ty d now b)) = ty"
  "pe_data (fst (append_entry ty d now b)) = d"
  "pe_timestamp (fst (append_entry ty d now b)) = now"
  "pe_prev_hash (fst (append_entry ty d now b)) = pb_last_hash b"
  by (simp_all add: append_entry_def seal_def Let_def)

text \<open>Logging only appends one entry to the shared book and reads the clock once.\<close>

lemma log_proof_simps [simp]:
  "clock (snd (log_proof ty d env)) = clock env"
  "clock_pos (snd (log_proof ty d env)) = Suc (clock_pos env)"
  "uuids (snd (log_proof ty d env)) = uuids env"
  "uuid_pos (snd (log_proof ty d env)) = uuid_pos env"
  "book (snd (log_proof ty d env)) = snd (append_entry ty d (clock env (clock_pos env)) (book env))"
  "fst (log_proof ty d env) = fst (append_entry ty d (clock env (clock_pos env)) (book env))"
  by (simp_all add: log_proof_def time_time_def case_prod_beta Let_def)

lemma book_ok_log: "book_ok (book env) \<Longrightarrow> book_ok (book (snd (log_proof ty d env)))"
  by (simp add: book_ok_append)

lemma get_entries_type: "e \<in> set (get_entries b (Some ty) since limit) \<Longrightarrow> e \<in> set (pb_entries b) \<and> pe_type e = ty"
  using set_slice_from by (fastforce simp: get_entries_def Let_def split: option.splits if_splits)

lemma get_entries_subset: "set (get_entries b ty since limit) \<subseteq> set (pb_entries b)"
  using set_slice_from by (fastforce simp: get_entries_def Let_def split: option.splits if_splits)

section \<open>Properties\<close>

text \<open>A sequence of appends to a book.\<close>

definition append_all :: "(proof_type \<times> json dict \<times> pyfloat) list \<Rightarrow> proof_book \<Rightarrow> proof_book" where
  "append_all calls b = foldl (\<lambda>b (ty, d, now). snd (append_entry ty d now b)) b calls"

lemma append_all_ok:
  "book_ok b \<Longrightarrow> book_ok (append_all calls b) \<and> (\<exists>es. pb_entries (append_all calls b) = pb_entries b @ es \<and>
     map (\<lambda>e. (pe_type e, pe_data e, pe_timestamp e)) es = calls)"
proof (induction calls rule: rev_induct)
  case Nil
  then show ?case by (simp add: append_all_def)
next
  case (snoc call calls)
  then show ?case by (cases call) (auto simp: append_all_def book_ok_append)
qed

text \<open>
  C8. The log is append-only and always verifies: after any sequence of appends to a new book,
  \<open>verify_chain\<close> holds, the entries are the appended ones in order, and \<open>last_hash\<close> is the hash of the
  last entry (the genesis hash if there is none).
\<close>

theorem appended_book_verifies:
  "verify_chain (append_all calls proof_book_init) \<and>
   map (\<lambda>e. (pe_type e, pe_data e, pe_timestamp e)) (pb_entries (append_all calls proof_book_init)) = calls \<and>
   pb_last_hash (append_all calls proof_book_init) =
     (case rev (pb_entries (append_all calls proof_book_init)) of [] \<Rightarrow> genesis_hash | e # _ \<Rightarrow> pe_entry_hash e)"
proof -
  let ?b = "append_all calls proof_book_init"
  have ok: "book_ok ?b" and map: "map (\<lambda>e. (pe_type e, pe_data e, pe_timestamp e)) (pb_entries ?b) = calls"
    using append_all_ok [OF book_ok_init, of calls] by (auto simp: proof_book_init_def)
  have "pb_last_hash ?b = (case rev (pb_entries ?b) of [] \<Rightarrow> genesis_hash | e # _ \<Rightarrow> pe_entry_hash e)"
    using ok by (cases "pb_entries ?b" rule: rev_cases)
      (auto simp: book_ok_def verify_chain_linked compute_hash_def)
  with ok map show ?thesis by (simp add: book_ok_def)
qed

text \<open>
  C4. Tamper evidence: two books that verify and have the same length and the same \<open>last_hash\<close> hash the
  same text at every position, type, data, time and links included; otherwise they exhibit, at one
  position, two different texts with the same SHA-256 digest.
\<close>

theorem last_hash_fixes_history:
  assumes "book_ok b" and "book_ok b'" and "length (pb_entries b) = length (pb_entries b')"
  shows "pb_last_hash b \<noteq> pb_last_hash b' \<or> map pe_payload (pb_entries b) = map pe_payload (pb_entries b') \<or>
    collide pe_payload (pb_entries b) (pb_entries b')"
  using pb.tip_determines [of genesis_hash "pb_entries b" "pb_entries b'"] assms
  by (auto simp: book_ok_def verify_chain_linked)

theorem last_hash_fixes_history_witness:
  "let b = snd (append_entry TREASURY [(''n'', JInt 1)] (Fin 0) proof_book_init);
       b' = snd (append_entry TREASURY [(''n'', JInt 2)] (Fin 0) proof_book_init)
   in pb_entries b \<noteq> pb_entries b' \<and>
     (pb_last_hash b \<noteq> pb_last_hash b' \<or> map pe_payload (pb_entries b) = map pe_payload (pb_entries b') \<or>
      collide pe_payload (pb_entries b) (pb_entries b'))"
proof -
  let ?b = "snd (append_entry TREASURY [(''n'', JInt 1)] (Fin 0) proof_book_init)"
  let ?b' = "snd (append_entry TREASURY [(''n'', JInt 2)] (Fin 0) proof_book_init)"
  have ok: "book_ok ?b" "book_ok ?b'" by (rule book_ok_append [OF book_ok_init])+
  have ne: "pb_entries ?b \<noteq> pb_entries ?b'"
    by (simp add: append_entry_def seal_def Let_def proof_book_init_def)
  have len: "length (pb_entries ?b) = length (pb_entries ?b')" by simp
  show ?thesis unfolding Let_def by (rule conjI [OF ne last_hash_fixes_history [OF ok len]])
qed

text \<open>
  Editing one entry that is not the last makes \<open>verify_chain\<close> fail, even when the edited entry is
  given a matching \<open>entry_hash\<close>, unless its hashed text collides with the original one.
\<close>

theorem edit_breaks_chain:
  assumes "verify_chain b" and "Suc i < length (pb_entries b)"
    and "pe_payload e' \<noteq> pe_payload (pb_entries b ! i)"
  shows "\<not> verify_chain (b\<lparr>pb_entries := (pb_entries b)[i := e']\<rparr>) \<or>
    sha256_hex (pe_payload e') = sha256_hex (pe_payload (pb_entries b ! i))"
proof (rule disjCI)
  assume "\<not> sha256_hex (pe_payload e') = sha256_hex (pe_payload (pb_entries b ! i))"
  moreover have "pb_entries b = take i (pb_entries b) @ pb_entries b ! i # pb_entries b ! Suc i # drop (Suc (Suc i)) (pb_entries b)"
    using assms(2) by (metis Cons_nth_drop_Suc Suc_lessD append_take_drop_id)
  moreover have "(pb_entries b)[i := e'] = take i (pb_entries b) @ e' # pb_entries b ! Suc i # drop (Suc (Suc i)) (pb_entries b)"
    using assms(2) by (simp add: upd_conv_take_nth_drop Cons_nth_drop_Suc)
  ultimately show "\<not> verify_chain (b\<lparr>pb_entries := (pb_entries b)[i := e']\<rparr>)"
    using pb.rewrite_detected [of genesis_hash "take i (pb_entries b)" "pb_entries b ! i" "pb_entries b ! Suc i"
        "drop (Suc (Suc i)) (pb_entries b)" e'] assms(1,3)
    by (auto simp: verify_chain_linked)
qed

theorem edit_breaks_chain_witness:
  "let b = append_all [(TREASURY, [], Fin 0), (TREASURY, [], Fin 1)] proof_book_init;
       e = (pb_entries b ! 0)\<lparr>pe_type := GOVERNANCE\<rparr>
   in \<not> verify_chain (b\<lparr>pb_entries := (pb_entries b)[0 := e]\<rparr>) \<or>
      sha256_hex (pe_payload e) = sha256_hex (pe_payload (pb_entries b ! 0))"
proof -
  let ?b = "append_all [(TREASURY, [], Fin 0), (TREASURY, [], Fin 1)] proof_book_init"
  let ?e = "(pb_entries ?b ! 0)\<lparr>pe_type := GOVERNANCE\<rparr>"
  have ok: "verify_chain ?b" using append_all_ok [OF book_ok_init] by (simp add: book_ok_def)
  have len: "Suc 0 < length (pb_entries ?b)" by (simp add: append_all_def)
  have "pe_prev_hash (pb_entries ?b ! 0) = genesis_hash" "pe_type (pb_entries ?b ! 0) = TREASURY"
    by (simp_all add: append_all_def proof_book_init_def)
  then have "pe_payload ?e \<noteq> pe_payload (pb_entries ?b ! 0)"
    using pe_payload_fields [of ?e "pb_entries ?b ! 0"] by auto
  from edit_breaks_chain [OF ok len this] show ?thesis by (simp add: Let_def)
qed

text \<open>
  \<open>get_entries\<close> with a positive limit returns the newest entries of the asked type and time, in
  the order of the log, at most \<open>limit\<close> of them; with the limit zero it returns all of them.
\<close>

theorem get_entries_newest:
  assumes "sel = filter (\<lambda>e. (case ty of None \<Rightarrow> True | Some t \<Rightarrow> pe_type e = t) \<and>
      (case since of None \<Rightarrow> True | Some s \<Rightarrow> ftruthy s \<longrightarrow> fle s (pe_timestamp e))) (pb_entries b)"
    and "0 \<le> limit"
  shows "get_entries b ty since limit = (if limit = 0 then sel else drop (length sel - nat limit) sel)"
proof -
  have "get_entries b ty since limit = slice_from (- limit) sel"
    by (auto simp: get_entries_def assms(1) Let_def conj_commute split: option.splits)
  then show ?thesis using assms(2) slice_from_last [of limit sel] by auto
qed

theorem get_entries_newest_witness:
  "let b = append_all [(TREASURY, [], Fin 1), (GOVERNANCE, [], Fin 2), (TREASURY, [], Fin 3)] proof_book_init
   in get_entries b (Some TREASURY) None 1 = [pb_entries b ! 2]"
proof -
  let ?b = "append_all [(TREASURY, [], Fin 1), (GOVERNANCE, [], Fin 2), (TREASURY, [], Fin 3)] proof_book_init"
  obtain x y z where b: "pb_entries ?b = [x, y, z]" and "pe_type x = TREASURY" "pe_type y = GOVERNANCE" "pe_type z = TREASURY"
    using append_all_ok [OF book_ok_init, of "[(TREASURY, [], Fin 1), (GOVERNANCE, [], Fin 2), (TREASURY, [], Fin 3)]"]
    by (auto simp: proof_book_init_def map_eq_Cons_conv)
  then have "[x, z] = filter (\<lambda>e. (case Some TREASURY of None \<Rightarrow> True | Some t \<Rightarrow> pe_type e = t) \<and>
      (case None of None \<Rightarrow> True | Some s \<Rightarrow> ftruthy s \<longrightarrow> fle s (pe_timestamp e))) (pb_entries ?b)"
    by simp
  from get_entries_newest [OF this, of 1] show ?thesis unfolding Let_def b by simp
qed

end
