(* ===== verification/Gas_Vault.thy ===== *)
theory Gas_Vault
  imports L3_Config Proof_Book
begin

text \<open>
  \<open>membra-l3/membra_l3/gas_vault.py\<close>: fee credits earned by verified compute, and the reimbursement
  of relayers from the reserves. A method takes the vault and the shared process state and returns
  its result with both; where an integer quotient may overflow, the result is an exception.
\<close>

section \<open>Data\<close>

datatype credit_status = ACTIVE | USED | EXPIRED | REVOKED

record fee_credit =
  fc_credit_id :: string
  fc_user_address :: string
  fc_amount_lamports :: int
  fc_issued_at :: pyfloat
  fc_expires_at :: pyfloat
  fc_proof_ref :: string
  fc_status :: credit_status

record reimbursement =
  rb_reimbursement_id :: string
  rb_relayer_address :: string
  rb_amount_lamports :: int
  rb_tx_signature :: string
  rb_credit_ids :: "string list"
  rb_reimbursed_at :: pyfloat
  rb_coverage_ratio_after :: pyfloat

record gas_vault =
  gv_config :: l3_config
  sol_reserves :: int
  gv_credits :: "fee_credit dict"
  gv_reimbursements :: "reimbursement list"
  gv_user_credits :: "string list dict"

definition gas_vault_init :: "l3_config \<Rightarrow> int \<Rightarrow> gas_vault" where
  "gas_vault_init c n = \<lparr>gv_config = c, sol_reserves = n, gv_credits = [], gv_reimbursements = [],
     gv_user_credits = []\<rparr>"

section \<open>Outstanding credits\<close>

definition expire_credit :: "pyfloat \<Rightarrow> fee_credit \<Rightarrow> fee_credit" where
  "expire_credit now c =
     (if fc_status c = ACTIVE \<and> fle (fc_expires_at c) now then c\<lparr>fc_status := EXPIRED\<rparr> else c)"

definition expire_at :: "pyfloat \<Rightarrow> gas_vault \<Rightarrow> gas_vault" where
  "expire_at now gv = gv\<lparr>gv_credits := dmap (expire_credit now) (gv_credits gv)\<rparr>"

definition expire_stale_credits :: "gas_vault \<Rightarrow> l3_env \<Rightarrow> gas_vault \<times> l3_env" where
  "expire_stale_credits gv env = (let (now, env) = time_time env in (expire_at now gv, env))"

text \<open>The lamports of a credit that still count.\<close>

definition active_lamports :: "fee_credit \<Rightarrow> int" where
  "active_lamports c = (if fc_status c = ACTIVE then fc_amount_lamports c else 0)"

definition outstanding :: "gas_vault \<Rightarrow> int" where
  "outstanding gv = sum_list (map active_lamports (dvalues (gv_credits gv)))"

definition user_outstanding :: "gas_vault \<Rightarrow> string \<Rightarrow> int" where
  "user_outstanding gv u =
     sum_list (map (\<lambda>cid. case dget (gv_credits gv) cid of None \<Rightarrow> 0 | Some c \<Rightarrow> active_lamports c)
       (dget_default (gv_user_credits gv) u []))"

definition total_outstanding_lamports :: "gas_vault \<Rightarrow> l3_env \<Rightarrow> int \<times> gas_vault \<times> l3_env" where
  "total_outstanding_lamports gv env =
     (let (gv, env) = expire_stale_credits gv env in (outstanding gv, gv, env))"

definition user_outstanding_lamports ::
  "string \<Rightarrow> gas_vault \<Rightarrow> l3_env \<Rightarrow> int \<times> gas_vault \<times> l3_env" where
  "user_outstanding_lamports u gv env =
     (let (gv, env) = expire_stale_credits gv env in (user_outstanding gv u, gv, env))"

section \<open>Coverage\<close>

definition ratio :: "int \<Rightarrow> int \<Rightarrow> pyfloat result" where
  "ratio sol out = (if out = 0 then Inr PInf else truediv sol out)"

definition compute_coverage_ratio_after ::
  "int \<Rightarrow> gas_vault \<Rightarrow> l3_env \<Rightarrow> pyfloat result \<times> gas_vault \<times> l3_env" where
  "compute_coverage_ratio_after delta gv env =
     (let new_sol = sol_reserves gv + delta; (out, gv, env) = total_outstanding_lamports gv env
      in (ratio new_sol out, gv, env))"

definition coverage_ratio :: "gas_vault \<Rightarrow> l3_env \<Rightarrow> pyfloat result \<times> gas_vault \<times> l3_env" where
  "coverage_ratio gv env =
     (let (out, gv, env) = total_outstanding_lamports gv env in (ratio (sol_reserves gv) out, gv, env))"

definition is_healthy :: "gas_vault \<Rightarrow> l3_env \<Rightarrow> bool result \<times> gas_vault \<times> l3_env" where
  "is_healthy gv env = (let (r, gv, env) = coverage_ratio gv env in
     (map_sum id (\<lambda>q. fle (gas_vault_min_coverage_ratio (gv_config gv)) q) r, gv, env))"

definition needs_refill :: "gas_vault \<Rightarrow> l3_env \<Rightarrow> bool result \<times> gas_vault \<times> l3_env" where
  "needs_refill gv env = (let (r, gv, env) = coverage_ratio gv env in
     (map_sum id (\<lambda>q. flt q (gas_vault_target_coverage_ratio (gv_config gv))) r, gv, env))"

definition can_cover_new_credits ::
  "int \<Rightarrow> gas_vault \<Rightarrow> l3_env \<Rightarrow> bool result \<times> gas_vault \<times> l3_env" where
  "can_cover_new_credits extra gv env =
     (let (out, gv, env) = total_outstanding_lamports gv env; new_out = out + extra
      in ((if new_out = 0 then Inr True
           else map_sum id (\<lambda>q. fle (gas_vault_min_coverage_ratio (gv_config gv)) q)
                  (truediv (sol_reserves gv) new_out)), gv, env))"

section \<open>Reserves\<close>

definition deposit_sol :: "int \<Rightarrow> string \<Rightarrow> gas_vault \<Rightarrow> l3_env \<Rightarrow> gas_vault \<times> l3_env" where
  "deposit_sol amount src gv env =
     (let gv = gv\<lparr>sol_reserves := sol_reserves gv + amount\<rparr>;
          (e, env) = log_proof TREASURY [
            (''action'', JStr ''gas_vault_deposit''),
            (''amount_lamports'', JInt amount),
            (''source'', JStr src),
            (''new_reserves'', JInt (sol_reserves gv))] env
      in (gv, env))"

definition withdraw_sol ::
  "int \<Rightarrow> string \<Rightarrow> string \<Rightarrow> gas_vault \<Rightarrow> l3_env \<Rightarrow> bool result \<times> gas_vault \<times> l3_env" where
  "withdraw_sol amount dest reason gv env =
     (if sol_reserves gv < amount then (Inr False, gv, env)
      else let (r, gv, env) = compute_coverage_ratio_after (- amount) gv env
        in case r of Inl x \<Rightarrow> (Inl x, gv, env)
         | Inr new_coverage \<Rightarrow>
             if flt new_coverage (gas_vault_min_coverage_ratio (gv_config gv)) then (Inr False, gv, env)
             else let gv = gv\<lparr>sol_reserves := sol_reserves gv - amount\<rparr>;
                      (e, env) = log_proof TREASURY [
                        (''action'', JStr ''gas_vault_withdraw''),
                        (''amount_lamports'', JInt amount),
                        (''destination'', JStr dest),
                        (''reason'', JStr reason),
                        (''new_reserves'', JInt (sol_reserves gv))] env
                  in (Inr True, gv, env))"

section \<open>Fee credits\<close>

text \<open>The part of \<open>issue_credit\<close> after all checks: build, store and log the credit.\<close>

definition store_credit ::
  "string \<Rightarrow> string \<Rightarrow> int \<Rightarrow> gas_vault \<Rightarrow> l3_env \<Rightarrow> fee_credit option result \<times> gas_vault \<times> l3_env" where
  "store_credit user proof_hash amount gv env =
     (let (u, env) = uuid4_hex env; (issued, env) = time_time env; (t, env) = time_time env
      in case of_pyint (fee_credit_expiry_seconds (gv_config gv)) of Inl x \<Rightarrow> (Inl x, gv, env)
       | Inr expiry \<Rightarrow>
           let c = \<lparr>fc_credit_id = slice_to 16 u, fc_user_address = user, fc_amount_lamports = amount,
                     fc_issued_at = issued, fc_expires_at = fadd t expiry, fc_proof_ref = proof_hash,
                     fc_status = ACTIVE\<rparr>;
               gv = gv\<lparr>gv_credits := dset (fc_credit_id c) c (gv_credits gv),
                       gv_user_credits := dappend user (fc_credit_id c) (gv_user_credits gv)\<rparr>;
               (e, env) = log_proof FEE_CREDIT [
                 (''credit_id'', JStr (fc_credit_id c)),
                 (''user_address'', JStr user),
                 (''amount_lamports'', JInt amount),
                 (''proof_ref'', JStr proof_hash),
                 (''expires_at'', JFloat (fc_expires_at c))] env
           in (Inr (Some c), gv, env))"

definition issue_credit ::
  "string \<Rightarrow> string \<Rightarrow> pyfloat \<Rightarrow> gas_vault \<Rightarrow> l3_env \<Rightarrow> fee_credit option result \<times> gas_vault \<times> l3_env" where
  "issue_credit user proof_hash work_score gv env =
     (let proofs = get_entries (book env) (Some ZK_COMPUTE) None 50;
          matching = filter (\<lambda>p. pe_entry_hash p = proof_hash) proofs
      in if matching = [] then (Inr None, gv, env)
      else let (user_total, gv, env) = user_outstanding_lamports user gv env
      in case ftrunc (fmul (max_fee_credit_per_user_usd (gv_config gv)) (Fin 1000000000)) of
           Inl x \<Rightarrow> (Inl x, gv, env)
         | Inr max_lamports \<Rightarrow>
      if max_lamports \<le> user_total then (Inr None, gv, env)
      else case ftrunc (fmul work_score (Fin 100000000)) of
           Inl x \<Rightarrow> (Inl x, gv, env)
         | Inr earned \<Rightarrow>
      let credit_lamports = min earned (max_lamports - user_total)
      in if credit_lamports \<le> 0 then (Inr None, gv, env)
      else let (ok, gv, env) = can_cover_new_credits credit_lamports gv env
      in case ok of Inl x \<Rightarrow> (Inl x, gv, env)
         | Inr b \<Rightarrow> if \<not> b then (Inr None, gv, env)
                   else store_credit user proof_hash credit_lamports gv env)"

definition get_user_credits ::
  "string \<Rightarrow> gas_vault \<Rightarrow> l3_env \<Rightarrow> fee_credit list \<times> gas_vault \<times> l3_env" where
  "get_user_credits u gv env =
     (let (gv, env) = expire_stale_credits gv env
      in (filter (\<lambda>c. fc_status c = ACTIVE)
            (List.map_filter (dget (gv_credits gv)) (dget_default (gv_user_credits gv) u [])),
          gv, env))"

text \<open>\<open>consume_credits\<close>: the loop over the identifiers with its running total.\<close>

fun consume_loop :: "int \<Rightarrow> string list \<Rightarrow> fee_credit dict \<Rightarrow> int \<times> fee_credit dict" where
  "consume_loop spent [] d = (spent, d)"
| "consume_loop spent (cid # cids) d =
     (case dget d cid of
        None \<Rightarrow> consume_loop spent cids d
      | Some c \<Rightarrow> if fc_status c = ACTIVE
          then consume_loop (spent + fc_amount_lamports c) cids (dset cid (c\<lparr>fc_status := USED\<rparr>) d)
          else consume_loop spent cids d)"

definition consume_credits :: "string list \<Rightarrow> gas_vault \<Rightarrow> int \<times> gas_vault" where
  "consume_credits cids gv =
     (let (spent, d) = consume_loop 0 cids (gv_credits gv) in (spent, gv\<lparr>gv_credits := d\<rparr>))"

section \<open>Reimbursement\<close>

definition reimburse_relayer ::
  "string \<Rightarrow> string \<Rightarrow> string list \<Rightarrow> gas_vault \<Rightarrow> l3_env
     \<Rightarrow> reimbursement option result \<times> gas_vault \<times> l3_env" where
  "reimburse_relayer relayer tx cids gv env =
     (let (spent, gv) = consume_credits cids gv
      in if spent \<le> 0 then (Inr None, gv, env)
      else if sol_reserves gv < spent then (Inr None, gv, env)
      else let (r, gv, env) = compute_coverage_ratio_after (- spent) gv env
      in case r of Inl x \<Rightarrow> (Inl x, gv, env)
       | Inr new_coverage \<Rightarrow>
      if flt new_coverage (gas_vault_min_coverage_ratio (gv_config gv)) then (Inr None, gv, env)
      else let gv = gv\<lparr>sol_reserves := sol_reserves gv - spent\<rparr>;
               (u, env) = uuid4_hex env; (now, env) = time_time env;
               rb = \<lparr>rb_reimbursement_id = slice_to 16 u, rb_relayer_address = relayer,
                      rb_amount_lamports = spent, rb_tx_signature = tx, rb_credit_ids = cids,
                      rb_reimbursed_at = now, rb_coverage_ratio_after = new_coverage\<rparr>;
               gv = gv\<lparr>gv_reimbursements := gv_reimbursements gv @ [rb]\<rparr>;
               (e, env) = log_proof TREASURY [
                 (''action'', JStr ''relayer_reimbursement''),
                 (''relayer'', JStr relayer),
                 (''amount_lamports'', JInt spent),
                 (''tx_signature'', JStr tx),
                 (''coverage_ratio_after'', JFloat new_coverage)] env
           in (Inr (Some rb), gv, env))"

section \<open>Statistics\<close>

text \<open>The property \<open>stats\<close>; each of its four readings of the coverage expires stale credits again.\<close>

definition gv_stats :: "gas_vault \<Rightarrow> l3_env \<Rightarrow> json dict result \<times> gas_vault \<times> l3_env" where
  "gv_stats gv env =
     (let sol = sol_reserves gv in
      case of_pyint sol of Inl x \<Rightarrow> (Inl x, gv, env)
      | Inr fsol \<Rightarrow> (case fdiv fsol (Fin 1000000000) of Inl x \<Rightarrow> (Inl x, gv, env)
      | Inr in_sol \<Rightarrow>
          let (out, gv, env) = total_outstanding_lamports gv env; (cov, gv, env) = coverage_ratio gv env
          in case cov of Inl x \<Rightarrow> (Inl x, gv, env)
      | Inr ratio_now \<Rightarrow>
          let (h, gv, env) = is_healthy gv env
          in case h of Inl x \<Rightarrow> (Inl x, gv, env)
      | Inr healthy \<Rightarrow>
          let (n, gv, env) = needs_refill gv env
          in case n of Inl x \<Rightarrow> (Inl x, gv, env)
      | Inr refill \<Rightarrow>
          (Inr [(''sol_reserves'', JInt sol),
            (''sol_reserves_sol'', JFloat in_sol),
            (''outstanding_credits_lamports'', JInt out),
            (''coverage_ratio'', JFloat (fround ratio_now 4)),
            (''is_healthy'', JBool healthy),
            (''needs_refill'', JBool refill),
            (''active_credits'', JInt (int (length (filter (\<lambda>c. fc_status c = ACTIVE) (dvalues (gv_credits gv)))))),
            (''total_reimbursements'', JInt (int (length (gv_reimbursements gv))))], gv, env)))"

section \<open>What the helpers do\<close>

lemma vault_helpers [op_defs]:
  "expire_stale_credits gv env = (expire_at (now_of env) gv, tick env)"
  "total_outstanding_lamports gv env =
     (outstanding (expire_at (now_of env) gv), expire_at (now_of env) gv, tick env)"
  "user_outstanding_lamports u gv env =
     (user_outstanding (expire_at (now_of env) gv) u, expire_at (now_of env) gv, tick env)"
  "compute_coverage_ratio_after delta gv env =
     (ratio (sol_reserves gv + delta) (outstanding (expire_at (now_of env) gv)),
      expire_at (now_of env) gv, tick env)"
  by (simp_all add: expire_stale_credits_def time_time_def total_outstanding_lamports_def
        user_outstanding_lamports_def compute_coverage_ratio_after_def)

lemma expire_at_simps [simp]:
  "gv_config (expire_at now gv) = gv_config gv"
  "sol_reserves (expire_at now gv) = sol_reserves gv"
  "gv_credits (expire_at now gv) = dmap (expire_credit now) (gv_credits gv)"
  "gv_reimbursements (expire_at now gv) = gv_reimbursements gv"
  "gv_user_credits (expire_at now gv) = gv_user_credits gv"
  by (simp_all add: expire_at_def)

lemma expire_credit_simps [simp]:
  "fc_credit_id (expire_credit now c) = fc_credit_id c"
  "fc_user_address (expire_credit now c) = fc_user_address c"
  "fc_amount_lamports (expire_credit now c) = fc_amount_lamports c"
  by (simp_all add: expire_credit_def)

lemma expire_active_le: "0 \<le> fc_amount_lamports c \<Longrightarrow> active_lamports (expire_credit now c) \<le> active_lamports c"
  by (simp add: expire_credit_def active_lamports_def)

text \<open>The active lamports behind an identifier.\<close>

definition act :: "fee_credit dict \<Rightarrow> string \<Rightarrow> int" where
  "act d cid = (case dget d cid of None \<Rightarrow> 0 | Some c \<Rightarrow> active_lamports c)"

lemma user_outstanding_act:
  "user_outstanding gv u = sum_list (map (act (gv_credits gv)) (dget_default (gv_user_credits gv) u []))"
  by (simp add: user_outstanding_def act_def [abs_def])

definition credits_sum :: "fee_credit dict \<Rightarrow> int" where
  "credits_sum d = sum_list (map active_lamports (dvalues d))"

lemma outstanding_credits_sum: "outstanding gv = credits_sum (gv_credits gv)"
  by (simp add: outstanding_def credits_sum_def)

section \<open>Consuming credits\<close>

definition mark_used :: "fee_credit \<Rightarrow> fee_credit" where
  "mark_used c = (if fc_status c = ACTIVE then c\<lparr>fc_status := USED\<rparr> else c)"

lemma mark_used_simps [simp]:
  "fc_amount_lamports (mark_used c) = fc_amount_lamports c"
  "fc_user_address (mark_used c) = fc_user_address c"
  "fc_credit_id (mark_used c) = fc_credit_id c"
  "active_lamports (mark_used c) = 0"
  "mark_used (mark_used c) = mark_used c"
  by (simp_all add: mark_used_def active_lamports_def)

lemma mark_used_status [simp]: "fc_status (mark_used c) \<noteq> ACTIVE"
  by (simp add: mark_used_def)

lemma mark_used_cases:
  "fc_status c = ACTIVE \<Longrightarrow> c\<lparr>fc_status := USED\<rparr> = mark_used c"
  "fc_status c \<noteq> ACTIVE \<Longrightarrow> mark_used c = c"
  by (simp_all add: mark_used_def)

lemma consume_loop_dget:
  "dget (snd (consume_loop t cids d)) k =
     (if k \<in> set cids then map_option mark_used (dget d k) else dget d k)"
proof (induction cids arbitrary: t d)
  case Nil
  then show ?case by simp
next
  case (Cons cid cids)
  then show ?case
    by (cases "dget d cid") (auto simp: mark_used_cases)
qed

lemma consume_loop_keys:
  "distinct (dkeys (snd (consume_loop t cids d))) = distinct (dkeys d)
   \<and> set (dkeys (snd (consume_loop t cids d))) = set (dkeys d)"
proof (induction cids arbitrary: t d)
  case Nil
  then show ?case by simp
next
  case (Cons cid cids)
  then show ?case
    by (cases "dget d cid") (auto dest: dget_Some_key)
qed

text \<open>The total is what the identifiers were worth, each counted once.\<close>

lemma consume_loop_total: "fst (consume_loop t cids d) = t + (\<Sum>cid \<in> set cids. act d cid)"
proof (induction cids arbitrary: t d)
  case Nil
  then show ?case by simp
next
  case (Cons cid cids)
  define d' where "d' = dset cid (mark_used (the (dget d cid))) d"
  have rest: "(\<Sum>k \<in> set cids. act d' k) = (\<Sum>k \<in> set cids - {cid}. act d k)" if "dget d cid \<noteq> None"
    by (rule sum.mono_neutral_cong_right) (auto simp: d'_def act_def)
  have split: "(\<Sum>k \<in> set (cid # cids). act d k) = act d cid + (\<Sum>k \<in> set cids - {cid}. act d k)"
    by (simp add: sum.insert_remove)
  have zero: "(\<Sum>k \<in> set cids - {cid}. act d k) = (\<Sum>k \<in> set cids. act d k)" if "act d cid = 0"
    using that by (intro sum.mono_neutral_left) auto
  show ?case
  proof (cases "dget d cid")
    case None
    then have "act d cid = 0" by (simp add: act_def)
    with None Cons.IH split zero show ?thesis by simp
  next
    case (Some c)
    show ?thesis
    proof (cases "fc_status c = ACTIVE")
      case True
      with Some have "d' = dset cid (c\<lparr>fc_status := USED\<rparr>) d" and "act d cid = fc_amount_lamports c"
        by (simp_all add: d'_def mark_used_def act_def active_lamports_def)
      with True Some Cons.IH [of "t + fc_amount_lamports c" d'] rest split show ?thesis by simp
    next
      case False
      with Some have "act d cid = 0" by (simp add: act_def active_lamports_def)
      with False Some Cons.IH split zero show ?thesis by simp
    qed
  qed
qed

lemma consume_loop_credits_sum:
  "distinct (dkeys d) \<Longrightarrow>
     credits_sum (snd (consume_loop t cids d)) + fst (consume_loop t cids d) = credits_sum d + t"
proof (induction cids arbitrary: t d)
  case Nil
  then show ?case by simp
next
  case (Cons cid cids)
  show ?case
  proof (cases "\<exists>c. dget d cid = Some c \<and> fc_status c = ACTIVE")
    case True
    then obtain c where c: "dget d cid = Some c" "fc_status c = ACTIVE" by blast
    have "credits_sum (dset cid (c\<lparr>fc_status := USED\<rparr>) d) = credits_sum d - fc_amount_lamports c"
      using sum_dset_present [OF Cons.prems c(1), of active_lamports] c(2)
      by (simp add: credits_sum_def active_lamports_def)
    with c Cons.IH [of "dset cid (c\<lparr>fc_status := USED\<rparr>) d"] Cons.prems show ?thesis by simp
  next
    case False
    with Cons show ?thesis by (auto split: option.splits)
  qed
qed

lemma consume_credits_simps [simp]:
  "gv_config (snd (consume_credits cids gv)) = gv_config gv"
  "sol_reserves (snd (consume_credits cids gv)) = sol_reserves gv"
  "gv_reimbursements (snd (consume_credits cids gv)) = gv_reimbursements gv"
  "gv_user_credits (snd (consume_credits cids gv)) = gv_user_credits gv"
  "fst (consume_credits cids gv) = (\<Sum>cid \<in> set cids. act (gv_credits gv) cid)"
  "dget (gv_credits (snd (consume_credits cids gv))) k =
     (if k \<in> set cids then map_option mark_used (dget (gv_credits gv) k) else dget (gv_credits gv) k)"
  "distinct (dkeys (gv_credits (snd (consume_credits cids gv)))) = distinct (dkeys (gv_credits gv))"
  "set (dkeys (gv_credits (snd (consume_credits cids gv)))) = set (dkeys (gv_credits gv))"
  using consume_loop_total [of 0 cids "gv_credits gv"] consume_loop_keys [of 0 cids "gv_credits gv"]
  by (simp_all add: consume_credits_def case_prod_beta Let_def consume_loop_dget)

section \<open>How a credit can change\<close>

text \<open>A credit is used or expires, once; nothing else about it ever changes.\<close>

definition credit_edge :: "credit_status \<Rightarrow> credit_status \<Rightarrow> bool" where
  "credit_edge a b \<longleftrightarrow> a = ACTIVE \<and> (b = USED \<or> b = EXPIRED)"

definition credit_next :: "fee_credit \<Rightarrow> fee_credit \<Rightarrow> bool" where
  "credit_next c c' \<longleftrightarrow> c' = c \<or> (\<exists>st. credit_edge (fc_status c) st \<and> c' = c\<lparr>fc_status := st\<rparr>)"

definition credits_le :: "fee_credit dict \<Rightarrow> fee_credit dict \<Rightarrow> bool" where
  "credits_le d d' \<longleftrightarrow> (distinct (dkeys d) \<longrightarrow> distinct (dkeys d')) \<and>
     (\<forall>k. rel_option credit_next (dget d k) (dget d' k))"

lemma credit_next_refl [simp]: "credit_next c c"
  by (simp add: credit_next_def)

lemma credit_next_trans: "credit_next a b \<Longrightarrow> credit_next b c \<Longrightarrow> credit_next a c"
  by (auto simp: credit_next_def credit_edge_def)

lemma credits_le_refl [simp]: "credits_le d d"
  by (simp add: credits_le_def option.rel_refl)

lemma credits_le_trans: "credits_le a b \<Longrightarrow> credits_le b c \<Longrightarrow> credits_le a c"
  unfolding credits_le_def by (metis (full_types) credit_next_trans option.rel_sel)

lemma credits_le_expire [simp]: "credits_le d (dmap (expire_credit now) d)"
proof -
  have "credit_next c (expire_credit now c)" for c
    by (auto simp: credit_next_def credit_edge_def expire_credit_def)
  then show ?thesis by (auto simp: credits_le_def option.rel_map intro: option.rel_refl)
qed

lemma credits_le_consume [simp]: "credits_le (gv_credits gv) (gv_credits (snd (consume_credits cids gv)))"
proof -
  have "credit_next c (mark_used c)" for c
    by (auto simp: credit_next_def credit_edge_def mark_used_def)
  then show ?thesis by (auto simp: credits_le_def option.rel_map intro: option.rel_refl)
qed

lemma credits_leD:
  assumes "credits_le d d'"
  shows "dget d k = None \<Longrightarrow> dget d' k = None"
    and "dget d k = Some c \<Longrightarrow> \<exists>c'. dget d' k = Some c' \<and> credit_next c c'"
    and "dget d' k = Some c' \<Longrightarrow> \<exists>c. dget d k = Some c \<and> credit_next c c'"
proof -
  from assms have rel: "rel_option credit_next (dget d k) (dget d' k)" by (simp add: credits_le_def)
  show "dget d k = None \<Longrightarrow> dget d' k = None"
    and "dget d k = Some c \<Longrightarrow> \<exists>c'. dget d' k = Some c' \<and> credit_next c c'"
    and "dget d' k = Some c' \<Longrightarrow> \<exists>c. dget d k = Some c \<and> credit_next c c'"
    using rel by (cases "dget d k"; cases "dget d' k"; simp)+
qed

lemma credit_next_simps:
  assumes "credit_next c c'"
  shows "fc_credit_id c' = fc_credit_id c" and "fc_user_address c' = fc_user_address c"
    and "fc_amount_lamports c' = fc_amount_lamports c" and "fc_expires_at c' = fc_expires_at c"
    and "fc_proof_ref c' = fc_proof_ref c"
  using assms by (auto simp: credit_next_def)

section \<open>The invariant of the vault\<close>

definition ids_of :: "gas_vault \<Rightarrow> string \<Rightarrow> string list" where
  "ids_of gv u = dget_default (gv_user_credits gv) u []"

text \<open>
  Identifiers are unique, amounts are positive, the index by user lists exactly the credits of that
  user, each once, and the reserves are not negative.
\<close>

definition gv_ok :: "gas_vault \<Rightarrow> bool" where
  "gv_ok gv \<longleftrightarrow> distinct (dkeys (gv_credits gv)) \<and>
     (\<forall>cid c. dget (gv_credits gv) cid = Some c \<longrightarrow>
        0 < fc_amount_lamports c \<and> fc_credit_id c = cid \<and> cid \<in> set (ids_of gv (fc_user_address c))) \<and>
     (\<forall>u. distinct (ids_of gv u)) \<and>
     (\<forall>u cid. cid \<in> set (ids_of gv u) \<longrightarrow>
        (\<exists>c. dget (gv_credits gv) cid = Some c \<and> fc_user_address c = u)) \<and>
     0 \<le> sol_reserves gv"

text \<open>No user holds more active credit than the configured cap.\<close>

definition credit_cap :: "l3_config \<Rightarrow> int result" where
  "credit_cap c = ftrunc (fmul (max_fee_credit_per_user_usd c) (Fin 1000000000))"

definition cap_ok :: "gas_vault \<Rightarrow> bool" where
  "cap_ok gv \<longleftrightarrow> (\<forall>m u. credit_cap (gv_config gv) = Inr m \<longrightarrow> 0 \<le> m \<longrightarrow> user_outstanding gv u \<le> m)"

text \<open>A step that only moves credits along, touching neither the index nor the configuration.\<close>

definition vault_le :: "gas_vault \<Rightarrow> gas_vault \<Rightarrow> bool" where
  "vault_le gv gv' \<longleftrightarrow> credits_le (gv_credits gv) (gv_credits gv') \<and>
     gv_user_credits gv' = gv_user_credits gv \<and> gv_config gv' = gv_config gv"

lemma vault_le_refl [simp]: "vault_le gv gv"
  by (simp add: vault_le_def)

lemma vault_le_trans: "vault_le a b \<Longrightarrow> vault_le b c \<Longrightarrow> vault_le a c"
  by (auto simp: vault_le_def intro: credits_le_trans)

lemma vault_le_expire [simp]: "vault_le gv (expire_at now gv)"
  by (simp add: vault_le_def)

lemma vault_le_consume [simp]: "vault_le gv (snd (consume_credits cids gv))"
  by (simp add: vault_le_def)

lemma gv_ok_le:
  assumes "vault_le gv gv'" and "gv_ok gv" and "0 \<le> sol_reserves gv'"
  shows "gv_ok gv'"
proof -
  from assms(1) have le: "credits_le (gv_credits gv) (gv_credits gv')"
    and ids: "ids_of gv' = ids_of gv"
    by (auto simp: vault_le_def ids_of_def)
  note bwd = credits_leD(3) [OF le]
  note fwd = credits_leD(2) [OF le]
  have "0 < fc_amount_lamports c' \<and> fc_credit_id c' = cid \<and> cid \<in> set (ids_of gv' (fc_user_address c'))"
    if "dget (gv_credits gv') cid = Some c'" for cid c'
    using bwd [OF that] assms(2) by (auto simp: gv_ok_def ids credit_next_simps)
  moreover have "\<exists>c'. dget (gv_credits gv') cid = Some c' \<and> fc_user_address c' = u"
    if "cid \<in> set (ids_of gv' u)" for u cid
  proof -
    from that assms(2) obtain c where "dget (gv_credits gv) cid = Some c" "fc_user_address c = u"
      unfolding gv_ok_def ids by blast
    with fwd [of cid c] show ?thesis using credit_next_simps(2) by blast
  qed
  ultimately show ?thesis
    using assms le by (simp add: gv_ok_def ids credits_le_def)
qed

lemma user_outstanding_le:
  assumes "vault_le gv gv'" and "gv_ok gv"
  shows "user_outstanding gv' u \<le> user_outstanding gv u"
proof -
  have "act (gv_credits gv') cid \<le> act (gv_credits gv) cid" if "cid \<in> set (ids_of gv u)" for cid
  proof -
    from assms(2) that obtain c where c: "dget (gv_credits gv) cid = Some c"
      unfolding gv_ok_def by blast
    with assms obtain c' where c': "dget (gv_credits gv') cid = Some c'" "credit_next c c'"
      using credits_leD(2) unfolding vault_le_def by blast
    have "0 < fc_amount_lamports c" using assms(2) c unfolding gv_ok_def by blast
    with c c' show ?thesis
      by (auto simp: act_def active_lamports_def credit_next_def credit_edge_def)
  qed
  then show ?thesis
    using assms(1) by (simp add: user_outstanding_act vault_le_def ids_of_def sum_list_mono)
qed

lemma cap_ok_le: "vault_le gv gv' \<Longrightarrow> gv_ok gv \<Longrightarrow> cap_ok gv \<Longrightarrow> cap_ok gv'"
  unfolding cap_ok_def using user_outstanding_le by (metis order_trans vault_le_def)

section \<open>What each operation does\<close>

lemma can_cover_eq:
  "can_cover_new_credits extra gv env =
     ((if outstanding (expire_at (now_of env) gv) + extra = 0 then Inr True
       else map_sum id (\<lambda>q. fle (gas_vault_min_coverage_ratio (gv_config gv)) q)
              (truediv (sol_reserves gv) (outstanding (expire_at (now_of env) gv) + extra))),
      expire_at (now_of env) gv, tick env)"
  by (simp add: can_cover_new_credits_def vault_helpers)

lemma deposit_effect:
  assumes "deposit_sol amount src gv env = (gv', env')"
  shows "gv' = gv\<lparr>sol_reserves := sol_reserves gv + amount\<rparr>"
  using assms by (auto simp: deposit_sol_def Let_def split: prod.splits)

lemma withdraw_effect:
  assumes "withdraw_sol amount dest reason gv env = (r, gv', env')"
  shows "r \<noteq> Inr True \<Longrightarrow> gv' = gv \<or> gv' = expire_at (now_of env) gv"
    and "r = Inr True \<Longrightarrow> amount \<le> sol_reserves gv \<and>
      gv' = (expire_at (now_of env) gv)\<lparr>sol_reserves := sol_reserves gv - amount\<rparr> \<and>
      (\<exists>q. ratio (sol_reserves gv - amount) (outstanding (expire_at (now_of env) gv)) = Inr q \<and>
           \<not> flt q (gas_vault_min_coverage_ratio (gv_config gv)))"
  using assms
  by (auto simp: withdraw_sol_def vault_helpers Let_def split: if_splits sum.splits prod.splits)

lemma reimburse_effect:
  assumes "reimburse_relayer rel tx cids gv env = (r, gv', env')"
  defines "spent \<equiv> fst (consume_credits cids gv)"
    and "used \<equiv> snd (consume_credits cids gv)"
  shows "(\<forall>rb. r \<noteq> Inr (Some rb)) \<Longrightarrow> gv' = used \<or> gv' = expire_at (now_of env) used"
    and "r = Inr (Some rb) \<Longrightarrow> 0 < spent \<and> spent \<le> sol_reserves gv \<and>
      gv' = (expire_at (now_of env) used)\<lparr>sol_reserves := sol_reserves gv - spent,
               gv_reimbursements := gv_reimbursements gv @ [rb]\<rparr> \<and>
      rb_amount_lamports rb = spent \<and> rb_credit_ids rb = cids \<and> rb_relayer_address rb = rel \<and>
      rb_tx_signature rb = tx \<and>
      ratio (sol_reserves gv - spent) (outstanding (expire_at (now_of env) used))
        = Inr (rb_coverage_ratio_after rb) \<and>
      \<not> flt (rb_coverage_ratio_after rb) (gas_vault_min_coverage_ratio (gv_config gv))"
  using assms(1)
  by (auto simp: reimburse_relayer_def vault_helpers Let_def spent_def used_def uuid4_hex_def time_time_def
        case_prod_beta split: if_splits sum.splits)

text \<open>The result of storing a credit, and the vault it leaves.\<close>

definition with_credit :: "fee_credit \<Rightarrow> gas_vault \<Rightarrow> gas_vault" where
  "with_credit c gv = gv\<lparr>gv_credits := dset (fc_credit_id c) c (gv_credits gv),
     gv_user_credits := dappend (fc_user_address c) (fc_credit_id c) (gv_user_credits gv)\<rparr>"

lemma store_credit_effect:
  assumes "store_credit user ph amount gv env = (r, gv', env')"
  shows "(\<forall>c. r \<noteq> Inr (Some c)) \<Longrightarrow> gv' = gv"
    and "r = Inr (Some c) \<Longrightarrow> gv' = with_credit c gv \<and> fc_user_address c = user \<and>
      fc_amount_lamports c = amount \<and> fc_status c = ACTIVE \<and> fc_proof_ref c = ph \<and>
      fc_credit_id c = slice_to 16 (uuids env (uuid_pos env))"
  using assms
  by (auto simp: store_credit_def with_credit_def Let_def uuid4_hex_def time_time_def
      split: sum.splits prod.splits)

definition issue_vault :: "gas_vault \<Rightarrow> l3_env \<Rightarrow> gas_vault" where
  "issue_vault gv env = expire_at (clock env (Suc (clock_pos env))) (expire_at (now_of env) gv)"

lemma issue_effect:
  assumes "issue_credit user ph score gv env = (r, gv', env')"
  shows "(\<forall>c. r \<noteq> Inr (Some c)) \<Longrightarrow>
      gv' = gv \<or> gv' = expire_at (now_of env) gv \<or> gv' = issue_vault gv env"
    and "r = Inr (Some c) \<Longrightarrow> \<exists>cap earned.
      (\<exists>p \<in> set (get_entries (book env) (Some ZK_COMPUTE) None 50). pe_entry_hash p = ph) \<and>
      credit_cap (gv_config gv) = Inr cap \<and> ftrunc (fmul score (Fin 100000000)) = Inr earned \<and>
      gv' = with_credit c (issue_vault gv env) \<and>
      fc_amount_lamports c = min earned (cap - user_outstanding (expire_at (now_of env) gv) user) \<and>
      0 < fc_amount_lamports c \<and>
      fc_user_address c = user \<and> fc_status c = ACTIVE \<and> fc_proof_ref c = ph \<and>
      fc_credit_id c = slice_to 16 (uuids env (uuid_pos env)) \<and>
      fst (can_cover_new_credits (fc_amount_lamports c) (expire_at (now_of env) gv) (tick env)) = Inr True"
proof -
  define gv1 where "gv1 = expire_at (now_of env) gv"
  have iv: "issue_vault gv env = expire_at (now_of (tick env)) gv1"
    by (simp add: issue_vault_def gv1_def)
  have cc: "can_cover_new_credits n gv1 (tick env) =
      (fst (can_cover_new_credits n gv1 (tick env)), issue_vault gv env, tick (tick env))" for n
    by (simp add: can_cover_eq iv)
  note eq = assms [unfolded issue_credit_def Let_def vault_helpers prod.case, folded gv1_def]
  show "(\<forall>c. r \<noteq> Inr (Some c)) \<Longrightarrow> gv' = gv \<or> gv' = expire_at (now_of env) gv \<or> gv' = issue_vault gv env"
    using eq store_credit_effect(1)
    by (subst (asm) cc) (auto simp: gv1_def split: if_splits sum.splits)
  show "r = Inr (Some c) \<Longrightarrow> \<exists>cap earned.
      (\<exists>p \<in> set (get_entries (book env) (Some ZK_COMPUTE) None 50). pe_entry_hash p = ph) \<and>
      credit_cap (gv_config gv) = Inr cap \<and> ftrunc (fmul score (Fin 100000000)) = Inr earned \<and>
      gv' = with_credit c (issue_vault gv env) \<and>
      fc_amount_lamports c = min earned (cap - user_outstanding (expire_at (now_of env) gv) user) \<and>
      0 < fc_amount_lamports c \<and>
      fc_user_address c = user \<and> fc_status c = ACTIVE \<and> fc_proof_ref c = ph \<and>
      fc_credit_id c = slice_to 16 (uuids env (uuid_pos env)) \<and>
      fst (can_cover_new_credits (fc_amount_lamports c) (expire_at (now_of env) gv) (tick env)) = Inr True"
    using eq by (subst (asm) cc)
      (auto simp: gv1_def credit_cap_def filter_empty_conv dest!: store_credit_effect(2) split: if_splits sum.splits)
qed

section \<open>Coverage is exact\<close>

text \<open>
  The coverage test compares a rounded quotient with 3/2. As long as the reserves stay below
  \<open>2^51\<close> lamports the rounding cannot hide a shortfall: the test passes only if the reserves really
  are one and a half times the outstanding credits.
\<close>

definition vault_limit :: int where
  "vault_limit = 2 ^ 51"

definition covered :: "gas_vault \<Rightarrow> bool" where
  "covered gv \<longleftrightarrow> 3 * outstanding gv \<le> 2 * sol_reserves gv"

lemma rounded_ratio_exact:
  assumes "0 < out" and "sol \<le> vault_limit" and "3 / 2 \<le> rnd (of_int sol / of_int out)"
  shows "3 * out \<le> 2 * sol"
proof (rule ccontr)
  assume neg: "\<not> 3 * out \<le> 2 * sol"
  have o: "(0 :: rat) < of_int out" using assms(1) by simp
  show False
  proof (cases "out \<le> vault_limit")
    case True
    define c :: rat where "c = 3 / 2 - 1 / 2 ^ 52"
    have "rnd (of_int (3 * 2 ^ 51 - 1) * pow2 (- 52)) = of_int (3 * 2 ^ 51 - 1) * pow2 (- 52)"
      by (rule f64.exact) simp_all
    then have c: "rnd c = c" by (simp add: c_def pow2_def)
    have "2 * sol + 1 \<le> 3 * out" using neg by simp
    then have "(of_int (2 * sol + 1) :: rat) \<le> of_int (3 * out)" by (simp only: of_int_le_iff)
    then have "2 * of_int sol \<le> 3 * of_int out - (1 :: rat)" by simp
    then have "of_int sol / of_int out \<le> 3 / 2 - 1 / (2 * of_int out :: rat)"
      using o by (simp add: field_simps)
    moreover have "(of_int out :: rat) \<le> of_int (2 ^ 51)"
      using True unfolding vault_limit_def by (simp only: of_int_le_iff)
    then have "1 / 2 ^ 52 \<le> 1 / (2 * of_int out :: rat)" using o by (simp add: field_simps)
    ultimately have "of_int sol / of_int out \<le> c" unfolding c_def by linarith
    from f64.le_fixed [OF c this] assms(3) show False by (simp add: c_def)
  next
    case False
    then have "(of_int sol :: rat) \<le> of_int out" using assms(2) by simp
    then have "of_int sol / of_int out \<le> (1 :: rat)" using o by simp
    from f64.le_fixed [OF _ this] assms(3) show False using f64.int_exact [of 1] by simp
  qed
qed

lemma ratio_covers:
  assumes "ratio sol out = Inr q" and "\<not> flt q (Fin (3 / 2))" and "0 \<le> out" and "0 \<le> sol"
    and "sol \<le> vault_limit"
  shows "3 * out \<le> 2 * sol"
proof (cases "out = 0")
  case False
  with assms have "q = Fin (rnd (of_int sol / of_int out))"
    by (auto simp: ratio_def dest: truediv_Inr)
  with assms(2) have "3 / 2 \<le> rnd (of_int sol / of_int out)" by simp
  then show ?thesis using rounded_ratio_exact assms False by simp
qed (use assms in simp)

text \<open>So the test decides coverage exactly, and never fails with an exception.\<close>

lemma ratio_test:
  assumes "0 \<le> out" and "0 \<le> sol" and "sol \<le> vault_limit"
  shows "\<exists>q. ratio sol out = Inr q \<and> (flt q (Fin (3 / 2)) \<longleftrightarrow> 2 * sol < 3 * out)"
proof (cases "out = 0")
  case True
  then show ?thesis using assms by (simp add: ratio_def)
next
  case False
  then have q: "ratio sol out = Inr (Fin (rnd (of_int sol / of_int out)))"
    using assms by (simp add: ratio_def truediv_small vault_limit_def)
  have f32: "rnd (3 / 2 :: rat) = 3 / 2" using f64.exact [of 3 "- 1"] by (simp add: pow2_def)
  have "3 / 2 \<le> rnd (of_int sol / of_int out)" if "3 * out \<le> 2 * sol"
  proof -
    have "(of_int (3 * out) :: rat) \<le> of_int (2 * sol)" using that by (simp only: of_int_le_iff)
    then have "(3 / 2 :: rat) \<le> of_int sol / of_int out" using False assms(1) by (simp add: field_simps)
    then show ?thesis by (rule f64.ge_fixed [OF f32])
  qed
  moreover have "3 * out \<le> 2 * sol" if "\<not> flt (Fin (rnd (of_int sol / of_int out))) (Fin (3 / 2))"
    using ratio_covers [OF q that] assms by simp
  ultimately show ?thesis using q by force
qed

lemma outstanding_nonneg: "gv_ok gv \<Longrightarrow> 0 \<le> outstanding gv"
proof -
  assume ok: "gv_ok gv"
  have "0 \<le> active_lamports c" if c: "c \<in> set (dvalues (gv_credits gv))" for c
  proof -
    from c obtain cid where "(cid, c) \<in> set (gv_credits gv)" by auto
    then have "dget (gv_credits gv) cid = Some c" using ok by (simp add: gv_ok_def)
    then show ?thesis using ok unfolding gv_ok_def active_lamports_def by (auto intro: order_less_imp_le)
  qed
  then show ?thesis unfolding outstanding_def by (intro sum_list_nonneg) auto
qed

lemma outstanding_expire_le: "gv_ok gv \<Longrightarrow> outstanding (expire_at now gv) \<le> outstanding gv"
proof -
  assume ok: "gv_ok gv"
  have "active_lamports (expire_credit now c) \<le> active_lamports c"
    if c: "c \<in> set (dvalues (gv_credits gv))" for c
  proof -
    from c obtain cid where "(cid, c) \<in> set (gv_credits gv)" by auto
    then have "dget (gv_credits gv) cid = Some c" using ok by (simp add: gv_ok_def)
    then show ?thesis using ok unfolding gv_ok_def by (intro expire_active_le) (auto intro: order_less_imp_le)
  qed
  then show ?thesis unfolding outstanding_def by (simp add: sum_list_mono comp_def)
qed

lemma outstanding_consume:
  "gv_ok gv \<Longrightarrow> outstanding (snd (consume_credits cids gv)) + fst (consume_credits cids gv) = outstanding gv"
  using consume_loop_credits_sum [of "gv_credits gv" 0 cids]
  by (simp add: outstanding_credits_sum gv_ok_def consume_credits_def case_prod_beta Let_def)

lemma act_nonneg: "gv_ok gv \<Longrightarrow> 0 \<le> act (gv_credits gv) cid"
  unfolding gv_ok_def act_def active_lamports_def
  by (auto split: option.splits intro: order_less_imp_le)

lemma spent_nonneg: "gv_ok gv \<Longrightarrow> 0 \<le> fst (consume_credits cids gv)"
  by (simp add: act_nonneg sum_nonneg)

section \<open>Storing a fresh credit\<close>

lemma with_credit_simps [simp]:
  "gv_config (with_credit c gv) = gv_config gv"
  "sol_reserves (with_credit c gv) = sol_reserves gv"
  "ids_of (with_credit c gv) u =
     (if u = fc_user_address c then ids_of gv u @ [fc_credit_id c] else ids_of gv u)"
  "dget (gv_credits (with_credit c gv)) k =
     (if k = fc_credit_id c then Some c else dget (gv_credits gv) k)"
  "distinct (dkeys (gv_credits (with_credit c gv))) = distinct (dkeys (gv_credits gv))"
  by (simp_all add: with_credit_def ids_of_def dget_default_def)

lemma gv_ok_credit:
  "gv_ok gv \<Longrightarrow> dget (gv_credits gv) cid = Some c \<Longrightarrow>
     0 < fc_amount_lamports c \<and> fc_credit_id c = cid \<and> cid \<in> set (ids_of gv (fc_user_address c))"
  unfolding gv_ok_def by blast

lemma gv_ok_ids:
  "gv_ok gv \<Longrightarrow> cid \<in> set (ids_of gv u) \<Longrightarrow>
     \<exists>c. dget (gv_credits gv) cid = Some c \<and> fc_user_address c = u"
  unfolding gv_ok_def by blast

lemma gv_ok_with_credit:
  assumes "gv_ok gv" and "dget (gv_credits gv) (fc_credit_id c) = None" and "0 < fc_amount_lamports c"
  shows "gv_ok (with_credit c gv)"
proof -
  have new: "fc_credit_id c \<notin> set (ids_of gv u)" for u
    using gv_ok_ids [OF assms(1)] assms(2) by fastforce
  have a: "distinct (dkeys (gv_credits (with_credit c gv)))" using assms(1) by (simp add: gv_ok_def)
  have b: "0 < fc_amount_lamports c' \<and> fc_credit_id c' = cid \<and>
      cid \<in> set (ids_of (with_credit c gv) (fc_user_address c'))"
    if "dget (gv_credits (with_credit c gv)) cid = Some c'" for cid c'
    using that assms(3) gv_ok_credit [OF assms(1), of cid c'] by (auto split: if_splits)
  have d: "distinct (ids_of (with_credit c gv) u)" for u
    using new assms(1) unfolding gv_ok_def by auto
  have e: "\<exists>c'. dget (gv_credits (with_credit c gv)) cid = Some c' \<and> fc_user_address c' = u"
    if "cid \<in> set (ids_of (with_credit c gv) u)" for u cid
  proof -
    have "cid = fc_credit_id c \<and> u = fc_user_address c \<or> cid \<noteq> fc_credit_id c \<and> cid \<in> set (ids_of gv u)"
      using that new [of u] by (auto split: if_splits)
    then show ?thesis using gv_ok_ids [OF assms(1), of cid u] by auto
  qed
  have r: "0 \<le> sol_reserves (with_credit c gv)" using assms(1) by (simp add: gv_ok_def)
  show ?thesis unfolding gv_ok_def using a b d e r by blast
qed

lemma user_outstanding_with_credit:
  assumes "gv_ok gv" and "dget (gv_credits gv) (fc_credit_id c) = None"
  shows "user_outstanding (with_credit c gv) u =
    user_outstanding gv u + (if u = fc_user_address c then active_lamports c else 0)"
proof -
  have "fc_credit_id c \<notin> set (ids_of gv u)"
    using gv_ok_ids [OF assms(1)] assms(2) by fastforce
  then have eq: "sum_list (map (act (gv_credits (with_credit c gv))) (ids_of gv u))
      = sum_list (map (act (gv_credits gv)) (ids_of gv u))"
    by (intro arg_cong [of _ _ sum_list] map_cong) (auto simp: act_def)
  have "act (gv_credits (with_credit c gv)) (fc_credit_id c) = active_lamports c"
    by (simp add: act_def)
  with eq show ?thesis by (auto simp: user_outstanding_act simp flip: ids_of_def)
qed

lemma outstanding_with_credit:
  assumes "dget (gv_credits gv) (fc_credit_id c) = None"
  shows "outstanding (with_credit c gv) = outstanding gv + active_lamports c"
proof -
  have "fc_credit_id c \<notin> set (dkeys (gv_credits gv))" using assms by (metis dget_None_key)
  then show ?thesis by (simp add: outstanding_def with_credit_def dset_fresh)
qed

end
