(* ===== verification/Vault_Runs.thy ===== *)
theory Vault_Runs
  imports Gas_Vault
begin

text \<open>
  Sequences of calls on the gas vault of \<open>membra-l3/membra_l3/gas_vault.py\<close>: the invariant every call
  keeps (bookkeeping, the cap per user, coverage of the outstanding credits), the life of a fee
  credit, and the properties of the vault as a whole.
\<close>

section \<open>Runs of the vault\<close>

text \<open>
  The calls a vault receives, on the vault and the shared process state, with any arguments. A credit gets an identifier
  no earlier credit has (\<open>uuid4\<close> does not repeat). Other modules may change the process state in between. A call is labelled with
  the amount it moves by hand.
\<close>

datatype vault_call = Depositing int | Withdrawing int | Other_call

inductive vault_call_step :: "vault_call \<Rightarrow> gas_vault \<times> l3_env \<Rightarrow> gas_vault \<times> l3_env \<Rightarrow> bool" where
  vs_deposit: "deposit_sol amount src gv env = (gv', env') \<Longrightarrow> vault_call_step (Depositing amount) (gv, env) (gv', env')"
| vs_withdraw: "withdraw_sol amount dest reason gv env = (r, gv', env') \<Longrightarrow>
     vault_call_step (Withdrawing amount) (gv, env) (gv', env')"
| vs_issue: "dget (gv_credits gv) (slice_to 16 (uuids env (uuid_pos env))) = None \<Longrightarrow>
     issue_credit user proof_hash score gv env = (ri, gv', env') \<Longrightarrow> vault_call_step Other_call (gv, env) (gv', env')"
| vs_reimburse: "reimburse_relayer relayer tx cids gv env = (rr, gv', env') \<Longrightarrow>
     vault_call_step Other_call (gv, env) (gv', env')"
| vs_consume: "vault_call_step Other_call (gv, env) (snd (consume_credits cids gv), env)"
| vs_user_credits: "get_user_credits user gv env = (cs, gv', env') \<Longrightarrow> vault_call_step Other_call (gv, env) (gv', env')"
| vs_coverage: "coverage_ratio gv env = (rq, gv', env') \<Longrightarrow> vault_call_step Other_call (gv, env) (gv', env')"
| vs_other: "vault_call_step Other_call (gv, env) (gv, env')"

definition vault_step :: "gas_vault \<times> l3_env \<Rightarrow> gas_vault \<times> l3_env \<Rightarrow> bool" where
  "vault_step s t \<longleftrightarrow> (\<exists>c. vault_call_step c s t)"

text \<open>
  The vault does not check the sign of an amount, so what it promises depends on its operator: no amount deposited or withdrawn
  is negative, and deposits keep the reserves within \<open>vault_limit\<close>.
\<close>

fun funded_call :: "vault_call \<Rightarrow> gas_vault \<Rightarrow> bool" where
  "funded_call (Depositing amount) gv \<longleftrightarrow> 0 \<le> amount \<and> sol_reserves gv + amount \<le> vault_limit"
| "funded_call (Withdrawing amount) gv \<longleftrightarrow> 0 \<le> amount"
| "funded_call Other_call gv \<longleftrightarrow> True"

definition funded_step :: "gas_vault \<times> l3_env \<Rightarrow> gas_vault \<times> l3_env \<Rightarrow> bool" where
  "funded_step s t \<longleftrightarrow> (\<exists>c. funded_call c (fst s) \<and> vault_call_step c s t)"

lemma funded_other: "vault_call_step Other_call s t \<Longrightarrow> funded_step s t"
  unfolding funded_step_def by (intro exI [of _ Other_call]) simp

lemma funded_is_step: "funded_step s t \<Longrightarrow> vault_step s t"
  by (auto simp: funded_step_def vault_step_def)

text \<open>Without that care the reserves turn negative, or grow by a withdrawal.\<close>

lemma negative_amounts_are_accepted:
  "sol_reserves (fst (deposit_sol (- 1) src (gas_vault_init DEFAULT_CONFIG 0) env)) = - 1"
  "\<exists>gv' env'. withdraw_sol (- 1) dest reason (gas_vault_init DEFAULT_CONFIG 0) env = (Inr True, gv', env') \<and> sol_reserves gv' = 1"
proof -
  obtain gv' env' where "deposit_sol (- 1) src (gas_vault_init DEFAULT_CONFIG 0) env = (gv', env')" by fastforce
  with deposit_effect [OF this] show "sol_reserves (fst (deposit_sol (- 1) src (gas_vault_init DEFAULT_CONFIG 0) env)) = - 1"
    by (simp add: gas_vault_init_def)
  show "\<exists>gv' env'. withdraw_sol (- 1) dest reason (gas_vault_init DEFAULT_CONFIG 0) env = (Inr True, gv', env') \<and> sol_reserves gv' = 1"
    by (simp add: withdraw_sol_def gas_vault_init_def vault_helpers ratio_def outstanding_def Let_def case_prod_beta)
qed

text \<open>Everything the vault promises, for the default configuration.\<close>

definition vault_inv :: "gas_vault \<Rightarrow> bool" where
  "vault_inv gv \<longleftrightarrow> gv_config gv = DEFAULT_CONFIG \<and> gv_ok gv \<and> cap_ok gv \<and> covered gv \<and>
     sol_reserves gv \<le> vault_limit"

lemma credit_cap_default [simp]: "credit_cap DEFAULT_CONFIG = Inr 10000000000"
  by (simp add: credit_cap_def rtrunc_def)

lemma vault_inv_init: "0 \<le> n \<Longrightarrow> n \<le> vault_limit \<Longrightarrow> vault_inv (gas_vault_init DEFAULT_CONFIG n)"
  by (simp add: vault_inv_def gas_vault_init_def gv_ok_def cap_ok_def covered_def ids_of_def
        user_outstanding_def outstanding_def dget_default_def)

text \<open>A step along \<open>vault_le\<close> that leaves the reserves and does not add credit keeps it all.\<close>

lemma vault_inv_le:
  assumes "vault_inv gv" and "vault_le gv gv'" and "sol_reserves gv' = sol_reserves gv"
    and "outstanding gv' \<le> outstanding gv"
  shows "vault_inv gv'"
proof -
  from assms have "gv_ok gv'" by (intro gv_ok_le [OF assms(2)]) (auto simp: vault_inv_def gv_ok_def)
  moreover from assms have "cap_ok gv'" by (intro cap_ok_le [OF assms(2)]) (auto simp: vault_inv_def)
  ultimately show ?thesis using assms by (auto simp: vault_inv_def covered_def vault_le_def)
qed

lemma vault_inv_expire: "vault_inv gv \<Longrightarrow> vault_inv (expire_at now gv)"
  by (rule vault_inv_le) (auto simp: vault_inv_def outstanding_expire_le)

lemma vault_inv_consume: "vault_inv gv \<Longrightarrow> vault_inv (snd (consume_credits cids gv))"
proof -
  assume inv: "vault_inv gv"
  then have "gv_ok gv" by (simp add: vault_inv_def)
  then have "outstanding (snd (consume_credits cids gv)) \<le> outstanding gv"
    using outstanding_consume [of gv cids] spent_nonneg [of gv cids] by linarith
  then show ?thesis by (intro vault_inv_le [OF inv]) simp_all
qed

lemma vault_inv_deposit:
  assumes "vault_inv gv" and "0 \<le> amount" and "sol_reserves gv + amount \<le> vault_limit"
  shows "vault_inv (gv\<lparr>sol_reserves := sol_reserves gv + amount\<rparr>)"
proof -
  let ?gv = "gv\<lparr>sol_reserves := sol_reserves gv + amount\<rparr>"
  have le: "vault_le gv ?gv" by (simp add: vault_le_def)
  have nn: "0 \<le> sol_reserves gv" using assms(1) by (simp add: vault_inv_def gv_ok_def)
  then have "gv_ok ?gv" "cap_ok ?gv"
    using assms gv_ok_le [OF le] cap_ok_le [OF le] by (simp_all add: vault_inv_def)
  then show ?thesis using assms by (simp add: vault_inv_def covered_def outstanding_def)
qed

text \<open>Lowering the reserves keeps the invariant when the coverage test passes afterwards.\<close>

lemma vault_inv_lower:
  assumes inv: "vault_inv gv" and "0 \<le> n" and "n \<le> sol_reserves gv"
    and "ratio (sol_reserves gv - n) (outstanding gv) = Inr q" and "\<not> flt q (Fin (3 / 2))"
    and gv': "gv' = gv\<lparr>sol_reserves := sol_reserves gv - n, gv_reimbursements := rbs\<rparr>"
  shows "vault_inv gv'"
proof -
  have "3 * outstanding gv \<le> 2 * (sol_reserves gv - n)"
    using assms inv by (intro ratio_covers [of _ _ q]) (auto simp: vault_inv_def intro: outstanding_nonneg)
  then have "covered gv'" by (simp add: gv' covered_def outstanding_def)
  moreover have "vault_le gv gv'" by (simp add: gv' vault_le_def)
  ultimately show ?thesis
    using inv assms gv_ok_le [of gv gv'] cap_ok_le [of gv gv'] by (auto simp: vault_inv_def gv')
qed

lemma vault_inv_issue:
  assumes "vault_inv gv" and "dget (gv_credits gv) (slice_to 16 (uuids env (uuid_pos env))) = None"
    and "issue_credit user ph score gv env = (Inr (Some c), gv', env')"
  shows "vault_inv gv'"
proof -
  define gv1 where "gv1 = expire_at (now_of env) gv"
  define gv2 where "gv2 = issue_vault gv env"
  have gv2: "gv2 = expire_at (now_of (tick env)) gv1" by (simp add: gv1_def gv2_def issue_vault_def)
  have inv1: "vault_inv gv1" and inv2: "vault_inv gv2"
    using vault_inv_expire assms(1) by (simp_all add: gv1_def gv2)
  have ok1: "gv_ok gv1" and ok2: "gv_ok gv2" and cfg: "gv_config gv1 = DEFAULT_CONFIG"
    using inv1 inv2 by (simp_all add: vault_inv_def)
  note eff = issue_effect(2) [OF assms(3) refl, folded gv1_def gv2_def]
  from eff have gv': "gv' = with_credit c gv2" and pos: "0 < fc_amount_lamports c"
    and st: "fc_status c = ACTIVE" and us: "fc_user_address c = user"
    and am: "fc_amount_lamports c \<le> 10000000000 - user_outstanding gv1 user"
    and cov: "fst (can_cover_new_credits (fc_amount_lamports c) gv1 (tick env)) = Inr True"
    and cid: "fc_credit_id c = slice_to 16 (uuids env (uuid_pos env))"
    using assms(1) by (auto simp: vault_inv_def)
  have fresh: "dget (gv_credits gv2) (fc_credit_id c) = None"
    using assms(2) cid by (simp add: gv2 gv1_def)
  have al: "active_lamports c = fc_amount_lamports c" by (simp add: active_lamports_def st)
  have le: "user_outstanding gv2 u \<le> user_outstanding gv1 u" for u
    using user_outstanding_le [of gv1 gv2] ok1 by (simp add: gv2)
  have cap: "cap_ok gv'"
    using inv1 inv2 am le [of user] us al user_outstanding_with_credit [OF ok2 fresh]
    by (auto simp: cap_ok_def gv' vault_inv_def split: if_splits)
  have "3 * (outstanding gv2 + fc_amount_lamports c) \<le> 2 * sol_reserves gv2"
  proof -
    have nz: "0 < outstanding gv2 + fc_amount_lamports c" using outstanding_nonneg [OF ok2] pos by simp
    with cov obtain q where "truediv (sol_reserves gv1) (outstanding gv2 + fc_amount_lamports c) = Inr q"
      and "fle (Fin (3 / 2)) q"
      by (auto simp: can_cover_eq gv2 cfg map_sum_def split: sum.splits if_splits)
    then have "3 / 2 \<le> rnd (of_int (sol_reserves gv2) / of_int (outstanding gv2 + fc_amount_lamports c))"
      by (auto dest!: truediv_Inr simp: gv2)
    then show ?thesis
      using rounded_ratio_exact [OF nz] inv2 by (simp add: vault_inv_def)
  qed
  then have "covered gv'"
    by (simp add: covered_def gv' outstanding_with_credit [OF fresh] al)
  then show ?thesis
    using cap inv2 gv_ok_with_credit [OF ok2 fresh pos] by (simp add: vault_inv_def gv')
qed

lemma get_user_credits_vault: "get_user_credits u gv env = (cs, gv', env') \<Longrightarrow> gv' = expire_at (now_of env) gv"
  by (auto simp: get_user_credits_def vault_helpers)

lemma coverage_ratio_vault: "coverage_ratio gv env = (r, gv', env') \<Longrightarrow> gv' = expire_at (now_of env) gv"
  by (auto simp: coverage_ratio_def vault_helpers)

lemma vault_inv_withdraw:
  assumes "vault_inv gv" and "0 \<le> amount" and "withdraw_sol amount dest reason gv env = (r, gv', env')"
  shows "vault_inv gv'"
proof (cases "r = Inr True")
  case False
  with withdraw_effect(1) [OF assms(3)] show ?thesis using vault_inv_expire assms(1) by auto
next
  case True
  note eff = withdraw_effect(2) [OF assms(3) True]
  have cfg: "gv_config gv = DEFAULT_CONFIG" using assms(1) by (simp add: vault_inv_def)
  from eff cfg obtain q where
    "ratio (sol_reserves gv - amount) (outstanding (expire_at (now_of env) gv)) = Inr q"
    "\<not> flt q (Fin (3 / 2))" by auto
  moreover have "vault_inv (expire_at (now_of env) gv)" by (rule vault_inv_expire [OF assms(1)])
  ultimately show ?thesis
    using eff assms(2) vault_inv_lower [of "expire_at (now_of env) gv" amount q gv' "gv_reimbursements gv"]
    by simp
qed

lemma vault_inv_reimburse:
  assumes "vault_inv gv" and "reimburse_relayer relayer tx cids gv env = (r, gv', env')"
  shows "vault_inv gv'"
proof (cases "\<exists>rb. r = Inr (Some rb)")
  case False
  then show ?thesis
    using reimburse_effect(1) [OF assms(2)] vault_inv_consume [OF assms(1)] vault_inv_expire by metis
next
  case True
  then obtain rb where rb: "r = Inr (Some rb)" by blast
  note eff = reimburse_effect(2) [OF assms(2) rb]
  define used where "used = expire_at (now_of env) (snd (consume_credits cids gv))"
  have cfg: "gv_config gv = DEFAULT_CONFIG" using assms(1) by (simp add: vault_inv_def)
  have "vault_inv used"
    unfolding used_def by (rule vault_inv_expire [OF vault_inv_consume [OF assms(1)]])
  moreover have "0 \<le> fst (consume_credits cids gv)"
    using assms(1) spent_nonneg by (simp add: vault_inv_def)
  ultimately show ?thesis
    using eff cfg vault_inv_lower [of used "fst (consume_credits cids gv)" "rb_coverage_ratio_after rb" gv'
        "gv_reimbursements gv @ [rb]"]
    by (simp add: used_def)
qed

text \<open>Every call keeps the invariant.\<close>

lemma vault_call_inv: "vault_call_step c s t \<Longrightarrow> funded_call c (fst s) \<Longrightarrow> vault_inv (fst s) \<Longrightarrow> vault_inv (fst t)"
proof (induction rule: vault_call_step.induct)
  case (vs_deposit amount src gv env gv' env')
  with deposit_effect [OF vs_deposit(1)] vault_inv_deposit show ?case by simp
next
  case (vs_issue gv env user proof_hash score ri gv' env')
  show ?case
  proof (cases "\<exists>c. ri = Inr (Some c)")
    case True
    with vs_issue vault_inv_issue show ?thesis by auto
  next
    case False
    with issue_effect(1) [OF vs_issue(2)] have
      "gv' = gv \<or> gv' = expire_at (now_of env) gv \<or> gv' = issue_vault gv env" by blast
    with vs_issue(4) vault_inv_expire show ?thesis by (auto simp: issue_vault_def)
  qed
next
  case (vs_withdraw amount dest reason gv env r gv' env')
  then show ?case using vault_inv_withdraw [of gv amount dest reason env r gv' env'] by simp
next
  case (vs_reimburse relayer tx cids gv env rr gv' env')
  then show ?case using vault_inv_reimburse [of gv relayer tx cids env rr gv' env'] by simp
next
  case (vs_consume gv env cids)
  then show ?case using vault_inv_consume by simp
next
  case (vs_user_credits user gv env cs gv' env')
  then show ?case using get_user_credits_vault [of user gv env cs gv' env'] vault_inv_expire by simp
next
  case (vs_coverage gv env rq gv' env')
  then show ?case using coverage_ratio_vault [of gv env rq gv' env'] vault_inv_expire by simp
qed simp

lemma vault_step_inv: "funded_step s t \<Longrightarrow> vault_inv (fst s) \<Longrightarrow> vault_inv (fst t)"
  unfolding funded_step_def using vault_call_inv by blast

interpretation vault_calls: component_invariant funded_step vault_inv
  by unfold_locales (rule vault_step_inv)

lemma vault_run_inv: "funded_step\<^sup>*\<^sup>* s t \<Longrightarrow> vault_inv (fst s) \<Longrightarrow> vault_inv (fst t)"
  by (rule vault_calls.run_ok)

section \<open>The life of a credit\<close>

definition credit_status_of :: "gas_vault \<times> l3_env \<Rightarrow> string \<Rightarrow> credit_status option" where
  "credit_status_of s cid = map_option fc_status (dget (gv_credits (fst s)) cid)"

lemma credits_le_status:
  assumes "credits_le (gv_credits gv) (gv_credits gv')" and "credit_status_of (gv, env) cid = Some a"
  shows "\<exists>b. credit_status_of (gv', env') cid = Some b \<and> (b = a \<or> credit_edge a b)"
  using assms(2) credits_leD(2) [OF assms(1), of cid]
  by (fastforce simp: credit_status_of_def credit_next_def)

lemma with_credit_status:
  assumes "dget (gv_credits gv) (fc_credit_id c) = None"
    and "credit_status_of (gv, env) cid = Some a"
  shows "credit_status_of (with_credit c gv, env') cid = Some a"
  using assms by (auto simp: credit_status_of_def)

text \<open>What every call does to the credits that exist.\<close>

lemma vault_step_credits:
  assumes "vault_step (gv, env) (gv', env')"
  shows "credits_le (gv_credits gv) (gv_credits gv') \<or>
    (\<exists>gv1 c. credits_le (gv_credits gv) (gv_credits gv1) \<and> gv' = with_credit c gv1 \<and>
       dget (gv_credits gv1) (fc_credit_id c) = None)"
proof -
  from assms obtain c where "vault_call_step c (gv, env) (gv', env')" by (auto simp: vault_step_def)
  then show ?thesis
  proof (cases rule: vault_call_step.cases)
    case (vs_deposit amount src)
    with deposit_effect [of amount src gv env gv' env'] show ?thesis by simp
  next
    case (vs_withdraw amount dest reason r)
    then show ?thesis using withdraw_effect [OF vs_withdraw(2)] by (cases "r = Inr True") auto
  next
    case (vs_issue user proof_hash score ri)
    have le: "credits_le (gv_credits gv) (gv_credits (issue_vault gv env))"
      unfolding issue_vault_def by (auto intro: credits_le_trans [OF credits_le_expire credits_le_expire])
    show ?thesis
    proof (cases "\<exists>c. ri = Inr (Some c)")
      case True
      then obtain c where ri: "ri = Inr (Some c)" by blast
      have "gv' = with_credit c (issue_vault gv env)"
        and "dget (gv_credits (issue_vault gv env)) (fc_credit_id c) = None"
        using issue_effect(2) [OF vs_issue(3) ri] vs_issue(2) by (auto simp: issue_vault_def)
      with le show ?thesis by blast
    next
      case False
      with issue_effect(1) [OF vs_issue(3)] le show ?thesis by auto
    qed
  next
    case (vs_reimburse relayer tx cids rr)
    have le: "credits_le (gv_credits gv) (gv_credits (expire_at now (snd (consume_credits cids gv))))" for now
      using credits_le_trans [OF credits_le_consume credits_le_expire] by simp
    show ?thesis
      using reimburse_effect [OF vs_reimburse(2)] le credits_le_consume
      by (cases "\<exists>rb. rr = Inr (Some rb)") auto
  next
    case (vs_consume cids)
    then show ?thesis by simp
  next
    case (vs_user_credits user cs)
    then show ?thesis by (auto dest: get_user_credits_vault)
  next
    case (vs_coverage rq)
    then show ?thesis by (auto dest: coverage_ratio_vault)
  next
    case vs_other
    then show ?thesis by simp
  qed
qed

interpretation credit: lifecycle credit_status_of vault_step credit_edge
proof
  fix s t cid a
  assume step: "vault_step s t" and st: "credit_status_of s cid = Some a"
  obtain gv env where s: "s = (gv, env)" by fastforce
  obtain gv' env' where t: "t = (gv', env')" by fastforce
  from vault_step_credits [OF step [unfolded s t]]
  show "\<exists>b. credit_status_of t cid = Some b \<and> (b = a \<or> credit_edge a b)"
    using st credits_le_status with_credit_status unfolding s t by blast
qed

section \<open>Properties\<close>

text \<open>
  C1. Through every run of calls on a vault with the default configuration in which no amount deposited or withdrawn is negative and
  deposits keep the reserves within \<open>2^51\<close> lamports, the reserves are never negative, no user ever holds more than
  ten billion lamports of active credit, and the reserves are at least one and a half times the
  active credits: exactly, although the code compares rounded quotients.
\<close>

theorem vault_always_covered:
  assumes "funded_step\<^sup>*\<^sup>* (gas_vault_init DEFAULT_CONFIG n, env) (gv, env')" and "0 \<le> n" and "n \<le> vault_limit"
  shows "0 \<le> sol_reserves gv \<and> (\<forall>user. user_outstanding gv user \<le> 10000000000) \<and>
    3 * outstanding gv \<le> 2 * sol_reserves gv"
proof -
  have "vault_inv gv" using vault_run_inv [OF assms(1)] vault_inv_init assms(2,3) by simp
  then show ?thesis by (auto simp: vault_inv_def gv_ok_def cap_ok_def covered_def)
qed

theorem vault_always_covered_witness:
  "\<exists>gv env'. funded_step\<^sup>*\<^sup>* (gas_vault_init DEFAULT_CONFIG 5, sample_env []) (gv, env') \<and>
     sol_reserves gv = 12 \<and> 0 \<le> sol_reserves gv \<and> 3 * outstanding gv \<le> 2 * sol_reserves gv"
proof -
  let ?s = "gas_vault_init DEFAULT_CONFIG 5"
  obtain gv env' where d: "deposit_sol 7 ''treasury'' ?s (sample_env []) = (gv, env')" by fastforce
  have "funded_call (Depositing 7) ?s" by (simp add: gas_vault_init_def vault_limit_def)
  then have "funded_step (?s, sample_env []) (gv, env')"
    using vs_deposit [OF d] by (auto simp: funded_step_def simp del: funded_call.simps)
  then have run: "funded_step\<^sup>*\<^sup>* (?s, sample_env []) (gv, env')" by blast
  have "sol_reserves gv = 12" using deposit_effect [OF d] by (simp add: gas_vault_init_def)
  with run vault_always_covered [OF run] show ?thesis by (auto simp: vault_limit_def)
qed

text \<open>
  \<open>withdraw_sol\<close> pays out exactly when the amount is in the vault and the rest still covers one and
  a half times the credits active now; otherwise it returns False and the reserves are unchanged. It
  never raises.
\<close>

theorem withdraw_sol_exact:
  assumes "vault_inv gv" and "0 \<le> amount" and "withdraw_sol amount dest reason gv env = (r, gv', env')"
  shows "r = Inr (amount \<le> sol_reserves gv \<and>
      3 * outstanding (expire_at (now_of env) gv) \<le> 2 * (sol_reserves gv - amount)) \<and>
    sol_reserves gv' = (if r = Inr True then sol_reserves gv - amount else sol_reserves gv)"
proof (cases "amount \<le> sol_reserves gv")
  case False
  then show ?thesis using assms(3) by (auto simp: withdraw_sol_def)
next
  case True
  have "gv_ok (expire_at (now_of env) gv)" "sol_reserves gv \<le> vault_limit" and cfg: "gv_config gv = DEFAULT_CONFIG"
    using assms(1) vault_inv_expire [of gv] by (simp_all add: vault_inv_def)
  then obtain q where "ratio (sol_reserves gv - amount) (outstanding (expire_at (now_of env) gv)) = Inr q"
    and "flt q (Fin (3 / 2)) \<longleftrightarrow>
      2 * (sol_reserves gv - amount) < 3 * outstanding (expire_at (now_of env) gv)"
    using ratio_test [of "outstanding (expire_at (now_of env) gv)" "sol_reserves gv - amount"]
      outstanding_nonneg True assms(2) by fastforce
  then show ?thesis
    using assms(3) True cfg
    by (auto simp: withdraw_sol_def vault_helpers Let_def case_prod_beta split: if_splits)
qed

theorem withdraw_sol_exact_witness:
  "\<exists>gv' env'. withdraw_sol 3 ''d'' ''r'' (gas_vault_init DEFAULT_CONFIG 5) (sample_env []) = (Inr True, gv', env') \<and>
     sol_reserves gv' = 2"
proof -
  let ?s = "gas_vault_init DEFAULT_CONFIG 5"
  obtain r gv' env' where w: "withdraw_sol 3 ''d'' ''r'' ?s (sample_env []) = (r, gv', env')"
    by (metis prod_cases3)
  have "vault_inv ?s" by (rule vault_inv_init) (simp_all add: vault_limit_def)
  from withdraw_sol_exact [OF this _ w] w show ?thesis
    by (simp add: gas_vault_init_def outstanding_def)
qed

text \<open>
  A fee credit can be spent once: consuming a list of credits takes exactly its total out of the
  outstanding credits, each identifier counted once however often it is listed, and consuming the
  same list again yields nothing.
\<close>

theorem credits_spent_once:
  assumes "gv_ok gv" and "consume_credits cids gv = (spent, gv')"
  shows "spent = (\<Sum>cid \<in> set cids. act (gv_credits gv) cid) \<and>
    outstanding gv' = outstanding gv - spent \<and> consume_credits cids gv' = (0, gv')"
proof -
  have gv': "gv' = snd (consume_credits cids gv)" and sp: "spent = fst (consume_credits cids gv)"
    using assms(2) by simp_all
  have "consume_loop t ids (gv_credits gv') = (t, gv_credits gv')" if "set ids \<subseteq> set cids" for t ids
    using that
  proof (induction ids)
    case (Cons cid ids)
    have "fc_status c \<noteq> ACTIVE" if "dget (gv_credits gv') cid = Some c" for c
      using that Cons.prems mark_used_status by (fastforce simp: gv')
    then show ?case using Cons by (auto split: option.split)
  qed simp
  then have "consume_credits cids gv' = (0, gv')" by (simp add: consume_credits_def)
  then show ?thesis using outstanding_consume [OF assms(1), of cids] by (simp add: gv' sp)
qed

text \<open>A vault holding one active credit of 100 lamports, for concrete runs.\<close>

definition one_credit_vault :: "int \<Rightarrow> gas_vault" where
  "one_credit_vault n = (gas_vault_init DEFAULT_CONFIG n)\<lparr>
     gv_credits := [(''c1'', \<lparr>fc_credit_id = ''c1'', fc_user_address = ''u'', fc_amount_lamports = 100,
       fc_issued_at = Fin 0, fc_expires_at = Fin 1000, fc_proof_ref = ''p'', fc_status = ACTIVE\<rparr>)],
     gv_user_credits := [(''u'', [''c1''])]\<rparr>"

lemma one_credit_vault_ok:
  assumes "150 \<le> n" and "n \<le> vault_limit"
  shows "vault_inv (one_credit_vault n)"
  using assms
  by (auto simp: vault_inv_def one_credit_vault_def gas_vault_init_def gv_ok_def cap_ok_def covered_def
        ids_of_def user_outstanding_def outstanding_def active_lamports_def dget_default_def split: if_splits)

theorem credits_spent_once_witness:
  "\<exists>gv'. consume_credits [''c1'', ''c1''] (one_credit_vault 200) = (100, gv') \<and> outstanding gv' = 0 \<and>
     consume_credits [''c1'', ''c1''] gv' = (0, gv')"
proof -
  obtain spent gv' where c: "consume_credits [''c1'', ''c1''] (one_credit_vault 200) = (spent, gv')" by fastforce
  have "gv_ok (one_credit_vault 200)" using one_credit_vault_ok [of 200] by (simp add: vault_inv_def vault_limit_def)
  from credits_spent_once [OF this c] c show ?thesis
    by (simp add: one_credit_vault_def gas_vault_init_def act_def outstanding_def active_lamports_def)
qed

text \<open>
  C3. A successful reimbursement pays the relayer exactly what the listed active credits were worth,
  out of the reserves, records it, and leaves the remaining credits covered. No credit it has listed is ever paid for again: after any
  further run of calls, with any amounts, these credits are worth nothing, and a reimbursement of any other list of credits, by anyone, pays exactly
  for those of its credits that were not among them.
\<close>

theorem reimburse_relayer_once:
  assumes "vault_inv gv" and "reimburse_relayer relayer tx cids gv env = (Inr (Some rb), gv', env')"
    and "vault_step\<^sup>*\<^sup>* (gv', env') (gv2, env2)"
  defines "paid \<equiv> set cids \<inter> set (dkeys (gv_credits gv))"
  shows "rb_amount_lamports rb = (\<Sum>cid \<in> set cids. act (gv_credits gv) cid) \<and>
    0 < rb_amount_lamports rb \<and> sol_reserves gv' = sol_reserves gv - rb_amount_lamports rb \<and>
    gv_reimbursements gv' = gv_reimbursements gv @ [rb] \<and> covered gv' \<and>
    (\<forall>cid \<in> paid. act (gv_credits gv2) cid = 0) \<and>
    (\<forall>relayer2 tx2 cids2 env3 rb2 gv3 env4. reimburse_relayer relayer2 tx2 cids2 gv2 env3 = (Inr (Some rb2), gv3, env4) \<longrightarrow>
       rb_amount_lamports rb2 = (\<Sum>cid \<in> set cids2 - paid. act (gv_credits gv2) cid)) \<and>
    (\<forall>relayer2 tx2 cids2 env3. set cids2 \<subseteq> paid \<longrightarrow> fst (reimburse_relayer relayer2 tx2 cids2 gv2 env3) = Inr None)"
proof -
  note eff = reimburse_effect(2) [OF assms(2) refl]
  have spent: "\<forall>cid \<in> paid. act (gv_credits gv2) cid = 0"
  proof
    fix cid assume "cid \<in> paid"
    then obtain c where "cid \<in> set cids" "dget (gv_credits gv) cid = Some c"
      unfolding paid_def using dget_None_key [of "gv_credits gv" cid] by (cases "dget (gv_credits gv) cid") blast+
    with eff have "\<exists>st. credit_status_of (gv', env') cid = Some st \<and> st \<noteq> ACTIVE"
      by (auto simp: credit_status_of_def expire_credit_def)
    then obtain st where st: "credit_status_of (gv', env') cid = Some st" "st \<noteq> ACTIVE" by blast
    then have "credit_status_of (gv2, env2) cid = Some st"
      using credit.final_stays [OF assms(3) st(1)] by (simp add: credit_edge_def)
    with st(2) show "act (gv_credits gv2) cid = 0" by (auto simp: credit_status_of_def act_def active_lamports_def)
  qed
  then have "(\<Sum>cid \<in> set cids2. act (gv_credits gv2) cid) = (\<Sum>cid \<in> set cids2 - paid. act (gv_credits gv2) cid)" for cids2
    by (intro sum.mono_neutral_right) auto
  then have other: "reimburse_relayer relayer2 tx2 cids2 gv2 env3 = (Inr (Some rb2), gv3, env4) \<Longrightarrow>
      rb_amount_lamports rb2 = (\<Sum>cid \<in> set cids2 - paid. act (gv_credits gv2) cid)" for relayer2 tx2 cids2 env3 rb2 gv3 env4
    using reimburse_effect(2) [of relayer2 tx2 cids2 gv2 env3 "Inr (Some rb2)" gv3 env4 rb2] by simp
  have "fst (reimburse_relayer relayer2 tx2 cids2 gv2 env3) = Inr None" if "set cids2 \<subseteq> paid" for relayer2 tx2 cids2 env3
  proof -
    have "(\<Sum>cid \<in> set cids2. act (gv_credits gv2) cid) = 0" using that spent by (intro sum.neutral) auto
    then show ?thesis by (simp add: reimburse_relayer_def case_prod_beta Let_def)
  qed
  moreover have "covered gv'" using vault_inv_reimburse [OF assms(1,2)] by (simp add: vault_inv_def)
  ultimately show ?thesis using eff spent other by simp
qed

theorem reimburse_relayer_once_witness:
  "\<exists>rb gv' env' gv2 env2. reimburse_relayer ''r'' ''t'' [''c1''] (one_credit_vault 200) (sample_env []) = (Inr (Some rb), gv', env') \<and>
     rb_amount_lamports rb = 100 \<and> sol_reserves gv' = 100 \<and> deposit_sol 7 ''treasury'' gv' env' = (gv2, env2) \<and> sol_reserves gv2 = 107 \<and>
     fst (reimburse_relayer ''x'' ''y'' [''c1''] gv2 env2) = Inr None"
proof -
  let ?s = "one_credit_vault 200"
  have inv: "vault_inv ?s" by (rule one_credit_vault_ok) (simp_all add: vault_limit_def)
  have "\<exists>rb gv' env'. reimburse_relayer ''r'' ''t'' [''c1''] ?s (sample_env []) = (Inr (Some rb), gv', env')"
    by (simp add: reimburse_relayer_def one_credit_vault_def gas_vault_init_def consume_credits_def vault_helpers
          case_prod_beta Let_def ratio_def outstanding_def active_lamports_def expire_at_def expire_credit_def)
  then obtain rb gv' env' where
    r: "reimburse_relayer ''r'' ''t'' [''c1''] ?s (sample_env []) = (Inr (Some rb), gv', env')" by blast
  obtain gv2 env2 where d: "deposit_sol 7 ''treasury'' gv' env' = (gv2, env2)" by fastforce
  have run: "vault_step\<^sup>*\<^sup>* (gv', env') (gv2, env2)" unfolding vault_step_def using vs_deposit [OF d] by blast
  have "set (dkeys (gv_credits ?s)) = {''c1''}" by (simp add: one_credit_vault_def)
  with reimburse_relayer_once [OF inv r run] have "fst (reimburse_relayer ''x'' ''y'' [''c1''] gv2 env2) = Inr None"
    "rb_amount_lamports rb = (\<Sum>cid \<in> {''c1''}. act (gv_credits ?s) cid)" "sol_reserves gv' = sol_reserves ?s - rb_amount_lamports rb"
    by simp_all
  then show ?thesis using r d deposit_effect [OF d]
    by (simp add: one_credit_vault_def gas_vault_init_def act_def active_lamports_def)
qed

text \<open>
  A reimbursement that is refused still spends: the reserves and the list of reimbursements are
  unchanged, but every listed credit that was active is marked USED, so the user has lost it.
\<close>

theorem refused_reimbursement_burns_credits:
  assumes "reimburse_relayer relayer tx cids gv env = (Inr None, gv', env')"
    and "cid \<in> set cids" and "dget (gv_credits gv) cid = Some c" and "fc_status c = ACTIVE"
  shows "sol_reserves gv' = sol_reserves gv \<and> gv_reimbursements gv' = gv_reimbursements gv \<and>
    dget (gv_credits gv') cid = Some (c\<lparr>fc_status := USED\<rparr>)"
proof -
  have "gv' = snd (consume_credits cids gv) \<or> gv' = expire_at (now_of env) (snd (consume_credits cids gv))"
    using reimburse_effect(1) [OF assms(1)] by simp
  then show ?thesis using assms(2-4) by (auto simp: mark_used_def expire_credit_def)
qed

theorem refused_reimbursement_burns_credits_witness:
  "\<exists>gv' env' c. reimburse_relayer ''r'' ''t'' [''c1''] (one_credit_vault 50) (sample_env []) = (Inr None, gv', env') \<and>
     sol_reserves gv' = 50 \<and> dget (gv_credits gv') ''c1'' = Some c \<and> fc_status c = USED"
proof -
  let ?s = "one_credit_vault 50"
  have "\<exists>gv' env'. reimburse_relayer ''r'' ''t'' [''c1''] ?s (sample_env []) = (Inr None, gv', env')"
    by (simp add: reimburse_relayer_def one_credit_vault_def gas_vault_init_def consume_credits_def Let_def)
  then obtain gv' env' where
    r: "reimburse_relayer ''r'' ''t'' [''c1''] ?s (sample_env []) = (Inr None, gv', env')" by blast
  obtain c where "dget (gv_credits ?s) ''c1'' = Some c" "fc_status c = ACTIVE"
    by (simp add: one_credit_vault_def)
  from refused_reimbursement_burns_credits [OF r _ this] r show ?thesis
    by (simp add: one_credit_vault_def gas_vault_init_def)
qed

text \<open>
  A credit leaves the state ACTIVE at most once: a credit that is used, expired or revoked keeps
  that status, and stays in the books, through every further run of calls.
\<close>

theorem spent_credit_stays_spent:
  assumes "vault_step\<^sup>*\<^sup>* (gv, env) (gv', env')"
    and "dget (gv_credits gv) cid = Some c" and "fc_status c \<noteq> ACTIVE"
  shows "\<exists>c'. dget (gv_credits gv') cid = Some c' \<and> fc_status c' = fc_status c"
proof -
  have "credit_status_of (gv, env) cid = Some (fc_status c)" using assms(2) by (simp add: credit_status_of_def)
  moreover have "\<not> credit_edge (fc_status c) b" for b using assms(3) by (simp add: credit_edge_def)
  ultimately have "credit_status_of (gv', env') cid = Some (fc_status c)"
    using credit.final_stays [OF assms(1)] by blast
  then show ?thesis by (auto simp: credit_status_of_def)
qed

theorem spent_credit_stays_spent_witness:
  "\<exists>gv' env' c'. vault_step\<^sup>*\<^sup>* (snd (consume_credits [''c1''] (one_credit_vault 200)), sample_env []) (gv', env') \<and>
     sol_reserves gv' = 207 \<and> dget (gv_credits gv') ''c1'' = Some c' \<and> fc_status c' = USED"
proof -
  let ?s = "snd (consume_credits [''c1''] (one_credit_vault 200))"
  obtain gv' env' where d: "deposit_sol 7 ''treasury'' ?s (sample_env []) = (gv', env')" by fastforce
  have r: "sol_reserves ?s = 200" by (simp add: one_credit_vault_def gas_vault_init_def)
  have "vault_step (?s, sample_env []) (gv', env')"
    using vs_deposit [OF d] by (auto simp: vault_step_def)
  then have run: "vault_step\<^sup>*\<^sup>* (?s, sample_env []) (gv', env')" by blast
  obtain c where c: "dget (gv_credits ?s) ''c1'' = Some c" "fc_status c = USED"
    by (simp add: one_credit_vault_def mark_used_def)
  have "sol_reserves gv' = 207" using deposit_effect [OF d] r by simp
  then show ?thesis using spent_credit_stays_spent [OF run c(1)] c(2) run by auto
qed

text \<open>
  A credit is only issued against a ZK compute entry of the proof book with the given hash; it is
  worth 0.1 SOL per point of the work score, truncated, or what is left of the user's cap if that is
  less; and after it is issued the user is within the cap and all credits are covered.
\<close>

theorem issue_credit_sound:
  assumes "vault_inv gv" and "dget (gv_credits gv) (slice_to 16 (uuids env (uuid_pos env))) = None"
    and "issue_credit user proof_hash score gv env = (Inr (Some c), gv', env')"
  shows "(\<exists>p \<in> set (pb_entries (book env)). pe_type p = ZK_COMPUTE \<and> pe_entry_hash p = proof_hash) \<and>
    (\<exists>earned. ftrunc (fmul score (Fin 100000000)) = Inr earned \<and> fc_amount_lamports c =
       min earned (10000000000 - user_outstanding (expire_at (now_of env) gv) user)) \<and>
    0 < fc_amount_lamports c \<and> fc_status c = ACTIVE \<and>
    dget (gv_credits gv') (fc_credit_id c) = Some c \<and> sol_reserves gv' = sol_reserves gv \<and>
    user_outstanding gv' user \<le> 10000000000 \<and> 3 * outstanding gv' \<le> 2 * sol_reserves gv'"
proof -
  have cfg: "gv_config gv = DEFAULT_CONFIG" using assms(1) by (simp add: vault_inv_def)
  note eff = issue_effect(2) [OF assms(3) refl, unfolded cfg credit_cap_default]
  have "vault_inv gv'" using vault_inv_issue [OF assms] .
  then have "user_outstanding gv' user \<le> 10000000000" "3 * outstanding gv' \<le> 2 * sol_reserves gv'"
    by (auto simp: vault_inv_def cap_ok_def covered_def)
  then show ?thesis using eff by (auto simp: issue_vault_def dest: get_entries_type)
qed

text \<open>An entry of the proof book, for concrete runs.\<close>

definition zk_entry :: proof_entry where
  "zk_entry = \<lparr>pe_type = ZK_COMPUTE, pe_data = [], pe_timestamp = Fin 0, pe_prev_hash = genesis_hash,
     pe_entry_hash = ''zk''\<rparr>"

theorem issue_credit_sound_witness:
  "\<exists>c gv' env'. issue_credit ''u'' ''zk'' (Fin 3) (gas_vault_init DEFAULT_CONFIG 600000000) (sample_env [zk_entry])
       = (Inr (Some c), gv', env') \<and>
     fc_amount_lamports c = 300000000 \<and> 3 * outstanding gv' \<le> 2 * sol_reserves gv'"
proof -
  let ?s = "gas_vault_init DEFAULT_CONFIG 600000000"
  have inv: "vault_inv ?s" by (rule vault_inv_init) (simp_all add: vault_limit_def)
  have "\<exists>c gv' env'. issue_credit ''u'' ''zk'' (Fin 3) ?s (sample_env [zk_entry]) = (Inr (Some c), gv', env')"
    using truediv_small [of 300000000 600000000] f64.int_exact [of 2]
    by (simp add: issue_credit_def get_entries_def slice_from_def zk_entry_def vault_helpers can_cover_eq
          gas_vault_init_def user_outstanding_def outstanding_def dget_default_def rtrunc_def store_credit_def
          uuid4_hex_def time_time_def of_pyint_small Let_def case_prod_beta)
  then obtain c gv' env' where
    i: "issue_credit ''u'' ''zk'' (Fin 3) ?s (sample_env [zk_entry]) = (Inr (Some c), gv', env')" by blast
  from issue_credit_sound [OF inv _ i] show ?thesis
    using i by (auto simp: gas_vault_init_def user_outstanding_def dget_default_def rtrunc_def)
qed

end
