(* ===== verification/Intent_Network.thy ===== *)
theory Intent_Network
  imports L3_Config Proof_Book
begin

text \<open>
  \<open>membra-l3/membra_l3/intent_network.py\<close>: gasless payment intents. A sender creates an intent, a
  relayer claims it within the claim window and confirms its settlement; a pending intent can be
  cancelled by its sender or expires. Every reading of the clock advances the process state.
\<close>

section \<open>Data\<close>

datatype intent_status = PENDING | CLAIMED | EXPIRED | CANCELLED | SETTLING

record payment_intent =
  pay_intent_id :: string
  pay_sender_address :: string
  pay_receiver_address :: string
  pay_token_symbol :: string
  pay_amount :: int
  pay_created_at :: pyfloat
  pay_expires_at :: pyfloat
  pay_nonce :: int
  pay_sender_signature :: string
  pay_status :: intent_status
  pay_claimed_at :: "pyfloat option"
  pay_settlement_tx :: "string option"
  pay_relayer_address :: "string option"
  pay_fee_credit_ids :: "string list"

record intent_network =
  net_config :: l3_config
  net_intents :: "payment_intent dict"
  net_user_nonces :: "int dict"

definition intent_network_init :: "l3_config \<Rightarrow> intent_network" where
  "intent_network_init c = \<lparr>net_config = c, net_intents = [], net_user_nonces = []\<rparr>"

section \<open>One intent\<close>

definition is_expired :: "payment_intent \<Rightarrow> l3_env \<Rightarrow> bool \<times> l3_env" where
  "is_expired i env = (let (now, env) = time_time env in (fle (pay_expires_at i) now, env))"

text \<open>\<open>is_claimable\<close> reads the clock only for a pending intent.\<close>

definition is_claimable :: "payment_intent \<Rightarrow> l3_env \<Rightarrow> bool \<times> l3_env" where
  "is_claimable i env =
     (if pay_status i = PENDING then let (b, env) = is_expired i env in (\<not> b, env) else (False, env))"

definition serialize_for_signing :: "payment_intent \<Rightarrow> string" where
  "serialize_for_signing i = dumps_sorted (JObj [
     (''intent_id'', JStr (pay_intent_id i)),
     (''sender'', JStr (pay_sender_address i)),
     (''receiver'', JStr (pay_receiver_address i)),
     (''token'', JStr (pay_token_symbol i)),
     (''amount'', JInt (pay_amount i)),
     (''created_at'', JFloat (pay_created_at i)),
     (''expires_at'', JFloat (pay_expires_at i)),
     (''nonce'', JInt (pay_nonce i))])"

definition intent_hash :: "payment_intent \<Rightarrow> string" where
  "intent_hash i = sha256_hex (serialize_for_signing i)"

section \<open>The network\<close>

definition create_intent ::
  "string \<Rightarrow> string \<Rightarrow> string \<Rightarrow> int \<Rightarrow> string \<Rightarrow> intent_network \<Rightarrow> l3_env
     \<Rightarrow> payment_intent option result \<times> intent_network \<times> l3_env" where
  "create_intent sender receiver token amount signature net env =
     (if \<not> is_token_approved (net_config net) token then (Inr None, net, env)
      else if amount \<le> 0 then (Inr None, net, env)
      else let nonce = dget_default (net_user_nonces net) sender 0; (now, env) = time_time env;
               (u, env) = uuid4_hex env
        in case of_pyint (intent_claim_window_seconds (net_config net)) of Inl x \<Rightarrow> (Inl x, net, env)
         | Inr window \<Rightarrow>
             let i = \<lparr>pay_intent_id = slice_to 20 u, pay_sender_address = sender,
                       pay_receiver_address = receiver, pay_token_symbol = token, pay_amount = amount,
                       pay_created_at = now, pay_expires_at = fadd now window, pay_nonce = nonce,
                       pay_sender_signature = signature, pay_status = PENDING, pay_claimed_at = None,
                       pay_settlement_tx = None, pay_relayer_address = None, pay_fee_credit_ids = []\<rparr>;
                 net = net\<lparr>net_intents := dset (pay_intent_id i) i (net_intents net),
                            net_user_nonces := dset sender (nonce + 1) (net_user_nonces net)\<rparr>;
                 (e, env) = log_proof GOVERNANCE [
                   (''action'', JStr ''intent_created''),
                   (''intent_id'', JStr (pay_intent_id i)),
                   (''sender'', JStr sender),
                   (''receiver'', JStr receiver),
                   (''token'', JStr token),
                   (''amount'', JInt amount),
                   (''expires_at'', JFloat (pay_expires_at i))] env
             in (Inr (Some i), net, env))"

text \<open>\<open>claim_intent\<close>: the test of the claimer has an empty body, so anyone may claim.\<close>

definition claim_intent ::
  "string \<Rightarrow> string \<Rightarrow> intent_network \<Rightarrow> l3_env \<Rightarrow> payment_intent option \<times> intent_network \<times> l3_env" where
  "claim_intent iid claimer net env =
     (case dget (net_intents net) iid of None \<Rightarrow> (None, net, env)
      | Some i \<Rightarrow>
          let (ok, env) = is_claimable i env
          in if \<not> ok then (None, net, env)
             else let (now, env) = time_time env;
                      i = i\<lparr>pay_status := SETTLING, pay_claimed_at := Some now\<rparr>
                  in (Some i, net\<lparr>net_intents := dset iid i (net_intents net)\<rparr>, env))"

definition confirm_settlement ::
  "string \<Rightarrow> string \<Rightarrow> string \<Rightarrow> string list \<Rightarrow> intent_network \<Rightarrow> l3_env
     \<Rightarrow> bool \<times> intent_network \<times> l3_env" where
  "confirm_settlement iid tx relayer cids net env =
     (case dget (net_intents net) iid of None \<Rightarrow> (False, net, env)
      | Some i \<Rightarrow>
          if pay_status i \<noteq> SETTLING then (False, net, env)
          else let i = i\<lparr>pay_status := CLAIMED, pay_settlement_tx := Some tx,
                         pay_relayer_address := Some relayer, pay_fee_credit_ids := cids\<rparr>;
                   (e, env) = log_proof GOVERNANCE [
                     (''action'', JStr ''intent_settled''),
                     (''intent_id'', JStr iid),
                     (''tx_signature'', JStr tx),
                     (''relayer'', JStr relayer),
                     (''fee_credits_used'', jstrs cids)] env
               in (True, net\<lparr>net_intents := dset iid i (net_intents net)\<rparr>, env))"

definition cancel_intent ::
  "string \<Rightarrow> string \<Rightarrow> intent_network \<Rightarrow> l3_env \<Rightarrow> bool \<times> intent_network \<times> l3_env" where
  "cancel_intent iid sender net env =
     (case dget (net_intents net) iid of None \<Rightarrow> (False, net, env)
      | Some i \<Rightarrow>
          if pay_sender_address i \<noteq> sender then (False, net, env)
          else let (ok, env) = is_claimable i env
          in if \<not> ok then (False, net, env)
             else let i = i\<lparr>pay_status := CANCELLED\<rparr>;
                      (e, env) = log_proof GOVERNANCE [
                        (''action'', JStr ''intent_cancelled''),
                        (''intent_id'', JStr iid)] env
                  in (True, net\<lparr>net_intents := dset iid i (net_intents net)\<rparr>, env))"

text \<open>\<open>expire_intents\<close>: the loop over the intents, with one reading of the clock for each pending one.\<close>

fun expire_loop :: "payment_intent dict \<Rightarrow> l3_env \<Rightarrow> payment_intent dict \<times> l3_env" where
  "expire_loop [] env = ([], env)"
| "expire_loop ((k, i) # d) env =
     (if pay_status i = PENDING
      then let (b, env) = is_expired i env; i = (if b then i\<lparr>pay_status := EXPIRED\<rparr> else i);
               (d, env) = expire_loop d env
           in ((k, i) # d, env)
      else let (d, env) = expire_loop d env in ((k, i) # d, env))"

definition expire_intents :: "intent_network \<Rightarrow> l3_env \<Rightarrow> intent_network \<times> l3_env" where
  "expire_intents net env =
     (let (d, env) = expire_loop (net_intents net) env in (net\<lparr>net_intents := d\<rparr>, env))"

definition get_intent :: "string \<Rightarrow> intent_network \<Rightarrow> payment_intent option" where
  "get_intent iid net = dget (net_intents net) iid"

fun pending_loop :: "string \<Rightarrow> payment_intent list \<Rightarrow> l3_env \<Rightarrow> payment_intent list \<times> l3_env" where
  "pending_loop address [] env = ([], env)"
| "pending_loop address (i # is) env =
     (if pay_receiver_address i = address
      then let (ok, env) = is_claimable i env; (r, env) = pending_loop address is env
           in (if ok then i # r else r, env)
      else pending_loop address is env)"

definition get_pending_intents ::
  "string \<Rightarrow> intent_network \<Rightarrow> l3_env \<Rightarrow> payment_intent list \<times> intent_network \<times> l3_env" where
  "get_pending_intents address net env =
     (let (net, env) = expire_intents net env;
          (r, env) = pending_loop address (dvalues (net_intents net)) env
      in (r, net, env))"

definition get_sent_intents :: "string \<Rightarrow> intent_network \<Rightarrow> payment_intent list" where
  "get_sent_intents address net = filter (\<lambda>i. pay_sender_address i = address) (dvalues (net_intents net))"

definition count_status :: "intent_status \<Rightarrow> intent_network \<Rightarrow> int" where
  "count_status st net = int (length (filter (\<lambda>i. pay_status i = st) (dvalues (net_intents net))))"

definition net_stats :: "intent_network \<Rightarrow> l3_env \<Rightarrow> int dict \<times> intent_network \<times> l3_env" where
  "net_stats net env =
     (let (net, env) = expire_intents net env
      in ([(''total_intents'', int (length (net_intents net))),
           (''pending'', count_status PENDING net),
           (''settling'', count_status SETTLING net),
           (''claimed'', count_status CLAIMED net),
           (''expired'', count_status EXPIRED net)], net, env))"

section \<open>How an intent can change\<close>

text \<open>What the sender signed, with the fields that change later reset.\<close>

definition pay_terms :: "payment_intent \<Rightarrow> payment_intent" where
  "pay_terms i = i\<lparr>pay_status := PENDING, pay_claimed_at := None, pay_settlement_tx := None,
     pay_relayer_address := None, pay_fee_credit_ids := []\<rparr>"

definition intent_edge :: "intent_status \<Rightarrow> intent_status \<Rightarrow> bool" where
  "intent_edge a b \<longleftrightarrow> a = PENDING \<and> b \<in> {SETTLING, CANCELLED, EXPIRED} \<or> a = SETTLING \<and> b = CLAIMED"

text \<open>The bookkeeping fields agree with the status.\<close>

definition intent_ok :: "payment_intent \<Rightarrow> bool" where
  "intent_ok i \<longleftrightarrow> (pay_settlement_tx i \<noteq> None \<longleftrightarrow> pay_status i = CLAIMED) \<and>
     (pay_claimed_at i \<noteq> None \<longleftrightarrow> pay_status i \<in> {SETTLING, CLAIMED})"

definition intent_next :: "payment_intent \<Rightarrow> payment_intent \<Rightarrow> bool" where
  "intent_next i i' \<longleftrightarrow> pay_terms i' = pay_terms i \<and>
     (pay_status i' = pay_status i \<or> intent_edge (pay_status i) (pay_status i')) \<and> (intent_ok i \<longrightarrow> intent_ok i')"

definition intents_le :: "payment_intent dict \<Rightarrow> payment_intent dict \<Rightarrow> bool" where
  "intents_le d d' \<longleftrightarrow> dmap pay_terms d' = dmap pay_terms d \<and>
     (\<forall>k i. dget d k = Some i \<longrightarrow> (\<exists>i'. dget d' k = Some i' \<and> intent_next i i'))"

lemma intent_next_refl [simp]: "intent_next i i"
  by (simp add: intent_next_def)

lemma intent_next_ops:
  "pay_status i = PENDING \<Longrightarrow> intent_next i (i\<lparr>pay_status := SETTLING, pay_claimed_at := Some now\<rparr>)"
  "pay_status i = SETTLING \<Longrightarrow> intent_next i (i\<lparr>pay_status := CLAIMED, pay_settlement_tx := Some tx,
     pay_relayer_address := Some relayer, pay_fee_credit_ids := cids\<rparr>)"
  "pay_status i = PENDING \<Longrightarrow> intent_next i (i\<lparr>pay_status := CANCELLED\<rparr>)"
  "pay_status i = PENDING \<Longrightarrow> intent_next i (i\<lparr>pay_status := EXPIRED\<rparr>)"
  by (auto simp: intent_next_def pay_terms_def intent_edge_def intent_ok_def)

lemma intents_le_refl [simp]: "intents_le d d"
  by (simp add: intents_le_def)

lemma intents_le_dset:
  assumes "dget d k = Some i" and "intent_next i i'"
  shows "intents_le d (dset k i' d)"
  using assms dmap_dset_same [of d k i pay_terms i'] by (simp add: intents_le_def intent_next_def)

lemma expire_loop_cons:
  "fst (expire_loop ((k, i) # d) env) =
     (k, if pay_status i = PENDING \<and> fle (pay_expires_at i) (now_of env) then i\<lparr>pay_status := EXPIRED\<rparr> else i)
     # fst (expire_loop d (if pay_status i = PENDING then tick env else env))"
  by (simp add: is_expired_def time_time_def Let_def case_prod_beta)

lemma intents_le_cons:
  assumes "intent_next i i'" and "intents_le d d'"
  shows "intents_le ((k, i) # d) ((k, i') # d')"
  using assms by (auto simp: intents_le_def intent_next_def dmap_def)

lemma intents_le_expire: "intents_le d (fst (expire_loop d env))"
proof (induction d arbitrary: env)
  case Nil
  then show ?case by simp
next
  case (Cons p d)
  obtain k i where p: "p = (k, i)" by fastforce
  have "intent_next i (if pay_status i = PENDING \<and> fle (pay_expires_at i) (now_of env)
      then i\<lparr>pay_status := EXPIRED\<rparr> else i)"
    by (simp add: intent_next_ops)
  then show ?case using Cons by (simp only: p expire_loop_cons intents_le_cons)
qed

section \<open>What each operation does\<close>

lemma is_claimable_iff:
  "fst (is_claimable i env) \<longleftrightarrow> pay_status i = PENDING \<and> \<not> fle (pay_expires_at i) (now_of env)"
  by (simp add: is_claimable_def is_expired_def time_time_def)

lemma is_claimable_env [simp]:
  "clock (snd (is_claimable i env)) = clock env"
  "uuids (snd (is_claimable i env)) = uuids env"
  "uuid_pos (snd (is_claimable i env)) = uuid_pos env"
  "book (snd (is_claimable i env)) = book env"
  by (simp_all add: is_claimable_def is_expired_def time_time_def)

definition with_intent :: "payment_intent \<Rightarrow> intent_network \<Rightarrow> intent_network" where
  "with_intent i net = net\<lparr>net_intents := dset (pay_intent_id i) i (net_intents net),
     net_user_nonces := dset (pay_sender_address i) (pay_nonce i + 1) (net_user_nonces net)\<rparr>"

lemma create_effect:
  assumes "create_intent sender receiver token amount signature net env = (r, net', env')"
  shows "(\<forall>i. r \<noteq> Inr (Some i)) \<Longrightarrow> net' = net"
    and "r = Inr (Some i) \<Longrightarrow> net' = with_intent i net \<and> is_token_approved (net_config net) token \<and>
      0 < pay_amount i \<and> pay_sender_address i = sender \<and> pay_receiver_address i = receiver \<and>
      pay_token_symbol i = token \<and> pay_amount i = amount \<and> pay_sender_signature i = signature \<and>
      pay_nonce i = dget_default (net_user_nonces net) sender 0 \<and> pay_terms i = i \<and>
      pay_intent_id i = slice_to 20 (uuids env (uuid_pos env)) \<and>
      (\<exists>w. of_pyint (intent_claim_window_seconds (net_config net)) = Inr w \<and>
        pay_created_at i = now_of env \<and> pay_expires_at i = fadd (now_of env) w)"
  using assms
  by (auto simp: create_intent_def with_intent_def pay_terms_def Let_def uuid4_hex_def time_time_def
        case_prod_beta split: sum.splits if_splits)

lemma claim_effect:
  assumes "claim_intent iid claimer net env = (r, net', env')"
  shows "r = None \<Longrightarrow> net' = net"
    and "r = Some i' \<Longrightarrow> \<exists>i now. dget (net_intents net) iid = Some i \<and> fst (is_claimable i env) \<and>
      i' = i\<lparr>pay_status := SETTLING, pay_claimed_at := Some now\<rparr> \<and>
      net' = net\<lparr>net_intents := dset iid i' (net_intents net)\<rparr>"
  using assms
  by (auto simp: claim_intent_def Let_def case_prod_beta split: option.splits if_splits)

lemma confirm_effect:
  assumes "confirm_settlement iid tx relayer cids net env = (r, net', env')"
  shows "\<not> r \<Longrightarrow> net' = net"
    and "r \<Longrightarrow> \<exists>i. dget (net_intents net) iid = Some i \<and> pay_status i = SETTLING \<and>
      net' = net\<lparr>net_intents := dset iid (i\<lparr>pay_status := CLAIMED, pay_settlement_tx := Some tx,
        pay_relayer_address := Some relayer, pay_fee_credit_ids := cids\<rparr>) (net_intents net)\<rparr>"
  using assms
  by (auto simp: confirm_settlement_def Let_def case_prod_beta split: option.splits if_splits)

lemma cancel_effect:
  assumes "cancel_intent iid sender net env = (r, net', env')"
  shows "\<not> r \<Longrightarrow> net' = net"
    and "r \<Longrightarrow> \<exists>i. dget (net_intents net) iid = Some i \<and> pay_sender_address i = sender \<and>
      fst (is_claimable i env) \<and>
      net' = net\<lparr>net_intents := dset iid (i\<lparr>pay_status := CANCELLED\<rparr>) (net_intents net)\<rparr>"
  using assms
  by (auto simp: cancel_intent_def Let_def case_prod_beta split: option.splits if_splits)

lemma expire_effect:
  "expire_intents net env = (net', env') \<Longrightarrow>
     net' = net\<lparr>net_intents := fst (expire_loop (net_intents net) env)\<rparr>"
  by (auto simp: expire_intents_def case_prod_beta Let_def)

lemma readers_effect:
  "get_pending_intents address net env = (is, net', env') \<Longrightarrow> net' = fst (expire_intents net env)"
  "net_stats net env = (st, net', env') \<Longrightarrow> net' = fst (expire_intents net env)"
  by (auto simp: get_pending_intents_def net_stats_def Let_def case_prod_beta)

lemmas network_effects = create_effect claim_effect confirm_effect cancel_effect expire_effect readers_effect

section \<open>Runs of the network\<close>

text \<open>
  The calls a network receives. A new intent gets an identifier that no earlier intent has (\<open>uuid4\<close>
  does not repeat); other modules may change the process state in between.
\<close>

inductive net_step :: "intent_network \<times> l3_env \<Rightarrow> intent_network \<times> l3_env \<Rightarrow> bool" where
  ns_create: "dget (net_intents net) (slice_to 20 (uuids env (uuid_pos env))) = None \<Longrightarrow>
     create_intent sender receiver token amount signature net env = (r, net', env') \<Longrightarrow>
     net_step (net, env) (net', env')"
| ns_claim: "claim_intent iid claimer net env = (c, net', env') \<Longrightarrow> net_step (net, env) (net', env')"
| ns_confirm: "confirm_settlement iid tx relayer cids net env = (b, net', env') \<Longrightarrow>
     net_step (net, env) (net', env')"
| ns_cancel: "cancel_intent iid sender net env = (b, net', env') \<Longrightarrow> net_step (net, env) (net', env')"
| ns_expire: "net_step (net, env) (expire_intents net env)"
| ns_pending: "get_pending_intents address net env = (is, net', env') \<Longrightarrow> net_step (net, env) (net', env')"
| ns_stats: "net_stats net env = (st, net', env') \<Longrightarrow> net_step (net, env) (net', env')"
| ns_other: "net_step (net, env) (net, env')"

text \<open>A call moves existing intents along the edges, or stores one new intent.\<close>

lemma net_step_cases:
  assumes "net_step (net, env) (net', env')"
  shows "(\<exists>d. intents_le (net_intents net) d \<and> net' = net\<lparr>net_intents := d\<rparr>) \<or>
    (\<exists>i. net' = with_intent i net \<and> dget (net_intents net) (pay_intent_id i) = None \<and>
       pay_terms i = i \<and> 0 < pay_amount i \<and> is_token_approved (net_config net) (pay_token_symbol i) \<and>
       pay_nonce i = dget_default (net_user_nonces net) (pay_sender_address i) 0)"
proof -
  have same: ?thesis if "net' = net"
    using that intents_le_refl by (intro disjI1 exI [of _ "net_intents net"]) simp
  have upd: ?thesis if "dget (net_intents net) iid = Some i" "intent_next i i'"
      "net' = net\<lparr>net_intents := dset iid i' (net_intents net)\<rparr>" for iid i i'
    using that intents_le_dset by blast
  have exp: ?thesis if "net' = fst (expire_intents net env)"
    using that expire_effect [of net env] intents_le_expire by (metis prod.collapse)
  from assms show ?thesis
  proof (cases rule: net_step.cases)
    case (ns_create sender receiver token amount signature r)
    then show ?thesis
      using same create_effect [OF ns_create(2)] by (cases "\<exists>i. r = Inr (Some i)") auto
  next
    case (ns_claim iid claimer c)
    show ?thesis
    proof (cases c)
      case None
      then show ?thesis using claim_effect(1) [OF ns_claim] same by blast
    next
      case (Some i')
      from claim_effect(2) [OF ns_claim this] obtain i now where i: "dget (net_intents net) iid = Some i"
        and st: "fst (is_claimable i env)" and i': "i' = i\<lparr>pay_status := SETTLING, pay_claimed_at := Some now\<rparr>"
        and n: "net' = net\<lparr>net_intents := dset iid i' (net_intents net)\<rparr>" by blast
      have "intent_next i i'" using st unfolding i' by (simp add: is_claimable_iff intent_next_ops)
      then show ?thesis by (rule upd [OF i _ n])
    qed
  next
    case (ns_confirm iid tx relayer cids b)
    show ?thesis
    proof (cases b)
      case False
      then show ?thesis using confirm_effect(1) [OF ns_confirm] same by blast
    next
      case True
      from confirm_effect(2) [OF ns_confirm this] upd intent_next_ops(2) show ?thesis by blast
    qed
  next
    case (ns_cancel iid sender b)
    show ?thesis
    proof (cases b)
      case False
      then show ?thesis using cancel_effect(1) [OF ns_cancel] same by blast
    next
      case True
      from cancel_effect(2) [OF ns_cancel this, unfolded is_claimable_iff] upd intent_next_ops(3)
      show ?thesis by blast
    qed
  next
    case ns_expire
    then show ?thesis using exp by (metis fst_conv)
  qed (use exp same readers_effect in blast)+
qed

section \<open>The invariant of the network\<close>

text \<open>The intents an address has sent, as their terms; what the nonces are read from.\<close>

definition sent_terms :: "string \<Rightarrow> intent_network \<Rightarrow> payment_intent list" where
  "sent_terms s net = filter (\<lambda>i. pay_sender_address i = s) (dvalues (dmap pay_terms (net_intents net)))"

lemma pay_terms_simps [simp]:
  "pay_sender_address (pay_terms i) = pay_sender_address i"
  "pay_receiver_address (pay_terms i) = pay_receiver_address i"
  "pay_nonce (pay_terms i) = pay_nonce i"
  "pay_amount (pay_terms i) = pay_amount i"
  "pay_token_symbol (pay_terms i) = pay_token_symbol i"
  "pay_intent_id (pay_terms i) = pay_intent_id i"
  "pay_expires_at (pay_terms i) = pay_expires_at i"
  by (simp_all add: pay_terms_def)

lemma sent_nonces: "map pay_nonce (sent_terms s net) = map pay_nonce (get_sent_intents s net)"
  by (simp add: sent_terms_def get_sent_intents_def filter_map comp_def)

definition net_inv :: "intent_network \<Rightarrow> bool" where
  "net_inv net \<longleftrightarrow> distinct (dkeys (net_intents net)) \<and>
     (\<forall>k i. dget (net_intents net) k = Some i \<longrightarrow> pay_intent_id i = k \<and> 0 < pay_amount i \<and>
        is_token_approved (net_config net) (pay_token_symbol i) \<and> intent_ok i) \<and>
     (\<forall>s. map pay_nonce (sent_terms s net) = map int [0..<length (sent_terms s net)] \<and>
        dget_default (net_user_nonces net) s 0 = int (length (sent_terms s net)))"

lemma net_inv_init: "net_inv (intent_network_init c)"
  by (simp add: net_inv_def intent_network_init_def sent_terms_def dget_default_def dmap_def)

lemma intents_leD:
  assumes "intents_le d d'"
  shows "dkeys d' = dkeys d"
    and "dget d' k = Some i' \<Longrightarrow> \<exists>i. dget d k = Some i \<and> intent_next i i'"
proof -
  from assms have eq: "dmap pay_terms d' = dmap pay_terms d" by (simp add: intents_le_def)
  then have "dkeys (dmap pay_terms d') = dkeys (dmap pay_terms d)" by simp
  then show "dkeys d' = dkeys d" by simp
  assume i': "dget d' k = Some i'"
  from eq have "dget (dmap pay_terms d') k = dget (dmap pay_terms d) k" by simp
  with i' obtain i where "dget d k = Some i" by (cases "dget d k") auto
  with i' assms show "\<exists>i. dget d k = Some i \<and> intent_next i i'" by (force simp: intents_le_def)
qed

lemma net_inv_le:
  assumes "net_inv net" and "intents_le (net_intents net) d"
  shows "net_inv (net\<lparr>net_intents := d\<rparr>)"
proof -
  have sent: "sent_terms s (net\<lparr>net_intents := d\<rparr>) = sent_terms s net" for s
    using assms(2) by (simp add: sent_terms_def intents_le_def)
  have "pay_intent_id i' = k \<and> 0 < pay_amount i' \<and>
      is_token_approved (net_config net) (pay_token_symbol i') \<and> intent_ok i'"
    if "dget d k = Some i'" for k i'
  proof -
    from intents_leD(2) [OF assms(2) that] obtain i where i: "dget (net_intents net) k = Some i" "intent_next i i'"
      by blast
    then have t: "pay_terms i' = pay_terms i" by (simp add: intent_next_def)
    have "pay_intent_id i' = pay_intent_id i" "pay_amount i' = pay_amount i" "pay_token_symbol i' = pay_token_symbol i"
      using arg_cong [OF t, of pay_intent_id] arg_cong [OF t, of pay_amount] arg_cong [OF t, of pay_token_symbol]
      by simp_all
    moreover have "intent_ok i'" using i assms(1) unfolding net_inv_def intent_next_def by blast
    ultimately show ?thesis using i(1) assms(1) unfolding net_inv_def by simp
  qed
  then show ?thesis
    using assms(1) sent intents_leD(1) [OF assms(2)] unfolding net_inv_def by simp
qed

lemma net_inv_with:
  assumes "net_inv net" and "dget (net_intents net) (pay_intent_id i) = None" and "pay_terms i = i"
    and "0 < pay_amount i" and "is_token_approved (net_config net) (pay_token_symbol i)"
    and "pay_nonce i = dget_default (net_user_nonces net) (pay_sender_address i) 0"
  shows "net_inv (with_intent i net)"
proof -
  have fresh: "pay_intent_id i \<notin> set (dkeys (net_intents net))" using assms(2) by (metis dget_None_key)
  have sent: "sent_terms s (with_intent i net) =
      (if s = pay_sender_address i then sent_terms s net @ [i] else sent_terms s net)" for s
    using assms(3) by (simp add: sent_terms_def with_intent_def dset_fresh [OF fresh] dmap_def)
  have "intent_ok i" using arg_cong [OF assms(3), of pay_status] arg_cong [OF assms(3), of pay_claimed_at]
      arg_cong [OF assms(3), of pay_settlement_tx]
    by (simp add: intent_ok_def pay_terms_def)
  then have each: "pay_intent_id i' = k \<and> 0 < pay_amount i' \<and>
      is_token_approved (net_config net) (pay_token_symbol i') \<and> intent_ok i'"
    if "dget (net_intents (with_intent i net)) k = Some i'" for k i'
    using that assms(1,4,5) unfolding net_inv_def with_intent_def by (auto split: if_splits)
  have nonces: "map pay_nonce (sent_terms s (with_intent i net)) = map int [0..<length (sent_terms s (with_intent i net))] \<and>
      dget_default (net_user_nonces (with_intent i net)) s 0 = int (length (sent_terms s (with_intent i net)))" for s
    using assms(1,6) unfolding net_inv_def sent by (simp add: with_intent_def)
  have "distinct (dkeys (net_intents (with_intent i net)))" "net_config (with_intent i net) = net_config net"
    using assms(1) by (simp_all add: net_inv_def with_intent_def)
  with each nonces show ?thesis unfolding net_inv_def by simp
qed

lemma net_step_inv: "net_step s t \<Longrightarrow> net_inv (fst s) \<Longrightarrow> net_inv (fst t)"
  using net_step_cases [of "fst s" "snd s" "fst t" "snd t"] net_inv_le net_inv_with by fastforce

interpretation net_calls: component_invariant net_step net_inv
  by unfold_locales (rule net_step_inv)

lemma net_run_inv: "net_step\<^sup>*\<^sup>* s t \<Longrightarrow> net_inv (fst s) \<Longrightarrow> net_inv (fst t)"
  by (rule net_calls.run_ok)

section \<open>The life of an intent\<close>

definition intent_status_of :: "intent_network \<times> l3_env \<Rightarrow> string \<Rightarrow> intent_status option" where
  "intent_status_of s iid = map_option pay_status (dget (net_intents (fst s)) iid)"

text \<open>One call keeps every intent, with its terms, and moves its status along an edge at most.\<close>

lemma net_step_intent:
  assumes "net_step s t" and "dget (net_intents (fst s)) iid = Some i"
  shows "\<exists>i'. dget (net_intents (fst t)) iid = Some i' \<and> intent_next i i'"
proof -
  have "net_step (fst s, snd s) (fst t, snd t)" using assms(1) by simp
  from net_step_cases [OF this] show ?thesis
  proof (elim disjE exE conjE)
    fix d assume "intents_le (net_intents (fst s)) d" and "fst t = fst s\<lparr>net_intents := d\<rparr>"
    then show ?thesis using assms(2) by (simp add: intents_le_def)
  next
    fix j assume "fst t = with_intent j (fst s)" and "dget (net_intents (fst s)) (pay_intent_id j) = None"
    then show ?thesis using assms(2) by (auto simp: with_intent_def)
  qed
qed

lemma net_run_intent:
  assumes "net_step\<^sup>*\<^sup>* s t" and "dget (net_intents (fst s)) iid = Some i"
  shows "\<exists>i'. dget (net_intents (fst t)) iid = Some i' \<and> pay_terms i' = pay_terms i"
  using assms
proof (induction rule: rtranclp_induct)
  case (step t u)
  then show ?case using net_step_intent [OF step(2)] by (metis intent_next_def)
qed blast

interpretation intent: lifecycle intent_status_of net_step intent_edge
proof
  fix s t iid a
  assume "net_step s t" and "intent_status_of s iid = Some a"
  then show "\<exists>b. intent_status_of t iid = Some b \<and> (b = a \<or> intent_edge a b)"
    using net_step_intent [of s t iid] by (fastforce simp: intent_status_of_def intent_next_def)
qed

section \<open>Properties\<close>

text \<open>
  C5. An intent is settled at most once and ends for good: once it is claimed, cancelled or expired
  it keeps that status through every run of calls, and every further attempt to claim, to confirm or
  to cancel it is refused and changes no intent.
\<close>

theorem finished_intent_is_final:
  assumes "net_step\<^sup>*\<^sup>* (net, env) (net', env')" and "dget (net_intents net) iid = Some i"
    and "pay_status i \<in> {CLAIMED, CANCELLED, EXPIRED}"
  shows "(\<exists>i'. dget (net_intents net') iid = Some i' \<and> pay_status i' = pay_status i) \<and>
    claim_intent iid claimer net' env2 = (None, net', env2) \<and>
    confirm_settlement iid tx relayer cids net' env2 = (False, net', env2) \<and>
    cancel_intent iid sender net' env2 = (False, net', env2)"
proof -
  have "intent_status_of (net', env') iid = Some (pay_status i)"
    using assms(2,3) intent.final_stays [OF assms(1), of iid "pay_status i"]
    by (auto simp: intent_status_of_def intent_edge_def)
  then obtain i' where i': "dget (net_intents net') iid = Some i'" "pay_status i' = pay_status i"
    by (auto simp: intent_status_of_def)
  have "claim_intent iid claimer net' env2 = (None, net', env2)"
    and "confirm_settlement iid tx relayer cids net' env2 = (False, net', env2)"
    and "cancel_intent iid sender net' env2 = (False, net', env2)"
    using i' assms(3) by (auto simp: claim_intent_def confirm_settlement_def cancel_intent_def is_claimable_def)
  with i' show ?thesis by blast
qed

text \<open>A network with one pending intent, for concrete runs.\<close>

definition sample_intent :: payment_intent where
  "sample_intent = \<lparr>pay_intent_id = ''i1'', pay_sender_address = ''s'', pay_receiver_address = ''r'',
     pay_token_symbol = ''USDC'', pay_amount = 7, pay_created_at = Fin 0, pay_expires_at = Fin 100,
     pay_nonce = 0, pay_sender_signature = ''sig'', pay_status = PENDING, pay_claimed_at = None,
     pay_settlement_tx = None, pay_relayer_address = None, pay_fee_credit_ids = []\<rparr>"

definition sample_net :: "payment_intent \<Rightarrow> intent_network" where
  "sample_net i = (intent_network_init DEFAULT_CONFIG)\<lparr>net_intents := [(''i1'', i)],
     net_user_nonces := [(''s'', 1)]\<rparr>"

theorem finished_intent_is_final_witness:
  "\<exists>net' env'. cancel_intent ''i1'' ''s'' (sample_net sample_intent) (sample_env []) = (True, net', env') \<and>
     claim_intent ''i1'' ''r'' net' env' = (None, net', env')"
proof -
  let ?n = "sample_net sample_intent"
  obtain b net' env' where c: "cancel_intent ''i1'' ''s'' ?n (sample_env []) = (b, net', env')"
    by (metis prod_cases3)
  have b: "b" and i: "dget (net_intents net') ''i1'' = Some (sample_intent\<lparr>pay_status := CANCELLED\<rparr>)"
    using c by (auto simp: cancel_intent_def sample_net_def sample_intent_def is_claimable_def is_expired_def
        time_time_def case_prod_beta Let_def)
  have "net_step\<^sup>*\<^sup>* (net', env') (net', env')" by blast
  from finished_intent_is_final [OF this i, of "''r''" env'] c b show ?thesis by auto
qed

text \<open>
  \<open>claim_intent\<close> succeeds exactly for a stored pending intent whose claim window is still open at
  the reading of the clock, whoever asks; it then marks that intent SETTLING and touches no other.
  Otherwise it returns None and changes nothing.
\<close>

theorem claim_intent_exact:
  assumes "claim_intent iid claimer net env = (r, net', env')"
  shows "(case dget (net_intents net) iid of
      None \<Rightarrow> r = None \<and> net' = net
    | Some i \<Rightarrow>
        if pay_status i = PENDING \<and> \<not> fle (pay_expires_at i) (now_of env)
        then \<exists>i' now. r = Some i' \<and> i' = i\<lparr>pay_status := SETTLING, pay_claimed_at := Some now\<rparr> \<and>
          net' = net\<lparr>net_intents := dset iid i' (net_intents net)\<rparr>
        else r = None \<and> net' = net)"
  using assms is_claimable_iff
  by (auto simp: claim_intent_def Let_def case_prod_beta split: option.splits if_splits)

theorem claim_intent_exact_witness:
  "\<exists>i net' env'. claim_intent ''i1'' ''anyone'' (sample_net sample_intent) (sample_env []) = (Some i, net', env') \<and>
     pay_status i = SETTLING"
proof -
  obtain r net' env' where c: "claim_intent ''i1'' ''anyone'' (sample_net sample_intent) (sample_env []) = (r, net', env')"
    by (metis prod_cases3)
  with claim_intent_exact [OF c] show ?thesis by (auto simp: sample_net_def sample_intent_def)
qed

text \<open>
  In every run from an empty network the intents of a sender carry the nonces 0, 1, 2, ... in the
  order of their creation, none repeated and none skipped; every stored intent has a positive amount
  of an approved token and its settlement data is present exactly when its status says so.
\<close>

theorem nonces_are_consecutive:
  assumes "net_step\<^sup>*\<^sup>* (intent_network_init DEFAULT_CONFIG, env) (net, env')"
  shows "map pay_nonce (get_sent_intents sender net) = map int [0..<length (get_sent_intents sender net)] \<and>
    (\<forall>iid i. dget (net_intents net) iid = Some i \<longrightarrow> pay_intent_id i = iid \<and> 0 < pay_amount i \<and>
       is_token_approved (net_config net) (pay_token_symbol i) \<and>
       (pay_settlement_tx i \<noteq> None \<longleftrightarrow> pay_status i = CLAIMED))"
proof -
  have inv: "net_inv net" using net_run_inv [OF assms] net_inv_init by simp
  have "length (sent_terms sender net) = length (get_sent_intents sender net)"
    using sent_nonces [of sender net] by (metis length_map)
  then show ?thesis
    using inv sent_nonces [of sender net] unfolding net_inv_def intent_ok_def by metis
qed

theorem nonces_are_consecutive_witness:
  "\<exists>net env'. net_step\<^sup>*\<^sup>* (intent_network_init DEFAULT_CONFIG, sample_env []) (net, env') \<and>
     map pay_nonce (get_sent_intents ''s'' net) = [0]"
proof -
  let ?n = "intent_network_init DEFAULT_CONFIG"
  obtain r net env' where c: "create_intent ''s'' ''r'' ''USDC'' 7 ''sig'' ?n (sample_env []) = (r, net, env')"
    by (metis prod_cases3)
  have "net_step (?n, sample_env []) (net, env')"
    using ns_create [OF _ c] by (simp add: intent_network_init_def)
  then have run: "net_step\<^sup>*\<^sup>* (?n, sample_env []) (net, env')" by blast
  have "length (get_sent_intents ''s'' net) = 1"
    using c by (auto simp: create_intent_def intent_network_init_def is_token_approved_def init_default_tokens_def
        mk_token_def time_time_def uuid4_hex_def of_pyint_small get_sent_intents_def Let_def case_prod_beta)
  then show ?thesis using nonces_are_consecutive [OF run, of "''s''"] run by auto
qed

text \<open>
  What a sender signed stays what it was: through every run of calls an intent stays stored and
  its signed text and its hash, over identifier, parties, token, amount, times and nonce, do not
  change.
\<close>

theorem signed_terms_are_immutable:
  assumes "net_step\<^sup>*\<^sup>* (net, env) (net', env')" and "dget (net_intents net) iid = Some i"
  shows "\<exists>i'. dget (net_intents net') iid = Some i' \<and> serialize_for_signing i' = serialize_for_signing i \<and>
    intent_hash i' = intent_hash i \<and> pay_sender_signature i' = pay_sender_signature i"
proof -
  from net_run_intent [OF assms(1), of iid i] assms(2) obtain i' where
    i': "dget (net_intents net') iid = Some i'" and t: "pay_terms i' = pay_terms i" by auto
  have ser: "serialize_for_signing (pay_terms j) = serialize_for_signing j" for j
    by (simp add: serialize_for_signing_def pay_terms_def)
  have sig: "pay_sender_signature (pay_terms j) = pay_sender_signature j" for j
    by (simp add: pay_terms_def)
  have "serialize_for_signing i' = serialize_for_signing i" using ser [of i'] ser [of i] t by simp
  moreover have "pay_sender_signature i' = pay_sender_signature i" using sig [of i'] sig [of i] t by simp
  ultimately show ?thesis using i' by (auto simp: intent_hash_def)
qed

theorem signed_terms_are_immutable_witness:
  "\<exists>i net' env' i'. claim_intent ''i1'' ''r'' (sample_net sample_intent) (sample_env []) = (Some i, net', env') \<and>
     dget (net_intents net') ''i1'' = Some i' \<and> pay_status i' = SETTLING \<and>
     intent_hash i' = intent_hash sample_intent"
proof -
  obtain r net' env' where c: "claim_intent ''i1'' ''r'' (sample_net sample_intent) (sample_env []) = (r, net', env')"
    by (metis prod_cases3)
  then have run: "net_step\<^sup>*\<^sup>* (sample_net sample_intent, sample_env []) (net', env')" by (blast intro: ns_claim)
  have i: "dget (net_intents (sample_net sample_intent)) ''i1'' = Some sample_intent" by (simp add: sample_net_def)
  from signed_terms_are_immutable [OF run i] show ?thesis
    using c by (auto simp: claim_intent_def sample_net_def sample_intent_def is_claimable_def is_expired_def
        time_time_def case_prod_beta Let_def)
qed

end
