(* ===== verification/Token_Router.thy ===== *)
theory Token_Router
  imports L3_Config Proof_Book
begin

text \<open>
  \<open>membra-l3/membra_l3/token_router.py\<close>: quotes and execution of token routes through registered
  adapters. The abstract class \<open>TokenAdapter\<close> is a record of its methods, its contract is a locale, and
  the two adapters of the source interpret it.
\<close>

section \<open>Data\<close>

record route_quote =
  rq_from_token :: string
  rq_to_token :: string
  rq_from_amount :: int
  rq_to_amount :: int
  rq_fee_amount :: int
  rq_fee_bps :: int
  rq_adapter :: string
  rq_route_hash :: string
  rq_expires_at :: pyfloat
  rq_slippage_bps :: int

record token_adapter =
  adapter_name :: string
  adapter_get_quote ::
    "token_config \<Rightarrow> token_config \<Rightarrow> int \<Rightarrow> int \<Rightarrow> l3_env \<Rightarrow> route_quote option result \<times> l3_env"
  adapter_execute_route :: "route_quote \<Rightarrow> string \<Rightarrow> string \<Rightarrow> l3_env \<Rightarrow> string option \<times> l3_env"
  adapter_validate_liquidity :: "token_config \<Rightarrow> token_config \<Rightarrow> int \<Rightarrow> bool"

section \<open>The adapters\<close>

text \<open>\<open>int(amount * fee_bps / 10000)\<close>, in both adapters.\<close>

definition route_fee :: "int \<Rightarrow> int \<Rightarrow> int result" where
  "route_fee amount fee_bps =
     (case truediv (amount * fee_bps) 10000 of Inl x \<Rightarrow> Inl x | Inr q \<Rightarrow> ftrunc q)"

text \<open>The simulated exchange rates.\<close>

definition spl_rate :: "string \<Rightarrow> string \<Rightarrow> pyfloat" where
  "spl_rate from to =
     (if from = ''SOL'' \<and> to = ''USDC'' then Fin 150
      else if from = ''USDC'' \<and> to = ''SOL'' then mkf (1 / 150)
      else if from = ''MEMBRA'' \<and> to = ''USDC'' then mkf (1 / 100)
      else if from = ''USDC'' \<and> to = ''MEMBRA'' then Fin 100
      else Fin 1)"

definition spl_get_quote ::
  "token_config \<Rightarrow> token_config \<Rightarrow> int \<Rightarrow> int \<Rightarrow> l3_env \<Rightarrow> route_quote option result \<times> l3_env" where
  "spl_get_quote from_token to_token amount fee_bps env =
     (if amount \<le> 0 then (Inr None, env)
      else let rate = spl_rate (tc_symbol from_token) (tc_symbol to_token)
        in case route_fee amount fee_bps of Inl x \<Rightarrow> (Inl x, env)
         | Inr fee \<Rightarrow> (case of_pyint (amount - fee) of Inl x \<Rightarrow> (Inl x, env)
         | Inr rest \<Rightarrow> (case ftrunc (fmul rest rate) of Inl x \<Rightarrow> (Inl x, env)
         | Inr to_amount \<Rightarrow>
             let (t1, env) = time_time env;
                 route_hash = slice_to 16 (sha256_hex (tc_symbol from_token @ '':'' @ tc_symbol to_token @ '':''
                   @ dec_int amount @ '':'' @ frepr t1));
                 (t2, env) = time_time env
             in (Inr (Some \<lparr>rq_from_token = tc_symbol from_token, rq_to_token = tc_symbol to_token,
                   rq_from_amount = amount, rq_to_amount = to_amount, rq_fee_amount = fee,
                   rq_fee_bps = fee_bps, rq_adapter = ''SplSwapAdapter'', rq_route_hash = route_hash,
                   rq_expires_at = fadd t2 (Fin 30), rq_slippage_bps = 100\<rparr>), env))))"

text \<open>The body of \<open>execute_route\<close>, the same in both adapters but for the name.\<close>

definition simulate_route :: "string \<Rightarrow> route_quote \<Rightarrow> string \<Rightarrow> string \<Rightarrow> l3_env \<Rightarrow> string option \<times> l3_env" where
  "simulate_route name quote sender receiver env =
     (let (u, env) = uuid4_hex env; tx_sig = slice_to 44 u;
          (e, env) = log_proof ROUTE_VALIDATION [
            (''adapter'', JStr name),
            (''from_token'', JStr (rq_from_token quote)),
            (''to_token'', JStr (rq_to_token quote)),
            (''amount'', JInt (rq_from_amount quote)),
            (''sender'', JStr sender),
            (''receiver'', JStr receiver),
            (''tx_signature'', JStr tx_sig)] env
      in (Some tx_sig, env))"

definition SplSwapAdapter :: token_adapter where
  "SplSwapAdapter = \<lparr>adapter_name = ''SplSwapAdapter'', adapter_get_quote = spl_get_quote,
     adapter_execute_route = simulate_route ''SplSwapAdapter'',
     adapter_validate_liquidity = (\<lambda>from_token to_token amount. True)\<rparr>"

definition wormhole_get_quote ::
  "token_config \<Rightarrow> token_config \<Rightarrow> int \<Rightarrow> int \<Rightarrow> l3_env \<Rightarrow> route_quote option result \<times> l3_env" where
  "wormhole_get_quote from_token to_token amount fee_bps env =
     (if amount \<le> 0 then (Inr None, env)
      else if tc_chain from_token = tc_chain to_token then (Inr None, env)
      else case route_fee amount fee_bps of Inl x \<Rightarrow> (Inl x, env)
        | Inr fee \<Rightarrow>
            let to_amount = amount - fee;
                (t1, env) = time_time env;
                route_hash = slice_to 16 (sha256_hex (''bridge:'' @ chain_value (tc_chain from_token) @ '':''
                  @ chain_value (tc_chain to_token) @ '':'' @ dec_int amount @ '':'' @ frepr t1));
                (t2, env) = time_time env
            in (Inr (Some \<lparr>rq_from_token = tc_symbol from_token, rq_to_token = tc_symbol to_token,
                  rq_from_amount = amount, rq_to_amount = to_amount, rq_fee_amount = fee,
                  rq_fee_bps = fee_bps, rq_adapter = ''WormholeBridgeAdapter'', rq_route_hash = route_hash,
                  rq_expires_at = fadd t2 (Fin 60), rq_slippage_bps = 100\<rparr>), env))"

definition WormholeBridgeAdapter :: token_adapter where
  "WormholeBridgeAdapter = \<lparr>adapter_name = ''WormholeBridgeAdapter'', adapter_get_quote = wormhole_get_quote,
     adapter_execute_route = simulate_route ''WormholeBridgeAdapter'',
     adapter_validate_liquidity = (\<lambda>from_token to_token amount. True)\<rparr>"

section \<open>The router\<close>

record token_router =
  tr_config :: l3_config
  tr_adapters :: "token_adapter dict"

definition register_adapter :: "token_adapter \<Rightarrow> token_router \<Rightarrow> token_router" where
  "register_adapter a r = r\<lparr>tr_adapters := dset (adapter_name a) a (tr_adapters r)\<rparr>"

definition register_default_adapters :: "token_router \<Rightarrow> token_router" where
  "register_default_adapters r = register_adapter WormholeBridgeAdapter (register_adapter SplSwapAdapter r)"

definition token_router_init :: "l3_config \<Rightarrow> token_router" where
  "token_router_init c = register_default_adapters \<lparr>tr_config = c, tr_adapters = []\<rparr>"

definition router_get_quote ::
  "token_router \<Rightarrow> string \<Rightarrow> string \<Rightarrow> int \<Rightarrow> l3_env \<Rightarrow> route_quote option result \<times> l3_env" where
  "router_get_quote r from_symbol to_symbol amount env =
     (case (get_token (tr_config r) from_symbol, get_token (tr_config r) to_symbol) of
        (Some from_token, Some to_token) \<Rightarrow>
          (case get_route (tr_config r) from_symbol to_symbol of None \<Rightarrow> (Inr None, env)
           | Some route \<Rightarrow> (case dget (tr_adapters r) (rc_adapter route) of None \<Rightarrow> (Inr None, env)
           | Some adapter \<Rightarrow>
               if \<not> adapter_validate_liquidity adapter from_token to_token amount then (Inr None, env)
               else adapter_get_quote adapter from_token to_token amount (rc_fee_bps route) env))
      | _ \<Rightarrow> (Inr None, env))"

definition router_execute_route ::
  "token_router \<Rightarrow> route_quote \<Rightarrow> string \<Rightarrow> string \<Rightarrow> l3_env \<Rightarrow> string option \<times> l3_env" where
  "router_execute_route r quote sender receiver env =
     (case dget (tr_adapters r) (rq_adapter quote) of None \<Rightarrow> (None, env)
      | Some adapter \<Rightarrow> adapter_execute_route adapter quote sender receiver env)"

definition get_supported_tokens :: "token_router \<Rightarrow> string list" where
  "get_supported_tokens r = map fst (filter (\<lambda>(s, t). tc_status t = APPROVED) (cfg_tokens (tr_config r)))"

definition get_routes_for_token :: "token_router \<Rightarrow> string \<Rightarrow> string list" where
  "get_routes_for_token r tok =
     sort (remdups (map rc_to_token (filter (\<lambda>x. rc_from_token x = tok \<and> rc_enabled x) (cfg_routes (tr_config r)))))"

section \<open>The contract of an adapter\<close>

text \<open>
  What the router relies on: a quote describes the tokens and the amount it was asked for, charges
  the fee of the formula and names its adapter; executing a quote logs one route entry, and
  quoting logs nothing.
\<close>

locale routing_adapter =
  fixes name :: string
    and quote :: "token_config \<Rightarrow> token_config \<Rightarrow> int \<Rightarrow> int \<Rightarrow> l3_env \<Rightarrow> route_quote option result \<times> l3_env"
    and execute :: "route_quote \<Rightarrow> string \<Rightarrow> string \<Rightarrow> l3_env \<Rightarrow> string option \<times> l3_env"
  assumes quote_describes: "quote f t amount bps env = (Inr (Some q), env') \<Longrightarrow>
      0 < amount \<and> rq_from_token q = tc_symbol f \<and> rq_to_token q = tc_symbol t \<and> rq_from_amount q = amount \<and>
      rq_fee_bps q = bps \<and> rq_adapter q = name \<and> route_fee amount bps = Inr (rq_fee_amount q)"
    and quote_silent: "quote f t amount bps env = (r, env') \<Longrightarrow> book env' = book env"
    and execute_logs: "\<exists>tx e. fst (execute q sender receiver env) = Some tx \<and>
      pb_entries (book (snd (execute q sender receiver env))) = pb_entries (book env) @ [e] \<and>
      pe_type e = ROUTE_VALIDATION"
begin

text \<open>Within \<open>2^51\<close> the fee is the exact share of the amount, rounded down.\<close>

lemma fee_exact:
  assumes "quote f t amount bps env = (Inr (Some q), env')" and "0 \<le> bps" and "amount * bps < 2 ^ 52"
  shows "rq_fee_amount q = amount * bps div 10000"
proof -
  note d = quote_describes [OF assms(1)]
  then have "0 \<le> amount * bps" using assms(2) by simp
  from trunc_quotient [OF _ _ this assms(3), of 10000] d show ?thesis
    by (auto simp: route_fee_def)
qed

lemma fee_bounds:
  assumes "quote f t amount bps env = (Inr (Some q), env')" and "0 \<le> bps" and "bps \<le> 10000"
    and "amount * bps < 2 ^ 52"
  shows "0 \<le> rq_fee_amount q \<and> rq_fee_amount q \<le> amount"
proof -
  have "0 < amount" using quote_describes [OF assms(1)] by simp
  then have "amount * bps \<le> amount * 10000" using assms(3) by simp
  then have "amount * bps div 10000 \<le> amount * 10000 div 10000" by (intro zdiv_mono1) simp_all
  moreover have "0 \<le> amount * bps div 10000" using \<open>0 < amount\<close> assms(2) by (simp add: div_int_pos_iff)
  ultimately show ?thesis using fee_exact [OF assms(1,2,4)] by simp
qed

end

lemma simulate_route_logs:
  "\<exists>tx e. fst (simulate_route name q sender receiver env) = Some tx \<and>
     pb_entries (book (snd (simulate_route name q sender receiver env))) = pb_entries (book env) @ [e] \<and>
     pe_type e = ROUTE_VALIDATION"
  by (simp add: simulate_route_def uuid4_hex_def Let_def case_prod_beta)

interpretation spl: routing_adapter "''SplSwapAdapter''" spl_get_quote "simulate_route ''SplSwapAdapter''"
proof
  fix f t amount bps env r env'
  assume eq: "spl_get_quote f t amount bps env = (r, env')"
  then show "book env' = book env"
    by (auto simp: spl_get_quote_def time_time_def Let_def split: if_splits sum.splits)
next
  fix f t amount bps env q env'
  assume "spl_get_quote f t amount bps env = (Inr (Some q), env')"
  then show "0 < amount \<and> rq_from_token q = tc_symbol f \<and> rq_to_token q = tc_symbol t \<and> rq_from_amount q = amount \<and>
      rq_fee_bps q = bps \<and> rq_adapter q = ''SplSwapAdapter'' \<and> route_fee amount bps = Inr (rq_fee_amount q)"
    by (auto simp: spl_get_quote_def time_time_def Let_def split: if_splits sum.splits)
qed (rule simulate_route_logs)

interpretation wormhole: routing_adapter "''WormholeBridgeAdapter''" wormhole_get_quote
  "simulate_route ''WormholeBridgeAdapter''"
proof
  fix f t amount bps env r env'
  assume eq: "wormhole_get_quote f t amount bps env = (r, env')"
  then show "book env' = book env"
    by (auto simp: wormhole_get_quote_def time_time_def Let_def split: if_splits sum.splits)
next
  fix f t amount bps env q env'
  assume "wormhole_get_quote f t amount bps env = (Inr (Some q), env')"
  then show "0 < amount \<and> rq_from_token q = tc_symbol f \<and> rq_to_token q = tc_symbol t \<and> rq_from_amount q = amount \<and>
      rq_fee_bps q = bps \<and> rq_adapter q = ''WormholeBridgeAdapter'' \<and> route_fee amount bps = Inr (rq_fee_amount q)"
    by (auto simp: wormhole_get_quote_def time_time_def Let_def split: if_splits sum.splits)
qed (rule simulate_route_logs)

section \<open>Exact exchange\<close>

text \<open>The rates of \<open>spl_rate\<close> as the fractions they stand for.\<close>

definition exact_rate :: "string \<Rightarrow> string \<Rightarrow> int \<times> int" where
  "exact_rate from to =
     (if from = ''SOL'' \<and> to = ''USDC'' then (150, 1)
      else if from = ''USDC'' \<and> to = ''SOL'' then (1, 150)
      else if from = ''MEMBRA'' \<and> to = ''USDC'' then (1, 100)
      else if from = ''USDC'' \<and> to = ''MEMBRA'' then (100, 1)
      else (1, 1))"

lemma scaled_float:
  assumes "mkf (1 / of_int d) = Fin c" and "0 < d" "d \<le> 2 ^ 53" and "1 / of_int d \<le> c"
    and "0 \<le> n" "n < 2 ^ 52"
  shows "ftrunc (fmul (Fin (of_int n)) (mkf (1 / of_int d))) = Inr (n div d)"
proof -
  have c: "c = rnd (1 / of_int d)" using assms(1) by (rule mkf_Fin_D)
  have dd: "(0 :: rat) < of_int d" using assms(2) by simp
  have "(of_int d :: rat) \<le> of_int (2 ^ 53)" using assms(3) by (simp only: of_int_le_iff)
  then have "pow2 (- 53) \<le> 1 / of_int d" using dd by (simp add: pow2_def field_simps)
  then have up: "c \<le> (1 / of_int d) * (1 + pow2 (- 53))"
    unfolding c by (intro f64.half_ulp_upper) (use pow2_mono [of "- 1022" "- 53"] in simp)
  have "1 / of_int d \<le> (1 :: rat)" using assms(2) by simp
  then have "c \<le> 1" unfolding c using f64.le_fixed f64.int_exact [of 1] by simp
  moreover have c0: "0 \<le> c" using assms(4) dd by (meson divide_nonneg_pos order_trans zero_le_one)
  ultimately have "of_int n * c \<le> of_int n * 1" using assms(5) by (intro mult_left_mono) auto
  moreover have "0 \<le> of_int n * c" using c0 assms(5) by simp
  moreover have "(of_int n :: rat) \<le> of_int (2 ^ 53)"
    using assms(6) by (subst of_int_le_iff) simp
  ultimately have "\<bar>of_int n * c\<bar> \<le> of_int (2 ^ 53)" by simp
  then have "\<bar>rnd (of_int n * c)\<bar> \<le> of_int (2 ^ 53)" by (rule f64.abs_le_fixed [rotated]) (rule f64.int_exact, simp)
  then have "mkf (of_int n * c) = Fin (rnd (of_int n * c))"
    using f_overflow_big by (intro mkf_Fin) simp
  moreover have "rtrunc (rnd (of_int n * c)) = n div d"
    using assms up by (intro trunc_scaled) simp_all
  ultimately show ?thesis by (simp add: assms(1))
qed

lemma rate_certificates:
  "mkf (1 / of_int 150) = Fin (7686143364045647 / 2 ^ 60)"
  "mkf (1 / of_int 100) = Fin (5764607523034235 / 2 ^ 59)"
  using mkf_eqI [of "- 60" "1 / 150" 7686143364045647] mkf_eqI [of "- 59" "1 / 100" 5764607523034235]
  by (simp_all add: pow2_def f_overflow_def)

lemma exchange_exact:
  assumes "0 \<le> n" "n < 2 ^ 52" and "exact_rate from to = (num, den)" and "n * num \<le> 2 ^ 53"
  shows "ftrunc (fmul (Fin (of_int n)) (spl_rate from to)) = Inr (n * num div den)"
proof -
  have up: "ftrunc (fmul (Fin (of_int n)) (Fin (of_int k))) = Inr (n * k)" if "0 \<le> k" "n * k \<le> 2 ^ 53" for k
  proof -
    have "0 \<le> n * k" using that assms by simp
    then have "mkf (of_int (n * k)) = Fin (of_int (n * k))" using that by (intro mkf_of_int) simp
    then show ?thesis using rtrunc_of_int [of "n * k"] by simp
  qed
  have down: "ftrunc (fmul (Fin (of_int n)) (mkf (1 / 150))) = Inr (n div 150)"
    "ftrunc (fmul (Fin (of_int n)) (mkf (1 / 100))) = Inr (n div 100)"
    using scaled_float [OF rate_certificates(1), of n] scaled_float [OF rate_certificates(2), of n] assms(1,2)
    by simp_all
  show ?thesis
    using assms up [of 1] up [of 100] up [of 150] down
    by (auto simp: spl_rate_def exact_rate_def split: if_splits)
qed

section \<open>Properties\<close>

lemma spl_quote:
  assumes "0 < amount" "amount < 2 ^ 52" and "0 \<le> bps" "bps \<le> 10000" "amount * bps < 2 ^ 52"
    and "exact_rate (tc_symbol f) (tc_symbol t) = (num, den)" and "amount * num \<le> 2 ^ 53"
  shows "\<exists>q env'. spl_get_quote f t amount bps env = (Inr (Some q), env') \<and>
    rq_fee_amount q = amount * bps div 10000 \<and> 0 \<le> rq_fee_amount q \<and> rq_fee_amount q \<le> amount \<and>
    rq_to_amount q = (amount - rq_fee_amount q) * num div den"
proof -
  have nn: "0 \<le> amount * bps" using assms by simp
  from trunc_quotient [of 10000 "amount * bps"] nn assms have fee: "route_fee amount bps = Inr (amount * bps div 10000)"
    by (auto simp: route_fee_def)
  have "amount * bps div 10000 \<le> amount * 10000 div 10000" using assms by (intro zdiv_mono1 mult_left_mono) auto
  then have b: "0 \<le> amount * bps div 10000" "amount * bps div 10000 \<le> amount"
    using nn by (simp_all add: pos_imp_zdiv_nonneg_iff)
  have "of_pyint (amount - amount * bps div 10000) = Inr (Fin (of_int (amount - amount * bps div 10000)))"
    using b assms by (intro of_pyint_small) auto
  moreover have "ftrunc (fmul (Fin (of_int (amount - amount * bps div 10000))) (spl_rate (tc_symbol f) (tc_symbol t)))
      = Inr ((amount - amount * bps div 10000) * num div den)"
  proof (rule exchange_exact [OF _ _ assms(6)])
    have "0 < num" using assms(6) by (auto simp: exact_rate_def split: if_splits)
    then have "(amount - amount * bps div 10000) * num \<le> amount * num" using b by (intro mult_right_mono) auto
    with assms(7) show "(amount - amount * bps div 10000) * num \<le> 2 ^ 53" by linarith
  qed (use b assms in auto)
  ultimately show ?thesis
    using assms(1) fee b by (simp add: spl_get_quote_def time_time_def Let_def)
qed


text \<open>Beyond that the quote can be off, and nothing checks the configured maximum.\<close>

lemma large_quote_inexact:
  "\<exists>q env'. spl_get_quote (mk_token ''MEMBRA'' ''M'' SOLANA ''a'' 9) (mk_token ''SOL'' ''S'' SOLANA ''b'' 9) (2 ^ 53 + 1) 0 env
       = (Inr (Some q), env') \<and> rq_fee_amount q = 0 \<and> rq_to_amount q = 2 ^ 53"
proof -
  have r: "rnd (2 ^ 53 + 1) = 2 ^ 53" by code_simp
  then have "mkf (2 ^ 53 + 1) = Fin (2 ^ 53)" using f_overflow_big by (simp add: mkf_Fin)
  moreover have "rtrunc ((2 :: rat) ^ 53) = 2 ^ 53" by code_simp
  ultimately show ?thesis
    by (simp add: spl_get_quote_def spl_rate_def mk_token_def route_fee_def of_pyint_def truediv_def rtrunc_def time_time_def Let_def)
qed


text \<open>
  The bridge neither creates nor loses tokens: what is paid out and the fee add up to the amount,
  it only quotes between different chains, and within \<open>2^51\<close> the fee lies between zero and the amount.
\<close>

theorem bridge_conserves_amount:
  assumes "wormhole_get_quote f t amount bps env = (Inr (Some q), env')"
  shows "rq_to_amount q + rq_fee_amount q = amount \<and> tc_chain f \<noteq> tc_chain t \<and> 0 < amount \<and>
    (0 \<le> bps \<and> bps \<le> 10000 \<and> amount * bps < 2 ^ 52 \<longrightarrow> 0 \<le> rq_fee_amount q \<and> rq_fee_amount q \<le> amount)"
proof -
  have "rq_to_amount q + rq_fee_amount q = amount \<and> tc_chain f \<noteq> tc_chain t"
    using assms by (auto simp: wormhole_get_quote_def time_time_def Let_def split: if_splits sum.splits)
  then show ?thesis using wormhole.fee_bounds [OF assms] wormhole.quote_describes [OF assms] by blast
qed

theorem bridge_conserves_amount_witness:
  "\<exists>q env'. wormhole_get_quote (mk_token ''USDC'' ''U'' SOLANA ''b'' 6) (mk_token ''USDC_ETH'' ''E'' ETHEREUM ''c'' 6)
       50000 10 (sample_env []) = (Inr (Some q), env') \<and> rq_fee_amount q = 50 \<and> rq_to_amount q = 49950"
proof -
  let ?f = "mk_token ''USDC'' ''U'' SOLANA ''b'' 6" and ?t = "mk_token ''USDC_ETH'' ''E'' ETHEREUM ''c'' 6"
  have "route_fee 50000 10 = Inr 50"
    using trunc_quotient [of 10000 "50000 * 10"] by (auto simp: route_fee_def)
  then have "\<exists>q env'. wormhole_get_quote ?f ?t 50000 10 (sample_env []) = (Inr (Some q), env')"
    by (simp add: wormhole_get_quote_def mk_token_def time_time_def Let_def)
  then obtain q env' where q: "wormhole_get_quote ?f ?t 50000 10 (sample_env []) = (Inr (Some q), env')" by blast
  then show ?thesis
    using bridge_conserves_amount [OF q] wormhole.fee_exact [OF q] by auto
qed

text \<open>The default router: which adapter serves which pair.\<close>

lemma default_adapters [simp]:
  "tr_config (token_router_init c) = c"
  "dget (tr_adapters (token_router_init c)) ''SplSwapAdapter'' = Some SplSwapAdapter"
  "dget (tr_adapters (token_router_init c)) ''WormholeBridgeAdapter'' = Some WormholeBridgeAdapter"
  by (simp_all add: token_router_init_def register_default_adapters_def register_adapter_def
        SplSwapAdapter_def WormholeBridgeAdapter_def)

lemma default_route:
  assumes "get_route DEFAULT_CONFIG a b = Some r"
  shows "rc_adapter r = ''SplSwapAdapter'' \<and> rc_fee_bps r = 30 \<or>
    rc_adapter r = ''WormholeBridgeAdapter'' \<and> rc_fee_bps r = 10 \<and> exact_rate a b = (1, 1)"
proof -
  have "r \<in> set init_default_routes \<and> rc_from_token r = a \<and> rc_to_token r = b"
    using find_route_Some [of init_default_routes a b r] assms by (simp add: get_route_def)
  moreover have "\<forall>r \<in> set init_default_routes. rc_adapter r = ''SplSwapAdapter'' \<and> rc_fee_bps r = 30 \<or>
    rc_adapter r = ''WormholeBridgeAdapter'' \<and> rc_fee_bps r = 10 \<and>
    exact_rate (rc_from_token r) (rc_to_token r) = (1, 1)"
    by (simp add: init_default_routes_def mk_route_def exact_rate_def)
  ultimately show ?thesis by blast
qed

lemma default_token_symbol: "get_token DEFAULT_CONFIG a = Some t \<Longrightarrow> tc_symbol t = a"
  by (auto simp: get_token_def init_default_tokens_def mk_token_def split: if_splits)

lemma default_usdc_sol:
  "\<exists>u. get_token DEFAULT_CONFIG ''USDC'' = Some u \<and> tc_symbol u = ''USDC''"
  "\<exists>s. get_token DEFAULT_CONFIG ''SOL'' = Some s \<and> tc_symbol s = ''SOL''"
  by (simp_all add: get_token_def init_default_tokens_def mk_token_def)

lemma default_quote:
  assumes "router_get_quote (token_router_init DEFAULT_CONFIG) a b amount env = (Inr (Some q), env')"
    and "amount \<le> 150000000000000" and "amount * fst (exact_rate a b) \<le> 2 ^ 53"
  shows "0 < amount \<and> 0 \<le> rq_fee_amount q \<and> rq_fee_amount q \<le> amount \<and>
    rq_to_amount q = (amount - rq_fee_amount q) * fst (exact_rate a b) div snd (exact_rate a b)"
proof -
  from assms(1) obtain f t r where ft: "get_token DEFAULT_CONFIG a = Some f" "get_token DEFAULT_CONFIG b = Some t"
    and r: "get_route DEFAULT_CONFIG a b = Some r"
    by (auto simp: router_get_quote_def split: option.splits)
  have tok: "tc_symbol f = a" "tc_symbol t = b" using ft default_token_symbol by auto
  from default_route [OF r] show ?thesis
  proof (elim disjE conjE)
    assume s: "rc_adapter r = ''SplSwapAdapter''" "rc_fee_bps r = 30"
    with assms(1) ft r have eq: "spl_get_quote f t amount 30 env = (Inr (Some q), env')"
      by (simp add: router_get_quote_def SplSwapAdapter_def)
    then have "0 < amount" using spl.quote_describes by blast
    with spl_quote [of amount 30 f t "fst (exact_rate a b)" "snd (exact_rate a b)" env] eq tok assms(2,3)
    show ?thesis by auto
  next
    assume s: "rc_adapter r = ''WormholeBridgeAdapter''" "rc_fee_bps r = 10" "exact_rate a b = (1, 1)"
    with assms(1) ft r have eq: "wormhole_get_quote f t amount 10 env = (Inr (Some q), env')"
      by (simp add: router_get_quote_def WormholeBridgeAdapter_def)
    have "rq_to_amount q = amount - rq_fee_amount q"
      using eq by (auto simp: wormhole_get_quote_def time_time_def Let_def split: if_splits sum.splits)
    then show ?thesis
      using wormhole.fee_bounds [OF eq] wormhole.quote_describes [OF eq] assms(2) s(3) by simp
  qed
qed

lemma exact_rate_inverse: "exact_rate b a = (snd (exact_rate a b), fst (exact_rate a b))"
  and exact_rate_pos: "0 < fst (exact_rate a b)" "0 < snd (exact_rate a b)"
  and exact_rate_le: "fst (exact_rate a b) \<le> 150"
  by (auto simp: exact_rate_def)

text \<open>
  C10. No round trip through the default routes gains anything: quoting an amount, up to the configured maximum of a million million units, from one token to
  another and quoting the proceeds back never yields more than the amount.
\<close>

theorem no_round_trip_gain:
  assumes "router_get_quote (token_router_init DEFAULT_CONFIG) a b amount env = (Inr (Some q), env1)"
    and "router_get_quote (token_router_init DEFAULT_CONFIG) b a (rq_to_amount q) env2 = (Inr (Some q'), env3)"
    and "amount \<le> 1000000000000"
  shows "rq_to_amount q' \<le> amount"
proof -
  obtain num den where r: "exact_rate a b = (num, den)" by fastforce
  then have r': "exact_rate b a = (den, num)" using exact_rate_inverse [of b a] by simp
  have pos: "0 < num" "0 < den" "num \<le> 150" using exact_rate_pos [of a b] exact_rate_le [of a b] r by auto
  define x where "x = amount - rq_fee_amount q"
  have "amount * num \<le> 1000000000000 * num" using pos assms(3) by (intro mult_right_mono) auto
  also have "\<dots> \<le> 2 ^ 53" using pos by simp
  finally have "amount * num \<le> 2 ^ 53" .
  with default_quote [OF assms(1)] assms(3) r have x: "0 \<le> x" "x \<le> amount" "rq_to_amount q = x * num div den"
    by (auto simp: x_def)
  have xn: "x * num \<le> 1000000000000 * 150" using x pos assms(3) by (intro mult_mono) auto
  moreover have "x * num div den \<le> x * num" using x pos by (metis div_by_1 int_one_le_iff_zero_less mult_nonneg_nonneg order_less_imp_le zdiv_mono2 zero_less_one)
  ultimately have b1: "rq_to_amount q \<le> 150000000000000" using x by simp
  have down_up: "x * num div den * den \<le> x * num" using div_mult_mod_eq [of "x * num" den] pos by (smt (verit) pos_mod_sign)
  then have b2: "rq_to_amount q * fst (exact_rate b a) \<le> 2 ^ 53" using x xn r' by simp
  from default_quote [OF assms(2) b1 b2] r' x obtain g where g: "0 \<le> g" and to: "rq_to_amount q' = (x * num div den - g) * den div num"
    by auto
  have "(x * num div den - g) * den \<le> x * num div den * den" using g pos by (intro mult_right_mono) auto
  also have "\<dots> \<le> x * num" by (rule down_up)
  finally have "rq_to_amount q' \<le> x * num div num" unfolding to using pos by (intro zdiv_mono1)
  then show ?thesis using x pos by simp
qed

theorem no_round_trip_gain_witness:
  "\<exists>q env1 q' env3. router_get_quote (token_router_init DEFAULT_CONFIG) ''USDC'' ''SOL'' 30000 (sample_env []) = (Inr (Some q), env1) \<and>
     router_get_quote (token_router_init DEFAULT_CONFIG) ''SOL'' ''USDC'' (rq_to_amount q) env1 = (Inr (Some q'), env3) \<and>
     rq_to_amount q = 199 \<and> rq_to_amount q' \<le> 30000"
proof -
  let ?r = "token_router_init DEFAULT_CONFIG"
  obtain u s where us: "get_token DEFAULT_CONFIG ''USDC'' = Some u" "get_token DEFAULT_CONFIG ''SOL'' = Some s"
    "tc_symbol u = ''USDC''" "tc_symbol s = ''SOL''" using default_usdc_sol by blast
  have eq: "router_get_quote ?r ''USDC'' ''SOL'' n env = spl_get_quote u s n 30 env"
    "router_get_quote ?r ''SOL'' ''USDC'' n env = spl_get_quote s u n 30 env" for n env
    using us by (simp_all add: router_get_quote_def get_route_def init_default_routes_def mk_route_def SplSwapAdapter_def)
  obtain q env1 where q: "spl_get_quote u s 30000 30 (sample_env []) = (Inr (Some q), env1)" "rq_to_amount q = 199"
    using spl_quote [of 30000 30 u s 1 150 "sample_env []"] us by (auto simp: exact_rate_def)
  obtain q' env3 where q': "spl_get_quote s u 199 30 env1 = (Inr (Some q'), env3)"
    using spl_quote [of 199 30 s u 150 1 env1] us by (auto simp: exact_rate_def)
  show ?thesis
    using no_round_trip_gain [of "''USDC''" "''SOL''" 30000 "sample_env []" q env1 env1 q' env3] q q' by (simp add: eq)
qed

text \<open>
  The router quotes only along an enabled route of its configuration and through the adapter
  registered for it, and writes nothing to the proof book; but the status of the tokens plays no
  part: two configurations that differ only in statuses quote the same.
\<close>

theorem quotes_follow_enabled_routes:
  assumes "router_get_quote (token_router_init c) a b amount env = (Inr (Some q), env')"
  shows "(\<exists>route \<in> set (cfg_routes c). rc_from_token route = a \<and> rc_to_token route = b \<and> rc_enabled route \<and>
      rc_fee_bps route = rq_fee_bps q \<and> rc_adapter route = rq_adapter q) \<and>
    book env' = book env \<and>
    router_get_quote (token_router_init (c\<lparr>cfg_tokens := dmap (\<lambda>t. t\<lparr>tc_status := BLACKLISTED\<rparr>) (cfg_tokens c)\<rparr>)) a b amount env
      = (Inr (Some q), env')"
proof -
  from assms obtain f t r ad where ft: "get_token c a = Some f" "get_token c b = Some t"
    and r: "get_route c a b = Some r" and ad: "dget (tr_adapters (token_router_init c)) (rc_adapter r) = Some ad"
    and v: "adapter_validate_liquidity ad f t amount"
    and q: "adapter_get_quote ad f t amount (rc_fee_bps r) env = (Inr (Some q), env')"
    by (auto simp: router_get_quote_def split: option.splits if_splits)
  have two: "rc_adapter r = ''SplSwapAdapter'' \<and> ad = SplSwapAdapter \<or>
      rc_adapter r = ''WormholeBridgeAdapter'' \<and> ad = WormholeBridgeAdapter"
    using ad by (auto simp: token_router_init_def register_default_adapters_def register_adapter_def
        SplSwapAdapter_def WormholeBridgeAdapter_def split: if_splits)
  have fields: "rq_fee_bps q = rc_fee_bps r \<and> rq_adapter q = rc_adapter r \<and> book env' = book env"
    using two q spl.quote_describes [of f t amount "rc_fee_bps r" env q env'] spl.quote_silent [of f t amount "rc_fee_bps r" env _ env']
      wormhole.quote_describes [of f t amount "rc_fee_bps r" env q env'] wormhole.quote_silent [of f t amount "rc_fee_bps r" env _ env']
    by (auto simp: SplSwapAdapter_def WormholeBridgeAdapter_def)
  have st: "adapter_get_quote ad (f\<lparr>tc_status := x\<rparr>) (t\<lparr>tc_status := x\<rparr>) amount n env = adapter_get_quote ad f t amount n env" for x n
    using two by (auto simp: SplSwapAdapter_def WormholeBridgeAdapter_def spl_get_quote_def wormhole_get_quote_def
        Let_def split: sum.split)
  have "router_get_quote (token_router_init (c\<lparr>cfg_tokens := dmap (\<lambda>t. t\<lparr>tc_status := BLACKLISTED\<rparr>) (cfg_tokens c)\<rparr>)) a b amount env
      = (Inr (Some q), env')"
    using ft r two q st by (auto simp: router_get_quote_def get_token_def get_route_def SplSwapAdapter_def WormholeBridgeAdapter_def)
  moreover have "\<exists>route \<in> set (cfg_routes c). rc_from_token route = a \<and> rc_to_token route = b \<and> rc_enabled route \<and>
      rc_fee_bps route = rq_fee_bps q \<and> rc_adapter route = rq_adapter q"
    using r find_route_Some [of "cfg_routes c" a b r] fields by (auto simp: get_route_def)
  ultimately show ?thesis using fields by blast
qed

theorem quotes_follow_enabled_routes_witness:
  "\<exists>q env'. router_get_quote (token_router_init (DEFAULT_CONFIG\<lparr>cfg_tokens :=
       dmap (\<lambda>t. t\<lparr>tc_status := BLACKLISTED\<rparr>) (cfg_tokens DEFAULT_CONFIG)\<rparr>)) ''SOL'' ''USDC'' 1000 (sample_env [])
       = (Inr (Some q), env') \<and> rq_to_amount q = 149550"
proof -
  obtain u s where us: "get_token DEFAULT_CONFIG ''USDC'' = Some u" "get_token DEFAULT_CONFIG ''SOL'' = Some s"
    "tc_symbol u = ''USDC''" "tc_symbol s = ''SOL''" using default_usdc_sol by blast
  obtain q env' where q: "spl_get_quote s u 1000 30 (sample_env []) = (Inr (Some q), env')" "rq_to_amount q = 149550"
    using spl_quote [of 1000 30 s u 150 1 "sample_env []"] us by (auto simp: exact_rate_def)
  then have "router_get_quote (token_router_init DEFAULT_CONFIG) ''SOL'' ''USDC'' 1000 (sample_env []) = (Inr (Some q), env')"
    using us by (simp add: router_get_quote_def get_route_def init_default_routes_def mk_route_def SplSwapAdapter_def)
  from quotes_follow_enabled_routes [OF this] q(2) show ?thesis by blast
qed

end
