(* ===== verification/Identity.thy ===== *)
theory Identity
  imports Proof_Book
begin

text \<open>
  \<open>membra-l3/membra_l3/identity.py\<close>: links between social identities and addresses, their
  verification and revocation, and the reputation score that sets the risk limits of an address.
\<close>

section \<open>Data\<close>

datatype identity_provider = VENMO | TWITTER | GITHUB | DISCORD | EMAIL | SOLANA_WALLET

fun identity_provider_value :: "identity_provider \<Rightarrow> string" where
  "identity_provider_value VENMO = ''venmo''"
| "identity_provider_value TWITTER = ''twitter''"
| "identity_provider_value GITHUB = ''github''"
| "identity_provider_value DISCORD = ''discord''"
| "identity_provider_value EMAIL = ''email''"
| "identity_provider_value SOLANA_WALLET = ''solana_wallet''"

datatype link_status = PENDING | VERIFIED | REVOKED | FAILED

record identity_link =
  il_link_id :: string
  il_user_address :: string
  il_provider :: identity_provider
  il_external_id :: string
  il_status :: link_status
  il_verified_at :: "pyfloat option"
  il_proof_data :: "json dict"
  il_created_at :: pyfloat

record social_score =
  ss_user_address :: string
  ss_score :: pyfloat
  ss_linked_providers :: int
  ss_account_age_days :: pyfloat
  ss_activity_signals :: int
  ss_risk_flags :: "string list"
  ss_computed_at :: pyfloat
  ss_max_transfer_usd :: pyfloat
  ss_max_fee_credits_usd :: pyfloat

record identity_registry =
  ir_links :: "identity_link dict"
  ir_user_links :: "string list dict"
  ir_provider_index :: "(string dict) dict"
  ir_scores :: "social_score dict"

definition identity_registry_init :: identity_registry where
  "identity_registry_init = \<lparr>ir_links = [], ir_user_links = [], ir_provider_index = [], ir_scores = []\<rparr>"

section \<open>Reading links\<close>

definition get_user_links :: "string \<Rightarrow> identity_registry \<Rightarrow> identity_link list" where
  "get_user_links user r = List.map_filter (dget (ir_links r)) (dget_default (ir_user_links r) user [])"

definition get_verified_providers :: "string \<Rightarrow> identity_registry \<Rightarrow> identity_provider list" where
  "get_verified_providers user r =
     map il_provider (filter (\<lambda>l. il_status l = VERIFIED) (get_user_links user r))"

definition has_venmo_linked :: "string \<Rightarrow> identity_registry \<Rightarrow> bool" where
  "has_venmo_linked user r \<longleftrightarrow> VENMO \<in> set (get_verified_providers user r)"

definition get_venmo_username :: "string \<Rightarrow> identity_registry \<Rightarrow> string option" where
  "get_venmo_username user r =
     map_option il_external_id (find (\<lambda>l. il_provider l = VENMO \<and> il_status l = VERIFIED) (get_user_links user r))"

section \<open>Scoring\<close>

fun provider_weight :: "identity_provider \<Rightarrow> pyfloat" where
  "provider_weight VENMO = mkf (25 / 100)"
| "provider_weight TWITTER = mkf (15 / 100)"
| "provider_weight GITHUB = mkf (20 / 100)"
| "provider_weight DISCORD = mkf (10 / 100)"
| "provider_weight EMAIL = mkf (10 / 100)"
| "provider_weight SOLANA_WALLET = mkf (20 / 100)"

text \<open>The score of a list of verified links.\<close>

definition links_score :: "identity_link list \<Rightarrow> pyfloat" where
  "links_score verified =
     fmin (Fin 1) (foldl (\<lambda>score l. fadd score (provider_weight (il_provider l))) (Fin 0) verified)"

definition links_risk_flags :: "(string dict) dict \<Rightarrow> identity_link list \<Rightarrow> string list" where
  "links_risk_flags idx verified =
     (if length verified = 0 then [''no_verified_identity''] else [])
     @ (if length verified = 1 then [''single_identity_only''] else [])
     @ map (\<lambda>l. ''duplicate_'' @ identity_provider_value (il_provider l))
         (filter (\<lambda>l. dget (dget_default idx (identity_provider_value (il_provider l)) []) (il_external_id l)
            \<noteq> Some (il_link_id l)) verified)"

definition compute_score :: "string \<Rightarrow> identity_registry \<Rightarrow> l3_env \<Rightarrow> social_score \<times> identity_registry \<times> l3_env" where
  "compute_score user r env =
     (let verified = filter (\<lambda>l. il_status l = VERIFIED) (get_user_links user r);
          score = links_score verified;
          (now, env) = time_time env;
          s = \<lparr>ss_user_address = user, ss_score = score, ss_linked_providers = int (length verified),
                ss_account_age_days = Fin 0, ss_activity_signals = 0,
                ss_risk_flags = links_risk_flags (ir_provider_index r) verified, ss_computed_at = now,
                ss_max_transfer_usd = fmul (Fin 1000) score, ss_max_fee_credits_usd = fmul (Fin 10) score\<rparr>
      in (s, r\<lparr>ir_scores := dset user s (ir_scores r)\<rparr>, env))"

definition get_score :: "string \<Rightarrow> identity_registry \<Rightarrow> social_score option" where
  "get_score user r = dget (ir_scores r) user"

definition get_risk_adjusted_limits :: "string \<Rightarrow> identity_registry \<Rightarrow> pyfloat \<times> pyfloat" where
  "get_risk_adjusted_limits user r =
     (case get_score user r of None \<Rightarrow> (Fin 100, Fin 2)
      | Some s \<Rightarrow> (ss_max_transfer_usd s, ss_max_fee_credits_usd s))"

section \<open>Changing links\<close>

text \<open>The part of \<open>link_identity\<close> after the lookup: create, store, index and log the link.\<close>

definition add_link ::
  "string \<Rightarrow> identity_provider \<Rightarrow> string \<Rightarrow> json dict \<Rightarrow> identity_registry \<Rightarrow> l3_env
     \<Rightarrow> identity_link \<times> identity_registry \<times> l3_env" where
  "add_link user provider external_id proof_data r env =
     (let pv = identity_provider_value provider; (u, env) = uuid4_hex env; (now, env) = time_time env;
          l = \<lparr>il_link_id = slice_to 16 u, il_user_address = user, il_provider = provider,
                il_external_id = external_id, il_status = PENDING, il_verified_at = None,
                il_proof_data = proof_data, il_created_at = now\<rparr>;
          r = r\<lparr>ir_links := dset (il_link_id l) l (ir_links r),
                 ir_user_links := dappend user (il_link_id l) (ir_user_links r),
                 ir_provider_index := dset pv (dset external_id (il_link_id l)
                   (dget_default (ir_provider_index r) pv [])) (ir_provider_index r)\<rparr>;
          (e, env) = log_proof IDENTITY_LINK [
            (''action'', JStr ''identity_linked''),
            (''user_address'', JStr user),
            (''provider'', JStr pv),
            (''external_id'', JStr external_id),
            (''link_id'', JStr (il_link_id l))] env
      in (l, r, env))"

text \<open>
  \<open>link_identity\<close>. The test for an existing verified link has an empty body, but it looks the link up
  and raises KeyError if the index names a link that does not exist.
\<close>

definition link_identity ::
  "string \<Rightarrow> identity_provider \<Rightarrow> string \<Rightarrow> json dict \<Rightarrow> identity_registry \<Rightarrow> l3_env
     \<Rightarrow> identity_link result \<times> identity_registry \<times> l3_env" where
  "link_identity user provider external_id proof_data r env =
     (let pv = identity_provider_value provider;
          prov_idx = dget_default (ir_provider_index r) pv [];
          r = r\<lparr>ir_provider_index := dset pv prov_idx (ir_provider_index r)\<rparr>;
          existing = dget_default prov_idx external_id []
      in if existing \<noteq> [] \<and> dget (ir_links r) existing = None then (Inl (KeyError existing), r, env)
         else let (l, r, env) = add_link user provider external_id proof_data r env in (Inr l, r, env))"

definition verify_link :: "string \<Rightarrow> string \<Rightarrow> identity_registry \<Rightarrow> l3_env \<Rightarrow> bool \<times> identity_registry \<times> l3_env" where
  "verify_link lid verifier r env =
     (case dget (ir_links r) lid of None \<Rightarrow> (False, r, env)
      | Some l \<Rightarrow>
          if il_status l \<noteq> PENDING then (False, r, env)
          else let (now, env) = time_time env;
                   r = r\<lparr>ir_links := dset lid (l\<lparr>il_status := VERIFIED, il_verified_at := Some now\<rparr>) (ir_links r)\<rparr>;
                   (e, env) = log_proof IDENTITY_LINK [
                     (''action'', JStr ''identity_verified''),
                     (''link_id'', JStr lid),
                     (''verifier'', JStr verifier)] env;
                   (s, r, env) = compute_score (il_user_address l) r env
               in (True, r, env))"

definition revoke_link :: "string \<Rightarrow> identity_registry \<Rightarrow> l3_env \<Rightarrow> bool \<times> identity_registry \<times> l3_env" where
  "revoke_link lid r env =
     (case dget (ir_links r) lid of None \<Rightarrow> (False, r, env)
      | Some l \<Rightarrow>
          let r = r\<lparr>ir_links := dset lid (l\<lparr>il_status := REVOKED\<rparr>) (ir_links r)\<rparr>;
              (s, r, env) = compute_score (il_user_address l) r env
          in (True, r, env))"

section \<open>The score is a proportion\<close>

lemma provider_weight_range: "\<exists>w. provider_weight p = Fin w \<and> 0 \<le> w"
proof -
  have w: "\<exists>w. mkf x = Fin w \<and> 0 \<le> w" if "0 \<le> x" "x \<le> 1" for x
  proof -
    have "0 \<le> rnd x \<and> rnd x \<le> 1" using f64.le_fixed [of 1 x] f64.int_exact [of 1] that f64.nonneg by auto
    then show ?thesis using f_overflow_big by (intro exI [of _ "rnd x"]) (simp add: mkf_Fin)
  qed
  show ?thesis by (cases p) (simp_all only: provider_weight.simps, (rule w; simp)+)
qed

text \<open>Adding weights never leaves the non-negative numbers, whatever the number of links.\<close>

lemma weight_sum_range:
  "foldl (\<lambda>score l. fadd score (provider_weight (il_provider l))) (Fin 0) ls = PInf \<or>
   (\<exists>w. foldl (\<lambda>score l. fadd score (provider_weight (il_provider l))) (Fin 0) ls = Fin w \<and> 0 \<le> w)"
proof (induction ls rule: rev_induct)
  case Nil
  then show ?case by simp
next
  case (snoc l ls)
  obtain v where v: "provider_weight (il_provider l) = Fin v" "0 \<le> v" using provider_weight_range by blast
  have "mkf (w + v) = PInf \<or> (\<exists>u. mkf (w + v) = Fin u \<and> 0 \<le> u)" if "0 \<le> w" for w
    using rnd_nonneg [of "w + v"] that v f_overflow_big by (auto simp: mkf_def Let_def)
  then have "foldl (\<lambda>score l. fadd score (provider_weight (il_provider l))) (Fin 0) ls = Fin w \<Longrightarrow> 0 \<le> w \<Longrightarrow>
      fadd (Fin w) (Fin v) = PInf \<or> (\<exists>u. fadd (Fin w) (Fin v) = Fin u \<and> 0 \<le> u)" for w by simp
  with snoc v show ?case by (elim disjE exE conjE) simp_all
qed

lemma links_score_range: "\<exists>w. links_score ls = Fin w \<and> 0 \<le> w \<and> w \<le> 1"
  using weight_sum_range [of ls] by (auto simp: links_score_def fmin_def)

text \<open>A scaled proportion stays between zero and the scale.\<close>

lemma scaled_range:
  assumes "0 \<le> w" "w \<le> 1" and "0 \<le> k" "k \<le> 2 ^ 53"
  shows "\<exists>v. fmul (Fin (of_int k)) (Fin w) = Fin v \<and> 0 \<le> v \<and> v \<le> of_int k"
proof -
  have kk: "rnd (of_int k) = of_int k" using assms by (intro f64.int_exact) simp
  have "of_int k * w \<le> of_int k * 1" using assms by (intro mult_left_mono) auto
  then have up: "rnd (of_int k * w) \<le> of_int k" using f64.le_fixed [OF kk] by simp
  have lo: "0 \<le> rnd (of_int k * w)" using assms by (intro rnd_nonneg) simp
  have "(of_int k :: rat) \<le> of_int (2 ^ 53)" using assms(4) by (simp only: of_int_le_iff)
  then have "\<bar>rnd (of_int k * w)\<bar> < f_overflow" using up lo f_overflow_big by simp
  then show ?thesis using up lo by (simp add: mkf_Fin)
qed

section \<open>What each operation does\<close>

definition verified_links :: "string \<Rightarrow> identity_registry \<Rightarrow> identity_link list" where
  "verified_links user r = filter (\<lambda>l. il_status l = VERIFIED) (get_user_links user r)"

text \<open>A score that says what the verified links of its address are worth.\<close>

definition score_ok :: "string \<Rightarrow> identity_registry \<Rightarrow> social_score \<Rightarrow> bool" where
  "score_ok user r s \<longleftrightarrow> ss_user_address s = user \<and> ss_score s = links_score (verified_links user r) \<and>
     ss_linked_providers s = int (length (verified_links user r)) \<and>
     ss_max_transfer_usd s = fmul (Fin 1000) (ss_score s) \<and> ss_max_fee_credits_usd s = fmul (Fin 10) (ss_score s)"

lemma compute_score_effect:
  "\<exists>s env'. compute_score user r env = (s, r\<lparr>ir_scores := dset user s (ir_scores r)\<rparr>, env') \<and> score_ok user r s"
  by (simp add: compute_score_def time_time_def score_ok_def verified_links_def Let_def)

lemma link_identity_effect:
  assumes "link_identity user provider ext pd r env = (res, r', env')"
  defines "pv \<equiv> identity_provider_value provider" and "lid \<equiv> slice_to 16 (uuids env (uuid_pos env))"
  shows "(\<exists>x. res = Inl x \<and> r' = r\<lparr>ir_provider_index := dset pv (dget_default (ir_provider_index r) pv []) (ir_provider_index r)\<rparr> \<and>
        dget_default (dget_default (ir_provider_index r) pv []) ext [] \<noteq> [] \<and>
        dget (ir_links r) (dget_default (dget_default (ir_provider_index r) pv []) ext []) = None) \<or>
    (\<exists>l. res = Inr l \<and> il_link_id l = lid \<and> il_user_address l = user \<and> il_status l = PENDING \<and>
        il_provider l = provider \<and> il_external_id l = ext \<and>
        r' = r\<lparr>ir_links := dset lid l (ir_links r), ir_user_links := dappend user lid (ir_user_links r),
               ir_provider_index := dset pv (dset ext lid (dget_default (ir_provider_index r) pv []))
                 (dset pv (dget_default (ir_provider_index r) pv []) (ir_provider_index r))\<rparr>)"
  using assms(1)
  by (auto simp: link_identity_def add_link_def pv_def lid_def uuid4_hex_def time_time_def Let_def case_prod_beta
      split: if_splits)

lemma verify_effect:
  assumes "verify_link lid verifier r env = (b, r', env')"
  shows "\<not> b \<Longrightarrow> r' = r"
    and "b \<Longrightarrow> \<exists>l l' s. dget (ir_links r) lid = Some l \<and> il_status l = PENDING \<and> il_status l' = VERIFIED \<and>
      il_link_id l' = il_link_id l \<and> il_user_address l' = il_user_address l \<and>
      r' = r\<lparr>ir_links := dset lid l' (ir_links r), ir_scores := dset (il_user_address l) s (ir_scores r)\<rparr> \<and>
      score_ok (il_user_address l) (r\<lparr>ir_links := dset lid l' (ir_links r)\<rparr>) s"
proof -
  show "\<not> b \<Longrightarrow> r' = r"
    using assms by (auto simp: verify_link_def Let_def case_prod_beta split: option.splits if_splits)
  assume b
  with assms obtain l where l: "dget (ir_links r) lid = Some l" "il_status l = PENDING"
    by (auto simp: verify_link_def split: option.splits if_splits)
  let ?l = "l\<lparr>il_status := VERIFIED, il_verified_at := Some (now_of env)\<rparr>"
  let ?r = "r\<lparr>ir_links := dset lid ?l (ir_links r)\<rparr>"
  obtain env2 where "snd (compute_score (il_user_address l) ?r env2) = (r', env')"
    using assms l by (auto simp: verify_link_def time_time_def Let_def case_prod_beta)
  with compute_score_effect [of "il_user_address l" ?r env2] obtain s where
    "r' = ?r\<lparr>ir_scores := dset (il_user_address l) s (ir_scores ?r)\<rparr>" "score_ok (il_user_address l) ?r s"
    by auto
  with l show "\<exists>l l' s. dget (ir_links r) lid = Some l \<and> il_status l = PENDING \<and> il_status l' = VERIFIED \<and>
      il_link_id l' = il_link_id l \<and> il_user_address l' = il_user_address l \<and>
      r' = r\<lparr>ir_links := dset lid l' (ir_links r), ir_scores := dset (il_user_address l) s (ir_scores r)\<rparr> \<and>
      score_ok (il_user_address l) (r\<lparr>ir_links := dset lid l' (ir_links r)\<rparr>) s"
    by (intro exI [of _ l] exI [of _ ?l] exI [of _ s]) simp
qed

lemma revoke_effect:
  assumes "revoke_link lid r env = (b, r', env')"
  shows "\<not> b \<Longrightarrow> r' = r"
    and "b \<Longrightarrow> \<exists>l s. dget (ir_links r) lid = Some l \<and>
      r' = r\<lparr>ir_links := dset lid (l\<lparr>il_status := REVOKED\<rparr>) (ir_links r),
            ir_scores := dset (il_user_address l) s (ir_scores r)\<rparr> \<and>
      score_ok (il_user_address l) (r\<lparr>ir_links := dset lid (l\<lparr>il_status := REVOKED\<rparr>) (ir_links r)\<rparr>) s"
proof -
  show "\<not> b \<Longrightarrow> r' = r"
    using assms by (auto simp: revoke_link_def Let_def case_prod_beta split: option.splits)
  assume b
  with assms obtain l where l: "dget (ir_links r) lid = Some l"
    by (auto simp: revoke_link_def split: option.splits)
  with assms compute_score_effect [of "il_user_address l" "r\<lparr>ir_links := dset lid (l\<lparr>il_status := REVOKED\<rparr>) (ir_links r)\<rparr>" env]
  show "\<exists>l s. dget (ir_links r) lid = Some l \<and>
      r' = r\<lparr>ir_links := dset lid (l\<lparr>il_status := REVOKED\<rparr>) (ir_links r),
            ir_scores := dset (il_user_address l) s (ir_scores r)\<rparr> \<and>
      score_ok (il_user_address l) (r\<lparr>ir_links := dset lid (l\<lparr>il_status := REVOKED\<rparr>) (ir_links r)\<rparr>) s"
    by (auto simp: revoke_link_def Let_def)
qed

section \<open>Runs of the registry\<close>

inductive id_step :: "identity_registry \<times> l3_env \<Rightarrow> identity_registry \<times> l3_env \<Rightarrow> bool" where
  is_link: "dget (ir_links r) (slice_to 16 (uuids env (uuid_pos env))) = None \<Longrightarrow>
     link_identity user provider ext pd r env = (res, r', env') \<Longrightarrow> id_step (r, env) (r', env')"
| is_verify: "verify_link lid verifier r env = (b, r', env') \<Longrightarrow> id_step (r, env) (r', env')"
| is_revoke: "revoke_link lid r env = (b, r', env') \<Longrightarrow> id_step (r, env) (r', env')"
| is_other: "id_step (r, env) (r, env')"

abbreviation link_ids :: "identity_registry \<Rightarrow> string \<Rightarrow> string list" where
  "link_ids r user \<equiv> dget_default (ir_user_links r) user []"

definition id_inv :: "identity_registry \<Rightarrow> bool" where
  "id_inv r \<longleftrightarrow>
     (\<forall>u lid. lid \<in> set (link_ids r u) \<longrightarrow> (\<exists>l. dget (ir_links r) lid = Some l \<and> il_user_address l = u)) \<and>
     (\<forall>pv ext lid. dget (dget_default (ir_provider_index r) pv []) ext = Some lid \<longrightarrow> dget (ir_links r) lid \<noteq> None) \<and>
     (\<forall>u. case dget (ir_scores r) u of None \<Rightarrow> verified_links u r = [] | Some s \<Rightarrow> score_ok u r s)"

lemma id_inv_init: "id_inv identity_registry_init"
  by (simp add: id_inv_def identity_registry_init_def dget_default_def verified_links_def get_user_links_def
      List.map_filter_def)

text \<open>Changing one link concerns only the address it belongs to.\<close>

lemma verified_links_other:
  assumes "id_inv r" and "dget (ir_links r) lid = Some l" and "u \<noteq> il_user_address l"
  shows "verified_links u (r\<lparr>ir_links := dset lid l' (ir_links r)\<rparr>) = verified_links u r"
proof -
  have "lid \<notin> set (link_ids r u)" using assms unfolding id_inv_def by fastforce
  then have "List.map_filter (dget (dset lid l' (ir_links r))) (link_ids r u) = List.map_filter (dget (ir_links r)) (link_ids r u)"
    by (intro map_filter_same) auto
  then show ?thesis by (simp add: verified_links_def get_user_links_def)
qed

lemma id_inv_change:
  assumes "id_inv r" and "dget (ir_links r) lid = Some l" and "il_user_address l' = il_user_address l"
    and "score_ok (il_user_address l) (r\<lparr>ir_links := dset lid l' (ir_links r)\<rparr>) s"
  shows "id_inv (r\<lparr>ir_links := dset lid l' (ir_links r), ir_scores := dset (il_user_address l) s (ir_scores r)\<rparr>)"
    (is "id_inv ?r")
proof -
  have same: "verified_links u ?r = verified_links u (r\<lparr>ir_links := dset lid l' (ir_links r)\<rparr>)" for u
    by (simp add: verified_links_def get_user_links_def)
  have "case dget (ir_scores ?r) u of None \<Rightarrow> verified_links u ?r = [] | Some s \<Rightarrow> score_ok u ?r s" for u
  proof (cases "u = il_user_address l")
    case True
    then show ?thesis using assms(4) by (simp add: score_ok_def same)
  next
    case False
    have "verified_links u ?r = verified_links u r"
      unfolding same by (rule verified_links_other [OF assms(1,2) False])
    moreover have "case dget (ir_scores r) u of None \<Rightarrow> verified_links u r = [] | Some s \<Rightarrow> score_ok u r s"
      using assms(1) unfolding id_inv_def by blast
    ultimately show ?thesis using False by (simp add: score_ok_def split: option.splits)
  qed
  moreover have "\<exists>k. dget (ir_links ?r) lid' = Some k \<and> il_user_address k = u" if "lid' \<in> set (link_ids ?r u)" for lid' u
  proof -
    have "\<exists>k. dget (ir_links r) lid' = Some k \<and> il_user_address k = u"
      using that assms(1) unfolding id_inv_def by simp
    then show ?thesis using assms(2,3) by auto
  qed
  moreover have "dget (ir_links ?r) lid' \<noteq> None"
    if "dget (dget_default (ir_provider_index ?r) pv []) ext = Some lid'" for pv ext lid'
    using that assms(1) unfolding id_inv_def by simp
  ultimately show ?thesis unfolding id_inv_def by blast
qed

lemma id_inv_link:
  assumes "id_inv r" and "dget (ir_links r) lid = None" and "il_user_address l = user" and "il_status l = PENDING"
  shows "id_inv (r\<lparr>ir_links := dset lid l (ir_links r), ir_user_links := dappend user lid (ir_user_links r),
    ir_provider_index := dset pv (dset ext lid (dget_default (ir_provider_index r) pv []))
      (dset pv (dget_default (ir_provider_index r) pv []) (ir_provider_index r))\<rparr>)"
    (is "id_inv ?r")
proof -
  have new: "lid \<notin> set (link_ids r u)" for u using assms(1,2) unfolding id_inv_def by fastforce
  have ids: "link_ids ?r u = (if u = user then link_ids r u @ [lid] else link_ids r u)" for u
    by (simp add: dget_default_def)
  have old: "List.map_filter (dget (dset lid l (ir_links r))) (link_ids r u) = List.map_filter (dget (ir_links r)) (link_ids r u)" for u
    using new by (intro map_filter_same) auto
  have ver: "verified_links u ?r = verified_links u r" for u
    unfolding verified_links_def get_user_links_def ids by (simp add: old assms(4))
  have a: "\<exists>k. dget (ir_links ?r) lid' = Some k \<and> il_user_address k = u" if "lid' \<in> set (link_ids ?r u)" for lid' u
    using that assms(1,3) new [of u] unfolding id_inv_def ids by (auto split: if_splits)
  have b: "dget (ir_links ?r) lid' \<noteq> None"
    if "dget (dget_default (ir_provider_index ?r) pv' []) ext' = Some lid'" for pv' ext' lid'
  proof -
    have "lid' = lid \<or> dget (dget_default (ir_provider_index r) pv' []) ext' = Some lid'"
      using that by (auto split: if_splits)
    then show ?thesis using assms(1) unfolding id_inv_def by auto
  qed
  have c: "case dget (ir_scores ?r) u of None \<Rightarrow> verified_links u ?r = [] | Some s \<Rightarrow> score_ok u ?r s" for u
  proof -
    have "case dget (ir_scores r) u of None \<Rightarrow> verified_links u r = [] | Some s \<Rightarrow> score_ok u r s"
      using assms(1) unfolding id_inv_def by blast
    then show ?thesis unfolding score_ok_def ver by simp
  qed
  show ?thesis unfolding id_inv_def using a b c by blast
qed

lemma id_step_inv: "id_step s t \<Longrightarrow> id_inv (fst s) \<Longrightarrow> id_inv (fst t)"
proof (induction rule: id_step.induct)
  case (is_link r env user provider ext pd res r' env')
  have "\<not> (\<exists>x. res = Inl x)"
  proof
    assume "\<exists>x. res = Inl x"
    then obtain lid where "dget (dget_default (ir_provider_index r) (identity_provider_value provider) []) ext = Some lid"
      and "dget (ir_links r) lid = None"
      using link_identity_effect [OF is_link(2)] by (auto simp: dget_default_def split: option.splits)
    then show False using is_link(3) unfolding id_inv_def fst_conv by blast
  qed
  with link_identity_effect [OF is_link(2)] obtain l where l: "il_user_address l = user" "il_status l = PENDING"
    and r': "r' = r\<lparr>ir_links := dset (slice_to 16 (uuids env (uuid_pos env))) l (ir_links r),
      ir_user_links := dappend user (slice_to 16 (uuids env (uuid_pos env))) (ir_user_links r),
      ir_provider_index := dset (identity_provider_value provider) (dset ext (slice_to 16 (uuids env (uuid_pos env)))
          (dget_default (ir_provider_index r) (identity_provider_value provider) []))
        (dset (identity_provider_value provider) (dget_default (ir_provider_index r) (identity_provider_value provider) [])
          (ir_provider_index r))\<rparr>" by blast
  have "id_inv r" using is_link(3) by simp
  from id_inv_link [OF this is_link(1) l] show ?case unfolding r' fst_conv .
next
  case (is_verify lid verifier r env b r' env')
  then show ?case
    using verify_effect [OF is_verify(1)] id_inv_change [of r lid] by (cases b) fastforce+
next
  case (is_revoke lid r env b r' env')
  then show ?case
    using revoke_effect [OF is_revoke(1)] id_inv_change [of r lid] by (cases b) fastforce+
qed simp

interpretation id_calls: component_invariant id_step id_inv
  by unfold_locales (rule id_step_inv)

lemma id_run_inv: "id_step\<^sup>*\<^sup>* s t \<Longrightarrow> id_inv (fst s) \<Longrightarrow> id_inv (fst t)"
  by (rule id_calls.run_ok)

section \<open>The life of a link\<close>

definition link_edge :: "link_status \<Rightarrow> link_status \<Rightarrow> bool" where
  "link_edge a b \<longleftrightarrow> a = PENDING \<and> b = VERIFIED \<or> a \<noteq> REVOKED \<and> b = REVOKED"

definition link_status_of :: "identity_registry \<times> l3_env \<Rightarrow> string \<Rightarrow> link_status option" where
  "link_status_of s lid = map_option il_status (dget (ir_links (fst s)) lid)"

lemma id_step_link:
  assumes "id_step (r, env) (r', env')" and "dget (ir_links r) lid = Some l"
  shows "\<exists>l'. dget (ir_links r') lid = Some l' \<and> (il_status l' = il_status l \<or> link_edge (il_status l) (il_status l'))"
  using assms(1)
proof (cases rule: id_step.cases)
  case (is_link user provider ext pd res)
  then show ?thesis using link_identity_effect [OF is_link(2)] assms(2) by auto
next
  case (is_verify lid' verifier b)
  show ?thesis
  proof (cases b)
    case False
    then show ?thesis using verify_effect(1) [OF is_verify] assms(2) by auto
  next
    case True
    then show ?thesis using verify_effect(2) [OF is_verify] assms(2) by (auto simp: link_edge_def)
  qed
next
  case (is_revoke lid' b)
  show ?thesis
  proof (cases b)
    case False
    then show ?thesis using revoke_effect(1) [OF is_revoke] assms(2) by auto
  next
    case True
    then show ?thesis using revoke_effect(2) [OF is_revoke] assms(2) by (auto simp: link_edge_def)
  qed
next
  case is_other
  then show ?thesis using assms(2) by auto
qed

interpretation link: lifecycle link_status_of id_step link_edge
proof
  fix s t lid a
  assume "id_step s t" and "link_status_of s lid = Some a"
  then show "\<exists>b. link_status_of t lid = Some b \<and> (b = a \<or> link_edge a b)"
    using id_step_link [of "fst s" "snd s" "fst t" "snd t" lid] by (fastforce simp: link_status_of_def)
qed

section \<open>Properties\<close>

text \<open>
  The risk limits are bounded and follow the links: in every run from an empty registry, the
  transfer limit of any address lies between 0 and 1000 dollars and its fee credit limit between 0 and
  10, and a stored score is exactly the score of the links that are verified now.
\<close>

theorem risk_limits_bounded:
  assumes "id_step\<^sup>*\<^sup>* (identity_registry_init, env) (r, env')"
  shows "(\<exists>t c. get_risk_adjusted_limits user r = (Fin t, Fin c) \<and> 0 \<le> t \<and> t \<le> 1000 \<and> 0 \<le> c \<and> c \<le> 10) \<and>
    (\<forall>s. get_score user r = Some s \<longrightarrow>
       ss_score s = links_score (filter (\<lambda>l. il_status l = VERIFIED) (get_user_links user r)))"
proof -
  have "id_inv r" using id_run_inv [OF assms] id_inv_init by simp
  then have sc: "case dget (ir_scores r) user of None \<Rightarrow> verified_links user r = [] | Some s \<Rightarrow> score_ok user r s"
    unfolding id_inv_def by blast
  obtain w where w: "links_score (verified_links user r) = Fin w" "0 \<le> w" "w \<le> 1" using links_score_range by blast
  show ?thesis
    using sc w scaled_range [of w 1000] scaled_range [of w 10]
    by (auto simp: get_risk_adjusted_limits_def get_score_def score_ok_def verified_links_def split: option.splits)
qed

theorem risk_limits_bounded_witness:
  "\<exists>r env' t c. id_step\<^sup>*\<^sup>* (identity_registry_init, sample_env []) (r, env') \<and> ir_links r \<noteq> [] \<and>
     get_risk_adjusted_limits ''u'' r = (Fin t, Fin c) \<and> t \<le> 1000"
proof -
  obtain res r env' where l: "link_identity ''u'' GITHUB ''me'' [] identity_registry_init (sample_env []) = (res, r, env')"
    by (metis prod_cases3)
  then have run: "id_step\<^sup>*\<^sup>* (identity_registry_init, sample_env []) (r, env')"
    by (intro r_into_rtranclp is_link) (auto simp: identity_registry_init_def)
  have "ir_links r \<noteq> []"
    using l by (auto simp: link_identity_def add_link_def identity_registry_init_def dget_default_def Let_def case_prod_beta)
  with risk_limits_bounded [OF run, of "''u''"] run show ?thesis by blast
qed

text \<open>
  A revoked link never counts again: it stays revoked through every run of calls, and in every
  later state an attempt to verify it is refused and changes nothing.
\<close>

theorem revoked_link_is_final:
  assumes "id_step\<^sup>*\<^sup>* (r, env) (r', env')" and "dget (ir_links r) lid = Some l" and "il_status l = REVOKED"
  shows "(\<exists>l'. dget (ir_links r') lid = Some l' \<and> il_status l' = REVOKED) \<and>
    verify_link lid verifier r' env2 = (False, r', env2)"
proof -
  have "link_status_of (r', env') lid = Some REVOKED"
    using link.final_stays [OF assms(1), of lid REVOKED] assms(2,3)
    by (simp add: link_status_of_def link_edge_def)
  then show ?thesis by (auto simp: link_status_of_def verify_link_def)
qed

text \<open>A registry with one verified link, for concrete runs.\<close>

definition sample_registry :: identity_registry where
  "sample_registry = \<lparr>ir_links = [(''l1'', \<lparr>il_link_id = ''l1'', il_user_address = ''u'', il_provider = GITHUB,
       il_external_id = ''me'', il_status = VERIFIED, il_verified_at = Some (Fin 0), il_proof_data = [],
       il_created_at = Fin 0\<rparr>)],
     ir_user_links = [(''u'', [''l1''])], ir_provider_index = [(''github'', [(''me'', ''l1'')])], ir_scores = []\<rparr>"

theorem revoked_link_is_final_witness:
  "\<exists>r env'. revoke_link ''l1'' sample_registry (sample_env []) = (True, r, env') \<and>
     get_risk_adjusted_limits ''u'' r = (Fin 0, Fin 0) \<and> verify_link ''l1'' ''v'' r env' = (False, r, env')"
proof -
  obtain b r env' where v: "revoke_link ''l1'' sample_registry (sample_env []) = (b, r, env')" by (metis prod_cases3)
  have b: b and lim: "get_risk_adjusted_limits ''u'' r = (Fin 0, Fin 0)"
    and l: "\<exists>l. dget (ir_links r) ''l1'' = Some l \<and> il_status l = REVOKED"
    using v by (auto simp: revoke_link_def sample_registry_def compute_score_def get_user_links_def List.map_filter_def
        dget_default_def links_score_def fmin_def time_time_def get_risk_adjusted_limits_def get_score_def Let_def)
  from l revoked_link_is_final [OF rtranclp.rtrancl_refl, of r "''l1''" _ "''v''" env'] v b lim show ?thesis by auto
qed

end
