(* ===== verification/Relayer.thy ===== *)
theory Relayer
  imports Vault_Runs Intent_Network Token_Router Identity "HOL-Library.Multiset"
begin

text \<open>
  \<open>membra-l3/membra_l3/relayer.py\<close>: finding claimable intents, choosing the sender's fee credits, and
  the relay itself, which runs through the identity registry, the gas vault and the intent network.
  The module singletons it calls are the fields of one state.
\<close>

section \<open>Data\<close>

record relayer_config =
  rlc_relayer_address :: string
  min_profit_lamports :: int
  max_gas_per_tx :: int
  supported_tokens :: "string list"
  blacklisted_users :: "string list"

record relay_result =
  rr_success :: bool
  rr_intent_id :: string
  rr_tx_signature :: "string option"
  rr_gas_spent_lamports :: int
  rr_reimbursement_lamports :: int
  rr_profit_lamports :: int
  rr_error :: "string option"

record relayer =
  rl_config :: relayer_config
  rl_l3_config :: l3_config
  rl_relayed_count :: int
  rl_total_profit_lamports :: int
  rl_total_gas_spent :: int

definition relayer_init :: "relayer_config \<Rightarrow> l3_config \<Rightarrow> relayer" where
  "relayer_init c l3 = \<lparr>rl_config = c, rl_l3_config = l3, rl_relayed_count = 0, rl_total_profit_lamports = 0,
     rl_total_gas_spent = 0\<rparr>"

text \<open>The singletons of the process.\<close>

record l3_world =
  w_env :: l3_env
  w_vault :: gas_vault
  w_net :: intent_network
  w_ids :: identity_registry
  w_router :: token_router

text \<open>A result with the defaults of the dataclass.\<close>

definition relay_failure :: "string \<Rightarrow> string \<Rightarrow> relay_result" where
  "relay_failure iid err = \<lparr>rr_success = False, rr_intent_id = iid, rr_tx_signature = None,
     rr_gas_spent_lamports = 0, rr_reimbursement_lamports = 0, rr_profit_lamports = 0, rr_error = Some err\<rparr>"

section \<open>Choosing intents and credits\<close>

fun find_loop :: "relayer_config \<Rightarrow> payment_intent list \<Rightarrow> l3_env \<Rightarrow> payment_intent list \<times> l3_env" where
  "find_loop c [] env = ([], env)"
| "find_loop c (i # is) env =
     (let (ok, env) = is_claimable i env
      in if \<not> ok then find_loop c is env
         else if pay_sender_address i \<in> set (blacklisted_users c) then find_loop c is env
         else if pay_token_symbol i \<notin> set (supported_tokens c) then find_loop c is env
         else let (r, env) = find_loop c is env in (i # r, env))"

definition find_claimable_intents :: "relayer \<Rightarrow> l3_world \<Rightarrow> payment_intent list \<times> l3_world" where
  "find_claimable_intents rl w =
     (let (is, env) = find_loop (rl_config rl) (dvalues (net_intents (w_net w))) (w_env w) in (is, w\<lparr>w_env := env\<rparr>))"

definition estimate_gas :: "payment_intent \<Rightarrow> int" where
  "estimate_gas i = (if pay_token_symbol i \<noteq> ''SOL'' then 5000 + 10000 else 5000)"

fun select_loop :: "int \<Rightarrow> int \<Rightarrow> fee_credit list \<Rightarrow> fee_credit list" where
  "select_loop needed acc [] = []"
| "select_loop needed acc (c # cs) =
     (let acc = acc + fc_amount_lamports c in if needed \<le> acc then [c] else c # select_loop needed acc cs)"

definition select_credits :: "relayer \<Rightarrow> fee_credit list \<Rightarrow> int \<Rightarrow> fee_credit list" where
  "select_credits rl credits gas_needed =
     select_loop (gas_needed + min_profit_lamports (rl_config rl)) 0
       (sort_key fc_amount_lamports (filter (\<lambda>c. fc_status c = ACTIVE) credits))"

section \<open>The relay\<close>

text \<open>The dollar value of an intent, with the fixed prices of the source. Decimals are not negative.\<close>

definition amount_usd :: "payment_intent \<Rightarrow> token_config \<Rightarrow> pyfloat result" where
  "amount_usd i tok =
     (case truediv (pay_amount i) (10 ^ nat (tc_decimals tok)) of Inl x \<Rightarrow> Inl x
      | Inr x \<Rightarrow> Inr (if pay_token_symbol i = ''SOL'' then fmul x (Fin 150)
          else if pay_token_symbol i = ''MEMBRA'' then fmul x (mkf (1 / 100)) else x))"

text \<open>Step 1: the risk limit of the sender, None if the intent is within it.\<close>

definition risk_check :: "relayer \<Rightarrow> payment_intent \<Rightarrow> l3_world \<Rightarrow> relay_result option result" where
  "risk_check rl i w =
     (let max_transfer = fst (get_risk_adjusted_limits (pay_sender_address i) (w_ids w))
      in case get_token (rl_l3_config rl) (pay_token_symbol i) of None \<Rightarrow> Inr None
       | Some tok \<Rightarrow>
           (case amount_usd i tok of Inl x \<Rightarrow> Inl x
            | Inr usd \<Rightarrow> Inr (if flt max_transfer usd
                then Some (relay_failure (pay_intent_id i)
                  (''Exceeds risk limit: $'' @ ffixed 2 usd @ '' > $'' @ ffixed 2 max_transfer))
                else None)))"

text \<open>Steps 6 to 9: claim, settle, get reimbursed and keep the books.\<close>

definition settle_intent ::
  "relayer \<Rightarrow> payment_intent \<Rightarrow> int \<Rightarrow> fee_credit list \<Rightarrow> string option \<Rightarrow> l3_world
     \<Rightarrow> relay_result result \<times> relayer \<times> l3_world" where
  "settle_intent rl i estimated_gas credits_to_use route_tx w =
     (let iid = pay_intent_id i; relayer = rlc_relayer_address (rl_config rl);
          profit = sum_list (map fc_amount_lamports credits_to_use) - estimated_gas;
          (claimed, net, env) = claim_intent iid relayer (w_net w) (w_env w);
          w = w\<lparr>w_net := net, w_env := env\<rparr>
      in case claimed of None \<Rightarrow> (Inr (relay_failure iid ''Failed to claim intent''), rl, w)
       | Some _ \<Rightarrow>
           let (tx_sig, env) = (case route_tx of Some tx \<Rightarrow> if tx \<noteq> [] then (tx, w_env w)
                                   else let (u, env) = uuid4_hex (w_env w) in (slice_to 44 u, env)
                                | None \<Rightarrow> let (u, env) = uuid4_hex (w_env w) in (slice_to 44 u, env));
               credit_ids = map fc_credit_id credits_to_use;
               (ok, net, env) = confirm_settlement iid tx_sig relayer credit_ids (w_net w) env;
               (rb, vault, env) = reimburse_relayer relayer tx_sig credit_ids (w_vault w) env;
               w = w\<lparr>w_net := net, w_vault := vault, w_env := env\<rparr>
           in case rb of Inl x \<Rightarrow> (Inl x, rl, w)
            | Inr None \<Rightarrow> (Inr (relay_failure iid ''Reimbursement failed''), rl, w)
            | Inr (Some b) \<Rightarrow>
                (Inr \<lparr>rr_success = True, rr_intent_id = iid, rr_tx_signature = Some tx_sig,
                   rr_gas_spent_lamports = estimated_gas, rr_reimbursement_lamports = rb_amount_lamports b,
                   rr_profit_lamports = profit, rr_error = None\<rparr>,
                 rl\<lparr>rl_relayed_count := rl_relayed_count rl + 1,
                    rl_total_profit_lamports := rl_total_profit_lamports rl + profit,
                    rl_total_gas_spent := rl_total_gas_spent rl + estimated_gas\<rparr>, w))"

text \<open>Steps 3 to 5: the credits of the sender, the gas limit and the profit.\<close>

definition fund_intent ::
  "relayer \<Rightarrow> payment_intent \<Rightarrow> string option \<Rightarrow> l3_world \<Rightarrow> relay_result result \<times> relayer \<times> l3_world" where
  "fund_intent rl i route_tx w =
     (let iid = pay_intent_id i;
          (user_credits, vault, env) = get_user_credits (pay_sender_address i) (w_vault w) (w_env w);
          w = w\<lparr>w_vault := vault, w_env := env\<rparr>
      in if user_credits = [] then (Inr (relay_failure iid ''No fee credits available''), rl, w)
         else let estimated_gas = estimate_gas i
         in if max_gas_per_tx (rl_config rl) < estimated_gas
            then (Inr (relay_failure iid (''Gas too high: '' @ dec_int estimated_gas @ '' > ''
                    @ dec_int (max_gas_per_tx (rl_config rl)))), rl, w)
         else let credits_to_use = select_credits rl user_credits estimated_gas;
                  profit = sum_list (map fc_amount_lamports credits_to_use) - estimated_gas
         in if profit < min_profit_lamports (rl_config rl)
            then (Inr (relay_failure iid (''Not profitable: '' @ dec_int profit @ '' lamports < ''
                    @ dec_int (min_profit_lamports (rl_config rl)))), rl, w)
         else settle_intent rl i estimated_gas credits_to_use route_tx w)"

text \<open>
  The whole relay. Step 2 compares the token of the intent with itself, so its body never runs; it is
  kept as the source has it.
\<close>

definition relay_intent :: "relayer \<Rightarrow> payment_intent \<Rightarrow> l3_world \<Rightarrow> relay_result result \<times> relayer \<times> l3_world" where
  "relay_intent rl i w =
     (case risk_check rl i w of Inl x \<Rightarrow> (Inl x, rl, w)
      | Inr (Some failure) \<Rightarrow> (Inr failure, rl, w)
      | Inr None \<Rightarrow>
          if pay_token_symbol i \<noteq> pay_token_symbol i
          then (let (q, env) = router_get_quote (w_router w) (pay_token_symbol i) (pay_token_symbol i) (pay_amount i) (w_env w);
                    w = w\<lparr>w_env := env\<rparr>
                in case q of Inl x \<Rightarrow> (Inl x, rl, w)
                 | Inr None \<Rightarrow> (Inr (relay_failure (pay_intent_id i) ''No route available''), rl, w)
                 | Inr (Some quote) \<Rightarrow>
                     let (tx, env) = router_execute_route (w_router w) quote (pay_sender_address i) (pay_receiver_address i) (w_env w)
                     in fund_intent rl i tx (w\<lparr>w_env := env\<rparr>))
          else fund_intent rl i None w)"

fun relay_loop ::
  "relayer \<Rightarrow> payment_intent list \<Rightarrow> l3_world \<Rightarrow> relay_result list result \<times> relayer \<times> l3_world" where
  "relay_loop rl [] w = (Inr [], rl, w)"
| "relay_loop rl (i # is) w =
     (let (r, rl, w) = relay_intent rl i w
      in case r of Inl x \<Rightarrow> (Inl x, rl, w)
       | Inr res \<Rightarrow>
           let (rs, rl, w) = relay_loop rl is w
           in (case rs of Inl x \<Rightarrow> Inl x | Inr results \<Rightarrow> Inr (res # results), rl, w))"

definition relay_all_profitable :: "relayer \<Rightarrow> l3_world \<Rightarrow> relay_result list result \<times> relayer \<times> l3_world" where
  "relay_all_profitable rl w = (let (is, w) = find_claimable_intents rl w in relay_loop rl is w)"

definition relayer_stats :: "relayer \<Rightarrow> json dict result" where
  "relayer_stats rl =
     (case of_pyint (rl_total_profit_lamports rl) of Inl x \<Rightarrow> Inl x
      | Inr p \<Rightarrow> (case fdiv p (Fin 1000000000) of Inl x \<Rightarrow> Inl x
      | Inr sol \<Rightarrow> Inr [(''relayer_address'', JStr (rlc_relayer_address (rl_config rl))),
            (''relayed_count'', JInt (rl_relayed_count rl)),
            (''total_profit_lamports'', JInt (rl_total_profit_lamports rl)),
            (''total_gas_spent'', JInt (rl_total_gas_spent rl)),
            (''net_profit_sol'', JFloat sol)]))"

section \<open>The choice of credits\<close>

lemma select_loop_prefix: "\<exists>k. select_loop n acc cs = take k cs"
proof (induction cs arbitrary: acc)
  case (Cons c cs)
  then obtain k where "select_loop n (acc + fc_amount_lamports c) cs = take k cs" by blast
  then show ?case by (auto simp: Let_def intro: exI [of _ "Suc 0"] exI [of _ "Suc k"])
qed simp

lemma select_loop_short:
  "acc + sum_list (map fc_amount_lamports (select_loop n acc cs)) < n \<Longrightarrow> select_loop n acc cs = cs"
  by (induction cs arbitrary: acc) (auto simp: Let_def split: if_splits)

lemma select_loop_minimal:
  "acc < n \<Longrightarrow> acc + sum_list (map fc_amount_lamports (butlast (select_loop n acc cs))) < n"
proof (induction cs arbitrary: acc)
  case (Cons c cs)
  show ?case
  proof (cases "n \<le> acc + fc_amount_lamports c \<or> select_loop n (acc + fc_amount_lamports c) cs = []")
    case True
    then show ?thesis using Cons.prems by (auto simp: Let_def)
  next
    case False
    then show ?thesis using Cons.IH [of "acc + fc_amount_lamports c"] by (simp add: Let_def add.assoc)
  qed
qed simp

lemma select_credits_distinct:
  assumes "distinct (map fc_credit_id cs)"
  shows "distinct (map fc_credit_id (select_credits rl cs gas)) \<and>
    set (select_credits rl cs gas) \<subseteq> {c \<in> set cs. fc_status c = ACTIVE}"
proof -
  let ?s = "sort_key fc_amount_lamports (filter (\<lambda>c. fc_status c = ACTIVE) cs)"
  obtain k where k: "select_credits rl cs gas = take k ?s"
    using select_loop_prefix unfolding select_credits_def by blast
  have "distinct (map fc_credit_id (filter (\<lambda>c. fc_status c = ACTIVE) cs))"
    using assms by (rule distinct_map_filter)
  then have "distinct (map fc_credit_id ?s)"
    by (simp add: distinct_map inj_on_def)
  then have "distinct (take k (map fc_credit_id ?s))" by (rule distinct_take)
  then have "distinct (map fc_credit_id (take k ?s))" by (simp only: take_map)
  moreover have "set (take k ?s) \<subseteq> {c \<in> set cs. fc_status c = ACTIVE}"
    using set_take_subset [of k ?s] by simp
  ultimately show ?thesis unfolding k by blast
qed

section \<open>The credits of a user\<close>

lemma get_user_credits_sound:
  assumes "gv_ok gv" and "get_user_credits user gv env = (cs, gv', env')"
  shows "gv' = expire_at (now_of env) gv" and "distinct (map fc_credit_id cs)"
    and "c \<in> set cs \<Longrightarrow> dget (gv_credits gv') (fc_credit_id c) = Some c \<and> fc_status c = ACTIVE \<and> fc_user_address c = user"
proof -
  show gv': "gv' = expire_at (now_of env) gv" using get_user_credits_vault [OF assms(2)] .
  have ok: "gv_ok gv'"
    unfolding gv' by (rule gv_ok_le [OF vault_le_expire assms(1)]) (use assms(1) in \<open>simp only: gv_ok_def expire_at_simps\<close>)
  have cs: "cs = filter (\<lambda>c. fc_status c = ACTIVE) (List.map_filter (dget (gv_credits gv')) (ids_of gv' user))"
    using assms(2) unfolding gv' by (auto simp: get_user_credits_def vault_helpers ids_of_def simp del: dget_dmap)
  have ids: "\<exists>c. dget (gv_credits gv') k = Some c \<and> fc_credit_id c = k \<and> fc_user_address c = user" if "k \<in> set (ids_of gv' user)" for k
    using gv_ok_ids [OF ok that] gv_ok_credit [OF ok] by blast
  have "map fc_credit_id (List.map_filter (dget (gv_credits gv')) ks) = ks" if "set ks \<subseteq> set (ids_of gv' user)" for ks
    using that
  proof (induction ks)
    case (Cons k ks)
    then show ?case using ids [of k] by (auto simp: List.map_filter_def)
  qed (simp add: List.map_filter_def)
  then have "map fc_credit_id (List.map_filter (dget (gv_credits gv')) (ids_of gv' user)) = ids_of gv' user" by blast
  moreover have "distinct (ids_of gv' user)" using ok unfolding gv_ok_def by blast
  ultimately show "distinct (map fc_credit_id cs)" unfolding cs by (simp add: distinct_map_filter)
  assume "c \<in> set cs"
  then obtain k where "k \<in> set (ids_of gv' user)" "dget (gv_credits gv') k = Some c" "fc_status c = ACTIVE"
    unfolding cs by (auto simp: List.map_filter_def)
  with ids show "dget (gv_credits gv') (fc_credit_id c) = Some c \<and> fc_status c = ACTIVE \<and> fc_user_address c = user"
    by fastforce
qed

text \<open>Stored, active credits with different identifiers are worth the sum of their amounts.\<close>

lemma act_sum:
  assumes "distinct (map fc_credit_id cs)"
    and "\<And>c. c \<in> set cs \<Longrightarrow> dget d (fc_credit_id c) = Some c \<and> fc_status c = ACTIVE"
  shows "(\<Sum>k \<in> set (map fc_credit_id cs). act d k) = sum_list (map fc_amount_lamports cs)"
  using assms
proof (induction cs)
  case (Cons c cs)
  then show ?case by (auto simp: act_def active_lamports_def)
qed simp

section \<open>A relay is a run of the components\<close>

text \<open>
  From one state to another the vault and the network only went through calls of their own, and the
  identities and the router are untouched.
\<close>

definition world_run :: "l3_world \<Rightarrow> l3_world \<Rightarrow> bool" where
  "world_run w w' \<longleftrightarrow> funded_step\<^sup>*\<^sup>* (w_vault w, w_env w) (w_vault w', w_env w') \<and>
     net_step\<^sup>*\<^sup>* (w_net w, w_env w) (w_net w', w_env w') \<and> w_ids w' = w_ids w \<and> w_router w' = w_router w"

lemma world_run_refl [simp]: "world_run w w"
  by (simp add: world_run_def)

lemma world_run_trans [trans]: "world_run a b \<Longrightarrow> world_run b c \<Longrightarrow> world_run a c"
  by (auto simp: world_run_def)

lemma world_run_env: "world_run w (w\<lparr>w_env := env\<rparr>)"
  using funded_other [OF vs_other] by (auto simp: world_run_def intro: ns_other)

lemma world_run_net:
  assumes "net_step (w_net w, w_env w) (net, env)"
  shows "world_run w (w\<lparr>w_net := net, w_env := env\<rparr>)"
  using assms funded_other [OF vs_other] by (auto simp: world_run_def)

lemma world_run_vault:
  assumes "funded_step (w_vault w, w_env w) (vault, env)"
  shows "world_run w (w\<lparr>w_vault := vault, w_env := env\<rparr>)"
  using assms by (auto simp: world_run_def intro: ns_other)

lemma world_run_inv:
  assumes "world_run w w'" and "vault_inv (w_vault w)" and "net_inv (w_net w)"
  shows "vault_inv (w_vault w') \<and> net_inv (w_net w')"
  using assms vault_run_inv net_run_inv by (fastforce simp: world_run_def)

text \<open>The signature of the settlement transaction and the state after drawing it.\<close>

definition draw_tx :: "string option \<Rightarrow> l3_env \<Rightarrow> string \<times> l3_env" where
  "draw_tx route_tx env = (case route_tx of Some tx \<Rightarrow> if tx \<noteq> [] then (tx, env)
       else let (u, env) = uuid4_hex env in (slice_to 44 u, env)
     | None \<Rightarrow> let (u, env) = uuid4_hex env in (slice_to 44 u, env))"

text \<open>The three ways a settlement can go.\<close>

lemma settle_cases:
  assumes "settle_intent rl i gas cs route w = (r, rl', w')"
  obtains (unclaimed) net env where
      "claim_intent (pay_intent_id i) (rlc_relayer_address (rl_config rl)) (w_net w) (w_env w) = (None, net, env)"
      "r = Inr (relay_failure (pay_intent_id i) ''Failed to claim intent'')" "rl' = rl"
      "w' = w\<lparr>w_net := net, w_env := env\<rparr>"
    | (claimed) i' net1 env1 tx env2 ok net2 env3 rb vault env4 where
      "claim_intent (pay_intent_id i) (rlc_relayer_address (rl_config rl)) (w_net w) (w_env w) = (Some i', net1, env1)"
      "draw_tx route env1 = (tx, env2)"
      "confirm_settlement (pay_intent_id i) tx (rlc_relayer_address (rl_config rl)) (map fc_credit_id cs) net1 env2 = (ok, net2, env3)"
      "reimburse_relayer (rlc_relayer_address (rl_config rl)) tx (map fc_credit_id cs) (w_vault w) env3 = (rb, vault, env4)"
      "w' = w\<lparr>w_net := net2, w_vault := vault, w_env := env4\<rparr>"
      "case rb of Inl x \<Rightarrow> r = Inl x \<and> rl' = rl
        | Inr None \<Rightarrow> r = Inr (relay_failure (pay_intent_id i) ''Reimbursement failed'') \<and> rl' = rl
        | Inr (Some b) \<Rightarrow>
            r = Inr \<lparr>rr_success = True, rr_intent_id = pay_intent_id i, rr_tx_signature = Some tx,
                   rr_gas_spent_lamports = gas, rr_reimbursement_lamports = rb_amount_lamports b,
                   rr_profit_lamports = sum_list (map fc_amount_lamports cs) - gas, rr_error = None\<rparr> \<and>
            rl' = rl\<lparr>rl_relayed_count := rl_relayed_count rl + 1,
                    rl_total_profit_lamports := rl_total_profit_lamports rl + (sum_list (map fc_amount_lamports cs) - gas),
                    rl_total_gas_spent := rl_total_gas_spent rl + gas\<rparr>"
proof -
  let ?iid = "pay_intent_id i" and ?rel = "rlc_relayer_address (rl_config rl)" and ?ids = "map fc_credit_id cs"
  obtain c net1 env1 where c: "claim_intent ?iid ?rel (w_net w) (w_env w) = (c, net1, env1)" by (metis prod_cases3)
  obtain tx env2 where tx: "draw_tx route env1 = (tx, env2)" by fastforce
  obtain ok net2 env3 where s: "confirm_settlement ?iid tx ?rel ?ids net1 env2 = (ok, net2, env3)" by (metis prod_cases3)
  obtain rb vault env4 where b: "reimburse_relayer ?rel tx ?ids (w_vault w) env3 = (rb, vault, env4)" by (metis prod_cases3)
  show thesis
  proof (cases c)
    case None
    show thesis
      by (rule unclaimed) (use assms c None in \<open>auto simp: settle_intent_def\<close>)
  next
    case (Some i')
    have eq: "settle_intent rl i gas cs route w =
        (case rb of Inl x \<Rightarrow> (Inl x, rl, w\<lparr>w_net := net2, w_vault := vault, w_env := env4\<rparr>)
         | Inr None \<Rightarrow> (Inr (relay_failure ?iid ''Reimbursement failed''), rl, w\<lparr>w_net := net2, w_vault := vault, w_env := env4\<rparr>)
         | Inr (Some b) \<Rightarrow>
            (Inr \<lparr>rr_success = True, rr_intent_id = ?iid, rr_tx_signature = Some tx, rr_gas_spent_lamports = gas,
                   rr_reimbursement_lamports = rb_amount_lamports b,
                   rr_profit_lamports = sum_list (map fc_amount_lamports cs) - gas, rr_error = None\<rparr>,
             rl\<lparr>rl_relayed_count := rl_relayed_count rl + 1,
                rl_total_profit_lamports := rl_total_profit_lamports rl + (sum_list (map fc_amount_lamports cs) - gas),
                rl_total_gas_spent := rl_total_gas_spent rl + gas\<rparr>, w\<lparr>w_net := net2, w_vault := vault, w_env := env4\<rparr>))"
      using c Some tx s b by (simp add: settle_intent_def draw_tx_def [symmetric] Let_def)
    show thesis
      by (rule claimed [OF c [unfolded Some] tx s b])
        (use assms eq in \<open>auto split: sum.splits option.splits\<close>)
  qed
qed

lemma settle_run: "settle_intent rl i gas cs route w = (r, rl', w') \<Longrightarrow> world_run w w'"
proof (elim settle_cases)
  fix net env
  assume "claim_intent (pay_intent_id i) (rlc_relayer_address (rl_config rl)) (w_net w) (w_env w) = (None, net, env)"
    and "w' = w\<lparr>w_net := net, w_env := env\<rparr>"
  then show "world_run w w'" using world_run_net [OF ns_claim] by blast
next
  fix i' net1 env1 tx env2 ok net2 env3 rb vault env4
  assume c: "claim_intent (pay_intent_id i) (rlc_relayer_address (rl_config rl)) (w_net w) (w_env w) = (Some i', net1, env1)"
    and s: "confirm_settlement (pay_intent_id i) tx (rlc_relayer_address (rl_config rl)) (map fc_credit_id cs) net1 env2 = (ok, net2, env3)"
    and b: "reimburse_relayer (rlc_relayer_address (rl_config rl)) tx (map fc_credit_id cs) (w_vault w) env3 = (rb, vault, env4)"
    and w': "w' = w\<lparr>w_net := net2, w_vault := vault, w_env := env4\<rparr>"
  have "world_run w (w\<lparr>w_net := net1, w_env := env1\<rparr>)" using world_run_net [OF ns_claim [OF c]] .
  also have "world_run \<dots> (w\<lparr>w_net := net1, w_env := env2\<rparr>)"
    using world_run_env [of "w\<lparr>w_net := net1, w_env := env1\<rparr>" env2] by simp
  also have "world_run \<dots> (w\<lparr>w_net := net2, w_env := env3\<rparr>)"
    using world_run_net [of "w\<lparr>w_net := net1, w_env := env2\<rparr>" net2 env3] ns_confirm [OF s] by simp
  also have "world_run \<dots> w'"
    using world_run_vault [of "w\<lparr>w_net := net2, w_env := env3\<rparr>" vault env4] funded_other [OF vs_reimburse [OF b]] by (simp add: w')
  finally show "world_run w w'" .
qed

text \<open>Where the funding of an intent can lead.\<close>

lemma fund_cases:
  assumes "fund_intent rl i route w = (r, rl', w')"
  obtains (refused) cs vault env err where
      "get_user_credits (pay_sender_address i) (w_vault w) (w_env w) = (cs, vault, env)"
      "r = Inr (relay_failure (pay_intent_id i) err)" "rl' = rl" "w' = w\<lparr>w_vault := vault, w_env := env\<rparr>"
      "err \<noteq> ''Reimbursement failed''"
    | (funded) cs vault env where
      "get_user_credits (pay_sender_address i) (w_vault w) (w_env w) = (cs, vault, env)"
      "estimate_gas i \<le> max_gas_per_tx (rl_config rl)"
      "min_profit_lamports (rl_config rl) \<le>
         sum_list (map fc_amount_lamports (select_credits rl cs (estimate_gas i))) - estimate_gas i"
      "settle_intent rl i (estimate_gas i) (select_credits rl cs (estimate_gas i)) route (w\<lparr>w_vault := vault, w_env := env\<rparr>)
         = (r, rl', w')"
proof -
  obtain cs vault env where u: "get_user_credits (pay_sender_address i) (w_vault w) (w_env w) = (cs, vault, env)"
    by (metis prod_cases3)
  note eq = assms [unfolded fund_intent_def Let_def u prod.case]
  show thesis
  proof (cases "cs = [] \<or> max_gas_per_tx (rl_config rl) < estimate_gas i \<or>
      sum_list (map fc_amount_lamports (select_credits rl cs (estimate_gas i))) - estimate_gas i < min_profit_lamports (rl_config rl)")
    case True
    with eq show thesis by (auto split: if_splits intro!: refused [OF u])
  next
    case False
    with eq show thesis by (auto intro!: funded [OF u])
  qed
qed

lemma fund_run:
  assumes "fund_intent rl i route w = (r, rl', w')"
  shows "world_run w w'"
  using assms
proof (cases rule: fund_cases)
  case (refused cs vault env err)
  then show ?thesis using world_run_vault [OF funded_other [OF vs_user_credits]] by blast
next
  case (funded cs vault env)
  have "world_run w (w\<lparr>w_vault := vault, w_env := env\<rparr>)" using world_run_vault [OF funded_other [OF vs_user_credits [OF funded(1)]]] .
  also have "world_run \<dots> w'" using settle_run [OF funded(4)] .
  finally show ?thesis .
qed

lemma relay_cases:
  assumes "relay_intent rl i w = (r, rl', w')"
  shows "(\<exists>x. r = Inl x \<and> risk_check rl i w = Inl x \<and> rl' = rl \<and> w' = w) \<or>
    (\<exists>f. r = Inr f \<and> risk_check rl i w = Inr (Some f) \<and> rl' = rl \<and> w' = w) \<or>
    risk_check rl i w = Inr None \<and> fund_intent rl i None w = (r, rl', w')"
  using assms by (auto simp: relay_intent_def split: sum.splits option.splits)

lemma relay_run: "relay_intent rl i w = (r, rl', w') \<Longrightarrow> world_run w w'"
  using relay_cases [of rl i w r rl' w'] fund_run by fastforce

lemma relay_loop_run: "relay_loop rl is w = (rs, rl', w') \<Longrightarrow> world_run w w'"
proof (induction "is" arbitrary: rl w rs rl' w')
  case (Cons i "is")
  obtain r rl1 w1 where r: "relay_intent rl i w = (r, rl1, w1)" by (metis prod_cases3)
  obtain rs2 rl2 w2 where rs: "relay_loop rl1 is w1 = (rs2, rl2, w2)" by (metis prod_cases3)
  have "w' = w1 \<or> w' = w2" using Cons.prems r rs by (auto split: sum.splits)
  then show ?case using relay_run [OF r] Cons.IH [OF rs] world_run_trans by blast
qed simp

lemma relay_all_run: "relay_all_profitable rl w = (rs, rl', w') \<Longrightarrow> world_run w w'"
proof -
  assume a: "relay_all_profitable rl w = (rs, rl', w')"
  obtain cs env where f: "find_loop (rl_config rl) (dvalues (net_intents (w_net w))) (w_env w) = (cs, env)" by fastforce
  have "world_run w (w\<lparr>w_env := env\<rparr>)" by (rule world_run_env)
  also have "world_run \<dots> w'"
    using a f by (intro relay_loop_run) (simp add: relay_all_profitable_def find_claimable_intents_def)
  finally show ?thesis .
qed

section \<open>What a relay may do\<close>

text \<open>
  The specification of relaying, on the vault and the network alone. From one vault to the next the given credits are spent, and other
  active credits may expire.
\<close>

definition credits_moved :: "string set \<Rightarrow> gas_vault \<Rightarrow> gas_vault \<Rightarrow> bool" where
  "credits_moved K gv gv' \<longleftrightarrow> (\<forall>k. rel_option (\<lambda>c c'. if k \<in> K then fc_status c = ACTIVE \<and> c' = c\<lparr>fc_status := USED\<rparr>
       else c' = c \<or> fc_status c = ACTIVE \<and> c' = c\<lparr>fc_status := credit_status.EXPIRED\<rparr>) (dget (gv_credits gv) k) (dget (gv_credits gv') k))"

definition within_risk :: "l3_config \<Rightarrow> identity_registry \<Rightarrow> payment_intent \<Rightarrow> bool" where
  "within_risk l3 ids i \<longleftrightarrow> (\<forall>tok usd. get_token l3 (pay_token_symbol i) = Some tok \<longrightarrow> amount_usd i tok = Inr usd \<longrightarrow>
     \<not> flt (fst (get_risk_adjusted_limits (pay_sender_address i) ids)) usd)"

text \<open>
  A relay of an intent, with whether it is paid: it is refused and changes nothing; or it settles a pending intent
  within the limits of risk, gas and profit, at the cost of active credits of the sender, and is paid their worth or nothing.
\<close>

inductive relay_spec ::
  "relayer_config \<Rightarrow> l3_config \<Rightarrow> identity_registry \<Rightarrow> payment_intent \<Rightarrow> bool \<Rightarrow> gas_vault \<times> intent_network \<Rightarrow> gas_vault \<times> intent_network \<Rightarrow> bool"
  for c l3 ids i where
  spec_refused: "credits_moved {} gv gv' \<Longrightarrow> sol_reserves gv' = sol_reserves gv \<Longrightarrow> gv_reimbursements gv' = gv_reimbursements gv \<Longrightarrow>
     relay_spec c l3 ids i False (gv, net) (gv', net)"
| spec_settled: "within_risk l3 ids i \<Longrightarrow> dget (net_intents net) (pay_intent_id i) = Some i0 \<Longrightarrow> pay_status i0 = intent_status.PENDING \<Longrightarrow> distinct cids \<Longrightarrow>
     \<forall>k \<in> set cids. \<exists>cr. dget (gv_credits gv) k = Some cr \<and> fc_user_address cr = pay_sender_address i \<Longrightarrow>
     worth = (\<Sum>k \<in> set cids. act (gv_credits gv) k) \<Longrightarrow> estimate_gas i \<le> max_gas_per_tx c \<Longrightarrow> estimate_gas i + min_profit_lamports c \<le> worth \<Longrightarrow>
     credits_moved (set cids) gv gv' \<Longrightarrow>
     net' = net\<lparr>net_intents := dset (pay_intent_id i) (i0\<lparr>pay_claimed_at := Some now, pay_status := CLAIMED, pay_settlement_tx := Some tx,
       pay_relayer_address := Some (rlc_relayer_address c), pay_fee_credit_ids := cids\<rparr>) (net_intents net)\<rparr> \<Longrightarrow>
     (if paid then sol_reserves gv' = sol_reserves gv - worth \<and> (\<exists>rb. gv_reimbursements gv' = gv_reimbursements gv @ [rb] \<and>
          rb_amount_lamports rb = worth \<and> rb_relayer_address rb = rlc_relayer_address c \<and> rb_credit_ids rb = cids)
      else sol_reserves gv' = sol_reserves gv \<and> gv_reimbursements gv' = gv_reimbursements gv) \<Longrightarrow>
     relay_spec c l3 ids i paid (gv, net) (gv', net')"

inductive relay_specs ::
  "relayer_config \<Rightarrow> l3_config \<Rightarrow> identity_registry \<Rightarrow> payment_intent list \<Rightarrow> bool list \<Rightarrow> gas_vault \<times> intent_network \<Rightarrow> gas_vault \<times> intent_network \<Rightarrow> bool"
  for c l3 ids where
  specs_none: "relay_specs c l3 ids [] [] s s"
| specs_relay: "relay_spec c l3 ids i p s t \<Longrightarrow> relay_specs c l3 ids is ps t u \<Longrightarrow> relay_specs c l3 ids (i # is) (p # ps) s u"

lemma credits_moved_expire: "credits_moved {} gv (expire_at now gv)"
  by (auto simp: credits_moved_def option.rel_map expire_credit_def intro: option.rel_refl)

lemma credits_moved_refl: "credits_moved {} gv gv"
  by (auto simp: credits_moved_def intro: option.rel_refl)

text \<open>Credits that are active after a first expiry are spent, and the rest may expire again.\<close>

lemma credits_moved_spent:
  assumes "\<And>k. k \<in> set cids \<Longrightarrow> \<exists>cr. dget (gv_credits (expire_at now gv)) k = Some cr \<and> fc_status cr = ACTIVE"
  shows "credits_moved (set cids) gv (snd (consume_credits cids (expire_at now gv)))"
    and "credits_moved (set cids) gv (expire_at now' (snd (consume_credits cids (expire_at now gv))))"
proof -
  have "rel_option (\<lambda>c c'. if k \<in> set cids then fc_status c = ACTIVE \<and> c' = c\<lparr>fc_status := USED\<rparr>
       else c' = c \<or> fc_status c = ACTIVE \<and> c' = c\<lparr>fc_status := credit_status.EXPIRED\<rparr>) (dget (gv_credits gv) k)
     (dget (gv_credits (snd (consume_credits cids (expire_at now gv)))) k) \<and>
     rel_option (\<lambda>c c'. if k \<in> set cids then fc_status c = ACTIVE \<and> c' = c\<lparr>fc_status := USED\<rparr>
       else c' = c \<or> fc_status c = ACTIVE \<and> c' = c\<lparr>fc_status := credit_status.EXPIRED\<rparr>) (dget (gv_credits gv) k)
     (dget (gv_credits (expire_at now' (snd (consume_credits cids (expire_at now gv))))) k)" for k
    using assms [of k] by (cases "dget (gv_credits gv) k") (auto simp: expire_credit_def mark_used_def split: if_splits)
  then show "credits_moved (set cids) gv (snd (consume_credits cids (expire_at now gv)))"
    and "credits_moved (set cids) gv (expire_at now' (snd (consume_credits cids (expire_at now gv))))"
    unfolding credits_moved_def by blast+
qed

lemma risk_check_failure: "risk_check rl i w = Inr (Some f) \<Longrightarrow> \<not> rr_success f \<and> rr_error f \<noteq> Some ''Reimbursement failed''"
  by (auto simp: risk_check_def relay_failure_def Let_def split: option.splits sum.splits if_splits)

lemma fund_spec:
  assumes "fund_intent rl i None w = (r, rl', w')" and "risk_check rl i w = Inr None" and "gv_ok (w_vault w)"
  shows "relay_spec (rl_config rl) (rl_l3_config rl) (w_ids w) i (\<exists>res. r = Inr res \<and> rr_success res) (w_vault w, w_net w) (w_vault w', w_net w')"
  using assms(1)
proof (cases rule: fund_cases)
  case (refused cs vault env err)
  then show ?thesis using get_user_credits_vault [OF refused(1)] credits_moved_expire
    by (auto simp: relay_failure_def intro!: spec_refused)
next
  case (funded cs vault env)
  note sound = get_user_credits_sound [OF assms(3) funded(1)]
  let ?sel = "select_credits rl cs (estimate_gas i)"
  let ?ids = "map fc_credit_id ?sel"
  have sel: "distinct ?ids" "set ?sel \<subseteq> {c \<in> set cs. fc_status c = ACTIVE}" using select_credits_distinct [OF sound(2)] by blast+
  have known: "\<exists>cr. dget (gv_credits vault) k = Some cr \<and> fc_status cr = ACTIVE \<and> fc_user_address cr = pay_sender_address i \<and>
      dget (gv_credits (w_vault w)) k = Some cr" if "k \<in> set ?ids" for k
  proof -
    from that sel(2) sound(3) obtain cr where cr: "dget (gv_credits vault) k = Some cr" "fc_status cr = ACTIVE" "fc_user_address cr = pay_sender_address i"
      by auto
    then have "dget (gv_credits (w_vault w)) k = Some cr" unfolding sound(1)
      by (auto simp: expire_credit_def split: if_splits)
    with cr show ?thesis by blast
  qed
  have worth: "(\<Sum>k \<in> set ?ids. act (gv_credits vault) k) = sum_list (map fc_amount_lamports ?sel)"
    using sel sound(3) by (intro act_sum) auto
  have same: "(\<Sum>k \<in> set ?ids. act (gv_credits vault) k) = (\<Sum>k \<in> set ?ids. act (gv_credits (w_vault w)) k)"
    using known by (intro sum.cong refl) (fastforce simp: act_def)
  have risk: "within_risk (rl_l3_config rl) (w_ids w) i"
    using assms(2) by (auto simp: within_risk_def risk_check_def Let_def split: if_splits)
  have moved: "credits_moved (set ?ids) (w_vault w) (snd (consume_credits ?ids vault))"
    "credits_moved (set ?ids) (w_vault w) (expire_at now' (snd (consume_credits ?ids vault)))" for now'
    using credits_moved_spent [of ?ids "now_of (w_env w)" "w_vault w"] known sound(1) by blast+
  from funded(4) show ?thesis
  proof (cases rule: settle_cases)
    case unclaimed
    then show ?thesis using claim_effect(1) [OF unclaimed(1)] sound(1) credits_moved_expire
      by (auto simp: relay_failure_def intro!: spec_refused)
  next
    case (claimed i' net1 env1 tx env2 ok net2 env3 rb vault' env4)
    obtain i0 now where c: "dget (net_intents (w_net w)) (pay_intent_id i) = Some i0" "pay_status i0 = intent_status.PENDING"
      "i' = i0\<lparr>pay_status := SETTLING, pay_claimed_at := Some now\<rparr>"
      "net1 = (w_net w)\<lparr>net_intents := dset (pay_intent_id i) i' (net_intents (w_net w))\<rparr>"
      using claim_effect(2) [OF claimed(1) refl] by (auto simp: is_claimable_iff)
    have ok using claimed(3) c by (auto simp: confirm_settlement_def Let_def case_prod_beta)
    with confirm_effect(2) [OF claimed(3)] c have net: "w_net w' = (w_net w)\<lparr>net_intents := dset (pay_intent_id i) (i0\<lparr>pay_claimed_at := Some now,
        pay_status := CLAIMED, pay_settlement_tx := Some tx, pay_relayer_address := Some (rlc_relayer_address (rl_config rl)),
        pay_fee_credit_ids := ?ids\<rparr>) (net_intents (w_net w))\<rparr>"
      using claimed(5) by auto
    define paid where "paid \<longleftrightarrow> (\<exists>b. rb = Inr (Some b))"
    have r: "(\<exists>res. r = Inr res \<and> rr_success res) \<longleftrightarrow> paid"
      using claimed(6) by (auto simp: paid_def relay_failure_def split: sum.splits option.splits)
    have books: "if paid then sol_reserves vault' = sol_reserves (w_vault w) - (\<Sum>k \<in> set ?ids. act (gv_credits (w_vault w)) k) \<and>
        (\<exists>rb. gv_reimbursements vault' = gv_reimbursements (w_vault w) @ [rb] \<and> rb_amount_lamports rb = (\<Sum>k \<in> set ?ids. act (gv_credits (w_vault w)) k) \<and>
          rb_relayer_address rb = rlc_relayer_address (rl_config rl) \<and> rb_credit_ids rb = ?ids)
      else sol_reserves vault' = sol_reserves (w_vault w) \<and> gv_reimbursements vault' = gv_reimbursements (w_vault w)"
      and spent: "credits_moved (set ?ids) (w_vault w) vault'"
    proof -
      note eff = reimburse_effect [OF claimed(4) [simplified]]
      show "if paid then sol_reserves vault' = sol_reserves (w_vault w) - (\<Sum>k \<in> set ?ids. act (gv_credits (w_vault w)) k) \<and>
        (\<exists>rb. gv_reimbursements vault' = gv_reimbursements (w_vault w) @ [rb] \<and> rb_amount_lamports rb = (\<Sum>k \<in> set ?ids. act (gv_credits (w_vault w)) k) \<and>
          rb_relayer_address rb = rlc_relayer_address (rl_config rl) \<and> rb_credit_ids rb = ?ids)
        else sol_reserves vault' = sol_reserves (w_vault w) \<and> gv_reimbursements vault' = gv_reimbursements (w_vault w)"
        using eff same sound(1) by (auto simp: paid_def)
      show "credits_moved (set ?ids) (w_vault w) vault'"
      proof (cases paid)
        case True
        then obtain b where "rb = Inr (Some b)" by (auto simp: paid_def)
        from eff(2) [OF this] moved(2) show ?thesis by (auto simp: credits_moved_def)
      next
        case False
        with eff(1) moved show ?thesis by (auto simp: paid_def)
      qed
    qed
    have owners: "\<forall>k \<in> set ?ids. \<exists>cr. dget (gv_credits (w_vault w)) k = Some cr \<and> fc_user_address cr = pay_sender_address i"
      using known by blast
    have profit: "estimate_gas i + min_profit_lamports (rl_config rl) \<le> (\<Sum>k \<in> set ?ids. act (gv_credits (w_vault w)) k)"
      using funded(3) worth same by simp
    have vault': "w_vault w' = vault'" using claimed(5) by simp
    show ?thesis
      unfolding r net vault' by (rule spec_settled [OF risk c(1,2) sel(1) owners refl funded(2) profit spent refl books])
  qed
qed

lemma relay_intent_spec:
  assumes "relay_intent rl i w = (r, rl', w')" and "gv_ok (w_vault w)"
  shows "relay_spec (rl_config rl) (rl_l3_config rl) (w_ids w) i (\<exists>res. r = Inr res \<and> rr_success res) (w_vault w, w_net w) (w_vault w', w_net w')"
proof -
  have refused: "relay_spec (rl_config rl) (rl_l3_config rl) (w_ids w) i False (w_vault w, w_net w) (w_vault w, w_net w)"
    by (rule spec_refused [OF credits_moved_refl]) simp_all
  consider (raised) x where "r = Inl x" "w' = w" | (risky) f where "r = Inr f" "risk_check rl i w = Inr (Some f)" "w' = w"
    | (safe) "risk_check rl i w = Inr None" "fund_intent rl i None w = (r, rl', w')"
    using relay_cases [OF assms(1)] by blast
  then show ?thesis
  proof cases
    case risky
    then have "\<not> rr_success f" using risk_check_failure by blast
    with risky refused show ?thesis by simp
  qed (use refused fund_spec assms(2) in auto)
qed

lemma relay_intent_config: "relay_intent rl i w = (r, rl', w') \<Longrightarrow> rl_config rl' = rl_config rl \<and> rl_l3_config rl' = rl_l3_config rl"
  by (auto simp: relay_intent_def fund_intent_def settle_intent_def Let_def case_prod_beta split: sum.splits option.splits if_splits)

text \<open>The loop stops early only with an exception; what it has worked through follows the specification.\<close>

lemma relay_loop_specs:
  assumes "relay_loop rl is w = (rs, rl', w')" and "vault_inv (w_vault w)" and "net_inv (w_net w)"
  shows "\<exists>done rest ps. is = done @ rest \<and> relay_specs (rl_config rl) (rl_l3_config rl) (w_ids w) done ps (w_vault w, w_net w) (w_vault w', w_net w') \<and>
    (\<forall>results. rs = Inr results \<longrightarrow> rest = [] \<and> map rr_success results = ps)"
  using assms
proof (induction "is" arbitrary: rl w rs rl' w')
  case Nil
  then show ?case by (auto intro: specs_none)
next
  case (Cons i "is")
  obtain r rl1 w1 where r: "relay_intent rl i w = (r, rl1, w1)" by (metis prod_cases3)
  have one: "relay_spec (rl_config rl) (rl_l3_config rl) (w_ids w) i (\<exists>res. r = Inr res \<and> rr_success res) (w_vault w, w_net w) (w_vault w1, w_net w1)"
    using relay_intent_spec [OF r] Cons.prems(2) by (simp add: vault_inv_def)
  have run: "world_run w w1" by (rule relay_run [OF r])
  show ?case
  proof (cases r)
    case (Inl x)
    with Cons.prems(1) r have "rs = Inl x" "w' = w1" by simp_all
    then show ?thesis using specs_relay [OF one specs_none] by (intro exI [of _ "[i]"] exI [of _ "is"] exI) auto
  next
    case (Inr res)
    obtain rs2 rl2 w2 where rs: "relay_loop rl1 is w1 = (rs2, rl2, w2)" by (metis prod_cases3)
    with Cons.prems(1) r Inr have eq: "rs = (case rs2 of Inl x \<Rightarrow> Inl x | Inr results \<Rightarrow> Inr (res # results))" "w' = w2" by simp_all
    have inv: "vault_inv (w_vault w1)" "net_inv (w_net w1)" using world_run_inv [OF run Cons.prems(2,3)] by simp_all
    have ids: "w_ids w1 = w_ids w" using run by (simp add: world_run_def)
    from Cons.IH [OF rs inv] obtain done' rest ps where
      h: "is = done' @ rest" "relay_specs (rl_config rl) (rl_l3_config rl) (w_ids w) done' ps (w_vault w1, w_net w1) (w_vault w', w_net w')"
        "\<forall>results. rs2 = Inr results \<longrightarrow> rest = [] \<and> map rr_success results = ps"
      unfolding ids eq(2) using relay_intent_config [OF r] by auto
    from specs_relay [OF one h(2)] h(1,3) eq(1) Inr show ?thesis
      by (intro exI [of _ "i # done'"] exI [of _ rest] exI [of _ "rr_success res # ps"]) (auto split: sum.splits)
  qed
qed

lemma find_loop_sound:
  "i \<in> set (fst (find_loop c is env)) \<Longrightarrow>
     i \<in> set is \<and> pay_status i = intent_status.PENDING \<and> pay_sender_address i \<notin> set (blacklisted_users c) \<and> pay_token_symbol i \<in> set (supported_tokens c)"
proof (induction "is" arbitrary: env)
  case (Cons j "is")
  then show ?case using is_claimable_iff [of j env] by (auto simp: Let_def case_prod_beta split: if_splits)
qed simp

section \<open>Properties\<close>

text \<open>
  C7. Relaying refines its specification and keeps every guarantee of the components. It only works through pending intents whose
  sender is not blacklisted and whose token is supported. One by one, until an exception stops it, each is refused, which changes nothing but
  expiring credits, or settled: then it was pending and within the limits of risk and gas, active credits of its sender worth at least the gas and the minimum
  profit are used up and no others, and the relayer is paid exactly their worth from the reserves if the reported result is a success, and nothing otherwise. The vault stays
  covered and within its caps, the intents keep their invariants, vault and network only go through calls of their own, and no identity is touched.
\<close>

theorem relaying_keeps_invariants:
  assumes "relay_all_profitable rl w = (rs, rl', w')" and "vault_inv (w_vault w)" and "net_inv (w_net w)"
  shows "(\<exists>done rest ps. fst (find_claimable_intents rl w) = done @ rest \<and>
      relay_specs (rl_config rl) (rl_l3_config rl) (w_ids w) done ps (w_vault w, w_net w) (w_vault w', w_net w') \<and>
      (\<forall>results. rs = Inr results \<longrightarrow> rest = [] \<and> map rr_success results = ps)) \<and>
    (\<forall>i \<in> set (fst (find_claimable_intents rl w)). i \<in> set (dvalues (net_intents (w_net w))) \<and> pay_status i = intent_status.PENDING \<and>
      pay_sender_address i \<notin> set (blacklisted_users (rl_config rl)) \<and> pay_token_symbol i \<in> set (supported_tokens (rl_config rl))) \<and>
    vault_inv (w_vault w') \<and> net_inv (w_net w') \<and> world_run w w' \<and> w_ids w' = w_ids w"
proof -
  have run: "world_run w w'" using relay_all_run [OF assms(1)] .
  then have ids: "w_ids w' = w_ids w" by (simp add: world_run_def)
  obtain found env where f: "find_loop (rl_config rl) (dvalues (net_intents (w_net w))) (w_env w) = (found, env)" by fastforce
  have "relay_loop rl found (w\<lparr>w_env := env\<rparr>) = (rs, rl', w')"
    using assms(1) f by (simp add: relay_all_profitable_def find_claimable_intents_def)
  from relay_loop_specs [OF this] assms(2,3) find_loop_sound [of _ "rl_config rl" "dvalues (net_intents (w_net w))" "w_env w"]
  show ?thesis using world_run_inv [OF run assms(2,3)] run ids f by (simp add: find_claimable_intents_def)
qed

text \<open>A state with one funded vault and one claimable intent, for concrete runs.\<close>

definition sample_world :: "int \<Rightarrow> int \<Rightarrow> l3_world" where
  "sample_world reserves amount = \<lparr>w_env = sample_env [],
     w_vault = (gas_vault_init DEFAULT_CONFIG reserves)\<lparr>
       gv_credits := [(''c1'', \<lparr>fc_credit_id = ''c1'', fc_user_address = ''s'', fc_amount_lamports = amount,
         fc_issued_at = Fin 0, fc_expires_at = Fin 1000, fc_proof_ref = ''p'', fc_status = ACTIVE\<rparr>)],
       gv_user_credits := [(''s'', [''c1''])]\<rparr>,
     w_net = sample_net sample_intent, w_ids = identity_registry_init, w_router = token_router_init DEFAULT_CONFIG\<rparr>"

definition sample_relayer :: relayer where
  "sample_relayer = relayer_init \<lparr>rlc_relayer_address = ''relayer'', min_profit_lamports = 5000,
     max_gas_per_tx = 100000, supported_tokens = [''USDC'', ''SOL'', ''MEMBRA''], blacklisted_users = []\<rparr> DEFAULT_CONFIG"

lemma sample_world_inv:
  assumes "0 < amount" and "amount \<le> 10000000000" and "3 * amount \<le> 2 * reserves" and "reserves \<le> vault_limit"
  shows "vault_inv (w_vault (sample_world reserves amount)) \<and> net_inv (w_net (sample_world reserves amount))"
proof
  show "vault_inv (w_vault (sample_world reserves amount))"
    using assms by (auto simp: vault_inv_def sample_world_def gas_vault_init_def gv_ok_def cap_ok_def covered_def
        ids_of_def user_outstanding_def outstanding_def active_lamports_def dget_default_def split: if_splits)
  show "net_inv (w_net (sample_world reserves amount))"
    by (auto simp: net_inv_def sample_world_def sample_net_def sample_intent_def intent_network_init_def is_token_approved_def
        init_default_tokens_def mk_token_def intent_ok_def sent_terms_def dget_default_def dmap_def pay_terms_def
        split: if_splits)
qed

theorem relaying_keeps_invariants_witness:
  "\<exists>rs rl' w'. relay_all_profitable sample_relayer (sample_world 60000 30000) = (rs, rl', w') \<and>
     3 * outstanding (w_vault w') \<le> 2 * sol_reserves (w_vault w') \<and>
     fst (find_claimable_intents sample_relayer (sample_world 60000 30000)) = [sample_intent]"
proof -
  obtain rs rl' w' where a: "relay_all_profitable sample_relayer (sample_world 60000 30000) = (rs, rl', w')"
    by (metis prod_cases3)
  have "vault_inv (w_vault (sample_world 60000 30000))" "net_inv (w_net (sample_world 60000 30000))"
    using sample_world_inv [of 30000 60000] by (simp_all add: vault_limit_def)
  moreover have "fst (find_claimable_intents sample_relayer (sample_world 60000 30000)) = [sample_intent]"
    by (simp add: find_claimable_intents_def sample_relayer_def relayer_init_def sample_world_def sample_net_def sample_intent_def
        intent_network_init_def is_claimable_def is_expired_def time_time_def)
  ultimately show ?thesis using relaying_keeps_invariants [OF a] a by (auto simp: vault_inv_def covered_def)
qed

lemma confirm_after_claim:
  assumes "claim_intent iid rel net env = (Some i', net1, env1)"
    and "confirm_settlement iid tx rel2 cids net1 env2 = (ok, net2, env3)"
  shows "ok \<and> (\<exists>i. dget (net_intents net2) iid = Some i \<and> pay_status i = CLAIMED \<and> pay_settlement_tx i = Some tx \<and>
    pay_relayer_address i = Some rel2 \<and> pay_fee_credit_ids i = cids)"
proof -
  from claim_effect(2) [OF assms(1) refl] have st: "dget (net_intents net1) iid = Some i'" "pay_status i' = SETTLING"
    by auto
  then have ok using assms(2) by (auto simp: confirm_settlement_def Let_def case_prod_beta)
  with confirm_effect(2) [OF assms(2)] show ?thesis by auto
qed

text \<open>
  C2. A relay that reports success did everything it says: the relayer was reimbursed exactly the
  worth of the credits it chose, out of the reserves, which is its gas plus the reported profit, at
  least the minimum profit; the gas is within its limit; the intent is settled under the
  reported transaction; and the relayer's counters grew accordingly.
\<close>

theorem relay_success:
  assumes "relay_intent rl i w = (Inr res, rl', w')" and "rr_success res" and "vault_inv (w_vault w)"
  shows "rr_reimbursement_lamports res = rr_gas_spent_lamports res + rr_profit_lamports res \<and>
    min_profit_lamports (rl_config rl) \<le> rr_profit_lamports res \<and>
    rr_gas_spent_lamports res \<le> max_gas_per_tx (rl_config rl) \<and>
    sol_reserves (w_vault w') = sol_reserves (w_vault w) - rr_reimbursement_lamports res \<and>
    (\<exists>i'. dget (net_intents (w_net w')) (pay_intent_id i) = Some i' \<and> pay_status i' = CLAIMED \<and>
       pay_settlement_tx i' = rr_tx_signature res \<and> pay_relayer_address i' = Some (rlc_relayer_address (rl_config rl))) \<and>
    rl_relayed_count rl' = rl_relayed_count rl + 1 \<and>
    rl_total_profit_lamports rl' = rl_total_profit_lamports rl + rr_profit_lamports res"
proof -
  have fund: "fund_intent rl i None w = (Inr res, rl', w')"
    using relay_cases [OF assms(1)] assms(2) risk_check_failure by blast
  from fund show ?thesis
  proof (cases rule: fund_cases)
    case (refused cs vault env err)
    then show ?thesis using assms(2) by (simp add: relay_failure_def)
  next
    case (funded cs vault env)
    have ok: "gv_ok (w_vault w)" using assms(3) by (simp add: vault_inv_def)
    note sound = get_user_credits_sound [OF ok funded(1)]
    let ?sel = "select_credits rl cs (estimate_gas i)"
    have sel: "distinct (map fc_credit_id ?sel)" "set ?sel \<subseteq> {c \<in> set cs. fc_status c = ACTIVE}"
      using select_credits_distinct [OF sound(2)] by blast+
    have worth: "(\<Sum>k \<in> set (map fc_credit_id ?sel). act (gv_credits vault) k) = sum_list (map fc_amount_lamports ?sel)"
      using sel sound(3) by (intro act_sum) auto
    from funded(4) show ?thesis
    proof (cases rule: settle_cases)
      case unclaimed
      then show ?thesis using assms(2) by (simp add: relay_failure_def)
    next
      case (claimed i' net1 env1 tx env2 ok net2 env3 rb vault' env4)
      from claimed(6) assms(2) obtain b where b: "rb = Inr (Some b)"
        by (auto simp: relay_failure_def split: sum.splits option.splits)
      note eff = reimburse_effect(2) [OF claimed(4) [simplified] b]
      have amt: "rb_amount_lamports b = sum_list (map fc_amount_lamports ?sel)"
        using eff worth by simp
      have res: "sol_reserves vault' = sol_reserves (w_vault w) - rb_amount_lamports b"
        using eff sound(1) by simp
      show ?thesis
        using claimed(5,6) b amt res funded(2,3) confirm_after_claim [OF claimed(1,3)] by auto
    qed
  qed
qed

text \<open>The sample intent is small enough for an address without a score.\<close>

lemma sample_risk: "risk_check sample_relayer sample_intent (sample_world reserves amount) = Inr None"
proof -
  have le: "rnd (7 / 1000000) \<le> 100"
    using f64.le_fixed [of 100 "7 / 1000000"] f64.int_exact [of 100] by simp
  have "truediv 7 (10 ^ nat 6) = Inr (Fin (rnd (7 / 1000000)))"
    using truediv_small [of 1000000 7] by simp
  then show ?thesis
    using le by (simp add: risk_check_def sample_relayer_def relayer_init_def sample_world_def sample_intent_def
        get_risk_adjusted_limits_def get_score_def identity_registry_init_def get_token_def init_default_tokens_def
        mk_token_def amount_usd_def Let_def)
qed

lemmas sample_evaluation = relay_intent_def sample_risk fund_intent_def get_user_credits_def vault_helpers
  sample_world_def gas_vault_init_def sample_relayer_def relayer_init_def sample_intent_def sample_net_def
  intent_network_init_def estimate_gas_def select_credits_def settle_intent_def claim_intent_def is_claimable_def
  is_expired_def time_time_def uuid4_hex_def confirm_settlement_def reimburse_relayer_def consume_credits_def
  expire_at_def expire_credit_def dmap_def dget_default_def List.map_filter_def

theorem relay_success_witness:
  "\<exists>res rl' w'. relay_intent sample_relayer sample_intent (sample_world 60000 30000) = (Inr res, rl', w') \<and>
     rr_success res \<and> rr_reimbursement_lamports res = 30000 \<and> rr_profit_lamports res = 15000 \<and>
     sol_reserves (w_vault w') = 30000"
proof -
  have "\<exists>res rl' w'. relay_intent sample_relayer sample_intent (sample_world 60000 30000) = (Inr res, rl', w') \<and>
      rr_success res \<and> rr_gas_spent_lamports res = 15000 \<and> rr_profit_lamports res = 15000"
    unfolding relay_intent_def sample_risk
    by (simp add: sample_evaluation Let_def case_prod_beta ratio_def outstanding_def active_lamports_def)
  then obtain res rl' w' where
    r: "relay_intent sample_relayer sample_intent (sample_world 60000 30000) = (Inr res, rl', w')"
      "rr_success res" "rr_gas_spent_lamports res = 15000" "rr_profit_lamports res = 15000" by blast
  have inv: "vault_inv (w_vault (sample_world 60000 30000))"
    using sample_world_inv [of 30000 60000] by (simp add: vault_limit_def)
  have "sol_reserves (w_vault (sample_world 60000 30000)) = 60000" by (simp add: sample_world_def gas_vault_init_def)
  with relay_success [OF r(1,2) inv] r show ?thesis by auto
qed

text \<open>
  C11. A relay whose reimbursement is refused reports failure although the payment is settled: the
  result is unsuccessful and no reserves are paid, yet the intent is CLAIMED for good and every
  credit it lists is no longer active.
\<close>

theorem failed_reimbursement_still_settles:
  assumes "relay_intent rl i w = (Inr res, rl', w')" and "rr_error res = Some ''Reimbursement failed''"
  shows "\<not> rr_success res \<and> rl' = rl \<and> sol_reserves (w_vault w') = sol_reserves (w_vault w) \<and>
    (\<exists>i'. dget (net_intents (w_net w')) (pay_intent_id i) = Some i' \<and> pay_status i' = CLAIMED \<and>
       (\<forall>cid \<in> set (pay_fee_credit_ids i'). act (gv_credits (w_vault w')) cid = 0))"
proof -
  have fund: "fund_intent rl i None w = (Inr res, rl', w')"
    using relay_cases [OF assms(1)] assms(2) risk_check_failure by blast
  from fund show ?thesis
  proof (cases rule: fund_cases)
    case (refused cs vault env err)
    then show ?thesis using assms(2) by (simp add: relay_failure_def)
  next
    case (funded cs vault env)
    have vault: "vault = expire_at (now_of (w_env w)) (w_vault w)" using get_user_credits_vault [OF funded(1)] .
    from funded(4) show ?thesis
    proof (cases rule: settle_cases)
      case unclaimed
      then show ?thesis using assms(2) by (simp add: relay_failure_def)
    next
      case (claimed i' net1 env1 tx env2 ok net2 env3 rb vault' env4)
      from claimed(6) assms(2) have rb: "rb = Inr None" and res: "\<not> rr_success res" "rl' = rl"
        by (auto simp: relay_failure_def split: sum.splits option.splits)
      let ?ids = "map fc_credit_id (select_credits rl cs (estimate_gas i))"
      have "vault' = snd (consume_credits ?ids vault) \<or> vault' = expire_at (now_of env3) (snd (consume_credits ?ids vault))"
        using reimburse_effect(1) [OF claimed(4) [simplified]] rb by simp
      then have "sol_reserves vault' = sol_reserves vault" "\<forall>cid \<in> set ?ids. act (gv_credits vault') cid = 0"
        by (auto simp: act_def active_lamports_def expire_credit_def split: option.split)
      then show ?thesis
        using claimed(5) res vault confirm_after_claim [OF claimed(1,3)] by auto
    qed
  qed
qed

theorem failed_reimbursement_still_settles_witness:
  "\<exists>res rl' w' i'. relay_intent sample_relayer sample_intent (sample_world 25000 30000) = (Inr res, rl', w') \<and>
     \<not> rr_success res \<and> dget (net_intents (w_net w')) ''i1'' = Some i' \<and> pay_status i' = CLAIMED"
proof -
  have "\<exists>res rl' w'. relay_intent sample_relayer sample_intent (sample_world 25000 30000) = (Inr res, rl', w') \<and>
      rr_error res = Some ''Reimbursement failed''"
    unfolding relay_intent_def sample_risk
    by (simp add: sample_evaluation relay_failure_def Let_def case_prod_beta)
  then obtain res rl' w' where
    r: "relay_intent sample_relayer sample_intent (sample_world 25000 30000) = (Inr res, rl', w')"
      "rr_error res = Some ''Reimbursement failed''" by blast
  from failed_reimbursement_still_settles [OF r] r show ?thesis by (auto simp: sample_intent_def)
qed

text \<open>
  The credits chosen for an intent are the cheapest active ones and no more than needed: no
  unchosen active credit is worth less than a chosen one, without the last one the choice would
  not suffice, and if the choice does not reach the gas and the minimum profit it is all of them.
\<close>

theorem credit_choice_is_frugal:
  assumes "0 < gas + min_profit_lamports (rl_config rl)"
  shows "\<exists>rest. mset (select_credits rl cs gas) + mset rest = mset (filter (\<lambda>c. fc_status c = ACTIVE) cs) \<and>
    (\<forall>c \<in> set (select_credits rl cs gas). \<forall>d \<in> set rest. fc_amount_lamports c \<le> fc_amount_lamports d) \<and>
    sum_list (map fc_amount_lamports (butlast (select_credits rl cs gas))) < gas + min_profit_lamports (rl_config rl) \<and>
    (rest = [] \<or> gas + min_profit_lamports (rl_config rl) \<le> sum_list (map fc_amount_lamports (select_credits rl cs gas)))"
proof -
  let ?s = "sort_key fc_amount_lamports (filter (\<lambda>c. fc_status c = ACTIVE) cs)"
  let ?n = "gas + min_profit_lamports (rl_config rl)"
  obtain k where k: "select_credits rl cs gas = take k ?s"
    using select_loop_prefix unfolding select_credits_def by blast
  have srt: "sorted (map fc_amount_lamports (take k ?s @ drop k ?s))" by simp
  have "mset (take k ?s) + mset (drop k ?s) = mset ?s" by (metis append_take_drop_id mset_append)
  then have 1: "mset (take k ?s) + mset (drop k ?s) = mset (filter (\<lambda>c. fc_status c = ACTIVE) cs)" by (simp only: mset_sort)
  have 2: "\<forall>c \<in> set (take k ?s). \<forall>d \<in> set (drop k ?s). fc_amount_lamports c \<le> fc_amount_lamports d"
    using srt unfolding map_append sorted_append by auto
  have 3: "sum_list (map fc_amount_lamports (butlast (take k ?s))) < ?n"
    using select_loop_minimal [of 0 ?n ?s] assms unfolding k [symmetric] by (simp add: select_credits_def)
  have 4: "drop k ?s = [] \<or> ?n \<le> sum_list (map fc_amount_lamports (take k ?s))"
  proof (rule disjCI)
    assume "\<not> ?n \<le> sum_list (map fc_amount_lamports (take k ?s))"
    then have "select_loop ?n 0 ?s = ?s"
      using k by (intro select_loop_short) (simp add: select_credits_def)
    then have "take k ?s = ?s" using k by (simp add: select_credits_def)
    then show "drop k ?s = []" by (metis append_self_conv append_take_drop_id)
  qed
  show ?thesis unfolding k using 1 2 3 4 by blast
qed

theorem credit_choice_is_frugal_witness:
  "select_credits sample_relayer [\<lparr>fc_credit_id = ''a'', fc_user_address = ''s'', fc_amount_lamports = 90000,
       fc_issued_at = Fin 0, fc_expires_at = Fin 1, fc_proof_ref = [], fc_status = ACTIVE\<rparr>] 15000 \<noteq> [] \<and>
   sum_list (map fc_amount_lamports (butlast (select_credits sample_relayer [\<lparr>fc_credit_id = ''a'',
       fc_user_address = ''s'', fc_amount_lamports = 90000, fc_issued_at = Fin 0, fc_expires_at = Fin 1,
       fc_proof_ref = [], fc_status = ACTIVE\<rparr>] 15000))) < 20000"
  using credit_choice_is_frugal [of 15000 sample_relayer "[\<lparr>fc_credit_id = ''a'', fc_user_address = ''s'',
       fc_amount_lamports = 90000, fc_issued_at = Fin 0, fc_expires_at = Fin 1, fc_proof_ref = [], fc_status = ACTIVE\<rparr>]"]
  by (auto simp: sample_relayer_def relayer_init_def select_credits_def)

end
