(* ===== verification/Governance.thy ===== *)
theory Governance
  imports Proof_Book
begin

text \<open>
  \<open>membra-l3/membra_l3/governance.py\<close>: proposals backed by entries of the proof book, one vote per
  address weighted by its voting power, finalization by quorum and threshold, and the execution mark.
\<close>

section \<open>Data\<close>

datatype proposal_type =
    REBASE_EXECUTE | REBASE_PAUSE | EMISSION_PROPOSAL | GASVAULT_ADJUST | REWARD_RATE_ADJUST
  | TREASURY_ACTION | TOKEN_APPROVAL | ROUTE_APPROVAL | PARAMETER_CHANGE | DEVELOPMENT_REWARD

fun proposal_type_value :: "proposal_type \<Rightarrow> string" where
  "proposal_type_value REBASE_EXECUTE = ''rebase_execute''"
| "proposal_type_value REBASE_PAUSE = ''rebase_pause''"
| "proposal_type_value EMISSION_PROPOSAL = ''emission_proposal''"
| "proposal_type_value GASVAULT_ADJUST = ''gasvault_adjust''"
| "proposal_type_value REWARD_RATE_ADJUST = ''reward_rate_adjust''"
| "proposal_type_value TREASURY_ACTION = ''treasury_action''"
| "proposal_type_value TOKEN_APPROVAL = ''token_approval''"
| "proposal_type_value ROUTE_APPROVAL = ''route_approval''"
| "proposal_type_value PARAMETER_CHANGE = ''parameter_change''"
| "proposal_type_value DEVELOPMENT_REWARD = ''development_reward''"

datatype proposal_status = DRAFT | REVIEW | VOTING | APPROVED | REJECTED | EXECUTED | CANCELLED

fun proposal_status_value :: "proposal_status \<Rightarrow> string" where
  "proposal_status_value DRAFT = ''draft''"
| "proposal_status_value REVIEW = ''review''"
| "proposal_status_value VOTING = ''voting''"
| "proposal_status_value APPROVED = ''approved''"
| "proposal_status_value REJECTED = ''rejected''"
| "proposal_status_value EXECUTED = ''executed''"
| "proposal_status_value CANCELLED = ''cancelled''"

datatype vote_choice = FOR | AGAINST | ABSTAIN

fun vote_choice_value :: "vote_choice \<Rightarrow> string" where
  "vote_choice_value FOR = ''for''"
| "vote_choice_value AGAINST = ''against''"
| "vote_choice_value ABSTAIN = ''abstain''"

record vote =
  v_voter_address :: string
  v_choice :: vote_choice
  v_weight :: pyfloat
  v_timestamp :: pyfloat
  v_reason :: string

record governance_proposal =
  gp_proposal_id :: string
  gp_proposal_type :: proposal_type
  gp_title :: string
  gp_description :: string
  gp_proposer :: string
  gp_required_proofs :: "string list"
  gp_params :: "json dict"
  gp_status :: proposal_status
  gp_created_at :: pyfloat
  gp_review_ends_at :: "pyfloat option"
  gp_voting_ends_at :: "pyfloat option"
  gp_votes :: "vote list"
  gp_executed_at :: "pyfloat option"
  gp_execution_result :: "string option"

record governance =
  review_window :: int
  voting_window :: int
  gov_proposals :: "governance_proposal dict"
  gov_voting_power :: "pyfloat dict"

definition governance_init :: "int \<Rightarrow> int \<Rightarrow> governance" where
  "governance_init rw vw = \<lparr>review_window = rw, voting_window = vw, gov_proposals = [], gov_voting_power = []\<rparr>"

section \<open>Counting votes\<close>

definition tally :: "governance_proposal \<Rightarrow> pyfloat dict" where
  "tally p = foldl (\<lambda>counts v. dset (vote_choice_value (v_choice v))
       (fadd (dget_default counts (vote_choice_value (v_choice v)) (Fin 0)) (v_weight v)) counts)
     [(''for'', Fin 0), (''against'', Fin 0), (''abstain'', Fin 0)] (gp_votes p)"

definition is_approved :: "governance_proposal \<Rightarrow> pyfloat \<Rightarrow> pyfloat \<Rightarrow> bool result" where
  "is_approved p quorum threshold =
     (let t = tally p;
          f = dget_default t ''for'' (Fin 0); a = dget_default t ''against'' (Fin 0);
          b = dget_default t ''abstain'' (Fin 0);
          total_weight = fadd (fadd f a) b
      in if flt total_weight quorum then Inr False
         else if feq total_weight (Fin 0) then Inr False
         else case fdiv f (fadd f a) of Inl x \<Rightarrow> Inl x | Inr q \<Rightarrow> Inr (fle threshold q))"

text \<open>The default arguments \<open>quorum = 0.2\<close> and \<open>threshold = 0.6\<close>.\<close>

definition default_quorum :: pyfloat where
  "default_quorum = mkf (2 / 10)"

definition default_threshold :: pyfloat where
  "default_threshold = mkf (6 / 10)"

section \<open>Operations\<close>

definition set_voting_power :: "string \<Rightarrow> pyfloat \<Rightarrow> governance \<Rightarrow> governance" where
  "set_voting_power address p g = g\<lparr>gov_voting_power := dset address p (gov_voting_power g)\<rparr>"

definition get_voting_power :: "string \<Rightarrow> governance \<Rightarrow> pyfloat" where
  "get_voting_power address g = dget_default (gov_voting_power g) address (Fin 0)"

text \<open>The first required proof that is not among the last 200 entries of the book.\<close>

fun missing_proof :: "proof_book \<Rightarrow> string list \<Rightarrow> string option" where
  "missing_proof b [] = None"
| "missing_proof b (h # hs) =
     (if \<exists>e \<in> set (get_entries b None None 200). pe_entry_hash e = h then missing_proof b hs else Some h)"

definition propose ::
  "proposal_type \<Rightarrow> string \<Rightarrow> string \<Rightarrow> string \<Rightarrow> string list \<Rightarrow> json dict \<Rightarrow> governance \<Rightarrow> l3_env
     \<Rightarrow> governance_proposal result \<times> governance \<times> l3_env" where
  "propose ty title descr proposer proofs params g env =
     (case missing_proof (book env) proofs of
        Some h \<Rightarrow> (Inl (ValueError (''Required proof not found in ProofBook: '' @ h)), g, env)
      | None \<Rightarrow>
          let (u, env) = uuid4_hex env; (t, env) = time_time env
          in case of_pyint (review_window g) of Inl x \<Rightarrow> (Inl x, g, env)
           | Inr w \<Rightarrow>
               let (created, env) = time_time env;
                   p = \<lparr>gp_proposal_id = slice_to 20 u, gp_proposal_type = ty, gp_title = title,
                         gp_description = descr, gp_proposer = proposer, gp_required_proofs = proofs,
                         gp_params = params, gp_status = REVIEW, gp_created_at = created,
                         gp_review_ends_at = Some (fadd t w), gp_voting_ends_at = None, gp_votes = [],
                         gp_executed_at = None, gp_execution_result = None\<rparr>;
                   g = g\<lparr>gov_proposals := dset (gp_proposal_id p) p (gov_proposals g)\<rparr>;
                   (e, env) = log_proof GOVERNANCE [
                     (''action'', JStr ''proposal_created''),
                     (''proposal_id'', JStr (gp_proposal_id p)),
                     (''proposal_type'', JStr (proposal_type_value ty)),
                     (''title'', JStr title),
                     (''proposer'', JStr proposer),
                     (''required_proofs'', jstrs proofs)] env
               in (Inr p, g, env))"

text \<open>
  \<open>start_voting\<close>. The status is changed before the deadline is computed, so it stays changed when
  the addition raises.
\<close>

definition start_voting :: "string \<Rightarrow> governance \<Rightarrow> l3_env \<Rightarrow> bool result \<times> governance \<times> l3_env" where
  "start_voting pid g env =
     (case dget (gov_proposals g) pid of None \<Rightarrow> (Inr False, g, env)
      | Some p \<Rightarrow>
          if gp_status p \<noteq> REVIEW then (Inr False, g, env)
          else let p = p\<lparr>gp_status := VOTING\<rparr>; (t, env) = time_time env
            in case of_pyint (voting_window g) of
                 Inl x \<Rightarrow> (Inl x, g\<lparr>gov_proposals := dset pid p (gov_proposals g)\<rparr>, env)
               | Inr w \<Rightarrow>
                   (Inr True, g\<lparr>gov_proposals := dset pid (p\<lparr>gp_voting_ends_at := Some (fadd t w)\<rparr>) (gov_proposals g)\<rparr>,
                    env))"

definition cast_vote ::
  "string \<Rightarrow> string \<Rightarrow> vote_choice \<Rightarrow> string \<Rightarrow> governance \<Rightarrow> l3_env \<Rightarrow> bool \<times> governance \<times> l3_env" where
  "cast_vote pid voter choice reason g env =
     (case dget (gov_proposals g) pid of None \<Rightarrow> (False, g, env)
      | Some p \<Rightarrow>
          if gp_status p \<noteq> VOTING then (False, g, env)
          else if \<exists>v \<in> set (gp_votes p). v_voter_address v = voter then (False, g, env)
          else let weight = get_voting_power voter g
          in if fle weight (Fin 0) then (False, g, env)
          else let (t, env) = time_time env;
                   v = \<lparr>v_voter_address = voter, v_choice = choice, v_weight = weight, v_timestamp = t,
                         v_reason = reason\<rparr>;
                   g = g\<lparr>gov_proposals := dset pid (p\<lparr>gp_votes := gp_votes p @ [v]\<rparr>) (gov_proposals g)\<rparr>;
                   (e, env) = log_proof GOVERNANCE [
                     (''action'', JStr ''vote_cast''),
                     (''proposal_id'', JStr pid),
                     (''voter'', JStr voter),
                     (''choice'', JStr (vote_choice_value choice)),
                     (''weight'', JFloat weight)] env
               in (True, g, env))"

definition finalize :: "string \<Rightarrow> governance \<Rightarrow> l3_env \<Rightarrow> bool result \<times> governance \<times> l3_env" where
  "finalize pid g env =
     (case dget (gov_proposals g) pid of None \<Rightarrow> (Inr False, g, env)
      | Some p \<Rightarrow>
          if gp_status p \<noteq> VOTING then (Inr False, g, env)
          else let (now, env) = time_time env
          in if flt now (case gp_voting_ends_at p of None \<Rightarrow> Fin 0 | Some t \<Rightarrow> t) then (Inr False, g, env)
          else case is_approved p default_quorum default_threshold of Inl x \<Rightarrow> (Inl x, g, env)
           | Inr ok \<Rightarrow>
               let p = p\<lparr>gp_status := (if ok then APPROVED else REJECTED)\<rparr>;
                   g = g\<lparr>gov_proposals := dset pid p (gov_proposals g)\<rparr>;
                   (e, env) = log_proof GOVERNANCE [
                     (''action'', JStr ''proposal_finalized''),
                     (''proposal_id'', JStr pid),
                     (''result'', JStr (proposal_status_value (gp_status p))),
                     (''tally'', JObj (map (\<lambda>(k, x). (k, JFloat x)) (tally p)))] env
               in (Inr True, g, env))"

definition execute_proposal :: "string \<Rightarrow> string \<Rightarrow> governance \<Rightarrow> l3_env \<Rightarrow> bool \<times> governance \<times> l3_env" where
  "execute_proposal pid executor g env =
     (case dget (gov_proposals g) pid of None \<Rightarrow> (False, g, env)
      | Some p \<Rightarrow>
          if gp_status p \<noteq> APPROVED then (False, g, env)
          else let (t, env) = time_time env;
                   p = p\<lparr>gp_status := EXECUTED, gp_executed_at := Some t,
                         gp_execution_result := Some (''Executed by '' @ executor)\<rparr>;
                   g = g\<lparr>gov_proposals := dset pid p (gov_proposals g)\<rparr>;
                   (e, env) = log_proof GOVERNANCE [
                     (''action'', JStr ''proposal_executed''),
                     (''proposal_id'', JStr pid),
                     (''executor'', JStr executor)] env
               in (True, g, env))"

definition get_proposal :: "string \<Rightarrow> governance \<Rightarrow> governance_proposal option" where
  "get_proposal pid g = dget (gov_proposals g) pid"

definition get_active_proposals :: "governance \<Rightarrow> governance_proposal list" where
  "get_active_proposals g = filter (\<lambda>p. gp_status p \<in> {REVIEW, VOTING}) (dvalues (gov_proposals g))"

definition get_proposals_by_type :: "proposal_type \<Rightarrow> governance \<Rightarrow> governance_proposal list" where
  "get_proposals_by_type ty g = filter (\<lambda>p. gp_proposal_type p = ty) (dvalues (gov_proposals g))"

definition gov_stats :: "governance \<Rightarrow> json dict" where
  "gov_stats g =
     (let by_status = foldl (\<lambda>d p. dset (proposal_status_value (gp_status p))
            (dget_default d (proposal_status_value (gp_status p)) (0 :: int) + 1) d) [] (dvalues (gov_proposals g))
      in [(''total_proposals'', JInt (int (length (gov_proposals g)))),
          (''by_status'', JObj (map (\<lambda>(k, n). (k, JInt n)) by_status)),
          (''voters'', JInt (int (length (gov_voting_power g))))])"

section \<open>What the tally is\<close>

lemma vote_choice_value_inj [simp]: "vote_choice_value a = vote_choice_value b \<longleftrightarrow> a = b"
  by (cases a; cases b) simp_all

text \<open>The sum of the weights cast for a choice, in the order they were cast.\<close>

definition weight_of :: "vote_choice \<Rightarrow> governance_proposal \<Rightarrow> pyfloat" where
  "weight_of c p = fsum (map v_weight (filter (\<lambda>v. v_choice v = c) (gp_votes p)))"

lemma tally_weight: "dget_default (tally p) (vote_choice_value c) (Fin 0) = weight_of c p"
proof -
  have "dget_default (foldl (\<lambda>counts v. dset (vote_choice_value (v_choice v))
       (fadd (dget_default counts (vote_choice_value (v_choice v)) (Fin 0)) (v_weight v)) counts)
     [(''for'', Fin 0), (''against'', Fin 0), (''abstain'', Fin 0)] vs) (vote_choice_value c) (Fin 0)
     = fsum (map v_weight (filter (\<lambda>v. v_choice v = c) vs))" for vs
  proof (induction vs rule: rev_induct)
    case Nil
    then show ?case by (cases c) (simp_all add: dget_default_def)
  qed auto
  then show ?thesis by (simp add: tally_def weight_of_def)
qed

lemma is_approved_weights:
  "is_approved p quorum threshold =
     (let w = fadd (fadd (weight_of FOR p) (weight_of AGAINST p)) (weight_of ABSTAIN p)
      in if flt w quorum \<or> feq w (Fin 0) then Inr False
         else case fdiv (weight_of FOR p) (fadd (weight_of FOR p) (weight_of AGAINST p)) of
                Inl x \<Rightarrow> Inl x | Inr q \<Rightarrow> Inr (fle threshold q))"
  using tally_weight [of p FOR] tally_weight [of p AGAINST] tally_weight [of p ABSTAIN]
  by (simp add: is_approved_def Let_def)

lemma is_approved_votes: "gp_votes p = gp_votes p' \<Longrightarrow> is_approved p q t = is_approved p' q t"
  by (simp add: is_approved_def tally_def)

section \<open>How a proposal can change\<close>

definition proposal_edge :: "proposal_status \<Rightarrow> proposal_status \<Rightarrow> bool" where
  "proposal_edge a b \<longleftrightarrow>
     (a, b) \<in> {(REVIEW, VOTING), (VOTING, APPROVED), (VOTING, REJECTED), (APPROVED, EXECUTED)}"

text \<open>One vote per address, positive weights, and a verdict that the votes bear out.\<close>

definition proposal_ok :: "governance_proposal \<Rightarrow> bool" where
  "proposal_ok p \<longleftrightarrow> distinct (map v_voter_address (gp_votes p)) \<and>
     (\<forall>v \<in> set (gp_votes p). \<not> fle (v_weight v) (Fin 0)) \<and>
     (gp_status p = REVIEW \<longrightarrow> gp_votes p = []) \<and>
     (gp_status p \<in> {APPROVED, EXECUTED} \<longrightarrow> is_approved p default_quorum default_threshold = Inr True) \<and>
     (gp_status p = REJECTED \<longrightarrow> is_approved p default_quorum default_threshold = Inr False) \<and>
     (gp_executed_at p \<noteq> None \<longleftrightarrow> gp_status p = EXECUTED)"

definition proposal_next :: "governance_proposal \<Rightarrow> governance_proposal \<Rightarrow> bool" where
  "proposal_next p p' \<longleftrightarrow> (gp_status p' = gp_status p \<or> proposal_edge (gp_status p) (gp_status p')) \<and>
     (proposal_ok p \<longrightarrow> proposal_ok p') \<and> (gp_status p \<noteq> VOTING \<longrightarrow> gp_votes p' = gp_votes p) \<and>
     (\<exists>new. gp_votes p' = gp_votes p @ new) \<and> gp_proposal_id p' = gp_proposal_id p \<and> gp_required_proofs p' = gp_required_proofs p"

lemma proposal_next_refl [simp]: "proposal_next p p"
  by (simp add: proposal_next_def)

lemma proposal_next_ops:
  "gp_status p = REVIEW \<Longrightarrow> proposal_next p (p\<lparr>gp_status := VOTING\<rparr>)"
  "gp_status p = REVIEW \<Longrightarrow> proposal_next p (p\<lparr>gp_status := VOTING, gp_voting_ends_at := e\<rparr>)"
  "gp_status p = APPROVED \<Longrightarrow> proposal_next p (p\<lparr>gp_status := EXECUTED, gp_executed_at := Some t, gp_execution_result := r\<rparr>)"
  using is_approved_votes [of "p\<lparr>gp_status := EXECUTED, gp_executed_at := Some t, gp_execution_result := r\<rparr>" p]
  by (auto simp: proposal_next_def proposal_edge_def proposal_ok_def)

lemma proposal_next_finalize:
  assumes "gp_status p = VOTING" and "is_approved p default_quorum default_threshold = Inr ok"
  shows "proposal_next p (p\<lparr>gp_status := (if ok then APPROVED else REJECTED)\<rparr>)"
  using assms is_approved_votes [of "p\<lparr>gp_status := (if ok then APPROVED else REJECTED)\<rparr>" p]
  by (auto simp: proposal_next_def proposal_edge_def proposal_ok_def)

lemma proposal_next_vote:
  assumes "gp_status p = VOTING" and "\<not> (\<exists>u \<in> set (gp_votes p). v_voter_address u = v_voter_address v)"
    and "\<not> fle (v_weight v) (Fin 0)"
  shows "proposal_next p (p\<lparr>gp_votes := gp_votes p @ [v]\<rparr>)"
  using assms by (auto simp: proposal_next_def proposal_ok_def)

section \<open>What each operation does\<close>

text \<open>The state after one proposal was replaced.\<close>

abbreviation put :: "string \<Rightarrow> governance_proposal \<Rightarrow> governance \<Rightarrow> governance" where
  "put pid p g \<equiv> g\<lparr>gov_proposals := dset pid p (gov_proposals g)\<rparr>"

lemma propose_effect:
  assumes "propose ty title descr proposer proofs params g env = (r, g', env')"
  shows "(\<forall>p. r \<noteq> Inr p) \<Longrightarrow> g' = g"
    and "r = Inr p \<Longrightarrow> g' = put (gp_proposal_id p) p g \<and> missing_proof (book env) proofs = None \<and>
      gp_proposal_id p = slice_to 20 (uuids env (uuid_pos env)) \<and> gp_required_proofs p = proofs \<and>
      gp_status p = REVIEW \<and> gp_votes p = [] \<and> gp_executed_at p = None"
  using assms
  by (auto simp: propose_def Let_def uuid4_hex_def time_time_def case_prod_beta split: option.splits sum.splits)

lemma start_voting_effect:
  assumes "start_voting pid g env = (r, g', env')"
  shows "g' = g \<or> (\<exists>p p'. dget (gov_proposals g) pid = Some p \<and> proposal_next p p' \<and> g' = put pid p' g)"
  using assms proposal_next_ops(1,2)
  by (auto simp: start_voting_def Let_def time_time_def split: option.splits sum.splits if_splits)

lemma cast_vote_effect:
  assumes "cast_vote pid voter choice reason g env = (r, g', env')"
  shows "\<not> r \<Longrightarrow> g' = g"
    and "r \<Longrightarrow> \<exists>p. dget (gov_proposals g) pid = Some p \<and> gp_status p = VOTING \<and>
      \<not> (\<exists>u \<in> set (gp_votes p). v_voter_address u = voter) \<and> \<not> fle (get_voting_power voter g) (Fin 0) \<and>
      g' = put pid (p\<lparr>gp_votes := gp_votes p @ [\<lparr>v_voter_address = voter, v_choice = choice,
        v_weight = get_voting_power voter g, v_timestamp = now_of env, v_reason = reason\<rparr>]\<rparr>) g"
  using assms
  by (auto simp: cast_vote_def Let_def time_time_def case_prod_beta split: option.splits if_splits)

lemma finalize_effect:
  assumes "finalize pid g env = (r, g', env')"
  shows "r \<noteq> Inr True \<Longrightarrow> g' = g"
    and "r = Inr True \<Longrightarrow> \<exists>p ok. dget (gov_proposals g) pid = Some p \<and> gp_status p = VOTING \<and>
      is_approved p default_quorum default_threshold = Inr ok \<and>
      g' = put pid (p\<lparr>gp_status := (if ok then APPROVED else REJECTED)\<rparr>) g"
  using assms
  by (auto simp: finalize_def Let_def time_time_def case_prod_beta split: option.splits sum.splits if_splits)

lemma execute_effect:
  assumes "execute_proposal pid executor g env = (r, g', env')"
  shows "\<not> r \<Longrightarrow> g' = g"
    and "r \<Longrightarrow> \<exists>p t. dget (gov_proposals g) pid = Some p \<and> gp_status p = APPROVED \<and>
      g' = put pid (p\<lparr>gp_status := EXECUTED, gp_executed_at := Some t,
        gp_execution_result := Some (''Executed by '' @ executor)\<rparr>) g"
  using assms
  by (auto simp: execute_proposal_def Let_def time_time_def case_prod_beta split: option.splits if_splits)

section \<open>Runs of the governance module\<close>

text \<open>
  The calls it receives. A new proposal gets an identifier that no earlier one has (\<open>uuid4\<close> does not
  repeat); other modules may change the process state in between.
\<close>

inductive gov_step :: "governance \<times> l3_env \<Rightarrow> governance \<times> l3_env \<Rightarrow> bool" where
  gs_power: "gov_step (g, env) (set_voting_power address p g, env)"
| gs_propose: "dget (gov_proposals g) (slice_to 20 (uuids env (uuid_pos env))) = None \<Longrightarrow>
     propose ty title descr proposer proofs params g env = (rp, g', env') \<Longrightarrow> gov_step (g, env) (g', env')"
| gs_start: "start_voting pid g env = (rs, g', env') \<Longrightarrow> gov_step (g, env) (g', env')"
| gs_vote: "cast_vote pid voter choice reason g env = (b, g', env') \<Longrightarrow> gov_step (g, env) (g', env')"
| gs_finalize: "finalize pid g env = (rf, g', env') \<Longrightarrow> gov_step (g, env) (g', env')"
| gs_execute: "execute_proposal pid executor g env = (b, g', env') \<Longrightarrow> gov_step (g, env) (g', env')"
| gs_other: "gov_step (g, env) (g, env')"

text \<open>A call replaces one proposal by a later state of it, adds a new one, or leaves them all.\<close>

lemma gov_step_cases:
  assumes "gov_step (g, env) (g', env')"
  shows "gov_proposals g' = gov_proposals g \<or>
    (\<exists>pid p p'. dget (gov_proposals g) pid = Some p \<and> proposal_next p p' \<and>
       gov_proposals g' = dset pid p' (gov_proposals g)) \<or>
    (\<exists>p. dget (gov_proposals g) (gp_proposal_id p) = None \<and> proposal_ok p \<and> missing_proof (book env) (gp_required_proofs p) = None \<and>
       gov_proposals g' = dset (gp_proposal_id p) p (gov_proposals g))"
proof -
  have same: ?thesis if "g' = g" using that by simp
  have upd: ?thesis if "\<exists>p p'. dget (gov_proposals g) pid = Some p \<and> proposal_next p p' \<and> g' = put pid p' g" for pid
    using that by (elim exE conjE) (rule disjI2, rule disjI1, auto)
  from assms show ?thesis
  proof (cases rule: gov_step.cases)
    case (gs_power address p)
    then show ?thesis by (simp add: set_voting_power_def)
  next
    case (gs_propose ty title descr proposer proofs params rp)
    show ?thesis
    proof (cases rp)
      case (Inl x)
      then show ?thesis using propose_effect(1) [OF gs_propose(2)] by simp
    next
      case (Inr p)
      note eff = propose_effect(2) [OF gs_propose(2) this]
      then have "proposal_ok p" by (simp add: proposal_ok_def)
      then show ?thesis using eff gs_propose(1) by (intro disjI2 exI [of _ p]) simp
    qed
  next
    case (gs_start pid rs)
    from start_voting_effect [OF gs_start] same upd show ?thesis by blast
  next
    case (gs_vote pid voter choice reason b)
    have "\<exists>p p'. dget (gov_proposals g) pid = Some p \<and> proposal_next p p' \<and> g' = put pid p' g" if b
      using cast_vote_effect(2) [OF gs_vote that]
        proposal_next_vote [of _ "\<lparr>v_voter_address = voter, v_choice = choice, v_weight = get_voting_power voter g,
          v_timestamp = now_of env, v_reason = reason\<rparr>"] by fastforce
    then show ?thesis using cast_vote_effect(1) [OF gs_vote] same upd by blast
  next
    case (gs_finalize pid rf)
    have "\<exists>p p'. dget (gov_proposals g) pid = Some p \<and> proposal_next p p' \<and> g' = put pid p' g" if "rf = Inr True"
      using finalize_effect(2) [OF gs_finalize that] proposal_next_finalize by blast
    then show ?thesis using finalize_effect(1) [OF gs_finalize] same upd by blast
  next
    case (gs_execute pid executor b)
    have "\<exists>p p'. dget (gov_proposals g) pid = Some p \<and> proposal_next p p' \<and> g' = put pid p' g" if b
      using execute_effect(2) [OF gs_execute that] proposal_next_ops(3) by blast
    then show ?thesis using execute_effect(1) [OF gs_execute] same upd by blast
  next
    case gs_other
    then show ?thesis by (rule same)
  qed
qed






lemma gov_step_proposal:
  assumes "gov_step s t" and "dget (gov_proposals (fst s)) pid = Some p"
  shows "\<exists>p'. dget (gov_proposals (fst t)) pid = Some p' \<and> proposal_next p p'"
  using gov_step_cases [of "fst s" "snd s" "fst t" "snd t"] assms by auto

definition proposal_status_of :: "governance \<times> l3_env \<Rightarrow> string \<Rightarrow> proposal_status option" where
  "proposal_status_of s pid = map_option gp_status (dget (gov_proposals (fst s)) pid)"

interpretation proposal: lifecycle proposal_status_of gov_step proposal_edge
proof
  fix s t pid a
  assume "gov_step s t" and "proposal_status_of s pid = Some a"
  then show "\<exists>b. proposal_status_of t pid = Some b \<and> (b = a \<or> proposal_edge a b)"
    using gov_step_proposal [of s t pid] by (fastforce simp: proposal_status_of_def proposal_next_def)
qed

text \<open>The votes of a proposal that is no longer in voting are frozen.\<close>

lemma run_votes_frozen:
  assumes "gov_step\<^sup>*\<^sup>* s t" and "dget (gov_proposals (fst s)) pid = Some p"
    and "gp_status p \<in> {APPROVED, REJECTED, EXECUTED}"
  shows "\<exists>p'. dget (gov_proposals (fst t)) pid = Some p' \<and> gp_votes p' = gp_votes p \<and>
    gp_status p' \<in> {APPROVED, REJECTED, EXECUTED}"
  using assms
proof (induction rule: rtranclp_induct)
  case (step t u)
  then obtain p' where p': "dget (gov_proposals (fst t)) pid = Some p'" "gp_votes p' = gp_votes p"
    "gp_status p' \<in> {APPROVED, REJECTED, EXECUTED}" by blast
  from gov_step_proposal [OF step(2) p'(1)] obtain p'' where
    "dget (gov_proposals (fst u)) pid = Some p''" "proposal_next p' p''" by blast
  with p' show ?case by (auto simp: proposal_next_def proposal_edge_def)
qed blast

lemma run_votes_kept:
  assumes "gov_step\<^sup>*\<^sup>* s t" and "dget (gov_proposals (fst s)) pid = Some p"
  shows "\<exists>p' new. dget (gov_proposals (fst t)) pid = Some p' \<and> gp_votes p' = gp_votes p @ new"
  using assms
proof (induction rule: rtranclp_induct)
  case (step t u)
  then obtain p' new where p': "dget (gov_proposals (fst t)) pid = Some p'" "gp_votes p' = gp_votes p @ new" by blast
  from gov_step_proposal [OF step(2) p'(1)] obtain p'' where
    "dget (gov_proposals (fst u)) pid = Some p''" "proposal_next p' p''" by blast
  with p' show ?case by (auto simp: proposal_next_def)
qed simp

section \<open>Properties\<close>


text \<open>A vote in favour that decides a proposal alone.\<close>

lemma default_limits:
  "default_quorum = Fin (3602879701896397 / 2 ^ 54)"
  "default_threshold = Fin (5404319552844595 / 2 ^ 53)"
  using mkf_eqI [of "- 55" "1 / 5" 7205759403792794] mkf_eqI [of "- 53" "3 / 5" 5404319552844595]
  by (simp_all add: default_quorum_def default_threshold_def pow2_def f_overflow_def)



text \<open>
  One address, one vote: after a vote was accepted, a further vote of the same address on the
  same proposal is refused in every later state, whatever it says.
\<close>

theorem no_second_vote:
  assumes "cast_vote pid voter choice reason g env = (True, g1, env1)"
    and "gov_step\<^sup>*\<^sup>* (g1, env1) (g2, env2)"
  shows "cast_vote pid voter choice2 reason2 g2 env3 = (False, g2, env3)"
proof -
  from cast_vote_effect(2) [OF assms(1)] obtain p1 v where p1: "dget (gov_proposals g1) pid = Some p1"
    and v: "v \<in> set (gp_votes p1)" "v_voter_address v = voter"
    by fastforce
  from run_votes_kept [OF assms(2), of pid p1] p1 obtain p2 where
    "dget (gov_proposals g2) pid = Some p2" "v \<in> set (gp_votes p2)" using v by auto
  with v show ?thesis by (auto simp: cast_vote_def)
qed

text \<open>A proposal in voting, for concrete runs.\<close>

definition sample_proposal :: "vote list \<Rightarrow> governance_proposal" where
  "sample_proposal vs = \<lparr>gp_proposal_id = ''p1'', gp_proposal_type = TREASURY_ACTION, gp_title = ''t'',
     gp_description = ''d'', gp_proposer = ''p'', gp_required_proofs = [], gp_params = [],
     gp_status = VOTING, gp_created_at = Fin 0, gp_review_ends_at = Some (Fin 0),
     gp_voting_ends_at = Some (Fin 0), gp_votes = vs, gp_executed_at = None, gp_execution_result = None\<rparr>"

definition sample_gov :: "vote list \<Rightarrow> governance" where
  "sample_gov vs = (governance_init 0 0)\<lparr>gov_proposals := [(''p1'', sample_proposal vs)],
     gov_voting_power := [(''v'', Fin 1)]\<rparr>"

theorem no_second_vote_witness:
  "\<exists>g1 env1. cast_vote ''p1'' ''v'' FOR [] (sample_gov []) (sample_env []) = (True, g1, env1) \<and>
     cast_vote ''p1'' ''v'' AGAINST [] g1 env1 = (False, g1, env1)"
proof -
  have "\<exists>g1 env1. cast_vote ''p1'' ''v'' FOR [] (sample_gov []) (sample_env []) = (True, g1, env1)"
    by (simp add: cast_vote_def sample_gov_def sample_proposal_def get_voting_power_def dget_default_def
        time_time_def Let_def case_prod_beta)
  then obtain g1 env1 where c: "cast_vote ''p1'' ''v'' FOR [] (sample_gov []) (sample_env []) = (True, g1, env1)" by blast
  from no_second_vote [OF c rtranclp.rtrancl_refl] c show ?thesis by blast
qed

text \<open>
  A proposal is created only if every proof it requires is an entry of the proof book, and then
  starts in review with no votes; if one is missing, \<open>propose\<close> raises ValueError and neither the
  proposals nor the process state change.
\<close>

theorem propose_requires_proofs:
  assumes "propose ty title descr proposer proofs params g env = (r, g', env')"
  shows "(case r of
      Inr p \<Rightarrow> (\<forall>h \<in> set proofs. \<exists>e \<in> set (pb_entries (book env)). pe_entry_hash e = h) \<and>
        gp_status p = REVIEW \<and> gp_votes p = [] \<and> dget (gov_proposals g') (gp_proposal_id p) = Some p
    | Inl x \<Rightarrow> g' = g) \<and>
    (\<forall>h \<in> set proofs. (\<forall>e \<in> set (pb_entries (book env)). pe_entry_hash e \<noteq> h) \<longrightarrow>
       (\<exists>msg. r = Inl (ValueError msg)) \<and> env' = env)"
proof -
  have some: "\<exists>h' \<in> set hs. missing_proof b hs = Some h'" if "h \<in> set hs" "\<forall>e \<in> set (pb_entries b). pe_entry_hash e \<noteq> h" for b h hs
    using that get_entries_subset [of b None None 200] by (induction hs) auto
  have none: "\<forall>h \<in> set hs. \<exists>e \<in> set (pb_entries b). pe_entry_hash e = h" if "missing_proof b hs = None" for b hs
    using that get_entries_subset [of b None None 200] by (induction hs) (auto split: if_splits)
  have "\<exists>msg. r = Inl (ValueError msg) \<and> env' = env" if "missing_proof (book env) proofs = Some h'" for h'
    using assms that by (auto simp: propose_def)
  then have second: "\<forall>h \<in> set proofs. (\<forall>e \<in> set (pb_entries (book env)). pe_entry_hash e \<noteq> h) \<longrightarrow>
       (\<exists>msg. r = Inl (ValueError msg)) \<and> env' = env"
    using some by blast
  show ?thesis
  proof (cases r)
    case (Inl x)
    then show ?thesis using propose_effect(1) [OF assms] second by simp
  next
    case (Inr p)
    from propose_effect(2) [OF assms this] none second Inr show ?thesis by simp
  qed
qed

theorem propose_requires_proofs_witness:
  "\<exists>msg g' env'. propose TREASURY_ACTION ''t'' ''d'' ''p'' [''h''] [] (sample_gov []) (sample_env []) =
     (Inl (ValueError msg), g', env') \<and> g' = sample_gov []"
proof -
  obtain r g' env' where p: "propose TREASURY_ACTION ''t'' ''d'' ''p'' [''h''] [] (sample_gov []) (sample_env []) = (r, g', env')"
    by (metis prod_cases3)
  from propose_requires_proofs [OF p] p show ?thesis by auto
qed

text \<open>
  Abstentions alone cannot be finalized: if every vote is an abstention and they reach the quorum,
  \<open>finalize\<close> raises ZeroDivisionError after the deadline and the proposal stays in voting.
\<close>

theorem abstentions_block_finalize:
  assumes "dget (gov_proposals g) pid = Some p" and "gp_status p = VOTING"
    and "\<forall>v \<in> set (gp_votes p). v_choice v = ABSTAIN"
    and "\<not> flt (fadd (Fin 0) (weight_of ABSTAIN p)) default_quorum"
    and "gp_voting_ends_at p = Some t" and "\<not> flt (now_of env) t"
  shows "finalize pid g env = (Inl ZeroDivisionError, g, tick env)"
proof -
  have zero: "weight_of FOR p = Fin 0" "weight_of AGAINST p = Fin 0"
    using assms(3) by (auto simp: weight_of_def filter_empty_conv intro!: arg_cong [of _ "[]" fsum, THEN trans])
  have "\<not> feq (fadd (Fin 0) (weight_of ABSTAIN p)) (Fin 0)"
  proof
    assume "feq (fadd (Fin 0) (weight_of ABSTAIN p)) (Fin 0)"
    then have "fadd (Fin 0) (weight_of ABSTAIN p) = Fin 0" by (simp add: feq_def)
    with assms(4) show False by (simp add: default_limits)
  qed
  then have "is_approved p default_quorum default_threshold = Inl ZeroDivisionError"
    using assms(4) by (simp add: is_approved_weights zero)
  then show ?thesis using assms by (simp add: finalize_def time_time_def)
qed

theorem abstentions_block_finalize_witness:
  "finalize ''p1'' (sample_gov [\<lparr>v_voter_address = ''v'', v_choice = ABSTAIN, v_weight = Fin 1,
     v_timestamp = Fin 0, v_reason = []\<rparr>]) (sample_env []) =
   (Inl ZeroDivisionError, sample_gov [\<lparr>v_voter_address = ''v'', v_choice = ABSTAIN, v_weight = Fin 1,
     v_timestamp = Fin 0, v_reason = []\<rparr>], tick (sample_env []))"
  by (rule abstentions_block_finalize [where p = "sample_proposal [\<lparr>v_voter_address = ''v'', v_choice = ABSTAIN,
        v_weight = Fin 1, v_timestamp = Fin 0, v_reason = []\<rparr>]" and t = "Fin 0"])
    (simp_all add: sample_gov_def sample_proposal_def weight_of_def fsum_def default_limits)

text \<open>
  A verdict is final: once a proposal is rejected or executed its status never changes, and from
  the verdict on its votes are frozen.
\<close>

theorem verdict_is_final:
  assumes "gov_step\<^sup>*\<^sup>* (g, env) (g', env')" and "dget (gov_proposals g) pid = Some p"
    and "gp_status p \<in> {APPROVED, REJECTED, EXECUTED}"
  shows "\<exists>p'. dget (gov_proposals g') pid = Some p' \<and> gp_votes p' = gp_votes p \<and>
    (gp_status p' = gp_status p \<or> gp_status p = APPROVED \<and> gp_status p' = EXECUTED)"
proof -
  from run_votes_frozen [OF assms(1), of pid p] assms(2,3) obtain p' where
    p': "dget (gov_proposals g') pid = Some p'" "gp_votes p' = gp_votes p" by auto
  have st: "proposal_status_of (g, env) pid = Some (gp_status p)" "proposal_status_of (g', env') pid = Some (gp_status p')"
    using assms(2) p' by (simp_all add: proposal_status_of_def)
  have path: "proposal_edge\<^sup>*\<^sup>* (gp_status p) (gp_status p')"
    using proposal.run_path [OF assms(1) st(1)] st(2) by auto
  have "b = a \<or> a = APPROVED \<and> b = EXECUTED"
    if "proposal_edge\<^sup>*\<^sup>* a b" "a \<in> {APPROVED, REJECTED, EXECUTED}" for a b
    using that by (induction rule: rtranclp_induct) (auto simp: proposal_edge_def)
  from this [OF path assms(3)] p' show ?thesis by auto
qed

theorem verdict_is_final_witness:
  "\<exists>p'. dget (gov_proposals (set_voting_power ''w'' (Fin 2) ((sample_gov [])\<lparr>gov_proposals :=
       [(''p1'', (sample_proposal [])\<lparr>gp_status := REJECTED\<rparr>)]\<rparr>))) ''p1'' = Some p' \<and> gp_status p' = REJECTED"
proof -
  let ?g = "(sample_gov [])\<lparr>gov_proposals := [(''p1'', (sample_proposal [])\<lparr>gp_status := REJECTED\<rparr>)]\<rparr>"
  have "gov_step\<^sup>*\<^sup>* (?g, sample_env []) (set_voting_power ''w'' (Fin 2) ?g, sample_env [])" by (blast intro: gs_power)
  from verdict_is_final [OF this, of "''p1''" "(sample_proposal [])\<lparr>gp_status := REJECTED\<rparr>"] show ?thesis
    by (auto simp: sample_gov_def)
qed

end
