(* ===== verification/Volatility_Oracle.thy ===== *)
theory Volatility_Oracle
  imports L3_Config Proof_Book
begin

text \<open>
  \<open>membra-l3/membra_l3/volatility_oracle.py\<close>: price, gas and liquidity feeds, the assessment that turns
  them into one signal, and the gate that a rebase must pass.
\<close>

section \<open>Data\<close>

datatype volatility_signal =
    VOLATILITY_DETECTED | VOLATILITY_PAUSED | GAS_SPIKE | GAS_NORMAL | COVERAGE_WARNING | COVERAGE_HEALTHY
  | ORACLE_STALE | ORACLE_FRESH | LIQUIDITY_LOW | LIQUIDITY_HEALTHY

fun volatility_signal_value :: "volatility_signal \<Rightarrow> string" where
  "volatility_signal_value VOLATILITY_DETECTED = ''volatility_detected''"
| "volatility_signal_value VOLATILITY_PAUSED = ''volatility_paused''"
| "volatility_signal_value GAS_SPIKE = ''gas_spike''"
| "volatility_signal_value GAS_NORMAL = ''gas_normal''"
| "volatility_signal_value COVERAGE_WARNING = ''coverage_warning''"
| "volatility_signal_value COVERAGE_HEALTHY = ''coverage_healthy''"
| "volatility_signal_value ORACLE_STALE = ''oracle_stale''"
| "volatility_signal_value ORACLE_FRESH = ''oracle_fresh''"
| "volatility_signal_value LIQUIDITY_LOW = ''liquidity_low''"
| "volatility_signal_value LIQUIDITY_HEALTHY = ''liquidity_healthy''"

text \<open>
  Two fields hold a float or, by default, an integer. They print differently, and a comparison with
  either is exact.
\<close>

datatype pynum = PyInt int | PyFloat pyfloat

fun num_val :: "pynum \<Rightarrow> pyfloat" where
  "num_val (PyInt n) = Fin (of_int n)"
| "num_val (PyFloat x) = x"

fun num_json :: "pynum \<Rightarrow> json" where
  "num_json (PyInt n) = JInt n"
| "num_json (PyFloat x) = JFloat x"

fun pynum_round :: "pynum \<Rightarrow> nat \<Rightarrow> pynum" where
  "pynum_round (PyInt n) d = PyInt n"
| "pynum_round (PyFloat x) d = PyFloat (fround x d)"

record price_point =
  pp_price_usd :: pyfloat
  pp_timestamp :: pyfloat
  pp_source :: string
  pp_volume_usd :: pyfloat

record gas_conditions =
  gc_base_fee_lamports :: int
  gc_priority_fee_lamports :: int
  gc_timestamp :: pyfloat
  gc_congested :: bool

record liquidity_snapshot =
  ls_token_symbol :: string
  ls_pool_usd :: pynum
  ls_depth_2pct_usd :: pynum
  ls_timestamp :: pyfloat

record report_details =
  rd_data_points :: int
  rd_oracle_stale :: bool
  rd_gas_spike :: bool
  rd_liquidity_low :: bool
  rd_coverage_low :: bool

record volatility_report =
  vr_signal :: volatility_signal
  vr_confidence :: pyfloat
  vr_membra_twap :: pyfloat
  vr_price_change_pct :: pyfloat
  vr_gas_conditions :: gas_conditions
  vr_liquidity :: liquidity_snapshot
  vr_coverage_ratio :: pyfloat
  vr_oracle_age_seconds :: pynum
  vr_timestamp :: pyfloat
  vr_details :: report_details

record volatility_oracle =
  vo_config :: l3_config
  vo_price_history :: "price_point list"
  vo_gas_history :: "gas_conditions list"
  vo_last_liquidity :: "liquidity_snapshot option"
  vo_last_oracle_update :: pyfloat
  vo_last_report :: "volatility_report option"

definition volatility_oracle_init :: "l3_config \<Rightarrow> volatility_oracle" where
  "volatility_oracle_init c = \<lparr>vo_config = c, vo_price_history = [], vo_gas_history = [],
     vo_last_liquidity = None, vo_last_oracle_update = Fin 0, vo_last_report = None\<rparr>"

section \<open>Feeds\<close>

text \<open>The new point is stored before the cutoff is computed, so it stays when the subtraction raises.\<close>

definition feed_price ::
  "pyfloat \<Rightarrow> string \<Rightarrow> pyfloat \<Rightarrow> volatility_oracle \<Rightarrow> l3_env \<Rightarrow> unit result \<times> volatility_oracle \<times> l3_env" where
  "feed_price price src volume vo env =
     (let (t1, env) = time_time env;
          pp = \<lparr>pp_price_usd = price, pp_timestamp = t1, pp_source = src, pp_volume_usd = volume\<rparr>;
          vo = vo\<lparr>vo_price_history := vo_price_history vo @ [pp], vo_last_oracle_update := t1\<rparr>;
          (t2, env) = time_time env
      in case of_pyint (volatility_twap_window_seconds (vo_config vo) * 2) of Inl x \<Rightarrow> (Inl x, vo, env)
       | Inr w \<Rightarrow>
           let cutoff = fsub t2 w
           in (Inr (), vo\<lparr>vo_price_history := filter (\<lambda>p. fle cutoff (pp_timestamp p)) (vo_price_history vo)\<rparr>, env))"

definition feed_gas ::
  "int \<Rightarrow> int \<Rightarrow> bool \<Rightarrow> volatility_oracle \<Rightarrow> l3_env \<Rightarrow> unit result \<times> volatility_oracle \<times> l3_env" where
  "feed_gas base_fee priority_fee congested vo env =
     (let (t1, env) = time_time env;
          gc = \<lparr>gc_base_fee_lamports = base_fee, gc_priority_fee_lamports = priority_fee, gc_timestamp = t1,
                 gc_congested = congested\<rparr>;
          vo = vo\<lparr>vo_gas_history := vo_gas_history vo @ [gc]\<rparr>;
          (t2, env) = time_time env
      in case of_pyint (volatility_twap_window_seconds (vo_config vo) * 2) of Inl x \<Rightarrow> (Inl x, vo, env)
       | Inr w \<Rightarrow>
           let cutoff = fsub t2 w
           in (Inr (), vo\<lparr>vo_gas_history := filter (\<lambda>g. fle cutoff (gc_timestamp g)) (vo_gas_history vo)\<rparr>, env))"

definition feed_liquidity ::
  "string \<Rightarrow> pyfloat \<Rightarrow> pyfloat \<Rightarrow> volatility_oracle \<Rightarrow> l3_env \<Rightarrow> volatility_oracle \<times> l3_env" where
  "feed_liquidity token pool depth vo env =
     (let (t, env) = time_time env
      in (vo\<lparr>vo_last_liquidity := Some \<lparr>ls_token_symbol = token, ls_pool_usd = PyFloat pool,
            ls_depth_2pct_usd = PyFloat depth, ls_timestamp = t\<rparr>\<rparr>, env))"

section \<open>Assessment\<close>

text \<open>The average and the relative change of a list of recent prices.\<close>

definition twap_of :: "price_point list \<Rightarrow> (pyfloat \<times> pyfloat) result" where
  "twap_of recent =
     (if length recent < 2 then Inr (Fin 0, Fin 0)
      else let total_volume = fsum (map pp_volume_usd recent)
      in case (if flt (Fin 0) total_volume
               then fdiv (fsum (map (\<lambda>p. fmul (pp_price_usd p) (pp_volume_usd p)) recent)) total_volume
               else fdiv (fsum (map pp_price_usd recent)) (Fin (of_nat (length recent)))) of
           Inl x \<Rightarrow> Inl x
         | Inr twap \<Rightarrow>
             let oldest_price = pp_price_usd (hd recent)
             in if flt (Fin 0) oldest_price
                then (case fdiv (fsub (pp_price_usd (last recent)) oldest_price) oldest_price of
                        Inl x \<Rightarrow> Inl x | Inr price_change \<Rightarrow> Inr (twap, price_change))
                else Inr (twap, Fin 0))"

definition compute_twap :: "volatility_oracle \<Rightarrow> l3_env \<Rightarrow> (pyfloat \<times> pyfloat) result \<times> l3_env" where
  "compute_twap vo env =
     (let (t, env) = time_time env
      in case of_pyint (volatility_twap_window_seconds (vo_config vo)) of Inl x \<Rightarrow> (Inl x, env)
       | Inr w \<Rightarrow>
           let window = fsub t w
           in (twap_of (filter (\<lambda>p. fle window (pp_timestamp p)) (vo_price_history vo)), env))"

definition latest_gas :: "volatility_oracle \<Rightarrow> gas_conditions option" where
  "latest_gas vo = (if vo_gas_history vo = [] then None else Some (last (vo_gas_history vo)))"

text \<open>The checks of \<open>assess\<close>.\<close>

definition oracle_age_at :: "volatility_oracle \<Rightarrow> pyfloat \<Rightarrow> pynum" where
  "oracle_age_at vo now =
     (if flt (Fin 0) (vo_last_oracle_update vo) then PyFloat (fsub now (vo_last_oracle_update vo)) else PyInt 999999)"

definition gas_at :: "volatility_oracle \<Rightarrow> pyfloat \<Rightarrow> gas_conditions" where
  "gas_at vo now = (case latest_gas vo of Some g \<Rightarrow> g
     | None \<Rightarrow> \<lparr>gc_base_fee_lamports = 5000, gc_priority_fee_lamports = 0, gc_timestamp = now, gc_congested = False\<rparr>)"

definition liquidity_at :: "volatility_oracle \<Rightarrow> pyfloat \<Rightarrow> liquidity_snapshot" where
  "liquidity_at vo now = (case vo_last_liquidity vo of Some l \<Rightarrow> l
     | None \<Rightarrow> \<lparr>ls_token_symbol = ''MEMBRA'', ls_pool_usd = PyInt 0, ls_depth_2pct_usd = PyInt 0, ls_timestamp = now\<rparr>)"

definition oracle_stale_at :: "volatility_oracle \<Rightarrow> pyfloat \<Rightarrow> bool" where
  "oracle_stale_at vo now \<longleftrightarrow>
     flt (Fin (of_int (oracle_staleness_seconds (vo_config vo)))) (num_val (oracle_age_at vo now))"

definition gas_spike_at :: "volatility_oracle \<Rightarrow> pyfloat \<Rightarrow> bool" where
  "gas_spike_at vo now \<longleftrightarrow> gc_congested (gas_at vo now) \<or> gc_priority_fee_lamports (gas_at vo now) > 100000"

definition liquidity_low_at :: "volatility_oracle \<Rightarrow> pyfloat \<Rightarrow> bool" where
  "liquidity_low_at vo now \<longleftrightarrow> flt (num_val (ls_pool_usd (liquidity_at vo now))) (Fin 5000) \<or>
     flt (num_val (ls_depth_2pct_usd (liquidity_at vo now))) (Fin 1000)"

definition coverage_low :: "volatility_oracle \<Rightarrow> pyfloat \<Rightarrow> bool" where
  "coverage_low vo cov \<longleftrightarrow> flt cov (gas_vault_min_coverage_ratio (vo_config vo))"

text \<open>The primary signal and its confidence.\<close>

definition primary_signal :: "volatility_oracle \<Rightarrow> pyfloat \<Rightarrow> pyfloat \<Rightarrow> pyfloat \<Rightarrow> volatility_signal \<times> pyfloat" where
  "primary_signal vo now cov price_change =
     (if oracle_stale_at vo now then (ORACLE_STALE, mkf (95 / 100))
      else if coverage_low vo cov then (COVERAGE_WARNING, mkf (9 / 10))
      else if liquidity_low_at vo now then (LIQUIDITY_LOW, mkf (8 / 10))
      else if gas_spike_at vo now then (GAS_SPIKE, mkf (85 / 100))
      else if fle (volatility_signal_threshold (vo_config vo)) (fabs price_change)
      then (VOLATILITY_DETECTED, fmin (mkf (95 / 100)) (fadd (Fin (1 / 2)) (fmul (fabs price_change) (Fin 10))))
      else (VOLATILITY_PAUSED, mkf (7 / 10)))"

definition assess :: "pyfloat \<Rightarrow> volatility_oracle \<Rightarrow> l3_env \<Rightarrow> volatility_report result \<times> volatility_oracle \<times> l3_env" where
  "assess cov vo env =
     (let (now, env) = time_time env; (r, env) = compute_twap vo env
      in case r of Inl x \<Rightarrow> (Inl x, vo, env)
       | Inr (twap, price_change) \<Rightarrow>
           let oracle_age = oracle_age_at vo now; gas = gas_at vo now; liq = liquidity_at vo now;
               (signal, confidence) = primary_signal vo now cov price_change;
               report = \<lparr>vr_signal = signal, vr_confidence = confidence, vr_membra_twap = twap,
                 vr_price_change_pct = fmul price_change (Fin 100), vr_gas_conditions = gas, vr_liquidity = liq,
                 vr_coverage_ratio = cov, vr_oracle_age_seconds = oracle_age, vr_timestamp = now,
                 vr_details = \<lparr>rd_data_points = int (length (vo_price_history vo)),
                   rd_oracle_stale = oracle_stale_at vo now, rd_gas_spike = gas_spike_at vo now,
                   rd_liquidity_low = liquidity_low_at vo now, rd_coverage_low = coverage_low vo cov\<rparr>\<rparr>;
               vo = vo\<lparr>vo_last_report := Some report\<rparr>;
               (e, env) = log_proof VOLATILITY [
                 (''signal'', JStr (volatility_signal_value signal)),
                 (''confidence'', JFloat confidence),
                 (''membra_twap'', JFloat twap),
                 (''price_change_pct'', JFloat (fround (fmul price_change (Fin 100)) 4)),
                 (''coverage_ratio'', JFloat (fround cov 4)),
                 (''oracle_age_seconds'', num_json (pynum_round oracle_age 1)),
                 (''gas_priority_fee'', JInt (gc_priority_fee_lamports gas)),
                 (''liquidity_pool_usd'', num_json (ls_pool_usd liq))] env
           in (Inr report, vo, env))"

definition can_unlock_rebase :: "volatility_oracle \<Rightarrow> bool" where
  "can_unlock_rebase vo = (case vo_last_report vo of None \<Rightarrow> False
     | Some r \<Rightarrow> vr_signal r = VOLATILITY_DETECTED \<and> fle (mkf (7 / 10)) (vr_confidence r) \<and>
         \<not> rd_oracle_stale (vr_details r) \<and> \<not> rd_coverage_low (vr_details r) \<and>
         \<not> rd_liquidity_low (vr_details r))"

section \<open>The confidence of a detected movement\<close>

lemma oracle_literals:
  "mkf (1 / 50) = Fin (5764607523034235 / 2 ^ 58)"
  "mkf (7 / 10) = Fin (6305039478318694 / 2 ^ 53)"
  "mkf (19 / 20) = Fin (8556839292003942 / 2 ^ 53)"
  using mkf_eqI [of "- 58" "1 / 50" 5764607523034235] mkf_eqI [of "- 53" "7 / 10" 6305039478318694]
    mkf_eqI [of "- 53" "19 / 20" 8556839292003942]
  by (simp_all add: pow2_def f_overflow_def)

text \<open>Rounding at the threshold: ten times the float 0.02 is the float 0.2, and 0.7 is a float.\<close>

lemma threshold_roundings:
  "rnd (5764607523034235 / 2 ^ 58 * 10) = 7205759403792794 / 2 ^ 55"
  "rnd (6305039478318694 / 2 ^ 53) = 6305039478318694 / 2 ^ 53"
  using rnd_eqI [of "- 55" "5764607523034235 / 2 ^ 58 * 10" 7205759403792794]
    f64.exact [of 6305039478318694 "- 53"]
  by (simp_all add: pow2_def)

lemma fabs_fle_cases: "fle (Fin c) (fabs x) \<Longrightarrow> fabs x = PInf \<or> (\<exists>a. fabs x = Fin a \<and> c \<le> a)"
  by (cases x) auto

lemma mkf_ge:
  assumes "c \<le> x" and "0 \<le> rnd c"
  shows "mkf x = PInf \<or> mkf x = Fin (rnd x) \<and> rnd c \<le> rnd x"
  using rnd_mono [OF assms(1)] assms(2) f_overflow_big by (auto simp: mkf_def Let_def)

lemma detected_confident:
  assumes "fle (mkf (2 / 100)) (fabs pc)"
  shows "fle (mkf (7 / 10)) (fmin (mkf (95 / 100)) (fadd (Fin (1 / 2)) (fmul (fabs pc) (Fin 10))))"
proof -
  let ?y = "fmul (fabs pc) (Fin 10)"
  have "?y = PInf \<or> (\<exists>b. ?y = Fin b \<and> 7205759403792794 / 2 ^ 55 \<le> b)"
  proof (cases "fabs pc = PInf")
    case False
    have "fle (Fin (5764607523034235 / 2 ^ 58)) (fabs pc)" using assms oracle_literals(1) by simp
    from fabs_fle_cases [OF this] False obtain a where a: "fabs pc = Fin a" "5764607523034235 / 2 ^ 58 \<le> a"
      by blast
    then have "5764607523034235 / 2 ^ 58 * 10 \<le> a * 10" by simp
    from mkf_ge [OF this] show ?thesis using a threshold_roundings(1) by auto
  qed (simp add: signed_inf_def)
  then have "fadd (Fin (1 / 2)) ?y = PInf \<or>
      (\<exists>b. fadd (Fin (1 / 2)) ?y = Fin b \<and> 6305039478318694 / 2 ^ 53 \<le> b)"
  proof (elim disjE exE conjE)
    fix b assume b: "?y = Fin b" "7205759403792794 / 2 ^ 55 \<le> b"
    then have "6305039478318694 / 2 ^ 53 \<le> 1 / 2 + b" by simp
    from mkf_ge [OF this] show ?thesis using b threshold_roundings(2) by auto
  qed simp
  then show ?thesis by (auto simp: oracle_literals fmin_def)
qed

section \<open>Properties\<close>

text \<open>
  The rebase gate: after an assessment under the default configuration a rebase is unlocked
  exactly when the price data is fresh, the vault is covered, the pool is liquid, gas is normal and the
  price moved by at least the threshold of two percent. The confidence test never decides: a
  detected movement always has a confidence of at least 0.7.
\<close>

theorem rebase_gate_exact:
  assumes "vo_config vo = DEFAULT_CONFIG" and "assess cov vo env = (Inr report, vo', env')"
  shows "\<exists>price_change. vr_price_change_pct report = fmul price_change (Fin 100) \<and>
    fst (compute_twap vo (tick env)) = Inr (vr_membra_twap report, price_change) \<and>
    (can_unlock_rebase vo' \<longleftrightarrow>
      \<not> oracle_stale_at vo (now_of env) \<and> \<not> flt cov (Fin (3 / 2)) \<and> \<not> liquidity_low_at vo (now_of env) \<and>
      \<not> gas_spike_at vo (now_of env) \<and> fle (mkf (2 / 100)) (fabs price_change))"
proof -
  from assms(2) obtain twap pc where tw: "fst (compute_twap vo (tick env)) = Inr (twap, pc)"
    and rep: "vr_price_change_pct report = fmul pc (Fin 100)" "vr_membra_twap report = twap"
      "vr_signal report = fst (primary_signal vo (now_of env) cov pc)"
      "vr_confidence report = snd (primary_signal vo (now_of env) cov pc)"
      "rd_oracle_stale (vr_details report) = oracle_stale_at vo (now_of env)"
      "rd_coverage_low (vr_details report) = coverage_low vo cov"
      "rd_liquidity_low (vr_details report) = liquidity_low_at vo (now_of env)"
    and vo': "vo_last_report vo' = Some report"
    by (auto simp: assess_def time_time_def Let_def case_prod_beta split: sum.splits)
  have thr: "volatility_signal_threshold (vo_config vo) = mkf (2 / 100)"
    by (simp add: assms(1) DEFAULT_CONFIG_def post_init_def Let_def)
  have "can_unlock_rebase vo' \<longleftrightarrow>
      \<not> oracle_stale_at vo (now_of env) \<and> \<not> flt cov (Fin (3 / 2)) \<and> \<not> liquidity_low_at vo (now_of env) \<and>
      \<not> gas_spike_at vo (now_of env) \<and> fle (mkf (2 / 100)) (fabs pc)"
    using detected_confident [of pc] assms(1)
    unfolding can_unlock_rebase_def vo' option.case rep primary_signal_def thr coverage_low_def
    by (simp split: if_splits)
  then show ?thesis using tw rep by blast
qed

text \<open>An oracle with fresh prices that rose by half, and a healthy pool.\<close>

definition sample_oracle :: volatility_oracle where
  "sample_oracle = (volatility_oracle_init DEFAULT_CONFIG)\<lparr>
     vo_price_history := [\<lparr>pp_price_usd = Fin 2, pp_timestamp = Fin 5, pp_source = ''a'', pp_volume_usd = Fin 0\<rparr>,
       \<lparr>pp_price_usd = Fin 3, pp_timestamp = Fin 5, pp_source = ''a'', pp_volume_usd = Fin 0\<rparr>],
     vo_last_oracle_update := Fin 5,
     vo_last_liquidity := Some \<lparr>ls_token_symbol = ''MEMBRA'', ls_pool_usd = PyFloat (Fin 9000),
       ls_depth_2pct_usd = PyFloat (Fin 2000), ls_timestamp = Fin 5\<rparr>\<rparr>"

lemma sample_twap: "fst (compute_twap sample_oracle (tick (sample_env []))) = Inr (Fin (5 / 2), Fin (1 / 2))"
proof -
  have "mkf (5 / 2) = Fin (5 / 2)" "mkf (1 / 2) = Fin (1 / 2)"
    using mkf_rep [of 5 "- 1"] mkf_rep [of 1 "- 1"] by (simp_all add: pow2_def)
  then show ?thesis
    by (simp add: compute_twap_def sample_oracle_def volatility_oracle_init_def time_time_def of_pyint_small
        twap_of_def fsum_def fsub_def Let_def)
qed

theorem rebase_gate_exact_witness:
  "\<exists>report vo' env'. assess (Fin 2) sample_oracle (sample_env []) = (Inr report, vo', env') \<and> can_unlock_rebase vo'"
proof -
  have "\<exists>report vo' env'. assess (Fin 2) sample_oracle (sample_env []) = (Inr report, vo', env')"
    using sample_twap by (simp add: assess_def time_time_def Let_def case_prod_beta split: sum.splits)
  then obtain report vo' env' where a: "assess (Fin 2) sample_oracle (sample_env []) = (Inr report, vo', env')" by blast
  have cfg: "vo_config sample_oracle = DEFAULT_CONFIG" by (simp add: sample_oracle_def volatility_oracle_init_def)
  from rebase_gate_exact [OF cfg a] sample_twap have "can_unlock_rebase vo'"
    by (auto simp: oracle_stale_at_def oracle_age_at_def liquidity_low_at_def liquidity_at_def gas_spike_at_def gas_at_def
        latest_gas_def sample_oracle_def volatility_oracle_init_def fsub_def oracle_literals)
  with a show ?thesis by blast
qed

text \<open>
  An assessment only observes: it changes nothing of the oracle but the last report, appends one
  volatility entry with its signal to the proof book, and picks the signal by a fixed priority, stale
  data first, then coverage, liquidity, gas and price movement.
\<close>

theorem assess_only_observes:
  assumes "assess cov vo env = (Inr report, vo', env')"
  shows "vo' = vo\<lparr>vo_last_report := Some report\<rparr> \<and>
    (\<exists>e. pb_entries (book env') = pb_entries (book env) @ [e] \<and> pe_type e = VOLATILITY \<and>
       dget (pe_data e) ''signal'' = Some (JStr (volatility_signal_value (vr_signal report)))) \<and>
    (oracle_stale_at vo (now_of env) \<longrightarrow> vr_signal report = ORACLE_STALE) \<and>
    (vr_signal report = VOLATILITY_DETECTED \<longrightarrow> \<not> oracle_stale_at vo (now_of env) \<and> \<not> coverage_low vo cov \<and>
       \<not> liquidity_low_at vo (now_of env) \<and> \<not> gas_spike_at vo (now_of env))"
proof -
  have ct: "book (snd (compute_twap vo e)) = book e" for e
    by (simp add: compute_twap_def time_time_def Let_def split: sum.split)
  from assms obtain twap pc where "fst (compute_twap vo (tick env)) = Inr (twap, pc)"
    and sig: "vr_signal report = fst (primary_signal vo (now_of env) cov pc)"
    and "vo' = vo\<lparr>vo_last_report := Some report\<rparr>"
    and "\<exists>e. pb_entries (book env') = pb_entries (book env) @ [e] \<and> pe_type e = VOLATILITY \<and>
       dget (pe_data e) ''signal'' = Some (JStr (volatility_signal_value (vr_signal report)))"
    by (auto simp: assess_def time_time_def Let_def case_prod_beta ct split: sum.splits)
  then show ?thesis unfolding sig primary_signal_def by (simp split: if_splits)
qed

theorem assess_only_observes_witness:
  "\<exists>report vo' env' e. assess (Fin 2) (volatility_oracle_init DEFAULT_CONFIG) (sample_env []) = (Inr report, vo', env') \<and>
     vr_signal report = ORACLE_STALE \<and> pb_entries (book env') = [e]"
proof -
  let ?o = "volatility_oracle_init DEFAULT_CONFIG"
  have "\<exists>report vo' env'. assess (Fin 2) ?o (sample_env []) = (Inr report, vo', env')"
    by (simp add: assess_def compute_twap_def volatility_oracle_init_def twap_of_def of_pyint_small time_time_def Let_def
        case_prod_beta)
  then obtain report vo' env' where a: "assess (Fin 2) ?o (sample_env []) = (Inr report, vo', env')" by blast
  have "oracle_stale_at ?o (now_of (sample_env []))"
    by (simp add: oracle_stale_at_def oracle_age_at_def volatility_oracle_init_def)
  with assess_only_observes [OF a] a show ?thesis by auto
qed

end
