(* ===== verification/Sdk_Base.thy ===== *)
theory Sdk_Base
  imports Runtime "HOL-Library.Monad_Syntax"
begin

text \<open>
  What the modules of \<open>membra_sdk\<close> share: the truth value of a JSON value, reading fields of a JSON object,
  files of JSON lines and the clock and identifier source of a process. A file is kept as the list
  of the values its lines parse to; the reader and the printer of the text itself
  are those of the \<open>json\<close> module, which reads back what it has printed.
\<close>

section \<open>Values\<close>

text \<open>\<open>bool(x)\<close>.\<close>

fun jtruthy :: "json \<Rightarrow> bool" where
  "jtruthy JNull = False"
| "jtruthy (JBool b) = b"
| "jtruthy (JInt n) = (n \<noteq> 0)"
| "jtruthy (JFloat x) = ftruthy x"
| "jtruthy (JStr s) = (s \<noteq> [])"
| "jtruthy (JList xs) = (xs \<noteq> [])"
| "jtruthy (JObj d) = (d \<noteq> [])"

text \<open>\<open>d.get(k)\<close> as a condition.\<close>

definition dtruthy :: "json dict \<Rightarrow> string \<Rightarrow> bool" where
  "dtruthy d k = (case dget d k of None \<Rightarrow> False | Some v \<Rightarrow> jtruthy v)"

lemma dtruthy_dset [simp]: "dtruthy (dset k v d) k' = (if k' = k then jtruthy v else dtruthy d k')"
  by (simp add: dtruthy_def)

text \<open>Iterating over a value: the elements of a list, the characters of a string, the keys of an object.\<close>

fun jiter :: "json \<Rightarrow> json list result" where
  "jiter (JList xs) = Inr xs"
| "jiter (JStr s) = Inr (map (\<lambda>c. JStr [c]) s)"
| "jiter (JObj d) = Inr (map (\<lambda>(k, v). JStr k) d)"
| "jiter _ = Inl TypeError"

text \<open>\<open>repr\<close> of a string: single quotes unless it contains one and no double quote.\<close>

definition repr_char :: "char \<Rightarrow> char \<Rightarrow> string" where
  "repr_char q c = (let n = of_char c :: nat; bs = CHR 0x5C in
     if c = q \<or> c = bs then [bs, c]
     else if n = 10 then [bs, CHR ''n'']
     else if n = 13 then [bs, CHR ''r'']
     else if n = 9 then [bs, CHR ''t'']
     else if n < 32 \<or> 127 \<le> n \<and> n \<le> 160 \<or> n = 173 then [bs, CHR ''x''] @ drop 2 (hex4 n)
     else [c])"

definition repr_str :: "string \<Rightarrow> string" where
  "repr_str s = (let q = (if CHR 0x27 \<in> set s \<and> CHR 0x22 \<notin> set s then CHR 0x22 else CHR 0x27)
     in [q] @ concat (map (repr_char q) s) @ [q])"

text \<open>\<open>str(x)\<close> of a JSON value that is not a string, and \<open>repr(x)\<close> of any.\<close>

fun pyrepr :: "json \<Rightarrow> string" where
  "pyrepr JNull = ''None''"
| "pyrepr (JBool b) = (if b then ''True'' else ''False'')"
| "pyrepr (JInt n) = dec_int n"
| "pyrepr (JFloat x) = frepr x"
| "pyrepr (JStr s) = repr_str s"
| "pyrepr (JList xs) = ''['' @ join '', '' (map pyrepr xs) @ '']''"
| "pyrepr (JObj d) = ''{'' @ join '', '' (map (\<lambda>(k, v). repr_str k @ '': '' @ pyrepr v) d) @ ''}''"

section \<open>Optional fields\<close>

text \<open>\<open>None\<close> prints as \<open>null\<close>.\<close>

definition jopt :: "('a \<Rightarrow> json) \<Rightarrow> 'a option \<Rightarrow> json" where
  "jopt f x = (case x of None \<Rightarrow> JNull | Some y \<Rightarrow> f y)"

definition unjopt :: "(json \<Rightarrow> 'a option) \<Rightarrow> json \<Rightarrow> 'a option option" where
  "unjopt f v = (if v = JNull then Some None else map_option Some (f v))"

fun as_str :: "json \<Rightarrow> string option" where
  "as_str (JStr s) = Some s"
| "as_str _ = None"

fun as_float :: "json \<Rightarrow> pyfloat option" where
  "as_float (JFloat x) = Some x"
| "as_float _ = None"

fun as_int :: "json \<Rightarrow> int option" where
  "as_int (JInt n) = Some n"
| "as_int _ = None"

fun as_bool :: "json \<Rightarrow> bool option" where
  "as_bool (JBool b) = Some b"
| "as_bool _ = None"

fun as_obj :: "json \<Rightarrow> json dict option" where
  "as_obj (JObj d) = Some d"
| "as_obj _ = None"

fun as_list :: "json \<Rightarrow> json list option" where
  "as_list (JList xs) = Some xs"
| "as_list _ = None"

text \<open>Every element, or nothing.\<close>

fun traverse :: "('a \<Rightarrow> 'b option) \<Rightarrow> 'a list \<Rightarrow> 'b list option" where
  "traverse f [] = Some []"
| "traverse f (x # xs) = do { y \<leftarrow> f x; ys \<leftarrow> traverse f xs; Some (y # ys) }"

definition as_strs :: "json \<Rightarrow> string list option" where
  "as_strs v = do { xs \<leftarrow> as_list v; traverse as_str xs }"

definition as_objs :: "json \<Rightarrow> json dict list option" where
  "as_objs v = do { xs \<leftarrow> as_list v; traverse as_obj xs }"

lemma traverse_map [simp]: "(\<And>x. f (g x) = Some x) \<Longrightarrow> traverse f (map g xs) = Some xs"
  by (induction xs) simp_all

lemma as_strs_jstrs [simp]: "as_strs (jstrs xs) = Some xs"
  by (simp add: as_strs_def jstrs_def)

lemma as_objs_JObj [simp]: "as_objs (JList (map JObj ds)) = Some ds"
  by (simp add: as_objs_def)

lemma unjopt_jopt:
  assumes "\<And>y. f (g y) = Some y" and "\<And>y. g y \<noteq> JNull"
  shows "unjopt f (jopt g x) = Some x"
  using assms by (cases x) (simp_all add: unjopt_def jopt_def)

lemma unjopt_simps [simp]:
  "unjopt as_str (jopt JStr s) = Some s"
  "unjopt as_float (jopt JFloat x) = Some x"
  "unjopt as_obj (jopt JObj d) = Some d"
  by (simp_all add: unjopt_jopt)

section \<open>Clock and identifiers\<close>

abbreviation rt_tick :: "runtime \<Rightarrow> runtime" where
  "rt_tick rt \<equiv> rt\<lparr>clock_pos := Suc (clock_pos rt)\<rparr>"

abbreviation rt_now :: "runtime \<Rightarrow> pyfloat" where
  "rt_now rt \<equiv> clock rt (clock_pos rt)"

abbreviation rt_uuid :: "runtime \<Rightarrow> string" where
  "rt_uuid rt \<equiv> uuids rt (uuid_pos rt)"

text \<open>A runtime for concrete runs: the clock counts its readings, identifiers are numbered.\<close>

definition sample_rt :: runtime where
  "sample_rt = \<lparr>clock = (\<lambda>i. Fin (of_nat i)), clock_pos = 0,
     uuids = (\<lambda>i. ''id'' @ dec_nat i), uuid_pos = 0\<rparr>"

lemma sample_rt_simps [simp]:
  "clock sample_rt = (\<lambda>i. Fin (of_nat i))" "clock_pos sample_rt = 0"
  "uuids sample_rt = (\<lambda>i. ''id'' @ dec_nat i)" "uuid_pos sample_rt = 0"
  by (simp_all add: sample_rt_def)

section \<open>Replaying a log of dictionary writes\<close>

text \<open>Assigning every pair in turn.\<close>

definition dset_all :: "('k \<times> 'v) list \<Rightarrow> ('k \<times> 'v) list \<Rightarrow> ('k \<times> 'v) list" where
  "dset_all kvs d = foldl (\<lambda>d (k, v). dset k v d) d kvs"

lemma dset_all_simps [simp]:
  "dset_all [] d = d"
  "dset_all ((k, v) # kvs) d = dset_all kvs (dset k v d)"
  "dset_all (kvs @ kvs') d = dset_all kvs' (dset_all kvs d)"
  by (simp_all add: dset_all_def)

lemma dget_value: "dget d k = Some v \<Longrightarrow> v \<in> set (dvalues d)"
  by (force dest: map_of_SomeD)

lemma dset_append_left: "k \<in> set (dkeys d) \<Longrightarrow> dset k v (d @ e) = dset k v d @ e"
  by (induction d) auto

lemma dset_append_right: "k \<notin> set (dkeys d) \<Longrightarrow> dset k v (d @ e) = d @ dset k v e"
  by (induction d) auto

text \<open>
  Writing a whole dictionary over an earlier state of it, whose keys are a prefix of its keys, gives
  the dictionary, in its own order.
\<close>

lemma dset_all_prefix:
  assumes "distinct (dkeys kvs)" and "dkeys kvs = dkeys d @ ks"
  shows "dset_all kvs d = kvs"
proof -
  have gen: "dset_all kvs (p @ d) = p @ kvs"
    if "distinct (dkeys p @ dkeys kvs)" "dkeys kvs = dkeys d @ ks" for p d :: "('a \<times> 'b) list" and kvs ks
    using that
  proof (induction kvs arbitrary: p d ks)
    case Nil
    then show ?case by simp
  next
    case (Cons kv kvs)
    obtain k v where kv: "kv = (k, v)" by (cases kv)
    from Cons.prems(1) kv have notin: "k \<notin> set (dkeys p)"
      and dist: "distinct (dkeys (p @ [(k, v)]) @ dkeys kvs)" by auto
    show ?case
    proof (cases d)
      case Nil
      with Cons.prems kv notin have "dset k v (p @ d) = (p @ [(k, v)]) @ []"
        by (simp add: dset_fresh)
      moreover have "dset_all kvs ((p @ [(k, v)]) @ []) = (p @ [(k, v)]) @ kvs"
        by (rule Cons.IH [OF dist]) simp
      ultimately show ?thesis using kv by simp
    next
      case (Cons e d')
      with Cons.prems kv notin have "dset k v (p @ d) = (p @ [(k, v)]) @ d'"
        by (cases e) (simp add: dset_append_right)
      moreover have "dset_all kvs ((p @ [(k, v)]) @ d') = (p @ [(k, v)]) @ kvs"
        using Cons.prems(2) kv Cons by (intro Cons.IH [OF dist]) simp
      ultimately show ?thesis using kv by simp
    qed
  qed
  from gen [of "[]" kvs d ks] assms show ?thesis by simp
qed

end
