(* ===== verification/Job_Board.thy ===== *)
theory Job_Board
  imports Sdk_Base
begin

text \<open>
  \<open>membra_sdk/marketplace/jobs.py\<close>: the job board of the build marketplace. The board keeps the jobs in
  memory and appends a snapshot of every job to a file of JSON lines after each change; a new board
  reads that file back.
\<close>

section \<open>Data\<close>

datatype job_status =
    OPEN | CLAIMED | BUILDING | DELIVERED | TESTED | APPROVED | PAID | FINALIZED | DISPUTED | CANCELLED

fun job_status_value :: "job_status \<Rightarrow> string" where
  "job_status_value OPEN = ''open''"
| "job_status_value CLAIMED = ''claimed''"
| "job_status_value BUILDING = ''building''"
| "job_status_value DELIVERED = ''delivered''"
| "job_status_value TESTED = ''tested''"
| "job_status_value APPROVED = ''approved''"
| "job_status_value PAID = ''paid''"
| "job_status_value FINALIZED = ''finalized''"
| "job_status_value DISPUTED = ''disputed''"
| "job_status_value CANCELLED = ''cancelled''"

text \<open>
  The field \<open>status\<close> holds a member of \<open>JobStatus\<close>, or the text found in the file: \<open>_load\<close> passes the
  text on without converting it, and a text is never equal to a member.
\<close>

datatype status_field = Status job_status | RawStatus string

record build_job =
  bj_job_id :: string
  bj_title :: string
  bj_description :: string
  bj_requirements :: "string list"
  bj_deliverables :: "string list"
  bj_budget_usd :: pyfloat
  bj_buyer_id :: string
  bj_builder_id :: "string option"
  bj_artifact_hash :: "string option"
  bj_artifact_path :: "string option"
  bj_test_result :: "json dict option"
  bj_payment_receipt :: "json dict option"
  bj_status :: status_field
  bj_created_at :: pyfloat
  bj_delivered_at :: "pyfloat option"
  bj_approved_at :: "pyfloat option"
  bj_finalized_at :: "pyfloat option"
  bj_validator_votes :: "json dict list"

text \<open>\<open>to_dict\<close>: a text has no attribute \<open>value\<close>.\<close>

definition job_to_dict :: "build_job \<Rightarrow> json dict result" where
  "job_to_dict j = (case bj_status j of RawStatus s \<Rightarrow> Inl AttributeError
     | Status st \<Rightarrow> Inr [
         (''job_id'', JStr (bj_job_id j)),
         (''title'', JStr (bj_title j)),
         (''description'', JStr (bj_description j)),
         (''requirements'', jstrs (bj_requirements j)),
         (''deliverables'', jstrs (bj_deliverables j)),
         (''budget_usd'', JFloat (bj_budget_usd j)),
         (''buyer_id'', JStr (bj_buyer_id j)),
         (''builder_id'', jopt JStr (bj_builder_id j)),
         (''artifact_hash'', jopt JStr (bj_artifact_hash j)),
         (''test_result'', jopt JObj (bj_test_result j)),
         (''payment_receipt'', jopt JObj (bj_payment_receipt j)),
         (''status'', JStr (job_status_value st)),
         (''created_at'', JFloat (bj_created_at j)),
         (''validator_votes'', JList (map JObj (bj_validator_votes j)))])"

text \<open>
  The board, with the content of its file: the value of each line, \<^const>\<open>None\<close> for a line that does not
  parse.
\<close>

record job_board =
  jb_jobs :: "build_job dict"
  jb_file :: "json option list"

section \<open>Reading the file\<close>

text \<open>
  \<open>BuildJob(**data)\<close> for a line whose fields have the JSON types that \<open>to_dict\<close> gives them; an unknown
  keyword or a missing one without a default is a \<open>TypeError\<close>.
\<close>

definition job_fields :: "string list" where
  "job_fields = [''job_id'', ''title'', ''description'', ''requirements'', ''deliverables'', ''budget_usd'',
     ''buyer_id'', ''builder_id'', ''artifact_hash'', ''artifact_path'', ''test_result'', ''payment_receipt'',
     ''status'', ''created_at'', ''delivered_at'', ''approved_at'', ''finalized_at'', ''validator_votes'']"

definition keyword :: "json dict \<Rightarrow> string \<Rightarrow> (json \<Rightarrow> 'a option) \<Rightarrow> 'a option" where
  "keyword d k f = (case dget d k of None \<Rightarrow> None | Some v \<Rightarrow> f v)"

definition keyword_default :: "json dict \<Rightarrow> string \<Rightarrow> (json \<Rightarrow> 'a option) \<Rightarrow> 'a \<Rightarrow> 'a option" where
  "keyword_default d k f x = (case dget d k of None \<Rightarrow> Some x | Some v \<Rightarrow> f v)"

definition job_of_dict :: "json dict \<Rightarrow> pyfloat \<Rightarrow> build_job option" where
  "job_of_dict d now = (if \<not> list_all (\<lambda>k. List.member job_fields k) (dkeys d) then None else do {
     jid \<leftarrow> keyword d ''job_id'' as_str;
     title \<leftarrow> keyword d ''title'' as_str;
     description \<leftarrow> keyword d ''description'' as_str;
     requirements \<leftarrow> keyword d ''requirements'' as_strs;
     deliverables \<leftarrow> keyword d ''deliverables'' as_strs;
     budget \<leftarrow> keyword d ''budget_usd'' as_float;
     buyer \<leftarrow> keyword d ''buyer_id'' as_str;
     builder \<leftarrow> keyword_default d ''builder_id'' (unjopt as_str) None;
     ahash \<leftarrow> keyword_default d ''artifact_hash'' (unjopt as_str) None;
     apath \<leftarrow> keyword_default d ''artifact_path'' (unjopt as_str) None;
     test \<leftarrow> keyword_default d ''test_result'' (unjopt as_obj) None;
     receipt \<leftarrow> keyword_default d ''payment_receipt'' (unjopt as_obj) None;
     status \<leftarrow> keyword_default d ''status'' (\<lambda>v. map_option RawStatus (as_str v)) (Status OPEN);
     created \<leftarrow> keyword_default d ''created_at'' as_float now;
     delivered \<leftarrow> keyword_default d ''delivered_at'' (unjopt as_float) None;
     approved \<leftarrow> keyword_default d ''approved_at'' (unjopt as_float) None;
     finalized \<leftarrow> keyword_default d ''finalized_at'' (unjopt as_float) None;
     votes \<leftarrow> keyword_default d ''validator_votes'' as_objs [];
     Some \<lparr>bj_job_id = jid, bj_title = title, bj_description = description,
       bj_requirements = requirements, bj_deliverables = deliverables, bj_budget_usd = budget,
       bj_buyer_id = buyer, bj_builder_id = builder, bj_artifact_hash = ahash, bj_artifact_path = apath,
       bj_test_result = test, bj_payment_receipt = receipt, bj_status = status, bj_created_at = created,
       bj_delivered_at = delivered, bj_approved_at = approved, bj_finalized_at = finalized,
       bj_validator_votes = votes\<rparr> })"

text \<open>\<open>_load\<close>: any exception ends the loop and is dropped; what was read so far stays.\<close>

fun load_lines :: "json option list \<Rightarrow> build_job dict \<Rightarrow> runtime \<Rightarrow> build_job dict \<times> runtime" where
  "load_lines [] jobs rt = (jobs, rt)"
| "load_lines (line # ls) jobs rt = (case line of None \<Rightarrow> (jobs, rt)
     | Some v \<Rightarrow> (case as_obj v of None \<Rightarrow> (jobs, rt)
       | Some d \<Rightarrow> if \<not> dtruthy d ''job_id'' then load_lines ls jobs rt
           else case job_of_dict d (rt_now rt) of None \<Rightarrow> (jobs, rt)
             | Some j \<Rightarrow> load_lines ls (dset (bj_job_id j) j jobs)
                 (if dget d ''created_at'' = None then rt_tick rt else rt)))"

text \<open>\<open>__init__\<close>.\<close>

definition job_board_init :: "json option list \<Rightarrow> runtime \<Rightarrow> job_board \<times> runtime" where
  "job_board_init file rt =
     (let (jobs, rt) = load_lines file [] rt in (\<lparr>jb_jobs = jobs, jb_file = file\<rparr>, rt))"

section \<open>Writing the file\<close>

text \<open>\<open>_persist\<close>: the lines before the one that raises have been written.\<close>

fun persist_loop :: "build_job list \<Rightarrow> json option list \<Rightarrow> unit result \<times> json option list" where
  "persist_loop [] file = (Inr (), file)"
| "persist_loop (j # js) file = (case job_to_dict j of Inl e \<Rightarrow> (Inl e, file)
     | Inr d \<Rightarrow> persist_loop js (file @ [Some (JObj d)]))"

definition jb_persist :: "job_board \<Rightarrow> unit result \<times> job_board" where
  "jb_persist b = (let (r, file) = persist_loop (dvalues (jb_jobs b)) (jb_file b)
     in (r, b\<lparr>jb_file := file\<rparr>))"

text \<open>The end of every operation: the job is stored under its key, then the board is written out.\<close>

definition jb_save :: "string \<Rightarrow> build_job \<Rightarrow> job_board \<Rightarrow> build_job option result \<times> job_board" where
  "jb_save k j b = (let (r, b) = jb_persist (b\<lparr>jb_jobs := dset k j (jb_jobs b)\<rparr>)
     in (case r of Inl e \<Rightarrow> Inl e | Inr u \<Rightarrow> Inr (Some j), b))"

section \<open>Operations\<close>

definition new_job ::
  "string \<Rightarrow> string \<Rightarrow> string \<Rightarrow> string list \<Rightarrow> string list \<Rightarrow> pyfloat \<Rightarrow> string \<Rightarrow> pyfloat \<Rightarrow> build_job" where
  "new_job jid title description requirements deliverables budget buyer now =
     \<lparr>bj_job_id = jid, bj_title = title, bj_description = description,
       bj_requirements = requirements, bj_deliverables = deliverables, bj_budget_usd = budget,
       bj_buyer_id = buyer, bj_builder_id = None, bj_artifact_hash = None, bj_artifact_path = None,
       bj_test_result = None, bj_payment_receipt = None, bj_status = Status OPEN, bj_created_at = now,
       bj_delivered_at = None, bj_approved_at = None, bj_finalized_at = None, bj_validator_votes = []\<rparr>"

definition job_id_of :: "string \<Rightarrow> string" where
  "job_id_of u = ''job-'' @ take 12 u"

definition post_job ::
  "string \<Rightarrow> string \<Rightarrow> string list \<Rightarrow> string list \<Rightarrow> pyfloat \<Rightarrow> string \<Rightarrow> job_board \<Rightarrow> runtime
     \<Rightarrow> build_job result \<times> job_board \<times> runtime" where
  "post_job title description requirements deliverables budget buyer b rt =
     (let (u, rt) = uuid4_hex rt; (now, rt) = time_time rt; jid = job_id_of u;
          (r, b) = jb_save jid (new_job jid title description requirements deliverables budget buyer now) b
      in (map_sum id the r, b, rt))"

definition claim_job ::
  "string \<Rightarrow> string \<Rightarrow> job_board \<Rightarrow> build_job option result \<times> job_board" where
  "claim_job jid builder b =
     (case dget (jb_jobs b) jid of None \<Rightarrow> (Inr None, b)
      | Some j \<Rightarrow> if bj_status j \<noteq> Status OPEN then (Inr None, b)
          else jb_save jid (j\<lparr>bj_builder_id := Some builder, bj_status := Status CLAIMED\<rparr>) b)"

definition submit_artifact ::
  "string \<Rightarrow> string \<Rightarrow> string \<Rightarrow> job_board \<Rightarrow> runtime
     \<Rightarrow> build_job option result \<times> job_board \<times> runtime" where
  "submit_artifact jid path ahash b rt =
     (case dget (jb_jobs b) jid of None \<Rightarrow> (Inr None, b, rt)
      | Some j \<Rightarrow> if bj_status j \<notin> {Status CLAIMED, Status BUILDING} then (Inr None, b, rt)
          else let (now, rt) = time_time rt;
                   (r, b) = jb_save jid (j\<lparr>bj_artifact_path := Some path, bj_artifact_hash := Some ahash,
                     bj_status := Status DELIVERED, bj_delivered_at := Some now\<rparr>) b
               in (r, b, rt))"

definition submit_tests ::
  "string \<Rightarrow> json dict \<Rightarrow> job_board \<Rightarrow> build_job option result \<times> job_board" where
  "submit_tests jid test b =
     (case dget (jb_jobs b) jid of None \<Rightarrow> (Inr None, b)
      | Some j \<Rightarrow> if bj_status j \<noteq> Status DELIVERED then (Inr None, b)
          else jb_save jid (j\<lparr>bj_test_result := Some test,
            bj_status := Status (if dtruthy test ''passed'' then TESTED else DELIVERED)\<rparr>) b)"

definition buyer_approve ::
  "string \<Rightarrow> job_board \<Rightarrow> runtime \<Rightarrow> build_job option result \<times> job_board \<times> runtime" where
  "buyer_approve jid b rt =
     (case dget (jb_jobs b) jid of None \<Rightarrow> (Inr None, b, rt)
      | Some j \<Rightarrow> if bj_status j \<noteq> Status TESTED then (Inr None, b, rt)
          else let (now, rt) = time_time rt;
                   (r, b) = jb_save jid (j\<lparr>bj_status := Status APPROVED, bj_approved_at := Some now\<rparr>) b
               in (r, b, rt))"

definition submit_payment_receipt ::
  "string \<Rightarrow> json dict \<Rightarrow> job_board \<Rightarrow> build_job option result \<times> job_board" where
  "submit_payment_receipt jid receipt b =
     (case dget (jb_jobs b) jid of None \<Rightarrow> (Inr None, b)
      | Some j \<Rightarrow> if bj_status j \<noteq> Status APPROVED then (Inr None, b)
          else jb_save jid (j\<lparr>bj_payment_receipt := Some receipt, bj_status := Status PAID\<rparr>) b)"

definition valid_votes :: "json dict list \<Rightarrow> int" where
  "valid_votes votes = int (length (filter (\<lambda>v. dtruthy v ''receipt_valid'') votes))"

definition check_validator_consensus :: "build_job \<Rightarrow> bool" where
  "check_validator_consensus j =
     (let votes = bj_validator_votes j in
      if int (length votes) < 3 then False else valid_votes votes * 3 \<ge> int (length votes) * 2)"

definition validator_vote ::
  "string \<Rightarrow> json \<Rightarrow> json dict \<Rightarrow> job_board \<Rightarrow> runtime
     \<Rightarrow> build_job option result \<times> job_board \<times> runtime" where
  "validator_vote jid validator vote b rt =
     (case dget (jb_jobs b) jid of None \<Rightarrow> (Inr None, b, rt)
      | Some j \<Rightarrow> if bj_status j \<noteq> Status PAID then (Inr None, b, rt)
          else let (now, rt) = time_time rt;
                   vote = dset ''timestamp'' (JFloat now) (dset ''validator_id'' validator vote);
                   j = j\<lparr>bj_validator_votes := bj_validator_votes j @ [vote]\<rparr>;
                   (j, rt) = (if check_validator_consensus j
                     then let (now, rt) = time_time rt
                          in (j\<lparr>bj_status := Status FINALIZED, bj_finalized_at := Some now\<rparr>, rt)
                     else (j, rt));
                   (r, b) = jb_save jid j b
               in (r, b, rt))"

definition list_open :: "job_board \<Rightarrow> build_job list" where
  "list_open b = filter (\<lambda>j. bj_status j = Status OPEN) (dvalues (jb_jobs b))"

definition list_finalized :: "job_board \<Rightarrow> build_job list" where
  "list_finalized b = filter (\<lambda>j. bj_status j = Status FINALIZED) (dvalues (jb_jobs b))"

definition get_job :: "string \<Rightarrow> job_board \<Rightarrow> build_job option" where
  "get_job jid b = dget (jb_jobs b) jid"

section \<open>The file and the board\<close>

text \<open>What a job looks like after it has been written and read back.\<close>

definition reload :: "build_job \<Rightarrow> build_job" where
  "reload j = j\<lparr>bj_artifact_path := None, bj_delivered_at := None, bj_approved_at := None,
     bj_finalized_at := None,
     bj_status := (case bj_status j of Status st \<Rightarrow> RawStatus (job_status_value st) | RawStatus s \<Rightarrow> RawStatus s)\<rparr>"

definition has_enum :: "build_job \<Rightarrow> bool" where
  "has_enum j \<longleftrightarrow> (case bj_status j of Status st \<Rightarrow> True | RawStatus s \<Rightarrow> False)"

definition job_line :: "build_job \<Rightarrow> json option" where
  "job_line j = (case job_to_dict j of Inl e \<Rightarrow> None | Inr d \<Rightarrow> Some (JObj d))"

lemma job_line_decodes:
  assumes "has_enum j"
  obtains d where "job_to_dict j = Inr d" and "job_line j = Some (JObj d)"
    and "dget d ''job_id'' = Some (JStr (bj_job_id j))" and "dget d ''created_at'' = Some (JFloat (bj_created_at j))"
    and "job_of_dict d now = Some (reload j)"
proof -
  from assms obtain st where st: "bj_status j = Status st"
    by (auto simp: has_enum_def split: status_field.splits)
  let ?d = "projr (job_to_dict j)"
  have "job_to_dict j = Inr ?d" using st by (simp add: job_to_dict_def)
  moreover have "job_line j = Some (JObj ?d)" using st by (simp add: job_line_def job_to_dict_def)
  moreover have "dget ?d ''job_id'' = Some (JStr (bj_job_id j))"
    and "dget ?d ''created_at'' = Some (JFloat (bj_created_at j))"
    using st by (simp_all add: job_to_dict_def)
  moreover have "job_of_dict ?d now = Some (reload j)"
    using st by (simp add: job_of_dict_def job_to_dict_def job_fields_def keyword_def keyword_default_def reload_def)
  ultimately show ?thesis by (rule that)
qed

lemma persist_loop_ok:
  "list_all has_enum js \<Longrightarrow> persist_loop js fl = (Inr (), fl @ map job_line js)"
proof (induction js arbitrary: fl)
  case (Cons j js)
  then have "has_enum j" by simp
  then obtain d where "job_to_dict j = Inr d" "job_line j = Some (JObj d)" by (rule job_line_decodes)
  with Cons show ?case by simp
qed simp

text \<open>Reading back lines that the board wrote.\<close>

lemma load_written:
  assumes "list_all (\<lambda>j. has_enum j \<and> bj_job_id j \<noteq> []) js"
  shows "load_lines (map job_line js) jobs rt = (dset_all (map (\<lambda>j. (bj_job_id j, reload j)) js) jobs, rt)"
  using assms
proof (induction js arbitrary: jobs)
  case (Cons j js)
  then have j: "has_enum j" "bj_job_id j \<noteq> []" by auto
  obtain d where "job_line j = Some (JObj d)" "dget d ''job_id'' = Some (JStr (bj_job_id j))"
    "dget d ''created_at'' = Some (JFloat (bj_created_at j))" "job_of_dict d (rt_now rt) = Some (reload j)"
    by (rule job_line_decodes [OF j(1)])
  with j Cons show ?case by (simp add: dtruthy_def reload_def)
qed simp

section \<open>The invariant of the board\<close>

text \<open>The bookkeeping of a job agrees with its status.\<close>

definition job_ok :: "build_job \<Rightarrow> bool" where
  "job_ok j \<longleftrightarrow> (case bj_status j of RawStatus s \<Rightarrow> False
     | Status st \<Rightarrow> st \<in> {OPEN, CLAIMED, DELIVERED, TESTED, APPROVED, PAID, FINALIZED} \<and>
         (st \<noteq> OPEN \<longrightarrow> bj_builder_id j \<noteq> None) \<and>
         (st \<in> {DELIVERED, TESTED, APPROVED, PAID, FINALIZED} \<longrightarrow>
            bj_artifact_hash j \<noteq> None \<and> bj_artifact_path j \<noteq> None \<and> bj_delivered_at j \<noteq> None) \<and>
         (st \<in> {TESTED, APPROVED, PAID, FINALIZED} \<longrightarrow>
            (\<exists>t. bj_test_result j = Some t \<and> dtruthy t ''passed'')) \<and>
         (st \<in> {APPROVED, PAID, FINALIZED} \<longrightarrow> bj_approved_at j \<noteq> None) \<and>
         (st \<in> {PAID, FINALIZED} \<longrightarrow> bj_payment_receipt j \<noteq> None) \<and>
         (st = FINALIZED \<longleftrightarrow> check_validator_consensus j) \<and>
         (st \<notin> {PAID, FINALIZED} \<longrightarrow> bj_validator_votes j = []))"

definition jb_ok :: "job_board \<Rightarrow> bool" where
  "jb_ok b \<longleftrightarrow> distinct (dkeys (jb_jobs b)) \<and>
     (\<forall>(k, j) \<in> set (jb_jobs b). bj_job_id j = k \<and> k \<noteq> [] \<and> job_ok j) \<and>
     (\<exists>js. list_all (\<lambda>j. has_enum j \<and> bj_job_id j \<noteq> []) js \<and> jb_file b = map job_line js \<and>
       dset_all (map (\<lambda>j. (bj_job_id j, reload j)) js) [] = dmap reload (jb_jobs b))"

lemma job_ok_enum: "job_ok j \<Longrightarrow> has_enum j"
  by (auto simp: job_ok_def has_enum_def split: status_field.splits)

lemma jb_ok_empty: "jb_ok \<lparr>jb_jobs = [], jb_file = []\<rparr>"
  by (simp add: jb_ok_def dmap_def exI [of _ "[]"])

lemma jb_ok_job: "jb_ok b \<Longrightarrow> dget (jb_jobs b) k = Some j \<Longrightarrow> bj_job_id j = k \<and> k \<noteq> [] \<and> job_ok j"
  by (auto simp: jb_ok_def dest!: map_of_SomeD)

lemma jb_save_jobs [simp]: "jb_jobs (snd (jb_save k j b)) = dset k j (jb_jobs b)"
  by (simp add: jb_save_def jb_persist_def Let_def case_prod_beta)

text \<open>Saving a sound job keeps the invariant, and does not raise.\<close>

lemma jb_save_ok:
  assumes ok: "jb_ok b" and j: "job_ok j" "bj_job_id j = k" "k \<noteq> []"
  shows "jb_ok (snd (jb_save k j b))" and "fst (jb_save k j b) = Inr (Some j)"
proof -
  let ?d = "dset k j (jb_jobs b)"
  have dist: "distinct (dkeys ?d)" using ok by (simp add: jb_ok_def)
  have jobs: "\<forall>(k, j) \<in> set ?d. bj_job_id j = k \<and> k \<noteq> [] \<and> job_ok j"
  proof -
    have "dget ?d k' = Some j' \<Longrightarrow> bj_job_id j' = k' \<and> k' \<noteq> [] \<and> job_ok j'" for k' j'
      using j jb_ok_job [OF ok] by (auto split: if_splits)
    then show ?thesis using map_of_is_SomeI [OF dist] by blast
  qed
  then have good: "list_all (\<lambda>j. has_enum j \<and> bj_job_id j \<noteq> []) (dvalues ?d)"
    using job_ok_enum by (fastforce simp: list_all_iff)
  then have loop: "persist_loop (dvalues ?d) (jb_file b) = (Inr (), jb_file b @ map job_line (dvalues ?d))"
    by (intro persist_loop_ok) (auto simp: list_all_iff)
  then show "fst (jb_save k j b) = Inr (Some j)"
    by (simp add: jb_save_def jb_persist_def Let_def)
  from ok obtain js where js: "list_all (\<lambda>j. has_enum j \<and> bj_job_id j \<noteq> []) js"
    "jb_file b = map job_line js" "dset_all (map (\<lambda>j. (bj_job_id j, reload j)) js) [] = dmap reload (jb_jobs b)"
    by (auto simp: jb_ok_def)
  have snap: "map (\<lambda>j. (bj_job_id j, reload j)) (dvalues ?d) = dmap reload ?d"
    using jobs by (auto simp: dmap_def)
  have keys: "\<exists>ks. dkeys ?d = dkeys (jb_jobs b) @ ks"
    by (cases "k \<in> set (dkeys (jb_jobs b))") (simp_all add: update_keys dset_fresh)
  then obtain ks where "dkeys ?d = dkeys (jb_jobs b) @ ks" ..
  then have "dset_all (dmap reload ?d) (dmap reload (jb_jobs b)) = dmap reload ?d"
    using dist by (intro dset_all_prefix [where ks = ks]) simp_all
  with js snap have "dset_all (map (\<lambda>j. (bj_job_id j, reload j)) (js @ dvalues ?d)) [] = dmap reload ?d"
    by simp
  moreover have "list_all (\<lambda>j. has_enum j \<and> bj_job_id j \<noteq> []) (js @ dvalues ?d)"
    using js(1) good by simp
  ultimately show "jb_ok (snd (jb_save k j b))"
    using dist jobs loop js(2) unfolding jb_ok_def
    by (auto simp: jb_save_def jb_persist_def Let_def intro!: exI [of _ "js @ dvalues ?d"])
qed

section \<open>One call of the board\<close>

text \<open>How a call changes one job.\<close>

inductive job_move :: "build_job \<Rightarrow> build_job \<Rightarrow> bool" where
  move_claim: "bj_status j = Status OPEN \<Longrightarrow>
     job_move j (j\<lparr>bj_builder_id := Some builder, bj_status := Status CLAIMED\<rparr>)"
| move_deliver: "bj_status j \<in> {Status CLAIMED, Status BUILDING} \<Longrightarrow>
     job_move j (j\<lparr>bj_artifact_path := Some path, bj_artifact_hash := Some ahash,
       bj_status := Status DELIVERED, bj_delivered_at := Some now\<rparr>)"
| move_test: "bj_status j = Status DELIVERED \<Longrightarrow>
     job_move j (j\<lparr>bj_test_result := Some test,
       bj_status := Status (if dtruthy test ''passed'' then TESTED else DELIVERED)\<rparr>)"
| move_approve: "bj_status j = Status TESTED \<Longrightarrow>
     job_move j (j\<lparr>bj_status := Status APPROVED, bj_approved_at := Some now\<rparr>)"
| move_pay: "bj_status j = Status APPROVED \<Longrightarrow>
     job_move j (j\<lparr>bj_payment_receipt := Some receipt, bj_status := Status PAID\<rparr>)"
| move_vote: "bj_status j = Status PAID \<Longrightarrow> j' = j\<lparr>bj_validator_votes := bj_validator_votes j @ [vote]\<rparr> \<Longrightarrow>
     \<not> check_validator_consensus j' \<Longrightarrow> job_move j j'"
| move_finalize: "bj_status j = Status PAID \<Longrightarrow> j' = j\<lparr>bj_validator_votes := bj_validator_votes j @ [vote]\<rparr> \<Longrightarrow>
     check_validator_consensus j' \<Longrightarrow>
     job_move j (j'\<lparr>bj_status := Status FINALIZED, bj_finalized_at := Some now\<rparr>)"

text \<open>The calls on an existing job, and what a call returns: the board and the environment after it.\<close>

datatype job_call =
    ClaimJob string string
  | SubmitArtifact string string string
  | SubmitTests string "json dict"
  | BuyerApprove string
  | SubmitPaymentReceipt string "json dict"
  | ValidatorVote string json "json dict"

fun call_job :: "job_call \<Rightarrow> string" where
  "call_job (ClaimJob jid builder) = jid"
| "call_job (SubmitArtifact jid path ahash) = jid"
| "call_job (SubmitTests jid test) = jid"
| "call_job (BuyerApprove jid) = jid"
| "call_job (SubmitPaymentReceipt jid receipt) = jid"
| "call_job (ValidatorVote jid validator vote) = jid"

fun job_exec :: "job_call \<Rightarrow> job_board \<Rightarrow> runtime \<Rightarrow> build_job option result \<times> job_board \<times> runtime" where
  "job_exec (ClaimJob jid builder) b rt = (let (r, b) = claim_job jid builder b in (r, b, rt))"
| "job_exec (SubmitArtifact jid path ahash) b rt = submit_artifact jid path ahash b rt"
| "job_exec (SubmitTests jid test) b rt = (let (r, b) = submit_tests jid test b in (r, b, rt))"
| "job_exec (BuyerApprove jid) b rt = buyer_approve jid b rt"
| "job_exec (SubmitPaymentReceipt jid receipt) b rt =
     (let (r, b) = submit_payment_receipt jid receipt b in (r, b, rt))"
| "job_exec (ValidatorVote jid validator vote) b rt = validator_vote jid validator vote b rt"

text \<open>A call is refused and changes nothing, or it moves the job it names and saves it.\<close>

lemmas job_op_defs = claim_job_def submit_artifact_def submit_tests_def buyer_approve_def
  submit_payment_receipt_def validator_vote_def

lemma job_exec_moves:
  assumes j: "dget (jb_jobs b) (call_job c) = Some j"
  shows "job_exec c b rt = (Inr None, b, rt) \<or> (\<exists>j' rt'. job_move j j' \<and>
    job_exec c b rt = (fst (jb_save (call_job c) j' b), snd (jb_save (call_job c) j' b), rt'))"
proof (cases c)
  case (ClaimJob jid builder)
  with j move_claim [of j builder] show ?thesis
    by (cases "bj_status j = Status OPEN") (auto simp: claim_job_def case_prod_beta)
next
  case (SubmitArtifact jid path ahash)
  with j move_deliver [of j "rt_now rt" ahash path] show ?thesis
    by (cases "bj_status j \<in> {Status CLAIMED, Status BUILDING}")
      (auto simp: submit_artifact_def time_time_def case_prod_beta Let_def)
next
  case (SubmitTests jid test)
  with j move_test [of j test] show ?thesis
    by (cases "bj_status j = Status DELIVERED") (auto simp: submit_tests_def case_prod_beta simp del: if_split)
next
  case (BuyerApprove jid)
  with j move_approve [of j "rt_now rt"] show ?thesis
    by (cases "bj_status j = Status TESTED") (auto simp: buyer_approve_def time_time_def case_prod_beta Let_def)
next
  case (SubmitPaymentReceipt jid receipt)
  with j move_pay [of j receipt] show ?thesis
    by (cases "bj_status j = Status APPROVED") (auto simp: submit_payment_receipt_def case_prod_beta)
next
  case (ValidatorVote jid validator vote)
  let ?v = "dset ''timestamp'' (JFloat (rt_now rt)) (dset ''validator_id'' validator vote)"
  let ?j = "j\<lparr>bj_validator_votes := bj_validator_votes j @ [?v]\<rparr>"
  from j ValidatorVote move_vote [of j ?j ?v] move_finalize [of j ?j ?v "rt_now (rt_tick rt)"] show ?thesis
    by (cases "bj_status j = Status PAID"; cases "check_validator_consensus ?j")
      (auto simp: validator_vote_def time_time_def Let_def case_prod_beta)
qed

lemma job_exec_cases:
  obtains (refused) "job_exec c b rt = (Inr None, b, rt)"
  | (moved) j j' rt' where "dget (jb_jobs b) (call_job c) = Some j" and "job_move j j'"
      and "job_exec c b rt = (fst (jb_save (call_job c) j' b), snd (jb_save (call_job c) j' b), rt')"
proof (cases "dget (jb_jobs b) (call_job c)")
  case None
  then have "job_exec c b rt = (Inr None, b, rt)"
    by (cases c) (simp_all add: job_op_defs)
  then show ?thesis by (rule refused)
next
  case (Some j)
  with job_exec_moves [OF Some, of rt] refused moved show ?thesis by blast
qed

lemma job_move_ok:
  assumes "job_move j j'" and "job_ok j"
  shows "job_ok j' \<and> bj_job_id j' = bj_job_id j"
  using assms
  by (induction rule: job_move.induct) (auto simp: job_ok_def check_validator_consensus_def Let_def)

text \<open>The edges of the life cycle.\<close>

definition job_edge :: "status_field \<Rightarrow> status_field \<Rightarrow> bool" where
  "job_edge a b \<longleftrightarrow> (a, b) \<in> {(Status OPEN, Status CLAIMED), (Status CLAIMED, Status DELIVERED),
     (Status BUILDING, Status DELIVERED), (Status DELIVERED, Status TESTED), (Status TESTED, Status APPROVED),
     (Status APPROVED, Status PAID), (Status PAID, Status FINALIZED)}"

lemma job_move_edge: "job_move j j' \<Longrightarrow> bj_status j' = bj_status j \<or> job_edge (bj_status j) (bj_status j')"
  by (induction rule: job_move.induct) (auto simp: job_edge_def)

text \<open>A step of the marketplace: posting under a new identifier, or a call on a job.\<close>

inductive job_step :: "job_board \<times> runtime \<Rightarrow> job_board \<times> runtime \<Rightarrow> bool" where
  step_post: "post_job title desc reqs dels budget buyer b rt = (r, b', rt') \<Longrightarrow>
     job_id_of (rt_uuid rt) \<notin> set (dkeys (jb_jobs b)) \<Longrightarrow> job_step (b, rt) (b', rt')"
| step_call: "job_exec c b rt = (r, b', rt') \<Longrightarrow> job_step (b, rt) (b', rt')"

inductive_cases job_stepE: "job_step (b, rt) (b', rt')"

lemma post_job_eq:
  "post_job title desc reqs dels budget buyer b rt =
     (let jid = job_id_of (rt_uuid rt); rt' = snd (uuid4_hex rt);
          s = jb_save jid (new_job jid title desc reqs dels budget buyer (rt_now rt')) b
      in (map_sum id the (fst s), snd s, rt_tick rt'))"
  by (simp add: post_job_def uuid4_hex_def time_time_def Let_def case_prod_beta)

lemma new_job_ok: "job_ok (new_job jid title desc reqs dels budget buyer now)"
  by (simp add: job_ok_def new_job_def check_validator_consensus_def)

lemma new_job_simps [simp]:
  "bj_job_id (new_job jid title desc reqs dels budget buyer now) = jid"
  "bj_status (new_job jid title desc reqs dels budget buyer now) = Status OPEN"
  by (simp_all add: new_job_def)

lemma job_id_nonempty [simp]: "job_id_of u \<noteq> []"
  by (simp add: job_id_of_def)

lemma job_step_ok:
  assumes "job_step s s'" and "jb_ok (fst s)"
  shows "jb_ok (fst s')"
  using assms
proof (cases rule: job_step.cases)
  case (step_post title desc reqs dels budget buyer b rt r b' rt')
  with assms(2) show ?thesis
    by (auto simp: post_job_eq Let_def new_job_ok intro: jb_save_ok)
next
  case (step_call c b rt r b' rt')
  show ?thesis
  proof (cases rule: job_exec_cases [of c b rt])
    case refused
    with step_call assms(2) show ?thesis by simp
  next
    case (moved j j' rt'')
    from jb_ok_job [OF _ moved(1)] assms(2) step_call
    have "job_ok j" "bj_job_id j = call_job c" "call_job c \<noteq> []" by auto
    with job_move_ok [OF moved(2)] have "jb_ok (snd (jb_save (call_job c) j' b))"
      using assms(2) step_call by (intro jb_save_ok) auto
    with moved(3) step_call show ?thesis by simp
  qed
qed

interpretation job: lifecycle "\<lambda>s k. map_option bj_status (dget (jb_jobs (fst s)) k)" job_step job_edge
proof
  fix s t k a
  assume "job_step s t" and a: "map_option bj_status (dget (jb_jobs (fst s)) k) = Some a"
  then show "\<exists>b. map_option bj_status (dget (jb_jobs (fst t)) k) = Some b \<and> (b = a \<or> job_edge a b)"
  proof (cases rule: job_step.cases)
    case (step_post title desc reqs dels budget buyer b rt r b' rt')
    with a obtain j where "dget (jb_jobs b) k = Some j" by auto
    with step_post(4) have "k \<noteq> job_id_of (rt_uuid rt)" using dget_Some_key by metis
    moreover from step_post have "\<exists>j. jb_jobs b' = dset (job_id_of (rt_uuid rt)) j (jb_jobs b)"
      by (auto simp: post_job_eq Let_def)
    ultimately show ?thesis using step_post(1,2) a by auto
  next
    case (step_call c b rt r b' rt')
    show ?thesis
    proof (cases rule: job_exec_cases [of c b rt])
      case refused
      with step_call a show ?thesis by auto
    next
      case (moved j j' rt'')
      then show ?thesis using step_call a job_move_edge [OF moved(2)] by (cases "k = call_job c") auto
    qed
  qed
qed

section \<open>Properties\<close>

text \<open>A marketplace that has started with no file and run for a while.\<close>

definition reachable_board :: "job_board \<Rightarrow> bool" where
  "reachable_board b \<longleftrightarrow> (\<exists>rt rt'. job_step\<^sup>*\<^sup>* (\<lparr>jb_jobs = [], jb_file = []\<rparr>, rt) (b, rt'))"

interpretation board_calls: component_invariant job_step jb_ok
  by unfold_locales (rule job_step_ok)

lemma job_run_ok: "job_step\<^sup>*\<^sup>* s s' \<Longrightarrow> jb_ok (fst s) \<Longrightarrow> jb_ok (fst s')"
  by (rule board_calls.run_ok)

lemma reachable_board_ok: "reachable_board b \<Longrightarrow> jb_ok b"
  using job_run_ok jb_ok_empty by (fastforce simp: reachable_board_def)

lemma reachable_board_step:
  assumes "reachable_board b" and "\<And>rt. \<exists>rt'. job_step (b, rt) (b', rt')"
  shows "reachable_board b'"
  using assms by (meson reachable_board_def rtranclp.rtrancl_into_rtrancl)

text \<open>
  C14. A job reaches \<open>FINALIZED\<close> only when it is earned: on every board that has run from an empty file,
  a finalized job has a builder, a delivered artifact with its hash, a test result whose \<open>passed\<close> is
  true, the buyer's approval, a payment receipt, and at least three validator votes of which at least
  two thirds call the receipt valid.
\<close>

theorem finalized_job_is_earned:
  assumes "reachable_board b" and "get_job jid b = Some j" and "bj_status j = Status FINALIZED"
  shows "bj_builder_id j \<noteq> None \<and> bj_artifact_hash j \<noteq> None \<and>
    (\<exists>t. bj_test_result j = Some t \<and> dtruthy t ''passed'') \<and>
    bj_approved_at j \<noteq> None \<and> bj_payment_receipt j \<noteq> None \<and>
    3 \<le> int (length (bj_validator_votes j)) \<and>
    2 * int (length (bj_validator_votes j)) \<le> 3 * valid_votes (bj_validator_votes j)"
proof -
  have "job_ok j" using jb_ok_job [OF reachable_board_ok] assms(1,2) by (auto simp: get_job_def)
  with assms(3) show ?thesis by (auto simp: job_ok_def check_validator_consensus_def Let_def split: if_splits)
qed

text \<open>A full run on one job: three validators vote, two of them for the receipt.\<close>

definition sample_calls :: "job_call list" where
  "sample_calls = [ClaimJob ''job-id0'' ''bob'', SubmitArtifact ''job-id0'' ''/tmp/a'' ''ff'',
     SubmitTests ''job-id0'' [(''passed'', JBool True)], BuyerApprove ''job-id0'',
     SubmitPaymentReceipt ''job-id0'' [(''amount'', JInt 5)],
     ValidatorVote ''job-id0'' (JStr ''v1'') [(''receipt_valid'', JBool True)],
     ValidatorVote ''job-id0'' (JStr ''v2'') [(''receipt_valid'', JBool False)],
     ValidatorVote ''job-id0'' (JStr ''v3'') [(''receipt_valid'', JBool True)]]"

fun run_calls :: "job_call list \<Rightarrow> job_board \<Rightarrow> runtime \<Rightarrow> job_board \<times> runtime" where
  "run_calls [] b rt = (b, rt)"
| "run_calls (c # cs) b rt = (let (r, b, rt) = job_exec c b rt in run_calls cs b rt)"

definition sample_board :: "job_call list \<Rightarrow> job_board" where
  "sample_board cs = (let (r, b, rt) = post_job ''t'' ''d'' [] [] (Fin 5) ''ann'' \<lparr>jb_jobs = [], jb_file = []\<rparr> sample_rt
     in fst (run_calls cs b rt))"

lemma run_calls_steps: "job_step\<^sup>*\<^sup>* (b, rt) (run_calls cs b rt)"
proof (induction cs arbitrary: b rt)
  case (Cons c cs)
  obtain r b' rt' where c: "job_exec c b rt = (r, b', rt')" by (metis prod_cases3)
  then have "job_step (b, rt) (b', rt')" by (rule step_call)
  with Cons [of b' rt'] c show ?case by (simp add: converse_rtranclp_into_rtranclp)
qed simp

lemma sample_board_reachable: "reachable_board (sample_board cs)"
proof -
  let ?e = "\<lparr>jb_jobs = [], jb_file = []\<rparr> :: job_board"
  obtain r b rt where p: "post_job ''t'' ''d'' [] [] (Fin 5) ''ann'' ?e sample_rt = (r, b, rt)"
    by (metis prod_cases3)
  have "job_step (?e, sample_rt) (b, rt)" by (rule step_post [OF p]) simp
  then have "job_step\<^sup>*\<^sup>* (?e, sample_rt) (run_calls cs b rt)"
    using run_calls_steps by (rule converse_rtranclp_into_rtranclp)
  then show ?thesis
    unfolding reachable_board_def sample_board_def p
    by (metis (no_types, lifting) case_prod_conv prod.collapse)
qed

lemma sample_job:
  obtains j where "get_job ''job-id0'' (sample_board sample_calls) = Some j" and "bj_status j = Status FINALIZED"
proof -
  have "map_option bj_status (get_job ''job-id0'' (sample_board sample_calls)) = Some (Status FINALIZED)"
    by code_simp
  then show ?thesis using that by auto
qed

theorem finalized_job_is_earned_witness:
  "\<exists>j. get_job ''job-id0'' (sample_board sample_calls) = Some j \<and> bj_status j = Status FINALIZED \<and>
    bj_builder_id j \<noteq> None \<and> bj_artifact_hash j \<noteq> None \<and>
    2 * int (length (bj_validator_votes j)) \<le> 3 * valid_votes (bj_validator_votes j)"
proof -
  obtain j where j: "get_job ''job-id0'' (sample_board sample_calls) = Some j" "bj_status j = Status FINALIZED"
    by (rule sample_job)
  from finalized_job_is_earned [OF sample_board_reachable j] j show ?thesis by blast
qed

text \<open>
  C15. A job only moves forward: along any run of the marketplace in which new jobs get new identifiers, a
  job is never lost, its status follows open, claimed, delivered, tested, approved, paid, finalized
  without skipping a stage, and a finalized job stays finalized.
\<close>

theorem job_follows_its_stages:
  assumes "job_step\<^sup>*\<^sup>* (b, rt) (b', rt')" and "get_job jid b = Some j"
  shows "\<exists>j'. get_job jid b' = Some j' \<and> job_edge\<^sup>*\<^sup>* (bj_status j) (bj_status j') \<and>
    (bj_status j \<noteq> Status FINALIZED \<or> bj_status j' = Status FINALIZED)"
proof -
  have st: "map_option bj_status (dget (jb_jobs (fst (b, rt))) jid) = Some (bj_status j)"
    using assms(2) by (simp add: get_job_def)
  from job.run_path [OF assms(1) st] obtain j' where
    j': "dget (jb_jobs b') jid = Some j'" "job_edge\<^sup>*\<^sup>* (bj_status j) (bj_status j')" by auto
  have "\<not> job_edge (Status FINALIZED) x" for x by (simp add: job_edge_def)
  then have "bj_status j \<noteq> Status FINALIZED \<or> bj_status j' = Status FINALIZED"
    using j'(2) by (metis converse_rtranclpE)
  with j' show ?thesis by (auto simp: get_job_def)
qed

theorem job_follows_its_stages_witness:
  "\<exists>j'. get_job ''job-id0'' (sample_board sample_calls) = Some j' \<and>
     job_edge\<^sup>*\<^sup>* (Status OPEN) (bj_status j') \<and> bj_status j' = Status FINALIZED"
proof -
  let ?s = "post_job ''t'' ''d'' [] [] (Fin 5) ''ann'' \<lparr>jb_jobs = [], jb_file = []\<rparr> sample_rt"
  let ?b = "fst (snd ?s)" and ?rt = "snd (snd ?s)"
  have run: "job_step\<^sup>*\<^sup>* (?b, ?rt) (sample_board sample_calls, snd (run_calls sample_calls ?b ?rt))"
    using run_calls_steps [of ?b ?rt sample_calls] by (simp add: sample_board_def case_prod_beta)
  have "map_option bj_status (get_job ''job-id0'' ?b) = Some (Status OPEN)" by code_simp
  then obtain j where j: "get_job ''job-id0'' ?b = Some j" "bj_status j = Status OPEN" by auto
  from job_follows_its_stages [OF run j(1)] j(2) sample_job show ?thesis by (metis option.sel)
qed

lemma reload_board:
  assumes "reachable_board b"
  shows "job_board_init (jb_file b) rt =
    (\<lparr>jb_jobs = dmap reload (jb_jobs b), jb_file = jb_file b\<rparr>, rt)"
proof -
  from reachable_board_ok [OF assms] obtain js where
    "list_all (\<lambda>j. has_enum j \<and> bj_job_id j \<noteq> []) js" "jb_file b = map job_line js"
    "dset_all (map (\<lambda>j. (bj_job_id j, reload j)) js) [] = dmap reload (jb_jobs b)"
    by (auto simp: jb_ok_def)
  then show ?thesis by (simp add: job_board_init_def load_written)
qed

text \<open>
  Round trip through the file: a board created on the file of a running marketplace has the same
  jobs in the same order with the same title, parties, budget, hashes, results, receipts, votes and
  creation time. The artifact's path and the times of delivery, approval and finalization are lost,
  and the status comes back as its text.
\<close>

theorem board_reloads_from_its_file:
  assumes "reachable_board b"
  shows "job_board_init (jb_file b) rt =
    (\<lparr>jb_jobs = dmap reload (jb_jobs b), jb_file = jb_file b\<rparr>, rt)"
  using reload_board [OF assms] .

theorem board_reloads_from_its_file_witness:
  "job_board_init (jb_file (sample_board sample_calls)) sample_rt =
    (\<lparr>jb_jobs = dmap reload (jb_jobs (sample_board sample_calls)), jb_file = jb_file (sample_board sample_calls)\<rparr>,
     sample_rt)"
  by (rule board_reloads_from_its_file [OF sample_board_reachable])

text \<open>
  A restarted marketplace is stuck: on a board created from the file of a marketplace that had any
  job, every call on a job is refused, whatever the job's status was, no job is listed as open or
  finalized, and posting a new job raises because the old jobs cannot be written out again.
\<close>

theorem restarted_board_is_stuck:
  assumes "reachable_board b" and "jb_jobs b \<noteq> []" and "job_id_of (rt_uuid rt) \<notin> set (dkeys (jb_jobs b))"
  shows "let b' = fst (job_board_init (jb_file b) rt0) in
    job_exec c b' rt = (Inr None, b', rt) \<and> list_open b' = [] \<and> list_finalized b' = [] \<and>
    fst (post_job title desc reqs dels budget buyer b' rt) = Inl AttributeError"
proof -
  let ?b = "fst (job_board_init (jb_file b) rt0)"
  have jobs: "jb_jobs ?b = dmap reload (jb_jobs b)"
    using reload_board [OF assms(1)] by simp
  have raw: "\<exists>s. bj_status j = RawStatus s" if "j \<in> set (dvalues (jb_jobs ?b))" for j
    using that by (auto simp: jobs reload_def split: status_field.split)
  have exec: "job_exec c ?b rt = (Inr None, ?b, rt)"
  proof (cases rule: job_exec_cases [of c ?b rt])
    case (moved j j' rt')
    from moved(1) have "j \<in> set (dvalues (jb_jobs ?b))" by (rule dget_value)
    with raw moved(2) show ?thesis by (fastforce elim: job_move.cases)
  qed
  have lists: "list_open ?b = []" "list_finalized ?b = []"
    using raw by (fastforce simp: list_open_def list_finalized_def filter_empty_conv)+
  obtain k j d where b: "jb_jobs ?b = (k, j) # d" using assms(2) jobs by (cases "jb_jobs b") (auto simp: dmap_def)
  with raw [of j] obtain st where j: "bj_status j = RawStatus st" by auto
  have "job_id_of (rt_uuid rt) \<notin> set (dkeys (jb_jobs ?b))" using assms(3) jobs by simp
  then have post: "fst (post_job title desc reqs dels budget buyer ?b rt) = Inl AttributeError"
    using b j by (auto simp: post_job_eq Let_def jb_save_def jb_persist_def job_to_dict_def case_prod_beta)
  from exec lists post show ?thesis by (simp add: Let_def)
qed

theorem restarted_board_is_stuck_witness:
  "let b' = fst (job_board_init (jb_file (sample_board [])) sample_rt) in
    job_exec (ClaimJob ''job-id0'' ''bob'') b' (snd (uuid4_hex sample_rt)) = (Inr None, b', snd (uuid4_hex sample_rt)) \<and>
    fst (post_job ''t'' ''d'' [] [] (Fin 5) ''ann'' b' (snd (uuid4_hex sample_rt))) = Inl AttributeError"
proof -
  have "jb_jobs (sample_board []) \<noteq> []" by code_simp
  moreover have "job_id_of (rt_uuid (snd (uuid4_hex sample_rt))) \<notin> set (dkeys (jb_jobs (sample_board [])))" by code_simp
  ultimately show ?thesis
    using restarted_board_is_stuck [OF sample_board_reachable, of "[]" "snd (uuid4_hex sample_rt)" sample_rt
      "ClaimJob ''job-id0'' ''bob''" "''t''" "''d''" "[]" "[]" "Fin 5" "''ann''"]
    by (simp add: Let_def)
qed

text \<open>
  Votes are counted, not voters: a single validator that votes three times for the receipt of a paid
  job without votes finalizes it.
\<close>

theorem one_validator_finalizes:
  assumes "get_job jid b = Some j" and "bj_status j = Status PAID"
    and "bj_validator_votes j = []" and "dtruthy vote ''receipt_valid''"
  shows "\<exists>j'. get_job jid (fst (run_calls (replicate 3 (ValidatorVote jid v vote)) b rt)) = Some j' \<and>
    bj_status j' = Status FINALIZED \<and>
    list_all (\<lambda>w. dget w ''validator_id'' = Some v) (bj_validator_votes j')"
  using assms
  by (simp add: numeral_3_eq_3 get_job_def validator_vote_def time_time_def Let_def case_prod_beta
      check_validator_consensus_def valid_votes_def)

theorem one_validator_finalizes_witness:
  "\<exists>j'. get_job ''job-id0'' (fst (run_calls (replicate 3 (ValidatorVote ''job-id0'' (JStr ''v'') [(''receipt_valid'', JBool True)]))
      (sample_board (take 5 sample_calls)) sample_rt)) = Some j' \<and>
    bj_status j' = Status FINALIZED \<and>
    list_all (\<lambda>w. dget w ''validator_id'' = Some (JStr ''v'')) (bj_validator_votes j')"
proof -
  have "map_option (\<lambda>j. (bj_status j, bj_validator_votes j)) (get_job ''job-id0'' (sample_board (take 5 sample_calls)))
      = Some (Status PAID, [])" by code_simp
  then obtain j where "get_job ''job-id0'' (sample_board (take 5 sample_calls)) = Some j"
    "bj_status j = Status PAID" "bj_validator_votes j = []" by auto
  then show ?thesis by (rule one_validator_finalizes) (simp add: dtruthy_def)
qed

end
