(* ===== verification/Escrow.thy ===== *)
theory Escrow
  imports Sdk_Base
begin

text \<open>
  \<open>membra_sdk/marketplace/escrow.py\<close>: the buyers' funds held per job, their release, refund and freezing,
  the split of a released amount, and the file the manager is written to and read from.
\<close>

section \<open>Data\<close>

datatype escrow_state = HELD | RELEASED | REFUNDED | FROZEN

fun escrow_state_value :: "escrow_state \<Rightarrow> string" where
  "escrow_state_value HELD = ''held''"
| "escrow_state_value RELEASED = ''released''"
| "escrow_state_value REFUNDED = ''refunded''"
| "escrow_state_value FROZEN = ''frozen''"

text \<open>\<open>EscrowState(text)\<close>.\<close>

definition escrow_state_of :: "string \<Rightarrow> escrow_state option" where
  "escrow_state_of s = find (\<lambda>st. escrow_state_value st = s) [HELD, RELEASED, REFUNDED, FROZEN]"

record escrow =
  es_escrow_id :: string
  es_job_id :: string
  es_buyer_id :: string
  es_builder_id :: "string option"
  es_amount_usd :: pyfloat
  es_state :: escrow_state
  es_deposits :: "json dict list"
  es_releases :: "json dict list"
  es_created_at :: pyfloat
  es_released_at :: "pyfloat option"

text \<open>The published split, in the order of the source.\<close>

definition DISTRIBUTION_POLICY :: "pyfloat dict" where
  "DISTRIBUTION_POLICY = [
     (''infrastructure_cost'', mkf (15 / 100)),
     (''validator_reward'', mkf (20 / 100)),
     (''builder_reward'', mkf (45 / 100)),
     (''treasury_reserve'', mkf (10 / 100)),
     (''risk_legal_reserve'', mkf (10 / 100))]"

text \<open>The manager and its file; \<^const>\<open>None\<close> when there is no file.\<close>

record escrow_manager =
  em_escrows :: "escrow dict"
  em_file :: "json option"

section \<open>The file\<close>

definition escrow_to_dict :: "escrow \<Rightarrow> json dict" where
  "escrow_to_dict e = [
     (''escrow_id'', JStr (es_escrow_id e)),
     (''job_id'', JStr (es_job_id e)),
     (''buyer_id'', JStr (es_buyer_id e)),
     (''builder_id'', jopt JStr (es_builder_id e)),
     (''amount_usd'', JFloat (es_amount_usd e)),
     (''state'', JStr (escrow_state_value (es_state e))),
     (''deposits'', JList (map JObj (es_deposits e))),
     (''releases'', JList (map JObj (es_releases e))),
     (''created_at'', JFloat (es_created_at e)),
     (''released_at'', jopt JFloat (es_released_at e))]"

definition em_persist :: "escrow_manager \<Rightarrow> escrow_manager" where
  "em_persist m = m\<lparr>em_file := Some (JObj (map (\<lambda>(k, e). (k, JObj (escrow_to_dict e))) (em_escrows m)))\<rparr>"

definition escrow_of_dict :: "json dict \<Rightarrow> escrow option" where
  "escrow_of_dict d = do {
     eid \<leftarrow> dget d ''escrow_id'' \<bind> as_str;
     jid \<leftarrow> dget d ''job_id'' \<bind> as_str;
     buyer \<leftarrow> dget d ''buyer_id'' \<bind> as_str;
     builder \<leftarrow> unjopt as_str (dget_default d ''builder_id'' JNull);
     amount \<leftarrow> dget d ''amount_usd'' \<bind> as_float;
     text \<leftarrow> dget d ''state'' \<bind> as_str;
     state \<leftarrow> escrow_state_of text;
     deposits \<leftarrow> as_objs (dget_default d ''deposits'' (JList []));
     releases \<leftarrow> as_objs (dget_default d ''releases'' (JList []));
     created \<leftarrow> dget d ''created_at'' \<bind> as_float;
     released \<leftarrow> unjopt as_float (dget_default d ''released_at'' JNull);
     Some \<lparr>es_escrow_id = eid, es_job_id = jid, es_buyer_id = buyer, es_builder_id = builder,
       es_amount_usd = amount, es_state = state, es_deposits = deposits, es_releases = releases,
       es_created_at = created, es_released_at = released\<rparr> }"

text \<open>\<open>_load\<close>: the first exception ends the loop; the escrows read before it stay.\<close>

fun load_escrows :: "json dict \<Rightarrow> escrow dict \<Rightarrow> escrow dict" where
  "load_escrows [] es = es"
| "load_escrows ((k, v) # d) es =
     (case as_obj v \<bind> escrow_of_dict of None \<Rightarrow> es | Some e \<Rightarrow> load_escrows d (dset k e es))"

definition em_load :: "json option \<Rightarrow> escrow dict" where
  "em_load fl = (case fl \<bind> as_obj of None \<Rightarrow> [] | Some d \<Rightarrow> load_escrows d [])"

definition escrow_manager_init :: "json option \<Rightarrow> escrow_manager" where
  "escrow_manager_init fl = \<lparr>em_escrows = em_load fl, em_file = fl\<rparr>"

section \<open>Operations\<close>

definition escrow_id_of :: "string \<Rightarrow> string" where
  "escrow_id_of jid = ''esc-'' @ jid"

definition em_put :: "string \<Rightarrow> escrow \<Rightarrow> escrow_manager \<Rightarrow> escrow_manager" where
  "em_put k e m = em_persist (m\<lparr>em_escrows := dset k e (em_escrows m)\<rparr>)"

text \<open>\<open>deposit\<close>: the clock is read for \<open>created_at\<close> and then for the deposit.\<close>

definition deposit ::
  "string \<Rightarrow> string \<Rightarrow> string option \<Rightarrow> pyfloat \<Rightarrow> string \<Rightarrow> escrow_manager \<Rightarrow> runtime
     \<Rightarrow> escrow \<times> escrow_manager \<times> runtime" where
  "deposit jid buyer builder amount meth m rt =
     (let (created, rt) = time_time rt; (now, rt) = time_time rt;
          e = \<lparr>es_escrow_id = escrow_id_of jid, es_job_id = jid, es_buyer_id = buyer, es_builder_id = builder,
            es_amount_usd = amount, es_state = HELD,
            es_deposits = [[(''amount'', JFloat amount), (''method'', JStr meth),
              (''timestamp'', JFloat now), (''status'', JStr ''confirmed'')]],
            es_releases = [], es_created_at = created, es_released_at = None\<rparr>
      in (e, em_put (es_escrow_id e) e m, rt))"

definition share :: "pyfloat \<Rightarrow> string \<Rightarrow> pyfloat" where
  "share amount k = fround (fmul amount (dget_default DISTRIBUTION_POLICY k (Fin 0))) 2"

definition calculate_distribution :: "pyfloat \<Rightarrow> pyfloat dict" where
  "calculate_distribution amount = [
     (''infrastructure_cost'', share amount ''infrastructure_cost''),
     (''validator_reward'', share amount ''validator_reward''),
     (''builder_reward'', share amount ''builder_reward''),
     (''treasury_reserve'', share amount ''treasury_reserve''),
     (''risk_legal_reserve'', share amount ''risk_legal_reserve''),
     (''total'', fround amount 2)]"

record release_result =
  rel_escrow_id :: string
  rel_amount :: pyfloat
  rel_distribution :: "pyfloat dict"
  rel_receipt :: "json dict"

definition release ::
  "string \<Rightarrow> json dict \<Rightarrow> escrow_manager \<Rightarrow> runtime \<Rightarrow> release_result option \<times> escrow_manager \<times> runtime" where
  "release eid receipt m rt =
     (case dget (em_escrows m) eid of None \<Rightarrow> (None, m, rt)
      | Some e \<Rightarrow> if es_state e \<noteq> HELD then (None, m, rt)
          else let (now, rt) = time_time rt;
                   e = e\<lparr>es_state := RELEASED, es_released_at := Some now, es_releases := es_releases e @ [receipt]\<rparr>;
                   distribution = calculate_distribution (es_amount_usd e);
                   m = em_put eid e m
               in (Some \<lparr>rel_escrow_id = eid, rel_amount = es_amount_usd e,
                     rel_distribution = distribution, rel_receipt = receipt\<rparr>, m, rt))"

definition refund ::
  "string \<Rightarrow> string \<Rightarrow> escrow_manager \<Rightarrow> runtime \<Rightarrow> escrow option \<times> escrow_manager \<times> runtime" where
  "refund eid reason m rt =
     (case dget (em_escrows m) eid of None \<Rightarrow> (None, m, rt)
      | Some e \<Rightarrow> if es_state e \<noteq> HELD then (None, m, rt)
          else let (now, rt) = time_time rt;
                   e = e\<lparr>es_state := REFUNDED, es_releases := es_releases e @ [[
                     (''type'', JStr ''refund''), (''reason'', JStr reason), (''timestamp'', JFloat now)]]\<rparr>
               in (Some e, em_put eid e m, rt))"

definition freeze :: "string \<Rightarrow> string \<Rightarrow> escrow_manager \<Rightarrow> escrow option \<times> escrow_manager" where
  "freeze eid reason m =
     (case dget (em_escrows m) eid of None \<Rightarrow> (None, m)
      | Some e \<Rightarrow> if es_state e \<noteq> HELD then (None, m)
          else let e = e\<lparr>es_state := FROZEN\<rparr> in (Some e, em_put eid e m))"

definition get_escrow :: "string \<Rightarrow> escrow_manager \<Rightarrow> escrow option" where
  "get_escrow jid m = dget (em_escrows m) (escrow_id_of jid)"

section \<open>The file holds the state\<close>

lemma escrow_of_to_dict [simp]: "escrow_of_dict (escrow_to_dict e) = Some e"
proof -
  have "escrow_state_of (escrow_state_value st) = Some st" for st
    by (cases st) (simp_all add: escrow_state_of_def)
  then show ?thesis by (simp add: escrow_of_dict_def escrow_to_dict_def dget_default_def)
qed

lemma load_written_escrows:
  "load_escrows (map (\<lambda>(k, e). (k, JObj (escrow_to_dict e))) d) es = dset_all d es"
  by (induction d arbitrary: es) (auto simp: case_prod_beta)

text \<open>What every operation keeps: distinct identifiers, and a file that holds the state.\<close>

definition em_ok :: "escrow_manager \<Rightarrow> bool" where
  "em_ok m \<longleftrightarrow> distinct (dkeys (em_escrows m)) \<and>
     (\<forall>(k, e) \<in> set (em_escrows m). es_escrow_id e = k \<and> k = escrow_id_of (es_job_id e)) \<and>
     escrow_manager_init (em_file m) = m"

lemma em_put_simps [simp]: "em_escrows (em_put k e m) = dset k e (em_escrows m)"
  by (simp add: em_put_def em_persist_def)

lemma em_ok_escrow:
  "em_ok m \<Longrightarrow> dget (em_escrows m) k = Some e \<Longrightarrow> es_escrow_id e = k \<and> k = escrow_id_of (es_job_id e)"
  by (auto simp: em_ok_def dest!: map_of_SomeD)

lemma em_ok_put:
  assumes ok: "em_ok m" and e: "es_escrow_id e = k" "k = escrow_id_of (es_job_id e)"
  shows "em_ok (em_put k e m)"
proof -
  have dist: "distinct (dkeys (dset k e (em_escrows m)))" using ok by (simp add: em_ok_def)
  have ids: "es_escrow_id e' = k' \<and> k' = escrow_id_of (es_job_id e')" if "(k', e') \<in> set (dset k e (em_escrows m))" for k' e'
    using map_of_is_SomeI [OF dist that] em_ok_escrow [OF ok] e by (auto split: if_splits)
  have "dset_all (dset k e (em_escrows m)) [] = dset k e (em_escrows m)"
    using dist by (intro dset_all_prefix) auto
  then have "escrow_manager_init (em_file (em_put k e m)) = em_put k e m"
    by (simp add: escrow_manager_init_def em_put_def em_persist_def em_load_def load_written_escrows)
  with dist ids show ?thesis by (auto simp: em_ok_def)
qed

lemma em_ok_init: "em_ok (escrow_manager_init None)"
  by (simp add: em_ok_def escrow_manager_init_def em_load_def)

section \<open>One call\<close>

inductive escrow_step :: "escrow_manager \<times> runtime \<Rightarrow> escrow_manager \<times> runtime \<Rightarrow> bool" where
  step_deposit: "deposit jid buyer builder amount meth m rt = (e, m', rt') \<Longrightarrow>
     escrow_step (m, rt) (m', rt')"
| step_release: "release eid receipt m rt = (r, m', rt') \<Longrightarrow> escrow_step (m, rt) (m', rt')"
| step_refund: "refund eid reason m rt = (r', m', rt') \<Longrightarrow> escrow_step (m, rt) (m', rt')"
| step_freeze: "freeze eid reason m = (r', m') \<Longrightarrow> escrow_step (m, rt) (m', rt)"

lemma escrow_step_ok: "escrow_step s s' \<Longrightarrow> em_ok (fst s) \<Longrightarrow> em_ok (fst s')"
proof (induction rule: escrow_step.induct)
  case (step_deposit jid buyer builder amount meth m rt e m' rt')
  then show ?case
    by (auto simp: deposit_def Let_def case_prod_beta intro!: em_ok_put)
next
  case (step_release eid receipt m rt r m' rt')
  then show ?case using em_ok_escrow [of m eid]
    by (auto simp: release_def Let_def case_prod_beta split: option.splits if_splits intro!: em_ok_put)
next
  case (step_refund eid reason m rt r' m' rt')
  then show ?case using em_ok_escrow [of m eid]
    by (auto simp: refund_def Let_def case_prod_beta split: option.splits if_splits intro!: em_ok_put)
next
  case (step_freeze eid reason m r' m' rt)
  then show ?case using em_ok_escrow [of m eid]
    by (auto simp: freeze_def Let_def case_prod_beta split: option.splits if_splits intro!: em_ok_put)
qed

interpretation escrow_calls: component_invariant escrow_step em_ok
  by unfold_locales (rule escrow_step_ok)

lemma escrow_run_ok: "escrow_step\<^sup>*\<^sup>* s s' \<Longrightarrow> em_ok (fst s) \<Longrightarrow> em_ok (fst s')"
  by (rule escrow_calls.run_ok)

section \<open>Sequences of calls\<close>

datatype escrow_call =
    Deposit string string "string option" pyfloat string
  | Release string "json dict"
  | Refund string string
  | Freeze string string

fun escrow_exec :: "escrow_call \<Rightarrow> escrow_manager \<Rightarrow> runtime \<Rightarrow> bool \<times> escrow_manager \<times> runtime" where
  "escrow_exec (Deposit jid buyer builder amount meth) m rt =
     (let (e, m, rt) = deposit jid buyer builder amount meth m rt in (True, m, rt))"
| "escrow_exec (Release eid receipt) m rt = (let (r, m, rt) = release eid receipt m rt in (r \<noteq> None, m, rt))"
| "escrow_exec (Refund eid reason) m rt = (let (r, m, rt) = refund eid reason m rt in (r \<noteq> None, m, rt))"
| "escrow_exec (Freeze eid reason) m rt = (let (r, m) = freeze eid reason m in (r \<noteq> None, m, rt))"

fun closes :: "string \<Rightarrow> escrow_call \<Rightarrow> bool" where
  "closes eid (Release k receipt) = (k = eid)"
| "closes eid (Refund k reason) = (k = eid)"
| "closes eid (Freeze k reason) = (k = eid)"
| "closes eid (Deposit jid buyer builder amount meth) = False"

fun deposits_into :: "string \<Rightarrow> escrow_call \<Rightarrow> bool" where
  "deposits_into eid (Deposit jid buyer builder amount meth) = (escrow_id_of jid = eid)"
| "deposits_into eid c = False"

text \<open>How many calls of a sequence released, refunded or froze the escrow.\<close>

fun payouts :: "string \<Rightarrow> escrow_call list \<Rightarrow> escrow_manager \<Rightarrow> runtime \<Rightarrow> nat" where
  "payouts eid [] m rt = 0"
| "payouts eid (c # cs) m rt = (let (ok, m, rt) = escrow_exec c m rt
     in (if closes eid c \<and> ok then 1 else 0) + payouts eid cs m rt)"

lemmas escrow_op_defs = deposit_def release_def refund_def freeze_def

definition held :: "string \<Rightarrow> escrow_manager \<Rightarrow> bool" where
  "held eid m \<longleftrightarrow> (\<exists>e. dget (em_escrows m) eid = Some e \<and> es_state e = HELD)"

lemma escrow_exec_held:
  assumes "escrow_exec c m rt = (ok, m', rt')" and "\<not> deposits_into eid c"
  shows "if closes eid c \<and> ok then held eid m \<and> \<not> held eid m' else held eid m' = held eid m"
  using assms
  by (cases c) (auto simp: escrow_op_defs held_def Let_def case_prod_beta split: option.splits if_splits)

lemma payouts_not_held:
  assumes "\<not> held eid m" and "list_all (\<lambda>c. \<not> deposits_into eid c) cs"
  shows "payouts eid cs m rt = 0"
  using assms
proof (induction cs arbitrary: m rt)
  case (Cons c cs)
  obtain ok m' rt' where c: "escrow_exec c m rt = (ok, m', rt')" by (metis prod_cases3)
  with escrow_exec_held [OF c, of eid] Cons.prems have "\<not> (closes eid c \<and> ok)" "\<not> held eid m'" by (auto split: if_splits)
  with c Cons show ?case by simp
qed simp

lemma payouts_le_1:
  assumes "list_all (\<lambda>c. \<not> deposits_into eid c) cs"
  shows "payouts eid cs m rt \<le> 1"
  using assms
proof (induction cs arbitrary: m rt)
  case (Cons c cs)
  obtain ok m' rt' where c: "escrow_exec c m rt = (ok, m', rt')" by (metis prod_cases3)
  with escrow_exec_held [OF c, of eid] Cons payouts_not_held [of eid m' cs rt'] show ?case
    by (auto split: if_splits)
qed simp

section \<open>Properties\<close>

text \<open>
  C17. An escrow pays out at most once: in any sequence of deposits, releases, refunds and freezes, in any
  order and on any escrows, at most one call releases, refunds or freezes a given escrow, as long as
  nothing is deposited into it again; and none does if it was not held at the start.
\<close>

theorem escrow_closes_once:
  assumes "list_all (\<lambda>c. \<not> deposits_into eid c) cs"
  shows "payouts eid cs m rt \<le> 1 \<and> (held eid m \<or> payouts eid cs m rt = 0)"
  using payouts_le_1 [OF assms, of m rt] payouts_not_held [OF _ assms, of m rt] by (cases "held eid m") simp_all

theorem escrow_closes_once_witness:
  "let (e, m, rt) = deposit ''j'' ''ann'' None (Fin 5) ''stripe'' (escrow_manager_init None) sample_rt;
       cs = [Release ''esc-j'' [], Refund ''esc-j'' ''late'', Release ''esc-j'' []]
   in payouts ''esc-j'' cs m rt = 1 \<and> payouts ''esc-j'' cs m rt \<le> 1"
proof -
  let ?cs = "[Release ''esc-j'' [], Refund ''esc-j'' ''late'', Release ''esc-j'' []]"
  have "payouts ''esc-j'' ?cs m rt \<le> 1" for m rt
    by (rule escrow_closes_once [THEN conjunct1]) simp
  then show ?thesis
    by (simp add: escrow_op_defs time_time_def escrow_id_of_def escrow_manager_init_def em_load_def Let_def)
qed

text \<open>
  Nothing of the escrow manager is lost on a restart: after any run from an empty file, a manager
  created on the file has the same escrows with the same amounts, states, deposits and releases.
\<close>

theorem escrows_survive_restart:
  assumes "escrow_step\<^sup>*\<^sup>* (escrow_manager_init None, rt) (m, rt')"
  shows "escrow_manager_init (em_file m) = m"
  using escrow_run_ok [OF assms] em_ok_init by (simp add: em_ok_def)

theorem escrows_survive_restart_witness:
  "let (e, m, rt) = deposit ''j'' ''ann'' None (Fin 5) ''stripe'' (escrow_manager_init None) sample_rt
   in em_escrows m \<noteq> [] \<and> escrow_manager_init (em_file m) = m"
proof -
  obtain e m rt where d: "deposit ''j'' ''ann'' None (Fin 5) ''stripe'' (escrow_manager_init None) sample_rt = (e, m, rt)"
    by (metis prod_cases3)
  have "escrow_step\<^sup>*\<^sup>* (escrow_manager_init None, sample_rt) (m, rt)"
    using step_deposit [OF d] by blast
  from escrows_survive_restart [OF this] d show ?thesis
    by (auto simp: deposit_def Let_def case_prod_beta escrow_manager_init_def em_load_def)
qed

text \<open>
  A second deposit for a job replaces the escrow of the first: the earlier funds are in no escrow any
  more, whatever its state was, and only the later amount can be released.
\<close>

theorem second_deposit_replaces_first:
  assumes "deposit jid buyer builder amount meth m rt = (e, m1, rt1)"
    and "deposit jid buyer' builder' amount' meth' m1 rt1 = (e', m2, rt2)"
  shows "get_escrow jid m2 = Some e' \<and> es_amount_usd e' = amount' \<and> length (es_deposits e') = 1 \<and>
    dkeys (em_escrows m2) = dkeys (em_escrows m1)"
  using assms
  by (auto simp: deposit_def Let_def case_prod_beta get_escrow_def update_keys dest!: sym [of _ m1])

theorem second_deposit_replaces_first_witness:
  "let (e, m1, rt1) = deposit ''j'' ''ann'' None (Fin 5) ''stripe'' (escrow_manager_init None) sample_rt;
       (e', m2, rt2) = deposit ''j'' ''ann'' None (Fin 7) ''stripe'' m1 rt1
   in map_option es_amount_usd (get_escrow ''j'' m2) = Some (Fin 7)"
proof -
  obtain e m1 rt1 where d1: "deposit ''j'' ''ann'' None (Fin 5) ''stripe'' (escrow_manager_init None) sample_rt = (e, m1, rt1)"
    by (metis prod_cases3)
  obtain e' m2 rt2 where d2: "deposit ''j'' ''ann'' None (Fin 7) ''stripe'' m1 rt1 = (e', m2, rt2)"
    by (metis prod_cases3)
  from second_deposit_replaces_first [OF d1 d2] d1 d2 show ?thesis by simp
qed

section \<open>The split of a payment\<close>

text \<open>A share of at most a billion is within half a cent of its rate, up to the rounding of the floats.\<close>

lemma rounded_product:
  assumes "0 \<le> a" and "a \<le> 2 ^ 30" and "0 \<le> q" and "q \<le> 1"
  shows "\<exists>r. fround (fmul (Fin a) (mkf q)) 2 = Fin r \<and> \<bar>r - a * q\<bar> \<le> 1 / 200 + 1 / 10 ^ 6"
proof -
  have tiny: "pow2 (- 1021) \<le> pow2 (- 53)" by (rule pow2_mono) simp
  have c: "pow2 (- 53) = 1 / 9007199254740992" by (simp add: pow2_def)
  have n: "(2 :: rat) ^ 30 = 1073741824" "(2 :: rat) ^ 31 = 2147483648" by simp_all
  define u where "u = rnd q"
  have q: "mkf q = Fin u" unfolding u_def using assms by (intro mkf_moderate) simp
  have u: "\<bar>u - q\<bar> \<le> 2 * pow2 (- 53)"
    using rnd_abs_error [of q 1] assms tiny unfolding u_def by simp
  have u01: "0 \<le> u" "u \<le> 1"
    using f64.nonneg [of q] f64.le_fixed [of 1 q] f64.int_exact [of 1] assms by (simp_all add: u_def)
  define v where "v = rnd (a * u)"
  have au: "0 \<le> a * u" "a * u \<le> 2 ^ 30" using assms u01 mult_mono [of a "2 ^ 30" u 1] by auto
  then have v: "fmul (Fin a) (mkf q) = Fin v" unfolding q v_def by (simp add: mkf_moderate)
  have v1: "\<bar>v - a * u\<bar> \<le> 2 ^ 30 * pow2 (- 53) + pow2 (- 1021)"
    using rnd_abs_error [of "a * u" "2 ^ 30"] au unfolding v_def by simp
  have au': "\<bar>a * u - a * q\<bar> \<le> 2 ^ 30 * (2 * pow2 (- 53))"
  proof -
    have "\<bar>a * u - a * q\<bar> = a * \<bar>u - q\<bar>" using assms(1) by (simp add: abs_mult flip: right_diff_distrib)
    also have "\<dots> \<le> 2 ^ 30 * (2 * pow2 (- 53))" using assms u by (intro mult_mono) auto
    finally show ?thesis .
  qed
  have "\<bar>v\<bar> \<le> 2 ^ 31" using v1 au tiny unfolding n c by linarith
  from fround_error [OF this, of 2] obtain r where r: "fround (Fin v) 2 = Fin r"
    "\<bar>r - v\<bar> \<le> 1 / 200 + (2 ^ 31 + 1) * pow2 (- 53) + pow2 (- 1021)" by auto
  have "\<bar>r - a * q\<bar> \<le> \<bar>r - v\<bar> + \<bar>v - a * u\<bar> + \<bar>a * u - a * q\<bar>"
    using abs_triangle_ineq [of "r - v" "v - a * q"] abs_triangle_ineq [of "v - a * u" "a * u - a * q"] by simp
  also have "\<dots> \<le> 1 / 200 + 1 / 10 ^ 6"
  proof -
    have "pow2 (- 1021) \<le> 1 / 10 ^ 15" using tiny unfolding c by simp
    with r(2) v1 au' show ?thesis unfolding n c by simp
  qed
  finally have "\<bar>r - a * q\<bar> \<le> 1 / 200 + 1 / 10 ^ 6" .
  with v r(1) show ?thesis by simp
qed

lemma share_error:
  assumes "0 \<le> a" and "a \<le> 2 ^ 30" and "dget DISTRIBUTION_POLICY k = Some (mkf q)" and "0 \<le> q" and "q \<le> 1"
  shows "\<exists>r. share (Fin a) k = Fin r \<and> \<bar>r - a * q\<bar> \<le> 1 / 200 + 1 / 10 ^ 6"
  using rounded_product [OF assms(1,2,4,5)] assms(3)
  by (simp add: share_def dget_default_def del: fmul.simps fround.simps)

text \<open>
  C20. The split adds up to within about three cents: for every amount from zero to a billion dollars, all
  six figures of \<open>_calculate_distribution\<close> are finite and the five shares together differ from the
  reported total by at most 3.01 cents.
\<close>

theorem distribution_adds_up:
  assumes "0 \<le> a" and "a \<le> 2 ^ 30"
  shows "\<exists>i v b t l s. calculate_distribution (Fin a) = [
      (''infrastructure_cost'', Fin i), (''validator_reward'', Fin v), (''builder_reward'', Fin b),
      (''treasury_reserve'', Fin t), (''risk_legal_reserve'', Fin l), (''total'', Fin s)] \<and>
    \<bar>i + v + b + t + l - s\<bar> \<le> 301 / 10000"
proof -
  obtain i where i: "share (Fin a) ''infrastructure_cost'' = Fin i" "\<bar>i - a * (15 / 100)\<bar> \<le> 1 / 200 + 1 / 10 ^ 6"
    using share_error [OF assms, of "''infrastructure_cost''" "15 / 100"] by (auto simp: DISTRIBUTION_POLICY_def)
  obtain v where v: "share (Fin a) ''validator_reward'' = Fin v" "\<bar>v - a * (20 / 100)\<bar> \<le> 1 / 200 + 1 / 10 ^ 6"
    using share_error [OF assms, of "''validator_reward''" "20 / 100"] by (auto simp: DISTRIBUTION_POLICY_def)
  obtain b where b: "share (Fin a) ''builder_reward'' = Fin b" "\<bar>b - a * (45 / 100)\<bar> \<le> 1 / 200 + 1 / 10 ^ 6"
    using share_error [OF assms, of "''builder_reward''" "45 / 100"] by (auto simp: DISTRIBUTION_POLICY_def)
  obtain t where t: "share (Fin a) ''treasury_reserve'' = Fin t" "\<bar>t - a * (10 / 100)\<bar> \<le> 1 / 200 + 1 / 10 ^ 6"
    using share_error [OF assms, of "''treasury_reserve''" "10 / 100"] by (auto simp: DISTRIBUTION_POLICY_def)
  obtain l where l: "share (Fin a) ''risk_legal_reserve'' = Fin l" "\<bar>l - a * (10 / 100)\<bar> \<le> 1 / 200 + 1 / 10 ^ 6"
    using share_error [OF assms, of "''risk_legal_reserve''" "10 / 100"] by (auto simp: DISTRIBUTION_POLICY_def)
  obtain s where s: "fround (Fin a) 2 = Fin s" "\<bar>s - a\<bar> \<le> 1 / 200 + 1 / 10 ^ 6"
  proof -
    have "pow2 (- 1021) \<le> pow2 (- 53)" by (rule pow2_mono) simp
    moreover have "pow2 (- 53) = 1 / 9007199254740992" by (simp add: pow2_def)
    ultimately show ?thesis using that fround_error [of a "2 ^ 30" 2] assms by fastforce
  qed
  have "\<bar>i + v + b + t + l - s\<bar> \<le> 301 / 10000"
    using i(2) v(2) b(2) t(2) l(2) s(2) unfolding abs_le_iff by simp
  then show ?thesis
    unfolding calculate_distribution_def i(1) v(1) b(1) t(1) l(1) s(1) by blast
qed

theorem distribution_adds_up_witness:
  "\<exists>i v b t l s. calculate_distribution (Fin 100) = [
      (''infrastructure_cost'', Fin i), (''validator_reward'', Fin v), (''builder_reward'', Fin b),
      (''treasury_reserve'', Fin t), (''risk_legal_reserve'', Fin l), (''total'', Fin s)] \<and>
    \<bar>i + v + b + t + l - s\<bar> \<le> 301 / 10000"
  by (rule distribution_adds_up) simp_all

text \<open>The floats of the example: five cents, the rates and their products.\<close>

lemma five_cents:
  "mkf (1 / 20) = Fin (7205759403792794 * pow2 (- 57))" "mkf (3 / 20) = Fin (5404319552844595 * pow2 (- 55))"
  "mkf (1 / 5) = Fin (7205759403792794 * pow2 (- 55))" "mkf (9 / 20) = Fin (8106479329266893 * pow2 (- 54))"
  "mkf (1 / 10) = Fin (7205759403792794 * pow2 (- 56))"
  using mkf_eqI [of "- 57" "1 / 20" 7205759403792794] mkf_eqI [of "- 55" "3 / 20" 5404319552844595]
    mkf_eqI [of "- 55" "1 / 5" 7205759403792794] mkf_eqI [of "- 54" "9 / 20" 8106479329266893]
    mkf_eqI [of "- 56" "1 / 10" 7205759403792794]
  by (simp_all add: pow2_def f_overflow_def)

lemma five_cent_products:
  "fmul (mkf (1 / 20)) (mkf (3 / 20)) = Fin (8646911284551352 * pow2 (- 60))"
  "fmul (mkf (1 / 20)) (mkf (1 / 5)) = Fin (5764607523034236 * pow2 (- 59))"
  "fmul (mkf (1 / 20)) (mkf (9 / 20)) = Fin (6485183463413515 * pow2 (- 58))"
  "fmul (mkf (1 / 20)) (mkf (1 / 10)) = Fin (5764607523034236 * pow2 (- 60))"
  unfolding five_cents fmul.simps
  by (rule mkf_eqI [of "- 60" _ 8646911284551352, simplified]
      mkf_eqI [of "- 59" _ 5764607523034236, simplified] mkf_eqI [of "- 58" _ 6485183463413515, simplified]
      mkf_eqI [of "- 60" _ 5764607523034236, simplified]; simp add: pow2_def f_overflow_def)+

text \<open>
  The split can pay out more than it receives: for a deposit of five cents the five shares are one,
  one, two, one and one cents, and the reported total is five.
\<close>

theorem distribution_overpays:
  "calculate_distribution (mkf (5 / 100)) = [
     (''infrastructure_cost'', mkf (1 / 100)), (''validator_reward'', mkf (1 / 100)),
     (''builder_reward'', mkf (2 / 100)), (''treasury_reserve'', mkf (1 / 100)),
     (''risk_legal_reserve'', mkf (1 / 100)), (''total'', mkf (5 / 100))]"
proof -
  have cents: "fround (Fin (8646911284551352 * pow2 (- 60))) 2 = mkf (1 / 100)"
    "fround (Fin (5764607523034236 * pow2 (- 59))) 2 = mkf (1 / 100)"
    "fround (Fin (6485183463413515 * pow2 (- 58))) 2 = mkf (2 / 100)"
    "fround (Fin (5764607523034236 * pow2 (- 60))) 2 = mkf (1 / 100)"
    "fround (mkf (1 / 20)) 2 = mkf (5 / 100)"
    unfolding five_cents
    using fround_near [of "8646911284551352 * pow2 (- 60)" 2 1] fround_near [of "5764607523034236 * pow2 (- 59)" 2 1]
      fround_near [of "6485183463413515 * pow2 (- 58)" 2 2] fround_near [of "5764607523034236 * pow2 (- 60)" 2 1]
      fround_near [of "7205759403792794 * pow2 (- 57)" 2 5]
    by (simp_all add: pow2_def del: fround.simps)
  have "mkf (5 / 100) = mkf (1 / 20)" "mkf (15 / 100) = mkf (3 / 20)" "mkf (20 / 100) = mkf (1 / 5)"
    "mkf (45 / 100) = mkf (9 / 20)" "mkf (10 / 100) = mkf (1 / 10)" by simp_all
  then show ?thesis
    by (simp add: calculate_distribution_def share_def DISTRIBUTION_POLICY_def dget_default_def
        five_cent_products cents del: fround.simps fmul.simps)
qed

end
