(* ===== verification/Payments.thy ===== *)
theory Payments
  imports Sdk_Base
begin

text \<open>
  \<open>membra_sdk/payments/receipts.py\<close> and \<open>payments/settlement.py\<close>: checking payment receipts, and the record
  of which payments have settled.
\<close>

section \<open>Receipts\<close>

record payment_receipt =
  pr_receipt_id :: string
  pr_job_id :: string
  pr_processor :: string
  pr_transaction_id :: string
  pr_amount_usd :: pyfloat
  pr_amount_crypto :: "pyfloat option"
  pr_currency :: string
  pr_status :: string
  pr_timestamp :: pyfloat
  pr_metadata :: "json dict"

definition receipt_text :: "payment_receipt \<Rightarrow> string" where
  "receipt_text r = pr_processor r @ '':'' @ pr_transaction_id r @ '':'' @ ffixed 2 (pr_amount_usd r) @ '':'' @ pr_status r"

definition receipt_hash :: "payment_receipt \<Rightarrow> string" where
  "receipt_hash r = sha256_hex (receipt_text r)"

definition PROCESSORS :: "string option dict" where
  "PROCESSORS = [
     (''stripe'', Some ''https://api.stripe.com/v1/charges''),
     (''solana'', Some ''https://api.devnet.solana.com''),
     (''ethereum'', None),
     (''manual'', None)]"

record verification_result =
  vr_receipt_id :: string
  vr_valid :: bool
  vr_checks :: "bool dict"
  vr_timestamp :: pyfloat

record receipt_verifier =
  rv_verified_receipts :: "payment_receipt dict"
  rv_verification_log :: "verification_result list"

definition receipt_verifier_init :: receipt_verifier where
  "receipt_verifier_init = \<lparr>rv_verified_receipts = [], rv_verification_log = []\<rparr>"

text \<open>The checks of \<open>verify\<close>, in the order in which they are entered.\<close>

definition receipt_checks :: "payment_receipt \<Rightarrow> bool dict" where
  "receipt_checks r = [
     (''amount_positive'', flt (Fin 0) (pr_amount_usd r)),
     (''status_settled'', pr_status r \<in> {''settled'', ''confirmed'', ''succeeded''}),
     (''processor_known'', dget PROCESSORS (pr_processor r) \<noteq> None),
     (''tx_id_present'', length (pr_transaction_id r) > 0),
     (''hash_valid'', True)]"

definition receipt_valid :: "payment_receipt \<Rightarrow> bool" where
  "receipt_valid r = list_all id (dvalues (receipt_checks r))"

definition verify_receipt ::
  "payment_receipt \<Rightarrow> receipt_verifier \<Rightarrow> runtime \<Rightarrow> verification_result \<times> receipt_verifier \<times> runtime" where
  "verify_receipt r v rt =
     (let (now, rt) = time_time rt;
          res = \<lparr>vr_receipt_id = pr_receipt_id r, vr_valid = receipt_valid r,
            vr_checks = receipt_checks r, vr_timestamp = now\<rparr>;
          v = (if vr_valid res
               then v\<lparr>rv_verified_receipts := dset (pr_receipt_id r) r (rv_verified_receipts v)\<rparr> else v)
      in (res, v\<lparr>rv_verification_log := rv_verification_log v @ [res]\<rparr>, rt))"

definition get_verification :: "string \<Rightarrow> receipt_verifier \<Rightarrow> verification_result option" where
  "get_verification rid v = find (\<lambda>l. vr_receipt_id l = rid) (rv_verification_log v)"

fun verify_all ::
  "payment_receipt list \<Rightarrow> receipt_verifier \<Rightarrow> runtime \<Rightarrow> verification_result list \<times> receipt_verifier \<times> runtime" where
  "verify_all [] v rt = ([], v, rt)"
| "verify_all (r # rs) v rt =
     (let (res, v, rt) = verify_receipt r v rt; (ress, v, rt) = verify_all rs v rt in (res # ress, v, rt))"

record consensus_result =
  cr_receipts_checked :: int
  cr_valid_count :: int
  cr_consensus :: bool
  cr_results :: "verification_result list"

definition consensus_verify ::
  "payment_receipt list \<Rightarrow> receipt_verifier \<Rightarrow> runtime \<Rightarrow> consensus_result \<times> receipt_verifier \<times> runtime" where
  "consensus_verify rs v rt =
     (let (results, v, rt) = verify_all rs v rt;
          valid_count = int (length (filter vr_valid results));
          total = int (length results)
      in (\<lparr>cr_receipts_checked = total, cr_valid_count = valid_count,
            cr_consensus = (valid_count * 3 \<ge> total * 2), cr_results = results\<rparr>, v, rt))"

section \<open>Settlements\<close>

record settlement_record =
  sr_settlement_id :: string
  sr_job_id :: string
  sr_receipt_id :: string
  sr_amount_usd :: pyfloat
  sr_from_account :: string
  sr_to_account :: string
  sr_processor :: string
  sr_status :: string
  sr_confirmed_at :: "pyfloat option"
  sr_metadata :: "json dict"

type_synonym settlement_tracker = "settlement_record dict"

definition settlement_id_of :: "string \<Rightarrow> string" where
  "settlement_id_of jid = ''set-'' @ jid"

definition record_settlement ::
  "string \<Rightarrow> string \<Rightarrow> pyfloat \<Rightarrow> string \<Rightarrow> string \<Rightarrow> string \<Rightarrow> settlement_tracker
     \<Rightarrow> settlement_record \<times> settlement_tracker" where
  "record_settlement jid rid amount src dst processor t =
     (let s = \<lparr>sr_settlement_id = settlement_id_of jid, sr_job_id = jid, sr_receipt_id = rid,
            sr_amount_usd = amount, sr_from_account = src, sr_to_account = dst, sr_processor = processor,
            sr_status = ''pending'', sr_confirmed_at = None, sr_metadata = []\<rparr>
      in (s, dset (sr_settlement_id s) s t))"

definition confirm_settlement_record ::
  "string \<Rightarrow> settlement_tracker \<Rightarrow> runtime \<Rightarrow> settlement_record option \<times> settlement_tracker \<times> runtime" where
  "confirm_settlement_record sid t rt =
     (case dget t sid of None \<Rightarrow> (None, t, rt)
      | Some s \<Rightarrow> let (now, rt) = time_time rt;
                     s = s\<lparr>sr_status := ''settled'', sr_confirmed_at := Some now\<rparr>
                 in (Some s, dset sid s t, rt))"

definition is_settled :: "string \<Rightarrow> settlement_tracker \<Rightarrow> bool" where
  "is_settled jid t = (case dget t (settlement_id_of jid) of None \<Rightarrow> False | Some s \<Rightarrow> sr_status s = ''settled'')"

definition get_settlement :: "string \<Rightarrow> settlement_tracker \<Rightarrow> settlement_record option" where
  "get_settlement jid t = dget t (settlement_id_of jid)"

section \<open>What verification does\<close>

lemma receipt_valid_iff:
  "receipt_valid r \<longleftrightarrow>
     flt (Fin 0) (pr_amount_usd r) \<and> pr_status r \<in> {''settled'', ''confirmed'', ''succeeded''} \<and>
     pr_processor r \<in> {''stripe'', ''solana'', ''ethereum'', ''manual''} \<and> pr_transaction_id r \<noteq> []"
  by (auto simp: receipt_valid_def receipt_checks_def PROCESSORS_def split: if_splits)

lemma verify_receipt_simps [simp]:
  "vr_valid (fst (verify_receipt r v rt)) = receipt_valid r"
  "vr_receipt_id (fst (verify_receipt r v rt)) = pr_receipt_id r"
  "rv_verification_log (fst (snd (verify_receipt r v rt))) = rv_verification_log v @ [fst (verify_receipt r v rt)]"
  "snd (snd (verify_receipt r v rt)) = rt_tick rt"
  by (simp_all add: verify_receipt_def Let_def case_prod_beta time_time_def)

lemma verified_results:
  "map vr_valid (fst (verify_all rs v rt)) = map receipt_valid rs"
  "map vr_receipt_id (fst (verify_all rs v rt)) = map pr_receipt_id rs"
  "rv_verification_log (fst (snd (verify_all rs v rt))) = rv_verification_log v @ fst (verify_all rs v rt)"
  by (induction rs arbitrary: v rt) (simp_all add: case_prod_beta Let_def)

text \<open>Every stored receipt has passed all the checks.\<close>

definition verifier_ok :: "receipt_verifier \<Rightarrow> bool" where
  "verifier_ok v \<longleftrightarrow> (\<forall>(k, r) \<in> set (rv_verified_receipts v). pr_receipt_id r = k \<and>
     receipt_valid r)"

lemma set_dset_subset: "set (dset k v d) \<subseteq> insert (k, v) (set d)"
  by (induction d) auto

lemma verifier_ok_verify: "verifier_ok v \<Longrightarrow> verifier_ok (fst (snd (verify_receipt r v rt)))"
  using set_dset_subset [of "pr_receipt_id r" r "rv_verified_receipts v"]
  by (auto simp: verifier_ok_def verify_receipt_def Let_def case_prod_beta)

text \<open>Recording and then confirming a settlement settles the job, whatever was recorded before.\<close>

lemma recorded_settlement_settles:
  assumes "record_settlement jid rid amount src dst processor t = (s, t1)"
    and "confirm_settlement_record (sr_settlement_id s) t1 rt = (r, t2, rt')"
  shows "is_settled jid t2 \<and> get_settlement jid t2 = r \<and> (\<exists>s'. r = Some s' \<and> sr_amount_usd s' = amount)"
  using assms
  by (auto simp: record_settlement_def confirm_settlement_record_def is_settled_def get_settlement_def time_time_def Let_def)

text \<open>
  A batch of receipts reaches consensus exactly when at least two thirds of its receipts are valid, in
  particular when the batch is empty, and a receipt is valid exactly when its amount is positive, its
  status is one of the settled ones, its processor is known and it has a transaction identifier.
\<close>

theorem receipt_consensus_exact:
  "cr_consensus (fst (consensus_verify rs v rt)) \<longleftrightarrow>
     2 * length rs \<le> 3 * length (filter (\<lambda>r. flt (Fin 0) (pr_amount_usd r) \<and>
       pr_status r \<in> {''settled'', ''confirmed'', ''succeeded''} \<and>
       pr_processor r \<in> {''stripe'', ''solana'', ''ethereum'', ''manual''} \<and> pr_transaction_id r \<noteq> []) rs)"
proof -
  let ?results = "fst (verify_all rs v rt)"
  have count: "length (filter vr_valid ?results) = length (filter receipt_valid rs)"
    using verified_results(1) [of rs v rt] filter_map [of id vr_valid ?results] filter_map [of id receipt_valid rs]
    by (metis comp_id id_comp length_map)
  have "length ?results = length rs" using verified_results(1) [of rs v rt] by (rule map_eq_imp_length_eq)
  then have "cr_consensus (fst (consensus_verify rs v rt)) \<longleftrightarrow> 2 * length rs \<le> 3 * length (filter receipt_valid rs)"
    using count by (simp add: consensus_verify_def Let_def case_prod_beta) linarith
  then show ?thesis by (simp only: receipt_valid_iff [symmetric])
qed

end
