(* ===== verification/Profit_Loop.thy ===== *)
theory Profit_Loop
  imports Job_Board Escrow Payments
begin

text \<open>
  \<open>membra_sdk/profit_loop.py\<close>: the orchestration of the job board, the escrow manager, the receipt verifier
  and the settlement tracker, from posting a job to distributing its payment.
\<close>

section \<open>State\<close>

text \<open>
  The four components the loop drives, and the process environment. The consensus object
  the constructor also creates is never used by the loop.
\<close>

record profit_loop =
  pl_jobs :: job_board
  pl_escrow :: escrow_manager
  pl_receipts :: receipt_verifier
  pl_settlements :: settlement_tracker
  pl_rt :: runtime

text \<open>A call that may raise; the state is changed up to the point where it raises.\<close>

type_synonym 'a loop_call = "profit_loop \<Rightarrow> 'a result \<times> profit_loop"

definition bindL :: "'a loop_call \<Rightarrow> ('a \<Rightarrow> 'b loop_call) \<Rightarrow> 'b loop_call" where
  "bindL m f s = (case m s of (Inl e, s) \<Rightarrow> (Inl e, s) | (Inr x, s) \<Rightarrow> f x s)"

definition returnL :: "'a \<Rightarrow> 'a loop_call" where
  "returnL x s = (Inr x, s)"

definition on_board :: "(job_board \<Rightarrow> runtime \<Rightarrow> 'a result \<times> job_board \<times> runtime) \<Rightarrow> 'a loop_call" where
  "on_board f s = (let (r, b, rt) = f (pl_jobs s) (pl_rt s) in (r, s\<lparr>pl_jobs := b, pl_rt := rt\<rparr>))"

definition on_board_pure :: "(job_board \<Rightarrow> 'a result \<times> job_board) \<Rightarrow> 'a loop_call" where
  "on_board_pure f s = (let (r, b) = f (pl_jobs s) in (r, s\<lparr>pl_jobs := b\<rparr>))"

definition timeL :: "pyfloat loop_call" where
  "timeL s = (let (now, rt) = time_time (pl_rt s) in (Inr now, s\<lparr>pl_rt := rt\<rparr>))"

definition profit_loop_init :: "json option list \<Rightarrow> json option \<Rightarrow> runtime \<Rightarrow> profit_loop" where
  "profit_loop_init job_file escrow_file rt =
     (let (b, rt) = job_board_init job_file rt
      in \<lparr>pl_jobs = b, pl_escrow = escrow_manager_init escrow_file, pl_receipts = receipt_verifier_init,
           pl_settlements = [], pl_rt = rt\<rparr>)"

section \<open>The steps of the loop\<close>

definition pl_post_job ::
  "string \<Rightarrow> string \<Rightarrow> string list \<Rightarrow> string list \<Rightarrow> pyfloat \<Rightarrow> string \<Rightarrow> build_job loop_call" where
  "pl_post_job title description requirements deliverables budget buyer =
     on_board (post_job title description requirements deliverables budget buyer)"

definition deposit_escrow :: "string \<Rightarrow> string \<Rightarrow> pyfloat \<Rightarrow> json dict loop_call" where
  "deposit_escrow jid buyer amount s =
     (case get_job jid (pl_jobs s) of None \<Rightarrow> (Inr [(''error'', JStr ''Job not found'')], s)
      | Some j \<Rightarrow> let (e, m, rt) = deposit jid buyer (bj_builder_id j) amount ''stripe'' (pl_escrow s) (pl_rt s)
          in (Inr [(''escrow_id'', JStr (es_escrow_id e)), (''amount'', JFloat amount),
                (''state'', JStr (escrow_state_value (es_state e)))],
              s\<lparr>pl_escrow := m, pl_rt := rt\<rparr>))"

definition claim_and_build :: "string \<Rightarrow> string \<Rightarrow> string \<Rightarrow> string \<Rightarrow> build_job option loop_call" where
  "claim_and_build jid builder path content =
     bindL (on_board_pure (claim_job jid builder))
       (\<lambda>job. case job of None \<Rightarrow> returnL None
          | Some j \<Rightarrow> on_board (submit_artifact jid path (sha256_hex content)))"

text \<open>
  The subprocess is a parameter: it ends with an exit code and two outputs, or running it raises with a
  message.
\<close>

definition run_tests ::
  "(string list \<Rightarrow> string + int \<times> string \<times> string) \<Rightarrow> string \<Rightarrow> string list \<Rightarrow> build_job option loop_call" where
  "run_tests subprocess_run jid command =
     bindL timeL (\<lambda>now.
       let test = (case subprocess_run command of
             Inr (returncode, out, err) \<Rightarrow> [
               (''passed'', JBool (returncode = 0)), (''exit_code'', JInt returncode),
               (''stdout'', JStr (take 1000 out)), (''stderr'', JStr (take 500 err)),
               (''timestamp'', JFloat now)]
           | Inl msg \<Rightarrow> [(''passed'', JBool False), (''error'', JStr msg), (''timestamp'', JFloat now)])
       in on_board_pure (submit_tests jid test))"

definition pl_buyer_approve :: "string \<Rightarrow> build_job option loop_call" where
  "pl_buyer_approve jid = on_board (buyer_approve jid)"

text \<open>\<open>job.status.value\<close>.\<close>

definition status_value :: "build_job \<Rightarrow> string result" where
  "status_value j = (case bj_status j of Status st \<Rightarrow> Inr (job_status_value st) | RawStatus s \<Rightarrow> Inl AttributeError)"

definition settle_payment :: "string \<Rightarrow> string \<Rightarrow> string \<Rightarrow> pyfloat \<Rightarrow> string \<Rightarrow> json dict loop_call" where
  "settle_payment jid processor tx amount currency =
     bindL timeL (\<lambda>now s.
       let receipt = \<lparr>pr_receipt_id = ''rcpt-'' @ jid, pr_job_id = jid, pr_processor = processor,
             pr_transaction_id = tx, pr_amount_usd = amount, pr_amount_crypto = None, pr_currency = currency,
             pr_status = ''settled'', pr_timestamp = now, pr_metadata = [(''source'', JStr ''profit_loop'')]\<rparr>;
           (verification, rv, rt) = verify_receipt receipt (pl_receipts s) (pl_rt s);
           (settlement, t) = record_settlement jid (pr_receipt_id receipt) amount ''buyer'' ''escrow'' processor
             (pl_settlements s);
           (confirmed, t, rt) = confirm_settlement_record (sr_settlement_id settlement) t rt;
           settlement = (case confirmed of None \<Rightarrow> settlement | Some c \<Rightarrow> c);
           s = s\<lparr>pl_receipts := rv, pl_settlements := t, pl_rt := rt\<rparr>
       in bindL (on_board_pure (submit_payment_receipt jid [
                  (''receipt_id'', JStr (pr_receipt_id receipt)), (''processor'', JStr processor),
                  (''tx_id'', JStr tx), (''amount'', JFloat amount),
                  (''verified'', JBool (vr_valid verification)),
                  (''verification_hash'', JStr (receipt_hash receipt))]))
            (\<lambda>job s. case (case job of None \<Rightarrow> Inr ''unknown'' | Some j \<Rightarrow> status_value j) of
                Inl e \<Rightarrow> (Inl e, s)
              | Inr st \<Rightarrow> (Inr [(''receipt_verified'', JBool (vr_valid verification)),
                    (''settlement_status'', JStr (sr_status settlement)), (''job_status'', JStr st)], s)) s)"

fun vote_loop :: "string \<Rightarrow> json dict list \<Rightarrow> unit loop_call" where
  "vote_loop jid [] = returnL ()"
| "vote_loop jid (vote # votes) = (case dget vote ''validator_id'' of
       None \<Rightarrow> (\<lambda>s. (Inl (KeyError ''validator_id''), s))
     | Some v \<Rightarrow> bindL (on_board (validator_vote jid v vote)) (\<lambda>job. vote_loop jid votes))"

definition validator_consensus :: "string \<Rightarrow> json dict list \<Rightarrow> json dict loop_call" where
  "validator_consensus jid votes =
     bindL (vote_loop jid votes) (\<lambda>u s.
       case get_job jid (pl_jobs s) of None \<Rightarrow> (Inr [(''error'', JStr ''Job not found'')], s)
       | Some j \<Rightarrow> (case status_value j of Inl e \<Rightarrow> (Inl e, s)
           | Inr st \<Rightarrow> (Inr [
               (''consensus_reached'', JBool (bj_status j = Status FINALIZED)),
               (''votes'', JInt (int (length (bj_validator_votes j)))),
               (''valid_votes'', JInt (valid_votes (bj_validator_votes j))),
               (''status'', JStr st)], s)))"

record distribution_result =
  dr_job_id :: string
  dr_amount :: pyfloat
  dr_distribution :: "pyfloat dict"
  dr_receipt :: "json dict"
  dr_status :: string

definition release_receipt :: "string \<Rightarrow> build_job \<Rightarrow> bool \<Rightarrow> pyfloat \<Rightarrow> json dict" where
  "release_receipt jid j settled now = [
     (''job_id'', JStr jid),
     (''artifact_hash'', jopt JStr (bj_artifact_hash j)),
     (''test_passed'', case bj_test_result j of None \<Rightarrow> JBool False
        | Some t \<Rightarrow> if t = [] then JBool False else dget_default t ''passed'' JNull),
     (''buyer_approved'', JBool (bj_approved_at j \<noteq> None)),
     (''settlement_confirmed'', JBool settled),
     (''validator_consensus'', JBool True),
     (''timestamp'', JFloat now)]"

definition release_and_distribute :: "string \<Rightarrow> distribution_result option loop_call" where
  "release_and_distribute jid s =
     (case get_job jid (pl_jobs s) of None \<Rightarrow> (Inr None, s)
      | Some j \<Rightarrow> if bj_status j \<noteq> Status FINALIZED then (Inr None, s)
          else case get_escrow jid (pl_escrow s) of None \<Rightarrow> (Inr None, s)
            | Some e \<Rightarrow>
                let (now, rt) = time_time (pl_rt s);
                    receipt = release_receipt jid j (is_settled jid (pl_settlements s)) now;
                    (r, m, rt) = release (es_escrow_id e) receipt (pl_escrow s) rt;
                    s = s\<lparr>pl_escrow := m, pl_rt := rt\<rparr>
                in (case r of None \<Rightarrow> (Inr None, s)
                    | Some d \<Rightarrow> (Inr (Some \<lparr>dr_job_id = jid, dr_amount = rel_amount d,
                        dr_distribution = rel_distribution d, dr_receipt = rel_receipt d,
                        dr_status = ''yield_distributed''\<rparr>), s)))"

text \<open>\<open>None\<close> has no slices.\<close>

definition anchor_to_solana :: "string \<Rightarrow> string option loop_call" where
  "anchor_to_solana jid s =
     (case get_job jid (pl_jobs s) of None \<Rightarrow> (Inr None, s)
      | Some j \<Rightarrow> (case bj_artifact_hash j of None \<Rightarrow> (Inl TypeError, s)
          | Some h \<Rightarrow> (Inr (Some (''MEMBRA|YIELD|'' @ jid @ ''|'' @ take 16 h @ ''|'' @ ffixed 2 (bj_budget_usd j))), s)))"

section \<open>The whole loop\<close>

text \<open>The job description given to \<open>run_full_loop\<close>, with all its keys present.\<close>

record loop_spec =
  ls_title :: string
  ls_description :: string
  ls_requirements :: "string list"
  ls_deliverables :: "string list"
  ls_budget :: pyfloat
  ls_buyer_id :: string

record loop_result =
  lr_job_id :: string
  lr_status :: string
  lr_distribution :: "distribution_result option"
  lr_anchor_memo :: "string option"

definition run_full_loop :: "loop_spec \<Rightarrow> string \<Rightarrow> string \<Rightarrow> json dict list \<Rightarrow> loop_result loop_call" where
  "run_full_loop spec builder content votes =
     bindL (pl_post_job (ls_title spec) (ls_description spec) (ls_requirements spec) (ls_deliverables spec)
              (ls_budget spec) (ls_buyer_id spec)) (\<lambda>job.
     let jid = bj_job_id job in
     bindL (deposit_escrow jid (ls_buyer_id spec) (ls_budget spec)) (\<lambda>d.
     bindL (claim_and_build jid builder ''/tmp/artifact.py'' content) (\<lambda>j.
     bindL timeL (\<lambda>now.
     bindL (on_board_pure (submit_tests jid [(''passed'', JBool True), (''exit_code'', JInt 0),
              (''timestamp'', JFloat now)])) (\<lambda>j.
     bindL (pl_buyer_approve jid) (\<lambda>j.
     bindL (settle_payment jid ''stripe'' (''pi_'' @ take 24 (sha256_hex jid)) (ls_budget spec) ''USD'') (\<lambda>p.
     bindL (validator_consensus jid votes) (\<lambda>c.
     bindL (release_and_distribute jid) (\<lambda>distribution.
     bindL (anchor_to_solana jid) (\<lambda>memo.
     returnL \<lparr>lr_job_id = jid, lr_status = ''complete'', lr_distribution = distribution,
       lr_anchor_memo = memo\<rparr>))))))))))"

section \<open>The state between two steps\<close>

lemma bindL_Inr: "m s = (Inr x, s') \<Longrightarrow> bindL m f s = f x s'"
  by (simp add: bindL_def)

lemma bindL_Inl: "m s = (Inl e, s') \<Longrightarrow> bindL m f s = (Inl e, s')"
  by (simp add: bindL_def)

lemma timeL_eq: "timeL s = (Inr (rt_now (pl_rt s)), s\<lparr>pl_rt := rt_tick (pl_rt s)\<rparr>)"
  by (simp add: timeL_def time_time_def)

text \<open>The board is sound and has job \<open>j\<close> under its identifier.\<close>

definition has_job :: "profit_loop \<Rightarrow> string \<Rightarrow> build_job \<Rightarrow> bool" where
  "has_job s jid j \<longleftrightarrow> jb_ok (pl_jobs s) \<and> get_job jid (pl_jobs s) = Some j"

lemma has_job_cong: "pl_jobs s' = pl_jobs s \<Longrightarrow> has_job s' jid j = has_job s jid j"
  by (simp add: has_job_def)

text \<open>Moving a job of a sound board succeeds.\<close>

lemma save_move:
  assumes "jb_ok b" and "get_job jid b = Some j" and "job_move j j'"
  shows "jb_save jid j' b = (Inr (Some j'), snd (jb_save jid j' b))" and "jb_ok (snd (jb_save jid j' b))"
    and "get_job jid (snd (jb_save jid j' b)) = Some j'"
proof -
  from jb_ok_job [OF assms(1)] assms(2) have j: "bj_job_id j = jid" "jid \<noteq> []" "job_ok j" by (auto simp: get_job_def)
  with job_move_ok [OF assms(3)] have "job_ok j'" "bj_job_id j' = jid" by auto
  note saved = jb_save_ok [OF assms(1) this j(2)]
  show "jb_save jid j' b = (Inr (Some j'), snd (jb_save jid j' b))" using saved(2) by (metis prod.collapse)
  show "jb_ok (snd (jb_save jid j' b))" by (rule saved(1))
  show "get_job jid (snd (jb_save jid j' b)) = Some j'" by (simp add: get_job_def)
qed

text \<open>A board call that saves a moved job.\<close>

lemma on_board_move:
  assumes "has_job s jid j" and "job_move j j'"
    and "f (pl_jobs s) (pl_rt s) = (fst (jb_save jid j' (pl_jobs s)), snd (jb_save jid j' (pl_jobs s)), rt)"
  shows "\<exists>s'. on_board f s = (Inr (Some j'), s') \<and> has_job s' jid j' \<and> pl_escrow s' = pl_escrow s \<and>
    pl_receipts s' = pl_receipts s \<and> pl_settlements s' = pl_settlements s"
proof -
  from assms(1) have "jb_ok (pl_jobs s)" "get_job jid (pl_jobs s) = Some j" by (auto simp: has_job_def)
  note saved = save_move [OF this assms(2)]
  have "fst (jb_save jid j' (pl_jobs s)) = Inr (Some j')" using saved(1) by (metis fst_conv)
  with saved(2,3) assms(3) show ?thesis by (simp add: on_board_def has_job_def)
qed

lemma on_board_pure_move:
  assumes "has_job s jid j" and "job_move j j'" and "f (pl_jobs s) = jb_save jid j' (pl_jobs s)"
  shows "\<exists>s'. on_board_pure f s = (Inr (Some j'), s') \<and> has_job s' jid j' \<and> pl_escrow s' = pl_escrow s \<and>
    pl_receipts s' = pl_receipts s \<and> pl_settlements s' = pl_settlements s"
  using on_board_move [OF assms(1,2), of "\<lambda>b rt. (fst (f b), snd (f b), rt)" "pl_rt s"] assms(3)
  by (auto simp: on_board_def on_board_pure_def case_prod_beta)

lemma post_stage:
  assumes "jb_ok (pl_jobs s)"
  shows "\<exists>j s'. pl_post_job title desc reqs dels budget buyer s = (Inr j, s') \<and> has_job s' (bj_job_id j) j \<and>
    bj_status j = Status OPEN \<and> bj_validator_votes j = [] \<and> bj_budget_usd j = budget \<and> pl_escrow s' = pl_escrow s"
proof -
  let ?rt = "snd (uuid4_hex (pl_rt s))" and ?jid = "job_id_of (rt_uuid (pl_rt s))"
  let ?j = "new_job ?jid title desc reqs dels budget buyer (rt_now ?rt)"
  have "fst (jb_save ?jid ?j (pl_jobs s)) = Inr (Some ?j)" "jb_ok (snd (jb_save ?jid ?j (pl_jobs s)))"
    using jb_save_ok [OF assms new_job_ok, of ?jid] by simp_all
  moreover have "bj_validator_votes ?j = []" "bj_budget_usd ?j = budget" by (simp_all add: new_job_def)
  ultimately show ?thesis
    by (simp add: pl_post_job_def on_board_def post_job_eq Let_def has_job_def get_job_def)
qed

lemma deposit_stage:
  assumes "has_job s jid j"
  shows "\<exists>d s'. deposit_escrow jid buyer amount s = (Inr d, s') \<and> has_job s' jid j \<and>
    (\<exists>e. get_escrow jid (pl_escrow s') = Some e \<and> es_escrow_id e = escrow_id_of jid \<and> es_state e = HELD \<and>
      es_amount_usd e = amount)"
  using assms by (simp add: deposit_escrow_def has_job_def deposit_def Let_def case_prod_beta get_escrow_def)

lemma claim_stage:
  assumes "has_job s jid j" and "bj_status j = Status OPEN"
  shows "\<exists>j' s'. claim_and_build jid builder path content s = (Inr (Some j'), s') \<and> has_job s' jid j' \<and>
    bj_status j' = Status DELIVERED \<and> bj_validator_votes j' = bj_validator_votes j \<and>
    bj_artifact_hash j' = Some (sha256_hex content) \<and> bj_budget_usd j' = bj_budget_usd j \<and> pl_escrow s' = pl_escrow s"
proof -
  let ?c = "j\<lparr>bj_builder_id := Some builder, bj_status := Status CLAIMED\<rparr>"
  have "claim_job jid builder (pl_jobs s) = jb_save jid ?c (pl_jobs s)"
    using assms by (simp add: claim_job_def has_job_def get_job_def)
  from on_board_pure_move [OF assms(1) move_claim [OF assms(2)], of "claim_job jid builder", OF this]
  obtain s1 where s1: "on_board_pure (claim_job jid builder) s = (Inr (Some ?c), s1)"
    "has_job s1 jid ?c" "pl_escrow s1 = pl_escrow s" by blast
  let ?d = "?c\<lparr>bj_artifact_path := Some path, bj_artifact_hash := Some (sha256_hex content),
    bj_status := Status DELIVERED, bj_delivered_at := Some (rt_now (pl_rt s1))\<rparr>"
  have "job_move ?c ?d" by (rule move_deliver) simp
  moreover have "submit_artifact jid path (sha256_hex content) (pl_jobs s1) (pl_rt s1) =
      (fst (jb_save jid ?d (pl_jobs s1)), snd (jb_save jid ?d (pl_jobs s1)), rt_tick (pl_rt s1))"
    using s1(2) by (simp add: submit_artifact_def has_job_def get_job_def time_time_def case_prod_beta)
  ultimately obtain s2 where "on_board (submit_artifact jid path (sha256_hex content)) s1 = (Inr (Some ?d), s2)"
    "has_job s2 jid ?d" "pl_escrow s2 = pl_escrow s1"
    using on_board_move [OF s1(2)] by blast
  with s1 show ?thesis by (simp add: claim_and_build_def bindL_Inr)
qed

lemma tests_stage:
  assumes "has_job s jid j" and "bj_status j = Status DELIVERED" and "dtruthy test ''passed''"
  shows "\<exists>j' s'. on_board_pure (submit_tests jid test) s = (Inr (Some j'), s') \<and>
    has_job s' jid j' \<and> bj_status j' = Status TESTED \<and> bj_validator_votes j' = bj_validator_votes j \<and>
    bj_artifact_hash j' = bj_artifact_hash j \<and> bj_budget_usd j' = bj_budget_usd j \<and> pl_escrow s' = pl_escrow s"
proof -
  let ?t = "j\<lparr>bj_test_result := Some test, bj_status := Status TESTED\<rparr>"
  have "job_move j ?t" using move_test [OF assms(2), of test] assms(3) by simp
  moreover have "submit_tests jid test (pl_jobs s) = jb_save jid ?t (pl_jobs s)"
    using assms by (simp add: submit_tests_def has_job_def get_job_def)
  ultimately obtain s' where "on_board_pure (submit_tests jid test) s = (Inr (Some ?t), s')"
    "has_job s' jid ?t" "pl_escrow s' = pl_escrow s"
    using on_board_pure_move [OF assms(1)] by blast
  then show ?thesis by simp
qed

lemma approve_stage:
  assumes "has_job s jid j" and "bj_status j = Status TESTED"
  shows "\<exists>j' s'. pl_buyer_approve jid s = (Inr (Some j'), s') \<and> has_job s' jid j' \<and>
    bj_status j' = Status APPROVED \<and> bj_validator_votes j' = bj_validator_votes j \<and>
    bj_artifact_hash j' = bj_artifact_hash j \<and> bj_budget_usd j' = bj_budget_usd j \<and> pl_escrow s' = pl_escrow s"
proof -
  let ?a = "j\<lparr>bj_status := Status APPROVED, bj_approved_at := Some (rt_now (pl_rt s))\<rparr>"
  have "buyer_approve jid (pl_jobs s) (pl_rt s) =
      (fst (jb_save jid ?a (pl_jobs s)), snd (jb_save jid ?a (pl_jobs s)), rt_tick (pl_rt s))"
    using assms by (simp add: buyer_approve_def has_job_def get_job_def time_time_def case_prod_beta)
  from on_board_move [OF assms(1) move_approve [OF assms(2)], of "buyer_approve jid", OF this]
  obtain s' where "on_board (buyer_approve jid) s = (Inr (Some ?a), s')" "has_job s' jid ?a"
    "pl_escrow s' = pl_escrow s" by blast
  then show ?thesis by (simp add: pl_buyer_approve_def)
qed

lemma settle_stage:
  assumes "has_job s jid j" and "bj_status j = Status APPROVED"
  shows "\<exists>j' s'. settle_payment jid processor tx amount currency s = (Inr [
      (''receipt_verified'', JBool (flt (Fin 0) amount \<and>
         processor \<in> {''stripe'', ''solana'', ''ethereum'', ''manual''} \<and> tx \<noteq> [])),
      (''settlement_status'', JStr ''settled''), (''job_status'', JStr ''paid'')], s') \<and> has_job s' jid j' \<and>
    bj_status j' = Status PAID \<and> bj_validator_votes j' = bj_validator_votes j \<and>
    bj_artifact_hash j' = bj_artifact_hash j \<and> bj_budget_usd j' = bj_budget_usd j \<and> pl_escrow s' = pl_escrow s"
proof -
  have step: "\<exists>j' s''. bindL (on_board_pure (submit_payment_receipt jid receipt))
      (\<lambda>job s. case (case job of None \<Rightarrow> Inr ''unknown'' | Some j \<Rightarrow> status_value j) of
        Inl e \<Rightarrow> (Inl e, s) | Inr st \<Rightarrow> (Inr (f st), s)) s' = (Inr r, s'') \<and>
      has_job s'' jid j' \<and> bj_status j' = Status PAID \<and> bj_validator_votes j' = bj_validator_votes j \<and>
      bj_artifact_hash j' = bj_artifact_hash j \<and> bj_budget_usd j' = bj_budget_usd j \<and> pl_escrow s'' = pl_escrow s"
    if "pl_jobs s' = pl_jobs s" "pl_escrow s' = pl_escrow s" "f ''paid'' = r" for s' receipt r and f :: "string \<Rightarrow> json dict"
  proof -
    let ?p = "j\<lparr>bj_payment_receipt := Some receipt, bj_status := Status PAID\<rparr>"
    have s': "has_job s' jid j" using assms(1) that by (simp add: has_job_def)
    have "submit_payment_receipt jid receipt (pl_jobs s') = jb_save jid ?p (pl_jobs s')"
      using s' assms(2) by (simp add: submit_payment_receipt_def has_job_def get_job_def)
    from on_board_pure_move [OF s' move_pay [OF assms(2)], of "submit_payment_receipt jid receipt", OF this]
    obtain s'' where "on_board_pure (submit_payment_receipt jid receipt) s' = (Inr (Some ?p), s'')"
      "has_job s'' jid ?p" "pl_escrow s'' = pl_escrow s'" by blast
    with that show ?thesis by (simp add: bindL_Inr status_value_def exI [of _ ?p])
  qed
  show ?thesis
    unfolding settle_payment_def bindL_Inr [OF timeL_eq] Let_def case_prod_beta
    by (rule step) (simp_all add: receipt_valid_iff record_settlement_def confirm_settlement_record_def time_time_def Let_def)
qed

section \<open>Voting\<close>

definition vote_flags :: "json dict list \<Rightarrow> bool list" where
  "vote_flags votes = map (\<lambda>v. dtruthy v ''receipt_valid'') votes"

definition quorum :: "bool list \<Rightarrow> bool" where
  "quorum fs \<longleftrightarrow> 3 \<le> length fs \<and> 2 * length fs \<le> 3 * length (filter id fs)"

lemma consensus_quorum: "check_validator_consensus j \<longleftrightarrow> quorum (vote_flags (bj_validator_votes j))"
  by (auto simp: check_validator_consensus_def quorum_def vote_flags_def valid_votes_def filter_map comp_def Let_def)

text \<open>Some later vote completes a quorum.\<close>

fun votes_decided :: "bool list \<Rightarrow> bool list \<Rightarrow> bool" where
  "votes_decided fs [] = False"
| "votes_decided fs (b # bs) = (quorum (fs @ [b]) \<or> votes_decided (fs @ [b]) bs)"

lemma votes_decided_iff: "votes_decided fs bs \<longleftrightarrow> (\<exists>n. 0 < n \<and> n \<le> length bs \<and> quorum (fs @ take n bs))"
proof (induction bs arbitrary: fs)
  case (Cons b bs)
  show ?case
  proof
    assume "votes_decided fs (b # bs)"
    then consider "quorum (fs @ [b])" | n where "0 < n" "n \<le> length bs" "quorum ((fs @ [b]) @ take n bs)"
      using Cons by auto
    then show "\<exists>n. 0 < n \<and> n \<le> length (b # bs) \<and> quorum (fs @ take n (b # bs))"
    proof cases
      case 1
      then show ?thesis by (intro exI [of _ 1]) simp
    next
      case (2 n)
      then show ?thesis by (intro exI [of _ "Suc n"]) simp
    qed
  next
    assume "\<exists>n. 0 < n \<and> n \<le> length (b # bs) \<and> quorum (fs @ take n (b # bs))"
    then obtain n where n: "0 < n" "n \<le> length (b # bs)" "quorum (fs @ take n (b # bs))" by blast
    show "votes_decided fs (b # bs)"
    proof (cases "n = 1")
      case True
      with n(3) show ?thesis by simp
    next
      case False
      with n have "0 < n - 1" "n - 1 \<le> length bs" "quorum ((fs @ [b]) @ take (n - 1) bs)"
        by (auto simp: take_Cons')
      then have "votes_decided (fs @ [b]) bs" using Cons by blast
      then show ?thesis by simp
    qed
  qed
qed simp

lemma vote_refused:
  assumes "has_job s jid j" and "bj_status j \<noteq> Status PAID" and "list_all (\<lambda>v. dget v ''validator_id'' \<noteq> None) votes"
  shows "vote_loop jid votes s = (Inr (), s)"
  using assms(3)
proof (induction votes)
  case (Cons v votes)
  then obtain w where "dget v ''validator_id'' = Some w" by auto
  moreover have "on_board (validator_vote jid w v) s = (Inr None, s)"
    using assms by (simp add: on_board_def validator_vote_def has_job_def get_job_def)
  ultimately show ?case using Cons by (simp add: bindL_Inr)
qed (simp add: returnL_def)

lemma one_vote:
  assumes "has_job s jid j" and "bj_status j = Status PAID"
  shows "\<exists>j' s'. on_board (validator_vote jid v vote) s = (Inr (Some j'), s') \<and> has_job s' jid j' \<and>
    vote_flags (bj_validator_votes j') = vote_flags (bj_validator_votes j) @ [dtruthy vote ''receipt_valid''] \<and>
    bj_status j' = Status (if quorum (vote_flags (bj_validator_votes j')) then FINALIZED else PAID) \<and>
    bj_artifact_hash j' = bj_artifact_hash j \<and> bj_budget_usd j' = bj_budget_usd j \<and> pl_escrow s' = pl_escrow s"
proof -
  let ?w = "dset ''timestamp'' (JFloat (rt_now (pl_rt s))) (dset ''validator_id'' v vote)"
  let ?j = "j\<lparr>bj_validator_votes := bj_validator_votes j @ [?w]\<rparr>"
  let ?f = "?j\<lparr>bj_status := Status FINALIZED, bj_finalized_at := Some (rt_now (rt_tick (pl_rt s)))\<rparr>"
  define j' where "j' = (if check_validator_consensus ?j then ?f else ?j)"
  define rt' where "rt' = (if check_validator_consensus ?j then rt_tick (rt_tick (pl_rt s)) else rt_tick (pl_rt s))"
  have "job_move j j'"
    using move_vote [OF assms(2) refl, of ?w] move_finalize [OF assms(2) refl, of ?w] by (simp add: j'_def)
  moreover have "validator_vote jid v vote (pl_jobs s) (pl_rt s) =
      (fst (jb_save jid j' (pl_jobs s)), snd (jb_save jid j' (pl_jobs s)), rt')"
    using assms by (simp add: validator_vote_def has_job_def get_job_def time_time_def case_prod_beta j'_def rt'_def Let_def)
  ultimately obtain s' where s': "on_board (validator_vote jid v vote) s = (Inr (Some j'), s')"
    "has_job s' jid j'" "pl_escrow s' = pl_escrow s"
    using on_board_move [OF assms(1)] by blast
  have "vote_flags (bj_validator_votes j') = vote_flags (bj_validator_votes j) @ [dtruthy vote ''receipt_valid'']"
    by (simp add: j'_def vote_flags_def)
  moreover have "bj_status j' = Status (if quorum (vote_flags (bj_validator_votes j')) then FINALIZED else PAID)"
    using assms(2) by (simp add: j'_def consensus_quorum)
  moreover have "bj_artifact_hash j' = bj_artifact_hash j \<and> bj_budget_usd j' = bj_budget_usd j" by (simp add: j'_def)
  ultimately show ?thesis using s' by blast
qed

lemma vote_stage:
  assumes "has_job s jid j" and "bj_status j = Status PAID" and "list_all (\<lambda>v. dget v ''validator_id'' \<noteq> None) votes"
  shows "\<exists>j' s'. vote_loop jid votes s = (Inr (), s') \<and> has_job s' jid j' \<and>
    bj_status j' = Status (if votes_decided (vote_flags (bj_validator_votes j)) (vote_flags votes) then FINALIZED else PAID) \<and>
    bj_artifact_hash j' = bj_artifact_hash j \<and> bj_budget_usd j' = bj_budget_usd j \<and> pl_escrow s' = pl_escrow s"
  using assms
proof (induction votes arbitrary: s j)
  case Nil
  then show ?case by (auto simp: returnL_def vote_flags_def)
next
  case (Cons v votes)
  then obtain w where w: "dget v ''validator_id'' = Some w" by auto
  from one_vote [OF Cons.prems(1,2), of w v] obtain j1 s1 where
    s1: "on_board (validator_vote jid w v) s = (Inr (Some j1), s1)" "has_job s1 jid j1" "pl_escrow s1 = pl_escrow s"
    and flags: "vote_flags (bj_validator_votes j1) = vote_flags (bj_validator_votes j) @ [dtruthy v ''receipt_valid'']"
    and st: "bj_status j1 = Status (if quorum (vote_flags (bj_validator_votes j1)) then FINALIZED else PAID)"
    and same: "bj_artifact_hash j1 = bj_artifact_hash j" "bj_budget_usd j1 = bj_budget_usd j" by blast
  have step: "vote_loop jid (v # votes) s = vote_loop jid votes s1" using w s1(1) by (simp add: bindL_Inr)
  have cons: "vote_flags (v # votes) = dtruthy v ''receipt_valid'' # vote_flags votes" by (simp add: vote_flags_def)
  show ?case
  proof (cases "quorum (vote_flags (bj_validator_votes j1))")
    case True
    then have "vote_loop jid votes s1 = (Inr (), s1)" using st Cons.prems(3) by (intro vote_refused [OF s1(2)]) auto
    with True step s1 st same flags cons show ?thesis by auto
  next
    case False
    with Cons.IH [OF s1(2)] Cons.prems(3) st obtain j' s' where "vote_loop jid votes s1 = (Inr (), s')" "has_job s' jid j'"
      "bj_status j' = Status (if votes_decided (vote_flags (bj_validator_votes j1)) (vote_flags votes) then FINALIZED else PAID)"
      "bj_artifact_hash j' = bj_artifact_hash j1" "bj_budget_usd j' = bj_budget_usd j1" "pl_escrow s' = pl_escrow s1"
      by auto
    with False step s1 same flags cons show ?thesis by auto
  qed
qed

section \<open>Properties\<close>

lemma release_stage:
  assumes "has_job s jid j" and "get_escrow jid (pl_escrow s) = Some e" and "es_escrow_id e = escrow_id_of jid"
    and "es_state e = HELD"
  shows "\<exists>d s'. release_and_distribute jid s = (Inr d, s') \<and> has_job s' jid j \<and>
    (if bj_status j = Status FINALIZED then (\<exists>r. d = Some r \<and> dr_amount r = es_amount_usd e \<and>
       dr_distribution r = calculate_distribution (es_amount_usd e)) else d = None)"
  using assms
  by (auto simp: release_and_distribute_def has_job_def release_def get_escrow_def time_time_def Let_def case_prod_beta)

lemma full_loop_outcome:
  assumes "jb_ok (pl_jobs s)" and "list_all (\<lambda>v. dget v ''validator_id'' \<noteq> None) votes"
  shows "\<exists>r s'. run_full_loop spec builder content votes s = (Inr r, s') \<and> lr_status r = ''complete'' \<and>
    lr_anchor_memo r \<noteq> None \<and>
    (if votes_decided [] (vote_flags votes)
     then (\<exists>d. lr_distribution r = Some d \<and> dr_amount d = ls_budget spec \<and>
       dr_distribution d = calculate_distribution (ls_budget spec))
     else lr_distribution r = None)"
proof -
  obtain j1 s1 where s1: "pl_post_job (ls_title spec) (ls_description spec) (ls_requirements spec)
      (ls_deliverables spec) (ls_budget spec) (ls_buyer_id spec) s = (Inr j1, s1)" "has_job s1 (bj_job_id j1) j1"
    "bj_status j1 = Status OPEN" "bj_validator_votes j1 = []"
    using post_stage [OF assms(1)] by blast
  let ?jid = "bj_job_id j1"
  obtain d s2 e where s2: "deposit_escrow ?jid (ls_buyer_id spec) (ls_budget spec) s1 = (Inr d, s2)" "has_job s2 ?jid j1"
    and e: "get_escrow ?jid (pl_escrow s2) = Some e" "es_escrow_id e = escrow_id_of ?jid" "es_state e = HELD"
      "es_amount_usd e = ls_budget spec"
    using deposit_stage [OF s1(2)] by blast
  obtain j3 s3 where s3: "claim_and_build ?jid builder ''/tmp/artifact.py'' content s2 = (Inr (Some j3), s3)"
    "has_job s3 ?jid j3" "bj_status j3 = Status DELIVERED" "bj_validator_votes j3 = []"
    "bj_artifact_hash j3 = Some (sha256_hex content)" "pl_escrow s3 = pl_escrow s2"
    using claim_stage [OF s2(2) s1(3)] s1(4) by metis
  let ?s4 = "s3\<lparr>pl_rt := rt_tick (pl_rt s3)\<rparr>"
  let ?test = "[(''passed'', JBool True), (''exit_code'', JInt 0), (''timestamp'', JFloat (rt_now (pl_rt s3)))]"
  have "has_job ?s4 ?jid j3" using s3(2) by (simp add: has_job_def)
  moreover have "dtruthy ?test ''passed''" by (simp add: dtruthy_def)
  ultimately obtain j5 s5 where s5: "on_board_pure (submit_tests ?jid ?test) ?s4 = (Inr (Some j5), s5)"
    "has_job s5 ?jid j5" "bj_status j5 = Status TESTED" "bj_validator_votes j5 = []"
    "bj_artifact_hash j5 = Some (sha256_hex content)" "pl_escrow s5 = pl_escrow s2"
    using tests_stage [of ?s4 ?jid j3 ?test] s3 by fastforce
  obtain j6 s6 where s6: "pl_buyer_approve ?jid s5 = (Inr (Some j6), s6)" "has_job s6 ?jid j6"
    "bj_status j6 = Status APPROVED" "bj_validator_votes j6 = []"
    "bj_artifact_hash j6 = Some (sha256_hex content)" "pl_escrow s6 = pl_escrow s2"
    using approve_stage [OF s5(2,3)] s5(4-6) by metis
  obtain j7 s7 p where s7: "settle_payment ?jid ''stripe'' (''pi_'' @ take 24 (sha256_hex ?jid)) (ls_budget spec) ''USD'' s6
      = (Inr p, s7)" "has_job s7 ?jid j7" "bj_status j7 = Status PAID" "bj_validator_votes j7 = []"
    "bj_artifact_hash j7 = Some (sha256_hex content)" "pl_escrow s7 = pl_escrow s2"
    using settle_stage [OF s6(2,3)] s6(4-6) by metis
  obtain j8 s8 where s8: "vote_loop ?jid votes s7 = (Inr (), s8)" "has_job s8 ?jid j8"
    "bj_status j8 = Status (if votes_decided [] (vote_flags votes) then FINALIZED else PAID)"
    "bj_artifact_hash j8 = Some (sha256_hex content)" "pl_escrow s8 = pl_escrow s2"
    using vote_stage [OF s7(2,3) assms(2)] s7(4-6) by (auto simp: vote_flags_def)
  then obtain c where c: "validator_consensus ?jid votes s7 = (Inr c, s8)"
    by (simp add: validator_consensus_def bindL_Inr has_job_def status_value_def)
  obtain dist s9 where s9: "release_and_distribute ?jid s8 = (Inr dist, s9)" "has_job s9 ?jid j8"
    "if bj_status j8 = Status FINALIZED then \<exists>r. dist = Some r \<and> dr_amount r = es_amount_usd e \<and>
       dr_distribution r = calculate_distribution (es_amount_usd e) else dist = None"
    using release_stage [OF s8(2)] e s8(5) by metis
  obtain memo where memo: "anchor_to_solana ?jid s9 = (Inr (Some memo), s9)"
    using s9(2) s8(4) by (simp add: anchor_to_solana_def has_job_def)
  have "run_full_loop spec builder content votes s =
      (Inr \<lparr>lr_job_id = ?jid, lr_status = ''complete'', lr_distribution = dist, lr_anchor_memo = Some memo\<rparr>, s9)"
    unfolding run_full_loop_def Let_def
    by (simp add: bindL_def s1(1) s2(1) s3(1) timeL_eq s5(1) s6(1) s7(1) [simplified] c s9(1) memo returnL_def)
  with s9(3) s8(3) e(4) show ?thesis by (auto split: if_splits)
qed

text \<open>On a board that was read back from the file of a marketplace with a job, the loop raises when it posts its own.\<close>

lemma full_loop_raises_after_restart:
  assumes "reachable_board b" and "jb_jobs b \<noteq> []" and "job_id_of (rt_uuid (pl_rt s)) \<notin> set (dkeys (jb_jobs b))"
    and "pl_jobs s = fst (job_board_init (jb_file b) rt0)"
  shows "fst (run_full_loop spec builder content votes s) = Inl AttributeError"
proof -
  have "fst (post_job (ls_title spec) (ls_description spec) (ls_requirements spec) (ls_deliverables spec) (ls_budget spec) (ls_buyer_id spec)
      (pl_jobs s) (pl_rt s)) = Inl AttributeError"
    using restarted_board_is_stuck [OF assms(1-3), of rt0] unfolding assms(4) Let_def by blast
  then show ?thesis by (auto simp: run_full_loop_def bindL_def pl_post_job_def on_board_def case_prod_beta Let_def split: sum.splits)
qed

text \<open>
  C13. The loop reaches distribution exactly when the votes carry it. Started on a board that a marketplace has grown from an empty file without a
  restart, with votes that all name their validator, \<open>run_full_loop\<close> does not raise, always reports
  \<open>complete\<close>, and distributes the whole budget by the published split if some prefix of at least three
  votes is two thirds in favour; otherwise nothing is distributed although the report is the same.
\<close>

theorem full_loop_distributes:
  assumes "reachable_board (pl_jobs s)" and "list_all (\<lambda>v. dget v ''validator_id'' \<noteq> None) votes"
  shows "\<exists>r s'. run_full_loop spec builder content votes s = (Inr r, s') \<and> lr_status r = ''complete'' \<and>
    (if \<exists>n. 3 \<le> n \<and> n \<le> length votes \<and>
          2 * n \<le> 3 * length (filter (\<lambda>v. dtruthy v ''receipt_valid'') (take n votes))
     then (\<exists>d. lr_distribution r = Some d \<and> dr_amount d = ls_budget spec \<and>
       dr_distribution d = calculate_distribution (ls_budget spec))
     else lr_distribution r = None)"
proof -
  have "votes_decided [] (vote_flags votes) \<longleftrightarrow> (\<exists>n. 3 \<le> n \<and> n \<le> length votes \<and>
      2 * n \<le> 3 * length (filter (\<lambda>v. dtruthy v ''receipt_valid'') (take n votes)))"
    unfolding votes_decided_iff quorum_def vote_flags_def
    by (auto simp: take_map filter_map comp_def min_def intro!: ex_cong1)
  from full_loop_outcome [OF reachable_board_ok [OF assms(1)] assms(2), of spec builder content, unfolded this]
  show ?thesis by blast
qed

definition sample_loop :: profit_loop where
  "sample_loop = profit_loop_init [] None sample_rt"

lemma sample_loop_reachable: "reachable_board (pl_jobs sample_loop)"
  by (auto simp: sample_loop_def profit_loop_init_def job_board_init_def reachable_board_def)

theorem full_loop_distributes_witness:
  "\<exists>r s' d. run_full_loop \<lparr>ls_title = ''t'', ls_description = ''d'', ls_requirements = [], ls_deliverables = [],
      ls_budget = Fin 5, ls_buyer_id = ''ann''\<rparr> ''bob'' ''code''
      (replicate 3 [(''validator_id'', JStr ''v''), (''receipt_valid'', JBool True)]) sample_loop = (Inr r, s') \<and>
    lr_distribution r = Some d \<and> dr_amount d = Fin 5"
proof -
  let ?spec = "\<lparr>ls_title = ''t'', ls_description = ''d'', ls_requirements = [], ls_deliverables = [],
      ls_budget = Fin 5, ls_buyer_id = ''ann''\<rparr>"
  let ?votes = "replicate 3 [(''validator_id'', JStr ''v''), (''receipt_valid'', JBool True)]"
  have votes: "list_all (\<lambda>v. dget v ''validator_id'' \<noteq> None) ?votes" by (simp add: numeral_3_eq_3)
  have "\<exists>n. 3 \<le> n \<and> n \<le> length ?votes \<and> 2 * n \<le> 3 * length (filter (\<lambda>v. dtruthy v ''receipt_valid'') (take n ?votes))"
    by (intro exI [of _ 3]) (simp add: numeral_3_eq_3 dtruthy_def)
  with full_loop_distributes [OF sample_loop_reachable votes, of ?spec "''bob''" "''code''"] show ?thesis
    by (metis (no_types, lifting) loop_spec.select_convs(5))
qed

text \<open>
  C12. Funds are released only for an earned job and only once: when \<open>release_and_distribute\<close> pays out on
  the board of a running marketplace, the job is finalized with a passed test, the buyer's approval
  and two thirds of at least three votes; the escrow was held, the amount paid is the escrow's and is split
  as published, and a second call pays nothing.
\<close>

theorem distribution_is_earned_and_unique:
  assumes "reachable_board (pl_jobs s)" and "em_ok (pl_escrow s)"
    and "release_and_distribute jid s = (Inr (Some d), s')"
  shows "\<exists>j e. get_job jid (pl_jobs s) = Some j \<and> bj_status j = Status FINALIZED \<and>
      (\<exists>t. bj_test_result j = Some t \<and> dtruthy t ''passed'') \<and> bj_approved_at j \<noteq> None \<and>
      quorum (vote_flags (bj_validator_votes j)) \<and>
      get_escrow jid (pl_escrow s) = Some e \<and> es_state e = HELD \<and> dr_amount d = es_amount_usd e \<and>
      dr_distribution d = calculate_distribution (es_amount_usd e) \<and> pl_jobs s' = pl_jobs s \<and>
      fst (release_and_distribute jid s') = Inr None"
proof -
  from assms(3) obtain j e where j: "get_job jid (pl_jobs s) = Some j" "bj_status j = Status FINALIZED"
    and e: "get_escrow jid (pl_escrow s) = Some e"
    by (auto simp: release_and_distribute_def split: option.splits if_splits)
  from e em_ok_escrow [OF assms(2)] have eid: "es_escrow_id e = escrow_id_of jid" by (auto simp: get_escrow_def)
  have ok: "job_ok j" using jb_ok_job [OF reachable_board_ok [OF assms(1)]] j(1) by (auto simp: get_job_def)
  have paid: "es_state e = HELD" "dr_amount d = es_amount_usd e"
      "dr_distribution d = calculate_distribution (es_amount_usd e)" "pl_jobs s' = pl_jobs s"
      "\<exists>e'. get_escrow jid (pl_escrow s') = Some e' \<and> es_state e' = RELEASED \<and> es_escrow_id e' = escrow_id_of jid"
    using assms(3) j e eid
    by (auto simp: release_and_distribute_def release_def get_escrow_def time_time_def Let_def case_prod_beta
        split: if_splits)
  then obtain e' where e': "get_escrow jid (pl_escrow s') = Some e'" "es_state e' = RELEASED"
    "es_escrow_id e' = escrow_id_of jid" by blast
  have "fst (release_and_distribute jid s') = Inr None"
    using e' j paid(4)
    by (simp add: release_and_distribute_def release_def get_escrow_def time_time_def Let_def)
  with j e paid(1-4) ok show ?thesis by (auto simp: job_ok_def consensus_quorum)
qed

text \<open>
  A payment is accepted without being verified: for an approved job of a running marketplace,
  \<open>settle_payment\<close> marks the payment settled and the job paid for every processor, transaction and amount;
  the outcome of the verification is only reported.
\<close>

theorem unverified_payment_is_accepted:
  assumes "reachable_board (pl_jobs s)" and "get_job jid (pl_jobs s) = Some j" and "bj_status j = Status APPROVED"
  shows "\<exists>j' s'. settle_payment jid processor tx amount currency s = (Inr [
      (''receipt_verified'', JBool (flt (Fin 0) amount \<and>
         processor \<in> {''stripe'', ''solana'', ''ethereum'', ''manual''} \<and> tx \<noteq> [])),
      (''settlement_status'', JStr ''settled''), (''job_status'', JStr ''paid'')], s') \<and>
    get_job jid (pl_jobs s') = Some j' \<and> bj_status j' = Status PAID"
  using settle_stage [of s jid j] reachable_board_ok [OF assms(1)] assms(2,3) unfolding has_job_def by metis

theorem unverified_payment_is_accepted_witness:
  "\<exists>j' s'. settle_payment ''job-id0'' ''nobody'' [] (Fin 0) ''USD''
      (sample_loop\<lparr>pl_jobs := sample_board (take 4 sample_calls)\<rparr>) = (Inr [
      (''receipt_verified'', JBool False),
      (''settlement_status'', JStr ''settled''), (''job_status'', JStr ''paid'')], s') \<and>
    get_job ''job-id0'' (pl_jobs s') = Some j' \<and> bj_status j' = Status PAID"
proof -
  let ?s = "sample_loop\<lparr>pl_jobs := sample_board (take 4 sample_calls)\<rparr>"
  have "map_option bj_status (get_job ''job-id0'' (sample_board (take 4 sample_calls))) = Some (Status APPROVED)"
    by code_simp
  then obtain j where "get_job ''job-id0'' (pl_jobs ?s) = Some j" "bj_status j = Status APPROVED" by auto
  moreover have "reachable_board (pl_jobs ?s)" by (simp add: sample_board_reachable)
  ultimately show ?thesis
    using unverified_payment_is_accepted [of ?s "''job-id0''" j "''nobody''" "[]" "Fin 0" "''USD''"] by simp
qed

theorem distribution_is_earned_and_unique_witness:
  "let m = fst (snd (deposit ''job-id0'' ''ann'' None (Fin 5) ''stripe'' (escrow_manager_init None) sample_rt));
       s = sample_loop\<lparr>pl_jobs := sample_board sample_calls, pl_escrow := m\<rparr>
   in \<exists>d s'. release_and_distribute ''job-id0'' s = (Inr (Some d), s') \<and>
        fst (release_and_distribute ''job-id0'' s') = Inr None"
proof -
  obtain e m rt where dep: "deposit ''job-id0'' ''ann'' None (Fin 5) ''stripe'' (escrow_manager_init None) sample_rt = (e, m, rt)"
    by (metis prod_cases3)
  let ?s = "sample_loop\<lparr>pl_jobs := sample_board sample_calls, pl_escrow := m\<rparr>"
  have reach: "reachable_board (pl_jobs ?s)" by (simp add: sample_board_reachable)
  have ok: "em_ok (pl_escrow ?s)" using escrow_step_ok [OF step_deposit [OF dep]] em_ok_init by simp
  obtain j where j: "get_job ''job-id0'' (sample_board sample_calls) = Some j" "bj_status j = Status FINALIZED"
    by (rule sample_job)
  have "has_job ?s ''job-id0'' j" using j reachable_board_ok [OF sample_board_reachable] by (simp add: has_job_def)
  moreover have "get_escrow ''job-id0'' (pl_escrow ?s) = Some e \<and> es_escrow_id e = escrow_id_of ''job-id0'' \<and> es_state e = HELD"
    using dep by (auto simp: deposit_def Let_def case_prod_beta get_escrow_def)
  ultimately obtain d s' where rel: "release_and_distribute ''job-id0'' ?s = (Inr (Some d), s')"
    using release_stage [of ?s "''job-id0''" j e] j(2) by auto
  from distribution_is_earned_and_unique [OF reach ok rel] dep rel show ?thesis by (auto simp: Let_def)
qed

end
