(* ===== verification/Personal_Chain.thy ===== *)
theory Personal_Chain
  imports Sdk_Base Hash_Chain
begin

text \<open>
  \<open>membra_sdk/personal_chain/chain.py\<close> and \<open>events.py\<close>: a user's hash-chained log of consented events, kept
  in memory and as one JSON file per event in the user's directory, next to the consent policy.
\<close>

section \<open>Data\<close>

datatype event_type =
    PROMPT | UPLOAD | COMMAND | SPEECH | LLM_RESPONSE | LLM_ARTIFACT | LLM_TOOL_CALL | BUILD_START
  | BUILD_SUCCESS | BUILD_FAILURE | TEST_PASS | TEST_FAIL | FILE_SCAN | FILE_HASH | FILE_INDEX
  | KYI_ATTEST | NOTARY_REVIEW | CONSENT_GRANT | CONSENT_REVOKE | STRIPE_RECEIPT | ESCROW_DEPOSIT
  | ESCROW_RELEASE | YIELD_DISTRIBUTE | BATCH_FORM | BATCH_ROOT | CONSENSUS_VOTE | CONSENSUS_FINAL
  | SOLANA_ANCHOR | IPFS_PIN | JOB_POST | JOB_CLAIM | JOB_DELIVER | JOB_APPROVE | NODE_START
  | NODE_STOP | SYNC | EXPORT

fun event_type_value :: "event_type \<Rightarrow> string" where
  "event_type_value PROMPT = ''prompt''"
| "event_type_value UPLOAD = ''upload''"
| "event_type_value COMMAND = ''command''"
| "event_type_value SPEECH = ''speech''"
| "event_type_value LLM_RESPONSE = ''llm_response''"
| "event_type_value LLM_ARTIFACT = ''llm_artifact''"
| "event_type_value LLM_TOOL_CALL = ''llm_tool_call''"
| "event_type_value BUILD_START = ''build_start''"
| "event_type_value BUILD_SUCCESS = ''build_success''"
| "event_type_value BUILD_FAILURE = ''build_failure''"
| "event_type_value TEST_PASS = ''test_pass''"
| "event_type_value TEST_FAIL = ''test_fail''"
| "event_type_value FILE_SCAN = ''file_scan''"
| "event_type_value FILE_HASH = ''file_hash''"
| "event_type_value FILE_INDEX = ''file_index''"
| "event_type_value KYI_ATTEST = ''kyi_attest''"
| "event_type_value NOTARY_REVIEW = ''notary_review''"
| "event_type_value CONSENT_GRANT = ''consent_grant''"
| "event_type_value CONSENT_REVOKE = ''consent_revoke''"
| "event_type_value STRIPE_RECEIPT = ''stripe_receipt''"
| "event_type_value ESCROW_DEPOSIT = ''escrow_deposit''"
| "event_type_value ESCROW_RELEASE = ''escrow_release''"
| "event_type_value YIELD_DISTRIBUTE = ''yield_distribute''"
| "event_type_value BATCH_FORM = ''batch_form''"
| "event_type_value BATCH_ROOT = ''batch_root''"
| "event_type_value CONSENSUS_VOTE = ''consensus_vote''"
| "event_type_value CONSENSUS_FINAL = ''consensus_final''"
| "event_type_value SOLANA_ANCHOR = ''solana_anchor''"
| "event_type_value IPFS_PIN = ''ipfs_pin''"
| "event_type_value JOB_POST = ''job_post''"
| "event_type_value JOB_CLAIM = ''job_claim''"
| "event_type_value JOB_DELIVER = ''job_deliver''"
| "event_type_value JOB_APPROVE = ''job_approve''"
| "event_type_value NODE_START = ''node_start''"
| "event_type_value NODE_STOP = ''node_stop''"
| "event_type_value SYNC = ''sync''"
| "event_type_value EXPORT = ''export''"

definition all_event_types :: "event_type list" where
  "all_event_types = [
     PROMPT, UPLOAD, COMMAND, SPEECH, LLM_RESPONSE, LLM_ARTIFACT, LLM_TOOL_CALL, BUILD_START,
     BUILD_SUCCESS, BUILD_FAILURE, TEST_PASS, TEST_FAIL, FILE_SCAN, FILE_HASH, FILE_INDEX,
     KYI_ATTEST, NOTARY_REVIEW, CONSENT_GRANT, CONSENT_REVOKE, STRIPE_RECEIPT, ESCROW_DEPOSIT,
     ESCROW_RELEASE, YIELD_DISTRIBUTE, BATCH_FORM, BATCH_ROOT, CONSENSUS_VOTE, CONSENSUS_FINAL,
     SOLANA_ANCHOR, IPFS_PIN, JOB_POST, JOB_CLAIM, JOB_DELIVER, JOB_APPROVE, NODE_START, NODE_STOP,
     SYNC, EXPORT]"

datatype privacy_label = PRIVATE | PROTECTED | PUBLIC | ANONYMOUS

fun privacy_value :: "privacy_label \<Rightarrow> string" where
  "privacy_value PRIVATE = ''private''"
| "privacy_value PROTECTED = ''protected''"
| "privacy_value PUBLIC = ''public''"
| "privacy_value ANONYMOUS = ''anonymous''"

text \<open>\<open>EventType(text)\<close> and \<open>PrivacyLabel(text)\<close>.\<close>

definition event_type_of :: "string \<Rightarrow> event_type option" where
  "event_type_of s = find (\<lambda>t. event_type_value t = s) all_event_types"

definition privacy_of :: "string \<Rightarrow> privacy_label option" where
  "privacy_of s = find (\<lambda>p. privacy_value p = s) [PRIVATE, PROTECTED, PUBLIC, ANONYMOUS]"

record chain_event =
  ce_event_id :: string
  ce_event_type :: event_type
  ce_timestamp :: pyfloat
  ce_data_hash :: string
  ce_data_preview :: string
  ce_privacy :: privacy_label
  ce_consent_token :: string
  ce_sequence :: int
  ce_previous_hash :: string
  ce_metadata :: "json dict"
  ce_notary_attestation :: "string option"
  ce_stripe_receipt_id :: json
  ce_solana_anchor :: "string option"

definition ce_payload :: "chain_event \<Rightarrow> string" where
  "ce_payload e = dumps_sorted (JObj [
     (''event_id'', JStr (ce_event_id e)),
     (''event_type'', JStr (event_type_value (ce_event_type e))),
     (''timestamp'', JFloat (ce_timestamp e)),
     (''data_hash'', JStr (ce_data_hash e)),
     (''privacy'', JStr (privacy_value (ce_privacy e))),
     (''consent_token'', JStr (ce_consent_token e)),
     (''sequence'', JInt (ce_sequence e)),
     (''previous_hash'', JStr (ce_previous_hash e))])"

definition full_hash :: "chain_event \<Rightarrow> string" where
  "full_hash e = sha256_hex (ce_payload e)"

text \<open>
  The chain, with the content of its directory: for each file name what the file parses to, \<^const>\<open>None\<close>
  if it does not parse. The policy file, where it parses, holds an object.
\<close>

record personal_chain =
  pc_user_id :: string
  pc_events :: "chain_event list"
  pc_sequence :: int
  pc_last_hash :: string
  pc_consent_policy :: "json dict"
  pc_dir :: "json option dict"

definition default_consent_policy :: "json dict" where
  "default_consent_policy = [
     (''auto_capture_prompts'', JBool False),
     (''auto_capture_uploads'', JBool False),
     (''auto_capture_builds'', JBool True),
     (''default_privacy'', JStr (privacy_value PRIVATE)),
     (''public_anchor_allowed'', JBool False),
     (''monetization_enabled'', JBool False)]"

section \<open>Files\<close>

text \<open>The decimal digits of a number, at least eight of them.\<close>

definition pad8 :: "int \<Rightarrow> string" where
  "pad8 n = (let ds = dec_int n in replicate (8 - length ds) (CHR ''0'') @ ds)"

definition event_file :: "int \<Rightarrow> string" where
  "event_file n = pad8 n @ ''.json''"

definition policy_file :: string where
  "policy_file = ''consent_policy.json''"

definition event_to_dict :: "chain_event \<Rightarrow> json dict" where
  "event_to_dict e = [
     (''event_id'', JStr (ce_event_id e)),
     (''event_type'', JStr (event_type_value (ce_event_type e))),
     (''timestamp'', JFloat (ce_timestamp e)),
     (''data_hash'', JStr (ce_data_hash e)),
     (''data_preview'', JStr (ce_data_preview e)),
     (''privacy'', JStr (privacy_value (ce_privacy e))),
     (''consent_token'', JStr (ce_consent_token e)),
     (''sequence'', JInt (ce_sequence e)),
     (''previous_hash'', JStr (ce_previous_hash e)),
     (''metadata'', JObj (ce_metadata e)),
     (''notary_attestation'', jopt JStr (ce_notary_attestation e)),
     (''stripe_receipt_id'', ce_stripe_receipt_id e),
     (''solana_anchor'', jopt JStr (ce_solana_anchor e))]"

definition persist_event :: "chain_event \<Rightarrow> personal_chain \<Rightarrow> personal_chain" where
  "persist_event e c = c\<lparr>pc_dir := dset (event_file (ce_sequence e)) (Some (JObj (event_to_dict e))) (pc_dir c)\<rparr>"

definition event_of_dict :: "json dict \<Rightarrow> chain_event option" where
  "event_of_dict d = do {
     eid \<leftarrow> dget d ''event_id'' \<bind> as_str;
     ty \<leftarrow> dget d ''event_type'' \<bind> as_str \<bind> event_type_of;
     ts \<leftarrow> dget d ''timestamp'' \<bind> as_float;
     dh \<leftarrow> dget d ''data_hash'' \<bind> as_str;
     preview \<leftarrow> dget d ''data_preview'' \<bind> as_str;
     privacy \<leftarrow> dget d ''privacy'' \<bind> as_str \<bind> privacy_of;
     token \<leftarrow> dget d ''consent_token'' \<bind> as_str;
     sequence \<leftarrow> dget d ''sequence'' \<bind> as_int;
     previous \<leftarrow> dget d ''previous_hash'' \<bind> as_str;
     metadata \<leftarrow> as_obj (dget_default d ''metadata'' (JObj []));
     notary \<leftarrow> unjopt as_str (dget_default d ''notary_attestation'' JNull);
     anchor \<leftarrow> unjopt as_str (dget_default d ''solana_anchor'' JNull);
     Some \<lparr>ce_event_id = eid, ce_event_type = ty, ce_timestamp = ts, ce_data_hash = dh,
       ce_data_preview = preview, ce_privacy = privacy, ce_consent_token = token, ce_sequence = sequence,
       ce_previous_hash = previous, ce_metadata = metadata, ce_notary_attestation = notary,
       ce_stripe_receipt_id = dget_default d ''stripe_receipt_id'' JNull, ce_solana_anchor = anchor\<rparr> }"

text \<open>The files of a directory whose names end in \<open>.json\<close>, by name.\<close>

definition json_files :: "json option dict \<Rightarrow> string list" where
  "json_files dir = sort (filter (\<lambda>f. drop (length f - 5) f = ''.json'') (dkeys dir))"

definition file_event :: "json option dict \<Rightarrow> string \<Rightarrow> chain_event option" where
  "file_event dir f = do { content \<leftarrow> dget dir f; v \<leftarrow> content; d \<leftarrow> as_obj v; event_of_dict d }"

text \<open>\<open>_load_chain\<close>: a file that cannot be read as an event is skipped.\<close>

definition load_event :: "personal_chain \<Rightarrow> string \<Rightarrow> personal_chain" where
  "load_event c f = (case file_event (pc_dir c) f of None \<Rightarrow> c
     | Some e \<Rightarrow> c\<lparr>pc_events := pc_events c @ [e], pc_sequence := ce_sequence e + 1, pc_last_hash := full_hash e\<rparr>)"

definition load_chain :: "personal_chain \<Rightarrow> personal_chain" where
  "load_chain c = foldl load_event c (json_files (pc_dir c))"

definition load_policy :: "personal_chain \<Rightarrow> personal_chain" where
  "load_policy c = (case dget (pc_dir c) policy_file of Some (Some (JObj p)) \<Rightarrow> c\<lparr>pc_consent_policy := p\<rparr> | _ \<Rightarrow> c)"

definition save_policy :: "personal_chain \<Rightarrow> personal_chain" where
  "save_policy c = c\<lparr>pc_dir := dset policy_file (Some (JObj (pc_consent_policy c))) (pc_dir c)\<rparr>"

definition personal_chain_init :: "string \<Rightarrow> json option dict \<Rightarrow> personal_chain" where
  "personal_chain_init user dir = load_policy (load_chain
     \<lparr>pc_user_id = user, pc_events = [], pc_sequence = 0, pc_last_hash = genesis_hash,
      pc_consent_policy = default_consent_policy, pc_dir = dir\<rparr>)"

section \<open>Logging\<close>

fun consent_key :: "event_type \<Rightarrow> string option" where
  "consent_key PROMPT = Some ''auto_capture_prompts''"
| "consent_key UPLOAD = Some ''auto_capture_uploads''"
| "consent_key BUILD_SUCCESS = Some ''auto_capture_builds''"
| "consent_key BUILD_FAILURE = Some ''auto_capture_builds''"
| "consent_key LLM_ARTIFACT = Some ''auto_capture_builds''"
| "consent_key _ = None"

text \<open>\<open>_has_consent\<close>, as the condition it is used as.\<close>

definition has_consent :: "event_type \<Rightarrow> personal_chain \<Rightarrow> bool" where
  "has_consent ty c = (case consent_key ty of None \<Rightarrow> True | Some k \<Rightarrow> dtruthy (pc_consent_policy c) k)"

text \<open>The privacy label of an event: the given one, or the default of the policy; the lookup may raise.\<close>

definition event_privacy :: "privacy_label option \<Rightarrow> personal_chain \<Rightarrow> privacy_label result" where
  "event_privacy privacy c = (case privacy of Some p \<Rightarrow> Inr p
     | None \<Rightarrow> (case as_str (dget_default (pc_consent_policy c) ''default_privacy'' (JStr ''private'')) \<bind> privacy_of of
         None \<Rightarrow> Inl (ValueError []) | Some p \<Rightarrow> Inr p))"

definition data_text :: "json \<Rightarrow> string" where
  "data_text data = (case data of JStr s \<Rightarrow> s | _ \<Rightarrow> dumps_sorted data)"

definition make_event ::
  "event_type \<Rightarrow> json \<Rightarrow> privacy_label \<Rightarrow> json dict \<Rightarrow> pyfloat \<Rightarrow> int \<Rightarrow> pyfloat \<Rightarrow> personal_chain \<Rightarrow> chain_event" where
  "make_event ty data privacy metadata t0 millis t2 c =
     (let text = data_text data; dh = sha256_hex text
      in \<lparr>ce_event_id = ''evt-'' @ pc_user_id c @ ''-'' @ dec_int millis @ ''-'' @ dec_int (pc_sequence c),
           ce_event_type = ty, ce_timestamp = t2, ce_data_hash = dh, ce_data_preview = take 200 text,
           ce_privacy = privacy,
           ce_consent_token = sha256_hex (pc_user_id c @ '':'' @ event_type_value ty @ '':'' @ frepr t0 @ '':'' @ dh),
           ce_sequence = pc_sequence c, ce_previous_hash = pc_last_hash c, ce_metadata = metadata,
           ce_notary_attestation = None, ce_stripe_receipt_id = JNull, ce_solana_anchor = None\<rparr>)"

definition append_event :: "chain_event \<Rightarrow> personal_chain \<Rightarrow> personal_chain" where
  "append_event e c = persist_event e (c\<lparr>pc_events := pc_events c @ [e], pc_sequence := pc_sequence c + 1,
     pc_last_hash := full_hash e\<rparr>)"

text \<open>
  \<open>log_event\<close>: the clock is read for the consent token, for the identifier and for the event. The time in
  the identifier is truncated to milliseconds, which raises if it is not finite.
\<close>

definition log_event ::
  "event_type \<Rightarrow> json \<Rightarrow> privacy_label option \<Rightarrow> json dict \<Rightarrow> bool \<Rightarrow> personal_chain \<Rightarrow> runtime
     \<Rightarrow> chain_event option result \<times> personal_chain \<times> runtime" where
  "log_event ty data privacy metadata consent_override c rt =
     (if \<not> consent_override \<and> \<not> has_consent ty c then (Inr None, c, rt)
      else case event_privacy privacy c of Inl e \<Rightarrow> (Inl e, c, rt)
      | Inr p \<Rightarrow>
        let (t0, rt) = time_time rt; (t1, rt) = time_time rt
        in case ftrunc (fmul t1 (Fin 1000)) of Inl e \<Rightarrow> (Inl e, c, rt)
           | Inr millis \<Rightarrow> let (t2, rt) = time_time rt; e = make_event ty data p metadata t0 millis t2 c
               in (Inr (Some e), append_event e c, rt))"

definition log_prompt :: "string \<Rightarrow> string option \<Rightarrow> personal_chain \<Rightarrow> runtime \<Rightarrow> chain_event option result \<times> personal_chain \<times> runtime" where
  "log_prompt text model = log_event PROMPT (JObj [(''text'', JStr text), (''model'', jopt JStr model)])
     (Some PRIVATE) [(''source'', JStr ''closedai_chat'')] False"

definition log_llm_response :: "string \<Rightarrow> string option \<Rightarrow> personal_chain \<Rightarrow> runtime \<Rightarrow> chain_event option result \<times> personal_chain \<times> runtime" where
  "log_llm_response text prompt_id = log_event LLM_RESPONSE (JObj [(''text'', JStr text), (''prompt_id'', jopt JStr prompt_id)])
     (Some PRIVATE) [(''source'', JStr ''llm_inference'')] False"

definition log_artifact :: "string \<Rightarrow> string \<Rightarrow> string \<Rightarrow> personal_chain \<Rightarrow> runtime \<Rightarrow> chain_event option result \<times> personal_chain \<times> runtime" where
  "log_artifact path content ty = log_event LLM_ARTIFACT
     (JObj [(''path'', JStr path), (''type'', JStr ty), (''size'', JInt (int (length content)))])
     (Some PROTECTED) [(''content_hash'', JStr (sha256_hex content))] False"

definition log_build :: "bool \<Rightarrow> string \<Rightarrow> string list \<Rightarrow> personal_chain \<Rightarrow> runtime \<Rightarrow> chain_event option result \<times> personal_chain \<times> runtime" where
  "log_build success build_log hashes = log_event (if success then BUILD_SUCCESS else BUILD_FAILURE)
     (JObj [(''log'', JStr (take 1000 build_log)), (''artifacts'', jstrs hashes)])
     (Some PROTECTED) [(''exit_code'', JInt (if success then 0 else 1))] False"

text \<open>The event just logged is changed in place, after its file has been written.\<close>

definition amend_last :: "(chain_event \<Rightarrow> chain_event) \<Rightarrow>
    chain_event option result \<times> personal_chain \<times> runtime \<Rightarrow> chain_event option result \<times> personal_chain \<times> runtime" where
  "amend_last f r = (case r of (Inr (Some e), c, rt) \<Rightarrow>
       (Inr (Some (f e)), c\<lparr>pc_events := butlast (pc_events c) @ [f e]\<rparr>, rt) | _ \<Rightarrow> r)"

definition log_stripe_receipt :: "json dict \<Rightarrow> personal_chain \<Rightarrow> runtime \<Rightarrow> chain_event option result \<times> personal_chain \<times> runtime" where
  "log_stripe_receipt receipt c rt = amend_last
     (\<lambda>e. e\<lparr>ce_stripe_receipt_id := dget_default receipt ''receipt_id'' JNull\<rparr>)
     (log_event STRIPE_RECEIPT
       (JObj [(''receipt_id'', dget_default receipt ''receipt_id'' JNull), (''amount'', dget_default receipt ''amount_usd'' JNull)])
       (Some ANONYMOUS) [(''processor'', JStr ''stripe''), (''status'', dget_default receipt ''status'' JNull)] False c rt)"

definition log_solana_anchor :: "string \<Rightarrow> string \<Rightarrow> personal_chain \<Rightarrow> runtime \<Rightarrow> chain_event option result \<times> personal_chain \<times> runtime" where
  "log_solana_anchor memo tx c rt = amend_last (\<lambda>e. e\<lparr>ce_solana_anchor := Some tx\<rparr>)
     (log_event SOLANA_ANCHOR (JObj [(''memo'', JStr memo), (''tx'', JStr tx)])
       (Some PUBLIC) [(''cluster'', JStr ''devnet'')] False c rt)"

text \<open>\<open>add_notary_attestation\<close>: the first event with the identifier is changed and written again.\<close>

fun attest_first :: "string \<Rightarrow> string \<Rightarrow> chain_event list \<Rightarrow> (chain_event \<times> chain_event list) option" where
  "attest_first eid att [] = None"
| "attest_first eid att (e # es) =
     (if ce_event_id e = eid then let e = e\<lparr>ce_notary_attestation := Some att\<rparr> in Some (e, e # es)
      else map_option (\<lambda>(e', es'). (e', e # es')) (attest_first eid att es))"

definition add_notary_attestation :: "string \<Rightarrow> string \<Rightarrow> personal_chain \<Rightarrow> bool \<times> personal_chain" where
  "add_notary_attestation eid att c = (case attest_first eid att (pc_events c) of None \<Rightarrow> (False, c)
     | Some (e, es) \<Rightarrow> (True, persist_event e (c\<lparr>pc_events := es\<rparr>)))"

definition update_consent_policy :: "json dict \<Rightarrow> personal_chain \<Rightarrow> personal_chain" where
  "update_consent_policy kwargs c = save_policy (c\<lparr>pc_consent_policy := dset_all kwargs (pc_consent_policy c)\<rparr>)"

section \<open>Reports\<close>

definition privacy_counts :: "chain_event list \<Rightarrow> int dict" where
  "privacy_counts es = foldl (\<lambda>d e. let label = privacy_value (ce_privacy e)
     in dset label (dget_default d label 0 + 1) d) [] es"

record chain_summary =
  cs_user_id :: string
  cs_events :: int
  cs_latest_sequence :: int
  cs_latest_hash :: string
  cs_privacy_breakdown :: "int dict"
  cs_consent_policy :: "json dict"

definition get_chain_summary :: "personal_chain \<Rightarrow> chain_summary" where
  "get_chain_summary c = \<lparr>cs_user_id = pc_user_id c, cs_events = int (length (pc_events c)),
     cs_latest_sequence = pc_sequence c, cs_latest_hash = pc_last_hash c,
     cs_privacy_breakdown = privacy_counts (pc_events c), cs_consent_policy = pc_consent_policy c\<rparr>"

definition public_proof :: "chain_event \<Rightarrow> json dict" where
  "public_proof e = [
     (''event_id'', JStr (ce_event_id e)),
     (''event_type'', JStr (event_type_value (ce_event_type e))),
     (''timestamp'', JFloat (ce_timestamp e)),
     (''data_hash'', JStr (ce_data_hash e)),
     (''privacy'', JStr (privacy_value (ce_privacy e))),
     (''sequence'', JInt (ce_sequence e)),
     (''previous_hash'', JStr (ce_previous_hash e)),
     (''metadata'', JObj (ce_metadata e)),
     (''solana_anchor'', jopt JStr (ce_solana_anchor e))]"

definition export_public_proofs :: "personal_chain \<Rightarrow> json dict list" where
  "export_public_proofs c = map public_proof (filter (\<lambda>e. ce_privacy e \<in> {PUBLIC, ANONYMOUS}) (pc_events c))"

definition export_chain_archive :: "personal_chain \<Rightarrow> runtime \<Rightarrow> json dict \<times> runtime" where
  "export_chain_archive c rt = (let (now, rt) = time_time rt in
     ([(''user_id'', JStr (pc_user_id c)),
       (''export_timestamp'', JFloat now),
       (''events'', JList (map (\<lambda>e. JObj (event_to_dict e)) (pc_events c))),
       (''consent_policy'', JObj (pc_consent_policy c))], rt))"

fun integrity_loop :: "string \<Rightarrow> chain_event list \<Rightarrow> bool" where
  "integrity_loop expected [] = True"
| "integrity_loop expected (e # es) =
     (if ce_previous_hash e \<noteq> expected then False else integrity_loop (full_hash e) es)"

definition verify_chain_integrity :: "personal_chain \<Rightarrow> bool" where
  "verify_chain_integrity c = (if pc_events c = [] then True else integrity_loop genesis_hash (pc_events c))"

section \<open>The order of the file names\<close>

text \<open>The last \<open>k\<close> digits of a number.\<close>

fun digits :: "nat \<Rightarrow> nat \<Rightarrow> string" where
  "digits 0 n = []"
| "digits (Suc k) n = digits k (n div 10) @ [digit_char (n mod 10)]"

lemma length_digits [simp]: "length (digits k n) = k"
  by (induction k arbitrary: n) simp_all

lemma digits_0: "digits k 0 = replicate k (CHR ''0'')"
  by (induction k) (simp_all add: digit_char_def replicate_append_same)

lemma digits_dec_nat: "0 < k \<Longrightarrow> n < 10 ^ k \<Longrightarrow> replicate (k - length (dec_nat n)) (CHR ''0'') @ dec_nat n = digits k n"
proof (induction k arbitrary: n)
  case (Suc k)
  show ?case
  proof (cases "n < 10")
    case True
    then show ?thesis by (simp add: dec_nat.simps [of n] digits_0)
  next
    case False
    with Suc.prems have "0 < k" "n div 10 < 10 ^ k" by (cases k; simp add: less_mult_imp_div_less)+
    from Suc.IH [OF this] False show ?thesis by (simp add: dec_nat.simps [of n])
  qed
qed simp

lemma digit_char_mono:
  assumes "a < b" and "b < 10"
  shows "digit_char a < digit_char b"
proof -
  have "list_all (\<lambda>b. list_all (\<lambda>a. digit_char a < digit_char b) [0..<b]) [0..<10]" by code_simp
  then show ?thesis using assms by (simp add: list_all_iff)
qed

lemma less_append_same_length:
  fixes xs ys :: "string"
  assumes "length xs = length ys" and "xs < ys"
  shows "xs @ us < ys @ vs"
  using assms lexord_sufI [of xs ys "{(u, v). u < v}" us vs] by (simp add: list_less_def)

lemma less_append_last: "(a :: char) < b \<Longrightarrow> xs @ a # us < xs @ b # vs"
  by (simp add: list_less_def lexord_append_left_rightI)

lemma digits_mono: "m < n \<Longrightarrow> n < 10 ^ k \<Longrightarrow> digits k m < digits k n"
proof (induction k arbitrary: m n)
  case (Suc k)
  show ?case
  proof (cases "m div 10 < n div 10")
    case True
    moreover have "n div 10 < 10 ^ k" using Suc.prems(2) by (simp add: less_mult_imp_div_less)
    ultimately show ?thesis using Suc.IH by (simp add: less_append_same_length)
  next
    case False
    with Suc.prems(1) have "m div 10 = n div 10" by (simp add: div_le_mono nat_less_le)
    moreover from this Suc.prems(1) have "m mod 10 < n mod 10"
      by (metis div_mult_mod_eq nat_add_left_cancel_less)
    ultimately show ?thesis using less_append_last [OF digit_char_mono] by simp
  qed
qed simp

lemma pad8_digits: "n < 10 ^ 8 \<Longrightarrow> pad8 (int n) = digits 8 n"
  using digits_dec_nat [of 8 n] by (simp add: pad8_def dec_int_def)

lemma event_file_mono: "m < n \<Longrightarrow> n < 10 ^ 8 \<Longrightarrow> event_file (int m) < event_file (int n)"
  by (simp add: event_file_def pad8_digits digits_mono less_append_same_length)

section \<open>Shape of the hashed text\<close>

lemma event_type_value_plain: "plain (event_type_value t)"
  by (cases t) (simp_all add: plain_char_def)

lemma ce_payload_text:
  assumes "plain (ce_previous_hash e)"
  shows "ce_payload e =
    (''{'' @ [CHR 0x22] @ ''consent_token'' @ [CHR 0x22] @ '': '' @ json_string True (ce_consent_token e) @ '', ''
      @ [CHR 0x22] @ ''data_hash'' @ [CHR 0x22] @ '': '' @ json_string True (ce_data_hash e) @ '', ''
      @ [CHR 0x22] @ ''event_id'' @ [CHR 0x22] @ '': '' @ json_string True (ce_event_id e) @ '', ''
      @ [CHR 0x22] @ ''event_type'' @ [CHR 0x22] @ '': '' @ json_string True (event_type_value (ce_event_type e)) @ '', ''
      @ [CHR 0x22] @ ''previous_hash'' @ [CHR 0x22] @ '': '')
    @ quote_fields [ce_previous_hash e, '', '', ''privacy'', '': '', privacy_value (ce_privacy e), '', '',
        ''sequence'', '': '' @ dec_int (ce_sequence e) @ '', '', ''timestamp'',
        '': '' @ json_float (ce_timestamp e) @ ''}'']"
proof -
  have pv: "plain (privacy_value p)" for p by (cases p) (simp_all add: plain_char_def)
  show ?thesis
    using assms
    by (simp add: ce_payload_def dumps_sorted_def json_object_def join_def json_string_plain pv
          quote_fields_def plain_char_def insort_key.simps less_list_code less_eq_list_code)
qed

lemma ce_payload_fields:
  assumes "plain (ce_previous_hash e)" and "plain (ce_previous_hash f)" and "ce_payload e = ce_payload f"
  shows "ce_previous_hash e = ce_previous_hash f"
proof -
  have q: "CHR 0x22 \<notin> set (privacy_value p)" for p by (cases p) simp_all
  have n: "CHR 0x22 \<notin> set (dec_int i)" "CHR 0x22 \<notin> set (json_float x)" for i x
    by (rule plain_no_quote, simp)+
  note eq = assms(3) [unfolded ce_payload_text [OF assms(1)] ce_payload_text [OF assms(2)]]
  from quote_fields_inj [OF eq] show ?thesis
    using q n plain_no_quote [OF assms(1)] plain_no_quote [OF assms(2)] by simp
qed

interpretation pc: hash_chain ce_payload ce_previous_hash
  by unfold_locales (rule ce_payload_fields)

lemma integrity_loop_linked: "integrity_loop h es \<longleftrightarrow> linked ce_payload ce_previous_hash h es"
  by (induction es arbitrary: h) (auto simp: full_hash_def)

lemma verify_chain_integrity_linked:
  "verify_chain_integrity c \<longleftrightarrow> linked ce_payload ce_previous_hash genesis_hash (pc_events c)"
  by (auto simp: verify_chain_integrity_def integrity_loop_linked)

section \<open>The invariant\<close>

text \<open>An event without the two fields that are set after it has been written.\<close>

definition core_event :: "chain_event \<Rightarrow> chain_event" where
  "core_event e = e\<lparr>ce_stripe_receipt_id := JNull, ce_solana_anchor := None\<rparr>"

lemma event_of_to_dict: "event_of_dict (event_to_dict e) = Some e"
proof -
  have "event_type_of (event_type_value t) = Some t" for t
    by (cases t) (simp_all add: event_type_of_def all_event_types_def)
  moreover have "privacy_of (privacy_value p) = Some p" for p
    by (cases p) (simp_all add: privacy_of_def)
  ultimately show ?thesis
    by (simp add: event_of_dict_def event_to_dict_def dget_default_def)
qed

text \<open>The log links up, its events are numbered from zero, and the hash of the last event is remembered.\<close>

definition log_ok :: "personal_chain \<Rightarrow> bool" where
  "log_ok c \<longleftrightarrow> linked ce_payload ce_previous_hash genesis_hash (pc_events c) \<and>
     pc_last_hash c = chain_tip ce_payload genesis_hash (pc_events c) \<and>
     pc_sequence c = int (length (pc_events c)) \<and>
     map ce_sequence (pc_events c) = map int [0..<length (pc_events c)]"

text \<open>The directory holds one file per event and, once it has been changed, the policy.\<close>

definition dir_ok :: "personal_chain \<Rightarrow> bool" where
  "dir_ok c \<longleftrightarrow> distinct (dkeys (pc_dir c)) \<and>
     (\<forall>i < length (pc_events c). map_option core_event (file_event (pc_dir c) (event_file (int i)))
        = Some (core_event (pc_events c ! i))) \<and>
     set (dkeys (pc_dir c)) - {policy_file} = event_file ` int ` {..<length (pc_events c)} \<and>
     dget (pc_dir c) policy_file =
       (if policy_file \<in> set (dkeys (pc_dir c)) then Some (Some (JObj (pc_consent_policy c))) else None) \<and>
     (policy_file \<in> set (dkeys (pc_dir c)) \<or> pc_consent_policy c = default_consent_policy)"

lemma log_ok_init: "log_ok (personal_chain_init user [])"
  by (simp add: log_ok_def personal_chain_init_def load_policy_def load_chain_def json_files_def)

lemma dir_ok_init: "dir_ok (personal_chain_init user [])"
  by (simp add: dir_ok_def personal_chain_init_def load_policy_def load_chain_def json_files_def)

lemma append_event_simps [simp]:
  "pc_events (append_event e c) = pc_events c @ [e]"
  "pc_sequence (append_event e c) = pc_sequence c + 1"
  "pc_last_hash (append_event e c) = sha256_hex (ce_payload e)"
  "pc_consent_policy (append_event e c) = pc_consent_policy c"
  "pc_user_id (append_event e c) = pc_user_id c"
  "pc_dir (append_event e c) = dset (event_file (ce_sequence e)) (Some (JObj (event_to_dict e))) (pc_dir c)"
  by (simp_all add: append_event_def persist_event_def full_hash_def)

lemma log_ok_append:
  "log_ok c \<Longrightarrow> ce_previous_hash e = pc_last_hash c \<Longrightarrow> ce_sequence e = pc_sequence c \<Longrightarrow> log_ok (append_event e c)"
  by (auto simp: log_ok_def)

text \<open>What the log depends on of an event.\<close>

definition hashed :: "chain_event \<Rightarrow> string \<times> string \<times> int" where
  "hashed e = (ce_payload e, ce_previous_hash e, ce_sequence e)"

lemma linked_hashed:
  "map hashed es = map hashed es' \<Longrightarrow>
     linked ce_payload ce_previous_hash h es = linked ce_payload ce_previous_hash h es' \<and>
     chain_tip ce_payload h es = chain_tip ce_payload h es' \<and> map ce_sequence es = map ce_sequence es'"
proof (induction es arbitrary: es' h)
  case (Cons e es)
  then obtain f fs where "es' = f # fs" by (cases es') auto
  with Cons show ?case by (auto simp: hashed_def)
qed simp

lemma log_ok_hashed:
  assumes "log_ok c" and "map hashed (pc_events c') = map hashed (pc_events c)"
    and "pc_last_hash c' = pc_last_hash c" and "pc_sequence c' = pc_sequence c"
  shows "log_ok c'"
  using linked_hashed [OF assms(2), of genesis_hash] assms map_eq_imp_length_eq [OF assms(2)]
  by (simp add: log_ok_def)

lemma hashed_core: "hashed (core_event e) = hashed e"
  by (simp add: hashed_def core_event_def ce_payload_def)

lemma hashed_of_core: "map core_event es = map core_event es' \<Longrightarrow> map hashed es = map hashed es'"
  using hashed_core by (metis (no_types, lifting) list.map_comp map_eq_conv o_apply)

lemma event_file_inj: "m < 10 ^ 8 \<Longrightarrow> n < 10 ^ 8 \<Longrightarrow> event_file (int m) = event_file (int n) \<longleftrightarrow> m = n"
  by (metis event_file_mono linorder_less_linear order_less_irrefl)

lemma event_file_not_policy: "n < 10 ^ 8 \<Longrightarrow> event_file (int n) \<noteq> policy_file"
proof -
  assume "n < 10 ^ 8"
  then have "length (event_file (int n)) = 13" by (simp add: event_file_def pad8_digits)
  then show ?thesis by (auto simp: policy_file_def)
qed

lemma file_event_dset:
  "file_event (dset f v dir) g = (if g = f then v \<bind> as_obj \<bind> event_of_dict else file_event dir g)"
  by (simp add: file_event_def)

lemma dir_ok_append:
  assumes "dir_ok c" and "log_ok c" and "ce_sequence e = pc_sequence c" and "length (pc_events c) < 10 ^ 8"
  shows "dir_ok (append_event e c)"
proof -
  let ?n = "length (pc_events c)" and ?d = "dset (event_file (ce_sequence e)) (Some (JObj (event_to_dict e))) (pc_dir c)"
  have seq: "ce_sequence e = int ?n" using assms(2,3) by (simp add: log_ok_def)
  have pol: "event_file (int ?n) \<noteq> policy_file" by (rule event_file_not_policy [OF assms(4)])
  have "map_option core_event (file_event ?d (event_file (int i))) = Some (core_event ((pc_events c @ [e]) ! i))"
    if "i < Suc ?n" for i
  proof (cases "i = ?n")
    case True
    then show ?thesis using seq by (simp add: file_event_dset event_of_to_dict)
  next
    case False
    with that assms(1,4) event_file_inj [of i ?n] seq show ?thesis
      by (simp add: file_event_dset nth_append dir_ok_def)
  qed
  moreover have "set (dkeys ?d) - {policy_file} = event_file ` int ` {..<Suc ?n}"
    using assms(1) seq pol by (simp add: dir_ok_def lessThan_Suc insert_Diff_if)
  ultimately show ?thesis using assms(1) seq pol by (simp add: dir_ok_def)
qed

lemma dir_ok_core:
  assumes "dir_ok c" and "map core_event (pc_events c') = map core_event (pc_events c)"
    and "pc_dir c' = pc_dir c" and "pc_consent_policy c' = pc_consent_policy c"
  shows "dir_ok c'"
proof -
  have len: "length (pc_events c') = length (pc_events c)" using assms(2) by (rule map_eq_imp_length_eq)
  then have "core_event (pc_events c' ! i) = core_event (pc_events c ! i)" if "i < length (pc_events c)" for i
    using assms(2) that by (metis nth_map)
  with assms(1,3,4) len show ?thesis by (simp add: dir_ok_def)
qed

lemma dir_ok_policy:
  assumes "dir_ok c" and "length (pc_events c) \<le> 10 ^ 8"
  shows "dir_ok (update_consent_policy kwargs c)"
proof -
  have "event_file (int i) \<noteq> policy_file" if "i < length (pc_events c)" for i
    using event_file_not_policy [of i] that assms(2) by simp
  with assms(1) show ?thesis
    by (auto simp: dir_ok_def update_consent_policy_def save_policy_def file_event_dset)
qed

text \<open>Attesting an event.\<close>

lemma attest_first_Some:
  "attest_first eid att es = Some (e, es') \<Longrightarrow>
     \<exists>i < length es. e = (es ! i)\<lparr>ce_notary_attestation := Some att\<rparr> \<and> es' = es[i := e] \<and> ce_event_id (es ! i) = eid"
proof (induction es arbitrary: es')
  case (Cons f es)
  show ?case
  proof (cases "ce_event_id f = eid")
    case True
    with Cons.prems show ?thesis by (intro exI [of _ 0]) (auto simp: Let_def)
  next
    case False
    with Cons.prems obtain es'' where "attest_first eid att es = Some (e, es'')" "es' = f # es''" by auto
    with Cons.IH obtain i where "i < length es" "e = (es ! i)\<lparr>ce_notary_attestation := Some att\<rparr>"
      "es'' = es[i := e]" "ce_event_id (es ! i) = eid" by blast
    with \<open>es' = f # es''\<close> show ?thesis by (intro exI [of _ "Suc i"]) simp
  qed
qed simp

lemma attest_ok:
  assumes "log_ok c" and "dir_ok c" and "length (pc_events c) \<le> 10 ^ 8"
  shows "log_ok (snd (add_notary_attestation eid att c))" and "dir_ok (snd (add_notary_attestation eid att c))"
proof -
  show "log_ok (snd (add_notary_attestation eid att c))"
  proof (cases "attest_first eid att (pc_events c)")
    case (Some p)
    then obtain e es where p: "p = (e, es)" by (cases p)
    with attest_first_Some Some obtain i where "i < length (pc_events c)"
      "e = (pc_events c ! i)\<lparr>ce_notary_attestation := Some att\<rparr>" "es = (pc_events c)[i := e]" by blast
    moreover from this have "map hashed es = map hashed (pc_events c)"
      by (simp add: map_update hashed_def ce_payload_def list_update_same_conv)
    ultimately show ?thesis
      using Some p assms(1) by (auto simp: add_notary_attestation_def persist_event_def intro: log_ok_hashed)
  qed (use assms in \<open>simp add: add_notary_attestation_def\<close>)
  show "dir_ok (snd (add_notary_attestation eid att c))"
  proof (cases "attest_first eid att (pc_events c)")
    case (Some p)
    then obtain e es where p: "p = (e, es)" by (cases p)
    with attest_first_Some Some obtain i where i: "i < length (pc_events c)"
      "e = (pc_events c ! i)\<lparr>ce_notary_attestation := Some att\<rparr>" "es = (pc_events c)[i := e]" by blast
    have seq: "ce_sequence e = int i"
    proof -
      have "ce_sequence (pc_events c ! i) = map int [0..<length (pc_events c)] ! i"
        using assms(1) i(1) unfolding log_ok_def by (metis nth_map)
      then show ?thesis using i by simp
    qed
    have small: "j < 10 ^ 8" if "j < length (pc_events c)" for j using that assms(3) by simp
    have other: "event_file (int j) = event_file (int i) \<longleftrightarrow> j = i" if "j < length (pc_events c)" for j
      using event_file_inj small that i(1) by simp
    have "event_file (int i) \<in> set (dkeys (pc_dir c))" and pol: "event_file (int i) \<noteq> policy_file"
      using assms(2) i(1) event_file_not_policy [OF small] unfolding dir_ok_def by auto
    then have "set (dkeys (dset (event_file (int i)) v (pc_dir c))) = set (dkeys (pc_dir c))" for v by auto
    then show ?thesis
      using assms(2) i seq other pol Some p
      by (simp add: dir_ok_def add_notary_attestation_def persist_event_def file_event_dset event_of_to_dict nth_list_update)
  qed (use assms in \<open>simp add: add_notary_attestation_def\<close>)
qed

section \<open>Calls\<close>

inductive chain_step :: "personal_chain \<times> runtime \<Rightarrow> personal_chain \<times> runtime \<Rightarrow> bool" where
  step_log: "log_event ty data privacy metadata override c rt = (r, c', rt') \<Longrightarrow> chain_step (c, rt) (c', rt')"
| step_stripe: "log_stripe_receipt receipt c rt = (r, c', rt') \<Longrightarrow> chain_step (c, rt) (c', rt')"
| step_anchor: "log_solana_anchor memo tx c rt = (r, c', rt') \<Longrightarrow> chain_step (c, rt) (c', rt')"
| step_attest: "add_notary_attestation eid att c = (ok, c') \<Longrightarrow> chain_step (c, rt) (c', rt)"
| step_policy: "chain_step (c, rt) (update_consent_policy kwargs c, rt)"

text \<open>A call of \<open>log_event\<close> appends the event it returns, or nothing.\<close>

lemma log_event_cases:
  obtains (refused) "\<not> override" "\<not> has_consent ty c" "log_event ty data privacy metadata override c rt = (Inr None, c, rt)"
  | (raised) e rt' where "log_event ty data privacy metadata override c rt = (Inl e, c, rt')"
  | (logged) e rt' where "log_event ty data privacy metadata override c rt = (Inr (Some e), append_event e c, rt')"
      and "ce_previous_hash e = pc_last_hash c" and "ce_sequence e = pc_sequence c" and "ce_event_type e = ty"
      and "override \<or> has_consent ty c" and "ce_stripe_receipt_id e = JNull" and "ce_solana_anchor e = None"
      and "ce_data_hash e = sha256_hex (data_text data)"
proof (cases "override \<or> has_consent ty c")
  case False
  then show ?thesis by (intro refused) (simp_all add: log_event_def)
next
  case True
  show ?thesis
  proof (cases "event_privacy privacy c")
    case (Inl e)
    with True show ?thesis by (intro raised) (simp add: log_event_def)
  next
    case (Inr p)
    let ?rt1 = "rt_tick rt" and ?rt2 = "rt_tick (rt_tick rt)"
    show ?thesis
    proof (cases "ftrunc (fmul (rt_now ?rt1) (Fin 1000))")
      case (Inl e)
      with True Inr show ?thesis by (intro raised [of e ?rt2]) (simp add: log_event_def time_time_def)
    next
      case (Inr millis)
      let ?e = "make_event ty data p metadata (rt_now rt) millis (rt_now ?rt2) c"
      have "log_event ty data privacy metadata override c rt = (Inr (Some ?e), append_event ?e c, rt_tick ?rt2)"
        using True Inr \<open>event_privacy privacy c = Inr p\<close> by (auto simp: log_event_def time_time_def Let_def)
      then show ?thesis by (rule logged) (use True in \<open>simp_all add: make_event_def Let_def\<close>)
    qed
  qed
qed

text \<open>What a step needs and keeps: everything, while the numbers fit into eight digits.\<close>

definition chain_ok :: "personal_chain \<Rightarrow> bool" where
  "chain_ok c \<longleftrightarrow> log_ok c \<and> dir_ok c"

lemma log_event_ok:
  assumes "chain_ok c" and "length (pc_events c) < 10 ^ 8" and "log_event ty data privacy metadata override c rt = (r, c', rt')"
  shows "chain_ok c'"
proof (cases rule: log_event_cases [of override ty c data privacy metadata rt])
  case (logged e rt'')
  then show ?thesis using assms by (auto simp: chain_ok_def intro: log_ok_append dir_ok_append)
qed (use assms in auto)

lemma amend_last_ok:
  assumes "chain_ok c" and "length (pc_events c) < 10 ^ 8"
    and "amend_last f (log_event ty data privacy metadata override c rt) = (r, c', rt')"
    and "\<And>e. core_event (f e) = core_event e"
  shows "chain_ok c'"
proof (cases rule: log_event_cases [of override ty c data privacy metadata rt])
  case (logged e rt'')
  then have c': "c' = (append_event e c)\<lparr>pc_events := pc_events c @ [f e]\<rparr>"
    using assms(3) by (auto simp: amend_last_def)
  have ok: "chain_ok (append_event e c)" using log_event_ok [OF assms(1,2) logged(1)] .
  have core: "map core_event (pc_events c') = map core_event (pc_events (append_event e c))"
    using assms(4) by (simp add: c')
  show ?thesis
    using ok log_ok_hashed [OF _ hashed_of_core [OF core]] dir_ok_core [OF _ core] by (simp add: chain_ok_def c')
qed (use assms in \<open>auto simp: amend_last_def\<close>)

lemma chain_step_ok:
  assumes "chain_step s s'" and "chain_ok (fst s)" and "length (pc_events (fst s)) < 10 ^ 8"
  shows "chain_ok (fst s')"
  using assms
proof (cases rule: chain_step.cases)
  case (step_log ty data privacy metadata override c rt r c' rt')
  with assms show ?thesis by (auto intro: log_event_ok)
next
  case (step_stripe receipt c rt r c' rt')
  with assms show ?thesis
    by (auto simp: log_stripe_receipt_def core_event_def elim!: amend_last_ok [rotated 2])
next
  case (step_anchor memo tx c rt r c' rt')
  with assms show ?thesis
    by (auto simp: log_solana_anchor_def core_event_def elim!: amend_last_ok [rotated 2])
next
  case (step_attest eid att c ok c' rt)
  then show ?thesis using attest_ok [of c eid att] assms by (auto simp: chain_ok_def)
next
  case (step_policy c rt kwargs)
  then show ?thesis
    using assms dir_ok_policy [of c kwargs] log_ok_hashed [of c "update_consent_policy kwargs c"]
    by (auto simp: chain_ok_def update_consent_policy_def save_policy_def)
qed

text \<open>Events are only ever added.\<close>

lemma chain_step_length:
  assumes "chain_step s s'"
  shows "length (pc_events (fst s)) \<le> length (pc_events (fst s')) \<and>
    length (pc_events (fst s')) \<le> Suc (length (pc_events (fst s))) \<and> pc_user_id (fst s') = pc_user_id (fst s)"
proof -
  have log: "length (pc_events c) \<le> length (pc_events c') \<and>
      length (pc_events c') \<le> Suc (length (pc_events c)) \<and> pc_user_id c' = pc_user_id c"
    if "log_event ty data privacy metadata override c rt = (r, c', rt')" for ty data privacy metadata override c rt r c' rt'
    using that by (cases rule: log_event_cases [of override ty c data privacy metadata rt]) auto
  have amend: "length (pc_events c) \<le> length (pc_events c') \<and>
      length (pc_events c') \<le> Suc (length (pc_events c)) \<and> pc_user_id c' = pc_user_id c"
    if "amend_last f (log_event ty data privacy metadata override c rt) = (r, c', rt')"
    for f ty data privacy metadata override c rt r c' rt'
    using that by (cases rule: log_event_cases [of override ty c data privacy metadata rt]) (auto simp: amend_last_def)
  from assms show ?thesis
  proof (cases rule: chain_step.cases)
    case (step_attest eid att c ok c' rt)
    then show ?thesis
      by (auto simp: add_notary_attestation_def persist_event_def dest!: attest_first_Some split: option.splits)
  qed (auto simp: log_stripe_receipt_def log_solana_anchor_def update_consent_policy_def save_policy_def dest: log amend)
qed

lemma chain_run_ok:
  assumes "chain_step\<^sup>*\<^sup>* s s'" and "chain_ok (fst s)" and "length (pc_events (fst s')) < 10 ^ 8"
  shows "chain_ok (fst s') \<and> pc_user_id (fst s') = pc_user_id (fst s)"
  using assms
proof (induction rule: rtranclp_induct)
  case (step t u)
  have "length (pc_events (fst t)) < 10 ^ 8" using step(5) chain_step_length [OF step(2)] by simp
  with step chain_step_length [OF step(2)] show ?case by (auto intro: chain_step_ok)
qed simp

section \<open>Reading the directory\<close>

lemma foldl_load_event:
  "foldl load_event c fs = (case rev (List.map_filter (file_event (pc_dir c)) fs) of [] \<Rightarrow> c
     | e # es \<Rightarrow> c\<lparr>pc_events := pc_events c @ List.map_filter (file_event (pc_dir c)) fs,
         pc_sequence := ce_sequence e + 1, pc_last_hash := full_hash e\<rparr>)"
proof (induction fs rule: rev_induct)
  case Nil
  then show ?case by (simp add: List.map_filter_def)
next
  case (snoc f fs)
  then show ?case
    by (cases "rev (List.map_filter (file_event (pc_dir c)) fs)")
      (auto simp: load_event_def split: option.splits list.splits)
qed

lemma digits_head: "\<exists>d cs. d < 10 \<and> digits (Suc k) n = digit_char d # cs"
proof (induction k arbitrary: n)
  case 0
  show ?case by (intro exI [of _ "n mod 10"]) simp
next
  case (Suc k)
  from Suc [of "n div 10"] obtain d cs where d: "d < 10" "digits (Suc k) (n div 10) = digit_char d # cs" by blast
  then have "digits (Suc (Suc k)) n = digit_char d # (cs @ [digit_char (n mod 10)])"
    by (simp only: digits.simps(2) [of "Suc k" n] append_Cons)
  with d(1) show ?case by blast
qed

lemma event_file_before_policy:
  assumes "n < 10 ^ 8"
  shows "event_file (int n) < policy_file"
proof -
  have eight: "(8 :: nat) = Suc 7" by simp
  obtain d cs where d: "d < 10" "digits 8 n = digit_char d # cs"
    using digits_head [of 7 n] unfolding eight by blast
  have "list_all (\<lambda>d. digit_char d < CHR ''c'') [0..<10]" by code_simp
  with d(1) have "digit_char d < CHR ''c''" by (simp add: list_all_iff)
  then show ?thesis using d(2) assms by (simp add: event_file_def pad8_digits policy_file_def)
qed

lemma json_files_sorted:
  assumes "dir_ok c" and "length (pc_events c) \<le> 10 ^ 8"
  shows "json_files (pc_dir c) = map (\<lambda>i. event_file (int i)) [0..<length (pc_events c)] @
    (if policy_file \<in> set (dkeys (pc_dir c)) then [policy_file] else [])" (is "_ = ?fs")
proof -
  let ?n = "length (pc_events c)"
  have small: "i < 10 ^ 8" if "i < ?n" for i using that assms(2) by simp
  have json: "drop (length f - 5) f = ''.json''" if "f \<in> set (dkeys (pc_dir c))" for f
  proof (cases "f = policy_file")
    case False
    then have "f \<in> event_file ` int ` {..<?n}" using assms(1) that unfolding dir_ok_def by blast
    then show ?thesis by (auto simp: event_file_def)
  qed (simp add: policy_file_def)
  have keys: "set (dkeys (pc_dir c)) = set ?fs"
    using assms(1) unfolding dir_ok_def by (auto simp: image_image atLeast0LessThan)
  have "filter (\<lambda>f. drop (length f - 5) f = ''.json'') (dkeys (pc_dir c)) = dkeys (pc_dir c)"
    using json by (simp add: filter_id_conv)
  then have "json_files (pc_dir c) = sort (dkeys (pc_dir c))" by (simp add: json_files_def)
  also have "\<dots> = ?fs"
  proof (rule sorted_distinct_set_unique)
    have "sorted_wrt (\<lambda>i j. event_file (int i) \<le> event_file (int j)) [0..<?n]"
      using event_file_mono small
      by (intro sorted_wrt_mono_rel [OF _ sorted_wrt_upt]) (fastforce simp: order_less_imp_le)
    then show "sorted ?fs"
      using event_file_before_policy small by (auto simp: sorted_append sorted_wrt_map order_less_imp_le)
    have "inj_on (\<lambda>i. event_file (int i)) {0..<?n}"
    proof (rule inj_onI)
      fix i j assume "i \<in> {0..<?n}" "j \<in> {0..<?n}" "event_file (int i) = event_file (int j)"
      then show "i = j" using event_file_inj [OF small small, of i j] by simp
    qed
    moreover have "policy_file \<notin> (\<lambda>i. event_file (int i)) ` {0..<?n}"
      using event_file_not_policy [OF small] by force
    ultimately show "distinct ?fs" by (simp add: distinct_map)
  qed (use assms(1) keys in \<open>simp_all add: dir_ok_def\<close>)
  finally show ?thesis .
qed


lemma map_filter_total: "(\<And>x. x \<in> set xs \<Longrightarrow> f x = Some (g x)) \<Longrightarrow> List.map_filter f xs = map g xs"
  by (induction xs) (simp_all add: List.map_filter_def)

text \<open>The chain read back from the directory of a sound chain.\<close>

lemma reload_chain:
  assumes "chain_ok c" and "length (pc_events c) \<le> 10 ^ 8" and "event_of_dict (pc_consent_policy c) = None"
  shows "let c' = personal_chain_init user (pc_dir c) in
    map core_event (pc_events c') = map core_event (pc_events c) \<and> pc_sequence c' = pc_sequence c \<and>
    pc_last_hash c' = pc_last_hash c \<and> pc_consent_policy c' = pc_consent_policy c"
proof -
  let ?n = "length (pc_events c)" and ?dir = "pc_dir c"
  let ?c0 = "\<lparr>pc_user_id = user, pc_events = [], pc_sequence = 0, pc_last_hash = genesis_hash,
      pc_consent_policy = default_consent_policy, pc_dir = ?dir\<rparr>"
  define es where "es = List.map_filter (file_event ?dir) (json_files ?dir)"
  from assms(1) have ok: "log_ok c" "dir_ok c" by (simp_all add: chain_ok_def)
  have "file_event ?dir policy_file = None"
    using ok(2) assms(3) by (simp add: dir_ok_def file_event_def split: if_splits)
  then have "es = List.map_filter (file_event ?dir) (map (\<lambda>i. event_file (int i)) [0..<?n])"
    using json_files_sorted [OF ok(2) assms(2)] by (simp add: es_def)
  moreover have "\<exists>e. file_event ?dir (event_file (int i)) = Some e \<and> core_event e = core_event (pc_events c ! i)"
    if "i < ?n" for i
    using ok(2) that by (auto simp: dir_ok_def)
  then obtain g where g: "\<And>i. i < ?n \<Longrightarrow> file_event ?dir (event_file (int i)) = Some (g i)"
    "\<And>i. i < ?n \<Longrightarrow> core_event (g i) = core_event (pc_events c ! i)" by metis
  ultimately have "es = map g [0..<?n]"
    using map_filter_total [of "[0..<?n]" "\<lambda>i. file_event ?dir (event_file (int i))" g]
    by (simp add: List.map_filter_def filter_map comp_def)
  then have "map core_event es = map (\<lambda>i. core_event (pc_events c ! i)) [0..<?n]" using g(2) by simp
  then have core: "map core_event es = map core_event (pc_events c)"
    by (metis (no_types, lifting) map_nth list.map_comp o_apply map_eq_conv)
  note h = linked_hashed [OF hashed_of_core [OF core], of genesis_hash]
  have len: "length es = ?n" using core by (rule map_eq_imp_length_eq)
  have load: "load_chain ?c0 = (case rev es of [] \<Rightarrow> ?c0
      | e # r \<Rightarrow> ?c0\<lparr>pc_events := es, pc_sequence := ce_sequence e + 1, pc_last_hash := full_hash e\<rparr>)"
    by (simp add: load_chain_def foldl_load_event es_def split: list.split)
  have "pc_events (load_chain ?c0) = es \<and> pc_sequence (load_chain ?c0) = pc_sequence c \<and>
      pc_last_hash (load_chain ?c0) = pc_last_hash c \<and> pc_consent_policy (load_chain ?c0) = default_consent_policy \<and>
      pc_dir (load_chain ?c0) = ?dir"
  proof (cases es rule: rev_cases)
    case Nil
    then show ?thesis using load len ok(1) by (simp add: log_ok_def)
  next
    case (snoc r e)
    have n: "?n = Suc (length r)" using len snoc by simp
    have "map ce_sequence es = map int [0..<?n]" using h ok(1) by (simp add: log_ok_def)
    then have "ce_sequence e = int ?n - 1" unfolding n snoc by simp
    moreover have "full_hash e = pc_last_hash c" using h ok(1) snoc by (simp add: log_ok_def full_hash_def)
    ultimately show ?thesis using load snoc ok(1) by (simp add: log_ok_def)
  qed
  with core ok(2) show ?thesis
    by (auto simp: personal_chain_init_def load_policy_def dir_ok_def Let_def split: if_splits option.splits json.splits)
qed

section \<open>Properties\<close>

text \<open>A chain that has started in an empty directory and is still numbered with eight digits.\<close>

definition grown_chain :: "personal_chain \<Rightarrow> bool" where
  "grown_chain c \<longleftrightarrow> length (pc_events c) < 10 ^ 8 \<and>
     (\<exists>user rt rt'. chain_step\<^sup>*\<^sup>* (personal_chain_init user [], rt) (c, rt'))"

lemma grown_chain_ok:
  assumes "grown_chain c"
  shows "chain_ok c"
proof -
  from assms obtain user rt rt' where run: "chain_step\<^sup>*\<^sup>* (personal_chain_init user [], rt) (c, rt')"
    and len: "length (pc_events c) < 10 ^ 8" by (auto simp: grown_chain_def)
  have "chain_ok (fst (personal_chain_init user [], rt))" by (simp add: chain_ok_def log_ok_init dir_ok_init)
  from chain_run_ok [OF run this] len show ?thesis by simp
qed

definition sample_chain :: "string \<Rightarrow> personal_chain" where
  "sample_chain memo = fst (snd (log_solana_anchor memo ''tx'' (personal_chain_init ''u'' []) sample_rt))"

text \<open>
  The personal chain is tamper evident: for two chains grown by any calls, of one length and with the
  same last hash, the hashed texts of their events agree at every position (identifier, type, time, data
  hash, privacy, consent token, number and link), or the chains exhibit two different texts with one
  SHA-256 digest.
\<close>

theorem personal_history_is_fixed:
  assumes "grown_chain c" and "grown_chain c'" and "length (pc_events c) = length (pc_events c')"
  shows "pc_last_hash c \<noteq> pc_last_hash c' \<or>
    map ce_payload (pc_events c) = map ce_payload (pc_events c') \<or> collide ce_payload (pc_events c) (pc_events c')"
  using pc.tip_determines [of genesis_hash "pc_events c" "pc_events c'"] assms
    grown_chain_ok [OF assms(1)] grown_chain_ok [OF assms(2)]
  by (auto simp: chain_ok_def log_ok_def)

text \<open>
  C16. The chain survives a restart: a chain created on the directory of a chain grown from an empty directory, with fewer than \<open>10^8\<close> events and a policy that
  does not read as an event itself, has the same number of events in the same order, equal in every field but the receipt and anchor references, which are set after an event is
  written and may be lost; it has the same numbering, last hash and consent policy, and passes the integrity check.
\<close>

theorem chain_survives_restart:
  assumes "grown_chain c" and "event_of_dict (pc_consent_policy c) = None"
  shows "let c' = personal_chain_init (pc_user_id c) (pc_dir c) in
    map core_event (pc_events c') = map core_event (pc_events c) \<and> pc_sequence c' = pc_sequence c \<and>
    pc_last_hash c' = pc_last_hash c \<and> pc_consent_policy c' = pc_consent_policy c \<and> verify_chain_integrity c'"
proof -
  let ?c = "personal_chain_init (pc_user_id c) (pc_dir c)"
  have ok: "chain_ok c" by (rule grown_chain_ok [OF assms(1)])
  have "length (pc_events c) \<le> 10 ^ 8" using assms(1) by (simp add: grown_chain_def)
  from reload_chain [OF ok this assms(2), of "pc_user_id c"]
  have r: "map core_event (pc_events ?c) = map core_event (pc_events c)" "pc_sequence ?c = pc_sequence c"
    "pc_last_hash ?c = pc_last_hash c" "pc_consent_policy ?c = pc_consent_policy c" by (simp_all add: Let_def)
  from linked_hashed [OF hashed_of_core [OF r(1)], of genesis_hash] ok
  have "verify_chain_integrity ?c" by (simp add: verify_chain_integrity_linked chain_ok_def log_ok_def)
  with r show ?thesis by (simp add: Let_def)
qed

text \<open>
  Consent before capture: without an override, an event of a type that needs consent is recorded only
  if the policy grants it; otherwise nothing at all changes. On a new chain prompts and uploads are
  refused and builds are not, and withdrawing the consent of a type refuses its events from then on.
\<close>

theorem consent_before_capture:
  "(has_consent ty c \<or> log_event ty data privacy metadata False c rt = (Inr None, c, rt)) \<and>
   (case consent_key ty of None \<Rightarrow> has_consent ty c
      | Some k \<Rightarrow> let c1 = update_consent_policy [(k, JBool False)] c in
          log_event ty data privacy metadata False c1 rt = (Inr None, c1, rt)) \<and>
   (let c0 = personal_chain_init user [] in \<not> has_consent PROMPT c0 \<and> \<not> has_consent UPLOAD c0 \<and>
      has_consent BUILD_SUCCESS c0)"
  by (auto simp: log_event_def has_consent_def update_consent_policy_def save_policy_def Let_def personal_chain_init_def
      load_policy_def load_chain_def json_files_def default_consent_policy_def dtruthy_def split: option.splits)

text \<open>
  Only public proofs are exported: every exported record stems from an event labelled public or
  anonymous and carries its hash, but neither the preview of its data nor its consent token.
\<close>

theorem exports_only_public:
  "list_all (\<lambda>d. (\<exists>e \<in> set (pc_events c). ce_privacy e \<in> {PUBLIC, ANONYMOUS} \<and> d = public_proof e \<and>
      dget d ''data_hash'' = Some (JStr (ce_data_hash e))) \<and>
    dget d ''data_preview'' = None \<and> dget d ''consent_token'' = None) (export_public_proofs c)"
  by (auto simp: export_public_proofs_def list_all_iff public_proof_def)

text \<open>
  The integrity check does not see the last event: replacing it by any event with the same link is
  accepted, and so is any change of the previews, metadata and attestations of the whole chain.
\<close>

theorem last_event_is_unprotected:
  assumes "verify_chain_integrity c" and "pc_events c = es @ [e]" and "ce_previous_hash e' = ce_previous_hash e"
    and "map hashed es' = map hashed es"
  shows "verify_chain_integrity (c\<lparr>pc_events := es' @ [e']\<rparr>)"
  using assms linked_hashed [OF assms(4), of genesis_hash] by (simp add: verify_chain_integrity_linked)

section \<open>Witnesses\<close>

lemma sample_chain_events:
  "\<exists>e. pc_events (sample_chain memo) = [e] \<and> ce_data_preview e = take 200 (data_text (JObj [(''memo'', JStr memo), (''tx'', JStr ''tx'')])) \<and>
     ce_previous_hash e = genesis_hash \<and> pc_consent_policy (sample_chain memo) = default_consent_policy"
  by (simp add: sample_chain_def log_solana_anchor_def log_event_def has_consent_def event_privacy_def time_time_def
      amend_last_def Let_def rtrunc_def make_event_def personal_chain_init_def load_policy_def load_chain_def json_files_def)

lemma sample_chain_grown: "grown_chain (sample_chain memo)"
proof -
  let ?c0 = "personal_chain_init ''u'' []"
  obtain r c rt where s1: "log_solana_anchor memo ''tx'' ?c0 sample_rt = (r, c, rt)" by (metis prod_cases3)
  have c: "sample_chain memo = c" using s1 by (simp add: sample_chain_def)
  from step_anchor [OF s1] have "chain_step\<^sup>*\<^sup>* (?c0, sample_rt) (c, rt)" by blast
  moreover have "length (pc_events c) < 10 ^ 8" using sample_chain_events [of memo] c by auto
  ultimately show ?thesis unfolding grown_chain_def c by blast
qed

theorem personal_history_is_fixed_witness:
  "let c = sample_chain ''a''; c' = sample_chain ''b'' in
   pc_events c \<noteq> pc_events c' \<and>
   (pc_last_hash c \<noteq> pc_last_hash c' \<or> map ce_payload (pc_events c) = map ce_payload (pc_events c') \<or>
    collide ce_payload (pc_events c) (pc_events c'))"
proof -
  obtain e where e: "pc_events (sample_chain ''a'') = [e]"
    "ce_data_preview e = take 200 (data_text (JObj [(''memo'', JStr ''a''), (''tx'', JStr ''tx'')]))"
    using sample_chain_events [of "''a''"] by blast
  obtain f where f: "pc_events (sample_chain ''b'') = [f]"
    "ce_data_preview f = take 200 (data_text (JObj [(''memo'', JStr ''b''), (''tx'', JStr ''tx'')]))"
    using sample_chain_events [of "''b''"] by blast
  have "take 200 (data_text (JObj [(''memo'', JStr ''a''), (''tx'', JStr ''tx'')])) \<noteq>
      take 200 (data_text (JObj [(''memo'', JStr ''b''), (''tx'', JStr ''tx'')]))" by code_simp
  then have "pc_events (sample_chain ''a'') \<noteq> pc_events (sample_chain ''b'')" using e f by auto
  moreover have "length (pc_events (sample_chain ''a'')) = length (pc_events (sample_chain ''b''))" using e f by simp
  ultimately show ?thesis unfolding Let_def
    using personal_history_is_fixed [OF sample_chain_grown sample_chain_grown, of "''a''" "''b''"] by blast
qed

theorem chain_survives_restart_witness:
  "let c = sample_chain ''a''; c' = personal_chain_init (pc_user_id c) (pc_dir c) in
    pc_events c \<noteq> [] \<and> map core_event (pc_events c') = map core_event (pc_events c) \<and> verify_chain_integrity c'"
proof -
  have "event_of_dict default_consent_policy = None" by (simp add: event_of_dict_def default_consent_policy_def)
  with chain_survives_restart [OF sample_chain_grown, of "''a''"] sample_chain_events [of "''a''"]
  show ?thesis by (auto simp: Let_def)
qed

theorem last_event_is_unprotected_witness:
  "\<exists>e e'. pc_events (sample_chain ''a'') = [e] \<and> ce_data_hash e' = ''forged'' \<and>
     verify_chain_integrity ((sample_chain ''a'')\<lparr>pc_events := [e']\<rparr>)"
proof -
  obtain e where e: "pc_events (sample_chain ''a'') = [e]" using sample_chain_events [of "''a''"] by blast
  have "verify_chain_integrity (sample_chain ''a'')"
    using grown_chain_ok [OF sample_chain_grown] by (simp add: verify_chain_integrity_linked chain_ok_def log_ok_def)
  from last_event_is_unprotected [OF this, of "[]" e "e\<lparr>ce_data_hash := ''forged''\<rparr>" "[]"] e
  show ?thesis by (intro exI [of _ e] exI [of _ "e\<lparr>ce_data_hash := ''forged''\<rparr>"]) simp
qed

end
