(* ===== verification/Job_Queue.thy ===== *)
theory Job_Queue
  imports Sdk_Base
begin

text \<open>
  \<open>membra_sdk/scheduler/job_queue.py\<close>: jobs split into independent tasks, claimed by workers, completed with
  a proof hash and verified by the coordinator; the queue is written to a file after every change.
\<close>

section \<open>Data\<close>

datatype task_status = PENDING | ASSIGNED | RUNNING | COMPLETED | FAILED | VERIFIED

fun task_status_value :: "task_status \<Rightarrow> string" where
  "task_status_value PENDING = ''pending''"
| "task_status_value ASSIGNED = ''assigned''"
| "task_status_value RUNNING = ''running''"
| "task_status_value COMPLETED = ''completed''"
| "task_status_value FAILED = ''failed''"
| "task_status_value VERIFIED = ''verified''"

definition task_status_of :: "string \<Rightarrow> task_status option" where
  "task_status_of s = find (\<lambda>st. task_status_value st = s) [PENDING, ASSIGNED, RUNNING, COMPLETED, FAILED, VERIFIED]"

record task_split =
  tk_task_id :: string
  tk_job_id :: string
  tk_task_type :: string
  tk_payload :: "json dict"
  tk_status :: task_status
  tk_assigned_worker :: "string option"
  tk_result :: "json dict option"
  tk_proof_hash :: "string option"
  tk_created_at :: pyfloat
  tk_started_at :: "pyfloat option"
  tk_completed_at :: "pyfloat option"
  tk_cost_estimate :: pyfloat

text \<open>An empty result is skipped.\<close>

definition compute_proof_hash :: "task_split \<Rightarrow> string" where
  "compute_proof_hash t = sha256_hex (tk_task_id t @ '':'' @ tk_task_type t @ '':'' @ dumps_sorted (JObj (tk_payload t))
     @ (case tk_result t of None \<Rightarrow> [] | Some r \<Rightarrow> if r = [] then [] else dumps_sorted (JObj r)))"

text \<open>An entry of \<open>job_results\<close>.\<close>

record task_report =
  rp_task_id :: string
  rp_worker :: string
  rp_proof_hash :: "string option"
  rp_result_preview :: string

record job_queue =
  jq_tasks :: "task_split dict"
  jq_job_results :: "task_report list dict"
  jq_file :: "json option"

section \<open>The file\<close>

definition task_to_dict :: "task_split \<Rightarrow> json dict" where
  "task_to_dict t = [
     (''task_id'', JStr (tk_task_id t)),
     (''job_id'', JStr (tk_job_id t)),
     (''task_type'', JStr (tk_task_type t)),
     (''payload'', JObj (tk_payload t)),
     (''status'', JStr (task_status_value (tk_status t))),
     (''assigned_worker'', jopt JStr (tk_assigned_worker t)),
     (''result'', jopt JObj (tk_result t)),
     (''proof_hash'', jopt JStr (tk_proof_hash t)),
     (''created_at'', JFloat (tk_created_at t)),
     (''started_at'', jopt JFloat (tk_started_at t)),
     (''completed_at'', jopt JFloat (tk_completed_at t)),
     (''cost_estimate'', JFloat (tk_cost_estimate t))]"

definition report_to_dict :: "task_report \<Rightarrow> json dict" where
  "report_to_dict r = [
     (''task_id'', JStr (rp_task_id r)),
     (''worker'', JStr (rp_worker r)),
     (''proof_hash'', jopt JStr (rp_proof_hash r)),
     (''result_preview'', JStr (rp_result_preview r))]"

definition queue_to_dict :: "job_queue \<Rightarrow> json dict" where
  "queue_to_dict q = [
     (''tasks'', JObj (map (\<lambda>(k, t). (k, JObj (task_to_dict t))) (jq_tasks q))),
     (''job_results'', JObj (map (\<lambda>(k, rs). (k, JList (map (\<lambda>r. JObj (report_to_dict r)) rs))) (jq_job_results q)))]"

definition jq_persist :: "job_queue \<Rightarrow> job_queue" where
  "jq_persist q = q\<lparr>jq_file := Some (JObj (queue_to_dict q))\<rparr>"

definition task_of_dict :: "json dict \<Rightarrow> task_split option" where
  "task_of_dict d = do {
     tid \<leftarrow> dget d ''task_id'' \<bind> as_str;
     jid \<leftarrow> dget d ''job_id'' \<bind> as_str;
     ty \<leftarrow> dget d ''task_type'' \<bind> as_str;
     payload \<leftarrow> dget d ''payload'' \<bind> as_obj;
     status \<leftarrow> as_str (dget_default d ''status'' (JStr ''pending'')) \<bind> task_status_of;
     worker \<leftarrow> unjopt as_str (dget_default d ''assigned_worker'' JNull);
     result \<leftarrow> unjopt as_obj (dget_default d ''result'' JNull);
     proof_hash \<leftarrow> unjopt as_str (dget_default d ''proof_hash'' JNull);
     created \<leftarrow> dget d ''created_at'' \<bind> as_float;
     started \<leftarrow> unjopt as_float (dget_default d ''started_at'' JNull);
     completed \<leftarrow> unjopt as_float (dget_default d ''completed_at'' JNull);
     cost \<leftarrow> as_float (dget_default d ''cost_estimate'' (JFloat (Fin 0)));
     Some \<lparr>tk_task_id = tid, tk_job_id = jid, tk_task_type = ty, tk_payload = payload, tk_status = status,
       tk_assigned_worker = worker, tk_result = result, tk_proof_hash = proof_hash, tk_created_at = created,
       tk_started_at = started, tk_completed_at = completed, tk_cost_estimate = cost\<rparr> }"

definition report_of_dict :: "json dict \<Rightarrow> task_report option" where
  "report_of_dict d = do {
     tid \<leftarrow> dget d ''task_id'' \<bind> as_str;
     worker \<leftarrow> dget d ''worker'' \<bind> as_str;
     proof_hash \<leftarrow> dget d ''proof_hash'' \<bind> unjopt as_str;
     preview \<leftarrow> dget d ''result_preview'' \<bind> as_str;
     Some \<lparr>rp_task_id = tid, rp_worker = worker, rp_proof_hash = proof_hash, rp_result_preview = preview\<rparr> }"

definition reports_of_json :: "json \<Rightarrow> task_report list option" where
  "reports_of_json v = do { xs \<leftarrow> as_list v; traverse (\<lambda>x. as_obj x \<bind> report_of_dict) xs }"

text \<open>\<open>_load\<close>: a task that cannot be read ends the loop with the tasks before it kept and no results.\<close>

fun load_tasks :: "json dict \<Rightarrow> task_split dict \<Rightarrow> bool \<times> task_split dict" where
  "load_tasks [] ts = (True, ts)"
| "load_tasks ((k, v) # d) ts =
     (case as_obj v \<bind> task_of_dict of None \<Rightarrow> (False, ts) | Some t \<Rightarrow> load_tasks d (dset k t ts))"

definition jq_load :: "json option \<Rightarrow> task_split dict \<times> task_report list dict" where
  "jq_load fl = (case fl \<bind> as_obj of None \<Rightarrow> ([], [])
     | Some d \<Rightarrow> (case as_obj (dget_default d ''tasks'' (JObj [])) of None \<Rightarrow> ([], [])
       | Some tasks \<Rightarrow> (let (ok, ts) = load_tasks tasks [] in
           if \<not> ok then (ts, [])
           else case as_obj (dget_default d ''job_results'' (JObj [])) of None \<Rightarrow> (ts, [])
             | Some rs \<Rightarrow> (case traverse (\<lambda>(k, v). map_option (Pair k) (reports_of_json v)) rs of
                 None \<Rightarrow> (ts, []) | Some results \<Rightarrow> (ts, results)))))"

definition job_queue_init :: "json option \<Rightarrow> job_queue" where
  "job_queue_init fl = (let (ts, rs) = jq_load fl in \<lparr>jq_tasks = ts, jq_job_results = rs, jq_file = fl\<rparr>)"

section \<open>Operations\<close>

definition estimate_cost :: "string \<Rightarrow> pyfloat" where
  "estimate_cost ty = dget_default [(''prompt'', Fin 2), (''file_analysis'', Fin 1), (''artifact_gen'', Fin 5),
     (''embedding'', mkf (1 / 2)), (''review'', Fin 3)] ty (Fin 1)"

definition new_task :: "string \<Rightarrow> nat \<Rightarrow> string \<Rightarrow> json dict \<Rightarrow> pyfloat \<Rightarrow> pyfloat \<Rightarrow> task_split" where
  "new_task jid i ty payload cost now =
     \<lparr>tk_task_id = jid @ ''-'' @ dec_nat i, tk_job_id = jid, tk_task_type = ty, tk_payload = payload,
      tk_status = PENDING, tk_assigned_worker = None, tk_result = None, tk_proof_hash = None,
      tk_created_at = now, tk_started_at = None, tk_completed_at = None, tk_cost_estimate = cost\<rparr>"

text \<open>One task per element, under the key \<open>item\<close> or \<open>file\<close>; the clock is read for each.\<close>

fun split_items :: "string \<Rightarrow> string \<Rightarrow> string \<Rightarrow> nat \<Rightarrow> nat \<Rightarrow> json list \<Rightarrow> runtime \<Rightarrow> task_split list \<times> runtime" where
  "split_items key jid ty n i [] rt = ([], rt)"
| "split_items key jid ty n i (item # items) rt =
     (let (now, rt) = time_time rt;
          t = new_task jid i ty [(key, item), (''index'', JInt (int i)), (''total'', JInt (int n))] (estimate_cost ty) now;
          (ts, rt) = split_items key jid ty n (Suc i) items rt
      in (t # ts, rt))"

definition split_by :: "string \<Rightarrow> string \<Rightarrow> string \<Rightarrow> json \<Rightarrow> runtime \<Rightarrow> task_split list result \<times> runtime" where
  "split_by key jid ty v rt = (case jiter v of Inl e \<Rightarrow> (Inl e, rt)
     | Inr items \<Rightarrow> let (ts, rt) = split_items key jid ty (length items) 0 items rt in (Inr ts, rt))"

text \<open>The tasks of a job; splitting by something that cannot be iterated over raises.\<close>

definition split_job :: "string \<Rightarrow> string \<Rightarrow> json dict \<Rightarrow> string \<Rightarrow> runtime \<Rightarrow> task_split list result \<times> runtime" where
  "split_job jid ty payload strategy rt =
     (case (if strategy = ''by_item'' then dget payload ''items'' else None) of
        Some items \<Rightarrow> split_by ''item'' jid ty items rt
      | None \<Rightarrow> (case (if strategy = ''by_file'' then dget payload ''files'' else None) of
          Some files \<Rightarrow> split_by ''file'' jid ty files rt
        | None \<Rightarrow> let (now, rt) = time_time rt in (Inr [new_task jid 0 ty payload (Fin 0) now], rt)))"

definition submit_job ::
  "string \<Rightarrow> json dict \<Rightarrow> string \<Rightarrow> job_queue \<Rightarrow> runtime \<Rightarrow> task_split list result \<times> job_queue \<times> runtime" where
  "submit_job ty payload strategy q rt =
     (let (u, rt) = uuid4_hex rt; jid = ''job-'' @ take 12 u;
          (r, rt) = split_job jid ty payload strategy rt
      in case r of Inl e \<Rightarrow> (Inl e, q, rt)
         | Inr tasks \<Rightarrow> let q = q\<lparr>jq_tasks := dset_all (map (\<lambda>t. (tk_task_id t, t)) tasks) (jq_tasks q)\<rparr>
             in (Inr tasks, jq_persist q, rt))"

text \<open>Storing a task that was changed in place.\<close>

definition put_task :: "string \<Rightarrow> task_split \<Rightarrow> job_queue \<Rightarrow> job_queue" where
  "put_task k t q = q\<lparr>jq_tasks := dset k t (jq_tasks q)\<rparr>"

definition claimable :: "string \<Rightarrow> task_split \<Rightarrow> bool" where
  "claimable capability t \<longleftrightarrow> tk_status t = PENDING \<and> (capability = [] \<or> tk_task_type t = capability)"

definition claim_task ::
  "string \<Rightarrow> string \<Rightarrow> job_queue \<Rightarrow> runtime \<Rightarrow> task_split option \<times> job_queue \<times> runtime" where
  "claim_task worker capability q rt =
     (case find (\<lambda>(k, t). claimable capability t) (jq_tasks q) of None \<Rightarrow> (None, q, rt)
      | Some (k, t) \<Rightarrow> let (now, rt) = time_time rt;
            t = t\<lparr>tk_status := ASSIGNED, tk_assigned_worker := Some worker, tk_started_at := Some now\<rparr>
          in (Some t, jq_persist (put_task k t q), rt))"

text \<open>
  The two halves of \<open>claim_task\<close>: the search for a pending task, up to the test of its status and type, and the assignment of the
  task that was found. No lock is held between them, so in a threaded server the halves of two calls can alternate.
\<close>

definition claim_search :: "string \<Rightarrow> job_queue \<Rightarrow> string option" where
  "claim_search capability q = map_option fst (find (\<lambda>(k, t). claimable capability t) (jq_tasks q))"

definition claim_take ::
  "string \<Rightarrow> string \<Rightarrow> job_queue \<Rightarrow> runtime \<Rightarrow> task_split option \<times> job_queue \<times> runtime" where
  "claim_take worker k q rt =
     (case dget (jq_tasks q) k of None \<Rightarrow> (None, q, rt)
      | Some t \<Rightarrow> let (now, rt) = time_time rt;
            t = t\<lparr>tk_status := ASSIGNED, tk_assigned_worker := Some worker, tk_started_at := Some now\<rparr>
          in (Some t, jq_persist (put_task k t q), rt))"

definition submit_result ::
  "string \<Rightarrow> string \<Rightarrow> json dict \<Rightarrow> job_queue \<Rightarrow> runtime \<Rightarrow> bool \<times> job_queue \<times> runtime" where
  "submit_result tid worker result q rt =
     (case dget (jq_tasks q) tid of None \<Rightarrow> (False, q, rt)
      | Some t \<Rightarrow> if tk_assigned_worker t \<noteq> Some worker then (False, q, rt)
          else let t = t\<lparr>tk_result := Some result\<rparr>;
                   t = t\<lparr>tk_proof_hash := Some (compute_proof_hash t), tk_status := COMPLETED\<rparr>;
                   (now, rt) = time_time rt;
                   t = t\<lparr>tk_completed_at := Some now\<rparr>;
                   r = \<lparr>rp_task_id = tid, rp_worker = worker, rp_proof_hash = tk_proof_hash t, rp_result_preview = take 200 (pyrepr (JObj result))\<rparr>;
                   q = put_task tid t q;
                   q = q\<lparr>jq_job_results := dappend (tk_job_id t) r (jq_job_results q)\<rparr>
               in (True, jq_persist q, rt))"

definition mark_verified :: "string \<Rightarrow> job_queue \<Rightarrow> bool \<times> job_queue" where
  "mark_verified tid q =
     (case dget (jq_tasks q) tid of None \<Rightarrow> (False, q)
      | Some t \<Rightarrow> if tk_status t \<noteq> COMPLETED then (False, q)
          else (True, jq_persist (put_task tid (t\<lparr>tk_status := VERIFIED\<rparr>) q)))"

record job_report =
  jr_total_tasks :: int
  jr_pending :: int
  jr_completed :: int
  jr_verified :: int
  jr_failed :: int
  jr_done :: bool
  jr_results :: "task_report list"

definition count_tasks :: "string \<Rightarrow> task_status \<Rightarrow> job_queue \<Rightarrow> int" where
  "count_tasks jid st q = int (length (filter (\<lambda>t. tk_job_id t = jid \<and> tk_status t = st) (dvalues (jq_tasks q))))"

definition get_job_status :: "string \<Rightarrow> job_queue \<Rightarrow> job_report" where
  "get_job_status jid q =
     (let total = int (length (filter (\<lambda>t. tk_job_id t = jid) (dvalues (jq_tasks q))));
          verified = count_tasks jid VERIFIED q
      in \<lparr>jr_total_tasks = total, jr_pending = count_tasks jid PENDING q, jr_completed = count_tasks jid COMPLETED q,
           jr_verified = verified, jr_failed = count_tasks jid FAILED q, jr_done = (verified = total \<and> total > 0),
           jr_results = dget_default (jq_job_results q) jid []\<rparr>)"

definition list_pending :: "job_queue \<Rightarrow> task_split list" where
  "list_pending q = filter (\<lambda>t. tk_status t = PENDING) (dvalues (jq_tasks q))"

definition list_completed :: "job_queue \<Rightarrow> task_split list" where
  "list_completed q = filter (\<lambda>t. tk_status t = COMPLETED) (dvalues (jq_tasks q))"

section \<open>The file holds the state\<close>

lemma task_of_to_dict [simp]: "task_of_dict (task_to_dict t) = Some t"
proof -
  have "task_status_of (task_status_value st) = Some st" for st
    by (cases st) (simp_all add: task_status_of_def)
  then show ?thesis by (simp add: task_of_dict_def task_to_dict_def dget_default_def)
qed

lemma report_of_to_dict [simp]: "report_of_dict (report_to_dict r) = Some r"
  by (simp add: report_of_dict_def report_to_dict_def)

lemma reports_of_written [simp]: "reports_of_json (JList (map (\<lambda>r. JObj (report_to_dict r)) rs)) = Some rs"
  by (simp add: reports_of_json_def)

lemma load_written_tasks:
  "load_tasks (map (\<lambda>(k, t). (k, JObj (task_to_dict t))) d) ts = (True, dset_all d ts)"
  by (induction d arbitrary: ts) (auto simp: case_prod_beta)

definition jq_ok :: "job_queue \<Rightarrow> bool" where
  "jq_ok q \<longleftrightarrow> distinct (dkeys (jq_tasks q)) \<and> job_queue_init (jq_file q) = q"

lemma jq_ok_persist:
  assumes "distinct (dkeys (jq_tasks q))"
  shows "jq_ok (jq_persist q)"
proof -
  have "dset_all (jq_tasks q) [] = jq_tasks q" using assms by (intro dset_all_prefix) auto
  moreover have "traverse (\<lambda>(k, v). map_option (Pair k) (reports_of_json v))
      (map (\<lambda>(k, rs). (k, JList (map (\<lambda>r. JObj (report_to_dict r)) rs))) d) = Some d" for d :: "task_report list dict"
    by (rule traverse_map) (simp add: case_prod_beta)
  ultimately show ?thesis
    using assms
    by (simp add: jq_ok_def jq_persist_def job_queue_init_def jq_load_def queue_to_dict_def load_written_tasks dget_default_def)
qed

lemma jq_ok_distinct: "jq_ok q \<Longrightarrow> distinct (dkeys (jq_tasks q))"
  by (simp add: jq_ok_def)

lemma jq_ok_init: "jq_ok (job_queue_init None)"
  by (simp add: jq_ok_def job_queue_init_def jq_load_def)

lemma jq_persist_simps [simp]:
  "jq_tasks (jq_persist q) = jq_tasks q" "jq_job_results (jq_persist q) = jq_job_results q"
  by (simp_all add: jq_persist_def)

lemma put_task_simps [simp]:
  "jq_tasks (put_task k t q) = dset k t (jq_tasks q)" "jq_job_results (put_task k t q) = jq_job_results q"
  by (simp_all add: put_task_def)

lemma distinct_dset_all [simp]: "distinct (dkeys (dset_all kvs d)) = distinct (dkeys d)"
proof (induction kvs arbitrary: d)
  case (Cons kv kvs)
  then show ?case by (cases kv) simp
qed simp

section \<open>One call\<close>

inductive queue_step :: "job_queue \<times> runtime \<Rightarrow> job_queue \<times> runtime \<Rightarrow> bool" where
  step_submit: "submit_job ty payload strategy q rt = (r, q', rt') \<Longrightarrow>
     (\<And>ts. r = Inr ts \<Longrightarrow> set (map tk_task_id ts) \<inter> set (dkeys (jq_tasks q)) = {}) \<Longrightarrow> queue_step (q, rt) (q', rt')"
| step_claim: "claim_task worker capability q rt = (t, q', rt') \<Longrightarrow> queue_step (q, rt) (q', rt')"
| step_result: "submit_result tid worker result q rt = (ok, q', rt') \<Longrightarrow> queue_step (q, rt) (q', rt')"
| step_verify: "mark_verified tid q = (ok, q') \<Longrightarrow> queue_step (q, rt) (q', rt)"

lemma find_claimable:
  assumes "find (\<lambda>(k, t). claimable capability t) d = Some (k, t)"
  shows "(k, t) \<in> set d \<and> claimable capability t"
  using assms by (auto simp: find_Some_iff) (metis nth_mem)

lemma claim_task_halves:
  assumes "distinct (dkeys (jq_tasks q))"
  shows "claim_task worker capability q rt = (case claim_search capability q of None \<Rightarrow> (None, q, rt) | Some k \<Rightarrow> claim_take worker k q rt)"
proof (cases "find (\<lambda>(k, t). claimable capability t) (jq_tasks q)")
  case (Some p)
  obtain k t where p: "p = (k, t)" by (cases p)
  from find_claimable [OF Some [unfolded p]] have "dget (jq_tasks q) k = Some t" using assms by simp
  with Some p show ?thesis by (simp add: claim_task_def claim_search_def claim_take_def)
qed (simp add: claim_task_def claim_search_def)

lemma claim_search_pending:
  assumes "claim_search capability q = Some k" and "distinct (dkeys (jq_tasks q))"
  shows "\<exists>t. dget (jq_tasks q) k = Some t \<and> claimable capability t"
proof -
  obtain t where "find (\<lambda>(k, t). claimable capability t) (jq_tasks q) = Some (k, t)"
    using assms(1) by (auto simp: claim_search_def)
  from find_claimable [OF this] assms(2) show ?thesis by auto
qed

text \<open>The tasks of a new job.\<close>

definition fresh_task :: "task_split \<Rightarrow> bool" where
  "fresh_task t \<longleftrightarrow> tk_status t = PENDING \<and> tk_assigned_worker t = None \<and> tk_result t = None \<and> tk_proof_hash t = None"

lemma new_task_fresh: "fresh_task (new_task jid i ty payload cost now)"
  by (simp add: fresh_task_def new_task_def)

lemma split_items_fresh: "list_all fresh_task (fst (split_items key jid ty n i items rt))"
  by (induction items arbitrary: i rt) (simp_all add: case_prod_beta Let_def new_task_fresh)

lemma submit_job_cases:
  obtains (raised) e rt' where "submit_job ty payload strategy q rt = (Inl e, q, rt')"
  | (split) ts rt' where "list_all fresh_task ts"
      and "submit_job ty payload strategy q rt = (Inr ts,
        jq_persist (q\<lparr>jq_tasks := dset_all (map (\<lambda>t. (tk_task_id t, t)) ts) (jq_tasks q)\<rparr>), rt')"
proof -
  let ?jid = "''job-'' @ take 12 (rt_uuid rt)" and ?rt = "snd (uuid4_hex rt)"
  obtain r rt' where r: "split_job ?jid ty payload strategy ?rt = (r, rt')" by (cases "split_job ?jid ty payload strategy ?rt")
  show ?thesis
  proof (cases r)
    case (Inl e)
    with r show ?thesis by (intro raised [of e rt']) (simp add: submit_job_def uuid4_hex_def)
  next
    case (Inr ts)
    have "list_all fresh_task ts"
      using r Inr split_items_fresh
      by (auto simp: split_job_def split_by_def time_time_def Let_def case_prod_beta new_task_fresh
          split: option.splits sum.splits)
    then show ?thesis
      by (rule split [of ts rt']) (use r Inr in \<open>simp add: submit_job_def uuid4_hex_def\<close>)
  qed
qed

lemma queue_step_file: "queue_step s s' \<Longrightarrow> jq_ok (fst s) \<Longrightarrow> jq_ok (fst s')"
proof (induction rule: queue_step.induct)
  case (step_submit ty payload strategy q rt r q' rt')
  show ?case
  proof (cases rule: submit_job_cases [of ty payload strategy q rt])
    case (split ts rt'')
    with step_submit have "q' = jq_persist (q\<lparr>jq_tasks := dset_all (map (\<lambda>t. (tk_task_id t, t)) ts) (jq_tasks q)\<rparr>)"
      by simp
    with step_submit.prems show ?thesis by (simp add: jq_ok_def [of q] jq_ok_persist)
  qed (use step_submit in simp)
next
  case (step_claim worker capability q rt t q' rt')
  then show ?case
    by (auto simp: claim_task_def Let_def case_prod_beta split: option.splits intro!: jq_ok_persist dest: jq_ok_distinct)
next
  case (step_result tid worker result q rt ok q' rt')
  then show ?case
    by (auto simp: submit_result_def Let_def case_prod_beta split: option.splits if_splits
        intro!: jq_ok_persist dest: jq_ok_distinct)
next
  case (step_verify tid q ok q' rt)
  then show ?case
    by (auto simp: mark_verified_def split: option.splits if_splits intro!: jq_ok_persist dest: jq_ok_distinct)
qed

text \<open>A sound task: pending without a worker, and completed with the hash of its own content.\<close>

definition task_ok :: "task_split \<Rightarrow> bool" where
  "task_ok t \<longleftrightarrow> tk_status t \<in> {PENDING, ASSIGNED, COMPLETED, VERIFIED} \<and>
     (tk_status t = PENDING \<longleftrightarrow> tk_assigned_worker t = None) \<and>
     (tk_status t \<in> {COMPLETED, VERIFIED} \<longrightarrow> tk_result t \<noteq> None \<and> tk_proof_hash t = Some (compute_proof_hash t))"

definition tasks_ok :: "job_queue \<Rightarrow> bool" where
  "tasks_ok q \<longleftrightarrow> distinct (dkeys (jq_tasks q)) \<and>
     (\<forall>k t. dget (jq_tasks q) k = Some t \<longrightarrow> tk_task_id t = k \<and> task_ok t)"

text \<open>How one call changes a task.\<close>

inductive task_move :: "task_split \<Rightarrow> task_split \<Rightarrow> bool" where
  move_claim: "tk_status t = PENDING \<Longrightarrow>
     task_move t (t\<lparr>tk_status := ASSIGNED, tk_assigned_worker := Some worker, tk_started_at := Some now\<rparr>)"
| move_result: "tk_assigned_worker t = Some worker \<Longrightarrow> t' = t\<lparr>tk_result := Some result\<rparr> \<Longrightarrow>
     task_move t (t'\<lparr>tk_proof_hash := Some (compute_proof_hash t'), tk_status := COMPLETED, tk_completed_at := Some now\<rparr>)"
| move_verify: "tk_status t = COMPLETED \<Longrightarrow> task_move t (t\<lparr>tk_status := VERIFIED\<rparr>)"

lemma queue_step_task:
  assumes "queue_step s s'" and "tasks_ok (fst s)" and "dget (jq_tasks (fst s)) k = Some t"
  shows "\<exists>t'. dget (jq_tasks (fst s')) k = Some t' \<and> (t' = t \<or> task_move t t')"
  using assms
proof (cases rule: queue_step.cases)
  case (step_submit ty payload strategy q rt r q' rt')
  have keep: "dget (dset_all kvs d) k = dget d k" if "k \<notin> set (dkeys kvs)" for kvs :: "task_split dict" and d
    using that by (induction kvs arbitrary: d) auto
  show ?thesis
  proof (cases rule: submit_job_cases [of ty payload strategy q rt])
    case (split ts rt'')
    then have "r = Inr ts" and q': "jq_tasks q' = dset_all (map (\<lambda>t. (tk_task_id t, t)) ts) (jq_tasks q)"
      using step_submit(3) by auto
    from this(1) step_submit(4) have "set (map tk_task_id ts) \<inter> set (dkeys (jq_tasks q)) = {}" by blast
    moreover have "k \<in> set (dkeys (jq_tasks q))" 
      using assms(3) step_submit(1) dget_Some_key [of "jq_tasks q" k t] by simp
    ultimately have "k \<notin> set (dkeys (map (\<lambda>t. (tk_task_id t, t)) ts))" by (auto simp: comp_def)
    from keep [OF this] have "dget (jq_tasks q') k = dget (jq_tasks q) k" unfolding q' .
    with step_submit(1,2) assms(3) show ?thesis by simp
  qed (use step_submit assms(3) in auto)
next
  case (step_claim worker capability q rt r q' rt')
  show ?thesis
  proof (cases "find (\<lambda>(k, t). claimable capability t) (jq_tasks q)")
    case (Some p)
    then obtain k' t' where p: "p = (k', t')" by (cases p)
    have t': "dget (jq_tasks q) k' = Some t'" "tk_status t' = PENDING"
      using find_claimable [OF Some [unfolded p]] assms(2) step_claim by (auto simp: tasks_ok_def claimable_def)
    then show ?thesis
      using step_claim Some p assms(3) move_claim [OF t'(2)]
      by (auto simp: claim_task_def time_time_def Let_def)
  qed (use step_claim assms(3) in \<open>auto simp: claim_task_def\<close>)
next
  case (step_result tid worker result q rt ok q' rt')
  then show ?thesis
    using assms(3) move_result [of t worker "t\<lparr>tk_result := Some result\<rparr>" result "rt_now rt"]
    by (auto simp: submit_result_def time_time_def Let_def split: option.splits if_splits)
next
  case (step_verify tid q ok q' rt)
  then show ?thesis
    using assms(3) move_verify [of t]
    by (auto simp: mark_verified_def split: option.splits if_splits)
qed

lemma task_move_ok:
  assumes "task_move t t'" and "task_ok t"
  shows "task_ok t' \<and> tk_task_id t' = tk_task_id t"
  using assms by (induction rule: task_move.induct) (auto simp: task_ok_def compute_proof_hash_def)

lemma fresh_task_ok: "fresh_task t \<Longrightarrow> task_ok t"
  by (simp add: fresh_task_def task_ok_def)

lemma dget_dset_all_Some:
  "dget (dset_all kvs d) k = Some v \<Longrightarrow> (k, v) \<in> set kvs \<or> dget d k = Some v"
proof (induction kvs arbitrary: d)
  case (Cons kv kvs)
  then show ?case by (cases kv) (fastforce split: if_splits)
qed simp

text \<open>A task that is new after a step was just submitted.\<close>

lemma queue_step_new:
  assumes "queue_step s s'" and "dget (jq_tasks (fst s')) k = Some t" and "dget (jq_tasks (fst s)) k = None" and "tasks_ok (fst s)"
  shows "fresh_task t \<and> tk_task_id t = k"
  using assms
proof (cases rule: queue_step.cases)
  case (step_submit ty payload strategy q rt r q' rt')
  show ?thesis
  proof (cases rule: submit_job_cases [of ty payload strategy q rt])
    case (split ts rt'')
    then have "jq_tasks q' = dset_all (map (\<lambda>t. (tk_task_id t, t)) ts) (jq_tasks q)" using step_submit(3) by auto
    with dget_dset_all_Some [of "map (\<lambda>t. (tk_task_id t, t)) ts" "jq_tasks q" k t] assms(2,3) step_submit(1,2)
    have "t \<in> set ts \<and> tk_task_id t = k" by auto
    with split(1) show ?thesis by (auto simp: list_all_iff)
  qed (use step_submit assms in auto)
next
  case (step_claim worker capability q rt r q' rt')
  have "dget (jq_tasks q) k' = Some t'" if "find (\<lambda>(k, t). claimable capability t) (jq_tasks q) = Some (k', t')" for k' t'
    using find_claimable [OF that] assms(4) step_claim by (auto simp: tasks_ok_def)
  with step_claim assms(2,3) show ?thesis
    by (auto simp: claim_task_def time_time_def Let_def split: option.splits if_splits)
next
  case (step_result tid worker result q rt ok q' rt')
  with assms(2,3) show ?thesis
    by (auto simp: submit_result_def time_time_def Let_def split: option.splits if_splits)
next
  case (step_verify tid q ok q' rt)
  with assms(2,3) show ?thesis by (auto simp: mark_verified_def split: option.splits if_splits)
qed

lemma queue_step_distinct: "queue_step s s' \<Longrightarrow> distinct (dkeys (jq_tasks (fst s))) \<Longrightarrow> distinct (dkeys (jq_tasks (fst s')))"
proof (induction rule: queue_step.induct)
  case (step_submit ty payload strategy q rt r q' rt')
  show ?case
    by (cases rule: submit_job_cases [of ty payload strategy q rt]) (use step_submit in auto)
qed (auto simp: claim_task_def submit_result_def mark_verified_def Let_def case_prod_beta split: option.splits if_splits)

lemma queue_step_ok:
  assumes "queue_step s s'" and "tasks_ok (fst s)"
  shows "tasks_ok (fst s')"
proof -
  have "tk_task_id t' = k \<and> task_ok t'" if t': "dget (jq_tasks (fst s')) k = Some t'" for k t'
  proof (cases "dget (jq_tasks (fst s)) k")
    case None
    from queue_step_new [OF assms(1) t' this assms(2)] show ?thesis by (simp add: fresh_task_ok)
  next
    case (Some t)
    with assms(2) have "tk_task_id t = k" "task_ok t" by (auto simp: tasks_ok_def)
    with queue_step_task [OF assms Some] t' task_move_ok show ?thesis by auto
  qed
  then show ?thesis using queue_step_distinct [OF assms(1)] assms(2) by (auto simp: tasks_ok_def)
qed

interpretation queue_calls: component_invariant queue_step tasks_ok
  by unfold_locales (rule queue_step_ok)

lemma queue_run_ok: "queue_step\<^sup>*\<^sup>* s s' \<Longrightarrow> tasks_ok (fst s) \<Longrightarrow> tasks_ok (fst s')"
  by (rule queue_calls.run_ok)

lemma tasks_ok_init: "tasks_ok (job_queue_init None)"
  by (simp add: tasks_ok_def job_queue_init_def jq_load_def)

text \<open>The stages of a task, as a life cycle of the sound queues.\<close>

definition task_edge :: "task_status \<Rightarrow> task_status \<Rightarrow> bool" where
  "task_edge a b \<longleftrightarrow> (a, b) \<in> {(PENDING, ASSIGNED), (ASSIGNED, COMPLETED), (COMPLETED, VERIFIED), (VERIFIED, COMPLETED)}"

lemma task_move_edge: "task_move t t' \<Longrightarrow> task_ok t \<Longrightarrow> tk_status t' = tk_status t \<or> task_edge (tk_status t) (tk_status t')"
  by (induction rule: task_move.induct) (auto simp: task_edge_def task_ok_def)

interpretation task: lifecycle "\<lambda>s k. map_option tk_status (dget (jq_tasks (fst s)) k)"
    "\<lambda>s s'. queue_step s s' \<and> tasks_ok (fst s)" task_edge
proof
  fix s t :: "job_queue \<times> runtime" and k a
  assume st: "queue_step s t \<and> tasks_ok (fst s)" and "map_option tk_status (dget (jq_tasks (fst s)) k) = Some a"
  then obtain u where u: "dget (jq_tasks (fst s)) k = Some u" "tk_status u = a" by auto
  with st have "task_ok u" by (auto simp: tasks_ok_def)
  with queue_step_task [of s t k u] st u task_move_edge
  show "\<exists>b. map_option tk_status (dget (jq_tasks (fst t)) k) = Some b \<and> (b = a \<or> task_edge a b)" by fastforce
qed

lemma guarded_run: "queue_step\<^sup>*\<^sup>* s s' \<Longrightarrow> tasks_ok (fst s) \<Longrightarrow> (\<lambda>s s'. queue_step s s' \<and> tasks_ok (fst s))\<^sup>*\<^sup>* s s'"
proof (induction rule: rtranclp_induct)
  case (step t u)
  then have "tasks_ok (fst t)" using queue_run_ok by blast
  with step show ?case by (simp add: rtranclp.rtrancl_into_rtrancl)
qed simp

section \<open>Properties\<close>

text \<open>
  C19. A task is given to one worker only and its proof is its own: through any run of the queue from an
  empty one, a task that has been assigned keeps its worker, and every completed or verified task
  carries a result and the SHA-256 hash of its identifier, type, payload and that result.
\<close>

theorem claimed_task_keeps_worker:
  assumes "queue_step\<^sup>*\<^sup>* (job_queue_init None, rt0) (q, rt)" and "queue_step\<^sup>*\<^sup>* (q, rt) (q', rt')"
    and "dget (jq_tasks q) tid = Some t" and "tk_assigned_worker t = Some w"
  shows "\<exists>t'. dget (jq_tasks q') tid = Some t' \<and> tk_assigned_worker t' = Some w \<and>
    (tk_status t' \<in> {COMPLETED, VERIFIED} \<longrightarrow> tk_proof_hash t' = Some (compute_proof_hash t') \<and> tk_result t' \<noteq> None)"
proof -
  have ok: "tasks_ok q" using queue_run_ok [OF assms(1)] tasks_ok_init by simp
  have "\<exists>t'. dget (jq_tasks (fst s)) tid = Some t' \<and> tk_assigned_worker t' = Some w \<and> tasks_ok (fst s)"
    if "queue_step\<^sup>*\<^sup>* (q, rt) s" for s
    using that
  proof (induction rule: rtranclp_induct)
    case base
    with assms(3,4) ok show ?case by simp
  next
    case (step u v)
    then obtain t' where t': "dget (jq_tasks (fst u)) tid = Some t'" "tk_assigned_worker t' = Some w" "tasks_ok (fst u)"
      by blast
    then have "task_ok t'" by (auto simp: tasks_ok_def)
    then have "\<And>t''. task_move t' t'' \<Longrightarrow> tk_assigned_worker t'' = Some w"
      using t'(2) by (auto simp: task_ok_def elim: task_move.cases)
    with queue_step_task [OF step(2) t'(3,1)] queue_step_ok [OF step(2) t'(3)] t'(2) show ?case by blast
  qed
  from this [OF assms(2)] obtain t' where "dget (jq_tasks q') tid = Some t'" "tk_assigned_worker t' = Some w" "tasks_ok q'"
    by auto
  moreover from this have "task_ok t'" by (auto simp: tasks_ok_def)
  ultimately show ?thesis by (auto simp: task_ok_def)
qed

text \<open>
  The queue survives a restart: after any run from an empty file, a queue created on the file has the
  same tasks, statuses, results, proof hashes and reports.
\<close>

theorem queue_survives_restart:
  assumes "queue_step\<^sup>*\<^sup>* (job_queue_init None, rt) (q, rt')"
  shows "job_queue_init (jq_file q) = q"
proof -
  have "jq_ok (fst s)" if "queue_step\<^sup>*\<^sup>* (job_queue_init None, rt) s" for s
    using that by (induction rule: rtranclp_induct) (auto simp: jq_ok_init intro: queue_step_file)
  from this [OF assms] show ?thesis by (simp add: jq_ok_def)
qed

text \<open>
  A verified result can still be replaced: the worker of a verified task may submit another result,
  which is accepted, takes the verification back and is reported a second time.
\<close>

theorem verified_task_can_be_replaced:
  assumes "dget (jq_tasks q) tid = Some t" and "tk_status t = VERIFIED" and "tk_assigned_worker t = Some w"
  shows "\<exists>q' rt' t'. submit_result tid w result q rt = (True, q', rt') \<and> dget (jq_tasks q') tid = Some t' \<and>
    tk_status t' = COMPLETED \<and> tk_result t' = Some result \<and>
    length (dget_default (jq_job_results q') (tk_job_id t) []) = Suc (length (dget_default (jq_job_results q) (tk_job_id t) []))"
  using assms by (simp add: submit_result_def time_time_def Let_def dappend_def)

section \<open>Witnesses\<close>

definition sample_queue :: "job_queue \<times> runtime" where
  "sample_queue = (let (r, q, rt) = submit_job ''prompt'' [] ''single'' (job_queue_init None) sample_rt;
     (t, q, rt) = claim_task ''w'' [] q rt in (q, rt))"

lemma sample_queue_task:
  "map_option (\<lambda>t. (tk_assigned_worker t, tk_status t)) (dget (jq_tasks (fst sample_queue)) ''job-id0-0'') = Some (Some ''w'', ASSIGNED)"
  by code_simp

lemma sample_queue_run: "queue_step\<^sup>*\<^sup>* (job_queue_init None, sample_rt) (fst sample_queue, snd sample_queue)"
proof -
  obtain r q1 rt1 where s1: "submit_job ''prompt'' [] ''single'' (job_queue_init None) sample_rt = (r, q1, rt1)"
    by (metis prod_cases3)
  obtain t q2 rt2 where s2: "claim_task ''w'' [] q1 rt1 = (t, q2, rt2)" by (metis prod_cases3)
  have "queue_step (job_queue_init None, sample_rt) (q1, rt1)"
    by (rule step_submit [OF s1]) (simp add: job_queue_init_def jq_load_def)
  moreover have "queue_step (q1, rt1) (q2, rt2)" by (rule step_claim [OF s2])
  moreover have "sample_queue = (q2, rt2)" using s1 s2 by (simp add: sample_queue_def)
  ultimately show ?thesis by (simp add: rtranclp.rtrancl_into_rtrancl r_into_rtranclp)
qed

theorem claimed_task_keeps_worker_witness:
  "let (ok, q, rt) = submit_result ''job-id0-0'' ''w'' [(''status'', JStr ''success'')] (fst sample_queue) (snd sample_queue)
   in \<exists>t'. dget (jq_tasks q) ''job-id0-0'' = Some t' \<and> tk_assigned_worker t' = Some ''w'' \<and>
     (tk_status t' \<in> {COMPLETED, VERIFIED} \<longrightarrow> tk_proof_hash t' = Some (compute_proof_hash t') \<and> tk_result t' \<noteq> None)"
proof -
  from sample_queue_task obtain t where t: "dget (jq_tasks (fst sample_queue)) ''job-id0-0'' = Some t"
    "tk_assigned_worker t = Some ''w''" by auto
  obtain ok q rt where s: "submit_result ''job-id0-0'' ''w'' [(''status'', JStr ''success'')] (fst sample_queue) (snd sample_queue) = (ok, q, rt)"
    by (metis prod_cases3)
  from step_result [OF s] have "queue_step\<^sup>*\<^sup>* (fst sample_queue, snd sample_queue) (q, rt)" by blast
  from claimed_task_keeps_worker [OF sample_queue_run this t] s show ?thesis by simp
qed

theorem queue_survives_restart_witness:
  "jq_tasks (fst sample_queue) \<noteq> [] \<and> job_queue_init (jq_file (fst sample_queue)) = fst sample_queue"
  using queue_survives_restart [OF sample_queue_run] sample_queue_task by auto

theorem verified_task_can_be_replaced_witness:
  "let (r, q1, rt1) = submit_result ''job-id0-0'' ''w'' [(''n'', JInt 1)] (fst sample_queue) (snd sample_queue);
       q2 = snd (mark_verified ''job-id0-0'' q1)
   in \<exists>q' rt' t'. submit_result ''job-id0-0'' ''w'' [(''n'', JInt 2)] q2 rt1 = (True, q', rt') \<and>
     dget (jq_tasks q') ''job-id0-0'' = Some t' \<and> tk_status t' = COMPLETED"
proof -
  from sample_queue_task obtain t where t: "dget (jq_tasks (fst sample_queue)) ''job-id0-0'' = Some t"
    "tk_assigned_worker t = Some ''w''" by auto
  obtain r q1 rt1 where s: "submit_result ''job-id0-0'' ''w'' [(''n'', JInt 1)] (fst sample_queue) (snd sample_queue) = (r, q1, rt1)"
    by (metis prod_cases3)
  let ?q2 = "snd (mark_verified ''job-id0-0'' q1)"
  have "\<exists>u. dget (jq_tasks ?q2) ''job-id0-0'' = Some u \<and> tk_status u = VERIFIED \<and> tk_assigned_worker u = Some ''w''"
    using s t by (auto simp: submit_result_def mark_verified_def time_time_def Let_def)
  then obtain u where u: "dget (jq_tasks ?q2) ''job-id0-0'' = Some u" "tk_status u = VERIFIED" "tk_assigned_worker u = Some ''w''"
    by blast
  from verified_task_can_be_replaced [OF u, of "[(''n'', JInt 2)]" rt1] s show ?thesis by (auto simp: Let_def)
qed

end
