(* ===== verification/PyNum.thy ===== *)
theory PyNum
  imports Sdk_Base
begin

text \<open>
  Numbers as they occur in JSON values, where integers, floats and truth values mix: arithmetic and
  comparison as Python has them, and the text functions \<open>lower\<close>, \<open>in\<close>, \<open>split\<close> and \<open>strip\<close> the modules of
  \<open>membra_sdk\<close> use. Strings are sequences of characters below 256; \<open>lower\<close> maps the letters of Latin-1.
\<close>

section \<open>Results\<close>

definition rbind :: "'a result \<Rightarrow> ('a \<Rightarrow> 'b result) \<Rightarrow> 'b result" where
  "rbind r f = (case r of Inl x \<Rightarrow> Inl x | Inr y \<Rightarrow> f y)"

lemma rbind_simps [simp]: "rbind (Inl x) f = Inl x" "rbind (Inr y) f = f y"
  by (simp_all add: rbind_def)

text \<open>A comprehension and a filter whose expression may raise.\<close>

fun rmap :: "('a \<Rightarrow> 'b result) \<Rightarrow> 'a list \<Rightarrow> 'b list result" where
  "rmap f [] = Inr []"
| "rmap f (x # xs) = rbind (f x) (\<lambda>y. rbind (rmap f xs) (\<lambda>ys. Inr (y # ys)))"

fun rfilter :: "('a \<Rightarrow> bool result) \<Rightarrow> 'a list \<Rightarrow> 'a list result" where
  "rfilter p [] = Inr []"
| "rfilter p (x # xs) = rbind (p x) (\<lambda>c. rbind (rfilter p xs) (\<lambda>ys. Inr (if c then x # ys else ys)))"

lemma rmap_total [simp]: "(\<And>x. x \<in> set xs \<Longrightarrow> f x = Inr (g x)) \<Longrightarrow> rmap f xs = Inr (map g xs)"
  by (induction xs) simp_all

lemma rfilter_total [simp]: "(\<And>x. x \<in> set xs \<Longrightarrow> p x = Inr (q x)) \<Longrightarrow> rfilter p xs = Inr (filter q xs)"
  by (induction xs) simp_all

section \<open>Numbers\<close>

text \<open>A truth value counts as 0 or 1; other values are no numbers.\<close>

fun num_of :: "json \<Rightarrow> json result" where
  "num_of (JBool b) = Inr (JInt (of_bool b))"
| "num_of (JInt n) = Inr (JInt n)"
| "num_of (JFloat x) = Inr (JFloat x)"
| "num_of _ = Inl TypeError"

text \<open>\<open>float(x)\<close> of a number.\<close>

fun num_float :: "json \<Rightarrow> pyfloat result" where
  "num_float (JInt n) = of_pyint n"
| "num_float (JFloat x) = Inr x"
| "num_float _ = Inl TypeError"

text \<open>An operation on two numbers: on integers if both are, otherwise on floats.\<close>

definition num_op :: "(int \<Rightarrow> int \<Rightarrow> int) \<Rightarrow> (pyfloat \<Rightarrow> pyfloat \<Rightarrow> pyfloat) \<Rightarrow> json \<Rightarrow> json \<Rightarrow> json result" where
  "num_op f g a b = rbind (num_of a) (\<lambda>a. rbind (num_of b) (\<lambda>b.
     case (a, b) of (JInt m, JInt n) \<Rightarrow> Inr (JInt (f m n))
     | _ \<Rightarrow> rbind (num_float a) (\<lambda>x. rbind (num_float b) (\<lambda>y. Inr (JFloat (g x y))))))"

definition num_add :: "json \<Rightarrow> json \<Rightarrow> json result" where "num_add = num_op (+) fadd"

definition num_sub :: "json \<Rightarrow> json \<Rightarrow> json result" where "num_sub = num_op (-) fsub"

definition num_mul :: "json \<Rightarrow> json \<Rightarrow> json result" where "num_mul = num_op (*) fmul"

text \<open>\<open>a / b\<close>.\<close>

definition num_div :: "json \<Rightarrow> json \<Rightarrow> json result" where
  "num_div a b = rbind (num_of a) (\<lambda>a. rbind (num_of b) (\<lambda>b.
     case (a, b) of (JInt m, JInt n) \<Rightarrow> rbind (truediv m n) (\<lambda>q. Inr (JFloat q))
     | _ \<Rightarrow> rbind (num_float a) (\<lambda>x. rbind (num_float b) (\<lambda>y. rbind (fdiv x y) (\<lambda>q. Inr (JFloat q))))))"

text \<open>Comparison of an integer with a float is exact: the integer is not rounded first.\<close>

fun num_key :: "json \<Rightarrow> pyfloat" where
  "num_key (JInt n) = Fin (of_int n)"
| "num_key (JFloat x) = x"
| "num_key _ = NaN"

definition num_lt :: "json \<Rightarrow> json \<Rightarrow> bool result" where
  "num_lt a b = rbind (num_of a) (\<lambda>a. rbind (num_of b) (\<lambda>b. Inr (flt (num_key a) (num_key b))))"

definition num_le :: "json \<Rightarrow> json \<Rightarrow> bool result" where
  "num_le a b = rbind (num_of a) (\<lambda>a. rbind (num_of b) (\<lambda>b. Inr (fle (num_key a) (num_key b))))"

text \<open>\<open>min(a, b)\<close> and \<open>max(a, b)\<close> keep the first argument unless the second is better.\<close>

definition num_min :: "json \<Rightarrow> json \<Rightarrow> json result" where
  "num_min a b = rbind (num_lt b a) (\<lambda>c. Inr (if c then b else a))"

definition num_max :: "json \<Rightarrow> json \<Rightarrow> json result" where
  "num_max a b = rbind (num_lt a b) (\<lambda>c. Inr (if c then b else a))"

text \<open>\<open>round(x, n)\<close> with \<open>n\<close> positive leaves an integer alone.\<close>

definition num_round :: "json \<Rightarrow> nat \<Rightarrow> json result" where
  "num_round a n = rbind (num_of a) (\<lambda>a. case a of JFloat x \<Rightarrow> Inr (JFloat (fround x n)) | _ \<Rightarrow> Inr a)"

text \<open>\<open>sum(xs)\<close>, from left to right starting with the integer 0.\<close>

fun num_sum :: "json \<Rightarrow> json list \<Rightarrow> json result" where
  "num_sum acc [] = Inr acc"
| "num_sum acc (x # xs) = rbind (num_add acc x) (\<lambda>acc. num_sum acc xs)"

lemma num_simps [simp]:
  "num_add (JInt a) (JInt b) = Inr (JInt (a + b))" "num_sub (JInt a) (JInt b) = Inr (JInt (a - b))"
  "num_mul (JInt a) (JInt b) = Inr (JInt (a * b))" "num_add (JFloat x) (JFloat y) = Inr (JFloat (fadd x y))"
  "num_sub (JFloat x) (JFloat y) = Inr (JFloat (fsub x y))" "num_mul (JFloat x) (JFloat y) = Inr (JFloat (fmul x y))"
  "num_lt (JInt a) (JInt b) = Inr (a < b)" "num_lt (JFloat x) (JFloat y) = Inr (flt x y)"
  "num_le (JInt a) (JInt b) = Inr (a \<le> b)" "num_le (JFloat x) (JFloat y) = Inr (fle x y)"
  by (simp_all add: num_add_def num_sub_def num_mul_def num_op_def num_lt_def num_le_def)

text \<open>
  A rounded quotient compares with a rounded fraction exactly as the exact quotient does, as long as
  the product of the denominators stays below \<open>2 ^ 51\<close>.
\<close>

lemma rnd_quotient_le_iff:
  assumes "0 \<le> a" "a \<le> b" "0 < b" and "0 \<le> p" "p \<le> q" "0 < q" and small: "b * q < 2 ^ 51"
  shows "rnd (of_int p / of_int q) \<le> rnd (of_int a / of_int b) \<longleftrightarrow> p * b \<le> a * q"
proof
  assume "p * b \<le> a * q"
  then have "(of_int (p * b) :: rat) \<le> of_int (a * q)" by linarith
  then have "(of_int p / of_int q :: rat) \<le> of_int a / of_int b"
    using assms by (simp add: field_simps)
  then show "rnd (of_int p / of_int q) \<le> rnd (of_int a / of_int b)" by (rule rnd_mono)
next
  let ?x = "of_int a / of_int b :: rat" and ?y = "of_int p / of_int q :: rat"
  assume le: "rnd ?y \<le> rnd ?x"
  show "p * b \<le> a * q"
  proof (rule ccontr)
    assume "\<not> p * b \<le> a * q"
    then have "(of_int (a * q + 1) :: rat) \<le> of_int (p * b)" by linarith
    then have "of_int (a * q + 1) / (of_int b * of_int q) \<le> (of_int (p * b) / (of_int b * of_int q) :: rat)"
      using assms by (intro divide_right_mono) simp_all
    then have gap: "?x + 1 / (of_int b * of_int q) \<le> ?y"
      using assms by (simp add: add_divide_distrib)
    have bounds: "\<bar>?x\<bar> \<le> 1" "\<bar>?y\<bar> \<le> 1" using assms by simp_all
    have tiny: "2 * (1 * pow2 (- 53) + pow2 (- 1021)) < 1 / 2 ^ 51"
      by (simp add: pow2_def)
    have "(of_int (b * q) :: rat) < of_int (2 ^ 51)" using small by (simp only: of_int_less_iff)
    then have "1 / 2 ^ 51 < (1 :: rat) / (of_int b * of_int q)"
      using assms by (intro divide_strict_left_mono) simp_all
    with tiny have small: "2 * (1 * pow2 (- 53) + pow2 (- 1021)) < 1 / (of_int b * of_int q)" by (rule less_trans)
    have "False" if "\<bar>X - x\<bar> \<le> e" "\<bar>Y - y\<bar> \<le> e" "2 * e < g" "x + g \<le> y" "Y \<le> X" for X Y x y e g :: rat
      using that by linarith
    from this [OF rnd_abs_error [OF bounds(1)] rnd_abs_error [OF bounds(2)] small gap le] show False .
  qed
qed

text \<open>Bounds that are halves of moderate integers are floats.\<close>

definition half_int :: "rat \<Rightarrow> bool" where
  "half_int x \<longleftrightarrow> (\<exists>k. 2 * x = of_int k \<and> \<bar>k\<bar> \<le> 2 ^ 53)"

lemma half_int_rnd: "half_int x \<Longrightarrow> rnd x = x \<and> \<bar>x\<bar> \<le> 2 ^ 53"
proof -
  assume "half_int x"
  then obtain k where k: "2 * x = of_int k" "\<bar>k\<bar> \<le> 2 ^ 53" by (auto simp: half_int_def)
  then have x: "x = of_int k * pow2 (- 1)" by (simp add: pow2_def)
  have "rnd (of_int k * pow2 (- 1)) = of_int k * pow2 (- 1)" using k(2) by (intro rnd_rep) simp_all
  moreover have "\<bar>of_int k :: rat\<bar> \<le> 2 ^ 53" using k(2) by (metis of_int_abs of_int_le_iff of_int_numeral of_int_power)
  ultimately show ?thesis using k(1) x by (simp only: pow2_def) linarith
qed

lemma half_int_of_int: "\<bar>n\<bar> \<le> 2 ^ 52 \<Longrightarrow> half_int (of_int n)"
  unfolding half_int_def by (intro exI [of _ "2 * n"]) simp

lemma half_intI: "2 * x = of_int k \<Longrightarrow> \<bar>k\<bar> \<le> 2 ^ 53 \<Longrightarrow> half_int x"
  by (auto simp: half_int_def)

lemma mkf_between:
  assumes "half_int lo" "half_int hi" "lo \<le> x" "x \<le> hi"
  shows "\<exists>r. mkf x = Fin r \<and> lo \<le> r \<and> r \<le> hi"
proof -
  have "\<bar>x\<bar> \<le> 2 ^ 53" using half_int_rnd [OF assms(1)] half_int_rnd [OF assms(2)] assms(3,4) by linarith
  moreover have "lo \<le> rnd x" "rnd x \<le> hi"
    using rnd_mono [OF assms(3)] rnd_mono [OF assms(4)] half_int_rnd [OF assms(1)] half_int_rnd [OF assms(2)] by simp_all
  ultimately show ?thesis by (simp add: mkf_moderate)
qed

section \<open>Text\<close>

definition lower_char :: "char \<Rightarrow> char" where
  "lower_char c = (let n = of_char c :: nat in
     if 65 \<le> n \<and> n \<le> 90 \<or> 192 \<le> n \<and> n \<le> 222 \<and> n \<noteq> 215 then char_of (n + 32) else c)"

definition lower :: "string \<Rightarrow> string" where
  "lower s = map lower_char s"

text \<open>\<open>c.upper()\<close>.\<close>

definition upper_char :: "char \<Rightarrow> string" where
  "upper_char c = (let n = of_char c :: nat in
     if 97 \<le> n \<and> n \<le> 122 \<or> 224 \<le> n \<and> n \<le> 254 \<and> n \<noteq> 247 then [char_of (n - 32)]
     else if n = 223 then ''SS'' else [c])"

text \<open>\<open>p in s\<close> on strings.\<close>

fun starts_with :: "string \<Rightarrow> string \<Rightarrow> bool" where
  "starts_with [] s = True"
| "starts_with (c # p) [] = False"
| "starts_with (c # p) (d # s) = (c = d \<and> starts_with p s)"

fun str_in :: "string \<Rightarrow> string \<Rightarrow> bool" where
  "str_in p [] = (p = [])"
| "str_in p (c # s) = (starts_with p (c # s) \<or> str_in p s)"

lemma starts_with_append [simp]: "starts_with p (p @ s)"
  by (induction p) simp_all

lemma str_in_append [simp]: "str_in p (a @ p @ b)"
proof (induction a)
  case Nil
  then show ?case by (cases "p @ b") (use starts_with_append [of p b] in auto)
next
  case (Cons c a)
  then show ?case by simp
qed

text \<open>White space of \<open>str.isspace\<close> below 256.\<close>

definition is_space :: "char \<Rightarrow> bool" where
  "is_space c = (let n = of_char c :: nat in 9 \<le> n \<and> n \<le> 13 \<or> 28 \<le> n \<and> n \<le> 32 \<or> n = 133 \<or> n = 160)"

definition strip :: "string \<Rightarrow> string" where
  "strip s = rev (dropWhile is_space (rev (dropWhile is_space s)))"

text \<open>\<open>s.split(c)\<close> for one character.\<close>

fun split_on :: "char \<Rightarrow> string \<Rightarrow> string list" where
  "split_on c [] = [[]]"
| "split_on c (d # s) = (if d = c then [] # split_on c s
     else case split_on c s of w # ws \<Rightarrow> (d # w) # ws | [] \<Rightarrow> [[d]])"

text \<open>\<open>s.split()\<close>: the maximal words without white space.\<close>

function words :: "string \<Rightarrow> string list" where
  "words s = (case dropWhile is_space s of [] \<Rightarrow> []
     | t # ts \<Rightarrow> takeWhile (\<lambda>c. \<not> is_space c) (t # ts) # words (dropWhile (\<lambda>c. \<not> is_space c) (t # ts)))"
  by pat_completeness auto
termination
proof (relation "measure length")
  show "wf (measure (length :: string \<Rightarrow> nat))" by simp
next
  fix s t ts assume d: "dropWhile is_space s = t # ts"
  then have "\<not> is_space t" by (metis hd_dropWhile list.distinct(1) list.sel(1))
  then have "length (dropWhile (\<lambda>c. \<not> is_space c) (t # ts)) \<le> length ts"
    by (simp add: length_dropWhile_le)
  moreover have "length (t # ts) \<le> length s" using length_dropWhile_le [of is_space s] d by simp
  ultimately show "(dropWhile (\<lambda>c. \<not> is_space c) (t # ts), s) \<in> measure length" by simp
qed

declare words.simps [simp del]

lemma split_on_notin [simp]: "c \<notin> set s \<Longrightarrow> split_on c s = [s]"
  by (induction s) auto

lemma split_on_append: "c \<notin> set s \<Longrightarrow> split_on c (s @ c # t) = s # split_on c t"
  by (induction s) auto

text \<open>Splitting undoes joining with a character that does not occur in the parts.\<close>

lemma split_on_join:
  assumes "xs \<noteq> []" and "list_all (\<lambda>x. c \<notin> set x) xs"
  shows "split_on c (join [c] xs) = xs"
proof -
  have "split_on c (x @ concat (map ((@) [c]) ys)) = x # ys"
    if "c \<notin> set x" "list_all (\<lambda>x. c \<notin> set x) ys" for x ys
    using that by (induction ys arbitrary: x) (simp_all add: split_on_append)
  then show ?thesis using assms by (cases xs) (simp_all add: join_def del: append.simps)
qed

section \<open>Reading values\<close>

text \<open>\<open>e[k]\<close> on a value .\<close>

fun json_item :: "json \<Rightarrow> string \<Rightarrow> json result" where
  "json_item (JObj d) k = (case dget d k of None \<Rightarrow> Inl (KeyError k) | Some v \<Rightarrow> Inr v)"
| "json_item _ k = Inl TypeError"

text \<open>\<open>e.get(k, default)\<close> on a value , and the same where a string is needed.\<close>

fun json_get :: "json \<Rightarrow> string \<Rightarrow> json \<Rightarrow> json result" where
  "json_get (JObj d) k v = Inr (dget_default d k v)"
| "json_get _ k v = Inl AttributeError"

definition text_get :: "json \<Rightarrow> string \<Rightarrow> string result" where
  "text_get e k = rbind (json_get e k (JStr [])) (\<lambda>v. case v of JStr s \<Rightarrow> Inr s | _ \<Rightarrow> Inl AttributeError)"

text \<open>The text of \<open>f"{x}"\<close>.\<close>

fun json_text :: "json \<Rightarrow> string" where
  "json_text (JStr s) = s"
| "json_text v = pyrepr v"

section \<open>Paths\<close>

text \<open>\<open>os.path.join\<close> of two parts.\<close>

definition path_join :: "string \<Rightarrow> string \<Rightarrow> string" where
  "path_join a b = (if starts_with ''/'' b then b else if a = [] \<or> last a = CHR ''/'' then a @ b else a @ ''/'' @ b)"

definition ends_with :: "string \<Rightarrow> string \<Rightarrow> bool" where
  "ends_with s p = starts_with (rev p) (rev s)"

section \<open>Reading numbers\<close>

definition is_digit :: "char \<Rightarrow> bool" where
  "is_digit c \<longleftrightarrow> (let n = of_char c :: nat in 48 \<le> n \<and> n \<le> 57)"

definition digits_val :: "string \<Rightarrow> int" where
  "digits_val s = foldl (\<lambda>a c. 10 * a + (int (of_char c) - 48)) 0 s"

text \<open>Underscores are dropped where they stand between two digits and refused elsewhere.\<close>

fun drop_underscores :: "bool \<Rightarrow> string \<Rightarrow> string option" where
  "drop_underscores prev [] = Some []"
| "drop_underscores prev (c # s) = (if c = CHR ''_'' then
     (if prev \<and> (case s of d # _ \<Rightarrow> is_digit d | [] \<Rightarrow> False) then drop_underscores False s else None)
     else map_option ((#) c) (drop_underscores (is_digit c) s))"

definition split_sign :: "string \<Rightarrow> int \<times> string" where
  "split_sign s = (case s of c # t \<Rightarrow> if c = CHR ''-'' then (- 1, t) else if c = CHR ''+'' then (1, t) else (1, s) | [] \<Rightarrow> (1, s))"

definition float_exponent :: "string \<Rightarrow> int option" where
  "float_exponent s = (case s of [] \<Rightarrow> Some 0
     | c # t \<Rightarrow> if c \<noteq> CHR ''e'' \<and> c \<noteq> CHR ''E'' then None
         else let (sg, ds) = split_sign t in if ds \<noteq> [] \<and> list_all is_digit ds then Some (sg * digits_val ds) else None)"

definition float_body :: "string \<Rightarrow> rat option" where
  "float_body s = (let ip = takeWhile is_digit s; rest = dropWhile is_digit s;
       (fp, rest) = (case rest of c # t \<Rightarrow> if c = CHR ''.'' then (takeWhile is_digit t, dropWhile is_digit t) else ([], rest)
                     | [] \<Rightarrow> ([], rest))
     in if ip = [] \<and> fp = [] then None
        else map_option (\<lambda>e. of_int (digits_val (ip @ fp)) * pow10 (e - int (length fp))) (float_exponent rest))"

text \<open>\<open>float(s)\<close>; \<open>None\<close> is \<open>ValueError\<close>.\<close>

definition py_float :: "string \<Rightarrow> pyfloat option" where
  "py_float s = do { t \<leftarrow> drop_underscores False (strip s);
     let (sg, body) = split_sign t in
     if lower body = ''inf'' \<or> lower body = ''infinity'' then Some (if sg < 0 then NInf else PInf)
     else if lower body = ''nan'' then Some NaN
     else map_option (\<lambda>x. mkf (of_int sg * x)) (float_body body) }"

text \<open>\<open>int(s)\<close>; \<open>None\<close> is \<open>ValueError\<close>.\<close>

definition py_int :: "string \<Rightarrow> int option" where
  "py_int s = do { t \<leftarrow> drop_underscores False (strip s);
     let (sg, ds) = split_sign t in if ds \<noteq> [] \<and> list_all is_digit ds then Some (sg * digits_val ds) else None }"

lemma truediv_ratio:
  assumes "0 \<le> a" "a \<le> b" "0 < b"
  shows "\<exists>q. truediv a b = Inr q"
proof -
  have "\<bar>of_int a / of_int b :: rat\<bar> \<le> 2 ^ 53" using assms by (simp add: field_simps)
  then show ?thesis using assms by (simp add: truediv_def mkf_moderate)
qed

end
