(* ===== verification/Worker_Node.thy ===== *)
theory Worker_Node
  imports Job_Queue PyNum
begin

text \<open>
  \<open>membra_sdk/worker/worker_node.py\<close>: a worker claims a task of the queue it shares with the coordinator, runs
  it and submits the result. What the machine answers (the model runner and the file system) is a
  parameter; the capabilities found by probing the machine are part of the worker.
\<close>

section \<open>Data\<close>

record worker_stats =
  ws_tasks_claimed :: int
  ws_tasks_completed :: int
  ws_tasks_failed :: int
  ws_total_earnings :: pyfloat

record worker_node =
  wn_worker_id :: string
  wn_hostname :: string
  wn_models :: "string list"
  wn_memory_gb :: pyfloat
  wn_cpu_cores :: int
  wn_has_gpu :: bool
  wn_last_heartbeat :: pyfloat
  wn_current_task :: "task_split option"
  wn_stats :: worker_stats

definition worker_stats_init :: worker_stats where
  "worker_stats_init = \<lparr>ws_tasks_claimed = 0, ws_tasks_completed = 0, ws_tasks_failed = 0, ws_total_earnings = Fin 0\<rparr>"

text \<open>The outcome of running a program, and of opening a file.\<close>

datatype run_outcome = Exited int string | NotFound | TimedOut | RunError string

datatype file_outcome = Missing | Content string | Unreadable string

record machine =
  mc_ollama :: "json \<Rightarrow> json \<Rightarrow> run_outcome"
  mc_file :: "string \<Rightarrow> file_outcome"

section \<open>Running a task\<close>

text \<open>\<open>x.encode()\<close>: only strings have it.\<close>

definition str_encode :: "json \<Rightarrow> string result" where
  "str_encode v = (case v of JStr s \<Rightarrow> Inr s | _ \<Rightarrow> Inl AttributeError)"

definition run_prompt :: "machine \<Rightarrow> worker_node \<Rightarrow> json dict \<Rightarrow> json dict result" where
  "run_prompt mc w payload =
     (let prompt = dget_default payload ''item'' (dget_default payload ''prompt'' (JStr []));
          model = dget_default payload ''model'' (JStr (if wn_models w \<noteq> [] then hd (wn_models w) else ''llama3.1:8b''));
          fallback = (case str_encode prompt of Inl e \<Rightarrow> Inl e
            | Inr s \<Rightarrow> Inr [(''status'', JStr ''fallback''),
                (''output'', JStr (''[Worker '' @ wn_worker_id w @ ''] Processed prompt (hash: '' @ take 16 (sha256_hex s) @ ''...)'')),
                (''model'', model), (''source'', JStr ''deterministic_fallback'')])
      in case mc_ollama mc model prompt of
           Exited rc out \<Rightarrow> if rc = 0 then Inr [(''status'', JStr ''success''), (''output'', JStr (strip out)),
               (''model'', model), (''source'', JStr ''ollama'')] else fallback
         | NotFound \<Rightarrow> fallback
         | TimedOut \<Rightarrow> Inr [(''status'', JStr ''timeout''), (''model'', model)]
         | RunError msg \<Rightarrow> Inr [(''status'', JStr ''error''), (''error'', JStr msg)])"

text \<open>A path that is not a string raises.\<close>

definition run_file_analysis :: "machine \<Rightarrow> json dict \<Rightarrow> json dict result" where
  "run_file_analysis mc payload =
     (case dget_default payload ''file'' (dget_default payload ''item'' (JStr [])) of
        JStr path \<Rightarrow> (case mc_file mc path of
            Missing \<Rightarrow> Inr [(''status'', JStr ''file_not_found''), (''path'', JStr path)]
          | Unreadable msg \<Rightarrow> Inr [(''status'', JStr ''error''), (''error'', JStr msg)]
          | Content text \<Rightarrow> (let content = take 5000 text in Inr [(''status'', JStr ''success''), (''path'', JStr path),
              (''size'', JInt (int (length content))), (''hash'', JStr (sha256_hex content)),
              (''preview'', JStr (take 200 content))]))
      | _ \<Rightarrow> Inl TypeError)"

definition artifact_code :: "worker_node \<Rightarrow> json dict \<Rightarrow> string" where
  "artifact_code w payload = ''# Generated by worker '' @ wn_worker_id w @ [CHR 0x0A]
     @ ''# Task: '' @ json_text (dget_default payload ''description'' (JStr ''artifact'')) @ [CHR 0x0A, CHR 0x0A]
     @ ''def generated_function():'' @ [CHR 0x0A]
     @ ''    return '' @ [CHR 0x22] @ ''Hello from MEMBRA worker'' @ [CHR 0x22, CHR 0x0A]"

definition run_artifact_gen :: "worker_node \<Rightarrow> json dict \<Rightarrow> json dict result" where
  "run_artifact_gen w payload =
     (case dget_default payload ''spec'' (JObj []) of
        JObj spec \<Rightarrow> (let code = artifact_code w payload in Inr [(''status'', JStr ''success''), (''code'', JStr code),
          (''type'', dget_default spec ''type'' (JStr ''python_script'')), (''hash'', JStr (sha256_hex code))])
      | _ \<Rightarrow> Inl AttributeError)"

definition run_embedding :: "json dict \<Rightarrow> json dict result" where
  "run_embedding payload =
     (case str_encode (dget_default payload ''text'' (dget_default payload ''item'' (JStr []))) of Inl e \<Rightarrow> Inl e
      | Inr text \<Rightarrow> Inr [(''status'', JStr ''success''), (''embedding_dim'', JInt 768),
          (''text_hash'', JStr (take 16 (sha256_hex text))),
          (''note'', JStr ''Real embedding would use sentence-transformers or Ollama embeddings'')])"

definition run_review :: "json dict \<Rightarrow> json dict result" where
  "run_review payload =
     (case str_encode (dget_default payload ''code'' (JStr [])) of Inl e \<Rightarrow> Inl e
      | Inr code \<Rightarrow> Inr [(''status'', JStr ''success''), (''issues_found'', JInt 0),
          (''suggestions'', jstrs [''Add docstrings'', ''Add type hints'']),
          (''code_hash'', JStr (take 16 (sha256_hex code)))])"

definition execute_task :: "machine \<Rightarrow> worker_node \<Rightarrow> task_split \<Rightarrow> json dict result" where
  "execute_task mc w t =
     (let ty = tk_task_type t; payload = tk_payload t in
      if ty = ''prompt'' then run_prompt mc w payload
      else if ty = ''file_analysis'' then run_file_analysis mc payload
      else if ty = ''artifact_gen'' then run_artifact_gen w payload
      else if ty = ''embedding'' then run_embedding payload
      else if ty = ''review'' then run_review payload
      else Inr [(''status'', JStr ''unknown_task_type''), (''task_type'', JStr ty)])"

section \<open>Claiming and reporting\<close>

record run_report =
  rr_task_id :: string
  rr_success :: bool
  rr_proof_hash :: "string option"
  rr_result :: "json dict"

text \<open>
  \<open>claim_and_run\<close>: if running the task raises, the task stays assigned and the worker busy. The proof
  hash is read from the task object, which the queue has filled in.
\<close>

definition claim_and_run ::
  "machine \<Rightarrow> string \<Rightarrow> worker_node \<Rightarrow> job_queue \<Rightarrow> runtime \<Rightarrow> run_report option result \<times> worker_node \<times> job_queue \<times> runtime" where
  "claim_and_run mc capability w q rt =
     (let (claimed, q, rt) = claim_task (wn_worker_id w) capability q rt in
      case claimed of None \<Rightarrow> (Inr None, w, q, rt)
      | Some t \<Rightarrow>
          let w = w\<lparr>wn_current_task := Some t, wn_stats := (wn_stats w)\<lparr>ws_tasks_claimed := ws_tasks_claimed (wn_stats w) + 1\<rparr>\<rparr>
          in case execute_task mc w t of Inl e \<Rightarrow> (Inl e, w, q, rt)
             | Inr result \<Rightarrow>
                 let (success, q, rt) = submit_result (tk_task_id t) (wn_worker_id w) result q rt;
                     st = wn_stats w;
                     st = (if success then st\<lparr>ws_tasks_completed := ws_tasks_completed st + 1,
                         ws_total_earnings := fadd (ws_total_earnings st) (projr (fdiv (tk_cost_estimate t) (Fin 100)))\<rparr> else st);
                     w = w\<lparr>wn_current_task := None, wn_stats := st\<rparr>;
                     ph = (case dget (jq_tasks q) (tk_task_id t) of None \<Rightarrow> tk_proof_hash t | Some u \<Rightarrow> tk_proof_hash u)
                 in (Inr (Some \<lparr>rr_task_id = tk_task_id t, rr_success = success, rr_proof_hash = ph, rr_result = result\<rparr>), w, q, rt))"

definition worker_capabilities :: "worker_node \<Rightarrow> json" where
  "worker_capabilities w = JObj [(''models'', jstrs (wn_models w)), (''memory_gb'', JFloat (wn_memory_gb w)),
     (''cpu_cores'', JInt (wn_cpu_cores w)), (''has_gpu'', JBool (wn_has_gpu w))]"

definition stats_json :: "worker_stats \<Rightarrow> json" where
  "stats_json st = JObj [(''tasks_claimed'', JInt (ws_tasks_claimed st)), (''tasks_completed'', JInt (ws_tasks_completed st)),
     (''tasks_failed'', JInt (ws_tasks_failed st)), (''total_earnings'', JFloat (ws_total_earnings st))]"

definition heartbeat :: "worker_node \<Rightarrow> runtime \<Rightarrow> json dict \<times> worker_node \<times> runtime" where
  "heartbeat w rt = (let (now, rt) = time_time rt; w = w\<lparr>wn_last_heartbeat := now\<rparr> in
     ([(''worker_id'', JStr (wn_worker_id w)),
       (''status'', JStr (if wn_current_task w = None then ''idle'' else ''busy'')),
       (''capabilities'', worker_capabilities w), (''stats'', stats_json (wn_stats w))], w, rt))"

definition worker_get_status :: "worker_node \<Rightarrow> json dict" where
  "worker_get_status w = [(''worker_id'', JStr (wn_worker_id w)), (''hostname'', JStr (wn_hostname w)),
     (''capabilities'', worker_capabilities w),
     (''current_task'', jopt (\<lambda>t. JStr (tk_task_id t)) (wn_current_task w)), (''stats'', stats_json (wn_stats w))]"

section \<open>What a run does to the queue\<close>

text \<open>Running depends on the type and the payload of a task only, and on the worker's name and models.\<close>

lemma execute_task_cong:
  assumes "tk_task_type t = tk_task_type t'" and "tk_payload t = tk_payload t'" and "wn_worker_id w = wn_worker_id w'"
    and "wn_models w = wn_models w'"
  shows "execute_task mc w t = execute_task mc w' t'"
  unfolding execute_task_def run_prompt_def run_artifact_gen_def artifact_code_def assms by (rule refl)

lemma dset_split:
  assumes "distinct (dkeys (xs @ (k, v) # ys))"
  shows "dset k v' (xs @ (k, v) # ys) = xs @ (k, v') # ys"
  using assms by (simp add: dset_append_right)

text \<open>
  A run whose execution does not raise completes exactly the first claimable task and leaves the worker
  idle.
\<close>

definition completed_task :: "machine \<Rightarrow> worker_node \<Rightarrow> task_split \<Rightarrow> task_split \<Rightarrow> bool" where
  "completed_task mc w t u \<longleftrightarrow> tk_status u = COMPLETED \<and> tk_task_id u = tk_task_id t \<and> tk_job_id u = tk_job_id t \<and>
     tk_assigned_worker u = Some (wn_worker_id w) \<and> map_option Inr (tk_result u) = Some (execute_task mc w t) \<and>
     tk_proof_hash u = Some (compute_proof_hash u) \<and> tk_cost_estimate u = tk_cost_estimate t"

lemma claim_and_run_first:
  assumes ok: "tasks_ok q" and q: "jq_tasks q = us @ (k, t) # vs" and t: "claimable capability t"
    and us: "\<forall>(k, u) \<in> set us. \<not> claimable capability u"
    and run: "execute_task mc w t = Inr result"
  shows "\<exists>rep w' q' rt' u. claim_and_run mc capability w q rt = (Inr (Some rep), w', q', rt') \<and>
    jq_tasks q' = us @ (k, u) # vs \<and> completed_task mc w t u \<and> wn_current_task w' = None \<and>
    wn_worker_id w' = wn_worker_id w \<and> wn_models w' = wn_models w \<and> tasks_ok q' \<and> rr_success rep \<and>
    jq_job_results q' = dappend (tk_job_id t) \<lparr>rp_task_id = k, rp_worker = wn_worker_id w,
      rp_proof_hash = tk_proof_hash u, rp_result_preview = take 200 (pyrepr (JObj result))\<rparr> (jq_job_results q)"
proof -
  have dist: "distinct (dkeys (us @ (k, t) # vs))" using ok q by (simp add: tasks_ok_def)
  have fnd: "find (\<lambda>(k, t). claimable capability t) (jq_tasks q) = Some (k, t)"
  proof -
    have "find P (us @ (k, t) # vs) = Some (k, t)" if "\<forall>x \<in> set us. \<not> P x" "P (k, t)" for P
      using that by (induction us) auto
    from this [of "\<lambda>(k, t). claimable capability t"] us t q show ?thesis by auto
  qed
  have tk: "dget (jq_tasks q) k = Some t" unfolding q by (rule map_of_is_SomeI [OF dist]) simp
  with ok have id: "tk_task_id t = k" by (auto simp: tasks_ok_def)
  let ?t1 = "t\<lparr>tk_status := ASSIGNED, tk_assigned_worker := Some (wn_worker_id w), tk_started_at := Some (rt_now rt)\<rparr>"
  let ?q1 = "jq_persist (put_task k ?t1 q)" and ?rt1 = "rt_tick rt"
  have claim: "claim_task (wn_worker_id w) capability q rt = (Some ?t1, ?q1, ?rt1)"
    using fnd by (simp add: claim_task_def time_time_def Let_def)
  let ?w1 = "w\<lparr>wn_current_task := Some ?t1, wn_stats := (wn_stats w)\<lparr>ws_tasks_claimed := ws_tasks_claimed (wn_stats w) + 1\<rparr>\<rparr>"
  have exec: "execute_task mc ?w1 ?t1 = Inr result" using run execute_task_cong [of ?t1 t ?w1 w] by simp
  define u where "u = (let r = ?t1\<lparr>tk_result := Some result\<rparr>
    in r\<lparr>tk_proof_hash := Some (compute_proof_hash r), tk_status := COMPLETED, tk_completed_at := Some (rt_now ?rt1)\<rparr>)"
  let ?r = "\<lparr>rp_task_id = k, rp_worker = wn_worker_id w, rp_proof_hash = tk_proof_hash u,
    rp_result_preview = take 200 (pyrepr (JObj result))\<rparr>"
  define q2 where "q2 = jq_persist ((put_task k u ?q1)\<lparr>jq_job_results := dappend (tk_job_id t) ?r (jq_job_results q)\<rparr>)"
  have sub: "submit_result k (wn_worker_id w) result ?q1 ?rt1 = (True, q2, rt_tick ?rt1)"
    by (simp add: submit_result_def time_time_def q2_def u_def Let_def)
  have "jq_tasks q2 = us @ (k, u) # vs"
    using q dset_split [OF dist] dset_split [of us k ?t1 vs u] dist by (simp add: q2_def)
  moreover have "completed_task mc w t u"
    using run by (simp add: completed_task_def u_def Let_def compute_proof_hash_def)
  moreover have "tasks_ok q2"
    using queue_step_ok [OF step_claim [OF claim]] queue_step_ok [OF step_result [OF sub]] ok by simp
  moreover have "jq_job_results q2 = dappend (tk_job_id t) ?r (jq_job_results q)" by (simp add: q2_def)
  ultimately show ?thesis
    using claim exec sub id unfolding claim_and_run_def by (simp add: Let_def)
qed

end
