(* ===== verification/Coordinator.thy ===== *)
theory Coordinator
  imports Worker_Node
begin

text \<open>
  \<open>membra_sdk/coordinator/coordinator.py\<close>: the coordinator splits jobs into tasks, dispatches them to the
  workers that share its queue, verifies the proof hashes of the results and queues payments.
\<close>

section \<open>Data\<close>

record payment =
  py_task_id :: string
  py_worker_id :: "string option"
  py_amount_usd :: pyfloat
  py_job_id :: string
  py_proof_hash :: "string option"
  py_verified_at :: pyfloat

record coordinator =
  co_queue :: job_queue
  co_workers :: "worker_node dict"
  co_worker_heartbeats :: "pyfloat dict"
  co_payment_queue :: "payment list"

definition coordinator_init :: "json option \<Rightarrow> coordinator" where
  "coordinator_init fl = \<lparr>co_queue = job_queue_init fl, co_workers = [], co_worker_heartbeats = [], co_payment_queue = []\<rparr>"

section \<open>Operations\<close>

definition register_worker :: "worker_node \<Rightarrow> coordinator \<Rightarrow> runtime \<Rightarrow> bool \<times> coordinator \<times> runtime" where
  "register_worker w c rt = (let (now, rt) = time_time rt in
     (True, c\<lparr>co_workers := dset (wn_worker_id w) w (co_workers c),
        co_worker_heartbeats := dset (wn_worker_id w) now (co_worker_heartbeats c)\<rparr>, rt))"

text \<open>The inner loop of the dispatch: the first idle worker runs a task of the given type.\<close>

definition dispatch_one :: "machine \<Rightarrow> string \<Rightarrow> coordinator \<Rightarrow> runtime \<Rightarrow> unit result \<times> coordinator \<times> runtime" where
  "dispatch_one mc ty c rt =
     (case find (\<lambda>(k, w). wn_current_task w = None) (co_workers c) of None \<Rightarrow> (Inr (), c, rt)
      | Some (k, w) \<Rightarrow> let (r, w, q, rt) = claim_and_run mc ty w (co_queue c) rt;
                         c = c\<lparr>co_queue := q, co_workers := dset k w (co_workers c)\<rparr>
                     in (case r of Inl e \<Rightarrow> Inl e | Inr x \<Rightarrow> Inr (), c, rt))"

fun dispatch_loop :: "machine \<Rightarrow> task_split list \<Rightarrow> coordinator \<Rightarrow> runtime \<Rightarrow> unit result \<times> coordinator \<times> runtime" where
  "dispatch_loop mc [] c rt = (Inr (), c, rt)"
| "dispatch_loop mc (t # ts) c rt = (let (r, c, rt) = dispatch_one mc (tk_task_type t) c rt in
     case r of Inl e \<Rightarrow> (Inl e, c, rt) | Inr u \<Rightarrow> dispatch_loop mc ts c rt)"

definition dispatch_pending_tasks :: "machine \<Rightarrow> coordinator \<Rightarrow> runtime \<Rightarrow> unit result \<times> coordinator \<times> runtime" where
  "dispatch_pending_tasks mc c rt = dispatch_loop mc (list_pending (co_queue c)) c rt"

definition co_submit_job ::
  "machine \<Rightarrow> string \<Rightarrow> json dict \<Rightarrow> string \<Rightarrow> coordinator \<Rightarrow> runtime \<Rightarrow> string result \<times> coordinator \<times> runtime" where
  "co_submit_job mc ty payload strategy c rt =
     (let (r, q, rt) = submit_job ty payload strategy (co_queue c) rt; c = c\<lparr>co_queue := q\<rparr> in
      case r of Inl e \<Rightarrow> (Inl e, c, rt)
      | Inr tasks \<Rightarrow> let jid = (case tasks of [] \<Rightarrow> [] | t # ts \<Rightarrow> tk_job_id t);
            (d, c, rt) = dispatch_pending_tasks mc c rt
          in (case d of Inl e \<Rightarrow> Inl e | Inr u \<Rightarrow> Inr jid, c, rt))"

text \<open>The verification of the reported results: the report must carry the hash of the task.\<close>

definition verify_report :: "job_queue \<Rightarrow> task_report \<Rightarrow> job_queue" where
  "verify_report q r = (case dget (jq_tasks q) (rp_task_id r) of None \<Rightarrow> q
     | Some t \<Rightarrow> if tk_status t = COMPLETED \<and> tk_proof_hash t = rp_proof_hash r
         then snd (mark_verified (rp_task_id r) q) else q)"

fun queue_payments :: "string \<Rightarrow> task_report list \<Rightarrow> job_queue \<Rightarrow> payment list \<Rightarrow> runtime \<Rightarrow> payment list \<times> runtime" where
  "queue_payments jid [] q ps rt = (ps, rt)"
| "queue_payments jid (r # rs) q ps rt =
     (case dget (jq_tasks q) (rp_task_id r) of None \<Rightarrow> queue_payments jid rs q ps rt
      | Some t \<Rightarrow> if tk_status t = VERIFIED
          then let (now, rt) = time_time rt;
                   p = \<lparr>py_task_id = tk_task_id t, py_worker_id = tk_assigned_worker t,
                     py_amount_usd = projr (fdiv (tk_cost_estimate t) (Fin 100)), py_job_id = jid,
                     py_proof_hash = tk_proof_hash t, py_verified_at = now\<rparr>
               in queue_payments jid rs q (ps @ [p]) rt
          else queue_payments jid rs q ps rt)"

record collect_report =
  cl_status :: string
  cl_total_tasks :: int
  cl_pending :: int
  cl_completed :: int
  cl_verified :: int
  cl_failed :: int
  cl_payments_ready :: int

definition collect_results :: "string \<Rightarrow> coordinator \<Rightarrow> runtime \<Rightarrow> collect_report \<times> coordinator \<times> runtime" where
  "collect_results jid c rt =
     (let results = dget_default (jq_job_results (co_queue c)) jid [];
          q = foldl verify_report (co_queue c) results;
          c = c\<lparr>co_queue := q\<rparr>;
          status = get_job_status jid q;
          rep = \<lparr>cl_status = (if jr_done status then ''completed'' else ''in_progress''),
            cl_total_tasks = jr_total_tasks status, cl_pending = jr_pending status, cl_completed = jr_completed status,
            cl_verified = jr_verified status, cl_failed = jr_failed status, cl_payments_ready = 0\<rparr>
      in if jr_done status
         then let (ps, rt) = queue_payments jid results q (co_payment_queue c) rt
              in (rep\<lparr>cl_payments_ready := int (length ps)\<rparr>, c\<lparr>co_payment_queue := ps\<rparr>, rt)
         else (rep, c, rt))"

record paid =
  pd_worker_id :: "string option"
  pd_amount_usd :: pyfloat
  pd_task_id :: string
  pd_status :: string
  pd_note :: string

definition distribute_payments :: "coordinator \<Rightarrow> paid list \<times> coordinator" where
  "distribute_payments c = (map (\<lambda>p. \<lparr>pd_worker_id = py_worker_id p, pd_amount_usd = py_amount_usd p,
     pd_task_id = py_task_id p, pd_status = ''paid_simulated'',
     pd_note = ''Real payout requires Stripe Connect integration''\<rparr>) (co_payment_queue c), c\<lparr>co_payment_queue := []\<rparr>)"

fun active_loop :: "worker_node list \<Rightarrow> pyfloat dict \<Rightarrow> runtime \<Rightarrow> int \<times> runtime" where
  "active_loop [] beats rt = (0, rt)"
| "active_loop (w # ws) beats rt = (let (now, rt) = time_time rt;
       active = flt (fsub now (dget_default beats (wn_worker_id w) (Fin 0))) (Fin 300);
       (n, rt) = active_loop ws beats rt
     in (if active then n + 1 else n, rt))"

record cluster_status =
  cst_workers_total :: int
  cst_workers_active :: int
  cst_total_tasks :: int
  cst_pending :: int
  cst_completed :: int
  cst_payments_queued :: int

definition get_cluster_status :: "coordinator \<Rightarrow> runtime \<Rightarrow> cluster_status \<times> runtime" where
  "get_cluster_status c rt = (let (active, rt) = active_loop (dvalues (co_workers c)) (co_worker_heartbeats c) rt in
     (\<lparr>cst_workers_total = int (length (co_workers c)), cst_workers_active = active,
       cst_total_tasks = int (length (jq_tasks (co_queue c))), cst_pending = int (length (list_pending (co_queue c))),
       cst_completed = int (length (list_completed (co_queue c))),
       cst_payments_queued = int (length (co_payment_queue c))\<rparr>, rt))"

section \<open>Dispatching\<close>

text \<open>A coordinator whose queue is sound and which has an idle worker.\<close>

definition ready :: "coordinator \<Rightarrow> bool" where
  "ready c \<longleftrightarrow> tasks_ok (co_queue c) \<and> distinct (dkeys (co_workers c)) \<and>
     (\<exists>(k, w) \<in> set (co_workers c). wn_current_task w = None)"

text \<open>No worker fails on a pending task.\<close>

definition never_raises :: "machine \<Rightarrow> coordinator \<Rightarrow> bool" where
  "never_raises mc c \<longleftrightarrow> (\<forall>w \<in> set (dvalues (co_workers c)). \<forall>t \<in> set (list_pending (co_queue c)).
     \<exists>r. execute_task mc w t = Inr r)"

text \<open>The first pending task of the queue is the first claimable one of its own type.\<close>

lemma first_pending_split:
  assumes "list_pending q = t # ts"
  obtains us k vs where "jq_tasks q = us @ (k, t) # vs" and "\<forall>(k, u) \<in> set us. tk_status u \<noteq> PENDING"
    and "tk_status t = PENDING" and "filter (\<lambda>t. tk_status t = PENDING) (dvalues vs) = ts"
proof -
  have "filter (\<lambda>p. tk_status (snd p) = PENDING) (jq_tasks q) \<noteq> []"
    using assms by (auto simp: list_pending_def filter_map comp_def)
  then obtain p ps where p: "filter (\<lambda>p. tk_status (snd p) = PENDING) (jq_tasks q) = p # ps"
    by (cases "filter (\<lambda>p. tk_status (snd p) = PENDING) (jq_tasks q)") auto
  from p [THEN filter_eq_ConsD] obtain us vs where s: "jq_tasks q = us @ p # vs"
    "\<forall>u \<in> set us. tk_status (snd u) \<noteq> PENDING" "tk_status (snd p) = PENDING"
    "ps = filter (\<lambda>p. tk_status (snd p) = PENDING) vs" by blast
  have "snd p = t" "map snd ps = ts" using assms p by (auto simp: list_pending_def filter_map comp_def)
  with s show ?thesis by (intro that [of us "fst p" vs]) (auto simp: filter_map comp_def)
qed

definition finished :: "task_split \<Rightarrow> task_split \<Rightarrow> bool" where
  "finished u u' \<longleftrightarrow> (if tk_status u = PENDING
     then tk_status u' = COMPLETED \<and> tk_result u' \<noteq> None \<and> tk_proof_hash u' = Some (compute_proof_hash u') else u' = u)"

lemma dispatch_first:
  assumes "ready c" and "never_raises mc c" and "list_pending (co_queue c) = t # ts"
  shows "\<exists>c' rt'. dispatch_one mc (tk_task_type t) c rt = (Inr (), c', rt') \<and> ready c' \<and> never_raises mc c' \<and>
    list_pending (co_queue c') = ts \<and>
    (\<forall>k u. dget (jq_tasks (co_queue c)) k = Some u \<longrightarrow>
       (\<exists>u'. dget (jq_tasks (co_queue c')) k = Some u' \<and> (u' = u \<or> finished u u')))"
proof -
  let ?q = "co_queue c" and ?ty = "tk_task_type t"
  from assms(1) obtain k0 w0 where "(k0, w0) \<in> set (co_workers c)" "wn_current_task w0 = None" and ok: "tasks_ok ?q"
    and distw: "distinct (dkeys (co_workers c))" by (auto simp: ready_def)
  then obtain k w where kw: "find (\<lambda>(k, w). wn_current_task w = None) (co_workers c) = Some (k, w)"
    by (cases "find (\<lambda>(k, w). wn_current_task w = None) (co_workers c)") (fastforce simp: find_None_iff)+
  then have w: "(k, w) \<in> set (co_workers c)" by (auto simp: find_Some_iff) (metis nth_mem)
  then have "w \<in> set (dvalues (co_workers c))" by force
  with assms(2,3) obtain result where run: "execute_task mc w t = Inr result" by (auto simp: never_raises_def)
  obtain us kt vs where sp: "jq_tasks ?q = us @ (kt, t) # vs" "\<forall>(k, u) \<in> set us. tk_status u \<noteq> PENDING"
    "tk_status t = PENDING" "filter (\<lambda>t. tk_status t = PENDING) (dvalues vs) = ts"
    by (rule first_pending_split [OF assms(3)])
  have "claimable ?ty t" "\<forall>(k, u) \<in> set us. \<not> claimable ?ty u" using sp by (auto simp: claimable_def)
  from claim_and_run_first [OF ok sp(1) this run] obtain rep w' q' rt' u where
    cr: "claim_and_run mc ?ty w ?q rt = (Inr (Some rep), w', q', rt')" "jq_tasks q' = us @ (kt, u) # vs"
    "completed_task mc w t u" "wn_current_task w' = None" "wn_worker_id w' = wn_worker_id w"
    "wn_models w' = wn_models w" "tasks_ok q'" by blast
  let ?c = "c\<lparr>co_queue := q', co_workers := dset k w' (co_workers c)\<rparr>"
  have one: "dispatch_one mc ?ty c rt = (Inr (), ?c, rt')" using kw cr(1) by (simp add: dispatch_one_def)
  have "(k, w') \<in> set (dset k w' (co_workers c))" by (simp add: map_of_SomeD)
  then have "ready ?c" using cr(4,7) distw by (auto simp: ready_def)
  moreover have pend: "list_pending q' = ts"
  proof -
    have "filter (\<lambda>t. tk_status t = PENDING) (dvalues us) = []" using sp(2) by (induction us) auto
    then show ?thesis using sp(4) cr(2,3) by (simp add: list_pending_def completed_task_def)
  qed
  moreover have "never_raises mc ?c"
  proof -
    have "\<exists>r. execute_task mc x y = Inr r" if x: "x \<in> set (dvalues (dset k w' (co_workers c)))" and y: "y \<in> set ts" for x y
    proof -
      have "x = w' \<or> x \<in> set (dvalues (co_workers c))"
        using x dvalues_dset_subset [of k w' "co_workers c"] by auto
      moreover have "execute_task mc w' y = execute_task mc w y" by (rule execute_task_cong) (simp_all add: cr(5,6))
      ultimately show ?thesis
        using assms(2,3) y \<open>w \<in> set (dvalues (co_workers c))\<close> unfolding never_raises_def by auto
    qed
    then show ?thesis using pend by (simp add: never_raises_def)
  qed
  moreover have "\<exists>u'. dget (jq_tasks q') k = Some u' \<and> (u' = x \<or> finished x u')" if "dget (jq_tasks ?q) k = Some x" for k x
  proof (cases "k = kt")
    case True
    have d: "distinct (dkeys (us @ (kt, t) # vs))" "distinct (dkeys (us @ (kt, u) # vs))"
      using ok cr(7) sp(1) cr(2) by (auto simp: tasks_ok_def)
    have "dget (jq_tasks ?q) kt = Some t" "dget (jq_tasks q') kt = Some u"
      unfolding sp(1) cr(2) using map_of_is_SomeI [OF d(1)] map_of_is_SomeI [OF d(2)] by auto
    then show ?thesis using True that sp(3) cr(3) by (auto simp: finished_def completed_task_def)
  next
    case False
    then show ?thesis using that sp(1) cr(2) by (auto simp: map_add_def split: option.splits)
  qed
  ultimately show ?thesis using one by auto
qed

lemma dispatch_finishes:
  assumes "ready c" and "never_raises mc c"
  shows "\<exists>c' rt'. dispatch_loop mc (list_pending (co_queue c)) c rt = (Inr (), c', rt') \<and> ready c' \<and>
    list_pending (co_queue c') = [] \<and>
    (\<forall>k u. dget (jq_tasks (co_queue c)) k = Some u \<longrightarrow>
       (\<exists>u'. dget (jq_tasks (co_queue c')) k = Some u' \<and> finished u u'))"
  using assms
proof (induction "list_pending (co_queue c)" arbitrary: c rt)
  case Nil
  have "filter (\<lambda>t. tk_status t = PENDING) (dvalues (jq_tasks (co_queue c))) = []"
    using Nil.hyps by (simp add: list_pending_def)
  then have "tk_status u \<noteq> PENDING" if "dget (jq_tasks (co_queue c)) k = Some u" for k u
    using dget_value [OF that] unfolding filter_empty_conv by blast
  with Nil show ?case by (auto simp: finished_def)
next
  case (Cons t ts)
  from dispatch_first [OF Cons.prems Cons.hyps(2) [symmetric], of rt] obtain c1 rt1 where
    one: "dispatch_one mc (tk_task_type t) c rt = (Inr (), c1, rt1)" "ready c1" "never_raises mc c1"
    "list_pending (co_queue c1) = ts"
    and tasks: "\<And>k u. dget (jq_tasks (co_queue c)) k = Some u \<Longrightarrow>
       (\<exists>u'. dget (jq_tasks (co_queue c1)) k = Some u' \<and> (u' = u \<or> finished u u'))" by blast
  from Cons.hyps(1) [OF one(4) [symmetric] one(2,3), of rt1] obtain c2 rt2 where
    rest: "dispatch_loop mc ts c1 rt1 = (Inr (), c2, rt2)" "ready c2" "list_pending (co_queue c2) = []"
    "\<And>k u. dget (jq_tasks (co_queue c1)) k = Some u \<Longrightarrow> (\<exists>u'. dget (jq_tasks (co_queue c2)) k = Some u' \<and> finished u u')"
    unfolding one(4) by blast
  have "\<exists>u'. dget (jq_tasks (co_queue c2)) k = Some u' \<and> finished u u'" if "dget (jq_tasks (co_queue c)) k = Some u" for k u
  proof -
    from tasks [OF that] obtain u1 where "dget (jq_tasks (co_queue c1)) k = Some u1" "u1 = u \<or> finished u u1" by blast
    moreover from rest(4) [OF this(1)] obtain u2 where "dget (jq_tasks (co_queue c2)) k = Some u2" "finished u1 u2" by blast
    ultimately show ?thesis by (auto simp: finished_def split: if_splits)
  qed
  with one rest show ?case unfolding Cons.hyps(2) [symmetric] by simp
qed

section \<open>Properties\<close>

text \<open>
  C18. Dispatch makes progress: with a sound queue, at least one idle worker and tasks whose execution does
  not raise, dispatching ends normally with no task left pending; every pending task is completed with a
  result and the hash of its content, all other tasks are as before, and a worker is idle again.
\<close>

theorem dispatch_completes_all:
  assumes "ready c" and "never_raises mc c"
  shows "\<exists>c' rt'. dispatch_pending_tasks mc c rt = (Inr (), c', rt') \<and> ready c' \<and> list_pending (co_queue c') = [] \<and>
    (\<forall>k u. dget (jq_tasks (co_queue c)) k = Some u \<longrightarrow>
       (\<exists>u'. dget (jq_tasks (co_queue c')) k = Some u' \<and> finished u u'))"
  using dispatch_finishes [OF assms] by (simp add: dispatch_pending_tasks_def)

section \<open>Collecting results\<close>

text \<open>A report that verification has nothing left to do for.\<close>

definition settled :: "job_queue \<Rightarrow> task_report \<Rightarrow> bool" where
  "settled q r \<longleftrightarrow> (\<forall>t. dget (jq_tasks q) (rp_task_id r) = Some t \<longrightarrow>
     tk_status t \<noteq> COMPLETED \<or> tk_proof_hash t \<noteq> rp_proof_hash r)"

lemma verify_report_settled: "settled (verify_report q r) r"
  by (auto simp: settled_def verify_report_def mark_verified_def split: option.splits)

lemma verify_report_keeps: "settled q r \<Longrightarrow> settled (verify_report q r') r"
  by (auto simp: settled_def verify_report_def mark_verified_def split: option.splits if_splits)

lemma verify_report_id: "settled q r \<Longrightarrow> verify_report q r = q"
  by (auto simp: settled_def verify_report_def split: option.splits)

lemma verify_report_results [simp]: "jq_job_results (verify_report q r) = jq_job_results q"
  by (simp add: verify_report_def mark_verified_def split: option.splits)

lemma verify_all_keeps: "settled q r \<Longrightarrow> settled (foldl verify_report q rs) r"
  by (induction rs arbitrary: q) (simp_all add: verify_report_keeps)

lemma verify_all_settled: "r \<in> set rs \<Longrightarrow> settled (foldl verify_report q rs) r"
proof (induction rs arbitrary: q)
  case (Cons r' rs)
  then show ?case by (auto intro: verify_all_keeps verify_report_settled)
qed simp

lemma verify_all_id: "(\<And>r. r \<in> set rs \<Longrightarrow> settled q r) \<Longrightarrow> foldl verify_report q rs = q"
  by (induction rs) (simp_all add: verify_report_id)

lemma verify_all_twice: "foldl verify_report (foldl verify_report q rs) rs = foldl verify_report q rs"
  by (rule verify_all_id) (rule verify_all_settled)

lemma verify_all_results [simp]: "jq_job_results (foldl verify_report q rs) = jq_job_results q"
  by (induction rs arbitrary: q) simp_all

text \<open>A payment without the time it was queued.\<close>

definition payment_core :: "payment \<Rightarrow> payment" where
  "payment_core p = p\<lparr>py_verified_at := Fin 0\<rparr>"

lemma queue_payments_new:
  "\<exists>new. fst (queue_payments jid rs q ps rt) = ps @ new \<and>
     map payment_core new = map payment_core (fst (queue_payments jid rs q [] rt0))"
proof -
  have gen: "\<exists>new new0. fst (queue_payments jid rs q ps rt) = ps @ new \<and>
      fst (queue_payments jid rs q ps0 rt0) = ps0 @ new0 \<and> map payment_core new = map payment_core new0"
    for ps ps0 rt rt0
  proof (induction rs arbitrary: ps ps0 rt rt0)
    case (Cons r rs)
    show ?case
    proof (cases "dget (jq_tasks q) (rp_task_id r)")
      case None
      with Cons show ?thesis by simp
    next
      case (Some t)
      show ?thesis
      proof (cases "tk_status t = VERIFIED")
        case True
        let ?p = "\<lambda>rt. \<lparr>py_task_id = tk_task_id t, py_worker_id = tk_assigned_worker t,
            py_amount_usd = projr (fdiv (tk_cost_estimate t) (Fin 100)), py_job_id = jid,
            py_proof_hash = tk_proof_hash t, py_verified_at = rt_now rt\<rparr>"
        from Cons [of "ps @ [?p rt]" "rt_tick rt" "ps0 @ [?p rt0]" "rt_tick rt0"] obtain new new0 where
          "fst (queue_payments jid rs q (ps @ [?p rt]) (rt_tick rt)) = (ps @ [?p rt]) @ new"
          "fst (queue_payments jid rs q (ps0 @ [?p rt0]) (rt_tick rt0)) = (ps0 @ [?p rt0]) @ new0"
          "map payment_core new = map payment_core new0" by blast
        moreover have "payment_core (?p rt) = payment_core (?p rt0)" by (simp add: payment_core_def)
        ultimately show ?thesis using Some True
          by - (rule exI [of _ "?p rt # new"], rule exI [of _ "?p rt0 # new0"],
              simp add: time_time_def Let_def)
      next
        case False
        with Some Cons show ?thesis by simp
      qed
    qed
  qed simp
  from gen [of ps rt "[]" rt0] show ?thesis by auto
qed

text \<open>
  Collecting twice pays twice: if a job is reported complete, collecting its results again queues a
  second payment for every result, with the same task, worker, amount and proof.
\<close>

theorem collecting_twice_pays_twice:
  assumes "collect_results jid c rt = (rep, c1, rt1)" and "cl_status rep = ''completed''"
    and "collect_results jid c1 rt1 = (rep2, c2, rt2)"
  shows "\<exists>ps ps'. co_payment_queue c1 = co_payment_queue c @ ps \<and> co_payment_queue c2 = co_payment_queue c1 @ ps' \<and>
    map payment_core ps' = map payment_core ps"
proof -
  let ?rs = "dget_default (jq_job_results (co_queue c)) jid []"
  let ?q = "foldl verify_report (co_queue c) ?rs"
  have fin: "jr_done (get_job_status jid ?q)"
    using assms(1,2) by (auto simp: collect_results_def Let_def case_prod_beta split: if_splits)
  have c1: "co_queue c1 = ?q" "co_payment_queue c1 = fst (queue_payments jid ?rs ?q (co_payment_queue c) rt)"
    using assms(1) fin by (auto simp: collect_results_def Let_def case_prod_beta)
  have "co_payment_queue c2 = fst (queue_payments jid ?rs ?q (co_payment_queue c1) rt1)"
    using assms(3) fin c1(1) verify_all_twice by (auto simp: collect_results_def Let_def case_prod_beta)
  with c1 queue_payments_new [of jid ?rs ?q "co_payment_queue c" rt rt]
    queue_payments_new [of jid ?rs ?q "co_payment_queue c1" rt1 rt] show ?thesis by auto
qed

section \<open>Witnesses\<close>

definition sample_cworker :: worker_node where
  "sample_cworker = \<lparr>wn_worker_id = ''w'', wn_hostname = ''h'', wn_models = [], wn_memory_gb = Fin 16, wn_cpu_cores = 8,
     wn_has_gpu = False, wn_last_heartbeat = Fin 0, wn_current_task = None, wn_stats = worker_stats_init\<rparr>"

definition sample_machine :: machine where
  "sample_machine = \<lparr>mc_ollama = (\<lambda>model prompt. NotFound), mc_file = (\<lambda>path. Missing)\<rparr>"

text \<open>One worker, and a job of one task that nobody has claimed.\<close>

definition sample_coordinator :: coordinator where
  "sample_coordinator = (let (r, q, rt) = submit_job ''other'' [] ''single'' (job_queue_init None) sample_rt;
     (ok, c, rt) = register_worker sample_cworker (coordinator_init None) rt in c\<lparr>co_queue := q\<rparr>)"

lemma sample_ready: "ready sample_coordinator" and sample_never_raises: "never_raises sample_machine sample_coordinator"
proof -
  obtain r q rt where s: "submit_job ''other'' [] ''single'' (job_queue_init None) sample_rt = (r, q, rt)"
    by (metis prod_cases3)
  have "queue_step (job_queue_init None, sample_rt) (q, rt)"
    by (rule step_submit [OF s]) (simp add: job_queue_init_def jq_load_def)
  then have "tasks_ok q" using queue_step_ok tasks_ok_init by fastforce
  then show "ready sample_coordinator"
    using s by (simp add: ready_def sample_coordinator_def register_worker_def time_time_def coordinator_init_def sample_cworker_def)
  have "list_pending (co_queue sample_coordinator) \<noteq> [] \<and>
      list_all (\<lambda>t. tk_task_type t = ''other'') (list_pending (co_queue sample_coordinator))" by code_simp
  then show "never_raises sample_machine sample_coordinator"
    by (auto simp: never_raises_def list_all_iff execute_task_def Let_def)
qed

theorem dispatch_completes_all_witness:
  "\<exists>c' rt'. dispatch_pending_tasks sample_machine sample_coordinator sample_rt = (Inr (), c', rt') \<and>
     list_pending (co_queue c') = []"
  using dispatch_completes_all [OF sample_ready sample_never_raises] by blast

text \<open>A coordinator with one completed and reported task.\<close>

definition reported :: coordinator where
  "reported = (coordinator_init None)\<lparr>co_queue := (job_queue_init None)\<lparr>
     jq_tasks := [(''j-0'', (new_task ''j'' 0 ''review'' [] (Fin 300) (Fin 0))\<lparr>tk_status := COMPLETED,
       tk_assigned_worker := Some ''w'', tk_result := Some [], tk_proof_hash := Some ''h''\<rparr>)],
     jq_job_results := [(''j'', [\<lparr>rp_task_id = ''j-0'', rp_worker = ''w'', rp_proof_hash = Some ''h'',
       rp_result_preview = ''{}''\<rparr>])]\<rparr>\<rparr>"

theorem collecting_twice_pays_twice_witness:
  "let (rep, c1, rt1) = collect_results ''j'' reported sample_rt; (rep2, c2, rt2) = collect_results ''j'' c1 rt1
   in length (co_payment_queue c1) = 1 \<and> length (co_payment_queue c2) = 2"
proof -
  obtain rep c1 rt1 where a: "collect_results ''j'' reported sample_rt = (rep, c1, rt1)" by (metis prod_cases3)
  obtain rep2 c2 rt2 where b: "collect_results ''j'' c1 rt1 = (rep2, c2, rt2)" by (metis prod_cases3)
  have run: "cl_status rep = ''completed'' \<and> length (co_payment_queue c1) = 1 \<and> co_payment_queue reported = []"
    using a by (auto simp: collect_results_def reported_def coordinator_init_def job_queue_init_def jq_load_def
        dget_default_def verify_report_def mark_verified_def get_job_status_def count_tasks_def new_task_def
        jq_persist_def put_task_def time_time_def Let_def case_prod_beta split: if_splits)
  from collecting_twice_pays_twice [OF a _ b] run obtain ps ps' where
    "co_payment_queue c1 = ps" "co_payment_queue c2 = co_payment_queue c1 @ ps'" "map payment_core ps' = map payment_core ps"
    by auto
  then have "length (co_payment_queue c2) = 2"
    using run by (metis length_append map_eq_imp_length_eq one_add_one)
  with a b run show ?thesis by simp
qed

end
