(* ===== verification/Verifier_Stack.thy ===== *)
theory Verifier_Stack
  imports PyNum
begin

text \<open>
  \<open>membra_sdk/rivl/verifier_stack.py\<close>: the deterministic checks of code, payments, votes and policy. The
  parser of the language (\<open>ast.parse\<close>, giving the text of an error or nothing) and the process that runs
  the tests (giving exit code and output, or the text of an exception) are parameters.
\<close>

section \<open>Security patterns\<close>

text \<open>
  The regular expressions of \<open>_scan_security\<close> consist of characters, \<open>\s*\<close> and a class of the two quotes,
  and are searched ignoring case.
\<close>

datatype pat_item = PChar char | PSpaces | PQuote

definition is_quote :: "char \<Rightarrow> bool" where
  "is_quote c \<longleftrightarrow> c = CHR 0x22 \<or> c = CHR 0x27"

fun matches_at :: "pat_item list \<Rightarrow> string \<Rightarrow> bool" where
  "matches_at [] s = True"
| "matches_at (PChar c # ps) [] = False"
| "matches_at (PChar c # ps) (d # s) = (lower_char c = lower_char d \<and> matches_at ps s)"
| "matches_at (PQuote # ps) [] = False"
| "matches_at (PQuote # ps) (d # s) = (is_quote d \<and> matches_at ps s)"
| "matches_at (PSpaces # ps) [] = matches_at ps []"
| "matches_at (PSpaces # ps) (d # s) = (matches_at ps (d # s) \<or> is_space d \<and> matches_at (PSpaces # ps) s)"

text \<open>\<open>re.search\<close>.\<close>

fun re_search :: "pat_item list \<Rightarrow> string \<Rightarrow> bool" where
  "re_search ps [] = matches_at ps []"
| "re_search ps (c # s) = (matches_at ps (c # s) \<or> re_search ps s)"

abbreviation lit :: "string \<Rightarrow> pat_item list" where
  "lit s \<equiv> map PChar s"

definition security_patterns :: "(pat_item list \<times> string) list" where
  "security_patterns = [
     (lit ''password'' @ [PSpaces] @ lit ''='' @ [PSpaces, PQuote], ''Hardcoded password''),
     (lit ''api_key'' @ [PSpaces] @ lit ''='' @ [PSpaces, PQuote], ''Hardcoded API key''),
     (lit ''secret'' @ [PSpaces] @ lit ''='' @ [PSpaces, PQuote], ''Hardcoded secret''),
     (lit ''private_key'' @ [PSpaces] @ lit ''='' @ [PSpaces, PQuote], ''Hardcoded private key''),
     (lit ''token'' @ [PSpaces] @ lit ''='' @ [PSpaces, PQuote] @ lit ''sk-'', ''Hardcoded Stripe token''),
     (lit ''eval'' @ [PSpaces] @ lit ''('', ''Dangerous eval()''),
     (lit ''exec'' @ [PSpaces] @ lit ''('', ''Dangerous exec()''),
     (lit ''subprocess.call'' @ [PSpaces] @ lit ''('' @ [PSpaces, PQuote] @ lit ''rm'', ''Dangerous rm command''),
     (lit ''os.system'' @ [PSpaces] @ lit ''('', ''Dangerous os.system()''),
     (lit ''__import__'' @ [PSpaces] @ lit ''('', ''Dynamic import''),
     (lit ''pickle.loads'', ''Unsafe pickle'')]"

text \<open>The issues of \<open>_scan_security\<close>; the scan has passed if there are none.\<close>

definition scan_security :: "string \<Rightarrow> string list" where
  "scan_security code = map (\<lambda>(p, d). ''Security: '' @ d) (filter (\<lambda>(p, d). re_search p code) security_patterns)"

section \<open>Code\<close>

type_synonym parser = "string \<Rightarrow> string option"
type_synonym test_runner = "string list \<Rightarrow> string + (int \<times> string)"

record test_report =
  tr_ran :: bool
  tr_passed :: bool
  tr_output :: "string option"
  tr_error :: "string option"

record code_report =
  co_passed :: bool
  co_issues :: "string list"
  co_security :: "string list"
  co_syntax_error :: "string option"
  co_tests :: test_report

definition run_test_command :: "test_runner \<Rightarrow> bool \<Rightarrow> string list \<Rightarrow> test_report \<times> string list" where
  "run_test_command run run_tests cmd =
     (if \<not> run_tests \<or> cmd = [] then (\<lparr>tr_ran = False, tr_passed = False, tr_output = None, tr_error = None\<rparr>, [])
      else case run cmd of
        Inl msg \<Rightarrow> (\<lparr>tr_ran = False, tr_passed = False, tr_output = None, tr_error = Some msg\<rparr>,
          [''Test execution failed: '' @ msg])
      | Inr (code, stdout) \<Rightarrow> (\<lparr>tr_ran = True, tr_passed = (code = 0), tr_output = Some (take 500 stdout), tr_error = None\<rparr>,
          if code = 0 then [] else [''Tests failed'']))"

text \<open>\<open>verify_code\<close>; no command is the empty list.\<close>

definition verify_code :: "parser \<Rightarrow> test_runner \<Rightarrow> string \<Rightarrow> bool \<Rightarrow> string list \<Rightarrow> code_report" where
  "verify_code parse run code run_tests cmd =
     (let security = scan_security code; syn = parse code;
          (tests, test_issues) = run_test_command run run_tests cmd;
          issues = security @ (case syn of None \<Rightarrow> [] | Some err \<Rightarrow> [''Syntax error: '' @ err]) @ test_issues
      in \<lparr>co_passed = (security = [] \<and> syn = None \<and> test_issues = []), co_issues = issues, co_security = security,
          co_syntax_error = syn, co_tests = tests\<rparr>)"

section \<open>Payments, votes and policy\<close>

record payment_report =
  pm_passed :: bool
  pm_issues :: "string list"
  pm_amount :: json
  pm_processor :: json

definition missing_fields :: "json dict \<Rightarrow> string list" where
  "missing_fields receipt = filter (\<lambda>k. k \<notin> set (dkeys receipt)) [''processor'', ''amount'', ''currency'', ''status'']"

definition verify_payment :: "json dict \<Rightarrow> payment_report result" where
  "verify_payment receipt =
     (let missing = missing_fields receipt;
          status = dget_default receipt ''status'' JNull; amount = dget_default receipt ''amount'' (JInt 0);
          issues = map (\<lambda>k. ''Missing receipt field: '' @ k) missing
            @ (if status = JStr ''succeeded'' then [] else [''Payment status: '' @ json_text status])
      in rbind (num_le amount (JInt 0)) (\<lambda>bad. let issues = issues @ (if bad then [''Payment amount must be positive''] else [])
           in Inr \<lparr>pm_passed = (missing = [] \<and> status = JStr ''succeeded'' \<and> \<not> bad), pm_issues = issues,
                pm_amount = amount, pm_processor = dget_default receipt ''processor'' (JStr ''unknown'')\<rparr>))"

record consensus_report =
  cs_passed :: bool
  cs_issues :: "string list"
  cs_yes_votes :: int
  cs_total_votes :: int
  cs_ratio :: pyfloat

text \<open>\<open>f"{x:.n%}"\<close>.\<close>

definition percent :: "nat \<Rightarrow> pyfloat \<Rightarrow> string" where
  "percent n x = ffixed n (fmul x (Fin 100)) @ ''%''"

definition yes_votes :: "json dict list \<Rightarrow> int" where
  "yes_votes votes = int (length (filter (\<lambda>v. dget v ''vote'' = Some (JStr ''yes'')) votes))"

text \<open>The counts are missing from the report when there are no votes.\<close>

definition verify_consensus :: "json dict list \<Rightarrow> pyfloat \<Rightarrow> consensus_report result" where
  "verify_consensus votes threshold =
     (if votes = [] then Inr \<lparr>cs_passed = False, cs_issues = [''No votes received''], cs_yes_votes = 0,
        cs_total_votes = 0, cs_ratio = Fin 0\<rparr>
      else let n = int (length votes); yes = yes_votes votes in
        rbind (truediv yes n) (\<lambda>ratio. let passed = fle threshold ratio in
          Inr \<lparr>cs_passed = passed, cs_issues = (if passed then [] else
              [''Consensus failed: '' @ dec_int yes @ ''/'' @ dec_int n @ '' ('' @ percent 2 ratio @ ''), need '' @ percent 0 threshold]),
            cs_yes_votes = yes, cs_total_votes = n, cs_ratio = fround ratio 3\<rparr>))"

definition DEFAULT_RATIO :: pyfloat where
  "DEFAULT_RATIO = mkf (66 / 100)"

definition policy_issues :: "string \<Rightarrow> json dict \<Rightarrow> string list" where
  "policy_issues action policy =
     (if str_in ''defi'' (lower action) \<or> str_in ''trade'' (lower action)
      then (if dtruthy policy ''defi_enabled'' then [] else [''DeFi is disabled by policy''])
        @ (if dget_default policy ''mode'' (JStr ''simulation'') \<noteq> JStr ''simulation'' \<and> \<not> dtruthy policy ''mainnet_enabled''
           then [''Mainnet transactions require explicit enable''] else [])
        @ (if jtruthy (dget_default policy ''require_human_approval'' (JBool True)) then []
           else [''Human approval required for financial actions''])
      else [])
     @ (if str_in ''mainnet'' (lower action) \<and> \<not> dtruthy policy ''mainnet_enabled'' then [''Mainnet explicitly disabled''] else [])"

text \<open>\<open>passed\<close> becomes false with every issue.\<close>

definition verify_policy :: "string \<Rightarrow> json dict \<Rightarrow> bool \<times> string list" where
  "verify_policy action policy = (let issues = policy_issues action policy in (issues = [], issues))"

section \<open>The whole stack\<close>

record full_report =
  fr_overall_passed :: bool
  fr_results :: "(bool \<times> string list) list"
  fr_issues :: "string list"
  fr_issue_count :: int

text \<open>
  \<open>run_full_verification\<close>. What is not given is empty. No test command reaches \<open>verify_code\<close>. Of each
  result the verdict and the issues are kept.
\<close>

definition run_full_verification ::
  "parser \<Rightarrow> test_runner \<Rightarrow> string \<Rightarrow> json dict \<Rightarrow> json dict list \<Rightarrow> json dict \<Rightarrow> bool \<Rightarrow> full_report result" where
  "run_full_verification parse run artifact receipt votes policy run_tests =
     (let code = verify_code parse run artifact run_tests [] in
      rbind (if receipt = [] then Inr [] else rbind (verify_payment receipt) (\<lambda>p. Inr [(pm_passed p, pm_issues p)])) (\<lambda>payment.
      rbind (if votes = [] then Inr [] else rbind (verify_consensus votes DEFAULT_RATIO) (\<lambda>c. Inr [(cs_passed c, cs_issues c)])) (\<lambda>consensus.
      let results = [(co_passed code, co_issues code)] @ payment @ consensus
            @ (if policy = [] then [] else [verify_policy artifact policy]);
          issues = concat (map snd results)
      in Inr \<lparr>fr_overall_passed = list_all fst results, fr_results = results, fr_issues = issues,
           fr_issue_count = int (length issues)\<rparr>)))"

section \<open>Properties\<close>

lemma code_passed: "co_passed (verify_code parse run code rt cmd) \<longleftrightarrow> co_issues (verify_code parse run code rt cmd) = []"
  by (auto simp: verify_code_def Let_def case_prod_beta split: option.splits)

lemma code_without_command:
  "co_passed (verify_code parse run code rt []) \<longleftrightarrow> scan_security code = [] \<and> parse code = None"
  by (auto simp: verify_code_def Let_def run_test_command_def)

lemma payment_passed:
  assumes "verify_payment receipt = Inr p"
  shows "pm_passed p \<longleftrightarrow> pm_issues p = []"
    and "pm_passed p \<longleftrightarrow> {''processor'', ''amount'', ''currency'', ''status''} \<subseteq> set (dkeys receipt) \<and>
      dget receipt ''status'' = Some (JStr ''succeeded'') \<and> num_le (dget_default receipt ''amount'' (JInt 0)) (JInt 0) = Inr False"
proof -
  obtain bad where bad: "num_le (dget_default receipt ''amount'' (JInt 0)) (JInt 0) = Inr bad"
    using assms by (cases "num_le (dget_default receipt ''amount'' (JInt 0)) (JInt 0)") (auto simp: verify_payment_def Let_def)
  have st: "dget_default receipt ''status'' JNull = JStr s \<longleftrightarrow> dget receipt ''status'' = Some (JStr s)" for s
    by (simp add: dget_default_def split: option.split)
  show "pm_passed p \<longleftrightarrow> pm_issues p = []"
    using assms bad by (auto simp: verify_payment_def Let_def split: if_splits)
  have m: "missing_fields receipt = [] \<longleftrightarrow> {''processor'', ''amount'', ''currency'', ''status''} \<subseteq> set (dkeys receipt)"
    by (simp add: missing_fields_def)
  show "pm_passed p \<longleftrightarrow> {''processor'', ''amount'', ''currency'', ''status''} \<subseteq> set (dkeys receipt) \<and>
      dget receipt ''status'' = Some (JStr ''succeeded'') \<and> num_le (dget_default receipt ''amount'' (JInt 0)) (JInt 0) = Inr False"
    using assms bad unfolding m [symmetric] by (auto simp: verify_payment_def Let_def st)
qed

lemma yes_votes_le: "0 \<le> yes_votes votes" "yes_votes votes \<le> int (length votes)"
  by (simp_all add: yes_votes_def)

lemma consensus_passed:
  assumes "votes \<noteq> []" and "length votes < 2 ^ 45"
  shows "\<exists>c. verify_consensus votes DEFAULT_RATIO = Inr c \<and> (cs_passed c \<longleftrightarrow> cs_issues c = []) \<and>
    (cs_passed c \<longleftrightarrow> 33 * int (length votes) \<le> 50 * yes_votes votes)"
proof -
  let ?n = "int (length votes)" and ?y = "yes_votes votes"
  have n: "0 < ?n" "?n < 2 ^ 45" using assms by auto
  then have q: "truediv ?y ?n = Inr (Fin (rnd (of_int ?y / of_int ?n)))"
    using yes_votes_le [of votes] by (intro truediv_small) simp_all
  have t: "DEFAULT_RATIO = Fin (rnd (of_int 33 / of_int 50))"
    unfolding DEFAULT_RATIO_def by (subst mkf_moderate) simp_all
  have "rnd (of_int 33 / of_int 50) \<le> rnd (of_int ?y / of_int ?n) \<longleftrightarrow> 33 * ?n \<le> ?y * 50"
    using n yes_votes_le [of votes] by (intro rnd_quotient_le_iff) simp_all
  then show ?thesis using assms(1) unfolding verify_consensus_def t Let_def q by (simp add: mult.commute)
qed

text \<open>
  C25. The verdict of the stack is exact: it is positive exactly when no issue is reported, and that is when
  the scan finds no dangerous pattern, the code parses, and for each piece of evidence that is given the
  receipt is complete, succeeded and positive, at least 66 percent of the votes say yes, and the
  policy has no objection.
\<close>

theorem verification_exact:
  assumes "run_full_verification parse run artifact receipt votes policy run_tests = Inr r" and "length votes < 2 ^ 45"
  shows "(fr_overall_passed r \<longleftrightarrow> fr_issues r = []) \<and>
    (fr_overall_passed r \<longleftrightarrow> scan_security artifact = [] \<and> parse artifact = None \<and>
      (receipt = [] \<or> {''processor'', ''amount'', ''currency'', ''status''} \<subseteq> set (dkeys receipt) \<and>
        dget receipt ''status'' = Some (JStr ''succeeded'') \<and> num_le (dget_default receipt ''amount'' (JInt 0)) (JInt 0) = Inr False) \<and>
      33 * int (length votes) \<le> 50 * yes_votes votes \<and>
      (policy = [] \<or> policy_issues artifact policy = []))"
proof -
  obtain pay where pay: "(if receipt = [] then Inr [] else rbind (verify_payment receipt) (\<lambda>p. Inr [(pm_passed p, pm_issues p)])) = Inr pay"
    using assms(1) by (cases "verify_payment receipt") (auto simp: run_full_verification_def Let_def split: if_splits)
  obtain con where con: "(if votes = [] then Inr [] else rbind (verify_consensus votes DEFAULT_RATIO) (\<lambda>c. Inr [(cs_passed c, cs_issues c)])) = Inr con"
    using consensus_passed [of votes] assms(2) by (cases "votes = []") auto
  let ?code = "verify_code parse run artifact run_tests []"
  have pays: "list_all fst pay \<longleftrightarrow> concat (map snd pay) = []"
    "list_all fst pay \<longleftrightarrow> receipt = [] \<or> {''processor'', ''amount'', ''currency'', ''status''} \<subseteq> set (dkeys receipt) \<and>
        dget receipt ''status'' = Some (JStr ''succeeded'') \<and> num_le (dget_default receipt ''amount'' (JInt 0)) (JInt 0) = Inr False"
    unfolding atomize_conj
  proof (cases "receipt = []")
    case False
    with pay obtain p where p: "verify_payment receipt = Inr p" "pay = [(pm_passed p, pm_issues p)]"
      by (cases "verify_payment receipt") simp_all
    show "(list_all fst pay \<longleftrightarrow> concat (map snd pay) = []) \<and>
      (list_all fst pay \<longleftrightarrow> receipt = [] \<or> {''processor'', ''amount'', ''currency'', ''status''} \<subseteq> set (dkeys receipt) \<and>
        dget receipt ''status'' = Some (JStr ''succeeded'') \<and> num_le (dget_default receipt ''amount'' (JInt 0)) (JInt 0) = Inr False)"
      using payment_passed(1) [OF p(1)] False unfolding payment_passed(2) [OF p(1), symmetric] p(2) by simp
  qed (use pay in simp)
  have cons: "list_all fst con \<longleftrightarrow> concat (map snd con) = []"
    "list_all fst con \<longleftrightarrow> 33 * int (length votes) \<le> 50 * yes_votes votes"
    using con consensus_passed [of votes] assms(2) by (cases "votes = []"; auto simp: yes_votes_def)+
  have r: "fr_overall_passed r \<longleftrightarrow> co_passed ?code \<and> list_all fst pay \<and> list_all fst con \<and> (policy = [] \<or> policy_issues artifact policy = [])"
    "fr_issues r = co_issues ?code @ concat (map snd pay) @ concat (map snd con) @ (if policy = [] then [] else policy_issues artifact policy)"
    using assms(1) unfolding run_full_verification_def Let_def pay con
    by (auto simp: verify_policy_def Let_def split: if_splits)
  show ?thesis unfolding r using pays cons code_passed [of parse run artifact run_tests "[]"]
      code_without_command [of parse run artifact run_tests] by auto
qed

text \<open>Without a receipt, votes or a policy, clean code passes although nothing was paid, voted or run.\<close>

lemma evidence_is_optional:
  assumes "scan_security artifact = []" and "parse artifact = None"
  shows "\<exists>r. run_full_verification parse run artifact [] [] [] run_tests = Inr r \<and> fr_overall_passed r \<and>
    co_tests (verify_code parse run artifact run_tests []) = \<lparr>tr_ran = False, tr_passed = False, tr_output = None, tr_error = None\<rparr>"
  using assms by (simp add: run_full_verification_def verify_code_def run_test_command_def Let_def)

text \<open>Sixty-six of a hundred votes are less than two thirds and pass.\<close>

lemma less_than_two_thirds_passes:
  assumes "length votes = 100" and "yes_votes votes = 66"
  shows "\<exists>c. verify_consensus votes DEFAULT_RATIO = Inr c \<and> cs_passed c \<and> 3 * cs_yes_votes c < 2 * cs_total_votes c"
proof -
  have "votes \<noteq> []" using assms by auto
  with consensus_passed [of votes] assms obtain c where "verify_consensus votes DEFAULT_RATIO = Inr c" "cs_passed c" by auto
  moreover from this(1) \<open>votes \<noteq> []\<close> assms have "cs_yes_votes c = 66 \<and> cs_total_votes c = 100"
    by (cases "truediv 66 100") (auto simp: verify_consensus_def Let_def)
  ultimately show ?thesis by simp
qed

definition sample_votes :: "json dict list" where
  "sample_votes = [[(''vote'', JStr ''yes'')], [(''vote'', JStr ''yes'')], [(''vote'', JStr ''no'')]]"

theorem verification_exact_witness:
  "\<exists>r. run_full_verification (\<lambda>s. None) (\<lambda>c. Inr (0, [])) ''x = eval (y)'' [] sample_votes [] True = Inr r \<and>
    \<not> fr_overall_passed r \<and> fr_issues r \<noteq> []"
proof -
  let ?run = "run_full_verification (\<lambda>s. None) (\<lambda>c. Inr (0, [])) ''x = eval (y)'' [] sample_votes [] True"
  have len: "length sample_votes < 2 ^ 45" "sample_votes \<noteq> []" by (simp_all add: sample_votes_def)
  obtain r where r: "?run = Inr r"
    using consensus_passed [OF len(2,1)] len by (auto simp: run_full_verification_def Let_def)
  have "scan_security ''x = eval (y)'' \<noteq> []" by code_simp
  with verification_exact [OF r len(1)] r show ?thesis by auto
qed

end
