(* ===== verification/Brain.thy ===== *)
theory Brain
  imports Worker_Node Verifier_Stack
begin

text \<open>
  \<open>membra_sdk/brain/router.py\<close>, \<open>judge.py\<close>, \<open>synthesizer.py\<close> and \<open>moa_orchestrator.py\<close>: a prompt is decomposed into subtasks
  for specialist workers, their outputs are judged, and the ones that reach the threshold are merged into
  an artifact. Outputs are JSON values, which \<open>str\<close> prints as Python does. The printing of progress is left out.
\<close>

section \<open>Router\<close>

definition ROLES :: "string list" where
  "ROLES = [''planner'', ''coder'', ''security'', ''tester'', ''docs'', ''researcher'', ''critic'']"

definition DEFAULT_MODELS :: "string dict" where
  "DEFAULT_MODELS = [(''planner'', ''llama3.1:8b''), (''coder'', ''qwen2.5-coder''), (''security'', ''deepseek-coder:1.3b''),
     (''tester'', ''llama3.1:8b''), (''docs'', ''phi3:mini''), (''researcher'', ''llama3.1:8b''), (''critic'', ''deepseek-r1:latest'')]"

text \<open>\<open>role_models or DEFAULT_MODELS.copy()\<close>: an empty dictionary counts as none.\<close>

definition router_init :: "string dict option \<Rightarrow> string dict" where
  "router_init role_models = (case role_models of None \<Rightarrow> DEFAULT_MODELS | Some m \<Rightarrow> if m = [] then DEFAULT_MODELS else m)"

record subtask =
  sb_id :: string
  sb_description :: string
  sb_role :: string
  sb_model :: string

record analysis =
  an_subtasks :: "subtask list"
  an_assignments :: "string dict"
  an_dependencies :: "string list dict"

record plan =
  pl_plan_id :: string
  pl_original_prompt :: string
  pl_subtasks :: "subtask list"
  pl_worker_assignments :: "string dict"
  pl_dependencies :: "string list dict"
  pl_quality_threshold :: pyfloat
  pl_estimated_steps :: int
  pl_created_at :: pyfloat

definition step_id :: "int \<Rightarrow> string" where
  "step_id n = ''step-'' @ dec_int n"

text \<open>Appending a subtask with its assignment and what it depends on; a role without a model raises.\<close>

definition add_subtask :: "string dict \<Rightarrow> string \<Rightarrow> string \<Rightarrow> string \<Rightarrow> string list \<Rightarrow> analysis \<Rightarrow> analysis result" where
  "add_subtask models sid desc role deps a = (case dget models role of None \<Rightarrow> Inl (KeyError role)
     | Some m \<Rightarrow> Inr (a\<lparr>an_subtasks := an_subtasks a @ [\<lparr>sb_id = sid, sb_description = desc, sb_role = role, sb_model = m\<rparr>],
         an_assignments := dset sid role (an_assignments a), an_dependencies := dset sid deps (an_dependencies a)\<rparr>))"

text \<open>An optional step: the number of the next step goes up when it is taken.\<close>

definition optional_step :: "string dict \<Rightarrow> bool \<Rightarrow> string \<Rightarrow> string \<Rightarrow> string list \<Rightarrow> analysis \<times> int \<Rightarrow> (analysis \<times> int) result" where
  "optional_step models c desc role deps as = (case as of (a, step) \<Rightarrow>
     if c then rbind (add_subtask models (step_id step) desc role deps a) (\<lambda>a. Inr (a, step + 1)) else Inr (a, step))"

definition analyze_needs :: "string dict \<Rightarrow> bool \<Rightarrow> bool \<Rightarrow> bool \<Rightarrow> bool \<Rightarrow> bool \<Rightarrow> analysis result" where
  "analyze_needs models needs_code needs_tests needs_security needs_docs needs_research =
     rbind (case dget models ''planner'' of None \<Rightarrow> Inl (KeyError ''planner'')
       | Some m \<Rightarrow> Inr \<lparr>an_subtasks = [\<lparr>sb_id = ''plan'', sb_description = ''Create execution plan for the task'', sb_role = ''planner'', sb_model = m\<rparr>],
           an_assignments = [(''plan'', ''planner'')], an_dependencies = []\<rparr>) (\<lambda>a.
     rbind (optional_step models needs_research ''Research topic and find relevant information'' ''researcher'' [''plan''] (a, 1)) (\<lambda>(a, step).
     rbind (if \<not> needs_code then Inr (a, step) else let code_step = step in
         rbind (optional_step models True ''Write the main code/artifact'' ''coder''
           (''plan'' # (if needs_research then [step_id (step - 1)] else [])) (a, step)) (\<lambda>as.
         rbind (optional_step models needs_security ''Review code for security issues'' ''security'' [step_id code_step] as) (\<lambda>as.
         rbind (optional_step models needs_tests ''Write and run tests'' ''tester'' [step_id code_step] as) (\<lambda>as.
         optional_step models needs_docs ''Write documentation and README'' ''docs'' [step_id code_step] as)))) (\<lambda>(a, step).
     rbind (if length (an_subtasks a) \<le> 1 then
         add_subtask models (step_id step) ''Generate comprehensive answer'' ''researcher'' [''plan''] a else Inr a) (\<lambda>a.
       add_subtask models (step_id (int (length (an_subtasks a)))) ''Review all outputs and score quality'' ''critic'' (map sb_id (an_subtasks a)) a))))"

definition any_in :: "string list \<Rightarrow> string \<Rightarrow> bool" where
  "any_in ks s = list_ex (\<lambda>k. str_in k s) ks"

definition analyze_prompt :: "string dict \<Rightarrow> string \<Rightarrow> analysis result" where
  "analyze_prompt models prompt = (let p = lower prompt in analyze_needs models
     (any_in [''code'', ''build'', ''app'', ''bot'', ''script'', ''function'', ''program'', ''deploy'', ''api'', ''smart contract''] p)
     (any_in [''test'', ''pytest'', ''unit test'', ''integration''] p)
     (any_in [''secure'', ''audit'', ''vulnerability'', ''secret'', ''key'', ''password'', ''token'', ''webhook''] p)
     (any_in [''readme'', ''documentation'', ''docstring'', ''comment'', ''explain'', ''tutorial''] p)
     (any_in [''research'', ''find'', ''search'', ''compare'', ''analyze'', ''what is'', ''how does'', ''explain''] p))"

definition router_plan :: "string dict \<Rightarrow> string \<Rightarrow> runtime \<Rightarrow> plan result \<times> runtime" where
  "router_plan models prompt rt = (case analyze_prompt models prompt of Inl x \<Rightarrow> (Inl x, rt)
     | Inr a \<Rightarrow> let (t, rt) = time_time rt in (case ftrunc t of Inl x \<Rightarrow> (Inl x, rt)
       | Inr secs \<Rightarrow> let (now, rt) = time_time rt in
           (Inr \<lparr>pl_plan_id = ''plan-'' @ dec_int secs, pl_original_prompt = prompt, pl_subtasks = an_subtasks a,
              pl_worker_assignments = an_assignments a, pl_dependencies = an_dependencies a, pl_quality_threshold = Fin (3 / 4),
              pl_estimated_steps = int (length (an_subtasks a)), pl_created_at = now\<rparr>, rt)))"

section \<open>Judge\<close>

record judgement =
  jd_judgment_id :: string
  jd_worker_id :: string
  jd_role :: string
  jd_safety :: pyfloat
  jd_completeness :: pyfloat
  jd_style :: pyfloat
  jd_accuracy :: pyfloat
  jd_overall :: pyfloat
  jd_passed :: bool
  jd_safety_flags :: "string list"
  jd_created_at :: pyfloat

record judge_brain =
  jb_safety_threshold :: pyfloat
  jb_judgment_log :: "judgement list"

definition judge_init :: judge_brain where
  "judge_init = \<lparr>jb_safety_threshold = mkf (9 / 10), jb_judgment_log = []\<rparr>"

text \<open>The patterns with the first thirty characters of their source text.\<close>

definition dangerous_patterns :: "(pat_item list \<times> string) list" where
  "dangerous_patterns = (let bs = [CHR 0x5C]; sp = bs @ ''s*''; qs = ''['' @ [CHR 0x27] @ bs @ [CHR 0x22] @ '']'' in [
     (lit ''password'' @ [PSpaces] @ lit ''='' @ [PSpaces, PQuote], ''password'' @ sp @ ''='' @ sp @ qs),
     (lit ''api_key'' @ [PSpaces] @ lit ''='' @ [PSpaces, PQuote], ''api_key'' @ sp @ ''='' @ sp @ qs),
     (lit ''secret'' @ [PSpaces] @ lit ''='' @ [PSpaces, PQuote], ''secret'' @ sp @ ''='' @ sp @ qs),
     (lit ''private_key'' @ [PSpaces] @ lit ''='' @ [PSpaces, PQuote], ''private_key'' @ sp @ ''='' @ sp @ qs),
     (lit ''token'' @ [PSpaces] @ lit ''='' @ [PSpaces, PQuote] @ lit ''sk-'', ''token'' @ sp @ ''='' @ sp @ qs @ ''sk-''),
     (lit ''eval'' @ [PSpaces] @ lit ''('', ''eval'' @ sp @ bs @ ''(''),
     (lit ''exec'' @ [PSpaces] @ lit ''('', ''exec'' @ sp @ bs @ ''(''),
     (lit ''subprocess.call'' @ [PSpaces] @ lit ''('' @ [PSpaces, PQuote] @ lit ''rm'',
       ''subprocess'' @ bs @ ''.call'' @ sp @ bs @ ''('' @ sp @ qs @ ''rm''),
     (lit ''os.system'' @ [PSpaces] @ lit ''('', ''os'' @ bs @ ''.system'' @ sp @ bs @ ''('')])"

definition check_safety :: "json \<Rightarrow> string list" where
  "check_safety out = (let text = lower (json_text out) in
     map (\<lambda>(p, d). ''Dangerous pattern detected: '' @ take 30 d @ ''...'') (filter (\<lambda>(p, d). re_search p text) dangerous_patterns))"

text \<open>Adding the parts of a score whose condition holds, in order.\<close>

definition add_parts :: "rat \<Rightarrow> (bool \<times> rat) list \<Rightarrow> pyfloat" where
  "add_parts base parts = fmin (foldl (\<lambda>s (c, x). if c then fadd s (mkf x) else s) (mkf base) parts) (Fin 1)"

definition score_completeness :: "string \<Rightarrow> pyfloat" where
  "score_completeness text = add_parts (1 / 2) [(500 < length text, 1 / 5), (1000 < length text, 1 / 10),
     (str_in ''def '' text \<or> str_in ''class '' text, 1 / 10), (str_in ''test'' (lower text), 1 / 20),
     (str_in ''#'' text \<or> str_in (replicate 3 CHR 0x22) text, 1 / 20)]"

definition score_style :: "string \<Rightarrow> string \<Rightarrow> pyfloat" where
  "score_style text role = add_parts (7 / 10) [
     (role = ''coder'' \<and> 5 < length (filter (\<lambda>c. c = CHR 0x0A) text), 1 / 10),
     (role = ''coder'' \<and> (str_in ''    '' text \<or> CHR 0x09 \<in> set text), 1 / 10),
     (role = ''coder'' \<and> str_in ''# '' text, 1 / 20),
     (role = ''docs'' \<and> str_in ''#'' text, 1 / 10), (role = ''docs'' \<and> str_in (replicate 3 CHR 0x60) text, 1 / 10)]"

definition judge_score :: "string \<Rightarrow> string \<Rightarrow> json \<Rightarrow> judge_brain \<Rightarrow> runtime \<Rightarrow> judgement result \<times> judge_brain \<times> runtime" where
  "judge_score worker_id role out jb rt =
     (let flags = check_safety out; safety = (if flags \<noteq> [] then Fin 0 else Fin 1); text = json_text out;
          completeness = score_completeness text; style = score_style text role; accuracy = mkf (85 / 100) in
      case fdiv (fsum [safety, completeness, style, accuracy]) (Fin 4) of Inl x \<Rightarrow> (Inl x, jb, rt)
      | Inr overall \<Rightarrow> let passed = (fle (jb_safety_threshold jb) safety \<and> fle (mkf (6 / 10)) overall); (t, rt) = time_time rt in
        (case ftrunc t of Inl x \<Rightarrow> (Inl x, jb, rt)
         | Inr secs \<Rightarrow> let (now, rt) = time_time rt;
             j = \<lparr>jd_judgment_id = ''jdg-'' @ dec_int secs @ ''-'' @ worker_id, jd_worker_id = worker_id, jd_role = role,
               jd_safety = safety, jd_completeness = completeness, jd_style = style, jd_accuracy = accuracy,
               jd_overall = fround overall 3, jd_passed = passed, jd_safety_flags = flags, jd_created_at = now\<rparr>
           in (Inr j, jb\<lparr>jb_judgment_log := jb_judgment_log jb @ [j]\<rparr>, rt)))"

text \<open>The output of a specialist, as the orchestrators record it.\<close>

record spec_out =
  so_worker_id :: string
  so_role :: string
  so_task_id :: string
  so_result :: json

text \<open>Judging outputs one after the other; the scores are kept per worker.\<close>

fun judge_all :: "spec_out list \<Rightarrow> pyfloat dict \<Rightarrow> judge_brain \<Rightarrow> runtime \<Rightarrow> pyfloat dict result \<times> judge_brain \<times> runtime" where
  "judge_all [] scores jb rt = (Inr scores, jb, rt)"
| "judge_all (out # outs) scores jb rt = (case judge_score (so_worker_id out) (so_role out) (so_result out) jb rt of
      (Inl x, jb, rt) \<Rightarrow> (Inl x, jb, rt)
    | (Inr j, jb, rt) \<Rightarrow> judge_all outs (dset (so_worker_id out) (jd_overall j) scores) jb rt)"

text \<open>The first entry with the largest value.\<close>

fun best_entry :: "'k \<times> pyfloat \<Rightarrow> ('k \<times> pyfloat) list \<Rightarrow> 'k \<times> pyfloat" where
  "best_entry b [] = b"
| "best_entry b (e # es) = best_entry (if flt (snd b) (snd e) then e else b) es"

record comparison =
  cp_consensus :: "bool option"
  cp_best_worker :: string
  cp_best_score :: pyfloat
  cp_agreement_rate :: pyfloat
  cp_all_scores :: "pyfloat dict"

definition judge_compare :: "spec_out list \<Rightarrow> judge_brain \<Rightarrow> runtime \<Rightarrow> comparison result \<times> judge_brain \<times> runtime" where
  "judge_compare outs jb rt =
     (if outs = [] then (Inr \<lparr>cp_consensus = None, cp_best_worker = [], cp_best_score = Fin 0, cp_agreement_rate = Fin 0, cp_all_scores = []\<rparr>, jb, rt)
      else case judge_all outs [] jb rt of (Inl x, jb, rt) \<Rightarrow> (Inl x, jb, rt)
      | (Inr scores, jb, rt) \<Rightarrow> let (w, b) = best_entry (hd scores) (tl scores);
          agreement = int (length (filter (\<lambda>s. fle (fsub b (mkf (15 / 100))) s) (dvalues scores)))
        in (rbind (truediv agreement (int (length scores))) (\<lambda>rate. Inr \<lparr>cp_consensus = Some (fle (mkf (66 / 100)) rate), cp_best_worker = w,
              cp_best_score = b, cp_agreement_rate = fround rate 2, cp_all_scores = scores\<rparr>), jb, rt))"

record judge_stats =
  jst_total :: int
  jst_passed :: int
  jst_failed :: int
  jst_average_score :: pyfloat
  jst_pass_rate :: pyfloat

definition judge_get_stats :: "judge_brain \<Rightarrow> judge_stats result" where
  "judge_get_stats jb = (let n = int (length (jb_judgment_log jb)); passed = int (length (filter jd_passed (jb_judgment_log jb))) in
     rbind (if n = 0 then Inr (Fin 0) else rbind (of_pyint n) (\<lambda>m. fdiv (fsum (map jd_overall (jb_judgment_log jb))) m)) (\<lambda>avg.
     rbind (if n = 0 then Inr (Fin 0) else truediv passed n) (\<lambda>rate.
       Inr \<lparr>jst_total = n, jst_passed = passed, jst_failed = n - passed, jst_average_score = fround avg 3, jst_pass_rate = fround rate 3\<rparr>)))"

section \<open>Synthesizer\<close>

record component =
  cmp_worker_id :: string
  cmp_role :: string
  cmp_score :: json
  cmp_included :: bool

record synthesis =
  sy_synthesis_id :: string
  sy_plan_id :: string
  sy_original_prompt :: string
  sy_final_artifact :: json
  sy_artifact_type :: json
  sy_artifact_hash :: string
  sy_components :: "component list"
  sy_scores :: "pyfloat dict"
  sy_threshold :: pyfloat
  sy_passed :: int
  sy_total :: int
  sy_created_at :: pyfloat

text \<open>\<open>judge_scores.get(worker_id, 0)\<close>.\<close>

definition score_of :: "pyfloat dict \<Rightarrow> spec_out \<Rightarrow> pyfloat" where
  "score_of scores out = dget_default scores (so_worker_id out) (Fin 0)"

definition score_json :: "pyfloat dict \<Rightarrow> spec_out \<Rightarrow> json" where
  "score_json scores out = (case dget scores (so_worker_id out) of None \<Rightarrow> JInt 0 | Some x \<Rightarrow> JFloat x)"

text \<open>
  The outputs that are merged: those that reach the threshold, or the first of the best ones. Sorting is stable also in
  reverse, so the head of the sorted list is the first output with the largest score.
\<close>

definition select_outputs :: "pyfloat \<Rightarrow> pyfloat dict \<Rightarrow> spec_out list \<Rightarrow> spec_out list" where
  "select_outputs threshold scores outs = (let valid = filter (\<lambda>o'. fle threshold (score_of scores o')) outs in
     if valid \<noteq> [] then valid
     else case map (\<lambda>o'. (o', score_of scores o')) outs of [] \<Rightarrow> [] | e # es \<Rightarrow> [fst (best_entry e es)])"

definition merge_one :: "json dict \<Rightarrow> spec_out \<Rightarrow> json dict" where
  "merge_one merged out = (let role = so_role out; content = so_result out; text = JStr (json_text content) in
     if role = ''coder'' then dset ''code'' (case content of JObj d \<Rightarrow> dget_default d ''code'' text | _ \<Rightarrow> text) merged
     else if role = ''docs'' then dset ''docs'' text merged
     else if role = ''tester'' then dset ''tests'' text merged
     else if role = ''security'' then dset ''security_notes'' text merged
     else if role = ''researcher'' then dset ''research'' text merged
     else merged)"

definition two_lines :: string where "two_lines = [CHR 0x0A, CHR 0x0A]"

definition merge_outputs :: "spec_out list \<Rightarrow> json dict" where
  "merge_outputs outs =
     (let merged = foldl merge_one [(''type'', JStr ''artifact''), (''code'', JStr []), (''docs'', JStr []), (''tests'', JStr []), (''security_notes'', JStr [])] outs;
          part = (\<lambda>k. json_text (dget_default merged k JNull));
          final = (if dtruthy merged ''code'' then part ''docs'' @ two_lines @ part ''code'' @ two_lines @ ''# Tests'' @ [CHR 0x0A] @ part ''tests''
              @ two_lines @ ''# Security Notes'' @ [CHR 0x0A] @ part ''security_notes''
            else join two_lines (map (\<lambda>o'. json_text (so_result o')) outs))
      in dset ''combined'' (JStr (strip final)) merged)"

definition synthesize :: "plan \<Rightarrow> spec_out list \<Rightarrow> pyfloat dict \<Rightarrow> synthesis list \<Rightarrow> runtime \<Rightarrow> synthesis result \<times> synthesis list \<times> runtime" where
  "synthesize p outs scores hist rt =
     (let valid = select_outputs (pl_quality_threshold p) scores outs; merged = merge_outputs valid; (t, rt) = time_time rt in
      case ftrunc t of Inl x \<Rightarrow> (Inl x, hist, rt)
      | Inr secs \<Rightarrow> let (now, rt) = time_time rt;
          r = \<lparr>sy_synthesis_id = ''syn-'' @ dec_int secs, sy_plan_id = pl_plan_id p, sy_original_prompt = pl_original_prompt p,
            sy_final_artifact = dget_default merged ''code'' (dget_default merged ''text'' (JStr [])),
            sy_artifact_type = dget_default merged ''type'' (JStr ''text''), sy_artifact_hash = sha256_hex (dumps_sorted (JObj merged)),
            sy_components = map (\<lambda>o'. \<lparr>cmp_worker_id = so_worker_id o', cmp_role = so_role o', cmp_score = score_json scores o',
              cmp_included = (o' \<in> set valid)\<rparr>) outs,
            sy_scores = scores, sy_threshold = pl_quality_threshold p, sy_passed = int (length valid), sy_total = int (length outs),
            sy_created_at = now\<rparr>
        in (Inr r, hist @ [r], rt))"

definition stream_draft :: "string \<Rightarrow> string \<Rightarrow> string" where
  "stream_draft draft verified = (if verified = [] then draft
     else ''[verified] '' @ draft @ two_lines @ ''[corrections applied from verifier]'')"

section \<open>Orchestrator\<close>

text \<open>A worker with the role it is registered for.\<close>

record agent =
  ag_worker :: worker_node
  ag_role :: "string option"

record moa =
  moa_models :: "string dict"
  moa_judge :: judge_brain
  moa_history :: "synthesis list"
  moa_workers :: "agent dict"

definition moa_init :: moa where
  "moa_init = \<lparr>moa_models = router_init None, moa_judge = judge_init, moa_history = [], moa_workers = []\<rparr>"

definition with_role :: "agent \<Rightarrow> string \<Rightarrow> agent" where
  "with_role a role = (if role \<noteq> [] then a\<lparr>ag_role := Some role\<rparr> else a)"

definition moa_register_worker :: "agent \<Rightarrow> string \<Rightarrow> moa \<Rightarrow> moa" where
  "moa_register_worker a role m = m\<lparr>moa_workers := dset (wn_worker_id (ag_worker a)) (with_role a role) (moa_workers m)\<rparr>"

text \<open>A worker assigned to the role, otherwise one that is idle.\<close>

definition find_worker_for_role :: "string \<Rightarrow> agent dict \<Rightarrow> agent option" where
  "find_worker_for_role role workers = (case List.find (\<lambda>a. ag_role a = Some role) (dvalues workers) of Some a \<Rightarrow> Some a
     | None \<Rightarrow> List.find (\<lambda>a. wn_current_task (ag_worker a) = None) (dvalues workers))"

definition role_prompt :: "string \<Rightarrow> string \<Rightarrow> string \<Rightarrow> string" where
  "role_prompt role desc prompt =
     (if role = ''planner'' then ''Create a detailed execution plan for: '' @ prompt @ two_lines @ ''Break into steps with dependencies.''
      else if role = ''coder'' then ''Write code for this task: '' @ desc @ two_lines @ ''Full context: '' @ prompt
      else if role = ''security'' then ''Review this code for security issues, secrets, and unsafe patterns.'' @ two_lines @ ''Task: '' @ desc
      else if role = ''tester'' then ''Write comprehensive tests for this functionality.'' @ two_lines @ ''Task: '' @ desc
      else if role = ''docs'' then ''Write README and documentation.'' @ two_lines @ ''Task: '' @ desc
      else if role = ''researcher'' then ''Research and explain: '' @ desc @ two_lines @ ''Context: '' @ prompt
      else if role = ''critic'' then ''Review all previous outputs and score quality. Identify flaws.'' @ two_lines @ ''Task: '' @ desc
      else ''Task: '' @ desc @ two_lines @ ''Context: '' @ prompt)"

definition run_specialist :: "machine \<Rightarrow> worker_node \<Rightarrow> subtask \<Rightarrow> plan \<Rightarrow> json dict result" where
  "run_specialist mc w t p = run_prompt mc w [(''prompt'', JStr (role_prompt (sb_role t) (sb_description t) (pl_original_prompt p))), (''model'', JStr (sb_model t))]"

fun run_specialists :: "(worker_node \<Rightarrow> subtask \<Rightarrow> json dict result) \<Rightarrow> agent dict \<Rightarrow> subtask list \<Rightarrow> spec_out list result" where
  "run_specialists run workers [] = Inr []"
| "run_specialists run workers (t # ts) = (case find_worker_for_role (sb_role t) workers of None \<Rightarrow> run_specialists run workers ts
     | Some a \<Rightarrow> rbind (run (ag_worker a) t) (\<lambda>r. rbind (run_specialists run workers ts) (\<lambda>outs.
         Inr (\<lparr>so_worker_id = wn_worker_id (ag_worker a), so_role = sb_role t, so_task_id = sb_id t, so_result = JObj r\<rparr> # outs))))"

record moa_consensus =
  mcs_average_score :: pyfloat
  mcs_scores :: "pyfloat dict"
  mcs_consensus_reached :: bool
  mcs_timestamp :: "pyfloat option"

definition compute_consensus :: "pyfloat dict \<Rightarrow> runtime \<Rightarrow> moa_consensus result \<times> runtime" where
  "compute_consensus scores rt =
     (if scores = [] then (Inr \<lparr>mcs_average_score = Fin 0, mcs_scores = [], mcs_consensus_reached = False, mcs_timestamp = None\<rparr>, rt)
      else case rbind (of_pyint (int (length scores))) (\<lambda>n. fdiv (fsum (dvalues scores)) n) of Inl x \<Rightarrow> (Inl x, rt)
      | Inr avg \<Rightarrow> let (now, rt) = time_time rt in (Inr \<lparr>mcs_average_score = fround avg 3, mcs_scores = scores,
          mcs_consensus_reached = fle (mkf (7 / 10)) avg, mcs_timestamp = Some now\<rparr>, rt))"

definition moa_process :: "machine \<Rightarrow> string \<Rightarrow> moa \<Rightarrow> runtime \<Rightarrow> (synthesis \<times> moa_consensus) result \<times> moa \<times> runtime" where
  "moa_process mc prompt m rt = (case router_plan (moa_models m) prompt rt of (Inl x, rt) \<Rightarrow> (Inl x, m, rt)
     | (Inr p, rt) \<Rightarrow> (case run_specialists (\<lambda>w t. run_specialist mc w t p) (moa_workers m) (pl_subtasks p) of Inl x \<Rightarrow> (Inl x, m, rt)
       | Inr outs \<Rightarrow> (case judge_all outs [] (moa_judge m) rt of (Inl x, jb, rt) \<Rightarrow> (Inl x, m\<lparr>moa_judge := jb\<rparr>, rt)
         | (Inr scores, jb, rt) \<Rightarrow> (case synthesize p outs scores (moa_history m) rt of (Inl x, h, rt) \<Rightarrow> (Inl x, m\<lparr>moa_judge := jb\<rparr>, rt)
           | (Inr final, h, rt) \<Rightarrow> (case compute_consensus scores rt of (c, rt) \<Rightarrow>
               (rbind c (\<lambda>c. Inr (final, c)), m\<lparr>moa_judge := jb, moa_history := h\<rparr>, rt))))))"

record draft_result =
  dr_draft_worker :: string
  dr_verify_worker :: string
  dr_final_output :: string
  dr_draft_hash :: string
  dr_verified_hash :: string

text \<open>\<open>capabilities.models[0]\<close> raises without a model; the outputs of \<open>_run_prompt\<close> are texts.\<close>

definition first_model :: "worker_node \<Rightarrow> string result" where
  "first_model w = (case wn_models w of [] \<Rightarrow> Inl IndexError | m # ms \<Rightarrow> Inr m)"

definition output_text :: "json dict \<Rightarrow> string result" where
  "output_text r = str_encode (dget_default r ''output'' (JStr []))"

definition draft_verify :: "machine \<Rightarrow> string \<Rightarrow> worker_node \<Rightarrow> worker_node \<Rightarrow> draft_result result" where
  "draft_verify mc prompt fast strong =
     rbind (first_model fast) (\<lambda>fm. rbind (run_prompt mc fast [(''prompt'', JStr prompt), (''model'', JStr fm)]) (\<lambda>draft.
     rbind (output_text draft) (\<lambda>d. rbind (first_model strong) (\<lambda>sm.
     rbind (run_prompt mc strong [(''prompt'', JStr (''Review and correct this draft:'' @ two_lines @ d)), (''model'', JStr sm)]) (\<lambda>verified.
     rbind (output_text verified) (\<lambda>v. Inr \<lparr>dr_draft_worker = wn_worker_id fast, dr_verify_worker = wn_worker_id strong,
       dr_final_output = stream_draft d v, dr_draft_hash = take 16 (sha256_hex d), dr_verified_hash = take 16 (sha256_hex v)\<rparr>))))))"

section \<open>Plans can be run in order\<close>

text \<open>Every subtask has an identifier of its own and depends only on subtasks before it.\<close>

fun runs_in_order :: "string list \<Rightarrow> subtask list \<Rightarrow> string list dict \<Rightarrow> bool" where
  "runs_in_order finished [] deps = True"
| "runs_in_order finished (t # ts) deps = (sb_id t \<notin> set finished \<and> set (dget_default deps (sb_id t) []) \<subseteq> set finished \<and>
     runs_in_order (finished @ [sb_id t]) ts deps)"

definition plan_ok :: "analysis \<Rightarrow> bool" where
  "plan_ok a \<longleftrightarrow> (let ts = an_subtasks a in runs_in_order [] ts (an_dependencies a) \<and> ts \<noteq> [] \<and> sb_role (last ts) = ''critic'' \<and>
     dget (an_dependencies a) (sb_id (last ts)) = Some (map sb_id (butlast ts)) \<and>
     list_all (\<lambda>t. dget (an_assignments a) (sb_id t) = Some (sb_role t) \<and> sb_role t \<in> set ROLES) ts \<and>
     3 \<le> length ts \<and> length ts \<le> 7)"

lemma analyze_needs_ok: "\<forall>c t s d r. case analyze_needs DEFAULT_MODELS c t s d r of Inl x \<Rightarrow> False | Inr a \<Rightarrow> plan_ok a"
  by code_simp

text \<open>
  Every plan can be carried out in its order: for any prompt the default router finds a plan of three to seven subtasks with
  identifiers of their own, each depends only on earlier ones and is assigned the role it names, and the last
  is the review, which depends on all the others.
\<close>

theorem plan_is_executable: "\<exists>a. analyze_prompt (router_init None) prompt = Inr a \<and> plan_ok a"
proof -
  have "case analyze_prompt DEFAULT_MODELS prompt of Inl x \<Rightarrow> False | Inr a \<Rightarrow> plan_ok a"
    using analyze_needs_ok unfolding analyze_prompt_def Let_def by blast
  then show ?thesis by (cases "analyze_prompt DEFAULT_MODELS prompt") (simp_all add: router_init_def)
qed

section \<open>Judgements\<close>

text \<open>Multiples of one 64th are floats.\<close>

lemma rnd_64th: "\<bar>k\<bar> \<le> 2 ^ 53 \<Longrightarrow> rnd (of_int k / 64) = of_int k / 64"
  using rnd_rep [of k "- 6"] by (simp add: pow2_def)

lemma mkf_64ths:
  assumes "of_int a / 64 \<le> x" "x \<le> of_int b / 64" "\<bar>a\<bar> \<le> 2 ^ 53" "\<bar>b\<bar> \<le> 2 ^ 53"
  shows "\<exists>r. mkf x = Fin r \<and> of_int a / 64 \<le> r \<and> r \<le> of_int b / 64"
proof -
  have "\<bar>of_int a :: rat\<bar> \<le> 2 ^ 53" "\<bar>of_int b :: rat\<bar> \<le> 2 ^ 53"
    using assms(3,4) by (metis of_int_abs of_int_le_iff of_int_numeral of_int_power)+
  then have "\<bar>x\<bar> \<le> 2 ^ 53" using assms(1,2) by linarith
  moreover have "of_int a / 64 \<le> rnd x" "rnd x \<le> of_int b / 64"
    using rnd_mono [OF assms(1), unfolded rnd_64th [OF assms(3)]] rnd_mono [OF assms(2), unfolded rnd_64th [OF assms(4)]] .
  ultimately show ?thesis by (simp add: mkf_moderate)
qed

text \<open>A float between two multiples of a 64th.\<close>

definition between64 :: "int \<Rightarrow> int \<Rightarrow> pyfloat \<Rightarrow> bool" where
  "between64 a b x \<longleftrightarrow> (\<exists>r. x = Fin r \<and> of_int a / 64 \<le> r \<and> r \<le> of_int b / 64)"

lemma between64_mkf: "of_int a / 64 \<le> x \<Longrightarrow> x \<le> of_int b / 64 \<Longrightarrow> \<bar>a\<bar> \<le> 2 ^ 53 \<Longrightarrow> \<bar>b\<bar> \<le> 2 ^ 53 \<Longrightarrow> between64 a b (mkf x)"
  using mkf_64ths by (simp add: between64_def)

lemma between64_fadd:
  assumes "between64 a b x" "between64 c d y" "\<bar>a + c\<bar> \<le> 2 ^ 53" "\<bar>b + d\<bar> \<le> 2 ^ 53"
  shows "between64 (a + c) (b + d) (fadd x y)"
proof -
  obtain r t where r: "x = Fin r" "of_int a / 64 \<le> r" "r \<le> of_int b / 64" "y = Fin t" "of_int c / 64 \<le> t" "t \<le> of_int d / 64"
    using assms(1,2) by (auto simp: between64_def)
  then have "of_int (a + c) / 64 \<le> r + t" "r + t \<le> of_int (b + d) / 64" by (simp_all add: add_divide_distrib)
  then show ?thesis using r between64_mkf assms(3,4) by simp
qed

text \<open>The sum grows from its base, and the result is at most 1.\<close>

lemma add_parts_bounds:
  assumes "of_int a / 64 \<le> base" "base \<le> 1" "0 \<le> a" "a \<le> 64" and "list_all (\<lambda>(c, x). 0 \<le> x \<and> x \<le> 1) parts" "length parts \<le> 1000"
  shows "between64 a 64 (add_parts base parts)"
proof -
  let ?f = "\<lambda>s (c, x). if c then fadd s (mkf x) else s"
  have step: "between64 a (64 * (k + int (length ps))) (foldl ?f s ps)"
    if "between64 a (64 * k) s" "list_all (\<lambda>(c, x). 0 \<le> x \<and> x \<le> 1) ps" "0 \<le> k" "k + int (length ps) \<le> 2 ^ 40" for ps s k
    using that
  proof (induction ps arbitrary: s k)
    case (Cons p ps)
    obtain c x where p: "p = (c, x)" by (cases p)
    have x: "between64 0 64 (mkf x)" using Cons.prems(2) p by (intro between64_mkf) auto
    have "between64 a (64 * (k + 1)) (?f s p)"
    proof (cases c)
      case True
      then show ?thesis using between64_fadd [OF Cons.prems(1) x] Cons.prems(3,4) assms(3,4) p by (simp add: algebra_simps)
    next
      case False
      have "of_int (64 * k) / 64 \<le> (of_int (64 * (k + 1)) / 64 :: rat)" by simp
      then show ?thesis using Cons.prems(1) False p unfolding between64_def by force
    qed
    from Cons.IH [OF this] Cons.prems show ?case by (simp add: algebra_simps)
  qed simp
  have "between64 a (64 * 1) (mkf base)" using assms by (intro between64_mkf) auto
  from step [OF this assms(5)] assms(6) have "between64 a (64 * (1 + int (length parts))) (foldl ?f (mkf base) parts)" by simp
  moreover have "of_int a / 64 \<le> (1 :: rat)" using assms(1,2) by linarith
  ultimately show ?thesis by (auto simp: between64_def add_parts_def fmin_def)
qed

lemma completeness_bounds: "between64 32 64 (score_completeness txt)"
  unfolding score_completeness_def by (rule add_parts_bounds) simp_all

lemma style_bounds: "between64 44 64 (score_style txt role)"
  unfolding score_style_def by (rule add_parts_bounds) simp_all

text \<open>The overall score tells whether the safety check found something: the other dimensions cannot bridge the gap.\<close>

lemma overall_bounds:
  assumes "between64 s s safety" "between64 32 64 c" "between64 44 64 t" "0 \<le> s" "s \<le> 64"
  shows "\<exists>q. fdiv (fsum [safety, c, t, mkf (85 / 100)]) (Fin 4) = Inr (Fin q) \<and> of_int (s + 130) / 256 \<le> q \<and> q \<le> of_int (s + 183) / 256"
proof -
  have acc: "between64 54 55 (mkf (85 / 100))" by (rule between64_mkf) simp_all
  have zero: "between64 0 0 (Fin 0)" by (simp add: between64_def)
  note sums = between64_fadd [OF between64_fadd [OF between64_fadd [OF between64_fadd [OF zero assms(1)] assms(2)] assms(3)] acc]
  have "between64 (s + 130) (s + 183) (fsum [safety, c, t, mkf (85 / 100)])"
    using sums assms(4,5) by (simp add: fsum_def algebra_simps)
  then obtain r where r: "fsum [safety, c, t, mkf (85 / 100)] = Fin r" "of_int (s + 130) / 64 \<le> r" "r \<le> of_int (s + 183) / 64"
    by (auto simp: between64_def)
  have rep: "rnd (of_int k / 256) = of_int k / 256" if "\<bar>k\<bar> \<le> 2 ^ 53" for k using rnd_rep [OF that, of "- 8"] by (simp add: pow2_def)
  have b: "of_int (s + 130) / 256 \<le> r / 4" "r / 4 \<le> of_int (s + 183) / 256" using r by simp_all
  have "0 \<le> (of_int s :: rat)" "(of_int s :: rat) \<le> 64" using assms(4,5) by simp_all
  then have "\<bar>r / 4\<bar> \<le> 2 ^ 53" using b by (simp add: abs_le_iff)
  moreover have "of_int (s + 130) / 256 \<le> rnd (r / 4)" "rnd (r / 4) \<le> of_int (s + 183) / 256"
    using rnd_mono [OF b(1), unfolded rep [of "s + 130"]] rnd_mono [OF b(2)] rep [of "s + 130"] rep [of "s + 183"] assms(4,5) by auto
  ultimately show ?thesis using r(1) by (simp add: mkf_moderate)
qed

lemma rounded_score:
  "3 / 4 \<le> q \<Longrightarrow> q \<le> 1 \<Longrightarrow> fle (Fin (3 / 4)) (fround (Fin q) 3)"
  "0 \<le> q \<Longrightarrow> q \<le> 183 / 256 \<Longrightarrow> \<not> fle (Fin (3 / 4)) (fround (Fin q) 3)"
proof -
  assume q: "3 / 4 \<le> q" "q \<le> 1"
  have "750 \<le> rhe (q * 10 ^ 3)" using q by (intro rhe_ge_int) simp
  moreover have "rhe (q * 10 ^ 3) \<le> 1000" using q by (intro rhe_le_int) simp
  ultimately have "of_int 48 / 64 \<le> (of_int (rhe (q * 10 ^ 3)) / 10 ^ 3 :: rat)" "(of_int (rhe (q * 10 ^ 3)) / 10 ^ 3 :: rat) \<le> of_int 64 / 64" by simp_all
  from mkf_64ths [OF this] show "fle (Fin (3 / 4)) (fround (Fin q) 3)" by auto
next
  assume q: "0 \<le> q" "q \<le> 183 / 256"
  have "0 \<le> rhe (q * 10 ^ 3)" using q by (intro rhe_ge_int) simp
  moreover have "rhe (q * 10 ^ 3) \<le> 715" using q by (intro rhe_le_int) simp
  ultimately have "of_int 0 / 64 \<le> (of_int (rhe (q * 10 ^ 3)) / 10 ^ 3 :: rat)" "(of_int (rhe (q * 10 ^ 3)) / 10 ^ 3 :: rat) \<le> of_int 47 / 64" by simp_all
  from mkf_64ths [OF this] show "\<not> fle (Fin (3 / 4)) (fround (Fin q) 3)" by auto
qed

abbreviation safe_out :: "spec_out \<Rightarrow> bool" where
  "safe_out out \<equiv> check_safety (so_result out) = []"

lemma nine_tenths: "between64 57 58 (mkf (9 / 10))" "between64 38 39 (mkf (6 / 10))"
  by (rule between64_mkf; simp)+

lemma judge_score_result:
  assumes "ftrunc (rt_now rt) = Inr secs" and "jb_safety_threshold jb = mkf (9 / 10)"
  shows "\<exists>j. judge_score w role out jb rt = (Inr j, jb\<lparr>jb_judgment_log := jb_judgment_log jb @ [j]\<rparr>, rt_tick (rt_tick rt)) \<and>
    jd_safety_flags j = check_safety out \<and> (jd_passed j \<longleftrightarrow> check_safety out = []) \<and> (fle (Fin (3 / 4)) (jd_overall j) \<longleftrightarrow> check_safety out = [])"
proof -
  define s where "s = (if check_safety out = [] then 64 else 0 :: int)"
  define safety where "safety = (if check_safety out \<noteq> [] then Fin 0 else Fin 1)"
  have s: "between64 s s safety" "0 \<le> s" "s \<le> 64" by (auto simp: s_def safety_def between64_def)
  obtain q where q: "fdiv (fsum [safety, score_completeness (json_text out), score_style (json_text out) role, mkf (85 / 100)]) (Fin 4) = Inr (Fin q)"
    "of_int (s + 130) / 256 \<le> q" "q \<le> of_int (s + 183) / 256"
    using overall_bounds [OF s(1) completeness_bounds style_bounds s(2,3)] by blast
  have overall: "fle (Fin (3 / 4)) (fround (Fin q) 3) \<longleftrightarrow> check_safety out = []"
    using rounded_score [of q] q(2,3) by (cases "check_safety out = []") (simp_all add: s_def del: fround.simps)
  have six: "fle (mkf (6 / 10)) (Fin q)" if "check_safety out = []"
    using nine_tenths(2) q(2) that by (simp add: between64_def s_def) (elim exE conjE, simp)
  have nine: "fle (mkf (9 / 10)) safety \<longleftrightarrow> check_safety out = []"
    using nine_tenths(1) by (auto simp: between64_def safety_def)
  show ?thesis
    using q(1) overall six nine assms unfolding judge_score_def Let_def safety_def [symmetric]
    by (auto simp: time_time_def simp del: fround.simps)
qed

text \<open>
  The judge decides by safety alone: with the default threshold an output passes exactly when no dangerous pattern is found, and its
  overall score reaches the quality threshold of the plan in exactly these cases; length, sections and style
  never decide.
\<close>

theorem judge_decides_by_safety:
  assumes "ftrunc (rt_now rt) = Inr secs" and "jb_safety_threshold jb = jb_safety_threshold judge_init"
  shows "\<exists>j jb' rt'. judge_score w role out jb rt = (Inr j, jb', rt') \<and> jb_judgment_log jb' = jb_judgment_log jb @ [j] \<and>
    (jd_passed j \<longleftrightarrow> check_safety out = []) \<and> (fle (Fin (3 / 4)) (jd_overall j) \<longleftrightarrow> check_safety out = [])"
proof -
  have "jb_safety_threshold jb = mkf (9 / 10)" using assms(2) by (simp add: judge_init_def)
  from judge_score_result [OF assms(1) this, of w role out] show ?thesis by auto
qed

section \<open>What is merged\<close>

lemma length_dset: "length (dset k v d) \<le> Suc (length d)"
  by (induction d) auto

lemma judge_all_result:
  assumes "\<And>i. \<exists>n. ftrunc (clock rt i) = Inr n" and "jb_safety_threshold jb = mkf (9 / 10)"
  shows "\<exists>scores jb' rt'. judge_all outs scores0 jb rt = (Inr scores, jb', rt') \<and> clock rt' = clock rt \<and> jb_safety_threshold jb' = mkf (9 / 10) \<and>
    length scores \<le> length scores0 + length outs \<and> (\<forall>w. w \<notin> set (map so_worker_id outs) \<longrightarrow> dget scores w = dget scores0 w) \<and>
    (distinct (map so_worker_id outs) \<longrightarrow> (\<forall>out \<in> set outs. \<exists>x. dget scores (so_worker_id out) = Some x \<and> (fle (Fin (3 / 4)) x \<longleftrightarrow> safe_out out)))"
  using assms
proof (induction outs arbitrary: scores0 jb rt)
  case (Cons out outs)
  obtain n where n: "ftrunc (rt_now rt) = Inr n" using Cons.prems(1) by blast
  obtain j where j: "judge_score (so_worker_id out) (so_role out) (so_result out) jb rt =
      (Inr j, jb\<lparr>jb_judgment_log := jb_judgment_log jb @ [j]\<rparr>, rt_tick (rt_tick rt))"
    "fle (Fin (3 / 4)) (jd_overall j) \<longleftrightarrow> safe_out out"
    using judge_score_result [OF n Cons.prems(2), of "so_worker_id out" "so_role out" "so_result out"] by blast
  let ?jb = "jb\<lparr>jb_judgment_log := jb_judgment_log jb @ [j]\<rparr>" and ?s = "dset (so_worker_id out) (jd_overall j) scores0"
  have "\<And>i. \<exists>n. ftrunc (clock (rt_tick (rt_tick rt)) i) = Inr n" using Cons.prems(1) by simp
  from Cons.IH [OF this, of ?jb ?s] Cons.prems(2) obtain scores jb' rt' where
    r: "judge_all outs ?s ?jb (rt_tick (rt_tick rt)) = (Inr scores, jb', rt')" "clock rt' = clock rt" "jb_safety_threshold jb' = mkf (9 / 10)"
      "length scores \<le> length ?s + length outs" "\<forall>w. w \<notin> set (map so_worker_id outs) \<longrightarrow> dget scores w = dget ?s w"
      "distinct (map so_worker_id outs) \<longrightarrow> (\<forall>out \<in> set outs. \<exists>x. dget scores (so_worker_id out) = Some x \<and> (fle (Fin (3 / 4)) x \<longleftrightarrow> safe_out out))"
    by auto
  have "\<exists>x. dget scores (so_worker_id out) = Some x \<and> (fle (Fin (3 / 4)) x \<longleftrightarrow> safe_out out)" if "so_worker_id out \<notin> set (map so_worker_id outs)"
    using r(5) that j(2) by auto
  with r j(1) length_dset [of "so_worker_id out" "jd_overall j" scores0] show ?case by auto
qed simp

lemma select_safe:
  assumes "\<forall>out \<in> set outs. \<exists>x. dget scores (so_worker_id out) = Some x \<and> (fle (Fin (3 / 4)) x \<longleftrightarrow> safe_out out)"
  shows "select_outputs (Fin (3 / 4)) scores outs = filter safe_out outs \<or> filter safe_out outs = [] \<and> length (select_outputs (Fin (3 / 4)) scores outs) \<le> 1"
proof -
  have "filter (\<lambda>o'. fle (Fin (3 / 4)) (score_of scores o')) outs = filter safe_out outs"
    using assms by (intro filter_cong) (auto simp: score_of_def dget_default_def)
  then show ?thesis by (auto simp: select_outputs_def Let_def split: list.split)
qed

lemma run_prompt_total: "\<exists>r. run_prompt mc w [(''prompt'', JStr p), (''model'', m)] = Inr r"
  by (auto simp: run_prompt_def Let_def str_encode_def dget_default_def split: run_outcome.split)

lemma run_specialists_total:
  assumes "\<And>w t. \<exists>r. run w t = Inr r"
  shows "\<exists>outs. run_specialists run workers ts = Inr outs \<and> length outs \<le> length ts"
proof (induction ts)
  case (Cons t ts)
  then obtain outs where outs: "run_specialists run workers ts = Inr outs" "length outs \<le> length ts" by blast
  show ?case
  proof (cases "find_worker_for_role (sb_role t) workers")
    case (Some a)
    moreover obtain r where "run (ag_worker a) t = Inr r" using assms by blast
    ultimately show ?thesis using outs by simp
  qed (use outs in simp)
qed simp

lemma router_plan_result:
  assumes "\<And>i. \<exists>n. ftrunc (clock rt i) = Inr n"
  shows "\<exists>p. router_plan DEFAULT_MODELS prompt rt = (Inr p, rt_tick (rt_tick rt)) \<and> pl_quality_threshold p = Fin (3 / 4) \<and> length (pl_subtasks p) \<le> 7"
proof -
  have "case analyze_prompt DEFAULT_MODELS prompt of Inl x \<Rightarrow> False | Inr a \<Rightarrow> plan_ok a"
    using analyze_needs_ok unfolding analyze_prompt_def Let_def by blast
  then obtain a where "analyze_prompt DEFAULT_MODELS prompt = Inr a" "length (an_subtasks a) \<le> 7"
    by (cases "analyze_prompt DEFAULT_MODELS prompt") (auto simp: plan_ok_def Let_def)
  moreover obtain n where "ftrunc (rt_now rt) = Inr n" using assms by blast
  ultimately show ?thesis by (simp add: router_plan_def time_time_def)
qed

lemma compute_consensus_total:
  assumes "int (length scores) \<le> 2 ^ 53"
  shows "\<exists>c rt'. compute_consensus scores rt = (Inr c, rt')"
proof (cases "scores = []")
  case False
  then have "(of_int (int (length scores)) :: rat) \<noteq> 0" by simp
  moreover have "of_pyint (int (length scores)) = Inr (Fin (of_int (int (length scores))))"
    using assms by (intro of_pyint_small) simp
  moreover have "\<exists>q. fdiv x (Fin b) = Inr q" if "b \<noteq> 0" for x b using that by (cases x) simp_all
  ultimately have "\<exists>q. rbind (of_pyint (int (length scores))) (\<lambda>n. fdiv (fsum (dvalues scores)) n) = Inr q"
    by (simp only: rbind_simps) blast
  then obtain q where "rbind (of_pyint (int (length scores))) (\<lambda>n. fdiv (fsum (dvalues scores)) n) = Inr q" by blast
  then show ?thesis by (simp add: compute_consensus_def time_time_def)
qed (simp add: compute_consensus_def)

text \<open>
  C26. The pipeline merges exactly the safe outputs: on a finite clock and with the default router and judge a prompt is always processed to a
  synthesis. If the outputs come from different workers and some output is safe, then exactly the
  outputs without a dangerous pattern are included; if none is safe, at most one is.
\<close>

theorem moa_merges_safe_outputs:
  assumes "\<forall>i. \<exists>n. ftrunc (clock rt i) = Inr n" and "moa_models m = DEFAULT_MODELS" and "jb_safety_threshold (moa_judge m) = mkf (9 / 10)"
  shows "\<exists>outs p final c m' rt'. moa_process mc prompt m rt = (Inr (final, c), m', rt') \<and> fst (router_plan (moa_models m) prompt rt) = Inr p \<and>
    run_specialists (\<lambda>w t. run_specialist mc w t p) (moa_workers m) (pl_subtasks p) = Inr outs \<and> sy_total final = int (length outs) \<and>
    (distinct (map so_worker_id outs) \<longrightarrow>
       map cmp_included (sy_components final) = map safe_out outs \<or> filter safe_out outs = [] \<and> sy_passed final \<le> 1)"
proof -
  have clk: "\<And>i. \<exists>n. ftrunc (clock rt i) = Inr n" using assms(1) by blast
  obtain p where p: "router_plan DEFAULT_MODELS prompt rt = (Inr p, rt_tick (rt_tick rt))" "pl_quality_threshold p = Fin (3 / 4)"
    "length (pl_subtasks p) \<le> 7" using router_plan_result [OF clk] by blast
  have total: "\<exists>r. run_specialist mc w t p = Inr r" for w t unfolding run_specialist_def by (rule run_prompt_total)
  obtain outs where outs: "run_specialists (\<lambda>w t. run_specialist mc w t p) (moa_workers m) (pl_subtasks p) = Inr outs" "length outs \<le> length (pl_subtasks p)"
    using run_specialists_total [of "\<lambda>w t. run_specialist mc w t p", OF total] by blast
  let ?rt = "rt_tick (rt_tick rt)"
  have "\<And>i. \<exists>n. ftrunc (clock ?rt i) = Inr n" using clk by simp
  from judge_all_result [OF this assms(3), of outs "[]"] obtain scores jb' rt1 where
    j: "judge_all outs [] (moa_judge m) ?rt = (Inr scores, jb', rt1)" "clock rt1 = clock rt" "length scores \<le> length outs"
      "distinct (map so_worker_id outs) \<longrightarrow> (\<forall>out \<in> set outs. \<exists>x. dget scores (so_worker_id out) = Some x \<and> (fle (Fin (3 / 4)) x \<longleftrightarrow> safe_out out))"
    by auto
  obtain n where n: "ftrunc (rt_now rt1) = Inr n" using clk j(2) by metis
  let ?sel = "select_outputs (Fin (3 / 4)) scores outs"
  obtain final where f: "synthesize p outs scores (moa_history m) rt1 = (Inr final, moa_history m @ [final], rt_tick (rt_tick rt1))"
    "map cmp_included (sy_components final) = map (\<lambda>o'. o' \<in> set ?sel) outs" "sy_passed final = int (length ?sel)" "sy_total final = int (length outs)"
    using n p(2) by (simp add: synthesize_def Let_def time_time_def comp_def)
  have "int (length scores) \<le> 7" using j(3) outs(2) p(3) by simp
  then obtain c rt2 where c: "compute_consensus scores (rt_tick (rt_tick rt1)) = (Inr c, rt2)" using compute_consensus_total [of scores] by force
  have proc: "moa_process mc prompt m rt = (Inr (final, c), m\<lparr>moa_judge := jb', moa_history := moa_history m @ [final]\<rparr>, rt2)"
    using p(1) outs(1) j(1) f(1) c assms(2) by (simp add: moa_process_def)
  have "map cmp_included (sy_components final) = map safe_out outs \<or> filter safe_out outs = [] \<and> sy_passed final \<le> 1"
    if "distinct (map so_worker_id outs)"
    using select_safe [of outs scores] j(4) that f(2,3) by auto
  moreover have "fst (router_plan (moa_models m) prompt rt) = Inr p" using p(1) assms(2) by simp
  ultimately show ?thesis using proc outs(1) f(4) by blast
qed

text \<open>Scores are kept per worker: the last output of a worker decides for all of its outputs.\<close>

lemma later_output_rescues_unsafe_one:
  assumes "\<And>i. \<exists>n. ftrunc (clock rt i) = Inr n" and "so_worker_id a = so_worker_id b" and "\<not> safe_out a" and "safe_out b"
  shows "\<exists>scores jb rt'. judge_all [a, b] [] judge_init rt = (Inr scores, jb, rt') \<and> select_outputs (Fin (3 / 4)) scores [a, b] = [a, b]"
proof -
  obtain n where n: "ftrunc (rt_now rt) = Inr n" using assms(1) by blast
  obtain k where k: "ftrunc (rt_now (rt_tick (rt_tick rt))) = Inr k" using assms(1) by auto
  have t: "jb_safety_threshold judge_init = mkf (9 / 10)" by (simp add: judge_init_def)
  obtain j where j: "judge_score (so_worker_id a) (so_role a) (so_result a) judge_init rt =
      (Inr j, judge_init\<lparr>jb_judgment_log := jb_judgment_log judge_init @ [j]\<rparr>, rt_tick (rt_tick rt))"
    using judge_score_result [OF n t, of "so_worker_id a" "so_role a" "so_result a"] by blast
  let ?jb = "judge_init\<lparr>jb_judgment_log := jb_judgment_log judge_init @ [j]\<rparr>"
  have t': "jb_safety_threshold ?jb = mkf (9 / 10)" using t by simp
  obtain i jb' rt' where i: "judge_score (so_worker_id b) (so_role b) (so_result b) ?jb (rt_tick (rt_tick rt)) = (Inr i, jb', rt')"
    "fle (Fin (3 / 4)) (jd_overall i)"
    using judge_score_result [OF k t', of "so_worker_id b" "so_role b" "so_result b"] assms(4) by blast
  then show ?thesis using j assms(2) by (auto simp: select_outputs_def score_of_def dget_default_def)
qed

text \<open>An unsafe output that is alone is merged: the fallback takes the best output whatever its score.\<close>

lemma lone_unsafe_output_is_merged: "select_outputs threshold scores [a] = [a]"
  by (simp add: select_outputs_def)

section \<open>Concrete runs\<close>

lemma sample_clock_finite: "\<exists>n. ftrunc (clock sample_rt i) = Inr n"
  by simp

theorem judge_decides_by_safety_witness:
  "check_safety (JStr ''os.system (1)'') \<noteq> [] \<and> (\<exists>j jb' rt'. judge_score ''w'' ''coder'' (JStr ''os.system (1)'') judge_init sample_rt = (Inr j, jb', rt') \<and> \<not> jd_passed j)"
proof -
  have "check_safety (JStr ''os.system (1)'') \<noteq> []" by code_simp
  then show ?thesis using judge_decides_by_safety [of sample_rt 0 judge_init "''w''" "''coder''" "JStr ''os.system (1)''"] by (auto simp: rtrunc_def)
qed

definition sample_worker :: worker_node where
  "sample_worker = \<lparr>wn_worker_id = ''w1'', wn_hostname = ''h'', wn_models = [''m''], wn_memory_gb = Fin 8, wn_cpu_cores = 4, wn_has_gpu = False,
     wn_last_heartbeat = Fin 0, wn_current_task = None, wn_stats = worker_stats_init\<rparr>"

theorem moa_merges_safe_outputs_witness:
  "\<exists>final c m' rt'. moa_process \<lparr>mc_ollama = (\<lambda>m p. NotFound), mc_file = (\<lambda>p. Missing)\<rparr> ''hello''
     (moa_register_worker \<lparr>ag_worker = sample_worker, ag_role = None\<rparr> ''planner'' moa_init) sample_rt = (Inr (final, c), m', rt')"
proof -
  let ?m = "moa_register_worker \<lparr>ag_worker = sample_worker, ag_role = None\<rparr> ''planner'' moa_init"
  have "moa_models ?m = DEFAULT_MODELS" "jb_safety_threshold (moa_judge ?m) = mkf (9 / 10)"
    by (simp_all add: moa_register_worker_def moa_init_def router_init_def judge_init_def)
  from moa_merges_safe_outputs [OF _ this, of sample_rt] sample_clock_finite show ?thesis by fastforce
qed

end
