(* ===== verification/Reward_Engine.thy ===== *)
theory Reward_Engine
  imports PyNum
begin

text \<open>
  \<open>membra_sdk/rivl/reward_engine.py\<close> and \<open>rivl/punishment_memory.py\<close>: scoring outputs by what the verifiers
  found, the file of scored events, and the memory that turns past events into instructions. A line
  of the file is the value it parses to, or \<open>None\<close> where it does not parse. Text outside Latin-1 is written as its UTF-8 bytes.
\<close>

section \<open>Events\<close>

record reward_event =
  rw_prompt_hash :: string
  rw_output_hash :: string
  rw_reward :: pyfloat
  rw_verdict :: string
  rw_reason :: string
  rw_tests_passed :: bool
  rw_security_passed :: bool
  rw_payment_verified :: bool
  rw_consensus_verified :: bool
  rw_financial_loss :: bool
  rw_policy_violation :: bool
  rw_timestamp :: pyfloat

text \<open>\<open>asdict(event)\<close>.\<close>

definition event_asdict :: "reward_event \<Rightarrow> json dict" where
  "event_asdict v = [
     (''prompt_hash'', JStr (rw_prompt_hash v)),
     (''output_hash'', JStr (rw_output_hash v)),
     (''reward'', JFloat (rw_reward v)),
     (''verdict'', JStr (rw_verdict v)),
     (''reason'', JStr (rw_reason v)),
     (''tests_passed'', JBool (rw_tests_passed v)),
     (''security_passed'', JBool (rw_security_passed v)),
     (''payment_verified'', JBool (rw_payment_verified v)),
     (''consensus_verified'', JBool (rw_consensus_verified v)),
     (''financial_loss'', JBool (rw_financial_loss v)),
     (''policy_violation'', JBool (rw_policy_violation v)),
     (''timestamp'', JFloat (rw_timestamp v))]"

definition DEFAULT_WEIGHTS :: "pyfloat dict" where
  "DEFAULT_WEIGHTS = [
     (''tests_passed'', Fin 10), (''tests_failed'', Fin (- 25)),
     (''security_passed'', Fin 10), (''security_failed'', Fin (- 50)),
     (''payment_verified'', Fin 25), (''payment_missing'', Fin (- 5)),
     (''consensus_verified'', Fin 15), (''consensus_missing'', Fin (- 10)),
     (''artifact_downloaded'', Fin 5), (''refund_requested'', Fin (- 50)),
     (''financial_loss'', Fin (- 100)), (''policy_violation'', Fin (- 100)),
     (''mainnet_without_approval'', Fin (- 1000)), (''loss_of_funds'', Fin (- 10000)),
     (''verified_profit_after_fees'', Fin 50), (''receipt_confirmed_yield'', Fin 100),
     (''failed_simulation'', Fin (- 25)), (''slippage_too_high'', Fin (- 50)),
     (''unauthorized_contract'', Fin (- 100))]"

type_synonym reward_events = "json option list"

record reward_engine =
  re_weights :: "pyfloat dict"
  re_file :: reward_events

text \<open>\<open>weights or DEFAULT_WEIGHTS.copy()\<close>: an empty dictionary counts as none.\<close>

definition reward_engine_init :: "pyfloat dict option \<Rightarrow> reward_events \<Rightarrow> reward_engine" where
  "reward_engine_init weights events = \<lparr>re_weights = (case weights of None \<Rightarrow> DEFAULT_WEIGHTS
      | Some w \<Rightarrow> if w = [] then DEFAULT_WEIGHTS else w), re_file = events\<rparr>"

text \<open>The truth values passed to \<open>score\<close>.\<close>

record findings =
  f_tests_passed :: bool
  f_security_passed :: bool
  f_payment_verified :: bool
  f_consensus_verified :: bool
  f_financial_loss :: bool
  f_policy_violation :: bool
  f_artifact_downloaded :: bool
  f_refund_requested :: bool
  f_mainnet_without_approval :: bool
  f_loss_of_funds :: bool
  f_slippage_too_high :: bool
  f_unauthorized_contract :: bool

text \<open>
  The reasons in the order in which \<open>score\<close> appends them. Each reason is also the name of the
  weight that is added with it. There is no branch for \<open>policy_violation\<close>.
\<close>

definition score_reasons :: "findings \<Rightarrow> string list" where
  "score_reasons f =
     [if f_tests_passed f then ''tests_passed'' else ''tests_failed'',
      if f_security_passed f then ''security_passed'' else ''security_failed'',
      if f_payment_verified f then ''payment_verified'' else ''payment_missing'',
      if f_consensus_verified f then ''consensus_verified'' else ''consensus_missing'']
     @ (if f_artifact_downloaded f then [''artifact_downloaded''] else [])
     @ (if f_refund_requested f then [''refund_requested''] else [])
     @ (if f_financial_loss f then [''financial_loss''] else [])
     @ (if f_mainnet_without_approval f then [''mainnet_without_approval''] else [])
     @ (if f_loss_of_funds f then [''loss_of_funds''] else [])
     @ (if f_slippage_too_high f then [''slippage_too_high''] else [])
     @ (if f_unauthorized_contract f then [''unauthorized_contract''] else [])"

fun add_weights :: "pyfloat dict \<Rightarrow> string list \<Rightarrow> pyfloat \<Rightarrow> pyfloat result" where
  "add_weights w [] acc = Inr acc"
| "add_weights w (r # rs) acc = (case dget w r of None \<Rightarrow> Inl (KeyError r)
     | Some x \<Rightarrow> add_weights w rs (fadd acc x))"

definition persist_reward :: "reward_event \<Rightarrow> reward_engine \<Rightarrow> reward_engine" where
  "persist_reward v e = e\<lparr>re_file := re_file e @ [Some (JObj (event_asdict v))]\<rparr>"

definition score :: "string \<Rightarrow> string \<Rightarrow> findings \<Rightarrow> reward_engine \<Rightarrow> runtime
    \<Rightarrow> reward_event result \<times> reward_engine \<times> runtime" where
  "score prompt out f e rt = (case add_weights (re_weights e) (score_reasons f) (Fin 0) of
      Inl x \<Rightarrow> (Inl x, e, rt)
    | Inr reward \<Rightarrow> let (now, rt) = time_time rt;
          v = \<lparr>rw_prompt_hash = sha256_hex prompt, rw_output_hash = sha256_hex out,
            rw_reward = fround reward 2, rw_verdict = (if flt (Fin 0) reward then ''accepted'' else ''punished''),
            rw_reason = join '','' (score_reasons f),
            rw_tests_passed = f_tests_passed f, rw_security_passed = f_security_passed f,
            rw_payment_verified = f_payment_verified f, rw_consensus_verified = f_consensus_verified f,
            rw_financial_loss = f_financial_loss f, rw_policy_violation = f_policy_violation f,
            rw_timestamp = now\<rparr>
        in (Inr v, persist_reward v e, rt))"

text \<open>\<open>_load_all\<close> and \<open>_load_events\<close>: the lines that parse.\<close>

definition load_events :: "reward_events \<Rightarrow> json list" where
  "load_events events = List.map_filter id events"

section \<open>Statistics\<close>

record reward_stats =
  rs_total_events :: int
  rs_accepted :: int
  rs_punished :: int
  rs_accept_rate :: pyfloat
  rs_total_reward :: json
  rs_avg_reward :: json
  rs_max_reward :: json
  rs_min_reward :: json

text \<open>\<open>max(...)\<close> and \<open>min(...)\<close> over a sequence.\<close>

fun fold_num :: "(json \<Rightarrow> json \<Rightarrow> json result) \<Rightarrow> json \<Rightarrow> json list \<Rightarrow> json result" where
  "fold_num f acc [] = Inr acc"
| "fold_num f acc (x # xs) = rbind (f acc x) (\<lambda>acc. fold_num f acc xs)"

text \<open>\<open>None\<close> stands for the short answer of an empty file, all of whose three entries are 0.\<close>

definition reward_get_stats :: "reward_engine \<Rightarrow> reward_stats option result" where
  "reward_get_stats e = (let events = load_events (re_file e) in
     if events = [] then Inr None
     else rbind (rmap (\<lambda>v. json_item v ''verdict'') events) (\<lambda>verdicts.
       rbind (rmap (\<lambda>v. json_item v ''reward'') events) (\<lambda>rewards.
       let n = int (length events); accepted = int (length (filter (\<lambda>v. v = JStr ''accepted'') verdicts)) in
       rbind (num_sum (JInt 0) rewards) (\<lambda>total_reward.
       rbind (num_div total_reward (JInt n)) (\<lambda>avg.
       rbind (fold_num num_max (hd rewards) (tl rewards)) (\<lambda>hi.
       rbind (fold_num num_min (hd rewards) (tl rewards)) (\<lambda>lo.
       rbind (truediv accepted n) (\<lambda>rate.
       rbind (num_round total_reward 2) (\<lambda>total_rounded.
       rbind (num_round avg 2) (\<lambda>avg_rounded.
         Inr (Some \<lparr>rs_total_events = n, rs_accepted = accepted, rs_punished = n - accepted,
           rs_accept_rate = fround rate 3, rs_total_reward = total_rounded, rs_avg_reward = avg_rounded,
           rs_max_reward = hi, rs_min_reward = lo\<rparr>)))))))))))"

section \<open>Memory\<close>

text \<open>
  \<open>xs.sort(key=..., reverse=True)\<close>: descending, equal keys in their original order. The keys are
  numbers, as every event has its time.
\<close>

fun insert_desc :: "('a \<times> json) \<Rightarrow> ('a \<times> json) list \<Rightarrow> ('a \<times> json) list result" where
  "insert_desc x [] = Inr [x]"
| "insert_desc x (y # ys) = rbind (num_lt (snd y) (snd x)) (\<lambda>c.
     if c then Inr (x # y # ys) else rbind (insert_desc x ys) (\<lambda>zs. Inr (y # zs)))"

fun sort_desc :: "('a \<times> json) list \<Rightarrow> ('a \<times> json) list \<Rightarrow> ('a \<times> json) list result" where
  "sort_desc acc [] = Inr acc"
| "sort_desc acc (x # xs) = rbind (insert_desc x acc) (\<lambda>acc. sort_desc acc xs)"

definition newest_first :: "json list \<Rightarrow> json list result" where
  "newest_first events = rbind (rmap (\<lambda>e. rbind (json_get e ''timestamp'' (JInt 0)) (\<lambda>t. Inr (e, t))) events)
     (\<lambda>ps. rbind (sort_desc [] ps) (\<lambda>qs. Inr (map fst qs)))"

definition em_dash :: string where "em_dash = [CHR 0xE2, CHR 0x80, CHR 0x94]"

definition bullet :: string where "bullet = [CHR 0xE2, CHR 0x80, CHR 0xA2]"

text \<open>The two chains of comparisons in \<open>_extract_warnings\<close> and \<open>_extract_suggestions\<close>.\<close>

definition warning_of :: "string dict" where
  "warning_of = [
     (''tests_failed'', ''Ensure all tests pass before submitting''),
     (''security_failed'', ''Run security scan '' @ em_dash @ '' avoid hardcoded secrets, eval, os.system''),
     (''payment_missing'', ''Verify payment receipt before delivering''),
     (''consensus_missing'', ''Wait for validator consensus''),
     (''financial_loss'', ''Simulate on testnet first '' @ em_dash @ '' avoid real money loss''),
     (''policy_violation'', ''Check policy gates before mainnet deployment''),
     (''mainnet_without_approval'', ''NEVER deploy to mainnet without explicit approval''),
     (''loss_of_funds'', ''CRITICAL: This pattern previously caused loss of funds''),
     (''refund_requested'', ''Deliver what was promised '' @ em_dash @ '' refunds hurt reputation''),
     (''slippage_too_high'', ''Set slippage limits '' @ em_dash @ '' protect against MEV''),
     (''unauthorized_contract'', ''Verify contract addresses '' @ em_dash @ '' unauthorized contracts are dangerous'')]"

definition suggestion_of :: "string dict" where
  "suggestion_of = [
     (''tests_passed'', ''Write comprehensive tests '' @ em_dash @ '' they reliably earn reward''),
     (''security_passed'', ''Security-first approach pays off''),
     (''payment_verified'', ''Always verify Stripe receipt before marking complete''),
     (''consensus_verified'', ''Validator consensus strengthens proof''),
     (''artifact_downloaded'', ''Deliver clean, documented artifacts''),
     (''verified_profit_after_fees'', ''Account for all fees '' @ em_dash @ '' net profit is what counts''),
     (''receipt_confirmed_yield'', ''Settlement confirmation before yield distribution'')]"

text \<open>\<open>list(dict.fromkeys(xs))\<close>: the first occurrence of each.\<close>

definition dedup :: "'a list \<Rightarrow> 'a list" where
  "dedup xs = rev (remdups (rev xs))"

definition extract_texts :: "string dict \<Rightarrow> json list \<Rightarrow> string list result" where
  "extract_texts table events = rbind (rmap (\<lambda>e. text_get e ''reason'') events) (\<lambda>reasons.
     Inr (dedup (List.map_filter (\<lambda>r. dget table (strip r)) (concat (map (split_on CHR '','') reasons)))))"

record memory_result =
  mr_failures :: "json list"
  mr_successes :: "json list"
  mr_warnings :: "string list"
  mr_suggestions :: "string list"
  mr_total_related :: int

definition prompt_related :: "string \<Rightarrow> json list \<Rightarrow> json list result" where
  "prompt_related prompt events =
     rbind (rfilter (\<lambda>e. rbind (text_get e ''prompt_hash'') (\<lambda>h. Inr (starts_with (take 16 (sha256_hex prompt)) h))) events)
     (\<lambda>related. if related \<noteq> [] then Inr related
        else rfilter (\<lambda>e. rbind (text_get e ''reason'') (\<lambda>r.
          Inr (list_ex (\<lambda>kw. str_in kw (lower r)) (words (lower prompt))))) events)"

definition memory_search :: "string \<Rightarrow> int \<Rightarrow> reward_events \<Rightarrow> memory_result result" where
  "memory_search prompt limit events =
     rbind (prompt_related prompt (load_events events)) (\<lambda>related.
     rbind (rfilter (\<lambda>e. rbind (json_get e ''verdict'' JNull) (\<lambda>v. Inr (v = JStr ''punished''))) related) (\<lambda>failures.
     rbind (rfilter (\<lambda>e. rbind (json_get e ''verdict'' JNull) (\<lambda>v. Inr (v = JStr ''accepted''))) related) (\<lambda>successes.
     rbind (newest_first failures) (\<lambda>failures.
     rbind (newest_first successes) (\<lambda>successes.
     rbind (extract_texts warning_of (slice_to limit failures)) (\<lambda>warnings.
     rbind (extract_texts suggestion_of (slice_to limit successes)) (\<lambda>suggestions.
       Inr \<lparr>mr_failures = slice_to limit failures, mr_successes = slice_to limit successes, mr_warnings = warnings,
         mr_suggestions = suggestions, mr_total_related = int (length related)\<rparr>)))))))"

definition newline :: string where "newline = [CHR 0x0A]"

definition get_system_prompt_addon :: "string \<Rightarrow> reward_events \<Rightarrow> string result" where
  "get_system_prompt_addon prompt events = rbind (memory_search prompt 5 events) (\<lambda>m.
     if mr_total_related m = 0 then Inr []
     else Inr (join newline (
       [newline @ ''[RIVL Memory '' @ em_dash @ '' Past Learnings]'']
       @ (if mr_warnings m = [] then [] else
            (newline @ ''Do NOT repeat these past failures:'') # map (\<lambda>w. ''  '' @ bullet @ '' '' @ w) (mr_warnings m))
       @ (if mr_suggestions m = [] then [] else
            (newline @ ''Apply these proven patterns:'') # map (\<lambda>s. ''  '' @ bullet @ '' '' @ s) (mr_suggestions m))
       @ [newline @ ''[End RIVL Memory]'' @ newline])))"

section \<open>The default weights\<close>

text \<open>The default weight of a reason as an integer, and the points of a set of findings written out.\<close>

definition weight_points :: "string \<Rightarrow> int" where
  "weight_points k = (case dget DEFAULT_WEIGHTS k of Some (Fin x) \<Rightarrow> \<lfloor>x\<rfloor> | _ \<Rightarrow> 0)"

definition points :: "findings \<Rightarrow> int" where
  "points f = (if f_tests_passed f then 10 else - 25) + (if f_security_passed f then 10 else - 50)
     + (if f_payment_verified f then 25 else - 5) + (if f_consensus_verified f then 15 else - 10)
     + (if f_artifact_downloaded f then 5 else 0) - (if f_refund_requested f then 50 else 0)
     - (if f_financial_loss f then 100 else 0) - (if f_mainnet_without_approval f then 1000 else 0)
     - (if f_loss_of_funds f then 10000 else 0) - (if f_slippage_too_high f then 50 else 0)
     - (if f_unauthorized_contract f then 100 else 0)"

lemma default_weight:
  assumes "k \<in> set (dkeys DEFAULT_WEIGHTS)"
  shows "dget DEFAULT_WEIGHTS k = Some (Fin (of_int (weight_points k)))" and "\<bar>weight_points k\<bar> \<le> 10000"
proof -
  have all: "list_all (\<lambda>(k, w). dget DEFAULT_WEIGHTS k = Some (Fin (of_int (weight_points k))) \<and>
      \<bar>weight_points k\<bar> \<le> 10000) DEFAULT_WEIGHTS"
    by (simp add: DEFAULT_WEIGHTS_def weight_points_def)
  with assms show "dget DEFAULT_WEIGHTS k = Some (Fin (of_int (weight_points k)))" and "\<bar>weight_points k\<bar> \<le> 10000"
    by (auto simp: list_all_iff)
qed

lemma add_default_weights:
  assumes "set rs \<subseteq> set (dkeys DEFAULT_WEIGHTS)" and "\<bar>a\<bar> + 10000 * int (length rs) \<le> 2 ^ 53"
  shows "add_weights DEFAULT_WEIGHTS rs (Fin (of_int a)) = Inr (Fin (of_int (a + sum_list (map weight_points rs))))"
  using assms
proof (induction rs arbitrary: a)
  case Nil
  then show ?case by simp
next
  case (Cons r rs)
  then have w: "dget DEFAULT_WEIGHTS r = Some (Fin (of_int (weight_points r)))" "\<bar>weight_points r\<bar> \<le> 10000"
    by (simp_all add: default_weight)
  with Cons.prems have small: "\<bar>a + weight_points r\<bar> + 10000 * int (length rs) \<le> 2 ^ 53" by simp
  then have "mkf (of_int (a + weight_points r)) = Fin (of_int (a + weight_points r))" by (intro mkf_of_int) simp
  with Cons.IH [OF _ small] Cons.prems w show ?case by (simp add: algebra_simps)
qed

lemma reasons_known: "set (score_reasons f) \<subseteq> set (dkeys DEFAULT_WEIGHTS)"
  by (auto simp: score_reasons_def DEFAULT_WEIGHTS_def split: if_splits)

lemma sum_points: "sum_list (map weight_points (score_reasons f)) = points f"
proof -
  have w: "weight_points ''tests_passed'' = 10" "weight_points ''tests_failed'' = - 25"
    "weight_points ''security_passed'' = 10" "weight_points ''security_failed'' = - 50"
    "weight_points ''payment_verified'' = 25" "weight_points ''payment_missing'' = - 5"
    "weight_points ''consensus_verified'' = 15" "weight_points ''consensus_missing'' = - 10"
    "weight_points ''artifact_downloaded'' = 5" "weight_points ''refund_requested'' = - 50"
    "weight_points ''financial_loss'' = - 100" "weight_points ''mainnet_without_approval'' = - 1000"
    "weight_points ''loss_of_funds'' = - 10000" "weight_points ''slippage_too_high'' = - 50"
    "weight_points ''unauthorized_contract'' = - 100"
    by (simp_all add: weight_points_def DEFAULT_WEIGHTS_def)
  have l: "sum_list (map weight_points (if c then [k] else [])) = (if c then weight_points k else 0)" for c k
    by simp
  have p: "weight_points (if c then j else k) = (if c then weight_points j else weight_points k)" for c j k
    by simp
  show ?thesis unfolding score_reasons_def points_def
    by (simp only: map_append sum_list_append l p w list.map sum_list.Cons sum_list.Nil) simp
qed

lemma length_reasons: "length (score_reasons f) \<le> 11"
  by (simp add: score_reasons_def)

lemma default_reward: "add_weights DEFAULT_WEIGHTS (score_reasons f) (Fin 0) = Inr (Fin (of_int (points f)))"
proof -
  have "\<bar>0 :: int\<bar> + 10000 * int (length (score_reasons f)) \<le> 2 ^ 53" using length_reasons [of f] by simp
  from add_default_weights [OF reasons_known this] show ?thesis by (simp add: sum_points)
qed

lemma points_bounds: "\<bar>points f\<bar> \<le> 110000"
proof -
  have "\<bar>sum_list (map weight_points rs)\<bar> \<le> 10000 * int (length rs)" if "set rs \<subseteq> set (dkeys DEFAULT_WEIGHTS)" for rs
    using that
  proof (induction rs)
    case Nil
    then show ?case by simp
  next
    case (Cons r rs)
    then have "\<bar>weight_points r\<bar> \<le> 10000" by (simp add: default_weight)
    moreover have "\<bar>sum_list (map weight_points rs)\<bar> \<le> 10000 * int (length rs)" using Cons by simp
    ultimately show ?case by simp
  qed
  from this [OF reasons_known [of f]] length_reasons [of f] show ?thesis unfolding sum_points by linarith
qed

text \<open>\<open>round(x, 2)\<close> leaves a whole number alone.\<close>

lemma fround_whole:
  assumes "\<bar>n\<bar> \<le> 2 ^ 53"
  shows "fround (Fin (of_int n)) k = Fin (of_int n)"
proof -
  have "(of_int n :: rat) * 10 ^ k = of_int (n * 10 ^ k)" by simp
  then have "rhe (of_int n * 10 ^ k) = n * 10 ^ k" by (simp only: rhe_of_int)
  then show ?thesis using mkf_of_int [OF assms] by simp
qed

lemma default_score:
  assumes "re_weights e = DEFAULT_WEIGHTS"
  shows "\<exists>v. score prompt out f e rt = (Inr v, persist_reward v e, rt_tick rt) \<and>
    rw_prompt_hash v = sha256_hex prompt \<and> rw_reward v = Fin (of_int (points f)) \<and>
    rw_verdict v = (if 0 < points f then ''accepted'' else ''punished'') \<and>
    rw_reason v = join '','' (score_reasons f) \<and> rw_timestamp v = rt_now rt"
proof -
  have "\<bar>points f\<bar> \<le> 2 ^ 53" using points_bounds [of f] by simp
  then show ?thesis using assms
    by (simp add: score_def default_reward time_time_def fround_whole Let_def del: fround.simps)
qed

text \<open>
  The score is exact: with the default weights \<open>score\<close> never raises, the reward is the sum of the
  points of what the verifiers found, without any rounding, exactly the outputs with a positive sum
  are accepted, and one event is appended to the file. No output with a financial loss, a loss of funds, an
  unapproved mainnet action or an unauthorized contract is ever accepted.
\<close>

theorem reward_is_exact:
  assumes "re_weights e = DEFAULT_WEIGHTS"
  shows "\<exists>v. score prompt out f e rt = (Inr v, e\<lparr>re_file := re_file e @ [Some (JObj (event_asdict v))]\<rparr>, rt_tick rt) \<and>
    rw_reward v = Fin (of_int (points f)) \<and> (rw_verdict v = ''accepted'' \<longleftrightarrow> 0 < points f) \<and>
    (f_financial_loss f \<or> f_loss_of_funds f \<or> f_mainnet_without_approval f \<or> f_unauthorized_contract f \<longrightarrow>
      rw_verdict v = ''punished'')"
proof -
  have neg: "points f \<le> 0"
    if "f_financial_loss f \<or> f_loss_of_funds f \<or> f_mainnet_without_approval f \<or> f_unauthorized_contract f"
  proof -
    have pos: "(if f_tests_passed f then 10 else - 25) \<le> (10 :: int)" "(if f_security_passed f then 10 else - 50) \<le> (10 :: int)"
      "(if f_payment_verified f then 25 else - 5) \<le> (25 :: int)" "(if f_consensus_verified f then 15 else - 10) \<le> (15 :: int)"
      "(if f_artifact_downloaded f then 5 else 0) \<le> (5 :: int)" by simp_all
    have less: "0 \<le> (if f_refund_requested f then 50 else 0 :: int)" "0 \<le> (if f_slippage_too_high f then 50 else 0 :: int)"
      "0 \<le> (if f_financial_loss f then 100 else 0 :: int)" "0 \<le> (if f_mainnet_without_approval f then 1000 else 0 :: int)"
      "0 \<le> (if f_loss_of_funds f then 10000 else 0 :: int)" "0 \<le> (if f_unauthorized_contract f then 100 else 0 :: int)"
      by simp_all
    have "100 \<le> (if f_financial_loss f then 100 else 0) + (if f_mainnet_without_approval f then 1000 else 0)
      + (if f_loss_of_funds f then 10000 else 0) + (if f_unauthorized_contract f then 100 else 0 :: int)"
      using that by auto
    with pos less show ?thesis unfolding points_def by linarith
  qed
  show ?thesis using default_score [OF assms, of prompt out f rt] neg
    by (auto simp: persist_reward_def)
qed

text \<open>A policy violation costs nothing: the flag changes neither the reward nor the verdict.\<close>

lemma policy_violation_is_free:
  assumes "fst (score prompt out f e rt) = Inr v"
    and "fst (score prompt out (f\<lparr>f_policy_violation := b\<rparr>) e rt) = Inr w"
  shows "rw_reward w = rw_reward v \<and> rw_verdict w = rw_verdict v \<and> rw_reason w = rw_reason v"
  using assms by (auto simp: score_def score_reasons_def Let_def case_prod_beta split: sum.splits)

text \<open>An output that fails the security scan is accepted if everything else is in order.\<close>

lemma insecure_output_accepted:
  assumes "re_weights e = DEFAULT_WEIGHTS" and "f_tests_passed f" "f_payment_verified f" "f_consensus_verified f"
    and "f_artifact_downloaded f" "\<not> f_refund_requested f" "\<not> f_slippage_too_high f" "\<not> f_financial_loss f"
    and "\<not> f_loss_of_funds f" "\<not> f_mainnet_without_approval f" "\<not> f_unauthorized_contract f" "\<not> f_security_passed f"
    and "fst (score prompt out f e rt) = Inr v"
  shows "rw_verdict v = ''accepted''"
  using default_score [of e prompt out f rt] assms by (auto simp: points_def)

section \<open>Learning from failures\<close>

abbreviation written :: "reward_event \<Rightarrow> json" where
  "written v \<equiv> JObj (event_asdict v)"

lemma written_fields [simp]:
  "dget_default (event_asdict v) ''timestamp'' d = JFloat (rw_timestamp v)"
  "dget_default (event_asdict v) ''verdict'' d = JStr (rw_verdict v)"
  "text_get (written v) ''prompt_hash'' = Inr (rw_prompt_hash v)"
  "text_get (written v) ''reason'' = Inr (rw_reason v)"
  by (simp_all add: event_asdict_def dget_default_def text_get_def)

lemma load_events_written: "load_events (map (\<lambda>v. Some (written v)) vs) = map written vs"
  by (induction vs) (simp_all add: load_events_def List.map_filter_def)

lemma sort_desc_set:
  assumes "\<forall>p \<in> set acc \<union> set ps. \<exists>k. snd p = JFloat k"
  shows "\<exists>qs. sort_desc acc ps = Inr qs \<and> set qs = set acc \<union> set ps"
proof -
  have ins: "\<exists>qs. insert_desc p ys = Inr qs \<and> set qs = insert p (set ys)"
    if "\<exists>k. snd p = JFloat k" "\<forall>q \<in> set ys. \<exists>k. snd q = JFloat k" for p and ys :: "('a \<times> json) list"
    using that by (induction ys) fastforce+
  show ?thesis using assms
  proof (induction ps arbitrary: acc)
    case Nil
    then show ?case by simp
  next
    case (Cons p ps)
    then obtain qs where qs: "insert_desc p acc = Inr qs" "set qs = insert p (set acc)" using ins [of p acc] by auto
    with Cons.prems Cons.IH [of qs] show ?case by auto
  qed
qed

lemma sort_desc_snoc: "sort_desc acc (ps @ [p]) = rbind (sort_desc acc ps) (insert_desc p)"
proof (induction ps arbitrary: acc)
  case Nil
  show ?case by (cases "insert_desc p acc") simp_all
next
  case (Cons q ps)
  then show ?case by (cases "insert_desc q acc") simp_all
qed

text \<open>An event later than all the others is sorted to the front.\<close>

lemma newest_first_latest:
  assumes "list_all (\<lambda>w. flt (rw_timestamp w) (rw_timestamp v)) vs"
  shows "\<exists>rest. newest_first (map written (vs @ [v])) = Inr (written v # rest) \<and> set rest = written ` set vs"
proof -
  let ?p = "\<lambda>w. (written w, JFloat (rw_timestamp w))"
  have keys: "rmap (\<lambda>e. rbind (json_get e ''timestamp'' (JInt 0)) (\<lambda>t. Inr (e, t))) (map written us) = Inr (map ?p us)" for us
    by (induction us) (simp_all del: rmap_total)
  obtain qs where qs: "sort_desc [] (map ?p vs) = Inr qs" "set qs = set (map ?p vs)"
    using sort_desc_set [of "[]" "map ?p vs"] by auto
  have "insert_desc (?p v) qs = Inr (?p v # qs)"
  proof (cases qs)
    case (Cons q qs')
    with qs(2) have "q \<in> set (map ?p vs)" by (metis list.set_intros(1))
    with assms Cons show ?thesis by (auto simp: list_all_iff)
  qed simp
  moreover have "set (map fst qs) = written ` set vs" using qs(2) by (auto simp: image_iff)
  ultimately show ?thesis using qs(1) unfolding newest_first_def keys
    by (simp add: sort_desc_snoc)
qed

lemma newest_first_written:
  "\<exists>rest. newest_first (map written vs) = Inr rest \<and> set rest = written ` set vs"
proof -
  let ?p = "\<lambda>w. (written w, JFloat (rw_timestamp w))"
  have keys: "rmap (\<lambda>e. rbind (json_get e ''timestamp'' (JInt 0)) (\<lambda>t. Inr (e, t))) (map written vs) = Inr (map ?p vs)"
    by (induction vs) (simp_all del: rmap_total)
  obtain qs where qs: "sort_desc [] (map ?p vs) = Inr qs" "set qs = set (map ?p vs)"
    using sort_desc_set [of "[]" "map ?p vs"] by auto
  moreover have "set (map fst qs) = written ` set vs" using qs(2) by (auto simp: image_iff)
  ultimately show ?thesis unfolding newest_first_def keys by simp
qed

lemma extract_written:
  assumes "set es \<subseteq> written ` V"
  shows "\<exists>ts. extract_texts table es = Inr ts \<and>
    (\<forall>v r w. written v \<in> set es \<longrightarrow> r \<in> set (split_on CHR '','' (rw_reason v)) \<longrightarrow> dget table (strip r) = Some w \<longrightarrow> w \<in> set ts)"
proof -
  define reason where "reason = (\<lambda>e. case text_get e ''reason'' of Inr s \<Rightarrow> s | Inl x \<Rightarrow> [])"
  have "rmap (\<lambda>e. text_get e ''reason'') es = Inr (map reason es)"
    using assms by (intro rmap_total) (auto simp: reason_def)
  moreover have "reason (written v) = rw_reason v" for v by (simp add: reason_def)
  ultimately have ts: "extract_texts table es =
      Inr (dedup (List.map_filter (\<lambda>r. dget table (strip r)) (concat (map (split_on CHR '','') (map reason es)))))"
    and val: "\<And>v. reason (written v) = rw_reason v"
    by (simp_all add: extract_texts_def)
  have "w \<in> set (dedup (List.map_filter (\<lambda>r. dget table (strip r)) (concat (map (split_on CHR '','') (map reason es)))))"
    if "written v \<in> set es" "r \<in> set (split_on CHR '','' (rw_reason v))" "dget table (strip r) = Some w" for v r w
  proof -
    have "r \<in> set (concat (map (split_on CHR '','') (map reason es)))" using that val [of v] by force
    with that(3) show ?thesis unfolding dedup_def List.map_filter_def by force
  qed
  with ts show ?thesis by blast
qed

lemma str_in_join: "x \<in> set xs \<Longrightarrow> \<exists>a b. join sep xs = a @ x @ b"
proof -
  have gen: "\<exists>a b. y @ concat (map ((@) sep) ys) = a @ x @ b" if "x \<in> set (y # ys)" for y ys
    using that
  proof (induction ys arbitrary: y)
    case Nil
    then show ?case by (intro exI [of _ "[]"]) simp
  next
    case (Cons z zs)
    show ?case
    proof (cases "x = y")
      case True
      then show ?thesis by (metis append.left_neutral)
    next
      case False
      with Cons.prems have "x \<in> set (z # zs)" by simp
      from Cons.IH [OF this] obtain a b where "z @ concat (map ((@) sep) zs) = a @ x @ b" by blast
      then show ?thesis by (intro exI [of _ "y @ sep @ a"] exI [of _ b]) simp
    qed
  qed
  assume "x \<in> set xs"
  then show ?thesis using gen by (cases xs) (auto simp: join_def)
qed

lemma reason_texts:
  assumes "r \<in> set (score_reasons f)"
  shows "strip r = r" and "CHR '','' \<notin> set r"
proof -
  have "list_all (\<lambda>k. strip k = k \<and> CHR '','' \<notin> set k) (dkeys DEFAULT_WEIGHTS)" by code_simp
  with assms reasons_known [of f] show "strip r = r" and "CHR '','' \<notin> set r" by (auto simp: list_all_iff)
qed

lemma split_reasons: "split_on CHR '','' (join '','' (score_reasons f)) = score_reasons f"
  using reason_texts(2) by (intro split_on_join) (auto simp: score_reasons_def list_all_iff)

lemma rfilter_written:
  assumes "\<And>w. p (written w) = Inr (q w)"
  shows "rfilter p (map written us) = Inr (map written (filter q us))"
  using assms by (induction us) (simp_all del: rfilter_total)

text \<open>What a search finds when the latest event of a file is a failure for the same prompt.\<close>

lemma search_latest_failure:
  assumes "list_all (\<lambda>w. flt (rw_timestamp w) (rw_timestamp v)) vs"
    and "rw_prompt_hash v = sha256_hex prompt" and "rw_verdict v = ''punished''" and "rw_reason v = join '','' (score_reasons f)"
  shows "\<exists>m. memory_search prompt 5 (map (\<lambda>v. Some (written v)) (vs @ [v])) = Inr m \<and> mr_total_related m \<noteq> 0 \<and>
    (\<forall>r w. r \<in> set (score_reasons f) \<longrightarrow> dget warning_of r = Some w \<longrightarrow> w \<in> set (mr_warnings m))"
proof -
  let ?rel = "\<lambda>w. starts_with (take 16 (sha256_hex prompt)) (rw_prompt_hash w)"
  have "starts_with (take 16 h) h" for h :: string by (metis append_take_drop_id starts_with_append)
  then have rel: "?rel v" using assms(2) by simp
  define R where "R = filter ?rel vs"
  define F where "F = filter (\<lambda>w. rw_verdict w = ''punished'') R"
  define S where "S = filter (\<lambda>w. rw_verdict w = ''accepted'') R"
  have related: "prompt_related prompt (map written (vs @ [v])) = Inr (map written (R @ [v]))"
    using rel unfolding prompt_related_def R_def by (subst rfilter_written [where q = ?rel]) simp_all
  have fails: "rfilter (\<lambda>e. rbind (json_get e ''verdict'' JNull) (\<lambda>x. Inr (x = JStr ''punished''))) (map written (R @ [v]))
      = Inr (map written (F @ [v]))"
    using assms(3) unfolding F_def by (subst rfilter_written [where q = "\<lambda>w. rw_verdict w = ''punished''"]) simp_all
  have succ: "rfilter (\<lambda>e. rbind (json_get e ''verdict'' JNull) (\<lambda>x. Inr (x = JStr ''accepted''))) (map written (R @ [v]))
      = Inr (map written S)"
    using assms(3) unfolding S_def by (subst rfilter_written [where q = "\<lambda>w. rw_verdict w = ''accepted''"]) simp_all
  have "list_all (\<lambda>w. flt (rw_timestamp w) (rw_timestamp v)) F"
    using assms(1) by (auto simp: F_def R_def list_all_iff)
  from newest_first_latest [OF this] obtain rest where
    rest: "newest_first (map written (F @ [v])) = Inr (written v # rest)" "set rest = written ` set F" by blast
  from newest_first_written [of S] obtain good where
    good: "newest_first (map written S) = Inr good" "set good = written ` set S" by blast
  have "set (slice_to 5 (written v # rest)) \<subseteq> written ` insert v (set F)"
    using set_take_subset [of 4 rest] rest(2) by (auto simp: slice_to_def)
  from extract_written [OF this, of warning_of] obtain ws where ws: "extract_texts warning_of (slice_to 5 (written v # rest)) = Inr ws"
    "\<And>r w. r \<in> set (score_reasons f) \<Longrightarrow> dget warning_of (strip r) = Some w \<Longrightarrow> w \<in> set ws"
    using assms(4) split_reasons [of f] by (auto simp: slice_to_def)
  have "set (slice_to 5 good) \<subseteq> written ` set S"
    using set_take_subset [of 5 good] good(2) by (auto simp: slice_to_def)
  from extract_written [OF this, of suggestion_of] obtain ts where "extract_texts suggestion_of (slice_to 5 good) = Inr ts" by blast
  with ws related fails succ rest(1) good(1) reason_texts(1) show ?thesis
    unfolding memory_search_def load_events_written by simp
qed

text \<open>
  What was punished is remembered: when an output is punished at a time later than all events of the
  file, the instructions for the same prompt contain, from then on until the next event, the warning
  for every failure the verifiers found.
\<close>

theorem failure_becomes_warning:
  assumes "re_weights e = DEFAULT_WEIGHTS" and "re_file e = map (\<lambda>v. Some (JObj (event_asdict v))) vs"
    and "list_all (\<lambda>v. flt (rw_timestamp v) (rt_now rt)) vs"
    and "score prompt out f e rt = (Inr v, e', rt')" and "rw_verdict v = ''punished''"
    and "r \<in> set (score_reasons f)" and "dget warning_of r = Some w"
  shows "\<exists>t. get_system_prompt_addon prompt (re_file e') = Inr t \<and> str_in w t"
proof -
  from default_score [OF assms(1), of prompt out f rt] assms(4) have v: "e' = persist_reward v e"
    "rw_prompt_hash v = sha256_hex prompt" "rw_reason v = join '','' (score_reasons f)" "rw_timestamp v = rt_now rt" by auto
  have events: "re_file e' = map (\<lambda>v. Some (written v)) (vs @ [v])" using v(1) assms(2) by (simp add: persist_reward_def)
  from search_latest_failure [of v vs prompt f] v assms(3,5) obtain m where
    m: "memory_search prompt 5 (re_file e') = Inr m" "mr_total_related m \<noteq> 0"
      "\<forall>r w. r \<in> set (score_reasons f) \<longrightarrow> dget warning_of r = Some w \<longrightarrow> w \<in> set (mr_warnings m)"
    unfolding events by auto
  then have "w \<in> set (mr_warnings m)" using assms(6,7) by blast
  then have item: "(''  '' @ bullet @ '' '') @ w \<in> set (map (\<lambda>w. ''  '' @ bullet @ '' '' @ w) (mr_warnings m))" "mr_warnings m \<noteq> []"
    by auto
  obtain xs where xs: "get_system_prompt_addon prompt (re_file e') = Inr (join newline xs)"
    "(''  '' @ bullet @ '' '') @ w \<in> set xs"
    using m item unfolding get_system_prompt_addon_def by simp
  from str_in_join [OF xs(2), of newline] obtain a b where "join newline xs = a @ ((''  '' @ bullet @ '' '') @ w) @ b" by blast
  then have "join newline xs = (a @ ''  '' @ bullet @ '' '') @ w @ b" by simp
  then have "str_in w (join newline xs)" by (metis str_in_append)
  with xs(1) show ?thesis by blast
qed

section \<open>A concrete run\<close>

definition sample_findings :: findings where
  "sample_findings = \<lparr>f_tests_passed = False, f_security_passed = True, f_payment_verified = False,
     f_consensus_verified = True, f_financial_loss = False, f_policy_violation = True, f_artifact_downloaded = False,
     f_refund_requested = False, f_mainnet_without_approval = False, f_loss_of_funds = False,
     f_slippage_too_high = False, f_unauthorized_contract = False\<rparr>"

lemma sample_points: "points sample_findings = - 5"
  by (simp add: points_def sample_findings_def)

theorem reward_is_exact_witness:
  "\<exists>v. fst (score ''p'' ''o'' sample_findings (reward_engine_init None []) sample_rt) = Inr v \<and>
    rw_reward v = Fin (- 5) \<and> rw_verdict v \<noteq> ''accepted''"
proof -
  have "re_weights (reward_engine_init None []) = DEFAULT_WEIGHTS" by (simp add: reward_engine_init_def)
  from reward_is_exact [OF this, of "''p''" "''o''" sample_findings sample_rt] show ?thesis
    by (auto simp: sample_points)
qed

theorem failure_becomes_warning_witness:
  "\<exists>t. get_system_prompt_addon ''p''
      (re_file (fst (snd (score ''p'' ''o'' sample_findings (reward_engine_init None []) sample_rt)))) = Inr t \<and>
    str_in ''Ensure all tests pass before submitting'' t"
proof -
  let ?e = "reward_engine_init None []"
  have w: "re_weights ?e = DEFAULT_WEIGHTS" "re_file ?e = map (\<lambda>v. Some (JObj (event_asdict v))) []"
    by (simp_all add: reward_engine_init_def)
  from default_score [OF w(1), of "''p''" "''o''" sample_findings sample_rt] obtain v where
    v: "score ''p'' ''o'' sample_findings ?e sample_rt = (Inr v, persist_reward v ?e, rt_tick sample_rt)"
      "rw_verdict v = ''punished''" by (auto simp: sample_points)
  have "''tests_failed'' \<in> set (score_reasons sample_findings)" by (simp add: score_reasons_def sample_findings_def)
  moreover have "dget warning_of ''tests_failed'' = Some ''Ensure all tests pass before submitting''"
    by (simp add: warning_of_def)
  ultimately show ?thesis using failure_becomes_warning [OF w _ v(1) v(2)] v(1) by simp
qed

end
