(* ===== verification/Rivl_Brain.thy ===== *)
theory Rivl_Brain
  imports Brain Reward_Engine
begin

text \<open>
  \<open>membra_sdk/rivl/rivl_brain.py\<close>: the pipeline of the brain with the verifier stack, the reward engine and the
  punishment memory. The memory and the engine share one file of events. The parser of the language and the
  runner of tests are parameters, as in the verifier stack; progress messages are left out.
\<close>

section \<open>State and steps\<close>

record rivl =
  rv_models :: "string dict"
  rv_judge :: judge_brain
  rv_history :: "synthesis list"
  rv_reward :: reward_engine
  rv_workers :: "agent dict"



definition prompt_with_memory :: "subtask \<Rightarrow> string \<Rightarrow> string" where
  "prompt_with_memory t addon = (if addon \<noteq> [] then addon @ two_lines @ ''Task: '' @ sb_description t else sb_description t)"

definition run_with_memory :: "machine \<Rightarrow> string \<Rightarrow> worker_node \<Rightarrow> subtask \<Rightarrow> json dict result" where
  "run_with_memory mc addon w t = run_prompt mc w [(''prompt'', JStr (prompt_with_memory t addon)), (''model'', JStr (sb_model t))]"

text \<open>The code of an output; searching it for patterns raises if it is not a text.\<close>

definition code_of :: "spec_out \<Rightarrow> string result" where
  "code_of out = (case so_result out of
     JObj r \<Rightarrow> (case dget_default r ''output'' (JStr []) of JStr s \<Rightarrow> Inr s | _ \<Rightarrow> Inl TypeError)
   | v \<Rightarrow> Inr (json_text v))"

record check_result =
  ck_worker_id :: string
  ck_role :: string
  ck_passed :: bool
  ck_issues :: "string list"

definition check_output :: "parser \<Rightarrow> test_runner \<Rightarrow> spec_out \<Rightarrow> check_result result" where
  "check_output parse run out = rbind (code_of out) (\<lambda>code. let v = verify_code parse run code False [] in
     Inr \<lparr>ck_worker_id = so_worker_id out, ck_role = so_role out, ck_passed = co_passed v, ck_issues = co_issues v\<rparr>)"

text \<open>No payment is verified, and the consensus is taken for granted.\<close>

definition output_findings :: "check_result \<Rightarrow> findings" where
  "output_findings v = \<lparr>f_tests_passed = ck_passed v, f_security_passed = (\<not> list_ex (str_in ''Security'') (ck_issues v)),
     f_payment_verified = False, f_consensus_verified = True, f_financial_loss = False, f_policy_violation = False,
     f_artifact_downloaded = False, f_refund_requested = False, f_mainnet_without_approval = False, f_loss_of_funds = False,
     f_slippage_too_high = False, f_unauthorized_contract = False\<rparr>"

fun score_outputs :: "string \<Rightarrow> (spec_out \<times> check_result) list \<Rightarrow> reward_engine \<Rightarrow> runtime \<Rightarrow> reward_event list result \<times> reward_engine \<times> runtime" where
  "score_outputs prompt [] e rt = (Inr [], e, rt)"
| "score_outputs prompt ((out, v) # rest) e rt = (case code_of out of Inl x \<Rightarrow> (Inl x, e, rt)
     | Inr code \<Rightarrow> (case score prompt code (output_findings v) e rt of (Inl x, e, rt) \<Rightarrow> (Inl x, e, rt)
       | (Inr w, e, rt) \<Rightarrow> (case score_outputs prompt rest e rt of (ws, e, rt) \<Rightarrow> (rbind ws (\<lambda>ws. Inr (w # ws)), e, rt))))"

record rivl_report =
  rp_overall_passed :: bool
  rp_reward_events :: "json dict list"
  rp_total_reward :: pyfloat
  rp_verification_count :: int

definition rivl_process :: "parser \<Rightarrow> test_runner \<Rightarrow> machine \<Rightarrow> string \<Rightarrow> rivl \<Rightarrow> runtime \<Rightarrow> (synthesis \<times> rivl_report) result \<times> rivl \<times> runtime" where
  "rivl_process parse run mc prompt s rt = (case get_system_prompt_addon prompt (re_file (rv_reward s)) of Inl x \<Rightarrow> (Inl x, s, rt)
   | Inr addon \<Rightarrow> (case router_plan (rv_models s) prompt rt of (Inl x, rt) \<Rightarrow> (Inl x, s, rt)
   | (Inr p, rt) \<Rightarrow> (case run_specialists (run_with_memory mc addon) (rv_workers s) (pl_subtasks p) of Inl x \<Rightarrow> (Inl x, s, rt)
   | Inr outs \<Rightarrow> (case rmap (check_output parse run) outs of Inl x \<Rightarrow> (Inl x, s, rt)
   | Inr checks \<Rightarrow> (case judge_all outs [] (rv_judge s) rt of (Inl x, jb, rt) \<Rightarrow> (Inl x, s\<lparr>rv_judge := jb\<rparr>, rt)
   | (Inr scores, jb, rt) \<Rightarrow> (case score_outputs (pl_original_prompt p) (zip outs checks) (rv_reward s) rt of
       (Inl x, e, rt) \<Rightarrow> (Inl x, s\<lparr>rv_judge := jb, rv_reward := e\<rparr>, rt)
   | (Inr events, e, rt) \<Rightarrow>
       let valid = map fst (filter (\<lambda>(out, v). ck_passed v) (zip outs checks)); valid = (if valid = [] then take 1 outs else valid) in
       (case synthesize p valid scores (rv_history s) rt of (Inl x, h, rt) \<Rightarrow> (Inl x, s\<lparr>rv_judge := jb, rv_reward := e\<rparr>, rt)
       | (Inr final, h, rt) \<Rightarrow> (Inr (final, \<lparr>rp_overall_passed = list_all ck_passed checks, rp_reward_events = map event_asdict events,
            rp_total_reward = fsum (map rw_reward events), rp_verification_count = int (length checks)\<rparr>),
           s\<lparr>rv_judge := jb, rv_history := h, rv_reward := e\<rparr>, rt))))))))"

definition rivl_get_stats :: "rivl \<Rightarrow> (reward_stats option \<times> int) result" where
  "rivl_get_stats s = rbind (reward_get_stats (rv_reward s)) (\<lambda>r. Inr (r, int (length (rv_workers s))))"

section \<open>Rewards follow the verifier\<close>










text \<open>Without any worker nothing is produced or checked, and the report says that everything passed.\<close>

lemma no_workers_pass:
  assumes "\<forall>i. \<exists>n. ftrunc (clock rt i) = Inr n" and "rv_workers s = []" and "fst (rivl_process parse run mc prompt s rt) = Inr (final, report)"
  shows "rp_overall_passed report \<and> rp_verification_count report = 0 \<and> rp_total_reward report = Fin 0"
proof -
  have none: "run_specialists (run_with_memory mc addon) [] ts = Inr []" for addon ts by (induction ts) (simp_all add: find_worker_for_role_def)
  show ?thesis using assms(3) by (auto simp: rivl_process_def assms(2) none Let_def case_prod_beta split: sum.splits)
qed

section \<open>A concrete run\<close>


end
