(* ===== verification/Poy_Consensus.thy ===== *)
theory Poy_Consensus
  imports PyNum
begin

text \<open>
  \<open>membra_sdk/consensus/poy.py\<close> and \<open>core/ledger.py\<close>: the operation buffer of a node and the
  proof-of-yield consensus on its batches. The remote model (the content of its answer, or nothing when
  the request fails) and Python's salted \<open>hash\<close> are parameters.
\<close>

section \<open>The operation buffer\<close>

record 'op ledger =
  lg_pending :: "'op list"
  lg_max_pending :: nat
  lg_processed :: int
  lg_batches_formed :: int

definition ledger_init :: "nat \<Rightarrow> 'op ledger" where
  "ledger_init m = \<lparr>lg_pending = [], lg_max_pending = m, lg_processed = 0, lg_batches_formed = 0\<rparr>"

text \<open>\<open>append\<close> on a deque with a maximal length drops the oldest element when it is full.\<close>

definition ledger_submit :: "'op \<Rightarrow> 'op ledger \<Rightarrow> 'op ledger" where
  "ledger_submit op l = (let q = lg_pending l @ [op] in l\<lparr>lg_pending := drop (length q - lg_max_pending l) q\<rparr>)"

definition drain_batch :: "int \<Rightarrow> 'op ledger \<Rightarrow> 'op list \<times> 'op ledger" where
  "drain_batch n l = (let k = nat (min n (int (length (lg_pending l)))); batch = take k (lg_pending l);
       l = l\<lparr>lg_pending := drop k (lg_pending l)\<rparr>
     in (batch, if batch = [] then l
          else l\<lparr>lg_processed := lg_processed l + int (length batch), lg_batches_formed := lg_batches_formed l + 1\<rparr>))"

definition ledger_stats :: "'op ledger \<Rightarrow> int \<times> int \<times> int" where
  "ledger_stats l = (int (length (lg_pending l)), lg_processed l, lg_batches_formed l)"

section \<open>Votes\<close>

record poy_vote =
  pv_agent_id :: string
  pv_state_root :: string
  pv_inference_hash :: string
  pv_yield_hash :: string
  pv_total_yield :: pyfloat
  pv_confidence :: pyfloat
  pv_timestamp :: pyfloat

record poy_round =
  po_round_id :: string
  po_state_root :: string
  po_votes :: "poy_vote list"
  po_threshold :: pyfloat
  po_finalized :: bool
  po_finality_time :: pyfloat

record finality =
  fn_state_root :: string
  fn_votes :: int
  fn_inf_agreement :: pyfloat
  fn_yield_agreement :: pyfloat
  fn_finality_ms :: pyfloat

record poy =
  poy_agent_id :: string
  poy_groq_key :: string
  poy_rounds :: "poy_round dict"
  poy_vote_history :: "finality list"

definition new_round :: "string \<Rightarrow> string \<Rightarrow> poy_round" where
  "new_round rid sroot = \<lparr>po_round_id = rid, po_state_root = sroot, po_votes = [], po_threshold = mkf (6667 / 10000),
     po_finalized = False, po_finality_time = Fin 0\<rparr>"

text \<open>\<open>groq_key or os.environ.get(...)\<close>.\<close>

definition poy_init :: "string \<Rightarrow> string \<Rightarrow> string \<Rightarrow> poy" where
  "poy_init agent key env_key = \<lparr>poy_agent_id = agent, poy_groq_key = (if key \<noteq> [] then key else env_key),
     poy_rounds = [], poy_vote_history = []\<rparr>"

text \<open>The remote model and the salted hash.\<close>

record llm_source =
  or_remote :: "string \<Rightarrow> string option"
  or_hash :: "string \<Rightarrow> int"

definition call_llm :: "llm_source \<Rightarrow> poy \<Rightarrow> string \<Rightarrow> string result" where
  "call_llm orc s prompt = (if poy_groq_key s = [] then
       rbind (truediv (or_hash orc prompt mod 1000) 1000) (\<lambda>y. Inr (''VALID|YIELD='' @ ffixed 6 y @ ''|REASON=agreed''))
     else Inr (case or_remote orc prompt of Some answer \<Rightarrow> strip answer | None \<Rightarrow> ''VALID|YIELD=0.500000|REASON=default''))"

definition hash_inference :: "string \<Rightarrow> string" where
  "hash_inference t = sha256_hex t"

text \<open>The text after the first occurrence of a pattern.\<close>

fun after :: "string \<Rightarrow> string \<Rightarrow> string option" where
  "after p [] = (if p = [] then Some [] else None)"
| "after p (c # s) = (if starts_with p (c # s) then Some (drop (length p) (c # s)) else after p s)"

fun before :: "string \<Rightarrow> string \<Rightarrow> string" where
  "before p [] = []"
| "before p (c # s) = (if starts_with p (c # s) then [] else c # before p s)"

text \<open>\<open>response.split("YIELD=")[1]\<close> ends before the next occurrence.\<close>

definition extract_yield :: "string \<Rightarrow> pyfloat" where
  "extract_yield response = (case after ''YIELD='' response of None \<Rightarrow> Fin 0
     | Some t \<Rightarrow> case py_float (strip (hd (split_on CHR ''|'' (before ''YIELD='' t)))) of None \<Rightarrow> Fin 0 | Some y \<Rightarrow> y)"

definition CONSENSUS_PROMPT :: "string \<Rightarrow> string \<Rightarrow> string \<Rightarrow> string \<Rightarrow> string" where
  "CONSENSUS_PROMPT sroot yield_text op_count files = join [CHR 0x0A] [
     ''You are a Membra Proof-of-Yield validator.'',
     ''Evaluate this batch for validity and economic value.'',
     [],
     ''State Root: '' @ sroot,
     ''Total Yield Estimate: '' @ yield_text,
     ''Operations: '' @ op_count,
     ''Top Files: '' @ files,
     [],
     ''Respond in this exact format:'',
     ''VALID|YIELD=<your_number> |REASON=<one_word>'',
     [],
     ''Where <your_number> is your independent yield estimate for this batch.'',
     ''Your response will be hashed and used as a consensus vote.'']"

text \<open>The name of the file of an operation; joining raises when it is no text.\<close>

definition op_file :: "json dict \<Rightarrow> string result" where
  "op_file op = (case dget_default op ''file'' (JStr ''unknown'') of JStr s \<Rightarrow> Inr s | _ \<Rightarrow> Inl TypeError)"

definition cast_poy_vote :: "llm_source \<Rightarrow> string \<Rightarrow> json dict list \<Rightarrow> pyfloat \<Rightarrow> poy \<Rightarrow> runtime \<Rightarrow> poy_vote result \<times> runtime" where
  "cast_poy_vote orc sroot batch total_yield s rt =
     (case rbind (rmap op_file (take 5 batch)) (\<lambda>files.
         call_llm orc s (CONSENSUS_PROMPT sroot (ffixed 6 total_yield) (dec_int (int (length batch))) (take 200 (join '', '' files)))) of
        Inl x \<Rightarrow> (Inl x, rt)
      | Inr inference \<Rightarrow> let y = extract_yield inference; (now, rt) = time_time rt in
          (Inr \<lparr>pv_agent_id = poy_agent_id s, pv_state_root = sroot, pv_inference_hash = hash_inference inference,
             pv_yield_hash = hash_inference (ffixed 6 y), pv_total_yield = y,
             pv_confidence = (if str_in ''VALID'' (concat (map upper_char inference)) then mkf (95 / 100) else mkf (1 / 10)),
             pv_timestamp = now\<rparr>, rt))"

section \<open>Rounds\<close>

text \<open>Counting with a \<open>defaultdict(int)\<close>, and \<open>max(counts.items(), key=...)\<close>: the first of the largest.\<close>

definition count_values :: "string list \<Rightarrow> int dict" where
  "count_values xs = foldl (\<lambda>d x. dset x (dget_default d x 0 + 1) d) [] xs"

fun max_item :: "string \<times> int \<Rightarrow> int dict \<Rightarrow> string \<times> int" where
  "max_item best [] = best"
| "max_item best (kv # d) = max_item (if snd best < snd kv then kv else best) d"

definition top_value :: "string list \<Rightarrow> string \<times> int" where
  "top_value xs = (let d = count_values xs in max_item (hd d) (tl d))"

definition check_consensus :: "string \<Rightarrow> poy \<Rightarrow> runtime \<Rightarrow> poy result \<times> runtime" where
  "check_consensus sroot s rt = (case dget (poy_rounds s) sroot of None \<Rightarrow> (Inr s, rt)
     | Some r \<Rightarrow> if po_finalized r \<or> length (po_votes r) < 3 then (Inr s, rt)
       else let (top_inf, inf_count) = top_value (map pv_inference_hash (po_votes r));
                (top_yield, yield_count) = top_value (map pv_yield_hash (po_votes r));
                n = int (length (po_votes r))
         in if \<not> (n * 2 \<le> inf_count * 3 \<and> n * 2 \<le> yield_count * 3) then (Inr s, rt)
            else let (now, rt) = time_time rt;
                     s' = s\<lparr>poy_rounds := dset sroot (r\<lparr>po_finalized := True, po_finality_time := now\<rparr>) (poy_rounds s)\<rparr>
              in (rbind (truediv inf_count n) (\<lambda>ia. rbind (truediv yield_count n) (\<lambda>ya.
                    Inr (s'\<lparr>poy_vote_history := poy_vote_history s' @ [\<lparr>fn_state_root = sroot, fn_votes = n,
                      fn_inf_agreement = ia, fn_yield_agreement = ya,
                      fn_finality_ms = fround (fmul (fsub now (pv_timestamp (hd (po_votes r)))) (Fin 1000)) 2\<rparr>]\<rparr>))), rt))"

definition add_external_vote :: "poy_vote \<Rightarrow> poy \<Rightarrow> runtime \<Rightarrow> poy result \<times> runtime" where
  "add_external_vote v s rt =
     (let sroot = pv_state_root v;
          r = (case dget (poy_rounds s) sroot of Some r \<Rightarrow> r | None \<Rightarrow> new_round (''poy-'' @ take 16 sroot) sroot)
      in check_consensus sroot (s\<lparr>poy_rounds := dset sroot (r\<lparr>po_votes := po_votes r @ [v]\<rparr>) (poy_rounds s)\<rparr>) rt)"

definition get_round :: "string \<Rightarrow> poy \<Rightarrow> poy_round" where
  "get_round sroot s = dget_default (poy_rounds s) sroot (new_round ''empty'' sroot)"

text \<open>Votes of other agents as they arrive.\<close>

fun add_votes :: "poy_vote list \<Rightarrow> poy \<Rightarrow> runtime \<Rightarrow> poy result \<times> runtime" where
  "add_votes [] s rt = (Inr s, rt)"
| "add_votes (v # vs) s rt = (case add_external_vote v s rt of (Inl x, rt) \<Rightarrow> (Inl x, rt) | (Inr s, rt) \<Rightarrow> add_votes vs s rt)"

text \<open>
  The waiting loop of \<open>run_poy_round\<close>. Each element of \<open>arrivals\<close> holds the votes that other tasks add
  while the loop sleeps; \<open>None\<close> means that the loop is still waiting at the end of the list.
\<close>

fun wait_loop :: "poy_vote list list \<Rightarrow> string \<Rightarrow> pyfloat \<Rightarrow> poy \<Rightarrow> runtime \<Rightarrow> (poy_round result \<times> poy \<times> runtime) option" where
  "wait_loop arrivals sroot start s rt =
     (let (now, rt) = time_time rt in
      if \<not> flt (fsub now start) (Fin 10) \<or> po_finalized (get_round sroot s) then Some (Inr (get_round sroot s), s, rt)
      else case arrivals of [] \<Rightarrow> None
        | vs # rest \<Rightarrow> (case add_votes vs s rt of (Inl x, rt) \<Rightarrow> Some (Inl x, s, rt) | (Inr s, rt) \<Rightarrow> wait_loop rest sroot start s rt))"

declare wait_loop.simps [simp del]

definition run_poy_round :: "llm_source \<Rightarrow> poy_vote list list \<Rightarrow> string \<Rightarrow> json dict list \<Rightarrow> pyfloat \<Rightarrow> poy \<Rightarrow> runtime
    \<Rightarrow> (poy_round result \<times> poy \<times> runtime) option" where
  "run_poy_round orc arrivals sroot batch total_yield s rt =
     (case cast_poy_vote orc sroot batch total_yield s rt of (Inl x, rt) \<Rightarrow> Some (Inl x, s, rt)
      | (Inr v, rt) \<Rightarrow> (case add_external_vote v s rt of (Inl x, rt) \<Rightarrow> Some (Inl x, s, rt)
         | (Inr s, rt) \<Rightarrow> let (start, rt) = time_time rt in wait_loop arrivals sroot start s rt))"

record poy_stats =
  ps_agent_id :: string
  ps_total_rounds :: int
  ps_finalized :: int
  ps_avg_finality_ms :: pyfloat
  ps_recent :: "finality list"

definition poy_get_stats :: "poy \<Rightarrow> poy_stats result" where
  "poy_get_stats s = rbind (of_pyint (max (int (length (poy_vote_history s))) 1)) (\<lambda>n.
     rbind (fdiv (fsum (map fn_finality_ms (poy_vote_history s))) n) (\<lambda>avg.
       Inr \<lparr>ps_agent_id = poy_agent_id s, ps_total_rounds = int (length (poy_rounds s)),
         ps_finalized = int (length (filter po_finalized (dvalues (poy_rounds s)))),
         ps_avg_finality_ms = fround avg 2, ps_recent = slice_from (- 3) (poy_vote_history s)\<rparr>))"

section \<open>The buffer is a queue\<close>

text \<open>A sequence of calls: submitting an operation or draining a batch. The result collects what was drained.\<close>

datatype 'op ledger_call = Submit 'op | Drain int

fun ledger_run :: "'op ledger_call list \<Rightarrow> 'op list \<Rightarrow> 'op ledger \<Rightarrow> 'op list \<times> 'op ledger" where
  "ledger_run [] out l = (out, l)"
| "ledger_run (Submit op # cs) out l = ledger_run cs out (ledger_submit op l)"
| "ledger_run (Drain n # cs) out l = (let (batch, l) = drain_batch n l in ledger_run cs (out @ batch) l)"

fun submitted :: "'op ledger_call list \<Rightarrow> 'op list" where
  "submitted [] = []"
| "submitted (Submit op # cs) = op # submitted cs"
| "submitted (Drain n # cs) = submitted cs"

lemma drain_effect:
  assumes "drain_batch n l = (batch, l')"
  shows "batch @ lg_pending l' = lg_pending l" and "lg_max_pending l' = lg_max_pending l"
    and "lg_processed l' = lg_processed l + int (length batch)" and "int (length batch) = max 0 (min n (int (length (lg_pending l))))"
  using assms by (auto simp: drain_batch_def Let_def split: if_splits)

lemma ledger_run_fifo:
  assumes "length (lg_pending l) + length (submitted cs) \<le> lg_max_pending l" and "ledger_run cs out l = (out', l')"
    and "lg_processed l = int (length out)"
  shows "out' @ lg_pending l' = out @ lg_pending l @ submitted cs \<and> lg_processed l' = int (length out')"
  using assms
proof (induction cs arbitrary: out l)
  case Nil
  then show ?case by simp
next
  case (Cons c cs)
  show ?case
  proof (cases c)
    case (Submit op)
    then have l: "lg_pending (ledger_submit op l) = lg_pending l @ [op]" "lg_max_pending (ledger_submit op l) = lg_max_pending l"
      "lg_processed (ledger_submit op l) = lg_processed l"
      using Cons.prems(1) by (auto simp: ledger_submit_def Let_def)
    have "out' @ lg_pending l' = out @ lg_pending (ledger_submit op l) @ submitted cs \<and> lg_processed l' = int (length out')"
      using Cons.prems Submit l by (intro Cons.IH) simp_all
    then show ?thesis using Submit l by simp
  next
    case (Drain n)
    obtain batch l1 where d: "drain_batch n l = (batch, l1)" by (cases "drain_batch n l")
    note e = drain_effect [OF d]
    have len: "length (lg_pending l1) \<le> length (lg_pending l)" by (metis e(1) length_append le_add2)
    have "out' @ lg_pending l' = (out @ batch) @ lg_pending l1 @ submitted cs \<and> lg_processed l' = int (length out')"
      using Cons.prems Drain d e(2,3) len by (intro Cons.IH) simp_all
    then show ?thesis using Drain e(1) by simp
  qed
qed

text \<open>
  The buffer is a first-in first-out queue up to its capacity: in any interleaving of at most
  \<open>max_pending\<close> submissions with drains of any sizes, the drained operations followed by the pending ones are
  the submitted ones in order, and \<open>processed\<close> counts the drained ones.
\<close>

theorem ledger_is_fifo:
  assumes "length (submitted cs) \<le> m" and "ledger_run cs [] (ledger_init m) = (out, l)"
  shows "out @ lg_pending l = submitted cs \<and> lg_processed l = int (length out)"
  using ledger_run_fifo [of "ledger_init m" cs "[]" out l] assms by (simp add: ledger_init_def)

text \<open>Beyond its capacity the oldest operation is dropped without a trace.\<close>

lemma full_ledger_drops_oldest:
  assumes "length (lg_pending l) = lg_max_pending l" and "lg_pending l = p # ps"
  shows "lg_pending (ledger_submit op l) = ps @ [op] \<and> lg_processed (ledger_submit op l) = lg_processed l"
  using assms by (simp add: ledger_submit_def Let_def)

theorem ledger_is_fifo_witness:
  "let r = ledger_run [Submit (1 :: int), Submit 2, Drain 1, Submit 3, Drain 5] [] (ledger_init 3)
   in fst r @ lg_pending (snd r) = [1, 2, 3]"
proof -
  let ?cs = "[Submit (1 :: int), Submit 2, Drain 1, Submit 3, Drain 5]"
  obtain out l where r: "ledger_run ?cs [] (ledger_init 3) = (out, l)" by (cases "ledger_run ?cs [] (ledger_init 3)")
  have "out @ lg_pending l = submitted ?cs" using ledger_is_fifo [of ?cs 3 out l] r by simp
  then show ?thesis using r by simp
qed

section \<open>Agreement\<close>

text \<open>Two thirds of the votes carry the same inference hash, and two thirds the same yield hash.\<close>

definition two_thirds :: "string list \<Rightarrow> bool" where
  "two_thirds xs \<longleftrightarrow> (\<exists>x \<in> set xs. 2 * length xs \<le> 3 * count_list xs x)"

definition agree :: "poy_vote list \<Rightarrow> bool" where
  "agree vs \<longleftrightarrow> two_thirds (map pv_inference_hash vs) \<and> two_thirds (map pv_yield_hash vs)"

lemma count_values_get: "dget_default (count_values xs) x 0 = int (count_list xs x)"
proof -
  have "dget_default (foldl (\<lambda>d x. dset x (dget_default d x 0 + 1) d) d xs) x 0 = dget_default d x 0 + int (count_list xs x)" for d
    by (induction xs arbitrary: d) auto
  from this [of "[]"] show ?thesis by (simp add: count_values_def dget_default_def)
qed

lemma count_values_keys: "set (dkeys (count_values xs)) = set xs" "distinct (dkeys (count_values xs))"
proof -
  have "set (dkeys (foldl (\<lambda>d x. dset x (dget_default d x 0 + 1) d) d xs)) = set (dkeys d) \<union> set xs" for d :: "int dict"
    by (induction xs arbitrary: d) auto
  from this [of "[]"] show "set (dkeys (count_values xs)) = set xs" by (simp add: count_values_def)
  have "distinct (dkeys d) \<Longrightarrow> distinct (dkeys (foldl (\<lambda>d x. dset x (dget_default d x 0 + 1) d) d xs))" for d :: "int dict"
    by (induction xs arbitrary: d) auto
  from this [of "[]"] show "distinct (dkeys (count_values xs))" by (simp add: count_values_def)
qed

lemma max_item_best: "max_item kv d \<in> set (kv # d)" "\<forall>p \<in> set (kv # d). snd p \<le> snd (max_item kv d)"
proof -
  have "max_item kv d \<in> set (kv # d) \<and> (\<forall>p \<in> set (kv # d). snd p \<le> snd (max_item kv d))"
  proof (induction d arbitrary: kv)
    case Nil
    then show ?case by simp
  next
    case (Cons p d)
    from Cons.IH [of "if snd kv < snd p then p else kv"] show ?case by (auto split: if_splits)
  qed
  then show "max_item kv d \<in> set (kv # d)" "\<forall>p \<in> set (kv # d). snd p \<le> snd (max_item kv d)" by blast+
qed

lemma count_item: "(k, n) \<in> set (count_values xs) \<Longrightarrow> n = int (count_list xs k)"
  using count_values_get [of xs k] count_values_keys(2) [of xs] by (simp add: dget_default_def)

text \<open>The count of the most frequent value decides.\<close>

lemma top_value_bound:
  assumes "xs \<noteq> []"
  shows "int (length xs) * 2 \<le> snd (top_value xs) * 3 \<longleftrightarrow> two_thirds xs"
    and "0 \<le> snd (top_value xs)" and "snd (top_value xs) \<le> int (length xs)"
proof -
  let ?d = "count_values xs"
  have "?d \<noteq> []" using assms count_values_keys(1) [of xs] by auto
  then have d: "hd ?d # tl ?d = ?d" by simp
  from max_item_best [of "hd ?d" "tl ?d"] have top: "top_value xs \<in> set ?d" "\<forall>p \<in> set ?d. snd p \<le> snd (top_value xs)"
    unfolding d top_value_def Let_def by simp_all
  obtain k where k: "top_value xs = (k, int (count_list xs k))" "k \<in> set xs"
    using top(1) count_item [of _ _ xs] count_values_keys(1) [of xs] by (metis image_eqI list.set_map prod.collapse)
  have "int (count_list xs x) \<le> snd (top_value xs)" if "x \<in> set xs" for x
  proof -
    from that count_values_keys(1) [of xs] obtain n where "(x, n) \<in> set ?d"
      by (metis (no_types, lifting) imageE list.set_map prod.collapse)
    with count_item top(2) show ?thesis by fastforce
  qed
  then have le: "int (count_list xs x) \<le> snd (top_value xs)" if "x \<in> set xs" for x using that by blast
  have nat: "2 * length xs \<le> 3 * count_list xs x \<longleftrightarrow> int (length xs) * 2 \<le> int (count_list xs x) * 3" for x by linarith
  have eq: "snd (top_value xs) = int (count_list xs k)" using k(1) by simp
  show "int (length xs) * 2 \<le> snd (top_value xs) * 3 \<longleftrightarrow> two_thirds xs"
  proof
    assume "int (length xs) * 2 \<le> snd (top_value xs) * 3"
    then show "two_thirds xs" unfolding two_thirds_def nat eq using k(2) by blast
  next
    assume "two_thirds xs"
    then obtain x where x: "x \<in> set xs" "int (length xs) * 2 \<le> int (count_list xs x) * 3" unfolding two_thirds_def nat by blast
    with le [OF x(1)] show "int (length xs) * 2 \<le> snd (top_value xs) * 3" by linarith
  qed
  show "0 \<le> snd (top_value xs)" "snd (top_value xs) \<le> int (length xs)"
    using k count_le_length [of xs k] by simp_all
qed

text \<open>Some prefix of at least three votes agrees.\<close>

definition decided :: "poy_vote list \<Rightarrow> bool" where
  "decided vs \<longleftrightarrow> (\<exists>n. 3 \<le> n \<and> n \<le> length vs \<and> agree (take n vs))"

lemma decided_snoc: "decided (vs @ [v]) \<longleftrightarrow> decided vs \<or> 2 \<le> length vs \<and> agree (vs @ [v])"
proof
  assume "decided (vs @ [v])"
  then obtain n where n: "3 \<le> n" "n \<le> length (vs @ [v])" "agree (take n (vs @ [v]))" by (auto simp: decided_def)
  show "decided vs \<or> 2 \<le> length vs \<and> agree (vs @ [v])"
  proof (cases "n \<le> length vs")
    case True
    with n show ?thesis by (auto simp: decided_def)
  next
    case False
    with n have "n = length (vs @ [v])" by simp
    with n show ?thesis by simp
  qed
next
  assume "decided vs \<or> 2 \<le> length vs \<and> agree (vs @ [v])"
  then show "decided (vs @ [v])"
  proof
    assume "decided vs"
    then obtain n where "3 \<le> n" "n \<le> length vs" "agree (take n vs)" by (auto simp: decided_def)
    then show ?thesis unfolding decided_def by (intro exI [of _ n]) simp
  next
    assume "2 \<le> length vs \<and> agree (vs @ [v])"
    then show ?thesis unfolding decided_def by (intro exI [of _ "Suc (length vs)"]) simp
  qed
qed

text \<open>The state after the votes \<open>vs\<close>: every round has its votes in order and is finalized as soon as they decide it.\<close>

definition poy_inv :: "poy_vote list \<Rightarrow> poy \<Rightarrow> bool" where
  "poy_inv vs s \<longleftrightarrow>
     (\<forall>sroot. po_votes (get_round sroot s) = filter (\<lambda>v. pv_state_root v = sroot) vs \<and>
        (po_finalized (get_round sroot s) \<longleftrightarrow> decided (filter (\<lambda>v. pv_state_root v = sroot) vs))) \<and>
     distinct (map fn_state_root (poy_vote_history s)) \<and>
     fn_state_root ` set (poy_vote_history s) = {sroot. po_finalized (get_round sroot s)}"

lemma poy_inv_init: "poy_inv [] (poy_init agent key env_key)"
  by (simp add: poy_inv_def poy_init_def get_round_def dget_default_def new_round_def decided_def)

lemma check_cases:
  assumes "dget (poy_rounds s) sroot = Some r" and "po_votes r \<noteq> []"
  shows "\<exists>s' rt'. check_consensus sroot s rt = (Inr s', rt') \<and>
    (if po_finalized r \<or> length (po_votes r) < 3 \<or> \<not> agree (po_votes r) then s' = s \<and> rt' = rt
     else \<exists>h. fn_state_root h = sroot \<and> rt' = rt_tick rt \<and>
       s' = s\<lparr>poy_rounds := dset sroot (r\<lparr>po_finalized := True, po_finality_time := rt_now rt\<rparr>) (poy_rounds s),
              poy_vote_history := poy_vote_history s @ [h]\<rparr>)"
proof -
  let ?i = "map pv_inference_hash (po_votes r)" and ?y = "map pv_yield_hash (po_votes r)" and ?n = "int (length (po_votes r))"
  have ne: "?i \<noteq> []" "?y \<noteq> []" using assms by simp_all
  have ag: "?n * 2 \<le> snd (top_value ?i) * 3 \<and> ?n * 2 \<le> snd (top_value ?y) * 3 \<longleftrightarrow> agree (po_votes r)"
    using top_value_bound(1) [OF ne(1)] top_value_bound(1) [OF ne(2)] by (simp add: agree_def)
  obtain a where a: "truediv (snd (top_value ?i)) ?n = Inr a"
    using truediv_ratio [of "snd (top_value ?i)" ?n] top_value_bound(2,3) [OF ne(1)] assms by auto
  obtain b where b: "truediv (snd (top_value ?y)) ?n = Inr b"
    using truediv_ratio [of "snd (top_value ?y)" ?n] top_value_bound(2,3) [OF ne(2)] assms by auto
  show ?thesis
    using assms a b ag by (auto simp: check_consensus_def Let_def case_prod_beta time_time_def)
      (intro exI conjI [rotated], rule refl, simp)
qed

lemma get_round_dset: "get_round k (s\<lparr>poy_rounds := dset sroot r (poy_rounds s)\<rparr>) = (if k = sroot then r else get_round k s)"
  by (simp add: get_round_def)

lemma poy_inv_change:
  assumes inv: "poy_inv vs s" and g: "\<And>k. get_round k s' = (if k = pv_state_root v then r else get_round k s)"
    and votes: "po_votes r = filter (\<lambda>w. pv_state_root w = pv_state_root v) (vs @ [v])"
    and fin: "po_finalized r \<longleftrightarrow> decided (po_votes r)" and mono: "po_finalized (get_round (pv_state_root v) s) \<Longrightarrow> po_finalized r"
    and hist: "poy_vote_history s' = poy_vote_history s @ hs"
    and hs: "map fn_state_root hs = (if po_finalized r \<and> \<not> po_finalized (get_round (pv_state_root v) s) then [pv_state_root v] else [])"
  shows "poy_inv (vs @ [v]) s'"
proof -
  have rounds: "po_votes (get_round k s') = filter (\<lambda>w. pv_state_root w = k) (vs @ [v]) \<and>
      (po_finalized (get_round k s') \<longleftrightarrow> decided (filter (\<lambda>w. pv_state_root w = k) (vs @ [v])))" for k
    using inv votes fin unfolding poy_inv_def g by auto
  have dist: "distinct (map fn_state_root (poy_vote_history s))"
    and old: "fn_state_root ` set (poy_vote_history s) = {k. po_finalized (get_round k s)}"
    using inv unfolding poy_inv_def by blast+
  have new: "fn_state_root ` set hs = (if po_finalized r \<and> \<not> po_finalized (get_round (pv_state_root v) s) then {pv_state_root v} else {})"
    unfolding set_map [symmetric] hs by simp
  have "distinct (map fn_state_root (poy_vote_history s'))"
    unfolding hist using dist old new hs by (auto simp: distinct_map_filter split: if_splits)
  moreover have "fn_state_root ` set (poy_vote_history s') = {k. po_finalized (get_round k s')}"
    unfolding hist set_append image_Un old new g using mono by auto
  ultimately show ?thesis using rounds unfolding poy_inv_def by blast
qed

lemma add_vote_inv:
  assumes "poy_inv vs s"
  shows "\<exists>s' rt'. add_external_vote v s rt = (Inr s', rt') \<and> poy_inv (vs @ [v]) s' \<and> clock rt' = clock rt \<and> clock_pos rt \<le> clock_pos rt'"
proof -
  let ?root = "pv_state_root v" and ?of = "\<lambda>k. filter (\<lambda>v. pv_state_root v = k)"
  define r0 where "r0 = (case dget (poy_rounds s) ?root of Some r \<Rightarrow> r | None \<Rightarrow> new_round (''poy-'' @ take 16 ?root) ?root)"
  define r where "r = r0\<lparr>po_votes := po_votes r0 @ [v]\<rparr>"
  define s1 where "s1 = s\<lparr>poy_rounds := dset ?root r (poy_rounds s)\<rparr>"
  have at: "po_votes (get_round ?root s) = ?of ?root vs" "po_finalized (get_round ?root s) \<longleftrightarrow> decided (?of ?root vs)"
    using assms unfolding poy_inv_def by blast+
  have r0: "po_votes r0 = ?of ?root vs" "po_finalized r0 \<longleftrightarrow> decided (?of ?root vs)" "po_finalized r0 \<longleftrightarrow> po_finalized (get_round ?root s)"
    using at by (auto simp: r0_def get_round_def dget_default_def new_round_def split: option.splits)
  have s1: "dget (poy_rounds s1) ?root = Some r" "po_votes r \<noteq> []" by (simp_all add: s1_def r_def)
  from check_cases [OF s1, of rt] obtain s' rt' where c: "check_consensus ?root s1 rt = (Inr s', rt')"
    "if po_finalized r \<or> length (po_votes r) < 3 \<or> \<not> agree (po_votes r) then s' = s1 \<and> rt' = rt
     else \<exists>h. fn_state_root h = ?root \<and> rt' = rt_tick rt \<and>
       s' = s1\<lparr>poy_rounds := dset ?root (r\<lparr>po_finalized := True, po_finality_time := rt_now rt\<rparr>) (poy_rounds s1),
              poy_vote_history := poy_vote_history s1 @ [h]\<rparr>" by blast
  have add: "add_external_vote v s rt = (Inr s', rt')"
    using c(1) by (simp add: add_external_vote_def Let_def s1_def r_def r0_def)
  have rs: "get_round k s1 = (if k = ?root then r else get_round k s)" for k unfolding s1_def by (rule get_round_dset)
  have votes: "po_votes r = ?of ?root (vs @ [v])" "po_finalized r = po_finalized r0" using r0 by (simp_all add: r_def)
  have len: "length (po_votes r) < 3 \<longleftrightarrow> length (?of ?root vs) < 2" using votes by auto
  have dec: "decided (?of ?root (vs @ [v])) \<longleftrightarrow> po_finalized r \<or> \<not> length (po_votes r) < 3 \<and> agree (po_votes r)"
    using r0 votes len by (auto simp: decided_snoc)
  have "poy_inv (vs @ [v]) s' \<and> clock rt' = clock rt \<and> clock_pos rt \<le> clock_pos rt'"
  proof (cases "po_finalized r \<or> length (po_votes r) < 3 \<or> \<not> agree (po_votes r)")
    case True
    with c(2) have "s' = s1" "rt' = rt" by simp_all
    moreover have "poy_inv (vs @ [v]) s1"
      by (rule poy_inv_change [OF assms rs votes(1), of "[]"]) (use dec True votes r0 in \<open>auto simp: s1_def\<close>)
    ultimately show ?thesis by simp
  next
    case False
    with c(2) obtain h where h: "fn_state_root h = ?root" "rt' = rt_tick rt"
      "s' = s1\<lparr>poy_rounds := dset ?root (r\<lparr>po_finalized := True, po_finality_time := rt_now rt\<rparr>) (poy_rounds s1),
              poy_vote_history := poy_vote_history s1 @ [h]\<rparr>" by auto
    let ?r = "r\<lparr>po_finalized := True, po_finality_time := rt_now rt\<rparr>"
    have g: "get_round k s' = (if k = ?root then ?r else get_round k s)" for k
      using rs [of k] unfolding h(3) get_round_def by simp
    have "poy_inv (vs @ [v]) s'"
      by (rule poy_inv_change [OF assms g, of "[h]"]) (use dec False votes r0 h(1) in \<open>auto simp: s1_def h(3)\<close>)
    then show ?thesis using h(2) by simp
  qed
  with add show ?thesis by blast
qed

lemma add_votes_inv:
  assumes "poy_inv us s"
  shows "\<exists>s' rt'. add_votes vs s rt = (Inr s', rt') \<and> poy_inv (us @ vs) s' \<and> clock rt' = clock rt \<and> clock_pos rt \<le> clock_pos rt'"
  using assms
proof (induction vs arbitrary: us s rt)
  case Nil
  then show ?case by simp
next
  case (Cons v vs)
  from add_vote_inv [OF Cons.prems, of v rt] obtain s1 rt1 where
    1: "add_external_vote v s rt = (Inr s1, rt1)" "poy_inv (us @ [v]) s1" "clock rt1 = clock rt" "clock_pos rt \<le> clock_pos rt1" by blast
  from Cons.IH [OF 1(2), of rt1] 1 show ?case by auto
qed

text \<open>
  C21. A batch is finalized exactly when its votes decide it: after any sequence of votes a round holds the
  votes for its state root in order, it is finalized exactly when some prefix of at least three of
  them has two thirds with one inference hash and two thirds with one yield hash, adding votes never
  raises, and the history has one entry for every finalized batch.
\<close>

theorem batch_finalized_exactly:
  "\<exists>s rt'. add_votes vs (poy_init agent key env_key) rt = (Inr s, rt') \<and>
     po_votes (get_round sroot s) = filter (\<lambda>v. pv_state_root v = sroot) vs \<and>
     (po_finalized (get_round sroot s) \<longleftrightarrow> (\<exists>n. 3 \<le> n \<and> n \<le> length (filter (\<lambda>v. pv_state_root v = sroot) vs) \<and>
        agree (take n (filter (\<lambda>v. pv_state_root v = sroot) vs)))) \<and>
     count_list (map fn_state_root (poy_vote_history s)) sroot = of_bool (po_finalized (get_round sroot s))"
proof -
  from add_votes_inv [OF poy_inv_init, of vs agent key env_key rt] obtain s rt' where
    s: "add_votes vs (poy_init agent key env_key) rt = (Inr s, rt')" "poy_inv vs s" by auto
  have "count_list xs x = of_bool (x \<in> set xs)" if "distinct xs" for xs and x :: string
    using that by (induction xs) auto
  from this [of "map fn_state_root (poy_vote_history s)" sroot] s(2) have
    "count_list (map fn_state_root (poy_vote_history s)) sroot = of_bool (po_finalized (get_round sroot s))"
    by (auto simp: poy_inv_def)
  with s show ?thesis by (auto simp: poy_inv_def decided_def)
qed

text \<open>
  Two agreements overlap: a value that two thirds of the votes carry is the only one, so a finalized
  batch has one agreed inference and one agreed yield.
\<close>

lemma two_thirds_unique:
  assumes "2 * length xs \<le> 3 * count_list xs x" and "2 * length xs \<le> 3 * count_list xs y" and "xs \<noteq> []"
  shows "x = y"
proof (rule ccontr)
  assume "x \<noteq> y"
  then have "count_list xs x + count_list xs y \<le> length xs" by (induction xs) auto
  with assms show False by (cases xs) auto
qed

text \<open>One agent alone finalizes a batch by voting three times.\<close>

lemma one_agent_finalizes:
  "\<exists>s rt'. add_votes (replicate 3 v) (poy_init agent key env_key) rt = (Inr s, rt') \<and> po_finalized (get_round (pv_state_root v) s)"
proof -
  have "agree (replicate 3 v)" by (simp add: agree_def two_thirds_def eval_nat_numeral)
  then have d: "decided (replicate 3 v)" unfolding decided_def by (intro exI [of _ 3]) simp
  have f: "filter (\<lambda>w. pv_state_root w = pv_state_root v) (replicate 3 v) = replicate 3 v" by simp
  from add_votes_inv [OF poy_inv_init, of "replicate 3 v" agent key env_key rt] obtain s rt' where
    s: "add_votes (replicate 3 v) (poy_init agent key env_key) rt = (Inr s, rt')" "poy_inv (replicate 3 v) s" by auto
  from s(2) d f have "po_finalized (get_round (pv_state_root v) s)" unfolding poy_inv_def by metis
  with s(1) show ?thesis by blast
qed

section \<open>Waiting ends\<close>

lemma wait_loop_returns:
  assumes "poy_inv us s" and "\<forall>i \<ge> N. \<not> flt (fsub (clock rt i) start) (Fin 10)" and "N \<le> clock_pos rt + length arrivals"
  shows "\<exists>r s' rt'. wait_loop arrivals sroot start s rt = Some (Inr r, s', rt') \<and> r = get_round sroot s'"
  using assms
proof (induction arrivals arbitrary: us s rt)
  case Nil
  then show ?case by (simp add: wait_loop.simps time_time_def)
next
  case (Cons vs rest)
  show ?case
  proof (cases "\<not> flt (fsub (rt_now rt) start) (Fin 10) \<or> po_finalized (get_round sroot s)")
    case True
    then show ?thesis by (subst wait_loop.simps) (auto simp: time_time_def)
  next
    case False
    from add_votes_inv [OF Cons.prems(1), of vs "rt_tick rt"] obtain s1 rt1 where
      1: "add_votes vs s (rt_tick rt) = (Inr s1, rt1)" "poy_inv (us @ vs) s1" "clock rt1 = clock rt" "Suc (clock_pos rt) \<le> clock_pos rt1" by auto
    have "\<exists>r s' rt'. wait_loop rest sroot start s1 rt1 = Some (Inr r, s', rt') \<and> r = get_round sroot s'"
      using Cons.prems 1 by (intro Cons.IH [of "us @ vs"]) simp_all
    then show ?thesis using False 1 by (subst wait_loop.simps) (simp add: time_time_def)
  qed
qed

lemma call_llm_total: "\<exists>t. call_llm orc s prompt = Inr t"
proof -
  have "\<exists>q. truediv (or_hash orc prompt mod 1000) 1000 = Inr q" by (rule truediv_ratio) simp_all
  then show ?thesis by (auto simp: call_llm_def)
qed

lemma own_vote:
  assumes "list_all (\<lambda>op. op_file op \<noteq> Inl TypeError) batch"
  shows "\<exists>v. cast_poy_vote orc sroot batch total_yield s rt = (Inr v, rt_tick rt) \<and> pv_state_root v = sroot"
proof -
  have ofile: "op_file op = Inl TypeError \<or> (\<exists>f. op_file op = Inr f)" for op
    by (auto simp: op_file_def split: json.split)
  have "\<exists>f. op_file op = Inr f" if "op \<in> set (take 5 batch)" for op
    using assms in_set_takeD [OF that] ofile [of op] by (auto simp: list_all_iff)
  then obtain g where "\<forall>op \<in> set (take 5 batch). op_file op = Inr (g op)" by metis
  then have files: "rmap op_file (take 5 batch) = Inr (map g (take 5 batch))" by simp
  obtain t where "call_llm orc s (CONSENSUS_PROMPT sroot (ffixed 6 total_yield) (dec_int (int (length batch)))
      (take 200 (join '', '' (map g (take 5 batch))))) = Inr t" using call_llm_total by blast
  then show ?thesis by (simp add: cast_poy_vote_def files time_time_def Let_def)
qed

lemma wait_loop_result:
  assumes "poy_inv us s" and "wait_loop arrivals sroot start s rt = Some (q, s', rt')"
  shows "q = Inr (get_round sroot s') \<and> (\<exists>vs. poy_inv (us @ vs) s') \<and> clock rt' = clock rt"
  using assms
proof (induction arrivals arbitrary: us s rt)
  case Nil
  then show ?case by (auto simp: wait_loop.simps time_time_def split: if_splits intro: exI [of _ "[]"])
next
  case (Cons vs rest)
  show ?case
  proof (cases "\<not> flt (fsub (rt_now rt) start) (Fin 10) \<or> po_finalized (get_round sroot s)")
    case True
    with Cons.prems(2) have "q = Inr (get_round sroot s) \<and> s' = s \<and> rt' = rt_tick rt"
      by (subst (asm) wait_loop.simps) (auto simp: time_time_def)
    with Cons.prems(1) show ?thesis by (auto intro: exI [of _ "[]"])
  next
    case False
    from add_votes_inv [OF Cons.prems(1), of vs "rt_tick rt"] obtain s1 rt1 where
      1: "add_votes vs s (rt_tick rt) = (Inr s1, rt1)" "poy_inv (us @ vs) s1" "clock rt1 = clock rt" by auto
    have "wait_loop rest sroot start s1 rt1 = Some (q, s', rt')"
      using Cons.prems(2) False 1 by (subst (asm) wait_loop.simps) (simp add: time_time_def)
    from Cons.IH [OF 1(2) this] 1(3) show ?thesis by auto
  qed
qed

lemma round_result:
  assumes "poy_inv us s" and "list_all (\<lambda>op. op_file op \<noteq> Inl TypeError) batch"
    and "run_poy_round orc arrivals sroot batch total_yield s rt = Some (q, s', rt')"
  shows "q = Inr (get_round sroot s') \<and> (\<exists>v vs. pv_state_root v = sroot \<and> poy_inv (us @ v # vs) s') \<and> clock rt' = clock rt"
proof -
  obtain v where v: "cast_poy_vote orc sroot batch total_yield s rt = (Inr v, rt_tick rt)" "pv_state_root v = sroot"
    using own_vote [OF assms(2)] by blast
  from add_vote_inv [OF assms(1), of v "rt_tick rt"] obtain s1 rt1 where
    1: "add_external_vote v s (rt_tick rt) = (Inr s1, rt1)" "poy_inv (us @ [v]) s1" "clock rt1 = clock rt" by auto
  have "wait_loop arrivals sroot (rt_now rt1) s1 (rt_tick rt1) = Some (q, s', rt')"
    using assms(3) v(1) 1(1) by (simp add: run_poy_round_def time_time_def)
  from wait_loop_result [OF 1(2) this] v(2) 1(3) show ?thesis by auto
qed

lemma round_returns:
  assumes "poy_inv us s" and "\<forall>j. \<exists>N. \<forall>i \<ge> N. \<not> flt (fsub (clock rt i) (clock rt j)) (Fin 10)"
    and "list_all (\<lambda>op. op_file op \<noteq> Inl TypeError) batch"
  shows "\<exists>N. \<forall>arrivals. N \<le> length arrivals \<longrightarrow> (\<exists>s' rt'.
    run_poy_round orc arrivals sroot batch total_yield s rt = Some (Inr (get_round sroot s'), s', rt'))"
proof -
  obtain v where v: "cast_poy_vote orc sroot batch total_yield s rt = (Inr v, rt_tick rt)" using own_vote [OF assms(3)] by blast
  from add_vote_inv [OF assms(1), of v "rt_tick rt"] obtain s1 rt1 where
    1: "add_external_vote v s (rt_tick rt) = (Inr s1, rt1)" "poy_inv (us @ [v]) s1" "clock rt1 = clock rt" by auto
  obtain N where N: "\<forall>i \<ge> N. \<not> flt (fsub (clock rt i) (rt_now rt1)) (Fin 10)" using assms(2) 1(3) by metis
  show ?thesis
  proof (intro exI [of _ N] allI impI)
    fix arrivals :: "poy_vote list list" assume len: "N \<le> length arrivals"
    from wait_loop_returns [OF 1(2), of N "rt_tick rt1" "rt_now rt1" arrivals sroot] N len 1(3)
    obtain r s' rt' where "wait_loop arrivals sroot (rt_now rt1) s1 (rt_tick rt1) = Some (Inr r, s', rt')" "r = get_round sroot s'" by auto
    then show "\<exists>s' rt'. run_poy_round orc arrivals sroot batch total_yield s rt = Some (Inr (get_round sroot s'), s', rt')"
      using v 1(1) by (simp add: run_poy_round_def time_time_def)
  qed
qed

text \<open>
  C22. A round ends: on a clock that eventually is ten seconds past any reading, a round on a node that has
  taken any votes before returns after finitely many polls, whatever votes arrive in between, and
  what it returns is the stored round; names of files that are texts never make it raise.
\<close>

theorem poy_round_returns:
  assumes "add_votes us (poy_init agent key env_key) rt0 = (Inr s, rt)"
    and "\<forall>j. \<exists>N. \<forall>i \<ge> N. \<not> flt (fsub (clock rt i) (clock rt j)) (Fin 10)"
    and "list_all (\<lambda>op. op_file op \<noteq> Inl TypeError) batch"
  shows "\<exists>N. \<forall>arrivals. N \<le> length arrivals \<longrightarrow> (\<exists>s' rt'.
    run_poy_round orc arrivals sroot batch total_yield s rt = Some (Inr (get_round sroot s'), s', rt'))"
  using round_returns [OF _ assms(2,3)] add_votes_inv [OF poy_inv_init, of us agent key env_key rt0] assms(1) by auto

lemma sample_clock_passes: "\<forall>j. \<exists>N. \<forall>i \<ge> N. \<not> flt (fsub (clock sample_rt i) (clock sample_rt j)) (Fin 10)"
proof
  fix j :: nat
  have "\<not> flt (fsub (clock sample_rt i) (clock sample_rt j)) (Fin 10)" if "j + 10 \<le> i" for i
  proof -
    have "(of_nat (j + 10) :: rat) \<le> of_nat i" using that by (simp only: of_nat_le_iff)
    then have "(10 :: rat) \<le> of_nat i + - of_nat j" by simp
    then have "rnd 10 \<le> rnd (of_nat i + - of_nat j)" by (rule rnd_mono)
    moreover have "rnd 10 = 10" using rnd_rep [of 10 0] by simp
    ultimately show ?thesis by (auto simp: fsub_def mkf_def Let_def)
  qed
  then show "\<exists>N. \<forall>i \<ge> N. \<not> flt (fsub (clock sample_rt i) (clock sample_rt j)) (Fin 10)" by blast
qed

theorem poy_round_returns_witness:
  "\<exists>N. \<forall>arrivals. length arrivals < N \<or> (\<exists>s' rt'.
    run_poy_round \<lparr>or_remote = (\<lambda>p. None), or_hash = (\<lambda>p. 500)\<rparr> arrivals ''r'' [[(''file'', JStr ''a.py'')]] (Fin 1)
      (poy_init ''a'' [] []) sample_rt = Some (Inr (get_round ''r'' s'), s', rt'))"
proof -
  have "add_votes [] (poy_init ''a'' [] []) sample_rt = (Inr (poy_init ''a'' [] []), sample_rt)" by simp
  from poy_round_returns [OF this sample_clock_passes, of "[[(''file'', JStr ''a.py'')]]"
      "\<lparr>or_remote = (\<lambda>p. None), or_hash = (\<lambda>p. 500)\<rparr>" "''r''" "Fin 1"]
  show ?thesis by (auto simp: op_file_def dget_default_def) (meson not_le)
qed

text \<open>An answer that says INVALID is a confident vote.\<close>

lemma invalid_is_confident:
  assumes "or_remote orc = (\<lambda>p. Some ''INVALID|YIELD=0|REASON=fraud'')" and "poy_groq_key s \<noteq> []"
    and "cast_poy_vote orc sroot [] total_yield s rt = (Inr v, rt')"
  shows "pv_confidence v = mkf (95 / 100)"
proof -
  have "str_in ''VALID'' (concat (map upper_char (strip ''INVALID|YIELD=0|REASON=fraud'')))" by code_simp
  then show ?thesis using assms by (auto simp: cast_poy_vote_def call_llm_def Let_def time_time_def)
qed

end
