(* ===== verification/Membra_Node.thy ===== *)
theory Membra_Node
  imports Poy_Consensus
begin

text \<open>
  \<open>membra_sdk/core/yield_engine.py\<close> and \<open>core/node.py\<close>: the yield estimate of a file, and the node that mines files into
  its ledger, drains batches and votes on them. What the walk over the scanned directories finds is a
  parameter: for each directory the names of its files with their contents, \<open>None\<close> where reading one fails. The loops of the
  node run in one thread and switch only where they sleep; a pass of the mining loop and a turn of the
  consensus loop touch different fields while the latter waits, so each is one step here.
\<close>

section \<open>The yield engine\<close>

definition TYPE_RATES :: "pyfloat dict" where
  "TYPE_RATES = [(''.rs'', mkf (5 / 100)), (''.sol'', mkf (8 / 100)), (''.go'', mkf (4 / 100)), (''.py'', mkf (3 / 100)),
     (''.js'', mkf (2 / 100)), (''.ts'', mkf (25 / 1000)), (''.cpp'', mkf (4 / 100)), (''.c'', mkf (3 / 100)),
     (''.md'', mkf (1 / 100)), (''.json'', mkf (5 / 1000)), (''.yaml'', mkf (5 / 1000)), (''.toml'', mkf (1 / 100))]"

text \<open>The second component of \<open>os.path.splitext\<close>: leading dots of the file name do not start an extension.\<close>

definition splitext_ext :: "string \<Rightarrow> string" where
  "splitext_ext p = (let base = rev (takeWhile (\<lambda>c. c \<noteq> CHR ''/'') (rev p));
       ext = rev (takeWhile (\<lambda>c. c \<noteq> CHR ''.'') (rev base))
     in if CHR ''.'' \<in> set base \<and> list_ex (\<lambda>c. c \<noteq> CHR ''.'') (take (length base - length ext - 1) base)
        then CHR ''.'' # ext else [])"

text \<open>\<open>s.count(p)\<close>: occurrences that do not overlap; the first argument counts the characters still to skip.\<close>

fun count_from :: "nat \<Rightarrow> string \<Rightarrow> string \<Rightarrow> nat" where
  "count_from k p [] = 0"
| "count_from (Suc k) p (c # s) = count_from k p s"
| "count_from 0 p (c # s) = (if starts_with p (c # s) then Suc (count_from (length p - 1) p s) else count_from 0 p s)"

definition str_count :: "string \<Rightarrow> string \<Rightarrow> int" where
  "str_count s p = int (count_from 0 p s)"

definition base_rate :: "string \<Rightarrow> pyfloat" where
  "base_rate filepath = dget_default TYPE_RATES (lower (splitext_ext filepath)) (mkf (1 / 1000))"

definition estimate_yield :: "string \<Rightarrow> string \<Rightarrow> pyfloat result" where
  "estimate_yield filepath content =
     (let rate = base_rate filepath;
          lines = str_count content [CHR 0x0A] + 1;
          functions = str_count content ''def '' + str_count content ''fn '' + str_count content ''function '';
          comments = str_count content ''//'' + str_count content ''# '' + str_count content ''/*''
      in rbind (fdiv (Fin 1) (fmul rate (Fin 100))) (\<lambda>q. let scarcity = fmin q (Fin 10) in
         rbind (of_pyint lines) (\<lambda>ln. rbind (of_pyint functions) (\<lambda>fn.
         let compute_cost = fadd (fmul ln (mkf (1 / 1000))) (fmul fn (mkf (1 / 100))) in
         rbind (truediv comments (max lines 1)) (\<lambda>ratio.
         let doc_bonus = fadd (Fin 1) (fmul ratio (mkf (1 / 2)));
             yield_est = fmul (fmul (fmul rate scarcity) compute_cost) doc_bonus
         in Inr (fround (fmin yield_est (Fin 10)) 6))))))"

definition batch_yield :: "json dict list \<Rightarrow> json result" where
  "batch_yield operations = num_sum (JInt 0) (map (\<lambda>op. dget_default op ''yield_estimate'' (JInt 0)) operations)"

section \<open>The node\<close>

record membra_node =
  mn_node_id :: string
  mn_ledger :: "json dict ledger"
  mn_consensus :: poy
  mn_ops_processed :: int
  mn_batches_finalized :: int
  mn_yield_estimated :: pyfloat
  mn_files_scanned :: int

definition membra_node_init :: "string \<Rightarrow> string \<Rightarrow> membra_node" where
  "membra_node_init node_id env_key = \<lparr>mn_node_id = node_id, mn_ledger = ledger_init 100000, mn_consensus = poy_init node_id [] env_key,
     mn_ops_processed = 0, mn_batches_finalized = 0, mn_yield_estimated = Fin 0, mn_files_scanned = 0\<rparr>"

definition generate_node_id :: "string \<Rightarrow> int \<Rightarrow> int \<Rightarrow> string" where
  "generate_node_id nodename cpus memory = take 12 (sha256_hex (nodename @ ''-'' @ dec_int cpus @ ''-'' @ dec_int memory))"

definition SCANNED_TYPES :: "string list" where
  "SCANNED_TYPES = [''.rs'', ''.sol'', ''.go'', ''.py'', ''.js'', ''.ts'']"

text \<open>One file: an exception while it is read or estimated skips it.\<close>

definition mine_file :: "string \<Rightarrow> string \<times> string option \<Rightarrow> membra_node \<Rightarrow> runtime \<Rightarrow> membra_node \<times> runtime" where
  "mine_file dir f n rt = (case f of (fname, text) \<Rightarrow>
     if \<not> list_ex (ends_with fname) SCANNED_TYPES then (n, rt)
     else let fpath = path_join dir fname in
       case text of None \<Rightarrow> (n, rt)
       | Some t \<Rightarrow> let content = take 2000 t in
           (case estimate_yield fpath content of Inl x \<Rightarrow> (n, rt)
            | Inr yield_est \<Rightarrow> let (now, rt) = time_time rt;
                op = [(''type'', JStr ''file_yield''), (''file'', JStr fname), (''path'', JStr fpath), (''size'', JInt (int (length content))),
                  (''yield_estimate'', JFloat yield_est), (''timestamp'', JFloat now)]
              in (n\<lparr>mn_ledger := ledger_submit op (mn_ledger n), mn_ops_processed := mn_ops_processed n + 1,
                   mn_files_scanned := mn_files_scanned n + 1, mn_yield_estimated := fadd (mn_yield_estimated n) yield_est\<rparr>, rt)))"

fun mine_files :: "string \<Rightarrow> (string \<times> string option) list \<Rightarrow> membra_node \<Rightarrow> runtime \<Rightarrow> membra_node \<times> runtime" where
  "mine_files dir [] n rt = (n, rt)"
| "mine_files dir (f # fs) n rt = (let (n, rt) = mine_file dir f n rt in mine_files dir fs n rt)"

text \<open>One pass over all directories, at most ten files of each.\<close>

fun mining_pass :: "(string \<times> (string \<times> string option) list) list \<Rightarrow> membra_node \<Rightarrow> runtime \<Rightarrow> membra_node \<times> runtime" where
  "mining_pass [] n rt = (n, rt)"
| "mining_pass ((dir, files) # ds) n rt = (let (n, rt) = mine_files dir (take 10 files) n rt in mining_pass ds n rt)"

definition state_root :: "json dict list \<Rightarrow> string" where
  "state_root batch = sha256_hex (dumps_sorted (JList (map JObj batch)))"

text \<open>One turn of the consensus loop; an exception ends the turn after what it has done. \<open>None\<close>: the round still waits.\<close>

definition consensus_turn :: "llm_source \<Rightarrow> poy_vote list list \<Rightarrow> membra_node \<Rightarrow> runtime \<Rightarrow> (membra_node \<times> runtime) option" where
  "consensus_turn llm arrivals n rt =
     (let (batch, l) = drain_batch 100 (mn_ledger n); n = n\<lparr>mn_ledger := l\<rparr> in
      if length batch < 10 then Some (n, rt)
      else case rbind (batch_yield batch) num_float of Inl x \<Rightarrow> Some (n, rt)
        | Inr total_yield \<Rightarrow> (case run_poy_round llm arrivals (state_root batch) batch total_yield (mn_consensus n) rt of
            None \<Rightarrow> None
          | Some (Inl x, s, rt) \<Rightarrow> Some (n\<lparr>mn_consensus := s\<rparr>, rt)
          | Some (Inr r, s, rt) \<Rightarrow> Some (n\<lparr>mn_consensus := s,
               mn_batches_finalized := mn_batches_finalized n + (if po_finalized r then 1 else 0)\<rparr>, rt)))"

record node_status =
  nd_node_id :: string
  nd_ops_processed :: int
  nd_batches_finalized :: int
  nd_yield_estimated :: pyfloat
  nd_files_scanned :: int
  nd_ledger_pending :: int
  nd_consensus :: poy_stats

definition node_get_status :: "membra_node \<Rightarrow> node_status result" where
  "node_get_status n = rbind (poy_get_stats (mn_consensus n)) (\<lambda>c. Inr \<lparr>nd_node_id = mn_node_id n, nd_ops_processed = mn_ops_processed n,
     nd_batches_finalized = mn_batches_finalized n, nd_yield_estimated = mn_yield_estimated n, nd_files_scanned = mn_files_scanned n,
     nd_ledger_pending = int (length (lg_pending (mn_ledger n))), nd_consensus = c\<rparr>)"

section \<open>The rates\<close>

lemma rate_floats:
  "mkf (5 / 100) = Fin (7205759403792794 * pow2 (- 57))"
  "mkf (8 / 100) = Fin (5764607523034235 * pow2 (- 56))"
  "mkf (4 / 100) = Fin (5764607523034235 * pow2 (- 57))"
  "mkf (3 / 100) = Fin (8646911284551352 * pow2 (- 58))"
  "mkf (2 / 100) = Fin (5764607523034235 * pow2 (- 58))"
  "mkf (25 / 1000) = Fin (7205759403792794 * pow2 (- 58))"
  "mkf (1 / 100) = Fin (5764607523034235 * pow2 (- 59))"
  "mkf (5 / 1000) = Fin (5764607523034235 * pow2 (- 60))"
  "mkf (1 / 1000) = Fin (4611686018427388 * pow2 (- 62))"
  using mkf_eqI [of "- 57" "5 / 100" 7205759403792794]
    mkf_eqI [of "- 56" "8 / 100" 5764607523034235]
    mkf_eqI [of "- 57" "4 / 100" 5764607523034235]
    mkf_eqI [of "- 58" "3 / 100" 8646911284551352]
    mkf_eqI [of "- 58" "2 / 100" 5764607523034235]
    mkf_eqI [of "- 58" "25 / 1000" 7205759403792794]
    mkf_eqI [of "- 59" "1 / 100" 5764607523034235]
    mkf_eqI [of "- 60" "5 / 1000" 5764607523034235]
    mkf_eqI [of "- 62" "1 / 1000" 4611686018427388]
  by (simp_all add: pow2_def f_overflow_def)

lemma rate_hundredfold:
  "mkf ((7205759403792794 * pow2 (- 57)) * 100) = Fin (5629499534213120 * pow2 (- 50))"
  "mkf ((5764607523034235 * pow2 (- 56)) * 100) = Fin (4503599627370496 * pow2 (- 49))"
  "mkf ((5764607523034235 * pow2 (- 57)) * 100) = Fin (4503599627370496 * pow2 (- 50))"
  "mkf ((8646911284551352 * pow2 (- 58)) * 100) = Fin (6755399441055744 * pow2 (- 51))"
  "mkf ((5764607523034235 * pow2 (- 58)) * 100) = Fin (4503599627370496 * pow2 (- 51))"
  "mkf ((7205759403792794 * pow2 (- 58)) * 100) = Fin (5629499534213120 * pow2 (- 51))"
  "mkf ((5764607523034235 * pow2 (- 59)) * 100) = Fin (4503599627370496 * pow2 (- 52))"
  "mkf ((5764607523034235 * pow2 (- 60)) * 100) = Fin (4503599627370496 * pow2 (- 53))"
  "mkf ((4611686018427388 * pow2 (- 62)) * 100) = Fin (7205759403792794 * pow2 (- 56))"
  using mkf_eqI [of "- 50" "(7205759403792794 * pow2 (- 57)) * 100" 5629499534213120]
    mkf_eqI [of "- 49" "(5764607523034235 * pow2 (- 56)) * 100" 4503599627370496]
    mkf_eqI [of "- 50" "(5764607523034235 * pow2 (- 57)) * 100" 4503599627370496]
    mkf_eqI [of "- 51" "(8646911284551352 * pow2 (- 58)) * 100" 6755399441055744]
    mkf_eqI [of "- 51" "(5764607523034235 * pow2 (- 58)) * 100" 4503599627370496]
    mkf_eqI [of "- 51" "(7205759403792794 * pow2 (- 58)) * 100" 5629499534213120]
    mkf_eqI [of "- 52" "(5764607523034235 * pow2 (- 59)) * 100" 4503599627370496]
    mkf_eqI [of "- 53" "(5764607523034235 * pow2 (- 60)) * 100" 4503599627370496]
    mkf_eqI [of "- 56" "(4611686018427388 * pow2 (- 62)) * 100" 7205759403792794]
  by (simp_all add: pow2_def f_overflow_def)

lemma rate_scarcity:
  "mkf (1 / (5629499534213120 * pow2 (- 50))) = Fin (7205759403792794 * pow2 (- 55))"
  "mkf (1 / (4503599627370496 * pow2 (- 49))) = Fin (4503599627370496 * pow2 (- 55))"
  "mkf (1 / (4503599627370496 * pow2 (- 50))) = Fin (4503599627370496 * pow2 (- 54))"
  "mkf (1 / (6755399441055744 * pow2 (- 51))) = Fin (6004799503160661 * pow2 (- 54))"
  "mkf (1 / (4503599627370496 * pow2 (- 51))) = Fin (4503599627370496 * pow2 (- 53))"
  "mkf (1 / (5629499534213120 * pow2 (- 51))) = Fin (7205759403792794 * pow2 (- 54))"
  "mkf (1 / (4503599627370496 * pow2 (- 52))) = Fin (4503599627370496 * pow2 (- 52))"
  "mkf (1 / (4503599627370496 * pow2 (- 53))) = Fin (4503599627370496 * pow2 (- 51))"
  "mkf (1 / (7205759403792794 * pow2 (- 56))) = Fin (5629499534213120 * pow2 (- 49))"
  using mkf_eqI [of "- 55" "1 / (5629499534213120 * pow2 (- 50))" 7205759403792794]
    mkf_eqI [of "- 55" "1 / (4503599627370496 * pow2 (- 49))" 4503599627370496]
    mkf_eqI [of "- 54" "1 / (4503599627370496 * pow2 (- 50))" 4503599627370496]
    mkf_eqI [of "- 54" "1 / (6755399441055744 * pow2 (- 51))" 6004799503160661]
    mkf_eqI [of "- 53" "1 / (4503599627370496 * pow2 (- 51))" 4503599627370496]
    mkf_eqI [of "- 54" "1 / (5629499534213120 * pow2 (- 51))" 7205759403792794]
    mkf_eqI [of "- 52" "1 / (4503599627370496 * pow2 (- 52))" 4503599627370496]
    mkf_eqI [of "- 51" "1 / (4503599627370496 * pow2 (- 53))" 4503599627370496]
    mkf_eqI [of "- 49" "1 / (7205759403792794 * pow2 (- 56))" 5629499534213120]
  by (simp_all add: pow2_def f_overflow_def)

lemma rate_value:
  "mkf ((7205759403792794 * pow2 (- 57)) * (7205759403792794 * pow2 (- 55))) = Fin (5764607523034236 * pow2 (- 59))"
  "mkf ((5764607523034235 * pow2 (- 56)) * (4503599627370496 * pow2 (- 55))) = Fin (5764607523034235 * pow2 (- 59))"
  "mkf ((5764607523034235 * pow2 (- 57)) * (4503599627370496 * pow2 (- 54))) = Fin (5764607523034235 * pow2 (- 59))"
  "mkf ((8646911284551352 * pow2 (- 58)) * (6004799503160661 * pow2 (- 54))) = Fin (5764607523034234 * pow2 (- 59))"
  "mkf ((5764607523034235 * pow2 (- 58)) * (4503599627370496 * pow2 (- 53))) = Fin (5764607523034235 * pow2 (- 59))"
  "mkf ((7205759403792794 * pow2 (- 58)) * (7205759403792794 * pow2 (- 54))) = Fin (5764607523034236 * pow2 (- 59))"
  "mkf ((5764607523034235 * pow2 (- 59)) * (4503599627370496 * pow2 (- 52))) = Fin (5764607523034235 * pow2 (- 59))"
  "mkf ((5764607523034235 * pow2 (- 60)) * (4503599627370496 * pow2 (- 51))) = Fin (5764607523034235 * pow2 (- 59))"
  "mkf ((4611686018427388 * pow2 (- 62)) * (5629499534213120 * pow2 (- 49))) = Fin (5764607523034235 * pow2 (- 59))"
  using mkf_eqI [of "- 59" "(7205759403792794 * pow2 (- 57)) * (7205759403792794 * pow2 (- 55))" 5764607523034236]
    mkf_eqI [of "- 59" "(5764607523034235 * pow2 (- 56)) * (4503599627370496 * pow2 (- 55))" 5764607523034235]
    mkf_eqI [of "- 59" "(5764607523034235 * pow2 (- 57)) * (4503599627370496 * pow2 (- 54))" 5764607523034235]
    mkf_eqI [of "- 59" "(8646911284551352 * pow2 (- 58)) * (6004799503160661 * pow2 (- 54))" 5764607523034234]
    mkf_eqI [of "- 59" "(5764607523034235 * pow2 (- 58)) * (4503599627370496 * pow2 (- 53))" 5764607523034235]
    mkf_eqI [of "- 59" "(7205759403792794 * pow2 (- 58)) * (7205759403792794 * pow2 (- 54))" 5764607523034236]
    mkf_eqI [of "- 59" "(5764607523034235 * pow2 (- 59)) * (4503599627370496 * pow2 (- 52))" 5764607523034235]
    mkf_eqI [of "- 59" "(5764607523034235 * pow2 (- 60)) * (4503599627370496 * pow2 (- 51))" 5764607523034235]
    mkf_eqI [of "- 59" "(4611686018427388 * pow2 (- 62)) * (5629499534213120 * pow2 (- 49))" 5764607523034235]
  by (simp_all add: pow2_def f_overflow_def)

text \<open>
  The scarcity undoes the rate: their product is one hundredth up to the last place for every
  type of file.
\<close>

definition rate_factor :: "pyfloat \<Rightarrow> pyfloat result" where
  "rate_factor rate = rbind (fdiv (Fin 1) (fmul rate (Fin 100))) (\<lambda>q. Inr (fmul rate (fmin q (Fin 10))))"

lemma base_rate_cases:
  "base_rate p \<in> {mkf (5 / 100), mkf (8 / 100), mkf (4 / 100), mkf (3 / 100), mkf (2 / 100), mkf (25 / 1000), mkf (1 / 100),
     mkf (5 / 1000), mkf (1 / 1000)}"
proof -
  have "base_rate p = mkf (1 / 1000) \<or> base_rate p \<in> set (dvalues TYPE_RATES)"
    unfolding base_rate_def dget_default_def using dget_value [of TYPE_RATES] by (simp split: option.split)
  then show ?thesis unfolding TYPE_RATES_def by (simp only: list.map prod.case snd_conv list.set insert_iff empty_iff) blast
qed

lemma rate_factorI:
  assumes "mkf x = Fin r" "mkf (r * 100) = Fin p" "p \<noteq> 0" "mkf (1 / p) = Fin q" "\<not> 10 < q" "mkf (r * q) = Fin f" "\<bar>f - 1 / 100\<bar> \<le> 2 * pow2 (- 59)"
  shows "\<exists>f. rate_factor (mkf x) = Inr (Fin f) \<and> \<bar>f - 1 / 100\<bar> \<le> 2 * pow2 (- 59)"
  using assms by (simp add: rate_factor_def fmin_def)

lemma rate_factor_near: "\<exists>f. rate_factor (base_rate p) = Inr (Fin f) \<and> \<bar>f - 1 / 100\<bar> \<le> 2 * pow2 (- 59)"
proof -
  note r1 = rate_factorI [OF rate_floats(1) rate_hundredfold(1) _ rate_scarcity(1) _ rate_value(1)]
  note r2 = rate_factorI [OF rate_floats(2) rate_hundredfold(2) _ rate_scarcity(2) _ rate_value(2)]
  note r3 = rate_factorI [OF rate_floats(3) rate_hundredfold(3) _ rate_scarcity(3) _ rate_value(3)]
  note r4 = rate_factorI [OF rate_floats(4) rate_hundredfold(4) _ rate_scarcity(4) _ rate_value(4)]
  note r5 = rate_factorI [OF rate_floats(5) rate_hundredfold(5) _ rate_scarcity(5) _ rate_value(5)]
  note r6 = rate_factorI [OF rate_floats(6) rate_hundredfold(6) _ rate_scarcity(6) _ rate_value(6)]
  note r7 = rate_factorI [OF rate_floats(7) rate_hundredfold(7) _ rate_scarcity(7) _ rate_value(7)]
  note r8 = rate_factorI [OF rate_floats(8) rate_hundredfold(8) _ rate_scarcity(8) _ rate_value(8)]
  note r9 = rate_factorI [OF rate_floats(9) rate_hundredfold(9) _ rate_scarcity(9) _ rate_value(9)]
  show ?thesis using base_rate_cases [of p]
    by (elim insertE emptyE; simp only:) (rule r1 r2 r3 r4 r5 r6 r7 r8 r9; simp add: pow2_def)+
qed

section \<open>Estimates\<close>

lemma count_from_le: "count_from k p s \<le> length s"
  by (induction k p s rule: count_from.induct) (auto simp: le_SucI)

lemma str_count_bounds: "0 \<le> str_count s p" "str_count s p \<le> int (length s)"
  using count_from_le [of 0 p s] by (simp_all add: str_count_def)

lemma mkf_in_ints: "of_int a \<le> x \<Longrightarrow> x \<le> of_int b \<Longrightarrow> \<bar>a\<bar> \<le> 2 ^ 52 \<Longrightarrow> \<bar>b\<bar> \<le> 2 ^ 52 \<Longrightarrow> \<exists>r. mkf x = Fin r \<and> of_int a \<le> r \<and> r \<le> of_int b"
  by (intro mkf_between half_int_of_int)

text \<open>The type of the file enters only through the factor; the rest depends on the content.\<close>

lemma estimate_shape:
  assumes "length content \<le> 10 ^ 5"
  shows "\<exists>c d. 0 \<le> c \<and> c \<le> 10 ^ 4 \<and> 0 \<le> d \<and> d \<le> 2 * 10 ^ 5 \<and> (\<forall>path. estimate_yield path content =
    rbind (rate_factor (base_rate path)) (\<lambda>f. Inr (fround (fmin (fmul (fmul f (Fin c)) (Fin d)) (Fin 10)) 6)))"
proof -
  let ?k = "str_count content"
  define ln where "ln = ?k [CHR 0x0A] + 1"
  define fn where "fn = ?k ''def '' + ?k ''fn '' + ?k ''function ''"
  define cm where "cm = ?k ''//'' + ?k ''# '' + ?k ''/*''"
  have k: "0 \<le> ?k p" "?k p \<le> 10 ^ 5" for p using str_count_bounds [of content p] assms by simp_all
  have ln: "1 \<le> ln" "ln \<le> 10 ^ 5 + 1" using k [of "[CHR 0x0A]"] by (simp_all add: ln_def)
  have fn: "0 \<le> fn" "fn \<le> 3 * 10 ^ 5" using k [of "''def ''"] k [of "''fn ''"] k [of "''function ''"] by (simp_all add: fn_def)
  have cm: "0 \<le> cm" "cm \<le> 3 * 10 ^ 5" using k [of "''//''"] k [of "''# ''"] k [of "''/*''"] by (simp_all add: cm_def)
  have "(of_int ln :: rat) * (4611686018427388 * pow2 (- 62)) \<le> 200" using ln by (simp add: pow2_def)
  then obtain a where a: "mkf (of_int ln * (4611686018427388 * pow2 (- 62))) = Fin a" "0 \<le> a" "a \<le> 200"
    using mkf_in_ints [of 0 "of_int ln * (4611686018427388 * pow2 (- 62))" 200] ln by (auto simp: less_imp_le)
  have "(of_int fn :: rat) * (5764607523034235 * pow2 (- 59)) \<le> 6000" using fn by (simp add: pow2_def)
  then obtain b where b: "mkf (of_int fn * (5764607523034235 * pow2 (- 59))) = Fin b" "0 \<le> b" "b \<le> 6000"
    using mkf_in_ints [of 0 "of_int fn * (5764607523034235 * pow2 (- 59))" 6000] fn by (auto simp: less_imp_le)
  obtain c where c: "mkf (a + b) = Fin c" "0 \<le> c" "c \<le> 10 ^ 4" using mkf_in_ints [of 0 "a + b" "10 ^ 4"] a b by auto
  let ?r = "rnd (of_int cm / of_int ln)"
  have q: "truediv cm (max ln 1) = Inr (Fin ?r)" using truediv_small [of ln cm] ln cm by (simp add: max_def)
  have "of_int cm / of_int ln \<le> (of_int cm :: rat)" using ln cm by (simp add: divide_le_eq mult_le_cancel_left1)
  then have "of_int cm / of_int ln \<le> (300000 :: rat)" "0 \<le> of_int cm / (of_int ln :: rat)" using cm ln by simp_all
  then have "0 \<le> ?r \<and> ?r \<le> 300000" using mkf_in_ints [of 0 "of_int cm / of_int ln" 300000] by (auto dest: mkf_Fin_D)
  then obtain h where h: "mkf (?r * (1 / 2)) = Fin h" "0 \<le> h" "h \<le> 150000" using mkf_in_ints [of 0 "?r * (1 / 2)" 150000] by auto
  then obtain d where d: "mkf (1 + h) = Fin d" "0 \<le> d" "d \<le> 2 * 10 ^ 5" using mkf_in_ints [of 0 "1 + h" "2 * 10 ^ 5"] by auto
  have half: "mkf (1 / 2) = Fin (1 / 2)" using mkf_rep [of 1 "- 1"] by (simp add: pow2_def)
  have "estimate_yield path content =
    rbind (rate_factor (base_rate path)) (\<lambda>f. Inr (fround (fmin (fmul (fmul f (Fin c)) (Fin d)) (Fin 10)) 6))" for path
    using ln fn of_pyint_small [of ln] of_pyint_small [of fn] a(1) b(1) c(1) q h(1) d(1) half
    unfolding estimate_yield_def rate_factor_def Let_def ln_def [symmetric] fn_def [symmetric] cm_def [symmetric] rate_floats
    by (cases "fdiv (Fin 1) (fmul (base_rate path) (Fin 100))") simp_all
  with c d show ?thesis by blast
qed

lemma factor_bounds: "\<bar>f - 1 / 100\<bar> \<le> 2 * pow2 (- 59) \<Longrightarrow> 0 \<le> f \<and> f \<le> (1 / 50 :: rat)"
proof -
  assume "\<bar>f - 1 / 100\<bar> \<le> 2 * pow2 (- 59)"
  moreover have "2 * pow2 (- 59) \<le> 1 / 100" by (simp add: pow2_def)
  ultimately show ?thesis by linarith
qed

lemma product_value:
  assumes "0 \<le> f" "f \<le> 1 / 50" and "0 \<le> c" "c \<le> 10 ^ 4" and "0 \<le> d" "d \<le> 2 * 10 ^ 5"
  shows "\<exists>x. fmul (fmul (Fin f) (Fin c)) (Fin d) = Fin x \<and> 0 \<le> x \<and> \<bar>x - f * c * d\<bar> \<le> 1 / 10 ^ 8"
proof -
  have "f * c \<le> 1 / 50 * 10 ^ 4" using assms by (intro mult_mono) auto
  then have fc: "0 \<le> f * c" "f * c \<le> 200" using assms by simp_all
  have small: "\<bar>v\<bar> \<le> 2 ^ 53" if "0 \<le> v" "v \<le> 10 ^ 8" for v :: rat using that by simp
  have e1: "\<bar>rnd (f * c) - f * c\<bar> \<le> 200 * pow2 (- 53) + pow2 (- 1021)" using rnd_abs_error [of "f * c" 200] fc by simp
  have g: "0 \<le> rnd (f * c)" "rnd (f * c) \<le> 200" using rnd_nonneg [OF fc(1)] rnd_mono [OF fc(2)] half_int_rnd [OF half_int_of_int [of 200]] by simp_all
  have "rnd (f * c) * d \<le> 200 * (2 * 10 ^ 5)" using assms g by (intro mult_mono) auto
  then have gd: "0 \<le> rnd (f * c) * d" "rnd (f * c) * d \<le> 4 * 10 ^ 7" using assms g by simp_all
  have e2: "\<bar>rnd (rnd (f * c) * d) - rnd (f * c) * d\<bar> \<le> 4 * 10 ^ 7 * pow2 (- 53) + pow2 (- 1021)"
    using rnd_abs_error [of "rnd (f * c) * d" "4 * 10 ^ 7"] gd by simp
  have "\<bar>rnd (f * c) * d - f * c * d\<bar> = \<bar>rnd (f * c) - f * c\<bar> * d" using assms(5) by (simp add: abs_mult flip: left_diff_distrib)
  also have "\<dots> \<le> (200 * pow2 (- 53) + pow2 (- 1021)) * (2 * 10 ^ 5)" using e1 assms by (intro mult_mono) auto
  finally have e3: "\<bar>rnd (f * c) * d - f * c * d\<bar> \<le> (200 * pow2 (- 53) + pow2 (- 1021)) * (2 * 10 ^ 5)" .
  have t: "(200 * pow2 (- 53) + pow2 (- 1021)) * (2 * 10 ^ 5) + (4 * 10 ^ 7 * pow2 (- 53) + pow2 (- 1021)) \<le> 1 / 10 ^ 8" by (simp add: pow2_def)
  have "\<bar>rnd (rnd (f * c) * d) - f * c * d\<bar> \<le> 1 / 10 ^ 8" using e2 e3 t by linarith
  moreover have "fmul (fmul (Fin f) (Fin c)) (Fin d) = Fin (rnd (rnd (f * c) * d))"
    using mkf_moderate [OF small [of "f * c"]] mkf_moderate [OF small [of "rnd (f * c) * d"]] fc gd by simp
  ultimately show ?thesis using rnd_nonneg [OF gd(1)] by blast
qed

lemma rounded_min:
  assumes "0 \<le> x"
  shows "\<exists>y. fround (fmin (Fin x) (Fin 10)) 6 = Fin y \<and> 0 \<le> y \<and> y \<le> 10 \<and> \<bar>y - min x 10\<bar> \<le> 51 / 10 ^ 8"
proof -
  let ?m = "min x 10"
  have m: "0 \<le> ?m" "?m \<le> 10" using assms by auto
  have eq: "fmin (Fin x) (Fin 10) = Fin ?m" by (simp add: fmin_def min_def)
  obtain y where y: "fround (Fin ?m) 6 = Fin y" "\<bar>y - ?m\<bar> \<le> 1 / (2 * 10 ^ 6) + (10 + 1) * pow2 (- 53) + pow2 (- 1021)"
    using fround_error [of ?m 10 6] m by auto
  have "0 \<le> rhe (?m * 10 ^ 6)" using m by (intro rhe_ge_int) simp
  moreover have "rhe (?m * 10 ^ 6) \<le> 10 ^ 7" using m by (intro rhe_le_int) simp
  ultimately have "0 \<le> (of_int (rhe (?m * 10 ^ 6)) / 10 ^ 6 :: rat)" "of_int (rhe (?m * 10 ^ 6)) / 10 ^ 6 \<le> (10 :: rat)" by simp_all
  then have "0 \<le> y \<and> y \<le> 10" using mkf_in_ints [of 0 "of_int (rhe (?m * 10 ^ 6)) / 10 ^ 6" 10] y(1) by auto
  moreover have "1 / (2 * 10 ^ 6) + (10 + 1) * pow2 (- 53) + pow2 (- 1021) \<le> (51 / 10 ^ 8 :: rat)" by (simp add: pow2_def)
  ultimately show ?thesis using eq y by auto
qed

lemma estimate_near:
  assumes "length content \<le> 10 ^ 5"
  obtains c d where "0 \<le> c" "c \<le> 10 ^ 4" "0 \<le> d" "d \<le> 2 * 10 ^ 5"
    "\<And>path. \<exists>y f. estimate_yield path content = Inr (Fin y) \<and> 0 \<le> y \<and> y \<le> 10 \<and> \<bar>f - 1 / 100\<bar> \<le> 2 * pow2 (- 59) \<and>
      \<bar>y - min (f * c * d) 10\<bar> \<le> 52 / 10 ^ 8"
proof -
  obtain c d where cd: "0 \<le> c" "c \<le> 10 ^ 4" "0 \<le> d" "d \<le> 2 * 10 ^ 5" "\<And>path. estimate_yield path content =
      rbind (rate_factor (base_rate path)) (\<lambda>f. Inr (fround (fmin (fmul (fmul f (Fin c)) (Fin d)) (Fin 10)) 6))"
    using estimate_shape [OF assms] by blast
  have one: "\<exists>y f. estimate_yield path content = Inr (Fin y) \<and> 0 \<le> y \<and> y \<le> 10 \<and> \<bar>f - 1 / 100\<bar> \<le> 2 * pow2 (- 59) \<and>
      \<bar>y - min (f * c * d) 10\<bar> \<le> 52 / 10 ^ 8" for path
  proof -
    obtain f where f: "rate_factor (base_rate path) = Inr (Fin f)" "\<bar>f - 1 / 100\<bar> \<le> 2 * pow2 (- 59)" using rate_factor_near by blast
    obtain x where x: "fmul (fmul (Fin f) (Fin c)) (Fin d) = Fin x" "0 \<le> x" "\<bar>x - f * c * d\<bar> \<le> 1 / 10 ^ 8"
      using product_value factor_bounds [OF f(2)] cd by blast
    obtain y where y: "fround (fmin (Fin x) (Fin 10)) 6 = Fin y" "0 \<le> y" "y \<le> 10" "\<bar>y - min x 10\<bar> \<le> 51 / 10 ^ 8"
      using rounded_min [OF x(2)] by blast
    have "\<bar>min x 10 - min (f * c * d) 10\<bar> \<le> \<bar>x - f * c * d\<bar>" by linarith
    then have "\<bar>y - min (f * c * d) 10\<bar> \<le> 52 / 10 ^ 8" using y(4) x(3) by linarith
    then show ?thesis using cd(5) [of path] f x y by auto
  qed
  from that [OF cd(1-4) one] show ?thesis .
qed

lemma estimate_bounds: "length content \<le> 10 ^ 5 \<Longrightarrow> \<exists>y. estimate_yield path content = Inr (Fin y) \<and> 0 \<le> y \<and> y \<le> 10"
  by (erule estimate_near) blast

text \<open>
  The type of a file does not matter: for contents of at most a hundred thousand characters the estimate never raises
  and lies between 0 and 10, and the estimates for any two names of a file differ by at most the last of the six printed
  digits, although the rates of the types differ by a factor of up to eighty.
\<close>

theorem yield_ignores_file_type:
  assumes "length content \<le> 10 ^ 5"
  shows "\<exists>y y'. estimate_yield path content = Inr (Fin y) \<and> estimate_yield path' content = Inr (Fin y') \<and>
    0 \<le> y \<and> y \<le> 10 \<and> \<bar>y - y'\<bar> \<le> 11 / 10 ^ 7"
proof -
  obtain c d where cd: "0 \<le> c" "c \<le> 10 ^ 4" "0 \<le> d" "d \<le> 2 * 10 ^ 5"
    and one: "\<And>path. \<exists>y f. estimate_yield path content = Inr (Fin y) \<and> 0 \<le> y \<and> y \<le> 10 \<and> \<bar>f - 1 / 100\<bar> \<le> 2 * pow2 (- 59) \<and>
      \<bar>y - min (f * c * d) 10\<bar> \<le> 52 / 10 ^ 8" using estimate_near [OF assms] by blast
  obtain y f where y: "estimate_yield path content = Inr (Fin y)" "0 \<le> y" "y \<le> 10" "\<bar>f - 1 / 100\<bar> \<le> 2 * pow2 (- 59)"
    "\<bar>y - min (f * c * d) 10\<bar> \<le> 52 / 10 ^ 8" using one by blast
  obtain y' f' where y': "estimate_yield path' content = Inr (Fin y')" "\<bar>f' - 1 / 100\<bar> \<le> 2 * pow2 (- 59)"
    "\<bar>y' - min (f' * c * d) 10\<bar> \<le> 52 / 10 ^ 8" using one by blast
  have "\<bar>f - f'\<bar> \<le> 4 * pow2 (- 59)" using y(4) y'(2) by linarith
  moreover have "c * d \<le> 10 ^ 4 * (2 * 10 ^ 5)" using cd by (intro mult_mono) auto
  ultimately have "\<bar>f - f'\<bar> * (c * d) \<le> 4 * pow2 (- 59) * (10 ^ 4 * (2 * 10 ^ 5))" using cd by (intro mult_mono) auto
  moreover have "\<bar>f * c * d - f' * c * d\<bar> = \<bar>f - f'\<bar> * (c * d)" using cd by (simp add: abs_mult mult.assoc flip: left_diff_distrib)
  moreover have "4 * pow2 (- 59) * (10 ^ 4 * (2 * 10 ^ 5)) \<le> (6 / 10 ^ 8 :: rat)" by (simp add: pow2_def)
  ultimately have "\<bar>f * c * d - f' * c * d\<bar> \<le> 6 / 10 ^ 8" by linarith
  then have "\<bar>min (f * c * d) 10 - min (f' * c * d) 10\<bar> \<le> 6 / 10 ^ 8" by linarith
  moreover have "52 / 10 ^ 8 + 6 / 10 ^ 8 + 52 / 10 ^ 8 \<le> (11 / 10 ^ 7 :: rat)" by simp
  ultimately have "\<bar>y - y'\<bar> \<le> 11 / 10 ^ 7" using y(5) y'(3) by linarith
  with y y' show ?thesis by blast
qed

theorem yield_ignores_file_type_witness:
  "\<exists>y y'. estimate_yield ''a.sol'' ''def f(): pass'' = Inr (Fin y) \<and> estimate_yield ''a.txt'' ''def f(): pass'' = Inr (Fin y') \<and>
     \<bar>y - y'\<bar> \<le> 11 / 10 ^ 7"
  using yield_ignores_file_type [of "''def f(): pass''" "''a.sol''" "''a.txt''"] by auto

section \<open>Operations are accounted for\<close>

text \<open>What mining puts into the ledger.\<close>

definition mined_op :: "json dict \<Rightarrow> bool" where
  "mined_op op \<longleftrightarrow> (\<exists>fname path sz y now. op = [(''type'', JStr ''file_yield''), (''file'', JStr fname), (''path'', JStr path), (''size'', JInt sz),
     (''yield_estimate'', JFloat (Fin y)), (''timestamp'', JFloat now)] \<and> list_ex (ends_with fname) SCANNED_TYPES \<and> sz \<le> 2000 \<and> 0 \<le> y \<and> y \<le> 10)"

abbreviation pending :: "membra_node \<Rightarrow> json dict list" where
  "pending n \<equiv> lg_pending (mn_ledger n)"

definition accounts_ok :: "json dict ledger \<Rightarrow> int \<Rightarrow> bool" where
  "accounts_ok l ops \<longleftrightarrow> lg_max_pending l = 100000 \<and> 0 \<le> lg_processed l \<and> list_all mined_op (lg_pending l) \<and>
     (ops \<le> 100000 \<longrightarrow> ops = lg_processed l + int (length (lg_pending l)))"

definition node_ok :: "membra_node \<Rightarrow> bool" where
  "node_ok n \<longleftrightarrow> accounts_ok (mn_ledger n) (mn_ops_processed n) \<and> mn_ops_processed n = mn_files_scanned n \<and> (\<exists>us. poy_inv us (mn_consensus n))"

lemma node_accounts: "node_ok n \<Longrightarrow> accounts_ok (mn_ledger n) (mn_ops_processed n)"
  unfolding node_ok_def by (elim conjE)

lemma node_ok_init: "node_ok (membra_node_init node_id env_key)"
  using poy_inv_init by (auto simp: node_ok_def accounts_ok_def membra_node_init_def ledger_init_def)

lemma submit_accounts:
  assumes "accounts_ok l ops" "mined_op op"
  shows "accounts_ok (ledger_submit op l) (ops + 1)"
proof -
  let ?q = "lg_pending l @ [op]"
  have "list_all mined_op (drop (length ?q - 100000) ?q)"
    using assms by (auto simp: accounts_ok_def list_all_iff dest!: in_set_dropD)
  then show ?thesis using assms(1) by (auto simp: accounts_ok_def ledger_submit_def Let_def)
qed

lemma drain_accounts:
  assumes "accounts_ok l ops" "drain_batch k l = (batch, l')"
  shows "accounts_ok l' ops" and "list_all mined_op batch"
proof -
  note e = drain_effect [OF assms(2)]
  have "list_all mined_op (batch @ lg_pending l')" using assms(1) e(1) by (simp add: accounts_ok_def)
  moreover have "length (lg_pending l) = length batch + length (lg_pending l')" using arg_cong [OF e(1), of length] by simp
  ultimately show "accounts_ok l' ops" "list_all mined_op batch" using assms(1) e(2,3) by (auto simp: accounts_ok_def)
qed

lemma mine_file_ok:
  assumes "node_ok n"
  shows "node_ok (fst (mine_file dir f n rt))"
proof -
  obtain fname txt0 where f: "f = (fname, txt0)" by (cases f)
  show ?thesis
  proof (cases "list_ex (ends_with fname) SCANNED_TYPES \<and> txt0 \<noteq> None")
    case True
    then obtain t where t: "txt0 = Some t" by blast
    have len: "length (take 2000 t) \<le> 10 ^ 5" by simp
    obtain y where y: "estimate_yield (path_join dir fname) (take 2000 t) = Inr (Fin y)" "0 \<le> y" "y \<le> 10" using estimate_bounds [OF len] by blast
    have "mined_op [(''type'', JStr ''file_yield''), (''file'', JStr fname), (''path'', JStr (path_join dir fname)), (''size'', JInt (int (length (take 2000 t)))),
        (''yield_estimate'', JFloat (Fin y)), (''timestamp'', JFloat (rt_now rt))]" using True y by (simp add: mined_op_def)
    moreover have "accounts_ok (mn_ledger n) (mn_files_scanned n)" using assms by (auto simp: node_ok_def)
    ultimately show ?thesis using submit_accounts
      assms True f t y(1) by (simp add: mine_file_def Let_def time_time_def node_ok_def del: length_take)
  qed (use assms f in \<open>auto simp: mine_file_def split: option.split\<close>)
qed

lemma mine_files_ok: "node_ok n \<Longrightarrow> node_ok (fst (mine_files dir fs n rt))"
  using mine_file_ok by (induction fs arbitrary: n rt) (simp_all add: case_prod_beta Let_def)

lemma mining_pass_ok: "node_ok n \<Longrightarrow> node_ok (fst (mining_pass ds n rt))"
  using mine_files_ok by (induction ds arbitrary: n rt) (auto simp: case_prod_beta Let_def)

lemma mined_batch:
  assumes "list_all mined_op batch"
  shows "list_all (\<lambda>op. op_file op \<noteq> Inl TypeError) batch" and "\<exists>y. rbind (batch_yield batch) num_float = Inr y"
proof -
  show "list_all (\<lambda>op. op_file op \<noteq> Inl TypeError) batch"
    using assms by (auto simp: list_all_iff mined_op_def op_file_def dget_default_def)
  have "\<exists>y. rbind (num_sum v (map (\<lambda>op. dget_default op ''yield_estimate'' (JInt 0)) ops)) num_float = Inr y"
    if "v = JInt 0 \<or> (\<exists>x. v = JFloat x)" "list_all mined_op ops" for v ops
    using that
  proof (induction ops arbitrary: v)
    case (Cons op ops)
    then obtain y where "dget_default op ''yield_estimate'' (JInt 0) = JFloat y" by (auto simp: mined_op_def dget_default_def)
    moreover from this Cons.prems(1) obtain x where "num_add v (dget_default op ''yield_estimate'' (JInt 0)) = Inr (JFloat x)"
      by (auto simp: num_add_def num_op_def of_pyint_def)
    ultimately show ?case using Cons by auto
  qed (auto simp: of_pyint_def)
  from this [of "JInt 0" batch] assms show "\<exists>y. rbind (batch_yield batch) num_float = Inr y" by (simp add: batch_yield_def)
qed

text \<open>What a turn of the consensus loop does on a node in order: it drains, and with ten operations or more it votes.\<close>

lemma drained: "fst (drain_batch 100 l) = take 100 (lg_pending l)" "lg_pending (snd (drain_batch 100 l)) = drop 100 (lg_pending l)"
proof -
  have "nat (min 100 (int (length (lg_pending l)))) = min 100 (length (lg_pending l))" by (simp add: min_def)
  then show "fst (drain_batch 100 l) = take 100 (lg_pending l)" "lg_pending (snd (drain_batch 100 l)) = drop 100 (lg_pending l)"
    by (auto simp: drain_batch_def Let_def min_def)
qed

lemma turn_cases:
  assumes "node_ok n"
  obtains "length (pending n) < 10" "consensus_turn llm arrivals n rt = Some (n\<lparr>mn_ledger := snd (drain_batch 100 (mn_ledger n))\<rparr>, rt)"
  | y where "10 \<le> length (pending n)" "consensus_turn llm arrivals n rt =
      (let b = take 100 (pending n); n = n\<lparr>mn_ledger := snd (drain_batch 100 (mn_ledger n))\<rparr> in
       case run_poy_round llm arrivals (state_root b) b y (mn_consensus n) rt of None \<Rightarrow> None
       | Some (Inl x, s, rt) \<Rightarrow> Some (n\<lparr>mn_consensus := s\<rparr>, rt)
       | Some (Inr r, s, rt) \<Rightarrow> Some (n\<lparr>mn_consensus := s, mn_batches_finalized := mn_batches_finalized n + (if po_finalized r then 1 else 0)\<rparr>, rt))"
proof (cases "length (pending n) < 10")
  case True
  then have "length (take 100 (pending n)) < 10" by simp
  then show ?thesis using True that(1) by (simp add: consensus_turn_def case_prod_beta drained Let_def)
next
  case False
  then have ten: "\<not> length (take 100 (pending n)) < 10" by simp
  obtain batch l where d: "drain_batch 100 (mn_ledger n) = (batch, l)" by fastforce
  then have b: "batch = take 100 (pending n)" using drained(1) [of "mn_ledger n"] by simp
  have "list_all mined_op batch" using drain_accounts(2) [OF node_accounts [OF assms] d] .
  then obtain y where "rbind (batch_yield batch) num_float = Inr y" using mined_batch(2) by blast
  then show ?thesis using False ten b d by (intro that(2) [of y]) (simp_all add: consensus_turn_def Let_def del: length_take)
qed

lemma first_batch_ok: "node_ok n \<Longrightarrow> list_all (\<lambda>op. op_file op \<noteq> Inl TypeError) (take 100 (pending n))"
  using drain_accounts(2) [of "mn_ledger n" "mn_ops_processed n" 100 "take 100 (pending n)" "snd (drain_batch 100 (mn_ledger n))"] drained(1) [of "mn_ledger n"]
  by (intro mined_batch(1)) (metis node_ok_def prod.collapse)

lemma drained_node_ok: "node_ok n \<Longrightarrow> node_ok (n\<lparr>mn_ledger := snd (drain_batch 100 (mn_ledger n))\<rparr>)"
  using drain_accounts(1) [of "mn_ledger n" "mn_ops_processed n" 100] by (auto simp: node_ok_def) (metis prod.collapse)+

lemma turn_result:
  assumes "node_ok n" and "consensus_turn llm arrivals n rt = Some (n', rt')"
  shows "node_ok n' \<and> take 100 (pending n) @ pending n' = pending n \<and>
    (if length (pending n) < 10 then mn_consensus n' = mn_consensus n \<and> mn_batches_finalized n' = mn_batches_finalized n
     else let r = get_round (state_root (take 100 (pending n))) (mn_consensus n') in po_votes r \<noteq> [] \<and>
       mn_batches_finalized n' = mn_batches_finalized n + (if po_finalized r then 1 else 0))"
proof (cases rule: turn_cases [OF assms(1), of llm arrivals rt, case_names 1 2])
  case 1
  then show ?thesis using assms drained_node_ok [OF assms(1)] by (auto simp: drained)
next
  case (2 y)
  let ?b = "take 100 (pending n)" and ?n = "n\<lparr>mn_ledger := snd (drain_batch 100 (mn_ledger n))\<rparr>"
  obtain us where us: "poy_inv us (mn_consensus n)" using assms(1) by (auto simp: node_ok_def)
  obtain q s rt1 where run: "run_poy_round llm arrivals (state_root ?b) ?b y (mn_consensus n) rt = Some (q, s, rt1)"
    using 2(2) assms(2) by (auto simp: Let_def split: option.splits)
  from round_result [OF us first_batch_ok [OF assms(1)] run] obtain v vs where
    r: "q = Inr (get_round (state_root ?b) s)" "pv_state_root v = state_root ?b" "poy_inv (us @ v # vs) s" by blast
  from r(3) have "po_votes (get_round (state_root ?b) s) = filter (\<lambda>w. pv_state_root w = state_root ?b) (us @ v # vs)"
    by (simp add: poy_inv_def)
  then have votes: "po_votes (get_round (state_root ?b) s) \<noteq> []" using r(2) by simp
  have n': "n' = ?n\<lparr>mn_consensus := s, mn_batches_finalized := mn_batches_finalized n + (if po_finalized (get_round (state_root ?b) s) then 1 else 0)\<rparr>"
    using 2(2) assms(2) run r(1) by (simp add: Let_def)
  have "node_ok n'" using drained_node_ok [OF assms(1)] r(3) unfolding n' by (auto simp: node_ok_def)
  then show ?thesis using 2(1) votes by (auto simp: n' drained Let_def)
qed

lemma turn_returns:
  assumes "node_ok n" and "\<forall>j. \<exists>N. \<forall>i \<ge> N. \<not> flt (fsub (clock rt i) (clock rt j)) (Fin 10)"
  shows "\<exists>N. \<forall>arrivals. N \<le> length arrivals \<longrightarrow> (\<exists>n' rt'. consensus_turn llm arrivals n rt = Some (n', rt'))"
proof (cases "length (pending n) < 10")
  case True
  have "\<exists>n' rt'. consensus_turn llm arrivals n rt = Some (n', rt')" for arrivals
    by (rule turn_cases [OF assms(1), of llm arrivals rt]) (use True in auto)
  then show ?thesis by blast
next
  case False
  obtain us where us: "poy_inv us (mn_consensus n)" using assms(1) by (auto simp: node_ok_def)
  obtain batch l where d: "drain_batch 100 (mn_ledger n) = (batch, l)" by fastforce
  have b: "batch = take 100 (pending n)" using d drained(1) [of "mn_ledger n"] by simp
  have "list_all mined_op batch" using drain_accounts(2) [OF node_accounts [OF assms(1)] d] .
  then obtain y where y: "rbind (batch_yield batch) num_float = Inr y" using mined_batch(2) by blast
  from round_returns [OF us assms(2) first_batch_ok [OF assms(1)], of llm "state_root batch" y] obtain N where
    N: "\<And>arrivals. N \<le> length arrivals \<Longrightarrow> \<exists>s' rt'. run_poy_round llm arrivals (state_root batch) batch y (mn_consensus n) rt =
      Some (Inr (get_round (state_root batch) s'), s', rt')" unfolding b by blast
  have ten: "\<not> length batch < 10" using False b by simp
  have "\<exists>n' rt'. consensus_turn llm arrivals n rt = Some (n', rt')" if "N \<le> length arrivals" for arrivals
    using N [OF that] ten y d by (auto simp: consensus_turn_def)
  then show ?thesis by blast
qed

section \<open>Runs of the node\<close>

text \<open>A pass of the mining loop, a turn of the consensus loop, and votes that arrive from other agents.\<close>

inductive node_step :: "membra_node \<times> runtime \<Rightarrow> membra_node \<times> runtime \<Rightarrow> bool" where
  mine: "mining_pass dirs n rt = (n', rt') \<Longrightarrow> node_step (n, rt) (n', rt')"
| turn: "consensus_turn llm arrivals n rt = Some (n', rt') \<Longrightarrow> node_step (n, rt) (n', rt')"
| votes: "add_votes vs (mn_consensus n) rt = (Inr s, rt') \<Longrightarrow> node_step (n, rt) (n\<lparr>mn_consensus := s\<rparr>, rt')"

lemma node_run_ok:
  assumes "node_step\<^sup>*\<^sup>* s t" and "node_ok (fst s)"
  shows "node_ok (fst t)"
  using assms
proof (induction rule: rtranclp_induct)
  case (step t u)
  from step.hyps(2) step.IH [OF step.prems] show ?case
  proof (cases rule: node_step.cases)
    case (mine dirs n rt n' rt')
    then show ?thesis using mining_pass_ok [of n dirs rt] step.IH [OF step.prems] by simp
  next
    case (turn llm arrivals n rt n' rt')
    then show ?thesis using turn_result [of n llm arrivals rt n' rt'] step.IH [OF step.prems] by simp
  next
    case (votes vs n rt s rt')
    then obtain us where "poy_inv us (mn_consensus n)" using step.IH [OF step.prems] by (auto simp: node_ok_def)
    with add_votes_inv [of us "mn_consensus n" vs rt] votes have "poy_inv (us @ vs) s" by auto
    then show ?thesis using votes step.IH [OF step.prems] by (auto simp: node_ok_def)
  qed
qed

text \<open>
  C28. A node accounts for its operations and its turns end: along every run, up to the capacity of the ledger every operation is
  either drained or pending, and pending operations are estimates between 0 and 10. On a clock that passes ten
  seconds, a turn of the consensus loop returns after finitely many polls whatever votes arrive; it takes the first hundred pending operations in
  order, and with at least ten of them the batch has votes and counts as finalized exactly when its round is.
\<close>

theorem node_accounts_for_operations:
  assumes "node_step\<^sup>*\<^sup>* (membra_node_init node_id env_key, rt0) (n, rt)"
    and "\<forall>j. \<exists>N. \<forall>i \<ge> N. \<not> flt (fsub (clock rt i) (clock rt j)) (Fin 10)"
  shows "list_all mined_op (pending n) \<and> (mn_ops_processed n \<le> 100000 \<longrightarrow>
      mn_ops_processed n = lg_processed (mn_ledger n) + int (length (pending n))) \<and>
    (\<exists>N. \<forall>arrivals. N \<le> length arrivals \<longrightarrow> (\<exists>n' rt'. consensus_turn llm arrivals n rt = Some (n', rt') \<and>
      take 100 (pending n) @ pending n' = pending n \<and>
      (let r = get_round (state_root (take 100 (pending n))) (mn_consensus n') in 10 \<le> length (pending n) \<longrightarrow>
         po_votes r \<noteq> [] \<and> mn_batches_finalized n' = mn_batches_finalized n + (if po_finalized r then 1 else 0))))"
proof -
  have ok: "node_ok n" using node_run_ok [OF assms(1)] node_ok_init by simp
  obtain N where N: "\<And>arrivals. N \<le> length arrivals \<Longrightarrow> \<exists>n' rt'. consensus_turn llm arrivals n rt = Some (n', rt')"
    using turn_returns [OF ok assms(2)] by blast
  have "\<exists>n' rt'. consensus_turn llm arrivals n rt = Some (n', rt') \<and> take 100 (pending n) @ pending n' = pending n \<and>
      (let r = get_round (state_root (take 100 (pending n))) (mn_consensus n') in 10 \<le> length (pending n) \<longrightarrow>
         po_votes r \<noteq> [] \<and> mn_batches_finalized n' = mn_batches_finalized n + (if po_finalized r then 1 else 0))"
    if len: "N \<le> length arrivals" for arrivals
  proof -
    obtain n' rt' where "consensus_turn llm arrivals n rt = Some (n', rt')" using N [OF len] by blast
    with turn_result [OF ok this] show ?thesis by (auto simp: Let_def split: if_splits)
  qed
  moreover have "list_all mined_op (pending n) \<and> (mn_ops_processed n \<le> 100000 \<longrightarrow>
      mn_ops_processed n = lg_processed (mn_ledger n) + int (length (pending n)))"
    using node_accounts [OF ok] by (simp add: accounts_ok_def)
  ultimately show ?thesis by blast
qed

text \<open>A batch of fewer than ten operations is drained without a vote: its operations are lost.\<close>

lemma small_batch_is_lost:
  assumes "node_step\<^sup>*\<^sup>* (membra_node_init node_id env_key, rt0) (n, rt)" and "length (pending n) < 10"
  shows "\<exists>n'. consensus_turn llm arrivals n rt = Some (n', rt) \<and> pending n' = [] \<and> mn_consensus n' = mn_consensus n"
proof -
  have "node_ok n" using node_run_ok [OF assms(1)] node_ok_init by simp
  then show ?thesis by (rule turn_cases [of n llm arrivals rt]) (use assms(2) in \<open>auto simp: drained\<close>)
qed

text \<open>A node that has mined one file.\<close>

theorem node_accounts_for_operations_witness:
  "\<exists>n. pending n \<noteq> [] \<and> list_all mined_op (pending n) \<and> mn_ops_processed n = lg_processed (mn_ledger n) + int (length (pending n))"
proof -
  let ?n = "membra_node_init ''n'' []" and ?op = "\<lambda>y. [(''type'', JStr ''file_yield''), (''file'', JStr ''a.py''), (''path'', JStr ''d/a.py''),
    (''size'', JInt 5), (''yield_estimate'', JFloat (Fin y)), (''timestamp'', JFloat (Fin 0))]"
  obtain y where y: "estimate_yield ''d/a.py'' ''x = 1'' = Inr (Fin y)" using estimate_bounds [of "''x = 1''" "''d/a.py''"] by auto
  let ?m = "?n\<lparr>mn_ledger := ledger_submit (?op y) (mn_ledger ?n), mn_ops_processed := 1, mn_files_scanned := 1, mn_yield_estimated := fadd (Fin 0) (Fin y)\<rparr>"
  have "mining_pass [(''d'', [(''a.py'', Some ''x = 1'')])] ?n sample_rt = (?m, rt_tick sample_rt)"
    using y by (simp add: mine_file_def SCANNED_TYPES_def ends_with_def path_join_def time_time_def membra_node_init_def)
  then have "node_step\<^sup>*\<^sup>* (?n, sample_rt) (?m, rt_tick sample_rt)" by (intro r_into_rtranclp node_step.mine)
  from node_accounts_for_operations [OF this] sample_clock_passes
  have "list_all mined_op (pending ?m) \<and> (mn_ops_processed ?m \<le> 100000 \<longrightarrow>
      mn_ops_processed ?m = lg_processed (mn_ledger ?m) + int (length (pending ?m)))" by simp
  moreover have "pending ?m \<noteq> []" by (simp add: ledger_submit_def membra_node_init_def ledger_init_def)
  ultimately show ?thesis by (intro exI [of _ ?m]) simp
qed

end
