(* ===== verification/Brain_Server.thy ===== *)
theory Brain_Server
  imports Brain
begin

text \<open>
  \<open>membra_sdk/brain_server/server.py\<close> and \<open>membra_sdk/worker/worker_client.py\<close>: the server that splits prompts into tasks for
  workers in the local network, and the client that polls it. The web framework is left out: a handler gets the fields
  of its request, \<open>None\<close> for a missing one, and gives a reply. \<open>server_step\<close> handles one whole request. The server is threaded, so
  \<open>overlap_step\<close> also lets claims overlap: the queue has no lock, and another request may run between the search for a task and its
  assignment. Within such a half, and within the other handlers, nothing is interleaved, so the lock of the workers is not modelled; the
  lock of the jobs is, because one handler takes it twice.
\<close>

section \<open>Data\<close>

record brain_worker =
  bw_worker_id :: string
  bw_role :: json
  bw_models :: json
  bw_memory_gb :: json
  bw_hostname :: json
  bw_registered_at :: pyfloat
  bw_last_heartbeat :: pyfloat
  bw_status :: json
  bw_current_task :: json

record brain_job =
  bj_prompt :: string
  bj_type :: json
  bj_buyer_email :: json
  bj_plan :: plan
  bj_tasks :: "string list"
  bj_job_status :: string
  bj_created_at :: pyfloat
  bj_completed_at :: "pyfloat option"
  bj_results :: "spec_out list"
  bj_final_artifact :: "synthesis option"

record brain_server =
  bs_queue :: job_queue
  bs_router :: "string dict"
  bs_judge :: judge_brain
  bs_synthesizer :: "synthesis list"
  bs_workers :: "brain_worker dict"
  bs_jobs :: "brain_job dict"
  bs_job_lock :: bool

definition brain_server_init :: "json option \<Rightarrow> brain_server" where
  "brain_server_init fl = \<lparr>bs_queue = job_queue_init fl, bs_router = router_init None, bs_judge = judge_init, bs_synthesizer = [],
     bs_workers = [], bs_jobs = [], bs_job_lock = False\<rparr>"

text \<open>A reply with status 200, one with an error status, an exception (status 500), or a thread that waits forever.\<close>

datatype 'a reply = Replied 'a | Refused int string | Raised py_error | Blocked

text \<open>\<open>data.get(k, default)\<close>.\<close>

definition field :: "'a option \<Rightarrow> 'a \<Rightarrow> 'a" where
  "field x d = (case x of None \<Rightarrow> d | Some v \<Rightarrow> v)"

definition upd_worker :: "string \<Rightarrow> (brain_worker \<Rightarrow> brain_worker) \<Rightarrow> brain_server \<Rightarrow> brain_server" where
  "upd_worker wid f s = (case dget (bs_workers s) wid of None \<Rightarrow> s
     | Some w \<Rightarrow> s\<lparr>bs_workers := dset wid (f w) (bs_workers s)\<rparr>)"

section \<open>Workers\<close>

record health_report =
  hr_workers :: int
  hr_jobs :: int
  hr_timestamp :: pyfloat

definition health :: "brain_server \<Rightarrow> runtime \<Rightarrow> health_report reply \<times> runtime" where
  "health s rt = (let (now, rt) = time_time rt in
     (Replied \<lparr>hr_workers = int (length (bs_workers s)), hr_jobs = int (length (bs_jobs s)), hr_timestamp = now\<rparr>, rt))"

definition bs_register_worker ::
  "string option \<Rightarrow> json option \<Rightarrow> json option \<Rightarrow> json option \<Rightarrow> json option \<Rightarrow> brain_server \<Rightarrow> runtime \<Rightarrow> string reply \<times> brain_server \<times> runtime" where
  "bs_register_worker wid role models memory_gb hostname s rt =
     (let wid = field wid [] in
      if wid = [] then (Refused 400 ''worker_id required'', s, rt)
      else let (t1, rt) = time_time rt; (t2, rt) = time_time rt;
               w = \<lparr>bw_worker_id = wid, bw_role = field role (JStr ''general''), bw_models = field models (JList []),
                 bw_memory_gb = field memory_gb (JInt 16), bw_hostname = field hostname (JStr ''unknown''), bw_registered_at = t1,
                 bw_last_heartbeat = t2, bw_status = JStr ''idle'', bw_current_task = JNull\<rparr>
           in (Replied wid, s\<lparr>bs_workers := dset wid w (bs_workers s)\<rparr>, rt))"

text \<open>Workers without a heartbeat for five minutes are dropped.\<close>

definition list_workers :: "brain_server \<Rightarrow> runtime \<Rightarrow> brain_worker list reply \<times> brain_server \<times> runtime" where
  "list_workers s rt = (let (now, rt) = time_time rt; stale = fsub now (Fin 300);
       active = filter (\<lambda>(k, w). flt stale (bw_last_heartbeat w)) (bs_workers s)
     in (Replied (dvalues active), s\<lparr>bs_workers := active\<rparr>, rt))"

definition worker_heartbeat ::
  "string option \<Rightarrow> json option \<Rightarrow> json option \<Rightarrow> brain_server \<Rightarrow> runtime \<Rightarrow> unit reply \<times> brain_server \<times> runtime" where
  "worker_heartbeat wid status current_task s rt =
     (let wid = field wid [] in
      if wid \<in> set (dkeys (bs_workers s)) then let (now, rt) = time_time rt in
        (Replied (), upd_worker wid (\<lambda>w. w\<lparr>bw_last_heartbeat := now, bw_status := field status (JStr ''idle''),
           bw_current_task := field current_task JNull\<rparr>) s, rt)
      else (Refused 404 ''worker not found'', s, rt))"

text \<open>Noting at a worker that it has a task, or has none.\<close>

definition set_busy :: "string \<Rightarrow> string \<Rightarrow> brain_server \<Rightarrow> brain_server" where
  "set_busy wid tid = upd_worker wid (\<lambda>w. w\<lparr>bw_status := JStr ''busy'', bw_current_task := JStr tid\<rparr>)"

definition set_idle :: "string \<Rightarrow> brain_server \<Rightarrow> brain_server" where
  "set_idle wid = upd_worker wid (\<lambda>w. w\<lparr>bw_status := JStr ''idle'', bw_current_task := JNull\<rparr>)"

section \<open>Dispatching\<close>

text \<open>The idle workers with a recent heartbeat; the clock is read for each idle one.\<close>

fun idle_workers :: "brain_worker list \<Rightarrow> runtime \<Rightarrow> brain_worker list \<times> runtime" where
  "idle_workers [] rt = ([], rt)"
| "idle_workers (w # ws) rt =
     (if bw_status w = JStr ''idle'' then
        (let (now, rt) = time_time rt; (rest, rt) = idle_workers ws rt
         in (if flt (fsub now (Fin 300)) (bw_last_heartbeat w) then w # rest else rest, rt))
      else idle_workers ws rt)"

text \<open>\<open>not task.assigned_worker\<close>, of the task as it is now.\<close>

definition unassigned :: "string \<Rightarrow> job_queue \<Rightarrow> bool" where
  "unassigned k q = (case dget (jq_tasks q) k of None \<Rightarrow> True
     | Some t \<Rightarrow> (case tk_assigned_worker t of None \<Rightarrow> True | Some w \<Rightarrow> w = []))"

text \<open>The inner loop: the first worker for which some task of the type is claimed.\<close>

fun dispatch_task :: "string \<Rightarrow> string \<Rightarrow> brain_worker list \<Rightarrow> brain_server \<Rightarrow> runtime \<Rightarrow> brain_server \<times> runtime" where
  "dispatch_task k ty [] s rt = (s, rt)"
| "dispatch_task k ty (w # ws) s rt =
     (if \<not> unassigned k (bs_queue s) then dispatch_task k ty ws s rt
      else case claim_task (bw_worker_id w) ty (bs_queue s) rt of
        (None, q, rt) \<Rightarrow> dispatch_task k ty ws (s\<lparr>bs_queue := q\<rparr>) rt
      | (Some t, q, rt) \<Rightarrow> (set_busy (bw_worker_id w) (tk_task_id t) (s\<lparr>bs_queue := q\<rparr>), rt))"

fun dispatch_all :: "(string \<times> task_split) list \<Rightarrow> brain_worker list \<Rightarrow> brain_server \<Rightarrow> runtime \<Rightarrow> brain_server \<times> runtime" where
  "dispatch_all [] ws s rt = (s, rt)"
| "dispatch_all ((k, t) # ts) ws s rt = (let (s, rt) = dispatch_task k (tk_task_type t) ws s rt in dispatch_all ts ws s rt)"

definition pending_items :: "job_queue \<Rightarrow> (string \<times> task_split) list" where
  "pending_items q = filter (\<lambda>(k, t). tk_status t = PENDING) (jq_tasks q)"

definition dispatch_tasks :: "brain_server \<Rightarrow> runtime \<Rightarrow> brain_server \<times> runtime" where
  "dispatch_tasks s rt = (let pending = pending_items (bs_queue s); (ws, rt) = idle_workers (dvalues (bs_workers s)) rt
     in dispatch_all pending ws s rt)"

section \<open>Jobs\<close>

definition subtask_json :: "subtask \<Rightarrow> json" where
  "subtask_json t = JObj [(''id'', JStr (sb_id t)), (''description'', JStr (sb_description t)), (''role'', JStr (sb_role t)), (''model'', JStr (sb_model t))]"

definition plan_json :: "plan \<Rightarrow> json" where
  "plan_json p = JObj [
     (''plan_id'', JStr (pl_plan_id p)),
     (''original_prompt'', JStr (pl_original_prompt p)),
     (''subtasks'', JList (map subtask_json (pl_subtasks p))),
     (''worker_assignments'', JObj (map (\<lambda>(k, v). (k, JStr v)) (pl_worker_assignments p))),
     (''dependencies'', JObj (map (\<lambda>(k, v). (k, jstrs v)) (pl_dependencies p))),
     (''quality_threshold'', JFloat (pl_quality_threshold p)),
     (''estimated_steps'', JInt (pl_estimated_steps p)),
     (''created_at'', JFloat (pl_created_at p))]"

text \<open>One queue job per subtask.\<close>

fun submit_subtasks :: "plan \<Rightarrow> subtask list \<Rightarrow> job_queue \<Rightarrow> runtime \<Rightarrow> task_split list result \<times> job_queue \<times> runtime" where
  "submit_subtasks p [] q rt = (Inr [], q, rt)"
| "submit_subtasks p (t # ts) q rt =
     (case submit_job (sb_role t) [(''items'', jstrs [sb_description t]), (''description'', JStr (sb_description t)), (''plan'', plan_json p)]
          ''by_item'' q rt of
        (Inl x, q, rt) \<Rightarrow> (Inl x, q, rt)
      | (Inr new, q, rt) \<Rightarrow> (case submit_subtasks p ts q rt of (Inl x, q, rt) \<Rightarrow> (Inl x, q, rt)
          | (Inr rest, q, rt) \<Rightarrow> (Inr (new @ rest), q, rt)))"

record job_receipt =
  jrc_job_id :: string
  jrc_tasks :: int
  jrc_plan :: plan

definition bs_submit_job ::
  "string option \<Rightarrow> json option \<Rightarrow> json option \<Rightarrow> brain_server \<Rightarrow> runtime \<Rightarrow> job_receipt reply \<times> brain_server \<times> runtime" where
  "bs_submit_job prompt ty buyer_email s rt =
     (let prompt = field prompt [] in
      if prompt = [] then (Refused 400 ''prompt required'', s, rt)
      else case router_plan (bs_router s) prompt rt of (Inl x, rt) \<Rightarrow> (Raised x, s, rt)
      | (Inr p, rt) \<Rightarrow> (case submit_subtasks p (pl_subtasks p) (bs_queue s) rt of
          (Inl x, q, rt) \<Rightarrow> (Raised x, s\<lparr>bs_queue := q\<rparr>, rt)
        | (Inr ts, q, rt) \<Rightarrow>
            if bs_job_lock s then (Blocked, s\<lparr>bs_queue := q\<rparr>, rt)
            else let (now, rt) = time_time rt;
                   j = \<lparr>bj_prompt = prompt, bj_type = field ty (JStr ''general''), bj_buyer_email = field buyer_email (JStr []),
                     bj_plan = p, bj_tasks = map tk_task_id ts, bj_job_status = ''accepted'', bj_created_at = now,
                     bj_completed_at = None, bj_results = [], bj_final_artifact = None\<rparr>;
                   s = s\<lparr>bs_queue := q, bs_jobs := dset (pl_plan_id p) j (bs_jobs s)\<rparr>;
                   (s, rt) = dispatch_tasks s rt
                 in (Replied \<lparr>jrc_job_id = pl_plan_id p, jrc_tasks = int (length ts), jrc_plan = p\<rparr>, s, rt)))"

record task_view =
  tv_status :: string
  tv_worker :: "string option"
  tv_result_preview :: "string option"

record job_view =
  jv_job_id :: string
  jv_status :: string
  jv_prompt :: string
  jv_tasks :: "task_view dict"
  jv_results :: "spec_out list"
  jv_final_artifact :: "synthesis option"

definition view_task :: "task_split \<Rightarrow> task_view" where
  "view_task t = \<lparr>tv_status = task_status_value (tk_status t), tv_worker = tk_assigned_worker t,
     tv_result_preview = (case tk_result t of None \<Rightarrow> None | Some r \<Rightarrow> if r = [] then None else Some (take 200 (pyrepr (JObj r))))\<rparr>"

definition bs_get_job :: "string \<Rightarrow> brain_server \<Rightarrow> job_view reply" where
  "bs_get_job jid s =
     (if bs_job_lock s then Blocked
      else case dget (bs_jobs s) jid of None \<Rightarrow> Refused 404 ''job not found''
      | Some j \<Rightarrow> Replied \<lparr>jv_job_id = jid, jv_status = bj_job_status j, jv_prompt = bj_prompt j,
          jv_tasks = foldl (\<lambda>d tid. case dget (jq_tasks (bs_queue s)) tid of None \<Rightarrow> d | Some t \<Rightarrow> dset tid (view_task t) d) [] (bj_tasks j),
          jv_results = bj_results j, jv_final_artifact = bj_final_artifact j\<rparr>)"

section \<open>Tasks\<close>

text \<open>The reply to a worker that asks for a task, as the JSON object it is sent as.\<close>

fun next_loop :: "string \<Rightarrow> string \<Rightarrow> task_split list \<Rightarrow> brain_server \<Rightarrow> runtime \<Rightarrow> json dict \<times> brain_server \<times> runtime" where
  "next_loop wid capability [] s rt = ([(''task'', JNull)], s, rt)"
| "next_loop wid capability (t # ts) s rt =
     (if capability = [] \<or> tk_task_type t = capability then
        (case claim_task wid capability (bs_queue s) rt of
           (None, q, rt) \<Rightarrow> next_loop wid capability ts (s\<lparr>bs_queue := q\<rparr>) rt
         | (Some c, q, rt) \<Rightarrow> ([(''task_id'', JStr (tk_task_id c)), (''job_id'', JStr (tk_job_id c)), (''task_type'', JStr (tk_task_type c)),
              (''payload'', JObj (tk_payload c))], set_busy wid (tk_task_id c) (s\<lparr>bs_queue := q\<rparr>), rt))
      else next_loop wid capability ts s rt)"

definition next_task :: "string option \<Rightarrow> string option \<Rightarrow> brain_server \<Rightarrow> runtime \<Rightarrow> json dict \<times> brain_server \<times> runtime" where
  "next_task wid capability s rt =
     (let wid = field wid []; capability = field capability [];
          (s, rt) = (if wid \<in> set (dkeys (bs_workers s)) then let (now, rt) = time_time rt in
              (upd_worker wid (\<lambda>w. w\<lparr>bw_last_heartbeat := now\<rparr>) s, rt) else (s, rt))
      in next_loop wid capability (list_pending (bs_queue s)) s rt)"

text \<open>
  The two halves of the same request, cut where \<open>claim_task\<close> has found a pending task and not yet assigned it: the server is run with
  \<open>threaded=True\<close> and no lock is held at that point.
\<close>

definition next_start :: "string option \<Rightarrow> string option \<Rightarrow> brain_server \<Rightarrow> runtime \<Rightarrow> string option \<times> brain_server \<times> runtime" where
  "next_start wid capability s rt =
     (let wid = field wid []; capability = field capability [];
          (s, rt) = (if wid \<in> set (dkeys (bs_workers s)) then let (now, rt) = time_time rt in
              (upd_worker wid (\<lambda>w. w\<lparr>bw_last_heartbeat := now\<rparr>) s, rt) else (s, rt))
      in (claim_search capability (bs_queue s), s, rt))"

definition next_finish :: "string \<Rightarrow> string \<Rightarrow> brain_server \<Rightarrow> runtime \<Rightarrow> json dict \<times> brain_server \<times> runtime" where
  "next_finish wid k s rt =
     (case claim_take wid k (bs_queue s) rt of
        (None, q, rt) \<Rightarrow> ([(''task'', JNull)], s\<lparr>bs_queue := q\<rparr>, rt)
      | (Some c, q, rt) \<Rightarrow> ([(''task_id'', JStr (tk_task_id c)), (''job_id'', JStr (tk_job_id c)), (''task_type'', JStr (tk_task_type c)),
          (''payload'', JObj (tk_payload c))], set_busy wid (tk_task_id c) (s\<lparr>bs_queue := q\<rparr>), rt))"

text \<open>\<open>task.assigned_worker or "unknown"\<close>.\<close>

definition worker_or_unknown :: "task_split \<Rightarrow> string" where
  "worker_or_unknown t = (case tk_assigned_worker t of None \<Rightarrow> ''unknown'' | Some w \<Rightarrow> if w = [] then ''unknown'' else w)"

text \<open>The tasks of a job that have a result; an empty result counts as none.\<close>

definition collect_outputs :: "string list \<Rightarrow> job_queue \<Rightarrow> spec_out list" where
  "collect_outputs tids q = concat (map (\<lambda>tid. case dget (jq_tasks q) tid of None \<Rightarrow> []
     | Some t \<Rightarrow> (case tk_result t of None \<Rightarrow> [] | Some r \<Rightarrow> if r = [] then []
         else [\<lparr>so_worker_id = worker_or_unknown t, so_role = tk_task_type t, so_task_id = tid, so_result = JObj r\<rparr>])) tids)"

text \<open>\<open>_finalize_job\<close>: a lock that is already held is waited for, and \<open>threading.Lock\<close> does not know its holder.\<close>

definition finalize_job :: "string \<Rightarrow> brain_server \<Rightarrow> runtime \<Rightarrow> unit reply \<times> brain_server \<times> runtime" where
  "finalize_job jid s rt =
     (if bs_job_lock s then (Blocked, s, rt)
      else case dget (bs_jobs s) jid of None \<Rightarrow> (Replied (), s, rt)
      | Some j \<Rightarrow> let outs = collect_outputs (bj_tasks j) (bs_queue s) in
        (case judge_all outs [] (bs_judge s) rt of (Inl x, jb, rt) \<Rightarrow> (Raised x, s\<lparr>bs_judge := jb\<rparr>, rt)
         | (Inr scores, jb, rt) \<Rightarrow> (case synthesize (bj_plan j) outs scores (bs_synthesizer s) rt of
             (Inl x, h, rt) \<Rightarrow> (Raised x, s\<lparr>bs_judge := jb, bs_synthesizer := h\<rparr>, rt)
           | (Inr final, h, rt) \<Rightarrow> (Replied (), s\<lparr>bs_judge := jb, bs_synthesizer := h,
               bs_jobs := dset jid (j\<lparr>bj_final_artifact := Some final, bj_results := outs\<rparr>) (bs_jobs s)\<rparr>, rt))))"

text \<open>\<open>_check_job_completion\<close> calls it with the lock in its hand, which is released unless the call waits forever.\<close>

definition check_job_completion :: "string \<Rightarrow> brain_server \<Rightarrow> runtime \<Rightarrow> unit reply \<times> brain_server \<times> runtime" where
  "check_job_completion tid s rt =
     (case dget (jq_tasks (bs_queue s)) tid of None \<Rightarrow> (Replied (), s, rt)
      | Some t \<Rightarrow> let jid = tk_job_id t in
        if bs_job_lock s then (Blocked, s, rt)
        else case dget (bs_jobs s) jid of None \<Rightarrow> (Replied (), s, rt)
        | Some j \<Rightarrow> if \<not> jr_done (get_job_status jid (bs_queue s)) then (Replied (), s, rt)
            else let (now, rt) = time_time rt;
                s = s\<lparr>bs_jobs := dset jid (j\<lparr>bj_job_status := ''completed'', bj_completed_at := Some now\<rparr>) (bs_jobs s), bs_job_lock := True\<rparr>;
                (r, s, rt) = finalize_job jid s rt
              in (r, if r = Blocked then s else s\<lparr>bs_job_lock := False\<rparr>, rt))"

definition bs_submit_result ::
  "string option \<Rightarrow> string option \<Rightarrow> json dict option \<Rightarrow> brain_server \<Rightarrow> runtime \<Rightarrow> string reply \<times> brain_server \<times> runtime" where
  "bs_submit_result wid tid result s rt =
     (let wid = field wid []; tid = field tid []; (ok, q, rt) = submit_result tid wid (field result []) (bs_queue s) rt;
          s = set_idle wid (s\<lparr>bs_queue := q\<rparr>)
      in if \<not> ok then (Refused 400 ''task not found or not assigned'', s, rt)
         else case check_job_completion tid s rt of
             (Replied u, s, rt) \<Rightarrow> (Replied tid, s, rt)
           | (Refused c e, s, rt) \<Rightarrow> (Refused c e, s, rt)
           | (Raised x, s, rt) \<Rightarrow> (Raised x, s, rt)
           | (Blocked, s, rt) \<Rightarrow> (Blocked, s, rt))"

section \<open>The polling client\<close>

record worker_client =
  wc_worker_id :: string
  wc_model :: string
  wc_role :: string
  wc_worker :: worker_node

text \<open>A request is answered with a status code, or fails.\<close>

definition registration :: "worker_client \<Rightarrow> json dict" where
  "registration c = [(''worker_id'', JStr (wc_worker_id c)), (''role'', JStr (wc_role c)), (''models'', jstrs [wc_model c]),
     (''memory_gb'', JFloat (wn_memory_gb (wc_worker c))), (''hostname'', JStr (wn_hostname (wc_worker c)))]"

definition client_register :: "worker_client \<Rightarrow> (json dict \<Rightarrow> int option) \<Rightarrow> bool" where
  "client_register c post = (post (registration c) = Some 200)"

definition client_heartbeat :: "worker_client \<Rightarrow> json dict" where
  "client_heartbeat c = [(''worker_id'', JStr (wc_worker_id c)), (''status'', JStr ''idle''), (''current_task'', JNull)]"

text \<open>\<open>items[0]\<close>.\<close>

fun first_item :: "json \<Rightarrow> json result" where
  "first_item (JList (x # xs)) = Inr x"
| "first_item (JStr (c # cs)) = Inr (JStr [c])"
| "first_item (JList []) = Inl IndexError"
| "first_item (JStr []) = Inl IndexError"
| "first_item (JObj d) = Inl (KeyError ''0'')"
| "first_item _ = Inl TypeError"

definition client_prompt :: "string \<Rightarrow> string \<Rightarrow> string" where
  "client_prompt role x = (if role = ''coder'' then ''Write code for: '' else if role = ''reviewer'' then ''Review and improve: ''
     else if role = ''tester'' then ''Write tests for: '' else if role = ''docs'' then ''Write documentation for: ''
     else if role = ''security'' then ''Security review of: '' else if role = ''planner'' then ''Create plan for: ''
     else if role = ''critic'' then ''Critique and score: '' else ''Task: '') @ x"

definition client_execute_task :: "machine \<Rightarrow> worker_client \<Rightarrow> json dict \<Rightarrow> json dict result" where
  "client_execute_task mc c payload =
     (let items = dget_default payload ''items'' (JList []) in
      rbind (if jtruthy items then first_item items else Inr (dget_default payload ''description'' (JStr []))) (\<lambda>x.
        run_prompt mc (wc_worker c) [(''prompt'', JStr (client_prompt (wc_role c) (json_text x))), (''model'', JStr (wc_model c))]))"

text \<open>
  \<open>task["task_id"]\<close>, \<open>task["payload"]\<close> and the work. The identifier is cut for printing, so it is a string or a list; the payload
  is read as an object.
\<close>

definition client_work :: "machine \<Rightarrow> worker_client \<Rightarrow> json \<Rightarrow> (json \<times> json dict) result" where
  "client_work mc c task = (case task of
     JObj d \<Rightarrow> (case dget d ''task_id'' of None \<Rightarrow> Inl (KeyError ''task_id'')
       | Some tid \<Rightarrow> (case dget d ''payload'' of None \<Rightarrow> Inl (KeyError ''payload'')
         | Some payload \<Rightarrow> if as_str tid = None \<and> as_list tid = None then Inl TypeError
             else (case as_obj payload of None \<Rightarrow> Inl AttributeError
               | Some p \<Rightarrow> rbind (client_execute_task mc c p) (\<lambda>r. Inr (tid, r)))))
   | _ \<Rightarrow> Inl TypeError)"

text \<open>
  \<open>poll_and_work\<close>: the value returned and the result that is posted, if any. The reply of the server is the parsed
  body, \<open>None\<close> when the request or the parsing fails; every exception ends in \<open>False\<close>.
\<close>

definition poll_and_work :: "machine \<Rightarrow> worker_client \<Rightarrow> json option \<Rightarrow> (json dict \<Rightarrow> int option) \<Rightarrow> bool \<times> json dict option" where
  "poll_and_work mc c answer post = (case answer \<bind> as_obj of None \<Rightarrow> (False, None)
     | Some data \<Rightarrow> (let task = dget_default data ''task'' JNull in
         if \<not> jtruthy task then (False, None)
         else case client_work mc c task of Inl x \<Rightarrow> (False, None)
           | Inr (tid, r) \<Rightarrow> (let req = [(''worker_id'', JStr (wc_worker_id c)), (''task_id'', tid), (''result'', JObj r)]
               in (post req \<noteq> None, Some req))))"

section \<open>One request\<close>

inductive server_step :: "brain_server \<times> runtime \<Rightarrow> brain_server \<times> runtime \<Rightarrow> bool" where
  srv_health: "health s rt = (r, rt') \<Longrightarrow> server_step (s, rt) (s, rt')"
| srv_register: "bs_register_worker wid role models mem host s rt = (r, s', rt') \<Longrightarrow> server_step (s, rt) (s', rt')"
| srv_list: "list_workers s rt = (r, s', rt') \<Longrightarrow> server_step (s, rt) (s', rt')"
| srv_heartbeat: "worker_heartbeat wid st ct s rt = (r, s', rt') \<Longrightarrow> server_step (s, rt) (s', rt')"
| srv_submit: "bs_submit_job prompt ty email s rt = (r, s', rt') \<Longrightarrow> server_step (s, rt) (s', rt')"
| srv_next: "next_task wid capability s rt = (d, s', rt') \<Longrightarrow> server_step (s, rt) (s', rt')"
| srv_result: "bs_submit_result wid tid result s rt = (r, s', rt') \<Longrightarrow> server_step (s, rt) (s', rt')"

text \<open>
  Requests that overlap in their claims. Besides the state there are the claims in flight, each the worker and the task it has found
  and not yet taken; \<open>ov_again\<close> is the search of a handler that goes on looking and the one inside \<open>_dispatch_tasks\<close>.
\<close>

type_synonym claims = "(string \<times> string) list"

inductive overlap_step :: "brain_server \<times> runtime \<times> claims \<Rightarrow> brain_server \<times> runtime \<times> claims \<Rightarrow> bool" where
  ov_request: "server_step (s, rt) (s', rt') \<Longrightarrow> overlap_step (s, rt, F) (s', rt', F)"
| ov_search: "next_start wid capability s rt = (Some k, s', rt') \<Longrightarrow> overlap_step (s, rt, F) (s', rt', (field wid [], k) # F)"
| ov_again: "claim_search capability (bs_queue s) = Some k \<Longrightarrow> overlap_step (s, rt, F) (s, rt, (wid, k) # F)"
| ov_take: "(wid, k) \<in> set F \<Longrightarrow> next_finish wid k s rt = (d, s', rt') \<Longrightarrow> overlap_step (s, rt, F) (s', rt', remove1 (wid, k) F)"

lemma server_run_overlap: "server_step\<^sup>*\<^sup>* (s, rt) (s', rt') \<Longrightarrow> overlap_step\<^sup>*\<^sup>* (s, rt, F) (s', rt', F)"
proof (induction rule: rtranclp_induct2)
  case (step u r u' r')
  then show ?case using ov_request by (metis rtranclp.rtrancl_into_rtrancl)
qed simp

lemma upd_worker_simps [simp]:
  "bs_queue (upd_worker wid f s) = bs_queue s" "bs_jobs (upd_worker wid f s) = bs_jobs s" "bs_job_lock (upd_worker wid f s) = bs_job_lock s"
  "bs_queue (set_busy wid tid s) = bs_queue s" "bs_jobs (set_busy wid tid s) = bs_jobs s" "bs_job_lock (set_busy wid tid s) = bs_job_lock s"
  "bs_queue (set_idle wid s) = bs_queue s" "bs_jobs (set_idle wid s) = bs_jobs s" "bs_job_lock (set_idle wid s) = bs_job_lock s"
  by (simp_all add: upd_worker_def set_busy_def set_idle_def split: option.splits)

lemma search_finds_pending:
  assumes "t \<in> set (list_pending q)" and "c = [] \<or> tk_task_type t = c"
  shows "claim_search c q \<noteq> None"
proof -
  obtain k where "(k, t) \<in> set (jq_tasks q)" "claimable c t" using assms by (auto simp: list_pending_def claimable_def)
  then have "find (\<lambda>(k, t). claimable c t) (jq_tasks q) \<noteq> None" by (auto simp: find_None_iff)
  then show ?thesis by (simp add: claim_search_def)
qed

lemma next_loop_halves:
  assumes "distinct (dkeys (jq_tasks (bs_queue s)))" and "set ts \<subseteq> set (list_pending (bs_queue s))"
    and "\<And>k. claim_search c (bs_queue s) = Some k \<Longrightarrow> \<exists>t \<in> set ts. c = [] \<or> tk_task_type t = c"
  shows "next_loop w c ts s rt = (case claim_search c (bs_queue s) of None \<Rightarrow> ([(''task'', JNull)], s, rt) | Some k \<Rightarrow> next_finish w k s rt)"
  using assms(2,3)
proof (induction ts)
  case Nil
  then show ?case by (cases "claim_search c (bs_queue s)") auto
next
  case (Cons t ts)
  show ?case
  proof (cases "c = [] \<or> tk_task_type t = c")
    case True
    then obtain k where k: "claim_search c (bs_queue s) = Some k" using search_finds_pending [of t "bs_queue s" c] Cons.prems(1) by auto
    then obtain u where "dget (jq_tasks (bs_queue s)) k = Some u" using claim_search_pending assms(1) by blast
    with k True show ?thesis by (simp add: claim_task_halves [OF assms(1)] next_finish_def claim_take_def time_time_def Let_def)
  next
    case False
    with Cons.prems have "next_loop w c ts s rt = (case claim_search c (bs_queue s) of None \<Rightarrow> ([(''task'', JNull)], s, rt) | Some k \<Rightarrow> next_finish w k s rt)"
      by (intro Cons.IH) auto
    with False show ?thesis by simp
  qed
qed

text \<open>A request that nobody interrupts is its two halves.\<close>

lemma next_task_halves:
  assumes "distinct (dkeys (jq_tasks (bs_queue s)))"
  shows "next_task wid capability s rt = (case next_start wid capability s rt of
      (None, s', rt') \<Rightarrow> ([(''task'', JNull)], s', rt') | (Some k, s', rt') \<Rightarrow> next_finish (field wid []) k s' rt')"
proof -
  obtain f u r where f: "next_start wid capability s rt = (f, u, r)" by (rule prod_cases3)
  have u: "bs_queue u = bs_queue s" "f = claim_search (field capability []) (bs_queue s)"
    using f by (auto simp: next_start_def time_time_def Let_def split: if_splits)
  have "next_task wid capability s rt = next_loop (field wid []) (field capability []) (list_pending (bs_queue s)) u r"
    using f by (auto simp: next_task_def next_start_def time_time_def Let_def split: if_splits)
  also have "\<dots> = (case f of None \<Rightarrow> ([(''task'', JNull)], u, r) | Some k \<Rightarrow> next_finish (field wid []) k u r)"
  proof -
    have "\<exists>t \<in> set (list_pending (bs_queue u)). c = [] \<or> tk_task_type t = c" if "claim_search c (bs_queue u) = Some k" for c k
      using claim_search_pending [OF that] assms dget_value [of "jq_tasks (bs_queue u)" k] u by (auto simp: list_pending_def claimable_def)
    then show ?thesis using assms u by (subst next_loop_halves) simp_all
  qed
  finally show ?thesis by (simp add: f split: option.split)
qed

text \<open>The tasks of the server's jobs: one per subtask, under an identifier of its own.\<close>

definition step_task :: "subtask \<Rightarrow> runtime \<Rightarrow> task_split" where
  "step_task t rt = new_task (''job-'' @ take 12 (rt_uuid rt)) 0 (sb_role t)
     [(''item'', JStr (sb_description t)), (''index'', JInt 0), (''total'', JInt 1)] (estimate_cost (sb_role t)) (rt_now rt)"

abbreviation rt_next :: "runtime \<Rightarrow> runtime" where
  "rt_next rt \<equiv> rt\<lparr>clock_pos := Suc (clock_pos rt), uuid_pos := Suc (uuid_pos rt)\<rparr>"

lemma submit_job_subtask:
  "submit_job (sb_role t) [(''items'', jstrs [sb_description t]), (''description'', d), (''plan'', p)] ''by_item'' q rt =
   (Inr [step_task t rt], jq_persist (put_task (tk_task_id (step_task t rt)) (step_task t rt) q), rt_next rt)"
  by (simp add: submit_job_def split_job_def split_by_def jstrs_def uuid4_hex_def time_time_def Let_def step_task_def new_task_def put_task_def)

text \<open>Called with the lock in hand it waits forever.\<close>

lemma finalize_locked: "bs_job_lock s \<Longrightarrow> finalize_job jid s rt = (Blocked, s, rt)"
  by (simp add: finalize_job_def)

text \<open>
  What a request does to the queue is a sequence of four calls: reading the clock, claiming a task, storing a result and
  submitting a subtask. A property of queue and runtime that each of them keeps is kept by every request.
\<close>

locale queue_invariant =
  fixes I :: "job_queue \<Rightarrow> runtime \<Rightarrow> bool"
  assumes tick: "I q rt \<Longrightarrow> I q (rt_tick rt)"
    and claim: "I q rt \<Longrightarrow> claim_task wid capability q rt = (c, q', rt') \<Longrightarrow> I q' rt'"
    and result: "I q rt \<Longrightarrow> submit_result tid wid r q rt = (ok, q', rt') \<Longrightarrow> I q' rt'"
    and subtask: "I q rt \<Longrightarrow> I (jq_persist (put_task (tk_task_id (step_task t rt)) (step_task t rt) q)) (rt_next rt)"
begin

lemma tick2: "I q rt \<Longrightarrow> I q (rt\<lparr>clock_pos := Suc (Suc (clock_pos rt))\<rparr>)"
  using tick [OF tick, of q rt] by simp

lemma submit_subtasks: "I q rt \<Longrightarrow> submit_subtasks p ts q rt = (r, q', rt') \<Longrightarrow> I q' rt'"
proof (induction ts arbitrary: q rt r)
  case (Cons t ts)
  from Cons.prems(2) obtain r' where "submit_subtasks p ts (jq_persist (put_task (tk_task_id (step_task t rt)) (step_task t rt) q)) (rt_next rt) = (r', q', rt')"
    by (auto simp: submit_job_subtask split: prod.splits sum.splits)
  from Cons.IH [OF subtask [OF Cons.prems(1)] this] show ?case .
qed simp

lemma idle_workers: "I q rt \<Longrightarrow> I q (snd (idle_workers ws rt))"
  by (induction ws arbitrary: rt) (auto simp: time_time_def Let_def case_prod_beta intro!: tick)

lemma dispatch_task: "I (bs_queue s) rt \<Longrightarrow> dispatch_task k ty ws s rt = (s', rt') \<Longrightarrow> I (bs_queue s') rt'"
proof (induction ws arbitrary: s rt)
  case (Cons w ws)
  obtain c q r where c: "claim_task (bw_worker_id w) ty (bs_queue s) rt = (c, q, r)" by (cases "claim_task (bw_worker_id w) ty (bs_queue s) rt")
  from claim [OF Cons.prems(1) c] have "I q r" .
  with Cons.prems Cons.IH [of "s\<lparr>bs_queue := q\<rparr>" r] Cons.IH [of s rt] c show ?case by (cases c) (auto split: if_splits)
qed simp

lemma dispatch_all: "I (bs_queue s) rt \<Longrightarrow> dispatch_all ts ws s rt = (s', rt') \<Longrightarrow> I (bs_queue s') rt'"
proof (induction ts arbitrary: s rt)
  case (Cons p ts)
  obtain k t where p: "p = (k, t)" by (cases p)
  obtain u v where u: "dispatch_task k (tk_task_type t) ws s rt = (u, v)" by (cases "dispatch_task k (tk_task_type t) ws s rt")
  with Cons.prems p have "dispatch_all ts ws u v = (s', rt')" by simp
  with Cons.IH dispatch_task [OF Cons.prems(1) u] show ?case by blast
qed simp

lemma dispatch_tasks: "I (bs_queue s) rt \<Longrightarrow> dispatch_tasks s rt = (s', rt') \<Longrightarrow> I (bs_queue s') rt'"
  by (rule dispatch_all [OF idle_workers]) (simp_all add: dispatch_tasks_def case_prod_beta)

lemma router_plan: "I q rt \<Longrightarrow> router_plan models prompt rt = (r, rt') \<Longrightarrow> I q rt'"
  using tick [of q rt] tick2 [of q rt] by (auto simp: router_plan_def time_time_def Let_def split: sum.splits)

lemma bs_submit_job: "I (bs_queue s) rt \<Longrightarrow> bs_submit_job prompt ty email s rt = (r, s', rt') \<Longrightarrow> I (bs_queue s') rt'"
proof -
  assume I: "I (bs_queue s) rt" and call: "bs_submit_job prompt ty email s rt = (r, s', rt')"
  obtain pl v where v: "router_plan (bs_router s) (field prompt []) rt = (pl, v)" by (cases "router_plan (bs_router s) (field prompt []) rt")
  note Iv = router_plan [OF I v]
  show ?thesis
  proof (cases "field prompt [] = [] \<or> (\<exists>x. pl = Inl x)")
    case True
    then show ?thesis using call I Iv v by (auto simp: bs_submit_job_def Let_def split: if_splits)
  next
    case False
    then obtain p where p: "pl = Inr p" by (cases pl) auto
    obtain ts q x where x: "submit_subtasks p (pl_subtasks p) (bs_queue s) v = (ts, q, x)" by (cases "submit_subtasks p (pl_subtasks p) (bs_queue s) v")
    note Ix = submit_subtasks [OF Iv x]
    from False call v p x tick [OF Ix] Ix show ?thesis
      by (cases ts) (auto simp: bs_submit_job_def time_time_def Let_def split: if_splits prod.splits dest: dispatch_tasks [rotated])
  qed
qed

lemma next_loop: "I (bs_queue s) rt \<Longrightarrow> next_loop wid capability ts s rt = (d, s', rt') \<Longrightarrow> I (bs_queue s') rt'"
proof (induction ts arbitrary: s rt)
  case (Cons t ts)
  obtain c q r where c: "claim_task wid capability (bs_queue s) rt = (c, q, r)" by (cases "claim_task wid capability (bs_queue s) rt")
  from claim [OF Cons.prems(1) c] have "I q r" .
  with Cons.prems Cons.IH [of "s\<lparr>bs_queue := q\<rparr>" r] Cons.IH [of s rt] c show ?case by (cases c) (auto split: if_splits)
qed simp

lemma next_task: "I (bs_queue s) rt \<Longrightarrow> next_task wid capability s rt = (d, s', rt') \<Longrightarrow> I (bs_queue s') rt'"
  using tick [of "bs_queue s" rt] by (auto simp: next_task_def time_time_def Let_def split: if_splits elim!: next_loop [rotated])

lemma check_job_completion: "I (bs_queue s) rt \<Longrightarrow> check_job_completion tid s rt = (r, s', rt') \<Longrightarrow> I (bs_queue s') rt'"
  using tick [of "bs_queue s" rt] by (auto simp: check_job_completion_def finalize_locked time_time_def Let_def split: option.splits if_splits)

lemma bs_submit_result: "I (bs_queue s) rt \<Longrightarrow> bs_submit_result wid tid r s rt = (x, s', rt') \<Longrightarrow> I (bs_queue s') rt'"
  by (auto simp: bs_submit_result_def Let_def split: if_splits prod.splits reply.splits dest!: result [rotated] elim!: check_job_completion [rotated])

lemma server_step: "server_step x y \<Longrightarrow> I (bs_queue (fst x)) (snd x) \<Longrightarrow> I (bs_queue (fst y)) (snd y)"
proof (induction rule: server_step.induct)
  case (srv_submit prompt ty email s rt r s' rt')
  then show ?case using bs_submit_job by simp
next
  case (srv_next wid capability s rt d s' rt')
  then show ?case using next_task by simp
next
  case (srv_result wid tid result s rt r s' rt')
  then show ?case using bs_submit_result by simp
qed (use tick tick2 in \<open>auto simp: health_def bs_register_worker_def list_workers_def worker_heartbeat_def time_time_def Let_def split: if_splits\<close>)

lemma server_run: "server_step\<^sup>*\<^sup>* x y \<Longrightarrow> I (bs_queue (fst x)) (snd x) \<Longrightarrow> I (bs_queue (fst y)) (snd y)"
  by (induction rule: rtranclp_induct) (auto intro: server_step)

end

section \<open>Invariants of the queue\<close>

text \<open>The tasks of the queue belong to jobs that the queue has named.\<close>

definition job_named :: "job_queue \<Rightarrow> bool" where
  "job_named q \<longleftrightarrow> (\<forall>t \<in> set (dvalues (jq_tasks q)). take 4 (tk_job_id t) = ''job-'')"

lemma job_named_put: "job_named q \<Longrightarrow> take 4 (tk_job_id t) = ''job-'' \<Longrightarrow> job_named (put_task k t q)"
  using dvalues_dset_subset [of k t "jq_tasks q"] unfolding job_named_def put_task_simps by blast

lemma job_named_same: "jq_tasks q' = jq_tasks q \<Longrightarrow> job_named q' = job_named q"
  by (simp add: job_named_def)

lemma job_named_persist [simp]: "job_named (jq_persist q) = job_named q"
  by (simp add: job_named_def)

lemma job_namedD: "job_named q \<Longrightarrow> dget (jq_tasks q) k = Some t \<Longrightarrow> take 4 (tk_job_id t) = ''job-''"
  using dget_value [of "jq_tasks q" k t] unfolding job_named_def by blast

interpretation named: queue_invariant "\<lambda>q rt. job_named q"
proof
  fix q :: job_queue and rt wid capability c q' rt'
  assume q: "job_named q" and call: "claim_task wid capability q rt = (c, q', rt')"
  show "job_named q'"
  proof (cases "find (\<lambda>(k, t). claimable capability t) (jq_tasks q)")
    case (Some p)
    obtain k t where p: "p = (k, t)" by (cases p)
    have "t \<in> set (dvalues (jq_tasks q))" using find_claimable [OF Some [unfolded p]] by force
    with q have "take 4 (tk_job_id t) = ''job-''" unfolding job_named_def by blast
    with q call Some p show ?thesis by (auto simp: claim_task_def time_time_def Let_def intro!: job_named_put)
  qed (use q call in \<open>simp add: claim_task_def\<close>)
next
  fix q :: job_queue and rt tid wid r ok q' rt'
  assume q: "job_named q" and call: "submit_result tid wid r q rt = (ok, q', rt')"
  show "job_named q'"
  proof (cases "dget (jq_tasks q) tid")
    case (Some t)
    define u where "u = t\<lparr>tk_result := Some r, tk_proof_hash := Some (compute_proof_hash (t\<lparr>tk_result := Some r\<rparr>)), tk_status := COMPLETED, tk_completed_at := Some (rt_now rt)\<rparr>"
    have "job_named (put_task tid u q)" using job_namedD [OF q Some] by (intro job_named_put [OF q]) (simp add: u_def)
    with q call Some show ?thesis
      by (auto simp: submit_result_def time_time_def Let_def u_def job_named_def split: if_splits)
  qed (use q call in \<open>simp add: submit_result_def\<close>)
next
  fix q :: job_queue and t rt
  assume "job_named q"
  then show "job_named (jq_persist (put_task (tk_task_id (step_task t rt)) (step_task t rt) q))"
    by (simp add: job_named_put step_task_def new_task_def)
qed

text \<open>
  A task is pending exactly as long as it has no worker. This holds for overlapping claims too, where a task that has a result may be
  assigned again.
\<close>

definition assigned_ok :: "job_queue \<Rightarrow> bool" where
  "assigned_ok q \<longleftrightarrow> distinct (dkeys (jq_tasks q)) \<and> (\<forall>k t. dget (jq_tasks q) k = Some t \<longrightarrow>
     tk_task_id t = k \<and> (tk_status t = PENDING \<longleftrightarrow> tk_assigned_worker t = None))"

lemma assigned_okD:
  "assigned_ok q \<Longrightarrow> dget (jq_tasks q) k = Some t \<Longrightarrow> tk_task_id t = k \<and> (tk_status t = PENDING \<longleftrightarrow> tk_assigned_worker t = None)"
  by (simp add: assigned_ok_def)

lemma assigned_ok_distinct: "assigned_ok q \<Longrightarrow> distinct (dkeys (jq_tasks q))"
  by (simp add: assigned_ok_def)

lemma assigned_ok_put:
  assumes "assigned_ok q" and "tk_task_id t = k" and "tk_status t = PENDING \<longleftrightarrow> tk_assigned_worker t = None"
  shows "assigned_ok (put_task k t q)"
  using assms by (auto simp: assigned_ok_def)

lemma assigned_ok_persist [simp]: "assigned_ok (jq_persist q) = assigned_ok q"
  by (simp add: assigned_ok_def)

lemma assigned_ok_same: "jq_tasks q' = jq_tasks q \<Longrightarrow> assigned_ok q' = assigned_ok q"
  by (simp add: assigned_ok_def)

lemma assigned_ok_init: "assigned_ok (job_queue_init None)"
  by (simp add: assigned_ok_def job_queue_init_def jq_load_def)

definition kept :: "string \<Rightarrow> string \<Rightarrow> job_queue \<Rightarrow> bool" where
  "kept tid w q \<longleftrightarrow> (\<exists>t. dget (jq_tasks q) tid = Some t \<and> tk_assigned_worker t = Some w)"

text \<open>What a call keeps: the invariant, and the workers of the tasks that have one, apart from those named.\<close>

definition steady :: "string set \<Rightarrow> job_queue \<Rightarrow> job_queue \<Rightarrow> bool" where
  "steady K q q' \<longleftrightarrow> assigned_ok q' \<and> (\<forall>tid w. tid \<notin> K \<longrightarrow> kept tid w q \<longrightarrow> kept tid w q')"

lemma steady_same: "assigned_ok q \<Longrightarrow> steady K q q"
  by (simp add: steady_def)

lemma steady_put:
  assumes "assigned_ok q" and "tk_task_id t = k" and "tk_status t = PENDING \<longleftrightarrow> tk_assigned_worker t = None"
    and "k \<in> K \<or> (\<forall>u. dget (jq_tasks q) k = Some u \<longrightarrow> tk_assigned_worker u = None \<or> tk_assigned_worker u = tk_assigned_worker t)"
  shows "steady K q (jq_persist (put_task k t q))"
  using assms assigned_ok_put [OF assms(1-3)] by (auto simp: steady_def kept_def)

lemma steady_claim:
  assumes "claim_task wid capability q rt = (c, q', rt')" and "assigned_ok q"
  shows "steady K q q'"
proof (cases "find (\<lambda>(k, t). claimable capability t) (jq_tasks q)")
  case (Some p)
  obtain k t where p: "p = (k, t)" by (cases p)
  from find_claimable [OF Some [unfolded p]] assigned_ok_distinct [OF assms(2)]
  have t: "dget (jq_tasks q) k = Some t" "tk_status t = PENDING" by (auto simp: claimable_def)
  with assigned_okD [OF assms(2) t(1)] assms Some p show ?thesis
    by (auto simp: claim_task_def time_time_def Let_def intro!: steady_put)
qed (use assms in \<open>simp add: claim_task_def steady_same\<close>)

lemma steady_take:
  assumes "claim_take wid k q rt = (c, q', rt')" and "assigned_ok q"
  shows "steady {k} q q'"
proof (cases "dget (jq_tasks q) k")
  case (Some t)
  with assigned_okD [OF assms(2) Some] assms show ?thesis
    by (auto simp: claim_take_def time_time_def Let_def intro!: steady_put)
qed (use assms in \<open>simp add: claim_take_def steady_same\<close>)

lemma steady_result:
  assumes "submit_result tid wid r q rt = (ok, q', rt')" and "assigned_ok q"
  shows "steady K q q'"
proof (cases "dget (jq_tasks q) tid")
  case (Some t)
  let ?t = "t\<lparr>tk_result := Some r, tk_proof_hash := Some (compute_proof_hash (t\<lparr>tk_result := Some r\<rparr>)), tk_status := COMPLETED, tk_completed_at := Some (rt_now rt)\<rparr>"
  have "steady K q (jq_persist (put_task tid ?t q))" if "tk_assigned_worker t = Some wid"
    using assigned_okD [OF assms(2) Some] that Some by (intro steady_put [OF assms(2)]) auto
  then have "steady K q q'" if "tk_assigned_worker t = Some wid" "jq_tasks q' = dset tid ?t (jq_tasks q)"
    using that by (simp add: steady_def kept_def assigned_ok_def)
  then show ?thesis
    using assms Some by (auto simp: submit_result_def time_time_def Let_def steady_same split: if_splits)
qed (use assms in \<open>simp add: submit_result_def steady_same\<close>)

text \<open>The tasks are numbered by the identifiers drawn so far.\<close>

definition task_key :: "runtime \<Rightarrow> nat \<Rightarrow> string" where
  "task_key rt i = ''job-'' @ take 12 (uuids rt i) @ ''-'' @ dec_nat 0"

definition numbered :: "job_queue \<Rightarrow> runtime \<Rightarrow> bool" where
  "numbered q rt \<longleftrightarrow> assigned_ok q \<and> set (dkeys (jq_tasks q)) \<subseteq> task_key rt ` {..< uuid_pos rt}"

text \<open>The first identifiers differ in their first twelve characters.\<close>

definition fresh_ids :: "nat \<Rightarrow> runtime \<Rightarrow> bool" where
  "fresh_ids n rt \<longleftrightarrow> inj_on (\<lambda>i. take 12 (uuids rt i)) {..< n}"

lemma claim_keys:
  assumes "claim_task wid capability q rt = (c, q', rt')"
  shows "fst ` set (jq_tasks q') = fst ` set (jq_tasks q)" "uuids rt' = uuids rt" "uuid_pos rt' = uuid_pos rt"
proof -
  have "insert k (fst ` set (jq_tasks q)) = fst ` set (jq_tasks q)" if "find (\<lambda>(k, t). claimable capability t) (jq_tasks q) = Some (k, t)" for k t
    using find_claimable [OF that] by force
  with assms show "fst ` set (jq_tasks q') = fst ` set (jq_tasks q)" "uuids rt' = uuids rt" "uuid_pos rt' = uuid_pos rt"
    by (clarsimp simp: claim_task_def time_time_def Let_def split: option.splits)+
qed

lemma result_keys:
  assumes "submit_result tid wid r q rt = (ok, q', rt')"
  shows "fst ` set (jq_tasks q') = fst ` set (jq_tasks q)" "uuids rt' = uuids rt" "uuid_pos rt' = uuid_pos rt"
proof -
  have "insert tid (fst ` set (jq_tasks q)) = fst ` set (jq_tasks q)" if "dget (jq_tasks q) tid = Some t" for t
    using dget_Some_key [OF that] by auto
  with assms show "fst ` set (jq_tasks q') = fst ` set (jq_tasks q)" "uuids rt' = uuids rt" "uuid_pos rt' = uuid_pos rt"
    by (clarsimp simp: submit_result_def time_time_def Let_def split: option.splits if_splits)+
qed

lemma subtask_fresh:
  assumes "numbered q rt" and "fresh_ids n rt" and "uuid_pos rt < n"
  shows "tk_task_id (step_task t rt) = task_key rt (uuid_pos rt) \<and> task_key rt (uuid_pos rt) \<notin> set (dkeys (jq_tasks q))"
proof -
  have "task_key rt (uuid_pos rt) \<noteq> task_key rt i" if "i < uuid_pos rt" for i
    using assms(2,3) that by (auto simp: fresh_ids_def task_key_def dest: inj_onD)
  with assms show ?thesis by (auto simp: numbered_def step_task_def new_task_def task_key_def)
qed

lemma subtask_steady:
  assumes "numbered q rt" and "fresh_ids n rt" and "uuid_pos rt < n"
  shows "steady K q (jq_persist (put_task (tk_task_id (step_task t rt)) (step_task t rt) q))"
proof -
  have "dget (jq_tasks q) (tk_task_id (step_task t rt)) = None"
    using subtask_fresh [OF assms, of t] dget_Some_key [of "jq_tasks q" "tk_task_id (step_task t rt)"]
    by (cases "dget (jq_tasks q) (tk_task_id (step_task t rt))") auto
  with assms(1) show ?thesis by (intro steady_put) (auto simp: numbered_def step_task_def new_task_def)
qed

text \<open>As long as the identifiers differ, the tasks are numbered and keep the workers \<open>A\<close> they have.\<close>

definition undisturbed :: "nat \<Rightarrow> (string \<times> string) set \<Rightarrow> job_queue \<Rightarrow> runtime \<Rightarrow> bool" where
  "undisturbed n A q rt \<longleftrightarrow> (fresh_ids n rt \<and> uuid_pos rt \<le> n \<longrightarrow> numbered q rt \<and> (\<forall>p \<in> A. kept (fst p) (snd p) q))"

lemma undisturbed_call:
  assumes "undisturbed n A q rt" and "assigned_ok q \<Longrightarrow> steady K q q'" and "fst ` A \<inter> K = {}" and "fst ` set (jq_tasks q') = fst ` set (jq_tasks q)"
    and "uuids rt' = uuids rt" and "uuid_pos rt' = uuid_pos rt"
  shows "undisturbed n A q' rt'"
proof -
  have "fresh_ids n rt' = fresh_ids n rt" "task_key rt' = task_key rt" using assms(5) by (simp_all add: fresh_ids_def task_key_def fun_eq_iff)
  then show ?thesis
    using assms(1,3,4,6) assms(2) by (fastforce simp: undisturbed_def numbered_def steady_def)
qed

interpretation kept: queue_invariant "undisturbed n A" for n A
proof
  fix q :: job_queue and rt :: runtime
  assume "undisturbed n A q rt"
  then show "undisturbed n A q (rt_tick rt)" by (simp add: undisturbed_def numbered_def fresh_ids_def task_key_def [abs_def])
next
  fix q rt wid capability c q' rt'
  assume q: "undisturbed n A q rt" and call: "claim_task wid capability q rt = (c, q', rt')"
  show "undisturbed n A q' rt'" by (rule undisturbed_call [OF q steady_claim [OF call, where K = "{}"] _ claim_keys [OF call]]) simp_all
next
  fix q rt tid wid r ok q' rt'
  assume q: "undisturbed n A q rt" and call: "submit_result tid wid r q rt = (ok, q', rt')"
  show "undisturbed n A q' rt'" by (rule undisturbed_call [OF q steady_result [OF call, where K = "{}"] _ result_keys [OF call]]) simp_all
next
  fix q t and rt :: runtime
  assume q: "undisturbed n A q rt"
  let ?q = "jq_persist (put_task (tk_task_id (step_task t rt)) (step_task t rt) q)"
  have "numbered ?q (rt_next rt) \<and> (\<forall>p \<in> A. kept (fst p) (snd p) ?q)" if "fresh_ids n (rt_next rt)" "uuid_pos (rt_next rt) \<le> n"
  proof -
    have ids: "fresh_ids n rt" "uuid_pos rt < n" using that by (simp_all add: fresh_ids_def)
    with q have old: "numbered q rt" "\<forall>p \<in> A. kept (fst p) (snd p) q" by (simp_all add: undisturbed_def)
    note step = subtask_steady [OF old(1) ids, of "{}" t]
    have "task_key (rt_next rt) = task_key rt" by (simp add: task_key_def fun_eq_iff)
    moreover have "set (dkeys (jq_tasks ?q)) \<subseteq> task_key rt ` {..< Suc (uuid_pos rt)}"
      using old(1) subtask_fresh [OF old(1) ids, of t] by (auto simp: numbered_def lessThan_Suc)
    ultimately show ?thesis
      using old step by (simp add: numbered_def steady_def)
  qed
  then show "undisturbed n A ?q (rt_next rt)" by (simp add: undisturbed_def)
qed

text \<open>Identifiers and clock are only read forwards.\<close>

interpretation ids: queue_invariant "\<lambda>q rt. uuids rt = us \<and> clock rt = ck \<and> m \<le> uuid_pos rt \<and> n \<le> clock_pos rt" for us ck m n
  by unfold_locales
    (auto simp: claim_task_def submit_result_def time_time_def Let_def split: option.splits if_splits)

lemma run_ids:
  assumes "server_step\<^sup>*\<^sup>* (s, rt) (s', rt')"
  shows "uuids rt' = uuids rt" "uuid_pos rt \<le> uuid_pos rt'"
  using ids.server_run [OF assms, of "uuids rt" "clock rt" "uuid_pos rt" "clock_pos rt"] by simp_all

lemma run_undisturbed:
  assumes "server_step\<^sup>*\<^sup>* (brain_server_init None, rt0) (s, rt)" and "fresh_ids n rt" and "uuid_pos rt \<le> n"
  shows "numbered (bs_queue s) rt"
proof -
  have "undisturbed n {} (bs_queue (brain_server_init None)) rt0"
    by (simp add: undisturbed_def numbered_def brain_server_init_def assigned_ok_init) (simp add: job_queue_init_def jq_load_def)
  then have "undisturbed n {} (bs_queue s) rt" using kept.server_run [OF assms(1)] by simp
  with assms(2,3) show ?thesis by (simp add: undisturbed_def)
qed

section \<open>Delivering a task\<close>

lemma claim_None: "claim_task wid capability q rt = (None, q', rt') \<Longrightarrow> q' = q \<and> rt' = rt"
  by (auto simp: claim_task_def time_time_def Let_def split: option.splits)

lemma claim_Some:
  assumes "claim_task wid capability q rt = (Some c, q', rt')"
  obtains k t where "(k, t) \<in> set (jq_tasks q)" "claimable capability t" "tk_task_id c = tk_task_id t"
  using assms find_claimable [of capability "jq_tasks q"] by (auto simp: claim_task_def time_time_def Let_def split: option.splits)

lemma next_loop_task:
  assumes "next_loop wid capability ts s rt = (d, s', rt')" and "dget d ''task_id'' = Some (JStr tid)"
  shows "\<exists>k t. (k, t) \<in> set (jq_tasks (bs_queue s)) \<and> tk_status t = PENDING \<and> tk_task_id t = tid"
  using assms
proof (induction ts arbitrary: rt)
  case (Cons t ts)
  show ?case
  proof (cases "capability = [] \<or> tk_task_type t = capability")
    case True
    obtain c q r where c: "claim_task wid capability (bs_queue s) rt = (c, q, r)" by (cases "claim_task wid capability (bs_queue s) rt")
    show ?thesis
    proof (cases c)
      case None
      with Cons True c claim_None [of wid capability "bs_queue s" rt q r] show ?thesis by auto
    next
      case (Some x)
      with c have "claim_task wid capability (bs_queue s) rt = (Some x, q, r)" by simp
      then show ?thesis
      proof (rule claim_Some)
        fix k t' assume "(k, t') \<in> set (jq_tasks (bs_queue s))" "claimable capability t'" "tk_task_id x = tk_task_id t'"
        moreover from this(3) Cons.prems True c Some have "tk_task_id t' = tid" by auto
        ultimately show ?thesis unfolding claimable_def by blast
      qed
    qed
  qed (use Cons in auto)
qed auto

lemma next_task_loop:
  assumes "next_task wid capability s rt = (d, s', rt')"
  obtains s0 rt0 where "bs_queue s0 = bs_queue s"
    "next_loop (field wid []) (field capability []) (list_pending (bs_queue s)) s0 rt0 = (d, s', rt')"
proof (cases "field wid [] \<in> set (dkeys (bs_workers s))")
  case True
  then show ?thesis using assms that [of "upd_worker (field wid []) (\<lambda>w. w\<lparr>bw_last_heartbeat := rt_now rt\<rparr>) s" "rt_tick rt"]
    by (simp add: next_task_def time_time_def Let_def)
qed (use assms that [of s rt] in \<open>simp add: next_task_def\<close>)

text \<open>
  The tasks \<open>A\<close> keep their workers whatever overlaps, as long as nobody had found them before they were taken.
\<close>

definition untouched :: "nat \<Rightarrow> (string \<times> string) set \<Rightarrow> brain_server \<times> runtime \<times> claims \<Rightarrow> bool" where
  "untouched n A x \<longleftrightarrow> (let (s, rt, F) = x in undisturbed n A (bs_queue s) rt \<and>
     (fresh_ids n rt \<and> uuid_pos rt \<le> n \<longrightarrow> fst ` A \<inter> snd ` set F = {}))"

lemma next_start_effect:
  assumes "next_start wid capability s rt = (k, s', rt')"
  shows "bs_queue s' = bs_queue s" "bs_jobs s' = bs_jobs s" "bs_job_lock s' = bs_job_lock s" "rt' = rt \<or> rt' = rt_tick rt"
    "k = claim_search (field capability []) (bs_queue s)"
  using assms by (auto simp: next_start_def time_time_def Let_def split: if_splits)

lemma next_finish_effect:
  assumes "next_finish wid k s rt = (d, s', rt')"
  obtains c where "claim_take wid k (bs_queue s) rt = (c, bs_queue s', rt')" "bs_jobs s' = bs_jobs s" "bs_job_lock s' = bs_job_lock s"
    "dget d ''task_id'' = map_option (\<lambda>t. JStr (tk_task_id t)) c"
  using assms by (auto simp: next_finish_def split: prod.splits option.splits)

lemma take_keys:
  assumes "claim_take wid k q rt = (c, q', rt')"
  shows "fst ` set (jq_tasks q') = fst ` set (jq_tasks q)" "uuids rt' = uuids rt" "uuid_pos rt' = uuid_pos rt"
proof -
  have "insert k (fst ` set (jq_tasks q)) = fst ` set (jq_tasks q)" if "dget (jq_tasks q) k = Some t" for t
    using dget_Some_key [OF that] by auto
  with assms show "fst ` set (jq_tasks q') = fst ` set (jq_tasks q)" "uuids rt' = uuids rt" "uuid_pos rt' = uuid_pos rt"
    by (clarsimp simp: claim_take_def time_time_def Let_def split: option.splits)+
qed

text \<open>What a search finds has no worker.\<close>

lemma search_finds_free:
  assumes "claim_search capability q = Some k" and "assigned_ok q"
  shows "\<not> kept k w q"
  using claim_search_pending [OF assms(1) assigned_ok_distinct [OF assms(2)]] assigned_okD [OF assms(2)]
  by (force simp: kept_def claimable_def)

lemma untouched_step: "overlap_step x y \<Longrightarrow> untouched n A x \<Longrightarrow> untouched n A y"
proof (induction rule: overlap_step.induct)
  case (ov_request s rt s' rt' F)
  have "uuids rt' = uuids rt" "uuid_pos rt \<le> uuid_pos rt'" using run_ids [of s rt s' rt'] ov_request(1) by auto
  moreover have "undisturbed n A (bs_queue s') rt'" using kept.server_step [OF ov_request(1), of n A] ov_request(2) by (simp add: untouched_def)
  ultimately show ?case using ov_request(2) by (simp add: untouched_def fresh_ids_def)
next
  case (ov_search wid capability s rt k s' rt' F)
  note e = next_start_effect [OF ov_search(1)]
  have u: "undisturbed n A (bs_queue s') rt'" using e(1,4) ov_search(2) kept.tick by (auto simp: untouched_def)
  have same: "fresh_ids n rt' = fresh_ids n rt" "uuid_pos rt' = uuid_pos rt" using e(4) by (auto simp: fresh_ids_def)
  have "k \<notin> fst ` A" if "fresh_ids n rt'" "uuid_pos rt' \<le> n"
    using search_finds_free [of "field capability []" "bs_queue s" k] e(1,5) u that by (auto simp: undisturbed_def numbered_def)
  with u ov_search(2) same show ?case by (auto simp: untouched_def)
next
  case (ov_again capability s k rt F wid)
  have "k \<notin> fst ` A" if "fresh_ids n rt" "uuid_pos rt \<le> n"
    using search_finds_free [OF ov_again(1)] ov_again(2) that by (auto simp: untouched_def undisturbed_def numbered_def)
  with ov_again(2) show ?case by (auto simp: untouched_def)
next
  case (ov_take wid k F s rt d s' rt')
  obtain c where c: "claim_take wid k (bs_queue s) rt = (c, bs_queue s', rt')" using next_finish_effect [OF ov_take(2)] by blast
  note keys = take_keys [OF c]
  have same: "fresh_ids n rt' = fresh_ids n rt" using keys by (simp add: fresh_ids_def)
  have sub: "snd ` set (remove1 (wid, k) F) \<subseteq> snd ` set F" using set_remove1_subset by fastforce
  have "undisturbed n A (bs_queue s') rt'"
  proof (cases "fst ` A \<inter> {k} = {}")
    case True
    show ?thesis by (rule undisturbed_call [OF _ steady_take [OF c] True keys]) (use ov_take(3) in \<open>simp_all add: untouched_def\<close>)
  next
    case False
    then have "\<not> (fresh_ids n rt' \<and> uuid_pos rt' \<le> n)" using ov_take(1,3) same keys(3) by (force simp: untouched_def)
    then show ?thesis unfolding undisturbed_def by blast
  qed
  with ov_take(3) same keys(3) sub show ?case by (auto simp: untouched_def)
qed

lemma untouched_run: "overlap_step\<^sup>*\<^sup>* x y \<Longrightarrow> untouched n A x \<Longrightarrow> untouched n A y"
  by (induction rule: rtranclp_induct) (auto intro: untouched_step)

lemma overlap_ids: "overlap_step\<^sup>*\<^sup>* x y \<Longrightarrow> uuids (fst (snd y)) = uuids (fst (snd x)) \<and> uuid_pos (fst (snd x)) \<le> uuid_pos (fst (snd y))"
proof (induction rule: rtranclp_induct)
  case (step y z)
  from step(2) have "uuids (fst (snd z)) = uuids (fst (snd y)) \<and> uuid_pos (fst (snd y)) \<le> uuid_pos (fst (snd z))"
  proof (induction rule: overlap_step.induct)
    case (ov_request s rt s' rt' F)
    then show ?case using run_ids [of s rt s' rt'] by auto
  next
    case (ov_search wid capability s rt k s' rt' F)
    then show ?case using next_start_effect(4) by fastforce
  next
    case (ov_take wid k F s rt d s' rt')
    then show ?case using next_finish_effect take_keys(2,3) by (metis fst_conv le_refl snd_conv)
  qed simp
  with step.IH show ?case by simp
qed simp

text \<open>
  C31. A task is delivered at most once unless claims overlap: in every run of the server whose identifiers differ, requests of all kinds
  and claims cut in two halves in any order, a task that a worker was given keeps that worker from a moment on when no other claim had
  already found it, and then no search finds it, no claim in flight is for it, and neither a whole request nor the rest of one is answered
  with it. Runs of whole requests have no claims in flight, so there a task is never delivered twice.
\<close>

theorem task_delivered_once:
  assumes "overlap_step\<^sup>*\<^sup>* (brain_server_init None, rt0, []) (s, rt, F)" and "overlap_step\<^sup>*\<^sup>* (s, rt, F) (s', rt', F')"
    and "fresh_ids (uuid_pos rt') rt'"
    and "dget (jq_tasks (bs_queue s)) tid = Some t" and "tk_assigned_worker t = Some w" and "tid \<notin> snd ` set F"
  shows "(\<exists>t'. dget (jq_tasks (bs_queue s')) tid = Some t' \<and> tk_assigned_worker t' = Some w) \<and> tid \<notin> snd ` set F' \<and>
    fst (next_start wid capability s' rt') \<noteq> Some tid \<and>
    dget (fst (next_task wid capability s' rt')) ''task_id'' \<noteq> Some (JStr tid) \<and>
    (\<forall>(v, k) \<in> set F'. dget (fst (next_finish v k s' rt'')) ''task_id'' \<noteq> Some (JStr tid))"
proof -
  let ?n = "uuid_pos rt'"
  have fresh: "fresh_ids ?n rt" "uuid_pos rt \<le> ?n" using assms(3) overlap_ids [OF assms(2)] by (simp_all add: fresh_ids_def)
  have "untouched ?n {} (brain_server_init None, rt0, [])"
    by (simp add: untouched_def undisturbed_def numbered_def brain_server_init_def assigned_ok_init) (simp add: job_queue_init_def jq_load_def)
  from untouched_run [OF assms(1) this] have "undisturbed ?n {} (bs_queue s) rt" by (simp add: untouched_def)
  with fresh assms(4-6) have "untouched ?n {(tid, w)} (s, rt, F)" by (simp add: untouched_def undisturbed_def kept_def)
  from untouched_run [OF assms(2) this] assms(3)
  have ok: "assigned_ok (bs_queue s')" and k: "kept tid w (bs_queue s')" and F: "tid \<notin> snd ` set F'"
    by (simp_all add: untouched_def undisturbed_def numbered_def)
  have start: "fst (next_start wid capability s' rt') \<noteq> Some tid"
  proof
    obtain f u r where f: "next_start wid capability s' rt' = (f, u, r)" by (rule prod_cases3)
    assume "fst (next_start wid capability s' rt') = Some tid"
    with f next_start_effect(5) [OF f] search_finds_free [OF _ ok] k show False by auto
  qed
  have finish: "dget (fst (next_finish v j u r)) ''task_id'' \<noteq> Some (JStr tid)" if "j \<noteq> tid" "assigned_ok (bs_queue u)" for v j u r
    using assigned_okD [OF that(2), of j] that(1) by (auto simp: next_finish_def claim_take_def time_time_def Let_def split: option.splits)
  have "dget (fst (next_task wid capability s' rt')) ''task_id'' \<noteq> Some (JStr tid)"
  proof -
    obtain f u r where f: "next_start wid capability s' rt' = (f, u, r)" by (rule prod_cases3)
    then have "next_task wid capability s' rt' = (case f of None \<Rightarrow> ([(''task'', JNull)], u, r) | Some j \<Rightarrow> next_finish (field wid []) j u r)"
      by (simp only: next_task_halves [OF assigned_ok_distinct [OF ok]] prod.case)
    moreover have "f \<noteq> Some tid" "assigned_ok (bs_queue u)" using f start next_start_effect(1) [OF f] ok by simp_all
    ultimately show ?thesis using finish by (cases f) simp_all
  qed
  moreover have "\<forall>(v, j) \<in> set F'. dget (fst (next_finish v j s' rt'')) ''task_id'' \<noteq> Some (JStr tid)"
  proof clarify
    fix v j
    assume "(v, j) \<in> set F'" and id: "dget (fst (next_finish v j s' rt'')) ''task_id'' = Some (JStr tid)"
    then have "j \<noteq> tid" using F by (metis image_eqI snd_conv)
    from finish [OF this ok] id show False by blast
  qed
  ultimately show ?thesis using k F start unfolding kept_def by blast
qed

text \<open>
  Claims that do overlap share the task: if the second of two requests searches before the first has taken what it found, and both look
  for the first pending task of their capability, then both are answered with it. The task ends with the worker that took it last, and the
  result of the other is refused.
\<close>

theorem overlapping_claims_share_a_task:
  assumes "assigned_ok (bs_queue s)" and "claim_search (field c1 []) (bs_queue s) = Some k" and "claim_search (field c2 []) (bs_queue s) = Some k"
    and "next_start (Some w1) c1 s rt = (f1, s1, rt1)" and "next_start (Some w2) c2 s1 rt1 = (f2, s2, rt2)"
    and "next_finish w1 k s2 rt2 = (d1, s3, rt3)" and "next_finish w2 k s3 rt3 = (d2, s4, rt4)" and "w1 \<noteq> w2"
  shows "f1 = Some k \<and> f2 = Some k \<and> dget d1 ''task_id'' = Some (JStr k) \<and> dget d2 ''task_id'' = Some (JStr k) \<and>
    kept k w2 (bs_queue s4) \<and> fst (submit_result k w1 r (bs_queue s4) rt4) = False"
proof -
  have q: "bs_queue s2 = bs_queue s" "f1 = Some k" "f2 = Some k"
    using next_start_effect(1,5) [OF assms(4)] next_start_effect(1,5) [OF assms(5)] assms(2,3) by simp_all
  obtain t where t: "dget (jq_tasks (bs_queue s)) k = Some t" "tk_task_id t = k"
    using claim_search_pending [OF assms(2) assigned_ok_distinct [OF assms(1)]] assigned_okD [OF assms(1)] by blast
  have three: "bs_queue s3 = jq_persist (put_task k (t\<lparr>tk_status := ASSIGNED, tk_assigned_worker := Some w1, tk_started_at := Some (rt_now rt2)\<rparr>) (bs_queue s))"
    "dget d1 ''task_id'' = Some (JStr k)"
    using assms(6) t q(1) by (auto simp: next_finish_def claim_take_def time_time_def Let_def)
  have "dget d2 ''task_id'' = Some (JStr k) \<and> kept k w2 (bs_queue s4)"
    using assms(7) t(2) by (auto simp: next_finish_def claim_take_def time_time_def Let_def three(1) kept_def)
  with q three(2) assms(8) show ?thesis by (auto simp: submit_result_def kept_def split: option.splits)
qed

section \<open>Jobs are never completed\<close>

text \<open>A job as it was accepted.\<close>

definition job_open :: "string \<Rightarrow> brain_job \<Rightarrow> bool" where
  "job_open jid j \<longleftrightarrow> take 4 jid = ''plan'' \<and> bj_job_status j = ''accepted'' \<and> bj_completed_at j = None \<and> bj_results j = [] \<and> bj_final_artifact j = None"

definition jobs_open :: "brain_server \<Rightarrow> bool" where
  "jobs_open s \<longleftrightarrow> \<not> bs_job_lock s \<and> job_named (bs_queue s) \<and> (\<forall>jid j. dget (bs_jobs s) jid = Some j \<longrightarrow> job_open jid j)"

text \<open>The jobs are kept under the identifiers of their plans, and the tasks name the jobs of the queue.\<close>

lemma check_finds_no_job:
  assumes "jobs_open s"
  shows "check_job_completion tid s rt = (Replied (), s, rt)"
proof -
  have "dget (bs_jobs s) (tk_job_id t) = None" if "dget (jq_tasks (bs_queue s)) tid = Some t" for t
  proof (cases "dget (bs_jobs s) (tk_job_id t)")
    case (Some j)
    with assms have "take 4 (tk_job_id t) = ''plan''" by (auto simp: jobs_open_def job_open_def)
    with job_namedD [OF _ that] assms show ?thesis by (simp add: jobs_open_def)
  qed
  with assms show ?thesis by (auto simp: check_job_completion_def jobs_open_def Let_def split: option.splits)
qed

lemma dispatch_task_jobs: "bs_jobs (fst (dispatch_task k ty ws s rt)) = bs_jobs s \<and> bs_job_lock (fst (dispatch_task k ty ws s rt)) = bs_job_lock s"
  by (induction ws arbitrary: s rt) (auto split: prod.splits option.splits)

lemma dispatch_all_jobs: "bs_jobs (fst (dispatch_all ts ws s rt)) = bs_jobs s \<and> bs_job_lock (fst (dispatch_all ts ws s rt)) = bs_job_lock s"
proof (induction ts arbitrary: s rt)
  case (Cons p ts)
  then show ?case using dispatch_task_jobs by (cases p) (simp add: case_prod_beta)
qed simp

lemma dispatch_jobs: "bs_jobs (fst (dispatch_tasks s rt)) = bs_jobs s \<and> bs_job_lock (fst (dispatch_tasks s rt)) = bs_job_lock s"
  using dispatch_all_jobs by (simp add: dispatch_tasks_def case_prod_beta)

lemma submit_subtasks_total: "\<exists>new. fst (submit_subtasks p ts q rt) = Inr new"
  by (induction ts arbitrary: q rt) (auto simp: submit_job_subtask split: prod.splits sum.splits, metis fst_conv sum.distinct(1))

lemma plan_id_prefix: "router_plan models prompt rt = (Inr p, rt') \<Longrightarrow> take 4 (pl_plan_id p) = ''plan''"
  by (auto simp: router_plan_def time_time_def Let_def split: sum.splits)

text \<open>What an accepted job has done.\<close>

lemma bs_submit_job_cases:
  obtains (refused) x rt' where "bs_submit_job prompt ty email s rt = (Refused 400 x, s, rt')" 
  | (raised) x rt' where "bs_submit_job prompt ty email s rt = (Raised x, s, rt')"
  | (locked) q rt' where "bs_job_lock s" "bs_submit_job prompt ty email s rt = (Blocked, s\<lparr>bs_queue := q\<rparr>, rt')"
  | (accepted) p v ts q x j r where "\<not> bs_job_lock s" "router_plan (bs_router s) (field prompt []) rt = (Inr p, v)"
      "submit_subtasks p (pl_subtasks p) (bs_queue s) v = (Inr ts, q, x)" "job_open (pl_plan_id p) j"
      "jrc_job_id r = pl_plan_id p" "bs_submit_job prompt ty email s rt =
         (let (s', rt') = dispatch_tasks (s\<lparr>bs_queue := q, bs_jobs := dset (pl_plan_id p) j (bs_jobs s)\<rparr>) (rt_tick x) in (Replied r, s', rt'))"
proof (cases "field prompt [] = []")
  case True
  then show ?thesis by (intro refused) (simp add: bs_submit_job_def)
next
  case False
  obtain pl v where v: "router_plan (bs_router s) (field prompt []) rt = (pl, v)" by (cases "router_plan (bs_router s) (field prompt []) rt")
  show ?thesis
  proof (cases pl)
    case (Inl x)
    then show ?thesis using False v by (intro raised [of x v]) (simp add: bs_submit_job_def Let_def)
  next
    case (Inr p)
    obtain r q x where x: "submit_subtasks p (pl_subtasks p) (bs_queue s) v = (r, q, x)" by (cases "submit_subtasks p (pl_subtasks p) (bs_queue s) v")
    with submit_subtasks_total [of p "pl_subtasks p" "bs_queue s" v] obtain ts where ts: "r = Inr ts" by auto
    show ?thesis
    proof (cases "bs_job_lock s")
      case True
      then show ?thesis using False v Inr x ts by (intro locked [of q x]) (simp_all add: bs_submit_job_def Let_def)
    next
      case unlocked: False
      show ?thesis
        by (rule accepted [OF unlocked v [unfolded Inr] x [unfolded ts]])
          (use False v Inr x ts unlocked plan_id_prefix [OF v [unfolded Inr]] in \<open>simp_all add: bs_submit_job_def Let_def time_time_def job_open_def\<close>)
    qed
  qed
qed

lemma next_loop_jobs:
  "bs_jobs (fst (snd (next_loop w c ts s rt))) = bs_jobs s \<and> bs_job_lock (fst (snd (next_loop w c ts s rt))) = bs_job_lock s"
  by (induction ts arbitrary: s rt) (auto split: prod.splits option.splits)

lemma next_task_jobs:
  assumes "next_task wid capability s rt = (d, s', rt')"
  shows "bs_jobs s' = bs_jobs s" "bs_job_lock s' = bs_job_lock s"
proof -
  let ?loop = "next_loop (field wid []) (field capability []) (list_pending (bs_queue s))"
  have "bs_jobs s' = bs_jobs u \<and> bs_job_lock s' = bs_job_lock u" if "?loop u r = (d, s', rt')" for u r
    using next_loop_jobs [of "field wid []" "field capability []" "list_pending (bs_queue s)" u r] that by simp
  moreover have "?loop s rt = (d, s', rt') \<or>
      ?loop (upd_worker (field wid []) (\<lambda>w. w\<lparr>bw_last_heartbeat := rt_now rt\<rparr>) s) (rt_tick rt) = (d, s', rt')"
    using assms by (auto simp: next_task_def time_time_def Let_def split: if_splits)
  ultimately have "bs_jobs s' = bs_jobs s \<and> bs_job_lock s' = bs_job_lock s" by (metis upd_worker_simps(2,3))
  then show "bs_jobs s' = bs_jobs s" "bs_job_lock s' = bs_job_lock s" by simp_all
qed

text \<open>A step leaves every job open, and forgets none.\<close>

definition jobs_grow :: "brain_server \<Rightarrow> brain_server \<Rightarrow> bool" where
  "jobs_grow s s' \<longleftrightarrow> jobs_open s' \<and> set (dkeys (bs_jobs s)) \<subseteq> set (dkeys (bs_jobs s'))"

lemma jobs_grow_same: "jobs_open s \<Longrightarrow> job_named (bs_queue s') \<Longrightarrow> bs_jobs s' = bs_jobs s \<Longrightarrow> bs_job_lock s' = bs_job_lock s \<Longrightarrow> jobs_grow s s'"
  by (simp add: jobs_grow_def jobs_open_def)

lemma submit_grows:
  assumes "bs_submit_job prompt ty email s rt = (r, s', rt')" and "jobs_open s" and "job_named (bs_queue s')"
  shows "jobs_grow s s' \<and> (\<forall>x. r = Replied x \<longrightarrow> jrc_job_id x \<in> set (dkeys (bs_jobs s')))"
proof (cases rule: bs_submit_job_cases [of prompt ty email s rt])
  case (accepted p v ts q z j x)
  let ?s = "s\<lparr>bs_queue := q, bs_jobs := dset (pl_plan_id p) j (bs_jobs s)\<rparr>"
  have s': "s' = fst (dispatch_tasks ?s (rt_tick z))" "r = Replied x" using accepted(6) assms(1) by (simp_all add: case_prod_beta prod_eq_iff)
  with dispatch_jobs [of ?s "rt_tick z"] accepted(4,5) assms(2,3) show ?thesis by (auto simp: jobs_grow_def jobs_open_def)
qed (use assms in \<open>auto simp: jobs_grow_def jobs_open_def\<close>)

lemma jobs_grow_step: "server_step x y \<Longrightarrow> jobs_open (fst x) \<Longrightarrow> jobs_grow (fst x) (fst y)"
proof -
  assume st: "server_step x y" and op: "jobs_open (fst x)"
  then have named: "job_named (bs_queue (fst y))" using named.server_step by (simp add: jobs_open_def)
  show ?thesis
    using st
  proof (cases rule: server_step.cases)
    case (srv_submit prompt ty email s rt r s' rt')
    then show ?thesis using submit_grows op named by fastforce
  next
    case (srv_next wid capability s rt d s' rt')
    then show ?thesis using next_task_jobs [OF srv_next(3)] op named by (simp add: jobs_grow_same)
  next
    case (srv_result wid tid result s rt r s' rt')
    obtain ok q v where q: "submit_result (field tid []) (field wid []) (field result []) (bs_queue s) rt = (ok, q, v)"
      by (cases "submit_result (field tid []) (field wid []) (field result []) (bs_queue s) rt")
    have "jobs_open (set_idle (field wid []) (s\<lparr>bs_queue := q\<rparr>))" using op srv_result named.result [OF _ q] by (simp add: jobs_open_def)
    from check_finds_no_job [OF this] q srv_result op show ?thesis
      using named by (auto simp: bs_submit_result_def Let_def split: if_splits intro!: jobs_grow_same)
  qed (use op named in \<open>auto simp: bs_register_worker_def list_workers_def worker_heartbeat_def Let_def time_time_def health_def split: if_splits intro!: jobs_grow_same\<close>)
qed

lemma take_named: "claim_take wid k q rt = (c, q', rt') \<Longrightarrow> job_named q \<Longrightarrow> job_named q'"
  using job_namedD [of q k] by (auto simp: claim_take_def time_time_def Let_def split: option.splits intro!: job_named_put)

lemma overlap_grows: "overlap_step x y \<Longrightarrow> jobs_open (fst x) \<Longrightarrow> jobs_grow (fst x) (fst y)"
proof (induction rule: overlap_step.induct)
  case (ov_request s rt s' rt' F)
  then show ?case using jobs_grow_step [of "(s, rt)" "(s', rt')"] by simp
next
  case (ov_search wid capability s rt k s' rt' F)
  then show ?case using next_start_effect [OF ov_search(1)] by (auto simp: jobs_open_def intro!: jobs_grow_same)
next
  case (ov_take wid k F s rt d s' rt')
  obtain c where c: "claim_take wid k (bs_queue s) rt = (c, bs_queue s', rt')" "bs_jobs s' = bs_jobs s" "bs_job_lock s' = bs_job_lock s"
    using next_finish_effect [OF ov_take(2)] by blast
  with take_named [OF c(1)] ov_take(3) show ?case by (simp add: jobs_grow_same jobs_open_def)
qed (simp add: jobs_grow_def)

lemma overlap_run_grows: "overlap_step\<^sup>*\<^sup>* x y \<Longrightarrow> jobs_open (fst x) \<Longrightarrow> jobs_grow (fst x) (fst y)"
proof (induction rule: rtranclp_induct)
  case (step y z)
  then have "jobs_open (fst y)" by (simp add: jobs_grow_def)
  with overlap_grows [OF step(2)] step show ?case by (auto simp: jobs_grow_def)
qed (simp add: jobs_grow_def)

lemma jobs_open_init: "jobs_open (brain_server_init None)"
  by (simp add: jobs_open_def brain_server_init_def job_named_def job_queue_init_def jq_load_def)

text \<open>
  C32. No job is ever completed: in every run of a new server, overlapping claims included, a job whose acceptance was answered with an
  identifier is found under it at every later moment, and the answer comes at once and says \<open>accepted\<close>, with no results and no artifact,
  whatever has happened to its tasks. The same is said of every other identifier that is found at all.
\<close>

theorem jobs_never_complete:
  assumes "overlap_step\<^sup>*\<^sup>* (brain_server_init None, rt0, []) (s, rt, F)"
    and "bs_submit_job prompt ty email s rt = (Replied r, s1, rt1)" and "overlap_step\<^sup>*\<^sup>* (s1, rt1, F) (s', rt', F')"
  shows "(\<exists>v. bs_get_job (jrc_job_id r) s' = Replied v \<and> jv_job_id v = jrc_job_id r \<and>
      jv_status v = ''accepted'' \<and> jv_results v = [] \<and> jv_final_artifact v = None) \<and>
    (\<forall>jid. bs_get_job jid s' = Refused 404 ''job not found'' \<or>
      (\<exists>v. bs_get_job jid s' = Replied v \<and> jv_status v = ''accepted'' \<and> jv_results v = [] \<and> jv_final_artifact v = None))"
proof -
  have op: "jobs_open s" using overlap_run_grows [OF assms(1)] jobs_open_init by (simp add: jobs_grow_def)
  have "job_named (bs_queue s1)" using named.bs_submit_job [OF _ assms(2)] op by (simp add: jobs_open_def)
  with submit_grows [OF assms(2) op] have s1: "jobs_open s1" "jrc_job_id r \<in> set (dkeys (bs_jobs s1))" by (simp_all add: jobs_grow_def)
  with overlap_run_grows [OF assms(3)] have s': "jobs_open s'" "jrc_job_id r \<in> set (dkeys (bs_jobs s'))" by (auto simp: jobs_grow_def)
  have every: "bs_get_job jid s' = Refused 404 ''job not found'' \<or>
      (\<exists>v. bs_get_job jid s' = Replied v \<and> jv_job_id v = jid \<and> jv_status v = ''accepted'' \<and> jv_results v = [] \<and> jv_final_artifact v = None)" for jid
    using s'(1) by (cases "dget (bs_jobs s') jid") (auto simp: bs_get_job_def jobs_open_def job_open_def)
  obtain j where "dget (bs_jobs s') (jrc_job_id r) = Some j" using s'(2) dget_None_key [of "bs_jobs s'"] by (cases "dget (bs_jobs s') (jrc_job_id r)") auto
  with s'(1) have "bs_get_job (jrc_job_id r) s' \<noteq> Refused 404 ''job not found''" by (simp add: bs_get_job_def jobs_open_def)
  with every show ?thesis by blast
qed

text \<open>
  Plans are named after the second they were made in, so two jobs of the same second have one identifier and the first is forgotten: the
  prompt reported under it is that of the second.
\<close>

lemma plans_of_one_second:
  assumes "router_plan models p1 rt1 = (Inr x1, v1)" and "router_plan models p2 rt2 = (Inr x2, v2)"
    and "ftrunc (rt_now rt1) = ftrunc (rt_now rt2)"
  shows "pl_plan_id x1 = pl_plan_id x2"
  using assms by (auto simp: router_plan_def time_time_def Let_def split: sum.splits)

section \<open>Dispatching takes the tasks away from the workers\<close>

lemma find_first_filter: "filter P xs = y # ys \<Longrightarrow> (\<And>x. Q x \<Longrightarrow> P x) \<Longrightarrow> Q y \<Longrightarrow> List.find Q xs = Some y"
  by (induction xs) (auto split: if_splits)

lemma filter_dset_first:
  "distinct (dkeys d) \<Longrightarrow> filter P d = (k, v) # r \<Longrightarrow> \<not> P (k, v') \<Longrightarrow> filter P (dset k v' d) = r"
proof (induction d)
  case (Cons p d)
  then show ?case by (cases p) (auto split: if_splits dest: filter_eq_ConsD)
qed simp

lemma pending_items_persist [simp]: "pending_items (jq_persist q) = pending_items q"
  by (simp add: pending_items_def)

lemma list_pending_items: "list_pending q = dvalues (pending_items q)"
  by (simp add: list_pending_def pending_items_def filter_map comp_def case_prod_unfold)

text \<open>The first pending task is claimed by whoever asks for its type.\<close>

lemma claim_first_pending:
  fixes wid :: string and rt :: runtime
  assumes "assigned_ok q" and "pending_items q = (k, t) # ts"
  defines "t' \<equiv> t\<lparr>tk_status := ASSIGNED, tk_assigned_worker := Some wid, tk_started_at := Some (rt_now rt)\<rparr>"
  defines "q' \<equiv> jq_persist (put_task k t' q)"
  shows "claim_task wid (tk_task_type t) q rt = (Some t', q', rt_tick rt)" "pending_items q' = ts" "assigned_ok q'"
proof -
  have mem: "(k, t) \<in> set (pending_items q)" by (simp add: assms(2))
  have "find (\<lambda>(k, u). claimable (tk_task_type t) u) (jq_tasks q) = Some (k, t)"
    by (rule find_first_filter [OF assms(2) [unfolded pending_items_def]]) (use mem in \<open>auto simp: claimable_def pending_items_def\<close>)
  then show claim: "claim_task wid (tk_task_type t) q rt = (Some t', q', rt_tick rt)"
    by (simp add: claim_task_def time_time_def Let_def t'_def q'_def)
  show "pending_items q' = ts"
    using assms(1,2) filter_dset_first [of "jq_tasks q" "\<lambda>(k, t). tk_status t = PENDING" k t ts t']
    by (simp add: q'_def pending_items_def assigned_ok_def t'_def)
  show "assigned_ok q'" using steady_claim [OF claim assms(1)] by (simp add: steady_def)
qed

text \<open>The worker that is found first gets every task, busy or not.\<close>

lemma dispatch_all_first:
  assumes "assigned_ok (bs_queue s)" and "pending_items (bs_queue s) = ts"
  shows "pending_items (bs_queue (fst (dispatch_all ts (w # ws) s rt))) = [] \<and>
    (\<forall>k t. (k, t) \<in> set ts \<or> kept k (bw_worker_id w) (bs_queue s) \<longrightarrow> kept k (bw_worker_id w) (bs_queue (fst (dispatch_all ts (w # ws) s rt))))"
  using assms
proof (induction ts arbitrary: s rt)
  case (Cons p ts)
  obtain k t where p: "p = (k, t)" by (cases p)
  note claim = claim_first_pending [OF Cons.prems(1) Cons.prems(2) [unfolded p], where wid = "bw_worker_id w" and rt = rt]
  let ?t = "t\<lparr>tk_status := ASSIGNED, tk_assigned_worker := Some (bw_worker_id w), tk_started_at := Some (rt_now rt)\<rparr>"
  let ?q = "jq_persist (put_task k ?t (bs_queue s))"
  let ?s = "set_busy (bw_worker_id w) (tk_task_id ?t) (s\<lparr>bs_queue := ?q\<rparr>)"
  have "(k, t) \<in> set (pending_items (bs_queue s))" by (simp add: Cons.prems(2) p)
  then have "unassigned k (bs_queue s)"
    using Cons.prems(1) by (auto simp: pending_items_def assigned_ok_def unassigned_def)
  with claim(1) have eq: "dispatch_all (p # ts) (w # ws) s rt = dispatch_all ts (w # ws) ?s (rt_tick rt)"
    by (simp add: p)
  have IH: "pending_items (bs_queue (fst (dispatch_all ts (w # ws) ?s (rt_tick rt)))) = [] \<and>
      (\<forall>k t. (k, t) \<in> set ts \<or> kept k (bw_worker_id w) (bs_queue ?s) \<longrightarrow> kept k (bw_worker_id w) (bs_queue (fst (dispatch_all ts (w # ws) ?s (rt_tick rt)))))"
    using claim(2,3) by (intro Cons.IH) simp_all
  have "kept k (bw_worker_id w) (bs_queue ?s)" by (simp add: kept_def)
  moreover have "kept k' (bw_worker_id w) (bs_queue s) \<Longrightarrow> kept k' (bw_worker_id w) (bs_queue ?s)" for k' by (auto simp: kept_def)
  ultimately show ?case using IH p unfolding eq by (metis Pair_inject set_ConsD)
qed simp

lemma idle_worker_found:
  assumes "w \<in> set ws" and "bw_status w = JStr ''idle''" and "\<forall>i < clock_pos (snd (idle_workers ws rt)). flt (fsub (clock rt i) (Fin 300)) (bw_last_heartbeat w)"
  shows "w \<in> set (fst (idle_workers ws rt))"
  using assms
proof (induction ws arbitrary: rt)
  case (Cons v ws)
  have pos: "clock_pos r \<le> clock_pos (snd (idle_workers ws r))" for r
    using ids.idle_workers [of r "uuids r" "clock r" "uuid_pos r" "clock_pos r"] by blast
  from Cons show ?case
    using pos [of "rt_tick rt"] by (auto simp: time_time_def Let_def case_prod_beta Suc_le_eq)
qed simp

text \<open>
  Submitting a job while some worker is idle leaves nothing to poll for: in every run of a new server whose identifiers differ, if a
  job is accepted while a worker is idle with a heartbeat of the last five minutes, then every task of the queue is assigned, and
  the next request for a task, of whichever worker, is answered with none, so nobody is told about the assignment.
\<close>

theorem nothing_left_to_poll:
  assumes "server_step\<^sup>*\<^sup>* (brain_server_init None, rt0) (s, rt)" and "bs_submit_job prompt ty email s rt = (Replied r, s', rt')"
    and "fresh_ids (uuid_pos rt') rt'" and "w \<in> set (dvalues (bs_workers s))" and "bw_status w = JStr ''idle''"
    and "\<forall>i < clock_pos rt'. flt (fsub (clock rt i) (Fin 300)) (bw_last_heartbeat w)"
  shows "fst (next_task wid capability s' rt'') = [(''task'', JNull)] \<and>
    (\<forall>k t. dget (jq_tasks (bs_queue s')) k = Some t \<longrightarrow> tk_assigned_worker t \<noteq> None)"
proof (cases rule: bs_submit_job_cases [of prompt ty email s rt])
  case (accepted p v ts q x j r0)
  define s1 where "s1 = s\<lparr>bs_queue := q, bs_jobs := dset (pl_plan_id p) j (bs_jobs s)\<rparr>"
  define ws where "ws = idle_workers (dvalues (bs_workers s)) (rt_tick x)"
  have disp: "dispatch_all (pending_items q) (fst ws) s1 (snd ws) = (s', rt')"
    using accepted(6) assms(2) by (simp add: dispatch_tasks_def s1_def ws_def case_prod_beta split: prod.splits)
  let ?I = "\<lambda>y. uuids y = uuids rt \<and> clock y = clock rt \<and> uuid_pos rt \<le> uuid_pos y \<and> clock_pos rt \<le> clock_pos y"
  have "?I v" by (rule ids.router_plan [OF _ accepted(2)]) simp
  then have "?I x" by (rule ids.submit_subtasks [OF _ accepted(3)])
  then have "?I (rt_tick x)" by simp
  then have ws: "?I (snd ws)" unfolding ws_def by (rule ids.idle_workers)
  have mono: "uuids rt' = uuids (snd ws) \<and> clock rt' = clock (snd ws) \<and> uuid_pos (snd ws) \<le> uuid_pos rt' \<and> clock_pos (snd ws) \<le> clock_pos rt'"
    by (rule ids.dispatch_all [OF _ disp]) simp
  have "w \<in> set (fst ws)"
    unfolding ws_def using idle_worker_found [OF assms(4,5), of "rt_tick x"] assms(6) \<open>?I x\<close> mono by (simp add: ws_def)
  then obtain u us where us: "fst ws = u # us" by (cases "fst ws") auto
  have tick: "uuid_pos (snd ws) = uuid_pos x"
  proof -
    have "uuid_pos (snd (idle_workers xs y)) = uuid_pos y" for xs y
      by (induction xs arbitrary: y) (auto simp: time_time_def Let_def case_prod_beta)
    then show ?thesis by (simp add: ws_def)
  qed
  let ?n = "uuid_pos rt'"
  have fresh: "fresh_ids ?n rt" "fresh_ids ?n x" using assms(3) mono ws \<open>?I x\<close> by (simp_all add: fresh_ids_def)
  have "numbered (bs_queue s) rt" by (rule run_undisturbed [OF assms(1) fresh(1)]) (use mono ws in simp)
  then have "undisturbed ?n {} (bs_queue s) rt" by (simp add: undisturbed_def)
  then have "undisturbed ?n {} (bs_queue s) v" by (rule kept.router_plan [OF _ accepted(2)])
  then have ok': "undisturbed ?n {} q x" by (rule kept.submit_subtasks [OF _ accepted(3)])
  with fresh mono tick have ok: "assigned_ok q" by (simp add: undisturbed_def numbered_def)
  have none: "pending_items (bs_queue s') = []"
    using dispatch_all_first [of s1 "pending_items q" u us "snd ws"] disp ok us by (simp add: s1_def)
  have "undisturbed ?n {} (bs_queue s1) (snd ws)" using ok' kept.idle_workers [OF kept.tick] by (simp add: s1_def ws_def)
  then have "undisturbed ?n {} (bs_queue s') rt'" by (rule kept.dispatch_all [OF _ disp])
  with assms(3) have ok2: "assigned_ok (bs_queue s')" by (simp add: undisturbed_def numbered_def)
  have "tk_assigned_worker t \<noteq> None" if "dget (jq_tasks (bs_queue s')) k = Some t" for k t
  proof -
    have "(k, t) \<notin> set (pending_items (bs_queue s'))" by (simp add: none)
    then have "tk_status t \<noteq> PENDING" using map_of_SomeD [OF that] by (simp add: pending_items_def)
    with ok2 that show ?thesis by (auto simp: assigned_ok_def)
  qed
  moreover have "fst (next_task wid capability s' rt'') = [(''task'', JNull)]"
    by (simp add: next_task_def list_pending_items none Let_def case_prod_beta)
  ultimately show ?thesis by blast
qed (use assms(2) in simp_all)

section \<open>Client and server\<close>

lemma next_loop_claims:
  assumes "find (\<lambda>(k, t). claimable capability t) (jq_tasks (bs_queue s)) = Some (k, t)" and "t \<in> set ts"
    and "next_loop wid capability ts s rt = (d, s', rt')"
  shows "dget d ''task'' = None \<and> (\<exists>t'. dget (jq_tasks (bs_queue s')) k = Some t' \<and> tk_status t' = ASSIGNED \<and> tk_assigned_worker t' = Some wid)"
  using assms(2,3)
proof (induction ts arbitrary: rt)
  case (Cons u ts)
  have t: "capability = [] \<or> tk_task_type t = capability" using find_claimable [OF assms(1)] by (simp add: claimable_def)
  have claim: "claim_task wid capability (bs_queue s) rt = (Some t', q, rt_tick rt) \<Longrightarrow> t' = t\<lparr>tk_status := ASSIGNED, tk_assigned_worker := Some wid, tk_started_at := Some (rt_now rt)\<rparr>
      \<and> q = jq_persist (put_task k t' (bs_queue s))" for t' q
    by (auto simp: claim_task_def assms(1) time_time_def Let_def)
  show ?case
  proof (cases "capability = [] \<or> tk_task_type u = capability")
    case True
    with Cons.prems(2) show ?thesis by (auto simp: claim_task_def assms(1) time_time_def Let_def)
  next
    case False
    with t Cons show ?thesis by auto
  qed
qed simp

text \<open>
  The client never does any work: the server sends a claimed task as the object itself, and the client looks for it under the
  key \<open>task\<close>. Whenever a task for its capability is pending, a poll assigns the first such task to the worker, and the client still reports
  that there was nothing to do and posts no result, whatever the worker's machine would have answered.
\<close>

theorem polled_task_is_lost:
  assumes "find (\<lambda>(k, t). claimable capability t) (jq_tasks (bs_queue s)) = Some (k, t)"
    and "next_task (Some (wc_worker_id c)) (Some capability) s rt = (d, s', rt')"
  shows "poll_and_work mc c (Some (JObj d)) post = (False, None) \<and>
    (\<exists>t'. dget (jq_tasks (bs_queue s')) k = Some t' \<and> tk_status t' = ASSIGNED \<and> tk_assigned_worker t' = Some (wc_worker_id c))"
proof -
  obtain s0 rt0 where s0: "bs_queue s0 = bs_queue s" "next_loop (wc_worker_id c) capability (list_pending (bs_queue s)) s0 rt0 = (d, s', rt')"
    using next_task_loop [OF assms(2)] by (auto simp: field_def)
  have "t \<in> set (list_pending (bs_queue s))" using find_claimable [OF assms(1)] by (force simp: list_pending_def claimable_def)
  from next_loop_claims [OF _ this s0(2)] assms(1) s0(1) show ?thesis by (simp add: poll_and_work_def dget_default_def)
qed

section \<open>A concrete run\<close>

text \<open>A server with one registered worker that has accepted a job, on a clock that stands still.\<close>

definition still_rt :: runtime where
  "still_rt = sample_rt\<lparr>clock := (\<lambda>i. Fin 1)\<rparr>"

definition srv1 :: "brain_server \<times> runtime" where
  "srv1 = snd (bs_register_worker (Some ''w1'') None None None None (brain_server_init None) still_rt)"

definition srv2 :: "job_receipt reply \<times> brain_server \<times> runtime" where
  "srv2 = bs_submit_job (Some ''hi'') None None (fst srv1) (snd srv1)"

lemma srv_run1: "server_step\<^sup>*\<^sup>* (brain_server_init None, still_rt) (fst srv1, snd srv1)"
  by (rule r_into_rtranclp, rule srv_register [where wid = "Some ''w1''" and role = None and models = None and mem = None and host = None]) (simp add: srv1_def prod_eq_iff)

lemma srv_run2: "server_step\<^sup>*\<^sup>* (brain_server_init None, still_rt) (fst (snd srv2), snd (snd srv2))"
  by (rule rtranclp.rtrancl_into_rtrancl [OF srv_run1], rule srv_submit [where prompt = "Some ''hi''" and ty = None and email = None]) (simp add: srv2_def prod_eq_iff)

lemma hi_plan: "\<exists>a t1 t2 t3. analyze_prompt DEFAULT_MODELS ''hi'' = Inr a \<and> an_subtasks a = [t1, t2, t3]"
proof -
  have "case analyze_prompt DEFAULT_MODELS ''hi'' of Inl x \<Rightarrow> False | Inr a \<Rightarrow> length (an_subtasks a) = 3"
    by code_simp
  then show ?thesis by (auto split: sum.splits simp: numeral_3_eq_3 length_Suc_conv)
qed

lemma digits: "dec_nat 0 = ''0''" "dec_nat (Suc 0) = ''1''" "dec_nat 2 = ''2''" "dec_nat (Suc (Suc 0)) = ''2''"
  by code_simp+

lemma still_recent: "flt (fsub (Fin 1) (Fin 300)) (Fin 1)"
  by (simp add: fsub_def)

lemma still_fresh: "fresh_ids 3 still_rt"
proof -
  have "{..< 3} = {0, Suc 0, 2 :: nat}" by auto
  then show ?thesis by (simp add: fresh_ids_def still_rt_def digits)
qed

lemma srv1_state: "bs_queue (fst srv1) = job_queue_init None" "bs_router (fst srv1) = DEFAULT_MODELS" "bs_job_lock (fst srv1) = False"
   "dvalues (bs_workers (fst srv1)) = [\<lparr>bw_worker_id = ''w1'', bw_role = JStr ''general'', bw_models = JList [], bw_memory_gb = JInt 16,
     bw_hostname = JStr ''unknown'', bw_registered_at = Fin 1, bw_last_heartbeat = Fin 1, bw_status = JStr ''idle'', bw_current_task = JNull\<rparr>]"
   "snd srv1 = still_rt\<lparr>clock_pos := 2\<rparr>"
  by (simp_all add: srv1_def bs_register_worker_def brain_server_init_def router_init_def field_def time_time_def Let_def still_rt_def)

lemma submit_three:
  "submit_subtasks p [t1, t2, t3] q rt = (Inr ts, q', rt') \<Longrightarrow> uuid_pos rt' = uuid_pos rt + 3 \<and>
     jq_tasks q' = dset (tk_task_id (step_task t3 (rt_next (rt_next rt)))) (step_task t3 (rt_next (rt_next rt)))
       (dset (tk_task_id (step_task t2 (rt_next rt))) (step_task t2 (rt_next rt)) (dset (tk_task_id (step_task t1 rt)) (step_task t1 rt) (jq_tasks q)))"
  by (auto simp: submit_job_subtask)

lemma dispatch_all_uuids: "uuid_pos (snd (dispatch_all ts ws s rt)) = uuid_pos rt"
proof -
  have one: "uuid_pos (snd (dispatch_task k ty ws s rt)) = uuid_pos rt" for k ty ws s rt
    by (induction ws arbitrary: s rt) (auto split: prod.splits option.splits dest: claim_keys(3))
  show ?thesis
  proof (induction ts arbitrary: s rt)
    case (Cons p ts)
    then show ?case using one by (cases p) (simp add: case_prod_beta)
  qed simp
qed

lemma srv2_state: "(\<exists>r. fst srv2 = Replied r) \<and> uuid_pos (snd (snd srv2)) = 3 \<and> uuids (snd (snd srv2)) = uuids still_rt \<and>
    (\<forall>k \<in> {''job-id0-0'', ''job-id1-0'', ''job-id2-0''}. kept k ''w1'' (bs_queue (fst (snd srv2))))"
proof (cases rule: bs_submit_job_cases [of "Some ''hi''" None None "fst srv1" "snd srv1"])
  case (accepted p v ts q x j r)
  obtain a t1 t2 t3 where a: "analyze_prompt DEFAULT_MODELS ''hi'' = Inr a" "an_subtasks a = [t1, t2, t3]" using hi_plan by blast
  have v: "v = still_rt\<lparr>clock_pos := 4\<rparr>" "pl_subtasks p = [t1, t2, t3]"
    using accepted(2) a by (auto simp: srv1_state router_plan_def field_def time_time_def Let_def still_rt_def split: sum.splits)
  have q: "uuid_pos x = 3" "jq_tasks q = dset (tk_task_id (step_task t3 (rt_next (rt_next v)))) (step_task t3 (rt_next (rt_next v)))
       (dset (tk_task_id (step_task t2 (rt_next v))) (step_task t2 (rt_next v)) [(''job-id0-0'', step_task t1 v)])"
    using submit_three [OF accepted(3) [unfolded v(2)]] by (simp_all add: v(1) srv1_state job_queue_init_def jq_load_def still_rt_def step_task_def new_task_def digits)
  have "undisturbed 3 {} (bs_queue (fst srv1)) v"
    by (simp add: undisturbed_def numbered_def srv1_state assigned_ok_init) (simp add: job_queue_init_def jq_load_def)
  then have "undisturbed 3 {} q x" by (rule kept.submit_subtasks [OF _ accepted(3)])
  moreover have x: "uuids x = uuids still_rt" using ids.submit_subtasks [OF _ accepted(3), of "uuids v" "clock v" "uuid_pos v" "clock_pos v"] v by simp
  ultimately have ok: "assigned_ok q" using still_fresh q(1) by (simp add: undisturbed_def numbered_def fresh_ids_def)
  have "(''job-id0-0'', step_task t1 v) \<in> set (jq_tasks q)" "(''job-id1-0'', step_task t2 (rt_next v)) \<in> set (jq_tasks q)"
      "(''job-id2-0'', step_task t3 (rt_next (rt_next v))) \<in> set (jq_tasks q)"
    unfolding q(2) by (simp_all add: v step_task_def new_task_def digits still_rt_def)
  then have mem: "\<forall>k \<in> {''job-id0-0'', ''job-id1-0'', ''job-id2-0''}. \<exists>t. (k, t) \<in> set (pending_items q)"
    by (auto simp: pending_items_def step_task_def new_task_def)
  define s1 where "s1 = fst srv1\<lparr>bs_queue := q, bs_jobs := dset (pl_plan_id p) j (bs_jobs (fst srv1))\<rparr>"
  define ws where "ws = idle_workers (dvalues (bs_workers (fst srv1))) (rt_tick x)"
  have eq: "srv2 = (Replied r, dispatch_all (pending_items q) (fst ws) s1 (snd ws))"
    using accepted(6) by (simp add: srv2_def dispatch_tasks_def s1_def ws_def case_prod_beta prod_eq_iff)
  have x2: "clock x = (\<lambda>i. Fin 1)" using ids.submit_subtasks [OF _ accepted(3), of "uuids v" "clock v" "uuid_pos v" "clock_pos v"] v by (simp add: still_rt_def)
  then have w: "\<exists>w. fst ws = [w] \<and> bw_worker_id w = ''w1''" "uuid_pos (snd ws) = 3" "uuids (snd ws) = uuids still_rt"
    by (simp_all add: ws_def srv1_state time_time_def Let_def q x still_recent)
  then obtain w where w1: "fst ws = [w]" "bw_worker_id w = ''w1''" by blast
  have "\<forall>k \<in> {''job-id0-0'', ''job-id1-0'', ''job-id2-0''}. kept k ''w1'' (bs_queue (fst (dispatch_all (pending_items q) (fst ws) s1 (snd ws))))"
    using dispatch_all_first [of s1 "pending_items q" w "[]" "snd ws"] ok mem w1 unfolding s1_def by fastforce
  moreover have "uuids (snd (dispatch_all (pending_items q) (fst ws) s1 (snd ws))) = uuids still_rt"
    using ids.dispatch_all [of "snd ws" "uuids still_rt" "clock (snd ws)" 0 0] w(3) by (metis le0 prod.collapse)
  ultimately show ?thesis using dispatch_all_uuids w(2) unfolding eq by simp
next
  case (raised x rt')
  obtain a where a: "analyze_prompt DEFAULT_MODELS ''hi'' = Inr a" using hi_plan by blast
  obtain p v where p: "router_plan DEFAULT_MODELS ''hi'' (snd srv1) = (Inr p, v)"
    by (simp add: router_plan_def a srv1_state still_rt_def time_time_def Let_def)
  obtain ts where "fst (submit_subtasks p (pl_subtasks p) (bs_queue (fst srv1)) v) = Inr ts" using submit_subtasks_total by blast
  with raised p show ?thesis by (auto simp: bs_submit_job_def field_def srv1_state Let_def split: prod.splits)
next
  case (refused x rt')
  then show ?thesis by (auto simp: bs_submit_job_def field_def Let_def split: prod.splits sum.splits if_splits)
qed (simp add: srv1_state)

theorem task_delivered_once_witness:
  "dget (fst (next_task (Some ''w2'') None (fst (snd srv2)) (snd (snd srv2)))) ''task_id'' \<noteq> Some (JStr ''job-id0-0'') \<and>
   fresh_ids 3 (snd (snd srv2)) \<and> server_step\<^sup>*\<^sup>* (brain_server_init None, still_rt) (fst (snd srv2), snd (snd srv2))"
proof -
  obtain t where t: "dget (jq_tasks (bs_queue (fst (snd srv2)))) ''job-id0-0'' = Some t" "tk_assigned_worker t = Some ''w1''"
    using srv2_state by (auto simp: kept_def)
  have ids: "fresh_ids (uuid_pos (snd (snd srv2))) (snd (snd srv2))" using srv2_state still_fresh by (simp add: fresh_ids_def)
  have run: "overlap_step\<^sup>*\<^sup>* (brain_server_init None, still_rt, []) (fst (snd srv2), snd (snd srv2), [])" by (rule server_run_overlap [OF srv_run2])
  have "dget (fst (next_task (Some ''w2'') None (fst (snd srv2)) (snd (snd srv2)))) ''task_id'' \<noteq> Some (JStr ''job-id0-0'')"
    using task_delivered_once [OF run rtranclp.rtrancl_refl ids t] by simp
  then show ?thesis using srv_run2 ids srv2_state by simp
qed

text \<open>The worker completes the three tasks of the job.\<close>

definition complete_as_w1 :: "string \<Rightarrow> brain_server \<times> runtime \<Rightarrow> brain_server \<times> runtime" where
  "complete_as_w1 tid x = snd (bs_submit_result (Some ''w1'') (Some tid) (Some [(''output'', JStr ''done'')]) (fst x) (snd x))"

definition srv4 :: "brain_server \<times> runtime" where
  "srv4 = complete_as_w1 ''job-id2-0'' (complete_as_w1 ''job-id1-0'' (complete_as_w1 ''job-id0-0'' (snd srv2)))"

lemma complete_run: "server_step\<^sup>*\<^sup>* (fst x, snd x) (fst (complete_as_w1 tid x), snd (complete_as_w1 tid x))"
  by (rule r_into_rtranclp, rule srv_result [where wid = "Some ''w1''" and tid = "Some tid" and result = "Some [(''output'', JStr ''done'')]"])
    (simp add: complete_as_w1_def prod_eq_iff)

lemma srv4_run: "server_step\<^sup>*\<^sup>* (fst (snd srv2), snd (snd srv2)) (fst srv4, snd srv4)"
  unfolding srv4_def by (meson complete_run rtranclp_trans)

definition completed :: "string \<Rightarrow> brain_server \<times> runtime \<Rightarrow> bool" where
  "completed tid x \<longleftrightarrow> (\<exists>t. dget (jq_tasks (bs_queue (fst x))) tid = Some t \<and> tk_status t = COMPLETED)"

lemma bs_submit_result_queue:
  assumes "submit_result tid wid r (bs_queue s) rt = (ok, q, v)" and "jobs_open s"
  shows "bs_queue (fst (snd (bs_submit_result (Some wid) (Some tid) (Some r) s rt))) = q"
proof -
  have "jobs_open (set_idle wid (s\<lparr>bs_queue := q\<rparr>))" using assms(2) named.result [OF _ assms(1)] by (simp add: jobs_open_def)
  from check_finds_no_job [OF this] assms(1) show ?thesis by (simp add: bs_submit_result_def field_def Let_def)
qed

lemma complete_as_w1_effect:
  assumes "jobs_open (fst x)" and "kept tid ''w1'' (bs_queue (fst x))"
  shows "completed tid (complete_as_w1 tid x)"
    "k \<noteq> tid \<Longrightarrow> dget (jq_tasks (bs_queue (fst (complete_as_w1 tid x)))) k = dget (jq_tasks (bs_queue (fst x))) k"
    "jobs_open (fst (complete_as_w1 tid x))"
proof -
  obtain t where t: "dget (jq_tasks (bs_queue (fst x))) tid = Some t" "tk_assigned_worker t = Some ''w1''" using assms(2) by (auto simp: kept_def)
  obtain ok q v where q: "submit_result tid ''w1'' [(''output'', JStr ''done'')] (bs_queue (fst x)) (snd x) = (ok, q, v)" using prod_cases3 by blast
  have queue: "bs_queue (fst (complete_as_w1 tid x)) = q"
    using bs_submit_result_queue [OF q assms(1)] by (simp add: complete_as_w1_def)
  define u where "u = t\<lparr>tk_result := Some [(''output'', JStr ''done'')], tk_proof_hash := Some (compute_proof_hash (t\<lparr>tk_result := Some [(''output'', JStr ''done'')]\<rparr>)),
    tk_status := COMPLETED, tk_completed_at := Some (rt_now (snd x))\<rparr>"
  have "tk_status u = COMPLETED" by (simp add: u_def)
  moreover have "jq_tasks q = dset tid u (jq_tasks (bs_queue (fst x)))"
    using q t by (auto simp: submit_result_def time_time_def Let_def u_def)
  ultimately show "completed tid (complete_as_w1 tid x)"
    "k \<noteq> tid \<Longrightarrow> dget (jq_tasks (bs_queue (fst (complete_as_w1 tid x)))) k = dget (jq_tasks (bs_queue (fst x))) k"
    using queue by (auto simp: completed_def)
  have "overlap_step\<^sup>*\<^sup>* (fst x, snd x, []) (fst (complete_as_w1 tid x), snd (complete_as_w1 tid x), [])"
    by (rule server_run_overlap [OF complete_run])
  from overlap_run_grows [OF this] assms(1) show "jobs_open (fst (complete_as_w1 tid x))" by (simp add: jobs_grow_def)
qed

theorem jobs_never_complete_witness:
  "\<exists>r v. fst srv2 = Replied r \<and> bs_get_job (jrc_job_id r) (fst srv4) = Replied v \<and> jv_status v = ''accepted'' \<and>
     jv_results v = [] \<and> jv_final_artifact v = None \<and>
     completed ''job-id0-0'' srv4 \<and> completed ''job-id1-0'' srv4 \<and> completed ''job-id2-0'' srv4"
proof -
  obtain r where r: "fst srv2 = Replied r" using srv2_state by blast
  have run1: "overlap_step\<^sup>*\<^sup>* (brain_server_init None, still_rt, []) (fst srv1, snd srv1, [])" by (rule server_run_overlap [OF srv_run1])
  have sub: "bs_submit_job (Some ''hi'') None None (fst srv1) (snd srv1) = (Replied r, fst (snd srv2), snd (snd srv2))"
    using r by (simp add: srv2_def prod_eq_iff)
  have op: "jobs_open (fst (snd srv2))"
    using overlap_run_grows [OF server_run_overlap [OF srv_run2, of "[]"]] jobs_open_init by (simp add: jobs_grow_def)
  define a where "a = complete_as_w1 ''job-id0-0'' (snd srv2)"
  define b where "b = complete_as_w1 ''job-id1-0'' a"
  have a: "completed ''job-id0-0'' a" "jobs_open (fst a)" "kept ''job-id1-0'' ''w1'' (bs_queue (fst a))" "kept ''job-id2-0'' ''w1'' (bs_queue (fst a))"
    using complete_as_w1_effect [OF op, of "''job-id0-0''"] srv2_state by (simp_all add: a_def kept_def)
  have b: "completed ''job-id0-0'' b" "completed ''job-id1-0'' b" "jobs_open (fst b)" "kept ''job-id2-0'' ''w1'' (bs_queue (fst b))"
    using complete_as_w1_effect [OF a(2,3)] a(1,4) by (simp_all add: b_def kept_def completed_def)
  have "completed ''job-id0-0'' srv4 \<and> completed ''job-id1-0'' srv4 \<and> completed ''job-id2-0'' srv4"
    using complete_as_w1_effect [OF b(3,4)] b(1,2) by (simp add: srv4_def a_def [symmetric] b_def [symmetric] completed_def)
  moreover obtain v where "bs_get_job (jrc_job_id r) (fst srv4) = Replied v" "jv_status v = ''accepted''" "jv_results v = []" "jv_final_artifact v = None"
    using jobs_never_complete [OF run1 sub server_run_overlap [OF srv4_run]] by blast
  ultimately show ?thesis using r by blast
qed

theorem nothing_left_to_poll_witness:
  "fst (next_task (Some ''w1'') (Some ''planner'') (fst (snd srv2)) (snd (snd srv2))) = [(''task'', JNull)]"
proof -
  obtain r where r: "bs_submit_job (Some ''hi'') None None (fst srv1) (snd srv1) = (Replied r, fst (snd srv2), snd (snd srv2))"
    using srv2_state by (auto simp: srv2_def prod_eq_iff)
  have ids: "fresh_ids (uuid_pos (snd (snd srv2))) (snd (snd srv2))" using srv2_state still_fresh by (simp add: fresh_ids_def)
  let ?w = "\<lparr>bw_worker_id = ''w1'', bw_role = JStr ''general'', bw_models = JList [], bw_memory_gb = JInt 16,
     bw_hostname = JStr ''unknown'', bw_registered_at = Fin 1, bw_last_heartbeat = Fin 1, bw_status = JStr ''idle'', bw_current_task = JNull\<rparr>"
  show ?thesis
    using nothing_left_to_poll [OF srv_run1 r ids, of ?w] still_recent by (simp add: srv1_state still_rt_def)
qed

text \<open>A queue with one pending task and a client of the role it asks for.\<close>

definition sample_client :: worker_client where
  "sample_client = \<lparr>wc_worker_id = ''w2'', wc_model = ''m'', wc_role = ''planner'', wc_worker = sample_worker\<rparr>"

definition one_task :: task_split where
  "one_task = new_task ''job-a'' 0 ''planner'' [] (Fin 1) (Fin 0)"

definition srv3 :: brain_server where
  "srv3 = (brain_server_init None)\<lparr>bs_queue := put_task ''job-a-0'' one_task (job_queue_init None)\<rparr>"

theorem overlapping_claims_share_a_task_witness:
  "let (f1, s1, r1) = next_start (Some ''w1'') None srv3 sample_rt; (f2, s2, r2) = next_start (Some ''w2'') None s1 r1;
       (d1, s3, r3) = next_finish ''w1'' ''job-a-0'' s2 r2; (d2, s4, r4) = next_finish ''w2'' ''job-a-0'' s3 r3
   in dget d1 ''task_id'' = Some (JStr ''job-a-0'') \<and> dget d2 ''task_id'' = Some (JStr ''job-a-0'') \<and> kept ''job-a-0'' ''w2'' (bs_queue s4)"
proof -
  have one: "jq_tasks (bs_queue srv3) = [(''job-a-0'', one_task)]" "tk_task_id one_task = ''job-a-0''" "tk_status one_task = PENDING"
      "tk_assigned_worker one_task = None"
    by (simp_all add: srv3_def job_queue_init_def jq_load_def one_task_def new_task_def digits)
  then have ok: "assigned_ok (bs_queue srv3)" "claim_search (field None []) (bs_queue srv3) = Some ''job-a-0''"
    by (simp_all add: assigned_ok_def claim_search_def claimable_def field_def)
  obtain f1 s1 r1 where 1: "next_start (Some ''w1'') None srv3 sample_rt = (f1, s1, r1)" by (rule prod_cases3)
  obtain f2 s2 r2 where 2: "next_start (Some ''w2'') None s1 r1 = (f2, s2, r2)" by (rule prod_cases3)
  obtain d1 s3 r3 where 3: "next_finish ''w1'' ''job-a-0'' s2 r2 = (d1, s3, r3)" by (rule prod_cases3)
  obtain d2 s4 r4 where 4: "next_finish ''w2'' ''job-a-0'' s3 r3 = (d2, s4, r4)" by (rule prod_cases3)
  from overlapping_claims_share_a_task [OF ok(1) ok(2) ok(2) 1 2 3 4] show ?thesis by (simp add: 1 2 3 4)
qed

theorem polled_task_is_lost_witness:
  "\<forall>mc. poll_and_work mc sample_client (Some (JObj (fst (next_task (Some ''w2'') (Some ''planner'') srv3 sample_rt)))) (\<lambda>r. Some 200) = (False, None)"
proof -
  obtain d s r where d: "next_task (Some (wc_worker_id sample_client)) (Some ''planner'') srv3 sample_rt = (d, s, r)" using prod_cases3 by blast
  have "find (\<lambda>(k, t). claimable ''planner'' t) (jq_tasks (bs_queue srv3)) = Some (''job-a-0'', one_task)"
    by (simp add: srv3_def job_queue_init_def jq_load_def claimable_def one_task_def new_task_def)
  from polled_task_is_lost [OF this d] d show ?thesis by (simp add: sample_client_def)
qed

end
