(* ===== verification/Py_Regex.thy ===== *)
theory Py_Regex
  imports PyNum
begin

text \<open>
  The part of Python's regular expressions that the artifact interface uses: classes of characters with repetition, \<open>\b\<close>,
  sequence, choice and options. A search only asks whether there is a match, so a pattern is given by all the positions
  at which a match from a position can end. \<open>Rep n p\<close> is exactly \<open>n\<close> characters of a class, \<open>Many n p\<close> at least that many,
  and \<open>Edge\<close> is \<open>\b\<close>.
\<close>

datatype regex =
    Rep nat "char \<Rightarrow> bool"
  | Many nat "char \<Rightarrow> bool"
  | Edge
  | Opt regex
  | Cat regex regex
  | Choice regex regex

text \<open>\<open>\w\<close> on Latin-1: letters, digits, the other numeric characters and the underscore.\<close>

definition is_word :: "char \<Rightarrow> bool" where
  "is_word c = (let n = of_char c :: nat in 48 \<le> n \<and> n \<le> 57 \<or> 65 \<le> n \<and> n \<le> 90 \<or> n = 95 \<or> 97 \<le> n \<and> n \<le> 122 \<or>
     n \<in> {170, 178, 179, 181, 185, 186, 188, 189, 190} \<or> 192 \<le> n \<and> n \<noteq> 215 \<and> n \<noteq> 247)"

text \<open>A position: the character before it and the text after it.\<close>

type_synonym position = "char option \<times> string"

definition word_before :: "position \<Rightarrow> bool" where
  "word_before x = (case fst x of None \<Rightarrow> False | Some c \<Rightarrow> is_word c)"

definition word_after :: "position \<Rightarrow> bool" where
  "word_after x = (case snd x of [] \<Rightarrow> False | c # s \<Rightarrow> is_word c)"

fun skip :: "nat \<Rightarrow> (char \<Rightarrow> bool) \<Rightarrow> position \<Rightarrow> position list" where
  "skip 0 p x = [x]"
| "skip (Suc n) p (b, []) = []"
| "skip (Suc n) p (b, c # s) = (if p c then skip n p (Some c, s) else [])"

lemma skip_numeral [simp]:
  "skip (numeral k) p (b, []) = []"
  "skip (numeral k) p (b, c # s) = (if p c then skip (pred_numeral k) p (Some c, s) else [])"
  by (simp_all add: numeral_eq_Suc)

fun skip_any :: "(char \<Rightarrow> bool) \<Rightarrow> char option \<Rightarrow> string \<Rightarrow> position list" where
  "skip_any p b [] = [(b, [])]"
| "skip_any p b (c # s) = (b, c # s) # (if p c then skip_any p (Some c) s else [])"

fun ends :: "regex \<Rightarrow> position \<Rightarrow> position list" where
  "ends (Rep n p) x = skip n p x"
| "ends (Many n p) x = concat (map (\<lambda>(b, s). skip_any p b s) (skip n p x))"
| "ends Edge x = (if word_before x \<noteq> word_after x then [x] else [])"
| "ends (Opt r) x = ends r x @ [x]"
| "ends (Cat r q) x = concat (map (ends q) (ends r x))"
| "ends (Choice r q) x = ends r x @ ends q x"

fun search_from :: "regex \<Rightarrow> char option \<Rightarrow> string \<Rightarrow> bool" where
  "search_from r b [] \<longleftrightarrow> ends r (b, []) \<noteq> []"
| "search_from r b (c # s) \<longleftrightarrow> ends r (b, c # s) \<noteq> [] \<or> search_from r (Some c) s"

text \<open>\<open>re.search\<close>.\<close>

definition regex_search :: "regex \<Rightarrow> string \<Rightarrow> bool" where
  "regex_search r s = search_from r None s"

abbreviation chars :: "string \<Rightarrow> regex" where
  "chars cs \<equiv> Rep 1 (\<lambda>c. c \<in> set cs)"

text \<open>A literal text, and one that is compared ignoring case.\<close>

fun literal :: "string \<Rightarrow> regex" where
  "literal [] = Rep 0 (\<lambda>c. True)"
| "literal (c # cs) = Cat (Rep 1 ((=) c)) (literal cs)"

fun literal_i :: "string \<Rightarrow> regex" where
  "literal_i [] = Rep 0 (\<lambda>c. True)"
| "literal_i (c # cs) = Cat (Rep 1 (\<lambda>d. lower_char d = lower_char c)) (literal_i cs)"

fun sequence :: "regex list \<Rightarrow> regex" where
  "sequence [] = Rep 0 (\<lambda>c. True)"
| "sequence (r # rs) = Cat r (sequence rs)"

section \<open>Matches inside a text\<close>

text \<open>The character before the end of a text that follows \<open>b\<close>.\<close>

definition past :: "char option \<Rightarrow> string \<Rightarrow> char option" where
  "past b m = foldl (\<lambda>b c. Some c) b m"

lemma past_simps [simp]: "past b [] = b" "past b (c # m) = past (Some c) m" "past b (m @ k) = past (past b m) k"
  by (simp_all add: past_def)

lemma past_last: "m \<noteq> [] \<Longrightarrow> past b m = Some (last m)"
  by (induction m arbitrary: b) auto

lemma search_from_at: "ends r (past b a, s) \<noteq> [] \<Longrightarrow> search_from r b (a @ s)"
  by (induction a arbitrary: b) (auto, cases s, auto)

text \<open>A pattern fits a text if it matches it in every context.\<close>

definition fits :: "regex \<Rightarrow> string \<Rightarrow> bool" where
  "fits r m \<longleftrightarrow> (\<forall>b s. (past b m, s) \<in> set (ends r (b, m @ s)))"

lemma fits_Cat: "fits r m \<Longrightarrow> fits q k \<Longrightarrow> fits (Cat r q) (m @ k)"
  by (force simp: fits_def)

lemma skip_all: "list_all p m \<Longrightarrow> skip (length m) p (b, m @ s) = [(past b m, s)]"
  by (induction m arbitrary: b) simp_all

lemma fits_Rep: "list_all p m \<Longrightarrow> length m = n \<Longrightarrow> fits (Rep n p) m"
  using skip_all by (fastforce simp: fits_def)

lemma fits_skip_any: "list_all p m \<Longrightarrow> (past b m, s) \<in> set (skip_any p b (m @ s))"
  by (induction m arbitrary: b) (auto, cases s, auto)

lemma fits_Many:
  assumes "list_all p m" and "n \<le> length m"
  shows "fits (Many n p) m"
proof -
  have "list_all p (take n m)" "list_all p (drop n m)"
    using assms(1) by (auto simp: list_all_iff dest: in_set_takeD in_set_dropD)
  then have "(past b (take n m @ drop n m), s) \<in> set (ends (Many n p) (b, take n m @ drop n m @ s))" for b s
    using skip_all [of p "take n m" b "drop n m @ s"] fits_skip_any [of p "drop n m" "past b (take n m)" s] assms(2)
    unfolding past_simps(3) by simp
  then show ?thesis unfolding fits_def by (metis append.assoc append_take_drop_id)
qed

lemma fits_Opt: "fits (Opt r) []"
  by (simp add: fits_def)

lemma fits_literal: "fits (literal p) p"
proof (induction p)
  case (Cons c p)
  have "fits (Rep 1 ((=) c)) [c]" by (rule fits_Rep) simp_all
  from fits_Cat [OF this Cons] show ?case by simp
qed (simp add: fits_def)

lemma fits_sequence: "list_all2 fits rs ms \<Longrightarrow> fits (sequence rs) (concat ms)"
  by (induction rs ms rule: list_all2_induct) (simp_all add: fits_Cat fits_Rep)

lemma fits_search:
  assumes "fits r m"
  shows "regex_search r (a @ m @ b)"
proof -
  have "ends r (past None a, m @ b) \<noteq> []" using assms unfolding fits_def by (metis empty_iff empty_set)
  then show ?thesis unfolding regex_search_def by (rule search_from_at)
qed

text \<open>A word of an exact length that stands alone is found.\<close>

lemma word_found:
  assumes "list_all p m" and "length m = n" and "m \<noteq> []" and "\<And>c. p c \<Longrightarrow> is_word c"
    and "a = [] \<or> \<not> is_word (last a)" and "b = [] \<or> \<not> is_word (hd b)"
  shows "regex_search (sequence [Edge, Rep n p, Edge]) (a @ m @ b)"
proof -
  have w: "is_word (hd m)" "is_word (last m)" using assms(1,3,4) by (auto simp: list_all_iff)
  have "\<not> word_before (past None a, m @ b)" using assms(5) by (cases "a = []") (simp_all add: word_before_def past_last)
  moreover have "word_after (past None a, m @ b)" using assms(3) w(1) by (cases m) (simp_all add: word_after_def)
  moreover have "word_before (past (past None a) m, b)" using assms(3) w(2) by (simp add: word_before_def past_last)
  moreover have "\<not> word_after (past (past None a) m, b)" using assms(6) by (cases b) (simp_all add: word_after_def)
  ultimately have "ends (sequence [Edge, Rep n p, Edge]) (past None a, m @ b) = [(past (past None a) m, b)]"
    using skip_all [OF assms(1), of "past None a" b] assms(2) by simp
  then show ?thesis unfolding regex_search_def by (intro search_from_at) simp
qed

text \<open>A single word is found only at its own length.\<close>

lemma skip_prefix: "y \<in> set (skip n p x) \<Longrightarrow> \<exists>m. snd x = m @ snd y \<and> length m = n \<and> fst y = past (fst x) m"
proof (induction n p x rule: skip.induct)
  case (3 n p b c s)
  then obtain m where "s = m @ snd y" "length m = n" "fst y = past (Some c) m" by (auto split: if_splits)
  then show ?case by (intro exI [of _ "c # m"]) simp
qed simp_all

lemma lone_word:
  assumes "list_all is_word m" and "length m \<noteq> n" and "0 < n"
  shows "\<not> regex_search (sequence [Edge, Rep n p, Edge]) m"
proof -
  have "ends (sequence [Edge, Rep n p, Edge]) (past None a, s) = []" if "m = a @ s" for a s
  proof (rule ccontr)
    assume "ends (sequence [Edge, Rep n p, Edge]) (past None a, s) \<noteq> []"
    then obtain y where e1: "word_before (past None a, s) \<noteq> word_after (past None a, s)" and y: "y \<in> set (skip n p (past None a, s))"
      and e2: "word_before y \<noteq> word_after y"
      by (auto split: if_splits simp: neq_Nil_conv)
    obtain k where k: "s = k @ snd y" "length k = n" "fst y = past (past None a) k" using skip_prefix [OF y] by auto
    have "k \<noteq> []" using k(2) assms(3) by auto
    have "word_before (past None a, s) \<longleftrightarrow> a \<noteq> []"
      using assms(1) that by (cases "a = []") (auto simp: word_before_def past_last list_all_iff)
    moreover have "word_after (past None a, s)" using assms(1) that k(1) \<open>k \<noteq> []\<close> by (cases k) (auto simp: word_after_def)
    ultimately have "a = []" using e1 by simp
    have "word_before y" using assms(1) that k \<open>k \<noteq> []\<close> by (cases y) (auto simp: word_before_def past_last list_all_iff)
    with e2 have "snd y = []" using assms(1) that k(1) by (cases y; cases "snd y") (auto simp: word_after_def)
    with k that \<open>a = []\<close> assms(2) show False by simp
  qed
  then have "\<not> search_from (sequence [Edge, Rep n p, Edge]) (past None a) s" if "m = a @ s" for a s
    using that
  proof (induction s arbitrary: a)
    case (Cons c s)
    from Cons.prems(1) [OF Cons.prems(2)] Cons.IH [OF Cons.prems(1), of "a @ [c]"] Cons.prems(2) show ?case
      unfolding search_from.simps by simp
  next
    case Nil
    from Nil.prems(1) [OF Nil.prems(2)] show ?case unfolding search_from.simps by simp
  qed
  from this [of "[]" m] show ?thesis by (simp add: regex_search_def)
qed

end
