(* ===== verification/Byte_Tokenizer.thy ===== *)
theory Byte_Tokenizer
  imports Sdk_Base
begin

text \<open>
  \<open>membra_sdk/llm/tokenizer.py\<close>: text as the bytes of UTF-8, and any sequence of tokens back to text. A string of Python is a sequence of code
  points, of which the surrogates cannot be encoded; reading replaces each maximal ill-formed part by U+FFFD, as \<open>errors="replace"\<close> does.
\<close>

section \<open>Strings and UTF-8\<close>

type_synonym code_points = "nat list"

definition surrogate :: "nat \<Rightarrow> bool" where
  "surrogate c \<longleftrightarrow> 0xD800 \<le> c \<and> c < 0xE000"

definition py_str :: "code_points \<Rightarrow> bool" where
  "py_str s \<longleftrightarrow> list_all (\<lambda>c. c < 0x110000) s"

definition scalar :: "nat \<Rightarrow> bool" where
  "scalar c \<longleftrightarrow> c < 0x110000 \<and> \<not> surrogate c"

datatype tokenizer_error = UnicodeEncodeError | AssertionError

definition trail :: "nat \<Rightarrow> nat" where
  "trail n = 0x80 + n mod 64"

definition utf8_bytes :: "nat \<Rightarrow> nat list" where
  "utf8_bytes c =
     (if c < 0x80 then [c]
      else if c < 0x800 then [0xC0 + c div 64, trail c]
      else if c < 0x10000 then [0xE0 + c div 4096, trail (c div 64), trail c]
      else [0xF0 + c div 262144, trail (c div 4096), trail (c div 64), trail c])"

definition utf8_encode :: "code_points \<Rightarrow> tokenizer_error + nat list" where
  "utf8_encode s = (if list_ex surrogate s then Inl UnicodeEncodeError else Inr (concat (map utf8_bytes s)))"

definition is_trail :: "nat \<Rightarrow> bool" where
  "is_trail b \<longleftrightarrow> 0x80 \<le> b \<and> b < 0xC0"

text \<open>The second bytes a first byte allows.\<close>

definition second_ok :: "nat \<Rightarrow> nat \<Rightarrow> bool" where
  "second_ok b d \<longleftrightarrow> (if b = 0xE0 then 0xA0 else if b = 0xF0 then 0x90 else 0x80) \<le> d \<and> d < (if b = 0xED then 0xA0 else if b = 0xF4 then 0x90 else 0xC0)"

definition replacement :: nat where "replacement = 0xFFFD"

text \<open>The code point at the start of some bytes, and the rest after it.\<close>

definition utf8_next :: "nat \<Rightarrow> nat list \<Rightarrow> nat \<times> nat list" where
  "utf8_next b bs =
     (if b < 0x80 then (b, bs)
      else if 0xC2 \<le> b \<and> b < 0xE0 then
        (case bs of d # ds \<Rightarrow> if is_trail d then ((b - 0xC0) * 64 + (d - 0x80), ds) else (replacement, bs) | [] \<Rightarrow> (replacement, bs))
      else if 0xE0 \<le> b \<and> b < 0xF5 then
        (case bs of d # ds \<Rightarrow> if \<not> second_ok b d then (replacement, bs)
             else (case ds of e # es \<Rightarrow> if \<not> is_trail e then (replacement, ds)
                 else if b < 0xF0 then ((b - 0xE0) * 4096 + (d - 0x80) * 64 + (e - 0x80), es)
                 else (case es of f # fs \<Rightarrow> if is_trail f then ((b - 0xF0) * 262144 + (d - 0x80) * 4096 + (e - 0x80) * 64 + (f - 0x80), fs) else (replacement, es)
                       | [] \<Rightarrow> (replacement, es))
               | [] \<Rightarrow> (replacement, ds))
         | [] \<Rightarrow> (replacement, bs))
      else (replacement, bs))"

lemma utf8_next_shorter: "utf8_next b bs = (c, ds) \<Longrightarrow> length ds \<le> length bs"
  by (auto simp: utf8_next_def split: if_splits list.splits)

function utf8_decode :: "nat list \<Rightarrow> code_points" where
  "utf8_decode [] = []"
| "utf8_decode (b # bs) = (let (c, ds) = utf8_next b bs in c # utf8_decode ds)"
  by pat_completeness auto
termination by (relation "measure length") (simp, metis in_measure le_imp_less_Suc length_Cons utf8_next_shorter)

section \<open>The tokenizer\<close>

definition vocab_size :: nat where "vocab_size = 256"

definition bos_token :: int where "bos_token = 256"

definition eos_token :: int where "eos_token = 257"

definition tok_encode :: "code_points \<Rightarrow> tokenizer_error + int list" where
  "tok_encode s = (case utf8_encode s of Inl e \<Rightarrow> Inl e | Inr bs \<Rightarrow> Inr (map int bs))"

definition tok_decode :: "int list \<Rightarrow> code_points" where
  "tok_decode ts = utf8_decode (map nat (filter (\<lambda>t. 0 \<le> t \<and> t < 256) ts))"

definition encode_with_bos :: "code_points \<Rightarrow> tokenizer_error + int list" where
  "encode_with_bos s = (case tok_encode s of Inl e \<Rightarrow> Inl e | Inr ts \<Rightarrow> Inr (bos_token # ts))"

definition encode_with_eos :: "code_points \<Rightarrow> tokenizer_error + int list" where
  "encode_with_eos s = (case tok_encode s of Inl e \<Rightarrow> Inl e | Inr ts \<Rightarrow> Inr (ts @ [eos_token]))"

definition encode_full :: "code_points \<Rightarrow> tokenizer_error + int list" where
  "encode_full s = (case tok_encode s of Inl e \<Rightarrow> Inl e | Inr ts \<Rightarrow> Inr (bos_token # ts @ [eos_token]))"

text \<open>The file written, and reading one.\<close>

definition tokenizer_save :: "json dict" where
  "tokenizer_save = [(''type'', JStr ''byte''), (''vocab_size'', JInt (int vocab_size))]"

definition tokenizer_load :: "json dict \<Rightarrow> tokenizer_error + unit" where
  "tokenizer_load d = (if dget d ''type'' = Some (JStr ''byte'') then Inr () else Inl AssertionError)"

section \<open>Reading back what was written\<close>

lemma utf8_next_char:
  assumes "scalar c"
  shows "\<exists>b bs. utf8_bytes c = b # bs \<and> utf8_next b (bs @ ds) = (c, ds)"
proof -
  have parts: "c = c div 64 * 64 + c mod 64" "c div 64 = c div 4096 * 64 + c div 64 mod 64" "c div 4096 = c div 262144 * 64 + c div 4096 mod 64"
    using div_mult2_eq [of c 64 64] div_mult2_eq [of c 4096 64] by simp_all
  consider "c < 0x80" | "0x80 \<le> c" "c < 0x800" | "0x800 \<le> c" "c < 0x10000" | "0x10000 \<le> c" "c < 0x110000"
    using assms by (force simp: scalar_def)
  then show ?thesis
  proof cases
    case 1
    then show ?thesis by (simp add: utf8_bytes_def utf8_next_def)
  next
    case 2
    then have "2 \<le> c div 64" "c div 64 < 32" using div_le_mono [of 128 c 64] by (simp_all add: less_mult_imp_div_less)
    moreover have "c = c div 64 * 64 + c mod 64" by (rule parts(1))
    ultimately show ?thesis using 2 unfolding utf8_bytes_def utf8_next_def trail_def is_trail_def
      by (cases "c div 64 < 32") (simp_all del: div_less_iff_less_mult)
  next
    case 3
    then have hi: "c div 4096 < 16" by linarith
    have "second_ok (0xE0 + c div 4096) (trail (c div 64))"
    proof -
      have "32 \<le> c div 64 mod 64" if "c div 4096 = 0" using that 3 parts(2) by linarith
      moreover have "c div 64 mod 64 < 32" if hi: "c div 4096 = 13"
      proof -
        have "c div 64 mod 64 < 64" "c mod 64 < 64" by simp_all
        then have "c < 0xE000" using parts(1,2) hi by linarith
        then have "c < 864 * 64" using assms by (auto simp: scalar_def surrogate_def)
        then have "c div 64 < 864" by (rule less_mult_imp_div_less)
        then show ?thesis using parts(2) hi by linarith
      qed
      ultimately show ?thesis using hi by (auto simp: second_ok_def trail_def)
    qed
    moreover have "c = c div 4096 * 4096 + c div 64 mod 64 * 64 + c mod 64" using parts(1,2) by linarith
    ultimately show ?thesis using 3 hi by (simp add: utf8_bytes_def utf8_next_def trail_def is_trail_def)
  next
    case 4
    then have hi: "c div 262144 < 5" by linarith
    have "second_ok (0xF0 + c div 262144) (trail (c div 4096))"
    proof -
      have "16 \<le> c div 4096 mod 64" if "c div 262144 = 0" using that 4 parts(3) by linarith
      moreover have "c div 4096 mod 64 < 16" if "c div 262144 = 4" using that 4 parts(3) by linarith
      ultimately show ?thesis using hi by (auto simp: second_ok_def trail_def)
    qed
    moreover have "c = c div 262144 * 262144 + c div 4096 mod 64 * 4096 + c div 64 mod 64 * 64 + c mod 64" using parts by linarith
    ultimately show ?thesis using 4 hi by (simp add: utf8_bytes_def utf8_next_def trail_def is_trail_def)
  qed
qed

lemma utf8_decode_chars: "list_all scalar s \<Longrightarrow> utf8_decode (concat (map utf8_bytes s) @ bs) = s @ utf8_decode bs"
proof (induction s)
  case (Cons c s)
  then obtain b ds where "utf8_bytes c = b # ds" "utf8_next b (ds @ concat (map utf8_bytes s) @ bs) = (c, concat (map utf8_bytes s) @ bs)"
    using utf8_next_char [of c "concat (map utf8_bytes s) @ bs"] by auto
  with Cons show ?case by simp
qed simp

text \<open>What is read is always a text that can be written.\<close>

lemma utf8_next_scalar: "b < 256 \<Longrightarrow> utf8_next b bs = (c, ds) \<Longrightarrow> scalar c"
  by (auto simp: utf8_next_def scalar_def surrogate_def replacement_def is_trail_def second_ok_def split: if_splits list.splits)

lemma utf8_next_bytes: "list_all (\<lambda>b. b < 256) bs \<Longrightarrow> utf8_next b bs = (c, ds) \<Longrightarrow> list_all (\<lambda>b. b < 256) ds"
  by (auto simp: utf8_next_def split: if_splits list.splits)

lemma utf8_decode_scalar: "list_all (\<lambda>b. b < 256) bs \<Longrightarrow> list_all scalar (utf8_decode bs)"
proof (induction bs rule: utf8_decode.induct)
  case (2 b bs)
  then show ?case using utf8_next_scalar utf8_next_bytes by (auto split: prod.splits)
qed simp

lemma utf8_char_bytes: "c < 0x110000 \<Longrightarrow> list_all (\<lambda>b. b < 256) (utf8_bytes c)"
  by (auto simp: utf8_bytes_def trail_def)

lemma utf8_encode_ok: "list_all scalar s \<Longrightarrow> utf8_encode s = Inr (concat (map utf8_bytes s))"
  by (auto simp: utf8_encode_def scalar_def list_all_iff list_ex_iff)

lemma encode_bytes: "py_str s \<Longrightarrow> list_all (\<lambda>b. b < 256) (concat (map utf8_bytes s))"
  using utf8_char_bytes by (fastforce simp: py_str_def list_all_iff)

lemma decode_bytes: "list_all (\<lambda>b. b < 256) bs \<Longrightarrow> tok_decode (map int bs) = utf8_decode bs"
proof -
  assume "list_all (\<lambda>b. b < 256) bs"
  then have "map nat (filter (\<lambda>t. 0 \<le> t \<and> t < 256) (map int bs)) = bs" by (induction bs) auto
  then show ?thesis by (simp add: tok_decode_def)
qed

lemma decode_sentinels [simp]: "tok_decode (bos_token # ts) = tok_decode ts" "tok_decode (ts @ [eos_token]) = tok_decode ts"
  by (simp_all add: tok_decode_def bos_token_def eos_token_def)

lemma decode_encode: "list_all scalar s \<Longrightarrow> tok_encode s = Inr ts \<Longrightarrow> tok_decode ts = s"
proof -
  assume s: "list_all scalar s" and e: "tok_encode s = Inr ts"
  then have "py_str s" by (simp add: py_str_def scalar_def list_all_iff)
  moreover have "ts = map int (concat (map utf8_bytes s))" using e utf8_encode_ok [OF s] by (simp add: tok_encode_def)
  ultimately show "tok_decode ts = s" using encode_bytes decode_bytes utf8_decode_chars [OF s, of "[]"] by simp
qed

lemma decode_scalar: "list_all scalar (tok_decode ts)"
  unfolding tok_decode_def by (rule utf8_decode_scalar) (auto simp: list_all_iff)

section \<open>Properties\<close>

text \<open>
  C35. Texts survive the tokenizer: a text is encoded exactly when it has no surrogate, its tokens are below the size of the vocabulary, and decoding them, with or without the
  two sentinels, gives the text. Decoding accepts every list of integers, and what it gives is a text that is encoded again and decodes to itself.
\<close>

theorem tokenizer_round_trip:
  assumes "py_str s"
  shows "(case tok_encode s of
      Inl e \<Rightarrow> e = UnicodeEncodeError \<and> list_ex surrogate s \<and> encode_full s = Inl e
    | Inr ts \<Rightarrow> \<not> list_ex surrogate s \<and> (\<forall>t \<in> set ts. 0 \<le> t \<and> t < int vocab_size) \<and> tok_decode ts = s \<and> (\<exists>us. encode_full s = Inr us \<and> tok_decode us = s)) \<and>
    (\<exists>us. tok_encode (tok_decode xs) = Inr us \<and> tok_decode us = tok_decode xs)"
proof (intro conjI)
  have "\<exists>us. tok_encode (tok_decode xs) = Inr us" using utf8_encode_ok [OF decode_scalar] by (simp add: tok_encode_def)
  then show "\<exists>us. tok_encode (tok_decode xs) = Inr us \<and> tok_decode us = tok_decode xs" using decode_encode [OF decode_scalar] by blast
  show "case tok_encode s of
      Inl e \<Rightarrow> e = UnicodeEncodeError \<and> list_ex surrogate s \<and> encode_full s = Inl e
    | Inr ts \<Rightarrow> \<not> list_ex surrogate s \<and> (\<forall>t \<in> set ts. 0 \<le> t \<and> t < int vocab_size) \<and> tok_decode ts = s \<and> (\<exists>us. encode_full s = Inr us \<and> tok_decode us = s)"
  proof (cases "list_ex surrogate s")
    case True
    then show ?thesis by (simp add: tok_encode_def utf8_encode_def encode_full_def)
  next
    case False
    then have s: "list_all scalar s" using assms by (auto simp: py_str_def scalar_def list_all_iff list_ex_iff)
    define ts where "ts = map int (concat (map utf8_bytes s))"
    have e: "tok_encode s = Inr ts" using utf8_encode_ok [OF s] by (simp add: tok_encode_def ts_def)
    have "\<forall>t \<in> set ts. 0 \<le> t \<and> t < int vocab_size"
      using encode_bytes [OF assms] by (auto simp: ts_def vocab_size_def list_all_iff)
    then show ?thesis using False e decode_encode [OF s e] by (simp add: encode_full_def)
  qed
qed

lemma tokenizer_reloads: "tokenizer_load tokenizer_save = Inr ()"
  by (simp add: tokenizer_load_def tokenizer_save_def)

section \<open>A concrete run\<close>

theorem tokenizer_round_trip_witness:
  "tok_encode [0x68, 0xE9, 0x20AC, 0x1F600] = Inr [104, 195, 169, 226, 130, 172, 240, 159, 152, 128] \<and>
   tok_decode [104, 195, 169, 226, 130, 172, 240, 159, 152, 128] = [0x68, 0xE9, 0x20AC, 0x1F600] \<and> tok_decode [-1, 226, 130, 65] = [0xFFFD, 65]"
proof -
  have "py_str [0x68, 0xE9, 0x20AC, 0x1F600]" by (simp add: py_str_def)
  moreover have e: "tok_encode [0x68, 0xE9, 0x20AC, 0x1F600] = Inr [104, 195, 169, 226, 130, 172, 240, 159, 152, 128]"
    by (simp add: tok_encode_def utf8_encode_def utf8_bytes_def trail_def surrogate_def)
  moreover have "tok_decode [-1, 226, 130, 65] = [0xFFFD, 65]"
    by (simp add: tok_decode_def utf8_next_def second_ok_def is_trail_def replacement_def)
  ultimately show ?thesis using tokenizer_round_trip [of "[0x68, 0xE9, 0x20AC, 0x1F600]" "[]"] by simp
qed

end
