(* ===== verification/Defi_Operator.thy ===== *)
theory Defi_Operator
  imports PyNum
begin

text \<open>
  \<open>membra_sdk/config.py\<close> and \<open>membra_sdk/defi/operator.py\<close>: the mode of the library, read from the environment, and the operator of
  simulated liquidity positions behind its policy gates. The environment is a dictionary.
\<close>

section \<open>Configuration\<close>

datatype membra_mode = SIMULATION | PRODUCTION

fun membra_mode_value :: "membra_mode \<Rightarrow> string" where
  "membra_mode_value SIMULATION = ''simulation''"
| "membra_mode_value PRODUCTION = ''production''"

definition membra_mode_of :: "string \<Rightarrow> membra_mode result" where
  "membra_mode_of s = (if s = ''simulation'' then Inr SIMULATION else if s = ''production'' then Inr PRODUCTION
     else Inl (ValueError (repr_str s @ '' is not a valid MembraMode'')))"

record membra_config =
  mf_mode :: membra_mode
  mf_stripe_secret_key :: string
  mf_stripe_publishable_key :: string
  mf_solana_rpc :: string
  mf_groq_api_key :: string

definition membra_config_init :: "string dict \<Rightarrow> membra_config result" where
  "membra_config_init env = rbind (membra_mode_of (lower (dget_default env ''MEMBRA_MODE'' ''simulation''))) (\<lambda>m.
     Inr \<lparr>mf_mode = m, mf_stripe_secret_key = dget_default env ''STRIPE_SECRET_KEY'' [], mf_stripe_publishable_key = dget_default env ''STRIPE_PUBLISHABLE_KEY'' [],
       mf_solana_rpc = dget_default env ''SOLANA_RPC_URL'' ''https://api.devnet.solana.com'', mf_groq_api_key = dget_default env ''GROQ_API_KEY'' []\<rparr>)"

definition is_simulation :: "membra_config \<Rightarrow> bool" where
  "is_simulation c \<longleftrightarrow> mf_mode c = SIMULATION"

definition is_production :: "membra_config \<Rightarrow> bool" where
  "is_production c \<longleftrightarrow> mf_mode c = PRODUCTION"

definition require_production :: "string \<Rightarrow> membra_config \<Rightarrow> unit result" where
  "require_production action c = (if is_simulation c then
     Inl (RuntimeError (''Action '' @ [CHR 0x27] @ action @ [CHR 0x27] @ '' requires MEMBRA_MODE=production. Current mode: '' @ membra_mode_value (mf_mode c)
       @ ''. Set MEMBRA_MODE=production and configure real API keys.'')) else Inr ())"

record config_status =
  cf_mode :: string
  cf_stripe_configured :: bool
  cf_solana_rpc :: string
  cf_groq_configured :: bool
  cf_safe_for_development :: bool

definition config_get_status :: "membra_config \<Rightarrow> config_status" where
  "config_get_status c = \<lparr>cf_mode = membra_mode_value (mf_mode c), cf_stripe_configured = (mf_stripe_secret_key c \<noteq> []), cf_solana_rpc = mf_solana_rpc c,
     cf_groq_configured = (mf_groq_api_key c \<noteq> []), cf_safe_for_development = is_simulation c\<rparr>"

section \<open>Operator\<close>

record liquidity_position =
  lp_pool_id :: string
  lp_token_a :: string
  lp_token_b :: string
  lp_amount_a :: pyfloat
  lp_amount_b :: pyfloat
  lp_entry_price :: pyfloat
  lp_current_price :: pyfloat
  lp_impermanent_loss :: pyfloat
  lp_fees_earned :: pyfloat
  lp_timestamp :: pyfloat

record yield_opportunity =
  yo_protocol :: string
  yo_pool_address :: string
  yo_token_a :: string
  yo_token_b :: string
  yo_apy_estimate :: pyfloat
  yo_tvl :: pyfloat
  yo_risk_score :: pyfloat
  yo_timestamp :: pyfloat

record defi_config =
  df_enable_defi :: bool
  df_network :: string
  df_user_acknowledged :: bool
  df_solana_rpc :: string
  df_max_risk_score :: pyfloat
  df_min_apy :: pyfloat

definition defi_config_default :: defi_config where
  "defi_config_default = \<lparr>df_enable_defi = False, df_network = ''none'', df_user_acknowledged = False,
     df_solana_rpc = ''https://api.devnet.solana.com'', df_max_risk_score = Fin 5, df_min_apy = Fin 5\<rparr>"

record defi_operator =
  op_config :: defi_config
  op_positions :: "liquidity_position list"
  op_opportunities :: "yield_opportunity list"
  op_total_deployed :: pyfloat
  op_total_fees :: pyfloat

definition enforce_policy :: "defi_config \<Rightarrow> unit result" where
  "enforce_policy c =
     (if \<not> df_enable_defi c then Inl (PolicyError ''DeFi operator is DISABLED by default. Use --enable-defi to opt in. See docs/SECURITY.md'')
      else if df_network c \<noteq> ''devnet'' then
        Inl (PolicyError (''DeFi only allowed on devnet. Got network='' @ [CHR 0x27] @ df_network c @ [CHR 0x27] @ ''. Use --network devnet.''))
      else if \<not> df_user_acknowledged c then
        Inl (PolicyError ''User must explicitly acknowledge risk. Set user_acknowledged=True after reading WARNING.'')
      else Inr ())"

definition defi_operator_init :: "defi_config option \<Rightarrow> defi_operator result" where
  "defi_operator_init config = (let c = (case config of None \<Rightarrow> defi_config_default | Some c \<Rightarrow> c) in
     rbind (enforce_policy c) (\<lambda>_. Inr \<lparr>op_config = c, op_positions = [], op_opportunities = [], op_total_deployed = Fin 0, op_total_fees = Fin 0\<rparr>))"

definition scan_opportunities :: "defi_operator \<Rightarrow> runtime \<Rightarrow> yield_opportunity list \<times> defi_operator \<times> runtime" where
  "scan_opportunities d rt = (let (now, rt) = time_time rt;
       os = [\<lparr>yo_protocol = ''raydium'', yo_pool_address = ''sim_pool_1'', yo_token_a = ''SOL'', yo_token_b = ''USDC'', yo_apy_estimate = Fin (25 / 2),
         yo_tvl = Fin 5000000, yo_risk_score = Fin 3, yo_timestamp = now\<rparr>]
     in (os, d\<lparr>op_opportunities := os\<rparr>, rt))"

definition evaluate_risk :: "yield_opportunity \<Rightarrow> bool" where
  "evaluate_risk o' \<longleftrightarrow> flt (yo_risk_score o') (Fin 5) \<and> flt (Fin 5) (yo_apy_estimate o')"

definition simulate_deploy :: "yield_opportunity \<Rightarrow> pyfloat \<Rightarrow> defi_operator \<Rightarrow> runtime \<Rightarrow> liquidity_position result \<times> defi_operator \<times> runtime" where
  "simulate_deploy o' amount d rt = (case fdiv amount (Fin 2) of Inl x \<Rightarrow> (Inl x, d, rt)
     | Inr half \<Rightarrow> let (now, rt) = time_time rt;
         p = \<lparr>lp_pool_id = yo_pool_address o', lp_token_a = yo_token_a o', lp_token_b = yo_token_b o', lp_amount_a = half, lp_amount_b = half,
           lp_entry_price = Fin 100, lp_current_price = Fin 100, lp_impermanent_loss = Fin 0, lp_fees_earned = Fin 0, lp_timestamp = now\<rparr>
       in (Inr p, d\<lparr>op_positions := op_positions d @ [p], op_total_deployed := fadd (op_total_deployed d) amount\<rparr>, rt))"

record yield_proof =
  yp_total_deployed :: pyfloat
  yp_total_fees_earned :: pyfloat
  yp_positions :: int
  yp_avg_impermanent_loss :: pyfloat
  yp_timestamp :: pyfloat
  yp_status :: string

definition get_proof_of_yield :: "defi_operator \<Rightarrow> runtime \<Rightarrow> yield_proof result \<times> runtime" where
  "get_proof_of_yield d rt = (case rbind (of_pyint (max (int (length (op_positions d))) 1)) (\<lambda>n. fdiv (fsum (map lp_impermanent_loss (op_positions d))) n) of
       Inl x \<Rightarrow> (Inl x, rt)
     | Inr avg \<Rightarrow> let (now, rt) = time_time rt in (Inr \<lparr>yp_total_deployed = op_total_deployed d, yp_total_fees_earned = op_total_fees d,
         yp_positions = int (length (op_positions d)), yp_avg_impermanent_loss = avg, yp_timestamp = now,
         yp_status = ''SIMULATED '' @ [CHR 0xE2, CHR 0x80, CHR 0x94] @ '' NO REAL YIELD''\<rparr>, rt))"

record defi_stats =
  ds_positions :: int
  ds_opportunities_scanned :: int
  ds_total_deployed :: pyfloat
  ds_total_fees :: pyfloat
  ds_status :: string

definition defi_get_stats :: "defi_operator \<Rightarrow> defi_stats" where
  "defi_get_stats d = \<lparr>ds_positions = int (length (op_positions d)), ds_opportunities_scanned = int (length (op_opportunities d)),
     ds_total_deployed = op_total_deployed d, ds_total_fees = op_total_fees d, ds_status = ''PROTOTYPE '' @ [CHR 0xE2, CHR 0x80, CHR 0x94] @ '' DISABLED BY DEFAULT''\<rparr>"

section \<open>Nothing happens without the policy\<close>

inductive defi_step :: "defi_operator \<times> runtime \<Rightarrow> defi_operator \<times> runtime \<Rightarrow> bool" where
  scan: "scan_opportunities d rt = (os, d', rt') \<Longrightarrow> defi_step (d, rt) (d', rt')"
| deploy: "simulate_deploy o' amount d rt = (r, d', rt') \<Longrightarrow> defi_step (d, rt) (d', rt')"

definition defi_ok :: "defi_operator \<Rightarrow> bool" where
  "defi_ok d \<longleftrightarrow> df_enable_defi (op_config d) \<and> df_network (op_config d) = ''devnet'' \<and> df_user_acknowledged (op_config d) \<and>
     op_total_fees d = Fin 0 \<and> list_all (\<lambda>p. lp_fees_earned p = Fin 0 \<and> lp_impermanent_loss p = Fin 0 \<and> lp_amount_a p = lp_amount_b p) (op_positions d)"

lemma defi_init_ok: "defi_operator_init c = Inr d \<Longrightarrow> defi_ok d"
  by (auto simp: defi_operator_init_def enforce_policy_def defi_ok_def Let_def split: if_splits)

lemma defi_run_ok: "defi_step\<^sup>*\<^sup>* s t \<Longrightarrow> defi_ok (fst s) \<Longrightarrow> defi_ok (fst t)"
proof (induction rule: rtranclp_induct)
  case (step t u)
  then have "defi_ok (fst t)" by blast
  with step.hyps(2) show ?case
    by (cases rule: defi_step.cases)
       (auto simp: scan_opportunities_def simulate_deploy_def defi_ok_def Let_def time_time_def split: sum.splits)
qed simp

lemma fsum_zeros: "list_all (\<lambda>p. f p = Fin 0) ps \<Longrightarrow> fsum (map f ps) = Fin 0"
proof -
  have "list_all (\<lambda>p. f p = Fin 0) ps \<Longrightarrow> fold (\<lambda>x acc. fadd acc x) (map f ps) (Fin 0) = Fin 0" by (induction ps) simp_all
  then show "list_all (\<lambda>p. f p = Fin 0) ps \<Longrightarrow> fsum (map f ps) = Fin 0" by (simp add: fsum_def)
qed

text \<open>
  The operator acts only behind its gates and never reports a yield: an operator exists only if it was enabled, on devnet and with the
  risk acknowledged, and stays so; in every run all fees and losses are zero, and the proof of yield is marked as simulated and
  reports no fees, as long as there are at most two to the power of 53 positions.
\<close>

theorem defi_is_gated:
  assumes "defi_operator_init config = Inr d0" and "defi_step\<^sup>*\<^sup>* (d0, rt0) (d, rt)" and "int (length (op_positions d)) \<le> 2 ^ 53"
  shows "df_enable_defi (op_config d) \<and> df_network (op_config d) = ''devnet'' \<and> df_user_acknowledged (op_config d) \<and>
    (\<exists>p. fst (get_proof_of_yield d rt) = Inr p \<and> yp_total_fees_earned p = Fin 0 \<and> yp_avg_impermanent_loss p = Fin 0 \<and>
       yp_positions p = int (length (op_positions d)) \<and> take 9 (yp_status p) = ''SIMULATED'')"
proof -
  have ok: "defi_ok d" using defi_run_ok [OF assms(2)] defi_init_ok [OF assms(1)] by simp
  let ?n = "max (int (length (op_positions d))) 1"
  have n: "of_pyint ?n = Inr (Fin (of_int ?n))" using assms(3) by (intro of_pyint_small) simp
  have "fsum (map lp_impermanent_loss (op_positions d)) = Fin 0" using ok by (intro fsum_zeros) (auto simp: defi_ok_def list_all_iff)
  moreover have "(of_int ?n :: rat) \<noteq> 0" by simp
  ultimately have "rbind (of_pyint ?n) (\<lambda>n. fdiv (fsum (map lp_impermanent_loss (op_positions d))) n) = Inr (Fin 0)" unfolding n by simp
  then show ?thesis using ok by (simp add: get_proof_of_yield_def time_time_def defi_ok_def)
qed

text \<open>The default configuration is refused, and in simulation mode every production action is.\<close>

lemma defi_disabled_by_default: "\<exists>msg. defi_operator_init None = Inl (PolicyError msg)"
  by (simp add: defi_operator_init_def enforce_policy_def defi_config_default_def)

lemma simulation_by_default:
  assumes "dget env ''MEMBRA_MODE'' = None"
  shows "\<exists>c. membra_config_init env = Inr c \<and> is_simulation c \<and> (\<exists>msg. require_production action c = Inl (RuntimeError msg))"
proof -
  have "lower ''simulation'' = ''simulation''" by code_simp
  then show ?thesis using assms by (simp add: membra_config_init_def membra_mode_of_def dget_default_def is_simulation_def require_production_def)
qed

text \<open>Deploying is not tied to the risk filter or to the limits of the configuration: any opportunity is accepted.\<close>

lemma risk_filter_is_not_enforced:
  assumes "\<not> evaluate_risk o'" and "simulate_deploy o' (Fin a) d rt = (r, d', rt')"
  shows "length (op_positions d') = length (op_positions d) + 1"
  using assms(2) by (auto simp: simulate_deploy_def Let_def time_time_def)

theorem defi_is_gated_witness:
  "let c = defi_config_default\<lparr>df_enable_defi := True, df_network := ''devnet'', df_user_acknowledged := True\<rparr>; d = projr (defi_operator_init (Some c)) in
     isl (fst (get_proof_of_yield d sample_rt)) = False \<and> op_positions d = []"
proof -
  let ?c = "defi_config_default\<lparr>df_enable_defi := True, df_network := ''devnet'', df_user_acknowledged := True\<rparr>"
  have i: "defi_operator_init (Some ?c) = Inr \<lparr>op_config = ?c, op_positions = [], op_opportunities = [], op_total_deployed = Fin 0, op_total_fees = Fin 0\<rparr>"
    by (simp add: defi_operator_init_def enforce_policy_def)
  from defi_is_gated [OF i rtranclp.rtrancl_refl, of sample_rt] show ?thesis unfolding Let_def i by auto
qed

end
