(* ===== verification/Artifact_Builder.thy ===== *)
theory Artifact_Builder
  imports PyNum
begin

text \<open>
  \<open>membra_sdk/builder/artifact_builder.py\<close>: generating the artifact of a paid job, testing it and packing the report for the buyer. The disk is a
  dictionary from paths, as texts, to contents; archives are kept as their entries, and a report in JSON as its value. Running the
  test commands is a parameter that gives their outcome and the disk they leave; directories are there and writable.
\<close>

section \<open>Disk and environment\<close>

datatype zip_part = Text_part string | Json_part json

record build_disk =
  bd_files :: "string dict"
  bd_archives :: "(string \<times> zip_part) list dict"

record build_env = runtime +
  strftime_now :: "nat \<Rightarrow> string"
  strftime_pos :: nat

definition strftime :: "build_env \<Rightarrow> string \<times> build_env" where
  "strftime env = (strftime_now env (strftime_pos env), env\<lparr>strftime_pos := Suc (strftime_pos env)\<rparr>)"

datatype test_outcome = Ran int string string | Run_failed string

type_synonym build_runner = "json \<Rightarrow> string \<Rightarrow> build_disk \<Rightarrow> test_outcome \<times> build_disk"

record artifact_builder =
  ab_workspace :: string

definition artifact_builder_init :: "string \<Rightarrow> string option \<Rightarrow> artifact_builder" where
  "artifact_builder_init home workspace = \<lparr>ab_workspace = (case workspace of Some (c # w) \<Rightarrow> c # w | _ \<Rightarrow> home @ ''/.membra/builds'')\<rparr>"

section \<open>Generated contents\<close>

abbreviation dq :: string where "dq \<equiv> [CHR 0x22]"

definition lines_text :: "string list \<Rightarrow> string" where
  "lines_text ls = concat (map (\<lambda>l. l @ [CHR 0x0A]) ls)"

definition python_lines :: "string \<Rightarrow> string \<Rightarrow> string \<Rightarrow> string \<Rightarrow> string list" where
  "python_lines description function_name job_id built = [
     ''#!/usr/bin/env python3'',
     dq @ dq @ dq,
     description,
     ''Generated by MEMBRA AI Artifact Builder'',
     ''Job ID: '' @ job_id,
     ''Built at: '' @ built,
     dq @ dq @ dq,
     [],
     ''def '' @ function_name @ ''(*args, **kwargs):'',
     ''    '' @ dq @ dq @ dq @ ''Main function.'' @ dq @ dq @ dq,
     ''    print(f'' @ dq @ ''Running '' @ function_name @ '' with args: {args}, kwargs: {kwargs}'' @ dq @ '')'',
     ''    return {'' @ dq @ ''status'' @ dq @ '': '' @ dq @ ''ok'' @ dq @ '', '' @ dq @ ''args'' @ dq @ '': args, '' @ dq @ ''kwargs'' @ dq @ '': kwargs}'',
     [],
     ''if __name__ == '' @ dq @ ''__main__'' @ dq @ '':'',
     ''    result = '' @ function_name @ ''()'',
     ''    print(json.dumps(result, indent=2))'']"

definition generate_python_script :: "json dict \<Rightarrow> build_env \<Rightarrow> string \<times> build_env" where
  "generate_python_script spec env =
     (let description = json_text (dget_default spec ''description'' (JStr ''A generated Python utility''));
          function_name = json_text (dget_default spec ''function_name'' (JStr ''main''));
          job_id = json_text (dget_default spec ''job_id'' (JStr ''unknown''));
          (now, env) = strftime env
      in (lines_text (python_lines description function_name job_id now), env))"

definition solana_contract :: string where
  "solana_contract = lines_text [
     ''use anchor_lang::prelude::*;'',
     [],
     ''#[program]'',
     ''pub mod membra_generated {'',
     ''    use super::*;'',
     [],
     ''    pub fn initialize(ctx: Context<Initialize>) -> Result<()> {'',
     ''        msg!('' @ dq @ ''MEMBRA generated contract initialized'' @ dq @ '');'',
     ''        Ok(())'',
     ''    }'',
     ''}'',
     [],
     ''#[derive(Accounts)]'',
     ''pub struct Initialize {}'']"

definition rust_module :: string where
  "rust_module = lines_text [
     ''pub fn membra_generated_function() -> String {'',
     ''    '' @ dq @ ''Hello from MEMBRA'' @ dq @ ''.to_string()'',
     ''}'',
     [],
     ''#[cfg(test)]'',
     ''mod tests {'',
     ''    use super::*;'',
     [],
     ''    #[test]'',
     ''    fn test_generated() {'',
     ''        assert_eq!(membra_generated_function(), '' @ dq @ ''Hello from MEMBRA'' @ dq @ '');'',
     ''    }'',
     ''}'']"

text \<open>Contents of another type are taken from the specification and need not be a text.\<close>

definition generate_artifact :: "json \<Rightarrow> json dict \<Rightarrow> build_env \<Rightarrow> json \<times> build_env" where
  "generate_artifact artifact_type spec env =
     (if artifact_type = JStr ''python_script'' then (let (s, env) = generate_python_script spec env in (JStr s, env))
      else if artifact_type = JStr ''solana_contract'' then (JStr solana_contract, env)
      else if artifact_type = JStr ''rust_module'' then (JStr rust_module, env)
      else (dget_default spec ''code'' (JStr (lines_text [''# Default artifact''])), env))"

section \<open>Testing and building\<close>

text \<open>\<open>" ".join(xs)\<close>.\<close>

definition join_words :: "json \<Rightarrow> string result" where
  "join_words v = rbind (jiter v) (\<lambda>xs. case traverse as_str xs of None \<Rightarrow> Inl TypeError | Some ws \<Rightarrow> Inr (join '' '' ws))"

definition run_build_tests :: "build_runner \<Rightarrow> string \<Rightarrow> string \<Rightarrow> json \<Rightarrow> build_disk \<Rightarrow> json dict result \<times> build_disk" where
  "run_build_tests runner build_dir filename tests disk =
     (let commands = (if jtruthy tests then tests else jstrs [''python3'', filename]); (outcome, disk) = runner commands build_dir disk
      in (rbind (join_words commands) (\<lambda>command. Inr (case outcome of
            Ran rc out err \<Rightarrow> [(''passed'', JBool (rc = 0)), (''exit_code'', JInt rc), (''stdout'', JStr (take 2000 out)), (''stderr'', JStr (take 1000 err)), (''command'', JStr command)]
          | Run_failed e \<Rightarrow> [(''passed'', JBool False), (''error'', JStr e), (''command'', JStr command)])), disk))"

record build_result =
  br_job_id :: string
  br_artifact_path :: string
  br_artifact_type :: json
  br_filename :: string
  br_content_hash :: string
  br_size_bytes :: int
  br_test_result :: "json dict"
  br_built_at :: pyfloat
  br_status :: string

text \<open>A path needs texts, and only a text can be written; the file is then already empty.\<close>

definition builder_build :: "build_runner \<Rightarrow> json \<Rightarrow> json dict \<Rightarrow> artifact_builder \<Rightarrow> build_disk \<Rightarrow> build_env \<Rightarrow> build_result result \<times> build_disk \<times> build_env" where
  "builder_build runner job_id spec ab disk env = (case job_id of
     JStr job \<Rightarrow>
       let dir = path_join (ab_workspace ab) job; artifact_type = dget_default spec ''type'' (JStr ''python_script'');
           (content, env) = generate_artifact artifact_type spec env
       in (case dget_default spec ''filename'' (JStr ''artifact.py'') of
            JStr filename \<Rightarrow> let path = path_join dir filename in
              (case content of
                 JStr text \<Rightarrow>
                   let (tested, disk) = run_build_tests runner dir filename (dget_default spec ''tests'' (JList [])) (disk\<lparr>bd_files := dset path text (bd_files disk)\<rparr>) in
                   (case tested of Inl e \<Rightarrow> (Inl e, disk, env)
                    | Inr t \<Rightarrow> let (now, env) = time_time env in
                        (Inr \<lparr>br_job_id = job, br_artifact_path = path, br_artifact_type = artifact_type, br_filename = filename,
                           br_content_hash = sha256_hex text, br_size_bytes = int (length text), br_test_result = t, br_built_at = now,
                           br_status = (if dtruthy t ''passed'' then ''built'' else ''test_failed'')\<rparr>, disk, env))
               | _ \<Rightarrow> (Inl TypeError, disk\<lparr>bd_files := dset path [] (bd_files disk)\<rparr>, env))
          | _ \<Rightarrow> (Inl TypeError, disk, env))
   | _ \<Rightarrow> (Inl TypeError, disk, env))"

section \<open>The report\<close>

definition base_name :: "string \<Rightarrow> string" where
  "base_name path = rev (takeWhile (\<lambda>c. c \<noteq> CHR ''/'') (rev path))"

text \<open>\<open>f"{x:.2f}"\<close>.\<close>

fun fixed2 :: "json \<Rightarrow> string result" where
  "fixed2 (JFloat x) = Inr (ffixed 2 x)"
| "fixed2 (JInt n) = rbind (of_pyint n) (\<lambda>x. Inr (ffixed 2 x))"
| "fixed2 (JBool b) = Inr (if b then ''1.00'' else ''0.00'')"
| "fixed2 (JStr s) = Inl (ValueError s)"
| "fixed2 _ = Inl TypeError"

definition build_report :: "build_result \<Rightarrow> json dict \<Rightarrow> json" where
  "build_report br payment = JObj [
     (''job_id'', JStr (br_job_id br)), (''artifact_type'', br_artifact_type br), (''content_hash'', JStr (br_content_hash br)),
     (''test_result'', JObj (br_test_result br)), (''built_at'', JFloat (br_built_at br)),
     (''payment'', JObj [(''session_id'', dget_default payment ''session_id'' (JStr [])), (''amount_usd'', dget_default payment ''amount_usd'' (JInt 0)),
        (''verified_at'', dget_default payment ''verified_at'' (JStr [])), (''receipt_url'', dget_default payment ''receipt_url'' (JStr []))])]"

definition readme_text :: "build_result \<Rightarrow> json dict \<Rightarrow> string \<Rightarrow> string" where
  "readme_text br payment amount = lines_text [
     ''MEMBRA AI Artifact Build Report'',
     ''================================'',
     ''Job ID: '' @ br_job_id br,
     ''Artifact Type: '' @ json_text (br_artifact_type br),
     ''Content Hash: '' @ br_content_hash br,
     ''Test Status: '' @ (if dtruthy (br_test_result br) ''passed'' then ''PASS'' else ''FAIL''),
     [],
     ''Payment'',
     ''-------'',
     ''Amount: $'' @ amount @ '' USD'',
     ''Stripe Session: '' @ json_text (dget_default payment ''session_id'' (JStr ''N/A'')),
     ''Verified: '' @ json_text (dget_default payment ''verified_at'' (JStr ''N/A'')),
     [],
     ''Files'',
     ''-----'',
     ''- '' @ base_name (br_artifact_path br) @ '': The generated artifact'',
     ''- build_report.json: Full build metadata'',
     ''- README.txt: This file'',
     [],
     ''This artifact was generated and tested after Stripe confirmed payment.'']"

text \<open>An entry that cannot be written leaves an archive of those before it.\<close>

definition generate_report_zip :: "build_result \<Rightarrow> json dict \<Rightarrow> artifact_builder \<Rightarrow> build_disk \<Rightarrow> string result \<times> build_disk" where
  "generate_report_zip br payment ab disk =
     (let zip_path = path_join (ab_workspace ab) (br_job_id br @ ''_report.zip'');
          put = (\<lambda>entries. disk\<lparr>bd_archives := dset zip_path entries (bd_archives disk)\<rparr>)
      in (case dget (bd_files disk) (br_artifact_path br) of None \<Rightarrow> (Inl OSError, put [])
          | Some content \<Rightarrow>
              let entries = [(base_name (br_artifact_path br), Text_part content), (''build_report.json'', Json_part (build_report br payment))] in
              (case fixed2 (dget_default payment ''amount_usd'' (JInt 0)) of Inl e \<Rightarrow> (Inl e, put entries)
               | Inr amount \<Rightarrow> (Inr zip_path, put (entries @ [(''README.txt'', Text_part (readme_text br payment amount))])))))"

section \<open>Properties\<close>

lemma run_tests_disk: "snd (run_build_tests runner dir filename tests disk) = snd (runner (if jtruthy tests then tests else jstrs [''python3'', filename]) dir disk)"
  by (simp add: run_build_tests_def Let_def case_prod_beta)

lemma run_tests_passed:
  "fst (run_build_tests runner dir filename tests disk) = Inr t \<Longrightarrow>
   dtruthy t ''passed'' \<longleftrightarrow> (\<exists>out err. fst (runner (if jtruthy tests then tests else jstrs [''python3'', filename]) dir disk) = Ran 0 out err)"
  by (auto simp: run_build_tests_def Let_def case_prod_beta rbind_def dtruthy_def split: sum.splits test_outcome.splits)

text \<open>A build that ends normally: what it wrote, hashed and tested.\<close>

lemma build_artifact_result:
  assumes "builder_build runner job_id spec ab disk env = (Inr br, disk', env')"
  shows "\<exists>src commands. job_id = JStr (br_job_id br) \<and> br_content_hash br = sha256_hex src \<and>
     br_artifact_path br = path_join (path_join (ab_workspace ab) (br_job_id br)) (br_filename br) \<and>
     (let (outcome, d) = runner commands (path_join (ab_workspace ab) (br_job_id br)) (disk\<lparr>bd_files := dset (br_artifact_path br) src (bd_files disk)\<rparr>)
      in disk' = d \<and> br_status br = (if \<exists>out err. outcome = Ran 0 out err then ''built'' else ''test_failed''))"
proof -
  from assms obtain job where job: "job_id = JStr job" by (cases job_id) (auto simp: builder_build_def)
  define dir where "dir = path_join (ab_workspace ab) job"
  define g where "g = generate_artifact (dget_default spec ''type'' (JStr ''python_script'')) spec env"
  from assms job obtain filename where f: "dget_default spec ''filename'' (JStr ''artifact.py'') = JStr filename"
    by (cases "dget_default spec ''filename'' (JStr ''artifact.py'')") (auto simp: builder_build_def Let_def case_prod_beta)
  from assms job f obtain src where src: "fst g = JStr src"
    by (cases "fst g") (auto simp: builder_build_def Let_def case_prod_beta g_def)
  define path where "path = path_join dir filename"
  define d where "d = disk\<lparr>bd_files := dset path src (bd_files disk)\<rparr>"
  define tests where "tests = dget_default spec ''tests'' (JList [])"
  from assms job f src obtain t where t: "fst (run_build_tests runner dir filename tests d) = Inr t" "disk' = snd (run_build_tests runner dir filename tests d)"
    and br: "br_job_id br = job" "br_artifact_path br = path" "br_filename br = filename" "br_content_hash br = sha256_hex src"
      "br_status br = (if dtruthy t ''passed'' then ''built'' else ''test_failed'')"
    by (auto simp: builder_build_def Let_def case_prod_beta g_def [symmetric] dir_def [symmetric] path_def [symmetric] d_def [symmetric] tests_def [symmetric]
      time_time_def split: sum.splits)
  show ?thesis
    using t br job run_tests_passed [OF t(1)]
    by (intro exI [of _ src] exI [of _ "if jtruthy tests then tests else jstrs [''python3'', filename]"])
      (simp add: run_tests_disk case_prod_beta dir_def path_def d_def)
qed

text \<open>
  What is delivered is what was hashed and tested: if the tests leave the artifact alone, a build that ends normally is called built exactly when the commands exit
  with 0, and the archive of its report, for a payment whose amount is a float, holds the artifact under its name, with the content whose hash is the
  content hash that the build and the report give.
\<close>

theorem report_delivers_artifact:
  assumes "builder_build runner job_id spec ab disk env = (Inr br, disk', env')"
    and "\<forall>cmd dir d. dget (bd_files (snd (runner cmd dir d))) (br_artifact_path br) = dget (bd_files d) (br_artifact_path br)"
    and "dget payment ''amount_usd'' = Some (JFloat x)"
  shows "\<exists>src cmd. br_content_hash br = sha256_hex src \<and>
     (br_status br = ''built'' \<longleftrightarrow> (\<exists>out err. fst (runner cmd (path_join (ab_workspace ab) (br_job_id br))
        (disk\<lparr>bd_files := dset (br_artifact_path br) src (bd_files disk)\<rparr>)) = Ran 0 out err)) \<and>
     (case generate_report_zip br payment ab disk' of (r, disk'') \<Rightarrow>
       \<exists>zip readme. r = Inr zip \<and> dget (bd_archives disk'') zip = Some [(base_name (br_artifact_path br), Text_part src),
         (''build_report.json'', Json_part (build_report br payment)), (''README.txt'', Text_part readme)])"
proof -
  from build_artifact_result [OF assms(1)] obtain src cmd where b: "br_content_hash br = sha256_hex src"
    "(let (outcome, d) = runner cmd (path_join (ab_workspace ab) (br_job_id br)) (disk\<lparr>bd_files := dset (br_artifact_path br) src (bd_files disk)\<rparr>)
      in disk' = d \<and> br_status br = (if \<exists>out err. outcome = Ran 0 out err then ''built'' else ''test_failed''))" by blast
  define d where "d = disk\<lparr>bd_files := dset (br_artifact_path br) src (bd_files disk)\<rparr>"
  have st: "disk' = snd (runner cmd (path_join (ab_workspace ab) (br_job_id br)) d)"
    "br_status br = ''built'' \<longleftrightarrow> (\<exists>out err. fst (runner cmd (path_join (ab_workspace ab) (br_job_id br)) d) = Ran 0 out err)"
    using b(2) by (auto simp: d_def case_prod_beta Let_def split: if_splits)
  have "dget (bd_files disk') (br_artifact_path br) = Some src" using assms(2) by (simp add: st(1) d_def)
  then have "\<exists>zip readme. fst (generate_report_zip br payment ab disk') = Inr zip \<and> dget (bd_archives (snd (generate_report_zip br payment ab disk'))) zip =
      Some [(base_name (br_artifact_path br), Text_part src), (''build_report.json'', Json_part (build_report br payment)), (''README.txt'', Text_part readme)]"
    using assms(3) by (simp add: generate_report_zip_def dget_default_def Let_def)
  with b(1) st(2) show ?thesis by (intro exI [of _ src] exI [of _ cmd]) (simp add: case_prod_beta d_def)
qed

text \<open>The generated script calls \<open>json\<close> and never imports it.\<close>

definition sample_script :: string where
  "sample_script = lines_text (python_lines ''AI-generated utility function'' ''membra_task'' ''job-1'' ''2025-01-01 00:00:00'')"

lemma script_lacks_import: "str_in ''json.dumps'' sample_script \<and> \<not> str_in ''import'' sample_script"
  by code_simp

section \<open>A concrete run\<close>

definition sample_build_env :: build_env where
  "sample_build_env = \<lparr>clock = (\<lambda>i. Fin 0), clock_pos = 0, uuids = (\<lambda>i. []), uuid_pos = 0, strftime_now = (\<lambda>i. ''now''), strftime_pos = 0\<rparr>"

theorem report_delivers_artifact_witness:
  "\<exists>br disk env. builder_build (\<lambda>cmd dir d. (Ran 0 [] [], d)) (JStr ''j'') [(''type'', JStr ''text''), (''code'', JStr ''x'')] \<lparr>ab_workspace = ''w''\<rparr>
      \<lparr>bd_files = [], bd_archives = []\<rparr> sample_build_env = (Inr br, disk, env) \<and> br_status br = ''built'' \<and>
     (\<exists>zip. fst (generate_report_zip br [(''amount_usd'', JFloat (Fin 25))] \<lparr>ab_workspace = ''w''\<rparr> disk) = Inr zip)"
proof -
  let ?r = "builder_build (\<lambda>cmd dir d. (Ran 0 [] [], d)) (JStr ''j'') [(''type'', JStr ''text''), (''code'', JStr ''x'')] \<lparr>ab_workspace = ''w''\<rparr>
      \<lparr>bd_files = [], bd_archives = []\<rparr> sample_build_env"
  obtain br disk env where r: "?r = (Inr br, disk, env)"
    by (simp add: builder_build_def generate_artifact_def dget_default_def run_build_tests_def join_words_def jstrs_def case_prod_beta Let_def)
  from report_delivers_artifact [OF r, of "[(''amount_usd'', JFloat (Fin 25))]" "Fin 25"] have "br_status br = ''built'' \<and>
     (\<exists>zip. fst (generate_report_zip br [(''amount_usd'', JFloat (Fin 25))] \<lparr>ab_workspace = ''w''\<rparr> disk) = Inr zip)"
    by (auto simp: case_prod_beta)
  with r show ?thesis by blast
qed

end
