(* ===== verification/Stripe_Payments.thy ===== *)
theory Stripe_Payments
  imports Defi_Operator Artifact_Builder Poy_Consensus
begin

text \<open>
  \<open>membra_sdk/payments/stripe_checkout.py\<close>, \<open>webhook_server.py\<close> and \<open>stripe_production.py\<close>: checkout sessions, the events that confirm them, and what
  the server does with a confirmed payment. Stripe is a parameter: its answer to a request, and the event it reads from a signed payload. So is the reader of
  \<open>json\<close> on payloads, which gives a value, nothing for a JSONDecodeError, or another exception, such as UnicodeDecodeError for bytes that are not UTF-8. A request to the server is one step; its process keeps the ledger and the confirmed payments, and the file of
  payments and the disk of the builder outlive it. Identifiers that are numbers are told apart by their type.
\<close>

section \<open>Checkout\<close>

text \<open>The file of payments; what cannot be written is dropped silently.\<close>

datatype payments_file = No_file | Unreadable_file | Stored "json dict"

record payments_store =
  ps_file :: payments_file
  ps_writable :: bool

record stripe_checkout =
  sc_webhook_secret :: string
  sc_confirmed :: "(json \<times> json) list"

definition AMOUNT_USD :: pyfloat where "AMOUNT_USD = Fin 25"

definition PRODUCT_NAME :: string where "PRODUCT_NAME = ''AI Artifact Build''"

definition PRODUCT_DESCRIPTION :: string where
  "PRODUCT_DESCRIPTION = ''Custom AI-generated code artifact with tests, hash, and build report''"

definition load_payments :: "payments_file \<Rightarrow> (json \<times> json) list" where
  "load_payments f = (case f of Stored d \<Rightarrow> map (\<lambda>(k, v). (JStr k, v)) d | _ \<Rightarrow> [])"

definition checkout_init :: "string dict \<Rightarrow> payments_store \<Rightarrow> stripe_checkout result" where
  "checkout_init vars store = rbind (membra_config_init vars) (\<lambda>c.
     if is_simulation c then Inl (RuntimeError (''Stripe checkout requires MEMBRA_MODE=production. '' @ ''Set the environment variable and provide a real Stripe key.''))
     else if mf_stripe_secret_key c = [] then
       Inl (RuntimeError ''STRIPE_SECRET_KEY not set. Get your test key from https://dashboard.stripe.com/test/apikeys'')
     else Inr \<lparr>sc_webhook_secret = dget_default vars ''STRIPE_WEBHOOK_SECRET'' [], sc_confirmed = load_payments (ps_file store)\<rparr>)"

text \<open>Keys of a dictionary have to be hashable; in a file they are texts.\<close>

definition hashable :: "json \<Rightarrow> bool" where
  "hashable v = (case v of JList xs \<Rightarrow> False | JObj d \<Rightarrow> False | _ \<Rightarrow> True)"

definition key_text :: "json \<Rightarrow> string" where
  "key_text v = (case v of JStr s \<Rightarrow> s | _ \<Rightarrow> dumps True False v)"

definition save_payment :: "json dict \<Rightarrow> stripe_checkout \<Rightarrow> payments_store \<Rightarrow> unit result \<times> stripe_checkout \<times> payments_store" where
  "save_payment payment sc store =
     (let k = dget_default payment ''session_id'' (JStr []) in
      if \<not> hashable k then (Inl TypeError, sc, store)
      else let d = dset k (JObj payment) (sc_confirmed sc) in
        (Inr (), sc\<lparr>sc_confirmed := d\<rparr>,
         if ps_writable store then store\<lparr>ps_file := Stored (dset_all (map (\<lambda>(k, v). (key_text k, v)) d) [])\<rparr> else store))"

datatype checkout_error = Raised py_error | StripeCheckoutError string

definition checkout_request :: "string \<Rightarrow> string \<Rightarrow> json dict" where
  "checkout_request buyer_email job_id = [
     (''payment_method_types'', jstrs [''card'']),
     (''line_items'', JList [JObj [
        (''price_data'', JObj [(''currency'', JStr ''usd''),
           (''product_data'', JObj [(''name'', JStr PRODUCT_NAME), (''description'', JStr PRODUCT_DESCRIPTION)]), (''unit_amount'', JInt 2500)]),
        (''quantity'', JInt 1)]]),
     (''mode'', JStr ''payment''),
     (''success_url'', JStr (''http://localhost:8080/success?session_id={CHECKOUT_SESSION_ID}&job_id='' @ job_id)),
     (''cancel_url'', JStr (''http://localhost:8080/cancel?job_id='' @ job_id)),
     (''customer_email'', JStr buyer_email),
     (''metadata'', JObj [(''membra_job_id'', JStr job_id), (''membra_product'', JStr ''ai_artifact_build''), (''membra_amount_usd'', JStr ''25.0'')])]"

definition new_job_id :: "string \<Rightarrow> string option \<Rightarrow> 'x runtime_scheme \<Rightarrow> string result \<times> 'x runtime_scheme" where
  "new_job_id buyer_email job_id rt = (case job_id of Some (c # j) \<Rightarrow> (Inr (c # j), rt)
     | _ \<Rightarrow> let (now, rt) = time_time rt in
        (rbind (ftrunc now) (\<lambda>n. Inr (''job-'' @ dec_int n @ ''-'' @ take 8 (sha256_hex buyer_email))), rt))"

definition create_checkout_session ::
  "(json dict \<Rightarrow> string + string \<times> string) \<Rightarrow> string \<Rightarrow> string option \<Rightarrow> stripe_checkout \<Rightarrow> payments_store \<Rightarrow> runtime
   \<Rightarrow> (checkout_error + json dict) \<times> stripe_checkout \<times> payments_store \<times> runtime" where
  "create_checkout_session create buyer_email job_id sc store rt = (case new_job_id buyer_email job_id rt of
     (Inl e, rt) \<Rightarrow> (Inl (Raised e), sc, store, rt)
   | (Inr job, rt) \<Rightarrow> (case create (checkout_request buyer_email job) of
        Inl e \<Rightarrow> (Inl (StripeCheckoutError (''Stripe API error: '' @ e)), sc, store, rt)
      | Inr (sid, url) \<Rightarrow>
          let (now, rt) = time_time rt;
              r = [(''session_id'', JStr sid), (''checkout_url'', JStr url), (''job_id'', JStr job), (''amount_usd'', JFloat AMOUNT_USD),
                (''buyer_email'', JStr buyer_email), (''status'', JStr ''created''), (''created_at'', JFloat now)];
              (x, sc, store) = save_payment r sc store
          in (case x of Inl e \<Rightarrow> Inl (Raised e) | Inr u \<Rightarrow> Inr r, sc, store, rt)))"

type_synonym payload_reader = "string \<Rightarrow> json option result"

text \<open>Stripe's reading of a signed payload: identifier, type and object of the event; every exception gives nothing.\<close>

type_synonym signed_reader = "string \<Rightarrow> string \<Rightarrow> string \<Rightarrow> (json \<times> json \<times> json) option"

definition verify_webhook :: "signed_reader \<Rightarrow> payload_reader \<Rightarrow> stripe_checkout \<Rightarrow> string \<Rightarrow> string \<Rightarrow> json option result" where
  "verify_webhook reader loads sc payload signature =
     (if sc_webhook_secret sc = [] then loads payload
      else Inr (map_option (\<lambda>(i, t, d). JObj [(''id'', i), (''type'', t), (''data'', d)]) (reader payload signature (sc_webhook_secret sc))))"

record confirmed_payment =
  cp_session_id :: json
  cp_job_id :: json
  cp_amount_usd :: pyfloat
  cp_currency :: json
  cp_payment_status :: json
  cp_customer_email :: json
  cp_customer_id :: json
  cp_payment_intent :: json
  cp_receipt_url :: json
  cp_verified_at :: pyfloat

definition payment_dict :: "confirmed_payment \<Rightarrow> json dict" where
  "payment_dict p = [(''session_id'', cp_session_id p), (''job_id'', cp_job_id p), (''amount_usd'', JFloat (cp_amount_usd p)), (''currency'', cp_currency p),
     (''payment_status'', cp_payment_status p), (''customer_email'', cp_customer_email p), (''customer_id'', cp_customer_id p),
     (''payment_intent'', cp_payment_intent p), (''receipt_url'', cp_receipt_url p), (''verified'', JBool True), (''verified_at'', JFloat (cp_verified_at p)),
     (''source'', JStr ''stripe_webhook'')]"

datatype completed = Unpaid string json | Paid confirmed_payment

definition session_fields :: "json \<Rightarrow> (json \<times> json \<times> pyfloat) result" where
  "session_fields session = rbind (json_get session ''id'' (JStr [])) (\<lambda>sid. rbind (json_get session ''metadata'' (JObj [])) (\<lambda>meta.
     rbind (json_get meta ''membra_job_id'' (JStr [])) (\<lambda>job. rbind (json_get session ''amount_total'' (JInt 0)) (\<lambda>total.
     rbind (num_div total (JInt 100)) (\<lambda>q. rbind (num_float q) (\<lambda>amount. Inr (sid, job, amount)))))))"

definition session_get :: "json \<Rightarrow> string \<Rightarrow> json \<Rightarrow> json" where
  "session_get session k v = (case session of JObj d \<Rightarrow> dget_default d k v | _ \<Rightarrow> v)"

definition handle_checkout_completed ::
  "json \<Rightarrow> stripe_checkout \<Rightarrow> payments_store \<Rightarrow> 'x runtime_scheme \<Rightarrow> completed result \<times> stripe_checkout \<times> payments_store \<times> 'x runtime_scheme" where
  "handle_checkout_completed session sc store rt = (case session_fields session of Inl e \<Rightarrow> (Inl e, sc, store, rt)
   | Inr (sid, job, amount) \<Rightarrow>
      let status = session_get session ''payment_status'' (JStr []) in
      if status \<noteq> JStr ''paid'' then
        (Inr (Unpaid (''Payment status is '' @ [CHR 0x27] @ json_text status @ [CHR 0x27] @ '', not '' @ [CHR 0x27] @ ''paid'' @ [CHR 0x27]) sid), sc, store, rt)
      else let (now, rt) = time_time rt;
          p = \<lparr>cp_session_id = sid, cp_job_id = job, cp_amount_usd = amount, cp_currency = session_get session ''currency'' (JStr ''usd''), cp_payment_status = status,
            cp_customer_email = session_get session ''customer_email'' (JStr []), cp_customer_id = session_get session ''customer'' (JStr []),
            cp_payment_intent = session_get session ''payment_intent'' (JStr []), cp_receipt_url = session_get session ''url'' (JStr []), cp_verified_at = now\<rparr>;
          (x, sc, store) = save_payment (payment_dict p) sc store
        in (case x of Inl e \<Rightarrow> Inl e | Inr u \<Rightarrow> Inr (Paid p), sc, store, rt))"

definition get_confirmed_payment :: "string \<Rightarrow> stripe_checkout \<Rightarrow> json option" where
  "get_confirmed_payment session_id sc = dget (sc_confirmed sc) (JStr session_id)"

definition list_confirmed_payments :: "stripe_checkout \<Rightarrow> json list" where
  "list_confirmed_payments sc = dvalues (sc_confirmed sc)"

section \<open>The webhook server\<close>

record webhook_world =
  wh_ledger :: "json dict ledger"
  wh_confirmed :: "(json \<times> json dict) list"
  wh_builder :: artifact_builder
  wh_disk :: build_disk
  wh_store :: payments_store

definition webhook_world_init :: "string \<Rightarrow> build_disk \<Rightarrow> payments_store \<Rightarrow> webhook_world" where
  "webhook_world_init home disk store =
     \<lparr>wh_ledger = ledger_init 100000, wh_confirmed = [], wh_builder = artifact_builder_init home None, wh_disk = disk, wh_store = store\<rparr>"

datatype webhook_reply = Reply int "json dict" | Server_error py_error

definition split_shares :: "pyfloat \<Rightarrow> pyfloat dict" where
  "split_shares amount = [(''infrastructure'', fmul amount (mkf (15 / 100))), (''validator'', fmul amount (mkf (20 / 100))), (''builder'', fmul amount (mkf (45 / 100))),
     (''treasury'', fmul amount (mkf (10 / 100))), (''risk'', fmul amount (mkf (10 / 100)))]"

definition split_entry :: "json \<Rightarrow> pyfloat \<Rightarrow> string \<Rightarrow> pyfloat \<Rightarrow> json dict" where
  "split_entry session_id amount artifact_hash now = [(''type'', JStr ''revenue_split''), (''session_id'', session_id), (''amount'', JFloat amount)]
     @ map (\<lambda>(k, x). (k, JFloat x)) (split_shares amount) @ [(''artifact_hash'', JStr artifact_hash), (''timestamp'', JFloat now)]"

definition split_revenue :: "json \<Rightarrow> pyfloat \<Rightarrow> build_result \<Rightarrow> json dict ledger \<Rightarrow> 'x runtime_scheme \<Rightarrow> json dict \<times> json dict ledger \<times> 'x runtime_scheme" where
  "split_revenue session_id amount br l rt =
     (let (now, rt) = time_time rt in
      ((''total'', JFloat amount) # map (\<lambda>(k, x). (k, JFloat (fround x 2))) (split_shares amount),
       ledger_submit (split_entry session_id amount (br_content_hash br) now) l, rt))"

definition build_spec :: "json \<Rightarrow> json dict" where
  "build_spec job_id = [(''type'', JStr ''python_script''), (''description'', JStr ''AI-generated utility function''),
     (''function_name'', JStr ''membra_task''), (''job_id'', job_id)]"

text \<open>A confirmed payment is built, reported and split.\<close>

definition fulfil :: "build_runner \<Rightarrow> confirmed_payment \<Rightarrow> webhook_world \<Rightarrow> build_env \<Rightarrow> webhook_reply \<times> webhook_world \<times> build_env" where
  "fulfil runner p w env =
     (let w = w\<lparr>wh_confirmed := dset (cp_session_id p) (payment_dict p) (wh_confirmed w)\<rparr>;
          (b, disk, env) = builder_build runner (cp_job_id p) (build_spec (cp_job_id p)) (wh_builder w) (wh_disk w) env;
          w = w\<lparr>wh_disk := disk\<rparr>
      in case b of Inl e \<Rightarrow> (Server_error e, w, env)
       | Inr br \<Rightarrow>
          if br_status br = ''built'' then
            (let (z, disk) = generate_report_zip br (payment_dict p) (wh_builder w) (wh_disk w); w = w\<lparr>wh_disk := disk\<rparr> in
             case z of Inl e \<Rightarrow> (Server_error e, w, env)
             | Inr zip_path \<Rightarrow> let (splits, l, env) = split_revenue (cp_session_id p) (cp_amount_usd p) br (wh_ledger w) env in
                 (Reply 200 [(''status'', JStr ''success''), (''job_id'', cp_job_id p), (''amount'', JFloat (cp_amount_usd p)), (''artifact'', JStr (br_filename br)),
                    (''hash'', JStr (br_content_hash br)), (''report_zip'', JStr zip_path), (''splits'', JObj splits)], w\<lparr>wh_ledger := l\<rparr>, env))
          else (Reply 200 [(''status'', JStr ''build_failed''), (''job_id'', cp_job_id p), (''error'', JObj (br_test_result br))], w, env))"

definition runtime_message :: "py_error \<Rightarrow> string option" where
  "runtime_message e = (case e of RuntimeError s \<Rightarrow> Some s | _ \<Rightarrow> None)"

definition stripe_webhook ::
  "build_runner \<Rightarrow> signed_reader \<Rightarrow> payload_reader \<Rightarrow> string dict \<Rightarrow> string \<Rightarrow> string \<Rightarrow> webhook_world \<Rightarrow> build_env \<Rightarrow> webhook_reply \<times> webhook_world \<times> build_env" where
  "stripe_webhook runner reader loads vars payload sig_header w env =
     (case checkout_init vars (wh_store w) of
        Inl e \<Rightarrow> (case runtime_message e of Some s \<Rightarrow> Reply 400 [(''error'', JStr s)] | None \<Rightarrow> Server_error e, w, env)
      | Inr sc \<Rightarrow> (case verify_webhook reader loads sc payload sig_header of
          Inl e \<Rightarrow> (Server_error e, w, env)
        | Inr None \<Rightarrow> (Reply 400 [(''error'', JStr ''Invalid webhook signature'')], w, env)
        | Inr (Some event) \<Rightarrow>
          if \<not> jtruthy event then (Reply 400 [(''error'', JStr ''Invalid webhook signature'')], w, env)
          else (case event of JObj d \<Rightarrow>
              let kind = dget_default d ''type'' (JStr []); session = dget_default d ''data'' (JObj []) in
              if kind = JStr ''checkout.session.completed'' then
                (case handle_checkout_completed session sc (wh_store w) env of
                   (Inl e, sc, store, env) \<Rightarrow> (Server_error e, w\<lparr>wh_store := store\<rparr>, env)
                 | (Inr (Unpaid reason sid), sc, store, env) \<Rightarrow>
                     (Reply 200 [(''status'', JStr ''payment_not_verified''), (''reason'', JStr reason)], w\<lparr>wh_store := store\<rparr>, env)
                 | (Inr (Paid p), sc, store, env) \<Rightarrow> fulfil runner p (w\<lparr>wh_store := store\<rparr>) env)
              else (Reply 200 [(''status'', JStr ''ignored''), (''event'', kind)], w, env)
            | _ \<Rightarrow> (Server_error AttributeError, w, env))))"

definition session_status :: "string \<Rightarrow> webhook_world \<Rightarrow> json dict" where
  "session_status session_id w = (case dget (wh_confirmed w) (JStr session_id) of
     None \<Rightarrow> [(''status'', JStr ''pending''), (''session_id'', JStr session_id)] | Some payment \<Rightarrow> payment)"

section \<open>The production client\<close>

record stripe_client =
  pc_mode :: string
  pc_api_key :: string

text \<open>The client exists only behind its gates; the error is the text of StripeProductionError.\<close>

definition validate_environment :: "string dict \<Rightarrow> stripe_client \<Rightarrow> string + unit" where
  "validate_environment vars c =
     (if pc_mode c \<noteq> ''production'' then
        Inl (''Stripe production client disabled in '' @ [CHR 0x27] @ pc_mode c @ [CHR 0x27] @ '' mode. Set MEMBRA_MODE=production to enable real payments.'')
      else if pc_api_key c = [] then Inl ''STRIPE_SECRET_KEY not set. Add to environment or macOS Keychain.''
      else if starts_with ''sk_test_'' (pc_api_key c) then Inr ()
      else if starts_with ''sk_live_'' (pc_api_key c) then
        (if dget vars ''STRIPE_LIVE_ACKNOWLEDGED'' \<noteq> Some ''I_UNDERSTAND_REAL_MONEY'' then
           Inl (''Live Stripe key detected. Set STRIPE_LIVE_ACKNOWLEDGED=I_UNDERSTAND_REAL_MONEY '' @ ''to confirm you understand this will process real money.'')
         else Inr ())
      else Inl (''STRIPE_SECRET_KEY must start with '' @ [CHR 0x27] @ ''sk_test_'' @ [CHR 0x27] @ '' or '' @ [CHR 0x27] @ ''sk_live_'' @ [CHR 0x27]
        @ ''. Never commit keys to source control.''))"

definition stripe_client_init :: "string dict \<Rightarrow> string + stripe_client" where
  "stripe_client_init vars =
     (let c = \<lparr>pc_mode = lower (dget_default vars ''MEMBRA_MODE'' ''simulation''), pc_api_key = dget_default vars ''STRIPE_SECRET_KEY'' []\<rparr>
      in case validate_environment vars c of Inl e \<Rightarrow> Inl e | Inr u \<Rightarrow> Inr c)"

definition disabled :: string where "disabled = ''Stripe disabled in simulation mode''"

definition error_dict :: "string \<Rightarrow> json dict" where
  "error_dict e = [(''error'', JStr e)]"

text \<open>An amount in cents, and its error as text.\<close>

definition cents :: "pyfloat \<Rightarrow> string + int" where
  "cents amount = (case ftrunc (fmul amount (Fin 100)) of Inr n \<Rightarrow> Inr n
     | Inl e \<Rightarrow> Inl (case e of ValueError s \<Rightarrow> s | _ \<Rightarrow> ''cannot convert float infinity to integer''))"

definition create_payment_intent ::
  "(int \<Rightarrow> string \<Rightarrow> json dict \<Rightarrow> string + string \<times> string \<times> string) \<Rightarrow> pyfloat \<Rightarrow> string \<Rightarrow> json dict \<Rightarrow> stripe_client \<Rightarrow> json dict" where
  "create_payment_intent create amount buyer_email metadata c =
     (if pc_mode c \<noteq> ''production'' then error_dict disabled
      else case cents amount of Inl e \<Rightarrow> error_dict e
        | Inr n \<Rightarrow> (case create n buyer_email [(''membra_job_id'', dget_default metadata ''job_id'' (JStr [])), (''membra_buyer_id'', dget_default metadata ''buyer_id'' (JStr [])),
              (''membra_builder_id'', dget_default metadata ''builder_id'' (JStr [])), (''source'', JStr ''membra_marketplace'')] of
            Inl e \<Rightarrow> error_dict e
          | Inr (i, client_secret, status) \<Rightarrow> [(''payment_intent_id'', JStr i), (''client_secret'', JStr client_secret), (''status'', JStr status), (''amount'', JFloat amount)]))"

record stripe_charge =
  ch_id :: string
  ch_receipt_url :: json
  ch_receipt_number :: json

record stripe_intent =
  pi_id :: string
  pi_status :: string
  pi_amount :: int
  pi_currency :: string
  pi_created :: int
  pi_charges :: "stripe_charge list"

definition too_large :: string where "too_large = ''integer division result too large for a float''"

definition verify_intent_payment :: "(string \<Rightarrow> string + stripe_intent) \<Rightarrow> string \<Rightarrow> stripe_client \<Rightarrow> json dict" where
  "verify_intent_payment retrieve payment_intent_id c =
     (let no = (\<lambda>e. [(''verified'', JBool False), (''error'', JStr e)]) in
      if pc_mode c \<noteq> ''production'' then no disabled
      else case retrieve payment_intent_id of Inl e \<Rightarrow> no e
        | Inr i \<Rightarrow>
          if pi_status i \<noteq> ''succeeded'' then [(''verified'', JBool False), (''status'', JStr (pi_status i)), (''error'', JStr (''Payment status: '' @ pi_status i))]
          else (case pi_charges i of [] \<Rightarrow> no ''No charges found''
            | charge # charges \<Rightarrow> (case truediv (pi_amount i) 100 of Inl e \<Rightarrow> no too_large
                | Inr usd \<Rightarrow> [(''verified'', JBool True), (''payment_intent_id'', JStr (pi_id i)), (''charge_id'', JStr (ch_id charge)), (''amount_usd'', JFloat usd),
                    (''currency'', JStr (pi_currency i)), (''receipt_url'', ch_receipt_url charge), (''receipt_number'', ch_receipt_number charge), (''status'', JStr (pi_status i)),
                    (''created'', JInt (pi_created i))])))"

definition create_payout :: "(int \<Rightarrow> string \<Rightarrow> json dict \<Rightarrow> string + string \<times> string) \<Rightarrow> string \<Rightarrow> pyfloat \<Rightarrow> string \<Rightarrow> stripe_client \<Rightarrow> json dict" where
  "create_payout transfer builder_account_id amount job_id c =
     (if pc_mode c \<noteq> ''production'' then error_dict disabled
      else case cents amount of Inl e \<Rightarrow> error_dict e
        | Inr n \<Rightarrow> (case transfer n builder_account_id [(''membra_job_id'', JStr job_id), (''type'', JStr ''builder_payout'')] of Inl e \<Rightarrow> error_dict e
          | Inr (i, status) \<Rightarrow> [(''transfer_id'', JStr i), (''amount_usd'', JFloat amount), (''status'', JStr status), (''destination'', JStr builder_account_id)]))"

text \<open>The type of a signed event, and the identifier and amount of its object.\<close>

definition production_webhook :: "(string \<Rightarrow> string \<Rightarrow> string \<Rightarrow> string + string \<times> string \<times> int) \<Rightarrow> string \<Rightarrow> string \<Rightarrow> string \<Rightarrow> stripe_client \<Rightarrow> json dict" where
  "production_webhook reader payload signature secret c =
     (let failed = (\<lambda>e. [(''handled'', JBool False), (''error'', JStr e)]) in
      if pc_mode c \<noteq> ''production'' then failed disabled
      else case reader payload signature secret of Inl e \<Rightarrow> failed e
        | Inr (kind, i, amount) \<Rightarrow>
          if kind = ''payment_intent.succeeded'' then
            (case truediv amount 100 of Inl e \<Rightarrow> failed too_large
             | Inr usd \<Rightarrow> [(''handled'', JBool True), (''event'', JStr kind), (''payment_intent_id'', JStr i), (''amount'', JFloat usd)])
          else if kind = ''charge.succeeded'' then [(''handled'', JBool True), (''event'', JStr kind), (''charge_id'', JStr i)]
          else [(''handled'', JBool True), (''event'', JStr kind), (''note'', JStr ''no action'')])"

section \<open>What a request changes\<close>

definition success :: "webhook_reply \<Rightarrow> bool" where
  "success a \<longleftrightarrow> (\<exists>d. a = Reply 200 d \<and> dget d ''status'' = Some (JStr ''success''))"

text \<open>The payment is confirmed, its artifact was built, and one entry with the hash that is answered joins the ledger.\<close>

definition releases :: "build_runner \<Rightarrow> confirmed_payment \<Rightarrow> webhook_world \<Rightarrow> webhook_reply \<Rightarrow> webhook_world \<Rightarrow> bool" where
  "releases runner p w a w' \<longleftrightarrow> (\<exists>env br disk env' d now.
     builder_build runner (cp_job_id p) (build_spec (cp_job_id p)) (wh_builder w) (wh_disk w) env = (Inr br, disk, env') \<and> br_status br = ''built'' \<and>
     a = Reply 200 d \<and> dget d ''hash'' = Some (JStr (br_content_hash br)) \<and> dget (wh_confirmed w') (cp_session_id p) = Some (payment_dict p) \<and>
     wh_ledger w' = ledger_submit (split_entry (cp_session_id p) (cp_amount_usd p) (br_content_hash br) now) (wh_ledger w))"

lemma fulfil_confirms:
  assumes "fulfil runner p w env = (a, w', env')"
  shows "wh_confirmed w' = dset (cp_session_id p) (payment_dict p) (wh_confirmed w)"
  using assms by (auto simp: fulfil_def Let_def case_prod_beta split: sum.splits if_splits)

lemma fulfil_effect:
  assumes "fulfil runner p w env = (a, w', env')"
  shows "if success a then releases runner p w a w' else wh_ledger w' = wh_ledger w"
proof -
  obtain b disk env1 where b: "builder_build runner (cp_job_id p) (build_spec (cp_job_id p)) (wh_builder w) (wh_disk w) env = (b, disk, env1)" by (metis surj_pair)
  show ?thesis
  proof (cases "\<exists>br. b = Inr br \<and> br_status br = ''built''")
    case False
    with assms b show ?thesis by (auto simp: fulfil_def success_def Let_def split: sum.splits)
  next
    case True
    then obtain br where br: "b = Inr br" "br_status br = ''built''" by blast
    show ?thesis
    proof (cases "fst (generate_report_zip br (payment_dict p) (wh_builder w) disk)")
      case (Inl e)
      with assms b br show ?thesis by (auto simp: fulfil_def success_def case_prod_beta Let_def)
    next
      case (Inr z)
      define now where "now = clock env1 (clock_pos env1)"
      from Inr assms b br obtain d where d: "a = Reply 200 d" "dget d ''hash'' = Some (JStr (br_content_hash br))" "dget d ''status'' = Some (JStr ''success'')"
        "wh_ledger w' = ledger_submit (split_entry (cp_session_id p) (cp_amount_usd p) (br_content_hash br) now) (wh_ledger w)"
        by (auto simp: fulfil_def case_prod_beta split_revenue_def time_time_def Let_def now_def)
      then have "releases runner p w a w'" unfolding releases_def using b br fulfil_confirms [OF assms]
        by (intro exI [of _ env] exI [of _ br] exI [of _ disk] exI [of _ env1] exI [of _ d] exI [of _ now]) simp
      with d show ?thesis by (simp add: success_def)
    qed
  qed
qed

lemma completed_paid:
  assumes "handle_checkout_completed session sc store rt = (Inr (Paid p), sc', store', rt')"
  shows "session_fields session = Inr (cp_session_id p, cp_job_id p, cp_amount_usd p) \<and> session_get session ''payment_status'' (JStr []) = JStr ''paid'' \<and>
    cp_payment_status p = JStr ''paid''"
  using assms by (auto simp: handle_checkout_completed_def Let_def case_prod_beta split: sum.splits if_splits)

text \<open>A request that is not a paid, completed session changes neither the ledger nor the confirmed payments.\<close>

lemma webhook_cases:
  assumes "stripe_webhook runner reader loads vars payload sig w env = (a, w', env')"
  shows "(\<not> success a \<and> wh_ledger w' = wh_ledger w \<and> wh_confirmed w' = wh_confirmed w) \<or>
    (\<exists>sc d p w1 env1. checkout_init vars (wh_store w) = Inr sc \<and> verify_webhook reader loads sc payload sig = Inr (Some (JObj d)) \<and>
       dget d ''type'' = Some (JStr ''checkout.session.completed'') \<and> session_fields (dget_default d ''data'' (JObj [])) = Inr (cp_session_id p, cp_job_id p, cp_amount_usd p) \<and>
       session_get (dget_default d ''data'' (JObj [])) ''payment_status'' (JStr []) = JStr ''paid'' \<and> cp_payment_status p = JStr ''paid'' \<and>
       w1 = w\<lparr>wh_store := wh_store w1\<rparr> \<and> fulfil runner p w1 env1 = (a, w', env'))"
proof (cases "checkout_init vars (wh_store w)")
  case (Inl e)
  then show ?thesis using assms by (auto simp: stripe_webhook_def success_def split: option.splits)
next
  case (Inr sc)
  show ?thesis
  proof (cases "\<exists>d. verify_webhook reader loads sc payload sig = Inr (Some (JObj d)) \<and> dget_default d ''type'' (JStr []) = JStr ''checkout.session.completed''")
    case False
    then show ?thesis using assms Inr by (auto simp: stripe_webhook_def success_def Let_def split: sum.splits option.splits if_splits json.splits)
  next
    case True
    then obtain d where d: "verify_webhook reader loads sc payload sig = Inr (Some (JObj d))" "dget d ''type'' = Some (JStr ''checkout.session.completed'')"
      by (auto simp: dget_default_def split: option.splits)
    then have "d \<noteq> []" by auto
    obtain r sc1 store1 env1 where h: "handle_checkout_completed (dget_default d ''data'' (JObj [])) sc (wh_store w) env = (r, sc1, store1, env1)"
      by (cases "handle_checkout_completed (dget_default d ''data'' (JObj [])) sc (wh_store w) env") auto
    show ?thesis
    proof (cases "\<exists>p. r = Inr (Paid p)")
      case False
      then show ?thesis using assms Inr d h \<open>d \<noteq> []\<close> by (auto simp: stripe_webhook_def success_def dget_default_def split: sum.splits completed.splits)
    next
      case True
      then obtain p where p: "r = Inr (Paid p)" by blast
      then have "fulfil runner p (w\<lparr>wh_store := store1\<rparr>) env1 = (a, w', env')"
        using assms Inr d h \<open>d \<noteq> []\<close> by (simp add: stripe_webhook_def dget_default_def)
      with completed_paid [OF h [unfolded p]] Inr d show ?thesis
        by (intro disjI2 exI [of _ sc] exI [of _ d] exI [of _ p] exI [of _ "w\<lparr>wh_store := store1\<rparr>"] exI [of _ env1]) simp
    qed
  qed
qed

section \<open>Properties\<close>

text \<open>
  C36. The server answers success exactly when revenue is split, and splits it only for a paid session: the process is in production mode with a key, the event was verified and
  says that a checkout session was completed, the session is paid, the artifact was built, and exactly one entry with the shares of the amount received and the hash
  of the artifact joins the ledger, whose session is then confirmed; on every other request the ledger stays as it was.
\<close>

theorem webhook_splits_paid_sessions:
  "case stripe_webhook runner reader loads vars payload sig w env of (a, w', env') \<Rightarrow>
     if success a then
       (\<exists>sc d p. checkout_init vars (wh_store w) = Inr sc \<and> (\<exists>c. membra_config_init vars = Inr c \<and> is_production c \<and> mf_stripe_secret_key c \<noteq> []) \<and>
          verify_webhook reader loads sc payload sig = Inr (Some (JObj d)) \<and> dget d ''type'' = Some (JStr ''checkout.session.completed'') \<and>
          session_get (dget_default d ''data'' (JObj [])) ''payment_status'' (JStr []) = JStr ''paid'' \<and>
          session_fields (dget_default d ''data'' (JObj [])) = Inr (cp_session_id p, cp_job_id p, cp_amount_usd p) \<and> releases runner p w a w')
     else wh_ledger w' = wh_ledger w"
proof -
  obtain a w' env' where run: "stripe_webhook runner reader loads vars payload sig w env = (a, w', env')" by (metis surj_pair)
  show ?thesis
  proof (cases "\<not> success a \<and> wh_ledger w' = wh_ledger w \<and> wh_confirmed w' = wh_confirmed w")
    case False
    with webhook_cases [OF run] obtain sc d p w1 env1 where c: "checkout_init vars (wh_store w) = Inr sc" "verify_webhook reader loads sc payload sig = Inr (Some (JObj d))"
      "dget d ''type'' = Some (JStr ''checkout.session.completed'')" "session_fields (dget_default d ''data'' (JObj [])) = Inr (cp_session_id p, cp_job_id p, cp_amount_usd p)"
      "session_get (dget_default d ''data'' (JObj [])) ''payment_status'' (JStr []) = JStr ''paid''" "w1 = w\<lparr>wh_store := wh_store w1\<rparr>" "fulfil runner p w1 env1 = (a, w', env')" by blast
    have prod: "\<exists>c. membra_config_init vars = Inr c \<and> is_production c \<and> mf_stripe_secret_key c \<noteq> []"
      using c(1) by (auto simp: checkout_init_def rbind_def is_simulation_def is_production_def split: sum.splits if_splits intro: membra_mode.exhaust)
    have w1: "wh_ledger w1 = wh_ledger w" "wh_builder w1 = wh_builder w" "wh_disk w1 = wh_disk w" by (subst c(6), simp)+
    have "if success a then releases runner p w a w' else wh_ledger w' = wh_ledger w"
      using fulfil_effect [OF c(7)] unfolding releases_def w1 .
    with run c(1-5) prod show ?thesis by auto
  qed (simp add: run)
qed

text \<open>Without a webhook secret, a payload that is not UTF-8 is not refused with status 400 but ends in an exception.\<close>

lemma undecodable_payload_raises:
  assumes "checkout_init vars (wh_store w) = Inr sc" and "sc_webhook_secret sc = []" and "loads payload = Inl e"
  shows "stripe_webhook runner reader loads vars payload sig w env = (Server_error e, w, env)"
  using assms by (simp add: stripe_webhook_def verify_webhook_def)

text \<open>A completed session whose payment is confirmed, and requests one after the other.\<close>

inductive webhook_step :: "webhook_world \<times> build_env \<Rightarrow> webhook_world \<times> build_env \<Rightarrow> bool" where
  webhook: "stripe_webhook runner reader loads vars payload sig w env = (a, w', env') \<Longrightarrow> webhook_step (w, env) (w', env')"

definition paid_entry :: "webhook_world \<Rightarrow> json dict \<Rightarrow> bool" where
  "paid_entry w e \<longleftrightarrow> (\<exists>sid amount h now payment. e = split_entry sid amount h now \<and> dget (wh_confirmed w) sid = Some payment \<and>
     dget payment ''payment_status'' = Some (JStr ''paid'') \<and> dget payment ''session_id'' = Some sid \<and> dget payment ''verified'' = Some (JBool True))"

definition world_ok :: "webhook_world \<Rightarrow> bool" where
  "world_ok w \<longleftrightarrow> (\<forall>e \<in> set (lg_pending (wh_ledger w)). paid_entry w e) \<and> length (lg_pending (wh_ledger w)) \<le> 100000 \<and> lg_max_pending (wh_ledger w) = 100000"

lemma submit_pending: "set (lg_pending (ledger_submit e l)) \<subseteq> insert e (set (lg_pending l))" "lg_max_pending (ledger_submit e l) = lg_max_pending l"
  "length (lg_pending (ledger_submit e l)) \<le> lg_max_pending l \<or> lg_max_pending l < length (lg_pending l)"
  by (auto simp: ledger_submit_def Let_def simp del: drop_append dest!: in_set_dropD)

lemma webhook_step_ok: "webhook_step x y \<Longrightarrow> world_ok (fst x) \<Longrightarrow> world_ok (fst y)"
proof (induction rule: webhook_step.induct)
  case (webhook runner reader loads vars payload sig w env a w' env')
  show ?case
  proof (cases "\<not> success a \<and> wh_ledger w' = wh_ledger w \<and> wh_confirmed w' = wh_confirmed w")
    case True
    with webhook show ?thesis by (simp add: world_ok_def paid_entry_def)
  next
    case False
    with webhook_cases [OF webhook(1)] obtain p w1 env1 where c: "cp_payment_status p = JStr ''paid''" "w1 = w\<lparr>wh_store := wh_store w1\<rparr>"
      "fulfil runner p w1 env1 = (a, w', env')" by blast
    have w1: "wh_ledger w1 = wh_ledger w" "wh_confirmed w1 = wh_confirmed w" by (subst c(2), simp)+
    have conf: "wh_confirmed w' = dset (cp_session_id p) (payment_dict p) (wh_confirmed w)" using fulfil_confirms [OF c(3)] w1 by simp
    have keep: "paid_entry w' e" if e: "paid_entry w e" for e
    proof -
      from e obtain sid amount h now payment where "e = split_entry sid amount h now" "dget (wh_confirmed w) sid = Some payment"
        "dget payment ''payment_status'' = Some (JStr ''paid'')" "dget payment ''session_id'' = Some sid" "dget payment ''verified'' = Some (JBool True)"
        by (auto simp: paid_entry_def)
      then show ?thesis unfolding paid_entry_def using c(1)
        by (intro exI [of _ sid] exI [of _ amount] exI [of _ h] exI [of _ now] exI [of _ "if sid = cp_session_id p then payment_dict p else payment"])
          (simp add: conf payment_dict_def)
    qed
    have new: "paid_entry w' (split_entry (cp_session_id p) x h now)" for x h now
      unfolding paid_entry_def using c(1)
      by (intro exI [of _ "cp_session_id p"] exI [of _ x] exI [of _ h] exI [of _ now] exI [of _ "payment_dict p"]) (simp add: conf payment_dict_def)
    show ?thesis
    proof (cases "success a")
      case True
      with fulfil_effect [OF c(3)] obtain h now where "wh_ledger w' = ledger_submit (split_entry (cp_session_id p) (cp_amount_usd p) h now) (wh_ledger w)"
        by (auto simp: releases_def w1)
      with webhook(2) keep new submit_pending [of "split_entry (cp_session_id p) (cp_amount_usd p) h now" "wh_ledger w"] show ?thesis
        by (auto simp: world_ok_def)
    next
      case False
      with fulfil_effect [OF c(3)] w1 webhook(2) keep show ?thesis by (simp add: world_ok_def)
    qed
  qed
qed

interpretation webhook_calls: component_invariant webhook_step world_ok
  by unfold_locales (rule webhook_step_ok)

text \<open>
  Revenue stems from confirmed payments: after any sequence of requests to a new server, whatever the payloads, the answers of Stripe and the outcomes of tests, every
  pending entry of the ledger is a split whose session is stored as verified and paid, and the ledger keeps at most a hundred thousand of them.
\<close>

theorem revenue_is_paid:
  assumes "webhook_step\<^sup>*\<^sup>* (webhook_world_init home disk store, env0) (w, env)"
  shows "(\<forall>e \<in> set (lg_pending (wh_ledger w)). paid_entry w e) \<and> length (lg_pending (wh_ledger w)) \<le> 100000"
proof -
  have "world_ok (webhook_world_init home disk store)" by (simp add: world_ok_def webhook_world_init_def ledger_init_def)
  from webhook_calls.reached_ok [OF assms this] show ?thesis by (simp add: world_ok_def)
qed

text \<open>
  The gates of the production client: it exists exactly in production mode, with a test key, or with a live key and the acknowledgement.
\<close>

theorem production_gate_exact:
  "(\<exists>c. stripe_client_init vars = Inr c) \<longleftrightarrow>
     lower (dget_default vars ''MEMBRA_MODE'' ''simulation'') = ''production'' \<and>
     (let k = dget_default vars ''STRIPE_SECRET_KEY'' [] in
        starts_with ''sk_test_'' k \<or> starts_with ''sk_live_'' k \<and> dget vars ''STRIPE_LIVE_ACKNOWLEDGED'' = Some ''I_UNDERSTAND_REAL_MONEY'')"
  by (auto simp: stripe_client_init_def validate_environment_def Let_def split: sum.splits if_splits)

section \<open>Concrete runs\<close>

definition sample_vars :: "string dict" where
  "sample_vars = [(''MEMBRA_MODE'', ''production''), (''STRIPE_SECRET_KEY'', ''sk_test_1'')]"

definition sample_session :: "json dict" where
  "sample_session = [(''id'', JStr ''cs''), (''metadata'', JObj [(''membra_job_id'', JStr ''j'')]), (''payment_status'', JStr ''paid''), (''amount_total'', JInt 0)]"

definition flat_event :: json where
  "flat_event = JObj [(''type'', JStr ''checkout.session.completed''), (''data'', JObj sample_session)]"

definition nested_event :: json where
  "nested_event = JObj [(''type'', JStr ''checkout.session.completed''), (''data'', JObj [(''object'', JObj sample_session)])]"

definition sample_webhook_world :: webhook_world where
  "sample_webhook_world = webhook_world_init ''h'' \<lparr>bd_files = [], bd_archives = []\<rparr> \<lparr>ps_file = No_file, ps_writable = False\<rparr>"

abbreviation sample_request :: "json \<Rightarrow> webhook_world \<Rightarrow> build_env \<Rightarrow> webhook_reply \<times> webhook_world \<times> build_env" where
  "sample_request event \<equiv> stripe_webhook (\<lambda>cmd dir d. (Ran 0 [] [], d)) (\<lambda>p s k. None) (\<lambda>p. Inr (Some event)) sample_vars [] []"

lemma sample_checkout: "checkout_init sample_vars \<lparr>ps_file = No_file, ps_writable = False\<rparr> = Inr \<lparr>sc_webhook_secret = [], sc_confirmed = []\<rparr>"
  by code_simp

lemma nothing_per_cent: "num_div (JInt 0) (JInt 100) = Inr (JFloat (Fin 0))"
  by (simp add: num_div_def truediv_def)

text \<open>
  Without a webhook secret any sender can make the server build and split revenue, as often as the event is sent, since neither the sender nor a session that is already
  confirmed is checked; \<open>flat_event\<close> has the session directly under \<open>data\<close>.
\<close>

lemma unsigned_event_splits:
  assumes "wh_store w = \<lparr>ps_file = No_file, ps_writable = False\<rparr>"
  shows "\<exists>a w' env' h now. sample_request flat_event w env = (a, w', env') \<and> success a \<and> wh_store w' = wh_store w \<and>
    wh_ledger w' = ledger_submit (split_entry (JStr ''cs'') (Fin 0) h now) (wh_ledger w)"
  using assms
  by (auto simp: stripe_webhook_def sample_checkout verify_webhook_def flat_event_def sample_session_def dget_default_def handle_checkout_completed_def session_fields_def
    rbind_def nothing_per_cent session_get_def Let_def time_time_def save_payment_def payment_dict_def hashable_def fulfil_def build_spec_def builder_build_def
    generate_artifact_def case_prod_beta run_build_tests_def join_words_def jstrs_def dtruthy_def generate_report_zip_def split_revenue_def success_def)

lemma replay_splits_again:
  "\<exists>a w1 env1 a' w2 env2 h h' now now'. sample_request flat_event sample_webhook_world sample_build_env = (a, w1, env1) \<and> sample_request flat_event w1 env1 = (a', w2, env2) \<and>
     lg_pending (wh_ledger w2) = [split_entry (JStr ''cs'') (Fin 0) h now, split_entry (JStr ''cs'') (Fin 0) h' now']"
proof -
  have st: "wh_store sample_webhook_world = \<lparr>ps_file = No_file, ps_writable = False\<rparr>" "wh_ledger sample_webhook_world = ledger_init 100000"
    by (simp_all add: sample_webhook_world_def webhook_world_init_def)
  obtain a w1 env1 h now where 1: "sample_request flat_event sample_webhook_world sample_build_env = (a, w1, env1)" "wh_store w1 = wh_store sample_webhook_world"
    "wh_ledger w1 = ledger_submit (split_entry (JStr ''cs'') (Fin 0) h now) (ledger_init 100000)"
    using unsigned_event_splits [OF st(1), of sample_build_env] st(2) by auto
  obtain a' w2 env2 h' now' where 2: "sample_request flat_event w1 env1 = (a', w2, env2)"
    "wh_ledger w2 = ledger_submit (split_entry (JStr ''cs'') (Fin 0) h' now') (wh_ledger w1)"
    using unsigned_event_splits [of w1 env1] 1(2) st(1) by auto
  have "lg_pending (wh_ledger w2) = [split_entry (JStr ''cs'') (Fin 0) h now, split_entry (JStr ''cs'') (Fin 0) h' now']"
    by (simp add: 1(3) 2(2) ledger_submit_def ledger_init_def)
  with 1(1) 2(1) show ?thesis by blast
qed

text \<open>
  Stripe's own events hold the session one level deeper, under \<open>data.object\<close>: without a webhook secret none of them is ever verified.
\<close>

lemma unsigned_stripe_event_unverified:
  assumes "wh_store w = \<lparr>ps_file = No_file, ps_writable = False\<rparr>"
  shows "\<exists>d w' env'. sample_request nested_event w env = (Reply 200 d, w', env') \<and> dget d ''status'' = Some (JStr ''payment_not_verified'')"
  using assms
  by (auto simp: stripe_webhook_def sample_checkout verify_webhook_def nested_event_def sample_session_def dget_default_def handle_checkout_completed_def session_fields_def
    rbind_def nothing_per_cent session_get_def Let_def)

text \<open>A session that was only created is already listed as a confirmed payment.\<close>

lemma created_is_listed_as_confirmed:
  assumes "create (checkout_request mail ''j'') = Inr (sid, url)"
  shows "\<exists>d sc' store' rt'. create_checkout_session create mail (Some ''j'') sc store rt = (Inr d, sc', store', rt') \<and>
    dget d ''status'' = Some (JStr ''created'') \<and> get_confirmed_payment sid sc' = Some (JObj d)"
  using assms
  by (simp add: create_checkout_session_def new_job_id_def save_payment_def hashable_def get_confirmed_payment_def dget_default_def Let_def case_prod_beta)

text \<open>Cents are cut off, not rounded: 19.99 dollars are charged as 1998 cents.\<close>

lemma cents_truncated: "cents (mkf (1999 / 100)) = Inr 1998"
proof -
  have "mkf (1999 / 100) = Fin (5626684784446013 * pow2 (- 48))"
    by (rule mkf_eqI [of "- 48" _ 5626684784446013, simplified]) (simp_all add: pow2_def f_overflow_def)
  moreover have "mkf (5626684784446013 * pow2 (- 48) * 100) = Fin (8791694975696895 * pow2 (- 42))"
    by (rule mkf_eqI [of "- 42" _ 8791694975696895, simplified]) (simp_all add: pow2_def f_overflow_def)
  moreover have "\<lfloor>8791694975696895 / 4398046511104 :: rat\<rfloor> = 1998" by (rule floor_unique) simp_all
  ultimately show ?thesis by (simp add: cents_def rtrunc_def pow2_def)
qed

theorem revenue_is_paid_witness:
  "\<exists>w env e. webhook_step (sample_webhook_world, sample_build_env) (w, env) \<and> e \<in> set (lg_pending (wh_ledger w)) \<and> paid_entry w e"
proof -
  have st: "wh_store sample_webhook_world = \<lparr>ps_file = No_file, ps_writable = False\<rparr>" "wh_ledger sample_webhook_world = ledger_init 100000"
    by (simp_all add: sample_webhook_world_def webhook_world_init_def)
  obtain a w1 env1 h now where 1: "sample_request flat_event sample_webhook_world sample_build_env = (a, w1, env1)"
    "wh_ledger w1 = ledger_submit (split_entry (JStr ''cs'') (Fin 0) h now) (ledger_init 100000)"
    using unsigned_event_splits [OF st(1), of sample_build_env] st(2) by auto
  from 1(1) have step: "webhook_step (sample_webhook_world, sample_build_env) (w1, env1)" by (rule webhook_step.intros)
  have "split_entry (JStr ''cs'') (Fin 0) h now \<in> set (lg_pending (wh_ledger w1))" by (simp add: 1(2) ledger_submit_def ledger_init_def)
  with step revenue_is_paid [OF r_into_rtranclp [of webhook_step, OF step [unfolded sample_webhook_world_def]]] show ?thesis by blast
qed

end
