(* ===== verification/Shared_Memory.thy ===== *)
theory Shared_Memory
  imports PyNum "HOL-Library.Multiset"
begin

text \<open>
  \<open>membra_sdk/memory/shared_memory.py\<close>: the database the workers share, as its tables, and the store of artifacts with its manifests, on a POSIX file system
  that tells all names apart and encodes all texts. A value is kept as it
  is, since \<open>json\<close> reads back what it has printed. The order in which SQL returns rows with equal times, and its average, are
  parameters; scores and times are no NaN, which SQL stores as NULL. A manifest is kept as its value; the reader of \<open>json\<close> for other files is a parameter.
\<close>

section \<open>The database\<close>

record memory_row =
  mr_id :: int
  mr_agent_id :: string
  mr_memory_type :: string
  mr_key :: string
  mr_value :: json
  mr_timestamp :: pyfloat
  mr_job_id :: "string option"

record task_row =
  tr_id :: int
  tr_task_id :: string
  tr_agent_id :: string
  tr_role :: string
  tr_status :: string
  tr_result_hash :: "string option"
  tr_timestamp :: pyfloat
  tr_job_id :: "string option"

record reputation_row =
  rr_total_tasks :: int
  rr_successful_tasks :: int
  rr_avg_score :: pyfloat
  rr_safety_violations :: int
  rr_last_active :: pyfloat

record shared_memory =
  agent_memory :: "memory_row list"
  task_history :: "task_row list"
  worker_reputation :: "reputation_row dict"

definition shared_memory_init :: shared_memory where
  "shared_memory_init = \<lparr>agent_memory = [], task_history = [], worker_reputation = []\<rparr>"

text \<open>Rows are never deleted, so the next identifier is one more than their number.\<close>

definition memory_store :: "string \<Rightarrow> string \<Rightarrow> string \<Rightarrow> json \<Rightarrow> string option \<Rightarrow> shared_memory \<Rightarrow> runtime \<Rightarrow> shared_memory \<times> runtime" where
  "memory_store agent_id memory_type key val job_id sm rt = (let (now, rt) = time_time rt in
     (sm\<lparr>agent_memory := agent_memory sm @ [\<lparr>mr_id = int (length (agent_memory sm)) + 1, mr_agent_id = agent_id, mr_memory_type = memory_type, mr_key = key,
        mr_value = val, mr_timestamp = now, mr_job_id = job_id\<rparr>]\<rparr>, rt))"

text \<open>A filter that is missing or empty matches everything.\<close>

definition matches :: "string option \<Rightarrow> string \<Rightarrow> bool" where
  "matches f s = (case f of None \<Rightarrow> True | Some p \<Rightarrow> p = [] \<or> s = p)"

definition row_matches :: "string option \<Rightarrow> string option \<Rightarrow> string option \<Rightarrow> memory_row \<Rightarrow> bool" where
  "row_matches agent_id memory_type key r \<longleftrightarrow> matches agent_id (mr_agent_id r) \<and> matches memory_type (mr_memory_type r) \<and> matches key (mr_key r)"

definition row_dict :: "memory_row \<Rightarrow> json dict" where
  "row_dict r = [(''id'', JInt (mr_id r)), (''agent_id'', JStr (mr_agent_id r)), (''memory_type'', JStr (mr_memory_type r)), (''key'', JStr (mr_key r)),
     (''value'', mr_value r), (''timestamp'', JFloat (mr_timestamp r)), (''job_id'', jopt JStr (mr_job_id r))]"

text \<open>A negative limit of SQL is none.\<close>

definition limited :: "int \<Rightarrow> 'a list \<Rightarrow> 'a list" where
  "limited n xs = (if n < 0 then xs else take (nat n) xs)"

definition memory_retrieve ::
  "(memory_row list \<Rightarrow> memory_row list) \<Rightarrow> string option \<Rightarrow> string option \<Rightarrow> string option \<Rightarrow> int \<Rightarrow> shared_memory \<Rightarrow> json dict list" where
  "memory_retrieve newest_first agent_id memory_type key n sm =
     map row_dict (limited n (newest_first (filter (row_matches agent_id memory_type key) (agent_memory sm))))"

definition log_task ::
  "string \<Rightarrow> string \<Rightarrow> string \<Rightarrow> string \<Rightarrow> string option \<Rightarrow> string option \<Rightarrow> shared_memory \<Rightarrow> runtime \<Rightarrow> shared_memory \<times> runtime" where
  "log_task task_id agent_id role status result_hash job_id sm rt = (let (now, rt) = time_time rt in
     (sm\<lparr>task_history := task_history sm @ [\<lparr>tr_id = int (length (task_history sm)) + 1, tr_task_id = task_id, tr_agent_id = agent_id, tr_role = role,
        tr_status = status, tr_result_hash = result_hash, tr_timestamp = now, tr_job_id = job_id\<rparr>]\<rparr>, rt))"

text \<open>The right-hand sides of an update see the old row.\<close>

definition float_int :: "int \<Rightarrow> pyfloat" where
  "float_int n = mkf (of_int n)"

definition new_average :: "pyfloat \<Rightarrow> int \<Rightarrow> pyfloat \<Rightarrow> pyfloat" where
  "new_average avg n score = (case fdiv (fadd (fmul avg (float_int n)) score) (float_int (n + 1)) of Inr x \<Rightarrow> x | Inl e \<Rightarrow> NaN)"

definition updated_reputation :: "pyfloat \<Rightarrow> bool \<Rightarrow> bool \<Rightarrow> pyfloat \<Rightarrow> reputation_row \<Rightarrow> reputation_row" where
  "updated_reputation score ok violation now r =
     \<lparr>rr_total_tasks = rr_total_tasks r + 1, rr_successful_tasks = rr_successful_tasks r + of_bool ok,
      rr_avg_score = new_average (rr_avg_score r) (rr_total_tasks r) score,
      rr_safety_violations = rr_safety_violations r + of_bool violation, rr_last_active = now\<rparr>"

text \<open>The time is read again for the row that is inserted.\<close>

definition update_reputation :: "string \<Rightarrow> pyfloat \<Rightarrow> bool \<Rightarrow> bool \<Rightarrow> shared_memory \<Rightarrow> runtime \<Rightarrow> shared_memory \<times> runtime" where
  "update_reputation worker_id score ok violation sm rt = (let (now, rt) = time_time rt in
     (case dget (worker_reputation sm) worker_id of
        Some r \<Rightarrow> (sm\<lparr>worker_reputation := dset worker_id (updated_reputation score ok violation now r) (worker_reputation sm)\<rparr>, rt)
      | None \<Rightarrow> let (now, rt) = time_time rt in
          (sm\<lparr>worker_reputation := dset worker_id \<lparr>rr_total_tasks = 1, rr_successful_tasks = of_bool ok, rr_avg_score = score,
             rr_safety_violations = of_bool violation, rr_last_active = now\<rparr> (worker_reputation sm)\<rparr>, rt)))"

definition get_reputation :: "string \<Rightarrow> shared_memory \<Rightarrow> json dict option" where
  "get_reputation worker_id sm = map_option (\<lambda>r. [(''worker_id'', JStr worker_id), (''total_tasks'', JInt (rr_total_tasks r)),
     (''successful_tasks'', JInt (rr_successful_tasks r)), (''avg_score'', JFloat (rr_avg_score r)), (''safety_violations'', JInt (rr_safety_violations r)),
     (''last_active'', JFloat (rr_last_active r))]) (dget (worker_reputation sm) worker_id)"

text \<open>The average of no rows is NULL.\<close>

definition memory_stats :: "(pyfloat list \<Rightarrow> pyfloat option) \<Rightarrow> shared_memory \<Rightarrow> json dict" where
  "memory_stats sql_avg sm =
     [(''total_memories'', JInt (int (length (agent_memory sm)))), (''total_tasks_logged'', JInt (int (length (task_history sm)))),
      (''total_workers'', JInt (int (length (worker_reputation sm)))),
      (''average_reputation'', case sql_avg (map rr_avg_score (dvalues (worker_reputation sm))) of
         Some x \<Rightarrow> if ftruthy x then JFloat (fround x 3) else JInt 0 | None \<Rightarrow> JInt 0)]"

section \<open>Artifacts\<close>

datatype stored_file = Plain string | Manifest "json dict"

type_synonym artifact_disk = "stored_file dict"

record artifact_store =
  as_storage_path :: string

definition artifact_path :: "artifact_store \<Rightarrow> string \<Rightarrow> string \<Rightarrow> string" where
  "artifact_path st job_id filename = path_join (path_join (as_storage_path st) job_id) filename"

text \<open>What \<open>json.dump(d, f, indent=2)\<close> writes for a dictionary of texts and other flat values.\<close>

definition manifest_text :: "json dict \<Rightarrow> string" where
  "manifest_text d = (if d = [] then ''{}'' else
     ''{'' @ join '','' (map (\<lambda>(k, v). [CHR 0x0A] @ ''  '' @ json_string True k @ '': '' @ dumps True False v) d) @ [CHR 0x0A] @ ''}'')"

definition file_text :: "stored_file \<Rightarrow> string" where
  "file_text f = (case f of Plain s \<Rightarrow> s | Manifest d \<Rightarrow> manifest_text d)"

text \<open>Reading a file as text turns each \<open>\\r\\n\<close> and each other \<open>\\r\<close> into a line feed; writing it, on POSIX, changes nothing.\<close>

fun universal_newlines :: "string \<Rightarrow> string" where
  "universal_newlines [] = []"
| "universal_newlines (c # cs) =
     (if c = CHR 0x0D then CHR 0x0A # (case cs of [] \<Rightarrow> [] | d # ds \<Rightarrow> universal_newlines (if d = CHR 0x0A then ds else cs))
      else c # universal_newlines cs)"

definition read_text :: "stored_file \<Rightarrow> string" where
  "read_text f = universal_newlines (file_text f)"

definition load_manifest :: "(string \<Rightarrow> json option) \<Rightarrow> stored_file \<Rightarrow> json result" where
  "load_manifest loads f = (case f of Manifest d \<Rightarrow> Inr (JObj d)
     | Plain s \<Rightarrow> (case loads (universal_newlines s) of None \<Rightarrow> Inl (ValueError s) | Some v \<Rightarrow> Inr v))"

text \<open>Only an object takes the new entry; the artifact is already written.\<close>

definition artifact_put :: "(string \<Rightarrow> json option) \<Rightarrow> artifact_store \<Rightarrow> string \<Rightarrow> string \<Rightarrow> string \<Rightarrow> artifact_disk \<Rightarrow> string result \<times> artifact_disk" where
  "artifact_put loads st job_id filename content disk =
     (let disk = dset (artifact_path st job_id filename) (Plain content) disk; h = sha256_hex content; manifest = artifact_path st job_id ''manifest.json'' in
      (case (case dget disk manifest of None \<Rightarrow> Inr (JObj []) | Some f \<Rightarrow> load_manifest loads f) of
         Inl e \<Rightarrow> (Inl e, disk)
       | Inr (JObj d) \<Rightarrow> (Inr h, dset manifest (Manifest (dset filename (JStr h) d)) disk)
       | Inr v \<Rightarrow> (Inl TypeError, disk)))"

definition artifact_get :: "artifact_store \<Rightarrow> string \<Rightarrow> string \<Rightarrow> artifact_disk \<Rightarrow> string option" where
  "artifact_get st job_id filename disk = map_option read_text (dget disk (artifact_path st job_id filename))"

definition artifact_verify :: "(string \<Rightarrow> json option) \<Rightarrow> artifact_store \<Rightarrow> string \<Rightarrow> string \<Rightarrow> artifact_disk \<Rightarrow> bool result" where
  "artifact_verify loads st job_id filename disk =
     (case (dget disk (artifact_path st job_id filename), dget disk (artifact_path st job_id ''manifest.json'')) of
        (Some f, Some m) \<Rightarrow> rbind (load_manifest loads m) (\<lambda>v. rbind (json_get v filename (JStr [])) (\<lambda>expected. Inr (expected = JStr (sha256_hex (file_text f)))))
      | _ \<Rightarrow> Inr False)"

section \<open>Retrieval\<close>

text \<open>What SQL promises of \<open>ORDER BY timestamp DESC\<close>, for finite times.\<close>

definition orders_by_time :: "(memory_row list \<Rightarrow> memory_row list) \<Rightarrow> bool" where
  "orders_by_time f \<longleftrightarrow> (\<forall>rs. (\<forall>r \<in> set rs. is_fin (mr_timestamp r)) \<longrightarrow>
     mset (f rs) = mset rs \<and> sorted_wrt (\<lambda>a b. fle (mr_timestamp b) (mr_timestamp a)) (f rs))"

text \<open>
  Retrieval gives the newest matching memories: with a limit that is not negative there are as many as the limit and the number of matching rows allow, all of
  them match, the newest come first, and every matching row that is left out is at most as new as each one returned.
\<close>

theorem retrieve_newest:
  assumes "orders_by_time newest_first" and "0 \<le> n" and "\<forall>r \<in> set (agent_memory sm). is_fin (mr_timestamp r)"
  shows "\<exists>got rest. memory_retrieve newest_first agent_id memory_type key n sm = map row_dict got \<and>
    mset (got @ rest) = mset (filter (row_matches agent_id memory_type key) (agent_memory sm)) \<and>
    int (length got) = min n (int (length (filter (row_matches agent_id memory_type key) (agent_memory sm)))) \<and>
    sorted_wrt (\<lambda>a b. fle (mr_timestamp b) (mr_timestamp a)) got \<and> (\<forall>a \<in> set got. \<forall>b \<in> set rest. fle (mr_timestamp b) (mr_timestamp a))"
proof -
  define rows where "rows = filter (row_matches agent_id memory_type key) (agent_memory sm)"
  have "\<forall>r \<in> set rows. is_fin (mr_timestamp r)" using assms(3) by (simp add: rows_def)
  with assms(1) have o: "mset (newest_first rows) = mset rows" "sorted_wrt (\<lambda>a b. fle (mr_timestamp b) (mr_timestamp a)) (newest_first rows)"
    by (simp_all add: orders_by_time_def)
  then have len: "length (newest_first rows) = length rows" using mset_eq_length by blast
  let ?got = "take (nat n) (newest_first rows)" and ?rest = "drop (nat n) (newest_first rows)"
  have "sorted_wrt (\<lambda>a b. fle (mr_timestamp b) (mr_timestamp a)) (?got @ ?rest)" using o(2) by simp
  then have "sorted_wrt (\<lambda>a b. fle (mr_timestamp b) (mr_timestamp a)) ?got" "\<forall>a \<in> set ?got. \<forall>b \<in> set ?rest. fle (mr_timestamp b) (mr_timestamp a)"
    unfolding sorted_wrt_append by blast+
  moreover have "int (length ?got) = min n (int (length rows))" using assms(2) len by simp
  moreover have "mset (?got @ ?rest) = mset rows" using o(1) by simp
  moreover have "memory_retrieve newest_first agent_id memory_type key n sm = map row_dict ?got"
    using assms(2) by (simp add: memory_retrieve_def limited_def rows_def)
  ultimately show ?thesis unfolding rows_def by blast
qed

section \<open>Reputation\<close>

text \<open>The tables of a worker: what its row holds after some updates.\<close>

definition reputation_ok :: "int \<Rightarrow> int \<Rightarrow> reputation_row \<Rightarrow> bool" where
  "reputation_ok B n r \<longleftrightarrow> 1 \<le> rr_total_tasks r \<and> rr_total_tasks r \<le> n \<and> 0 \<le> rr_successful_tasks r \<and> rr_successful_tasks r \<le> rr_total_tasks r \<and>
     0 \<le> rr_safety_violations r \<and> rr_safety_violations r \<le> rr_total_tasks r \<and> (\<exists>a. rr_avg_score r = Fin a \<and> 0 \<le> a \<and> a \<le> of_int B)"

lemma float_int_exact: "\<bar>n\<bar> \<le> 2 ^ 52 \<Longrightarrow> float_int n = Fin (of_int n)"
  using mkf_between [of "of_int n" "of_int n" "of_int n"] half_int_of_int [of n] by (auto simp: float_int_def)

lemma new_average_bounds:
  assumes "0 \<le> a" "a \<le> of_int B" "0 \<le> s" "s \<le> of_int B" and "1 \<le> n" "0 \<le> B" "B * (n + 1) \<le> 2 ^ 52" "n < 2 ^ 52"
  shows "\<exists>x. new_average (Fin a) n (Fin s) = Fin x \<and> 0 \<le> x \<and> x \<le> of_int B"
proof -
  have B: "B \<le> B * n" "B * n \<le> B * (n + 1)" using assms(5,6) by (simp_all add: mult_le_cancel_left1 mult_left_mono)
  then have half: "half_int 0" "half_int (of_int B)" "half_int (of_int (B * n))" "half_int (of_int (B * (n + 1)))"
    using assms(6,7) half_int_of_int [of 0] half_int_of_int [of B] half_int_of_int [of "B * n"] half_int_of_int [of "B * (n + 1)"] assms(5) by simp_all
  have n: "float_int n = Fin (of_int n)" "float_int (n + 1) = Fin (of_int (n + 1))" using assms(5,8) by (simp_all add: float_int_exact)
  have "0 \<le> a * of_int n" "a * of_int n \<le> of_int (B * n)" using assms(1,2,5) by (simp_all add: mult_right_mono)
  from mkf_between [OF half(1,3) this] obtain p where p: "mkf (a * of_int n) = Fin p" "0 \<le> p" "p \<le> of_int (B * n)" by blast
  have "0 \<le> p + s" "p + s \<le> of_int (B * (n + 1))" using p(2,3) assms(3,4) by (simp_all add: algebra_simps)
  from mkf_between [OF half(1,4) this] obtain q where q: "mkf (p + s) = Fin q" "0 \<le> q" "q \<le> of_int (B * (n + 1))" by blast
  have pos: "0 < (of_int (n + 1) :: rat)" using assms(5) by simp
  have "0 \<le> q / of_int (n + 1)" "q / of_int (n + 1) \<le> of_int B" using q(2,3) pos by (simp_all add: divide_le_eq)
  from mkf_between [OF half(1,2) this] obtain x where "mkf (q / of_int (n + 1)) = Fin x" "0 \<le> x" "x \<le> of_int B" by blast
  then show ?thesis using p(1) q(1) n pos by (simp add: new_average_def)
qed

text \<open>Calls of \<open>update_reputation\<close>, one after the other.\<close>

record score_report =
  sr_worker :: string
  sr_score :: rat
  sr_ok :: bool
  sr_violation :: bool

fun report_all :: "score_report list \<Rightarrow> shared_memory \<Rightarrow> runtime \<Rightarrow> shared_memory \<times> runtime" where
  "report_all [] sm rt = (sm, rt)"
| "report_all (s # ss) sm rt = (let (sm, rt) = update_reputation (sr_worker s) (Fin (sr_score s)) (sr_ok s) (sr_violation s) sm rt in report_all ss sm rt)"

lemma report_step:
  assumes "\<forall>w r. dget (worker_reputation sm) w = Some r \<longrightarrow> reputation_ok B n r" and "0 \<le> s" "s \<le> of_int B" "0 \<le> n" "0 \<le> B" "B * (n + 1) \<le> 2 ^ 52" "n < 2 ^ 52"
  shows "\<forall>w r. dget (worker_reputation (fst (update_reputation w0 (Fin s) ok violation sm rt))) w = Some r \<longrightarrow> reputation_ok B (n + 1) r"
proof (intro allI impI)
  fix w r assume r: "dget (worker_reputation (fst (update_reputation w0 (Fin s) ok violation sm rt))) w = Some r"
  have old: "reputation_ok B (n + 1) r" if "dget (worker_reputation sm) w = Some r" for r
    using assms(1) that by (fastforce simp: reputation_ok_def)
  show "reputation_ok B (n + 1) r"
  proof (cases "w = w0")
    case False
    with r old show ?thesis by (auto simp: update_reputation_def Let_def case_prod_beta split: option.splits)
  next
    case True
    show ?thesis
    proof (cases "dget (worker_reputation sm) w0")
      case None
      with r True assms(2-4) show ?thesis by (auto simp: update_reputation_def Let_def case_prod_beta reputation_ok_def of_bool_def)
    next
      case (Some r0)
      with assms(1) have ok0: "reputation_ok B n r0" by blast
      then obtain a where a: "rr_avg_score r0 = Fin a" "0 \<le> a" "a \<le> of_int B" by (auto simp: reputation_ok_def)
      from ok0 have t: "1 \<le> rr_total_tasks r0" "rr_total_tasks r0 \<le> n" by (simp_all add: reputation_ok_def)
      have "B * (rr_total_tasks r0 + 1) \<le> B * (n + 1)" using t assms(5) by (intro mult_left_mono) simp_all
      then obtain x where "new_average (Fin a) (rr_total_tasks r0) (Fin s) = Fin x" "0 \<le> x" "x \<le> of_int B"
        using new_average_bounds [OF a(2,3) assms(2,3) t(1) assms(5)] assms(6,7) t(2) by force
      then show ?thesis using r True Some ok0 t a(1)
        by (auto simp: update_reputation_def Let_def case_prod_beta reputation_ok_def updated_reputation_def of_bool_def)
    qed
  qed
qed

lemma report_all_ok:
  assumes "\<forall>w r. dget (worker_reputation sm) w = Some r \<longrightarrow> reputation_ok B n r" and "\<forall>s \<in> set ss. 0 \<le> sr_score s \<and> sr_score s \<le> of_int B"
    and "0 \<le> n" "0 \<le> B" "B * (n + int (length ss)) \<le> 2 ^ 52" "n + int (length ss) \<le> 2 ^ 52"
  shows "\<forall>w r. dget (worker_reputation (fst (report_all ss sm rt))) w = Some r \<longrightarrow> reputation_ok B (n + int (length ss)) r"
  using assms
proof (induction ss arbitrary: sm rt n)
  case (Cons s ss)
  have le: "B * (n + 1) \<le> B * (n + int (length (s # ss)))" using Cons.prems(4) by (intro mult_left_mono) simp_all
  define u where "u = update_reputation (sr_worker s) (Fin (sr_score s)) (sr_ok s) (sr_violation s) sm rt"
  have step: "\<forall>w r. dget (worker_reputation (fst u)) w = Some r \<longrightarrow> reputation_ok B (n + 1) r"
    unfolding u_def using Cons.prems le by (intro report_step) simp_all
  have "\<forall>w r. dget (worker_reputation (fst (report_all ss (fst u) (snd u)))) w = Some r \<longrightarrow> reputation_ok B (n + 1 + int (length ss)) r"
    using Cons.prems by (intro Cons.IH [OF step]) (simp_all add: algebra_simps)
  then show ?case by (simp add: u_def case_prod_beta algebra_simps)
qed simp

text \<open>
  C37. The floating point running average stays below a whole bound: let \<open>B\<close> be an integer, at least 1. After any reports with scores between 0 and \<open>B\<close>, as long as
  \<open>B\<close> times their number is at most \<open>2 ^ 52\<close>, every worker has a finite average between 0 and \<open>B\<close>, and its successes and violations are at most its
  tasks, which are at most the reports. For a bound that is no integer rounding can carry the average over it (\<open>average_above_scores\<close> below).
\<close>

theorem reputation_bounded:
  assumes "\<forall>s \<in> set ss. 0 \<le> sr_score s \<and> sr_score s \<le> of_int B" and "1 \<le> B" "B * int (length ss) \<le> 2 ^ 52"
    and "dget (worker_reputation (fst (report_all ss shared_memory_init rt))) w = Some r"
  shows "reputation_ok B (int (length ss)) r"
proof -
  have "int (length ss) \<le> B * int (length ss)" using assms(2) by (simp add: mult_le_cancel_right1)
  with assms(3) have "int (length ss) \<le> 2 ^ 52" by linarith
  with report_all_ok [of shared_memory_init B 0 ss rt] assms show ?thesis by (simp add: shared_memory_init_def)
qed

text \<open>Three reports of the same score, 0.1, have an average above it: 0.10000000000000002.\<close>

lemma rnd_at:
  assumes "- 1074 \<le> e" and "pow2 (e + 52) \<le> x" and "x < pow2 (e + 53)"
  shows "rnd x = of_int (rhe (x / pow2 e)) * pow2 e"
proof -
  have x: "0 < x" using assms(2) pow2_pos [of "e + 52"] by linarith
  have "ilog2 x = e + 52" using ilog2_ge [OF x assms(2)] ilog2_less [OF x assms(3)] by linarith
  then show ?thesis using x assms(1) by (simp add: fexp_def rnd_def)
qed

definition tenth :: rat where
  "tenth = 3602879701896397 / 2 ^ 55"

lemma tenth_is_float: "mkf (1 / 10) = Fin tenth"
  using mkf_eqI [of "- 56" "1 / 10" 7205759403792794] by (simp add: tenth_def pow2_def f_overflow_def)

lemma average_above_scores:
  "new_average (Fin tenth) 1 (Fin tenth) = Fin tenth"
  "\<exists>x. new_average (new_average (Fin tenth) 1 (Fin tenth)) 2 (Fin tenth) = Fin x \<and> tenth < x"
proof -
  have one: "mkf tenth = Fin tenth" "mkf (tenth * 2) = Fin (tenth * 2)"
    using mkf_rep [of 3602879701896397 "- 55"] mkf_rep [of 3602879701896397 "- 54"] by (simp_all add: tenth_def pow2_def)
  show first: "new_average (Fin tenth) 1 (Fin tenth) = Fin tenth"
    using one by (simp add: new_average_def float_int_def mult.commute)
  have "\<lfloor>10808639105689191 / 2 :: rat\<rfloor> = 5404319552844595" by (simp add: floor_eq_iff)
  then have "rhe (tenth * 3 / pow2 (- 54)) = 5404319552844596" by (simp add: tenth_def pow2_def rhe_def Let_def)
  then have "rnd (tenth * 3) = 5404319552844596 * pow2 (- 54)"
    using rnd_at [of "- 54" "tenth * 3"] by (simp add: tenth_def pow2_def)
  then have three: "mkf (tenth * 3) = Fin (5404319552844596 * pow2 (- 54))"
    using mkf_Fin [of "tenth * 3"] by (simp add: f_overflow_def pow2_def)
  have third: "mkf (5404319552844596 * pow2 (- 54) / 3) = Fin (7205759403792795 * pow2 (- 56))"
    using mkf_eqI [of "- 56" "5404319552844596 * pow2 (- 54) / 3" 7205759403792795] by (simp add: pow2_def f_overflow_def)
  have "tenth * 2 + tenth = tenth * 3" by simp
  then have "new_average (Fin tenth) 2 (Fin tenth) = Fin (7205759403792795 * pow2 (- 56))"
    using one(2) three third by (simp add: new_average_def float_int_def mult.commute)
  moreover have "tenth < 7205759403792795 * pow2 (- 56)" by (simp add: tenth_def pow2_def)
  ultimately show "\<exists>x. new_average (new_average (Fin tenth) 1 (Fin tenth)) 2 (Fin tenth) = Fin x \<and> tenth < x" using first by simp
qed

section \<open>The store of artifacts\<close>

text \<open>Names of one file or directory of their own: one part of a path, not \<open>.\<close> or \<open>..\<close>, which name other directories; and not the manifest.\<close>

definition plain_name :: "string \<Rightarrow> bool" where
  "plain_name s \<longleftrightarrow> s \<noteq> [] \<and> CHR ''/'' \<notin> set s \<and> CHR 0x00 \<notin> set s \<and> s \<noteq> ''.'' \<and> s \<noteq> ''..''"

definition artifact_name :: "string \<Rightarrow> bool" where
  "artifact_name s \<longleftrightarrow> plain_name s \<and> s \<noteq> ''manifest.json''"

lemma plain_join: "plain_name b \<Longrightarrow> path_join a b = (if a = [] \<or> last a = CHR ''/'' then a @ b else a @ ''/'' @ b)"
  by (cases b) (auto simp: path_join_def plain_name_def)

lemma slash_split: "CHR ''/'' \<notin> set a \<Longrightarrow> CHR ''/'' \<notin> set c \<Longrightarrow> a @ ''/'' @ b = c @ ''/'' @ d \<longleftrightarrow> a = c \<and> b = d"
proof (induction a arbitrary: c)
  case Nil
  then show ?case by (cases c) auto
next
  case (Cons x a)
  then show ?case by (cases c) auto
qed

lemma artifact_path_inj:
  assumes "plain_name j" "plain_name f" "plain_name j'" "plain_name f'"
  shows "artifact_path st j f = artifact_path st j' f' \<longleftrightarrow> j = j' \<and> f = f'"
proof -
  obtain p where p: "\<And>j. plain_name j \<Longrightarrow> path_join (as_storage_path st) j = p @ j" by (simp add: plain_join) (metis append.assoc)
  have "artifact_path st j f = p @ j @ ''/'' @ f" if "plain_name j" "plain_name f" for j f
  proof -
    have "p @ j \<noteq> []" "last (p @ j) \<noteq> CHR ''/''" using that(1) last_in_set [of j] by (auto simp: plain_name_def simp del: last_in_set)
    moreover have "artifact_path st j f = path_join (p @ j) f" by (simp only: artifact_path_def p [OF that(1)])
    ultimately show ?thesis by (simp add: plain_join [OF that(2)])
  qed
  then show ?thesis using assms slash_split [of j j' f f'] by (simp add: plain_name_def)
qed

fun put_all :: "(string \<Rightarrow> json option) \<Rightarrow> artifact_store \<Rightarrow> (string \<times> string \<times> string) list \<Rightarrow> artifact_disk \<Rightarrow> artifact_disk" where
  "put_all loads st [] disk = disk"
| "put_all loads st ((j, f, c) # xs) disk = put_all loads st xs (snd (artifact_put loads st j f c disk))"

text \<open>The last content stored under each name.\<close>

fun stored_last :: "(string \<times> string \<times> string) list \<Rightarrow> ((string \<times> string) \<times> string) list \<Rightarrow> ((string \<times> string) \<times> string) list" where
  "stored_last [] l = l"
| "stored_last ((j, f, c) # xs) l = stored_last xs (dset (j, f) c l)"

definition disk_ok :: "artifact_store \<Rightarrow> ((string \<times> string) \<times> string) list \<Rightarrow> artifact_disk \<Rightarrow> bool" where
  "disk_ok st l disk \<longleftrightarrow>
     (\<forall>j f. plain_name j \<longrightarrow> artifact_name f \<longrightarrow> dget disk (artifact_path st j f) = map_option Plain (dget l (j, f))) \<and>
     (\<forall>j. plain_name j \<longrightarrow> (case dget disk (artifact_path st j ''manifest.json'') of
         None \<Rightarrow> \<forall>f. artifact_name f \<longrightarrow> dget l (j, f) = None
       | Some (Manifest d) \<Rightarrow> \<forall>f. artifact_name f \<longrightarrow> dget d f = map_option (\<lambda>c. JStr (sha256_hex c)) (dget l (j, f))
       | Some (Plain s) \<Rightarrow> False))"

lemma manifest_plain [simp]: "plain_name ''manifest.json''" "artifact_name f \<Longrightarrow> plain_name f" "artifact_name f \<Longrightarrow> f \<noteq> ''manifest.json''"
  by (simp_all add: plain_name_def artifact_name_def)

lemma put_ok:
  assumes "disk_ok st l disk" and j: "plain_name j" and f: "artifact_name f"
  shows "fst (artifact_put loads st j f c disk) = Inr (sha256_hex c) \<and> disk_ok st (dset (j, f) c l) (snd (artifact_put loads st j f c disk))"
proof -
  define m where "m = artifact_path st j ''manifest.json''"
  define d where "d = (case dget disk m of Some (Manifest d) \<Rightarrow> d | _ \<Rightarrow> [])"
  have ne: "artifact_path st j f \<noteq> m" using j f by (simp add: m_def artifact_path_inj)
  have man: "case dget disk m of None \<Rightarrow> \<forall>f. artifact_name f \<longrightarrow> dget l (j, f) = None
       | Some (Manifest d) \<Rightarrow> \<forall>f. artifact_name f \<longrightarrow> dget d f = map_option (\<lambda>c. JStr (sha256_hex c)) (dget l (j, f)) | Some (Plain s) \<Rightarrow> False"
    using assms(1) j unfolding disk_ok_def m_def by blast
  then have dl: "\<forall>f. artifact_name f \<longrightarrow> dget d f = map_option (\<lambda>c. JStr (sha256_hex c)) (dget l (j, f))"
    by (auto simp: d_def split: option.splits stored_file.splits)
  have put: "artifact_put loads st j f c disk = (Inr (sha256_hex c), dset m (Manifest (dset f (JStr (sha256_hex c)) d)) (dset (artifact_path st j f) (Plain c) disk))"
    using man ne by (auto simp: artifact_put_def m_def [symmetric] d_def load_manifest_def Let_def split: option.splits stored_file.splits)
  have files: "dget disk' (artifact_path st j' f') = map_option Plain (dget (dset (j, f) c l) (j', f'))"
    if "plain_name j'" "artifact_name f'" "disk' = dset m (Manifest e) (dset (artifact_path st j f) (Plain c) disk)" for disk' e j' f'
    using assms that by (auto simp: m_def artifact_path_inj disk_ok_def)
  have manifests: "dget (dset m (Manifest e) (dset (artifact_path st j f) (Plain c) disk)) (artifact_path st j' ''manifest.json'') =
      (if j' = j then Some (Manifest e) else dget disk (artifact_path st j' ''manifest.json''))" if "plain_name j'" for j' e
    using j f that by (auto simp: m_def artifact_path_inj)
  show ?thesis
    unfolding put fst_conv snd_conv disk_ok_def
  proof (intro conjI allI impI)
    fix j' assume j': "plain_name j'"
    have old: "case dget disk (artifact_path st j' ''manifest.json'') of
         None \<Rightarrow> \<forall>f. artifact_name f \<longrightarrow> dget l (j', f) = None
       | Some (Manifest d) \<Rightarrow> \<forall>f. artifact_name f \<longrightarrow> dget d f = map_option (\<lambda>c. JStr (sha256_hex c)) (dget l (j', f))
       | Some (Plain s) \<Rightarrow> False" using assms(1) j' unfolding disk_ok_def by blast
    show "case dget (dset m (Manifest (dset f (JStr (sha256_hex c)) d)) (dset (artifact_path st j f) (Plain c) disk)) (artifact_path st j' ''manifest.json'') of
         None \<Rightarrow> \<forall>f'. artifact_name f' \<longrightarrow> dget (dset (j, f) c l) (j', f') = None
       | Some (Manifest d) \<Rightarrow> \<forall>f'. artifact_name f' \<longrightarrow> dget d f' = map_option (\<lambda>c. JStr (sha256_hex c)) (dget (dset (j, f) c l) (j', f'))
       | Some (Plain s) \<Rightarrow> False"
      using old dl unfolding manifests [OF j'] by (cases "j' = j") (auto split: option.splits stored_file.splits)
  qed (use files in auto)
qed

lemma put_all_ok:
  "disk_ok st l disk \<Longrightarrow> \<forall>(j, f, c) \<in> set xs. plain_name j \<and> artifact_name f \<Longrightarrow> disk_ok st (stored_last xs l) (put_all loads st xs disk)"
  by (induction xs arbitrary: l disk) (use put_ok in fastforce)+

lemma newlines_id: "CHR 0x0D \<notin> set s \<Longrightarrow> universal_newlines s = s"
  by (induction s rule: universal_newlines.induct) auto

text \<open>
  C38. The store keeps artifacts and detects changes: after any sequence of stores under plain names, from an empty disk, what is retrieved under a name is the
  content stored last as a text file reads back, with each \<open>\\r\\n\<close> and each other \<open>\\r\<close> turned into a line feed (so the content itself exactly when these agree, in particular
  when it has no carriage return), or nothing, and it verifies exactly if something was stored; if the file is then replaced, it verifies exactly
  when the hash of the new content is that of the stored one. A plain name is not empty, has no \<open>/\<close> and no NUL, and is not \<open>.\<close> or \<open>..\<close>;
  an artifact is not called \<open>manifest.json\<close>.
\<close>

theorem artifacts_survive:
  assumes "\<forall>(j, f, c) \<in> set xs. plain_name j \<and> artifact_name f" and "plain_name j" "artifact_name f"
  shows "artifact_get st j f (put_all loads st xs []) = map_option universal_newlines (dget (stored_last xs []) (j, f)) \<and>
    (\<forall>c. dget (stored_last xs []) (j, f) = Some c \<longrightarrow> CHR 0x0D \<notin> set c \<longrightarrow> artifact_get st j f (put_all loads st xs []) = Some c) \<and>
    artifact_verify loads st j f (put_all loads st xs []) = Inr (dget (stored_last xs []) (j, f) \<noteq> None) \<and>
    artifact_verify loads st j f (dset (artifact_path st j f) (Plain new) (put_all loads st xs [])) =
      Inr (\<exists>c. dget (stored_last xs []) (j, f) = Some c \<and> sha256_hex c = sha256_hex new)"
proof -
  define disk where "disk = put_all loads st xs []"
  define l where "l = stored_last xs []"
  have ok: "disk_ok st l disk" unfolding disk_def l_def by (rule put_all_ok [OF _ assms(1)]) (simp add: disk_ok_def)
  have stored: "dget disk (artifact_path st j f) = map_option Plain (dget l (j, f))" using ok assms(2,3) by (simp add: disk_ok_def)
  have man: "case dget disk (artifact_path st j ''manifest.json'') of None \<Rightarrow> \<forall>f. artifact_name f \<longrightarrow> dget l (j, f) = None
       | Some (Manifest d) \<Rightarrow> \<forall>f. artifact_name f \<longrightarrow> dget d f = map_option (\<lambda>c. JStr (sha256_hex c)) (dget l (j, f)) | Some (Plain s) \<Rightarrow> False"
    using ok assms(2) unfolding disk_ok_def by blast
  have ne: "artifact_path st j ''manifest.json'' \<noteq> artifact_path st j f" 
    using artifact_path_inj [OF assms(2) manifest_plain(1) assms(2) manifest_plain(2) [OF assms(3)]] manifest_plain(3) [OF assms(3)] by metis
  have hex: "sha256_hex s \<noteq> []" "[] \<noteq> sha256_hex s" for s using length_sha256_hex [of s] by (metis list.size(3) zero_neq_numeral)+
  have "artifact_get st j f disk = map_option universal_newlines (dget l (j, f))"
    using stored by (cases "dget l (j, f)") (simp_all add: artifact_get_def read_text_def file_text_def)
  moreover from this have "\<forall>c. dget l (j, f) = Some c \<longrightarrow> CHR 0x0D \<notin> set c \<longrightarrow> artifact_get st j f disk = Some c" by (simp add: newlines_id)
  moreover have "artifact_verify loads st j f disk = Inr (dget l (j, f) \<noteq> None)"
    using stored man assms(3) by (cases "dget l (j, f)") (auto simp: artifact_verify_def load_manifest_def dget_default_def file_text_def split: option.splits stored_file.splits)
  moreover have "artifact_verify loads st j f (dset (artifact_path st j f) (Plain new) disk) = Inr (\<exists>c. dget l (j, f) = Some c \<and> sha256_hex c = sha256_hex new)"
    using man assms(3) ne hex by (cases "dget l (j, f)") (auto simp: artifact_verify_def load_manifest_def dget_default_def file_text_def split: option.splits stored_file.splits)
  ultimately show ?thesis by (simp add: disk_def l_def)
qed

text \<open>
  A text with Windows line ends comes back changed and still verifies, since verifying reads the bytes: what is retrieved does not have the hash
  that was stored for it, unless SHA-256 collides.
\<close>

lemma carriage_return_is_lost:
  assumes "plain_name j" "artifact_name f" and "c = ''a'' @ [CHR 0x0D, CHR 0x0A] @ ''b''"
  shows "artifact_get st j f (put_all loads st [(j, f, c)] []) = Some (''a'' @ [CHR 0x0A] @ ''b'') \<and> c \<noteq> ''a'' @ [CHR 0x0A] @ ''b'' \<and>
    (\<exists>d. dget (put_all loads st [(j, f, c)] []) (artifact_path st j ''manifest.json'') = Some (Manifest d) \<and> dget d f = Some (JStr (sha256_hex c)))"
proof -
  have "artifact_path st j ''manifest.json'' \<noteq> artifact_path st j f"
    using artifact_path_inj [OF assms(1) manifest_plain(1) assms(1) manifest_plain(2) [OF assms(2)]] manifest_plain(3) [OF assms(2)] by metis
  then show ?thesis by (simp add: assms(3) artifact_put_def artifact_get_def read_text_def file_text_def Let_def)
qed

text \<open>Under the name of the manifest an artifact is lost: it becomes the manifest, or the store fails.\<close>

lemma manifest_name_collides:
  assumes "loads (universal_newlines c) = None"
  shows "fst (artifact_put loads st ''job'' ''manifest.json'' c []) = Inl (ValueError c)"
  using assms by (simp add: artifact_put_def load_manifest_def Let_def)

section \<open>Concrete runs\<close>

definition sample_row :: "nat \<Rightarrow> memory_row" where
  "sample_row i = \<lparr>mr_id = int i, mr_agent_id = ''a'', mr_memory_type = ''t'', mr_key = ''k'', mr_value = JNull, mr_timestamp = Fin (of_nat i), mr_job_id = None\<rparr>"

text \<open>Sorting as SQL may do it, for rows whose times are finite.\<close>

definition newest_first_of :: "memory_row list \<Rightarrow> memory_row list" where
  "newest_first_of rs = (if \<forall>r \<in> set rs. is_fin (mr_timestamp r) then rev (sort_key (\<lambda>r. rat_of (mr_timestamp r)) rs) else rs)"

lemma newest_first_orders: "orders_by_time newest_first_of"
proof -
  have le: "fle x y" if "is_fin x" "is_fin y" "rat_of x \<le> rat_of y" for x y
    using that by (cases x; cases y) (simp_all add: is_fin_def)
  show ?thesis
    unfolding orders_by_time_def
  proof (intro allI impI conjI)
    fix rs :: "memory_row list" assume fin: "\<forall>r \<in> set rs. is_fin (mr_timestamp r)"
    then show "mset (newest_first_of rs) = mset rs" by (simp add: newest_first_of_def)
    have "sorted_wrt (\<lambda>a b. rat_of (mr_timestamp a) \<le> rat_of (mr_timestamp b)) (sort_key (\<lambda>r. rat_of (mr_timestamp r)) rs)"
      using sorted_sort_key [of "\<lambda>r. rat_of (mr_timestamp r)" rs] by (simp add: sorted_wrt_map)
    then have "sorted_wrt (\<lambda>a b. fle (mr_timestamp a) (mr_timestamp b)) (sort_key (\<lambda>r. rat_of (mr_timestamp r)) rs)"
      by (rule sorted_wrt_mono_rel [rotated]) (use fin le in auto)
    then show "sorted_wrt (\<lambda>a b. fle (mr_timestamp b) (mr_timestamp a)) (newest_first_of rs)"
      using fin by (simp add: newest_first_of_def sorted_wrt_rev)
  qed
qed

theorem retrieve_newest_witness:
  "\<exists>got rest. memory_retrieve newest_first_of None (Some ''t'') None 2 \<lparr>agent_memory = map sample_row [1, 2, 3], task_history = [], worker_reputation = []\<rparr> = map row_dict got \<and>
     length got = 2 \<and> (\<forall>a \<in> set got. \<forall>b \<in> set rest. fle (mr_timestamp b) (mr_timestamp a)) \<and> mset (got @ rest) = mset (map sample_row [1, 2, 3])"
proof -
  let ?sm = "\<lparr>agent_memory = map sample_row [1, 2, 3], task_history = [], worker_reputation = []\<rparr>"
  have fin: "\<forall>r \<in> set (agent_memory ?sm). is_fin (mr_timestamp r)" by (simp add: sample_row_def is_fin_def)
  have all: "filter (row_matches None (Some ''t'') None) (agent_memory ?sm) = map sample_row [1, 2, 3]"
    by (simp add: row_matches_def matches_def sample_row_def)
  show ?thesis
    using retrieve_newest [OF newest_first_orders _ fin, of 2 None "Some ''t''" None] unfolding all by auto
qed

theorem reputation_bounded_witness:
  "\<exists>r. dget (worker_reputation (fst (report_all [\<lparr>sr_worker = ''w'', sr_score = 1 / 2, sr_ok = True, sr_violation = False\<rparr>] shared_memory_init sample_rt))) ''w'' = Some r \<and>
     reputation_ok 1 1 r"
proof -
  let ?ss = "[\<lparr>sr_worker = ''w'', sr_score = 1 / 2, sr_ok = True, sr_violation = False\<rparr>]"
  obtain r where r: "dget (worker_reputation (fst (report_all ?ss shared_memory_init sample_rt))) ''w'' = Some r"
    by (simp add: update_reputation_def shared_memory_init_def case_prod_beta Let_def)
  have "reputation_ok 1 (int (length ?ss)) r" by (rule reputation_bounded [OF _ _ _ r]) simp_all
  with r show ?thesis by simp
qed

theorem artifacts_survive_witness:
  "artifact_get \<lparr>as_storage_path = ''s''\<rparr> ''j'' ''f'' (put_all (\<lambda>t. None) \<lparr>as_storage_path = ''s''\<rparr> [(''j'', ''f'', ''x''), (''j'', ''g'', ''y''), (''j'', ''f'', ''z'')] []) = Some ''z'' \<and>
   artifact_verify (\<lambda>t. None) \<lparr>as_storage_path = ''s''\<rparr> ''j'' ''f'' (put_all (\<lambda>t. None) \<lparr>as_storage_path = ''s''\<rparr> [(''j'', ''f'', ''x''), (''j'', ''g'', ''y''), (''j'', ''f'', ''z'')] []) = Inr True"
proof -
  let ?xs = "[(''j'', ''f'', ''x''), (''j'', ''g'', ''y''), (''j'', ''f'', ''z'')]"
  have names: "plain_name ''j'' \<and> artifact_name ''f'' \<and> artifact_name ''g''" by (simp add: plain_name_def artifact_name_def)
  moreover have "dget (stored_last ?xs []) (''j'', ''f'') = Some ''z''" by simp
  ultimately show ?thesis
    using artifacts_survive [of ?xs "''j''" "''f''" "\<lparr>as_storage_path = ''s''\<rparr>" "\<lambda>t. None" "[]"] by simp
qed

end
