(* ===== verification/P2p_Content.thy ===== *)
theory P2p_Content
  imports PyNum
begin

text \<open>
  \<open>omnibus-generation-engine/examples/p2p_content_reference.py\<close>: content addresses, Merkle trees over chunks, the store of blocks and the exchange with
  peers. Bytes are numbers below 256.
\<close>

section \<open>Merkle trees\<close>

type_synonym block = "nat list"

definition cid :: "block \<Rightarrow> string" where
  "cid data = hexdigest data"

datatype merkle_node = MerkleNode (mk_hash: string) (mk_left: "merkle_node option") (mk_right: "merkle_node option") (mk_data: "block option")

definition combined :: "merkle_node \<Rightarrow> merkle_node \<Rightarrow> block" where
  "combined l r = encode (mk_hash l @ mk_hash r)"

definition leaf :: "block \<Rightarrow> merkle_node" where
  "leaf c = MerkleNode (cid c) None None (Some c)"

definition branch :: "merkle_node \<Rightarrow> merkle_node \<Rightarrow> merkle_node" where
  "branch l r = MerkleNode (cid (combined l r)) (Some l) (Some r) None"

text \<open>Without a chunk the recursion never reaches a leaf.\<close>

function from_chunks :: "block list \<Rightarrow> merkle_node result" where
  "from_chunks chunks =
     (if chunks = [] then Inl (RuntimeError ''maximum recursion depth exceeded'')
      else if length chunks = 1 then Inr (leaf (hd chunks))
      else let mid = length chunks div 2 in
        rbind (from_chunks (take mid chunks)) (\<lambda>l. rbind (from_chunks (drop mid chunks)) (\<lambda>r. Inr (branch l r))))"
  by pat_completeness auto
termination by (relation "measure length") (auto simp: length_greater_0_conv [symmetric] simp del: length_greater_0_conv)

declare from_chunks.simps [simp del]

text \<open>The check looks at one node: its data, or the hashes of its children.\<close>

definition node_verify :: "merkle_node \<Rightarrow> bool" where
  "node_verify n = (case mk_data n of Some d \<Rightarrow> cid d = mk_hash n
     | None \<Rightarrow> (case (mk_left n, mk_right n) of (Some l, Some r) \<Rightarrow> cid (combined l r) = mk_hash n | _ \<Rightarrow> False))"

section \<open>Blocks and peers\<close>

record content_store =
  cs_blocks :: "block dict"

definition block_put :: "block \<Rightarrow> content_store \<Rightarrow> string \<times> content_store" where
  "block_put data s = (let h = cid data in (h, s\<lparr>cs_blocks := dset h data (cs_blocks s)\<rparr>))"

definition block_get :: "string \<Rightarrow> content_store \<Rightarrow> block option" where
  "block_get h s = dget (cs_blocks s) h"

definition block_has :: "string \<Rightarrow> content_store \<Rightarrow> bool" where
  "block_has h s \<longleftrightarrow> h \<in> set (dkeys (cs_blocks s))"

text \<open>The wanted blocks of each peer, as a list without repetition.\<close>

record peer_manager =
  pm_peers :: "string list dict"

definition peer_connect :: "string \<Rightarrow> peer_manager \<Rightarrow> peer_manager" where
  "peer_connect p pm = (if p \<in> set (dkeys (pm_peers pm)) then pm else pm\<lparr>pm_peers := dset p [] (pm_peers pm)\<rparr>)"

definition peer_want :: "string \<Rightarrow> string \<Rightarrow> peer_manager \<Rightarrow> peer_manager" where
  "peer_want p h pm = pm\<lparr>pm_peers := dset p (List.insert h (dget_default (pm_peers pm) p [])) (pm_peers pm)\<rparr>"

record bitswap_engine =
  bs_store :: content_store
  bs_peers :: peer_manager

definition bitswap_request :: "string \<Rightarrow> string \<Rightarrow> bitswap_engine \<Rightarrow> block option \<times> bitswap_engine" where
  "bitswap_request p h e = (if block_has h (bs_store e) then (block_get h (bs_store e), e) else (None, e\<lparr>bs_peers := peer_want p h (bs_peers e)\<rparr>))"

definition bitswap_serve :: "string \<Rightarrow> string \<Rightarrow> bitswap_engine \<Rightarrow> block option" where
  "bitswap_serve p h e = block_get h (bs_store e)"

definition bitswap_init :: bitswap_engine where
  "bitswap_init = \<lparr>bs_store = \<lparr>cs_blocks = []\<rparr>, bs_peers = \<lparr>pm_peers = []\<rparr>\<rparr>"

section \<open>Properties of the trees\<close>

lemma from_chunks_simps:
  "from_chunks [] = Inl (RuntimeError ''maximum recursion depth exceeded'')" "from_chunks [c] = Inr (leaf c)"
  by (simp_all add: from_chunks.simps [of "[]"] from_chunks.simps [of "[c]"])

lemma from_chunks_split:
  assumes "2 \<le> length cs" and "n = length cs div 2"
  shows "from_chunks cs = rbind (from_chunks (take n cs)) (\<lambda>l. rbind (from_chunks (drop n cs)) (\<lambda>r. Inr (branch l r)))"
proof -
  have "cs \<noteq> []" "length cs \<noteq> 1" using assms by auto
  then show ?thesis unfolding assms(2) by (subst from_chunks.simps) (simp only: if_False Let_def)
qed

text \<open>Induction over non-empty lists of chunks as the tree is built.\<close>

lemma chunks_induct [consumes 1, case_names leaf branch]:
  assumes "cs \<noteq> []" and "\<And>c. P [c]" and "\<And>cs n. 2 \<le> length cs \<Longrightarrow> n = length cs div 2 \<Longrightarrow> P (take n cs) \<Longrightarrow> P (drop n cs) \<Longrightarrow> P cs"
  shows "P cs"
  using assms(1)
proof (induction "length cs" arbitrary: cs rule: less_induct)
  case less
  show ?case
  proof (cases "length cs = 1")
    case True
    then show ?thesis using assms(2) by (cases cs) auto
  next
    case False
    with less.prems have two: "2 \<le> length cs" by (cases cs) (auto simp: Suc_le_eq)
    let ?n = "length cs div 2"
    have "0 < ?n" "?n < length cs" using two by auto
    then have "length (take ?n cs) < length cs" "take ?n cs \<noteq> []" "length (drop ?n cs) < length cs" "drop ?n cs \<noteq> []" using two by auto
    then show ?thesis using less.hyps assms(3) [OF two refl] by blast
  qed
qed

lemma from_chunks_total: "cs \<noteq> [] \<Longrightarrow> \<exists>t. from_chunks cs = Inr t"
  by (induction rule: chunks_induct) (auto simp: from_chunks_simps from_chunks_split)

text \<open>The texts that are hashed while a tree is built.\<close>

function hashed_texts :: "block list \<Rightarrow> block list" where
  "hashed_texts cs = (if length cs < 2 then cs
     else let mid = length cs div 2; l = take mid cs; r = drop mid cs in
       encode (mk_hash (projr (from_chunks l)) @ mk_hash (projr (from_chunks r))) # hashed_texts l @ hashed_texts r)"
  by pat_completeness auto
termination by (relation "measure length") auto

declare hashed_texts.simps [simp del]

lemma hex_char_ascii: "c \<in> set (hexdigest m) \<Longrightarrow> (of_char c :: nat) < 128"
  using subsetD [OF set_hexdigest [of m]] by force

lemma encode_ascii: "\<forall>c \<in> set s. (of_char c :: nat) < 128 \<Longrightarrow> encode s = map of_char s"
  by (induction s) (auto simp: encode_def utf8_char_def Let_def)

text \<open>Two hashes can be read off the text they are joined to.\<close>

lemma combined_inj:
  assumes "encode (hexdigest a @ hexdigest b) = encode (hexdigest a' @ hexdigest b')"
  shows "hexdigest a = hexdigest a' \<and> hexdigest b = hexdigest b'"
proof -
  have "map of_char (hexdigest a @ hexdigest b) = (map of_char (hexdigest a' @ hexdigest b') :: nat list)"
    using assms hex_char_ascii by (subst (asm) (1 2) encode_ascii) auto
  then have "hexdigest a @ hexdigest b = hexdigest a' @ hexdigest b'" by (rule map_injective) (auto intro: injI)
  then show ?thesis by (simp add: append_eq_append_conv)
qed

lemma tree_hash: "from_chunks cs = Inr t \<Longrightarrow> \<exists>x \<in> set (hashed_texts cs). mk_hash t = hexdigest x"
proof (cases "length cs < 2")
  case True
  assume t: "from_chunks cs = Inr t"
  with True obtain c where "cs = [c]" by (cases cs) (auto simp: from_chunks_simps)
  with t show ?thesis by (auto simp: from_chunks_simps hashed_texts.simps [of "[c]"] leaf_def cid_def)
next
  case False
  assume t: "from_chunks cs = Inr t"
  then obtain l r where "from_chunks (take (length cs div 2) cs) = Inr l" "from_chunks (drop (length cs div 2) cs) = Inr r" "t = branch l r"
    using False from_chunks_split [of cs, OF _ refl] by (auto simp: rbind_def split: sum.splits)
  then show ?thesis using False by (subst hashed_texts.simps) (simp add: branch_def combined_def cid_def Let_def)
qed

lemma hashed_texts_split:
  assumes "2 \<le> length cs" "n = length cs div 2" "from_chunks (take n cs) = Inr l" "from_chunks (drop n cs) = Inr r"
  shows "hashed_texts cs = combined l r # hashed_texts (take n cs) @ hashed_texts (drop n cs)"
  using assms by (subst hashed_texts.simps) (simp add: combined_def Let_def)

lemma root_commits:
  assumes "cs \<noteq> []" and "length cs = length ds" and "from_chunks cs = Inr t" and "from_chunks ds = Inr u" and "mk_hash t = mk_hash u"
  shows "cs = ds \<or> (\<exists>x \<in> set (hashed_texts cs). \<exists>y \<in> set (hashed_texts ds). x \<noteq> y \<and> hexdigest x = hexdigest y)"
  using assms
proof (induction arbitrary: ds t u rule: chunks_induct)
  case (leaf c)
  then obtain d where "ds = [d]" by (cases ds) auto
  with leaf show ?case by (auto simp: from_chunks_simps leaf_def cid_def hashed_texts.simps [of "[c]"] hashed_texts.simps [of "[d]"])
next
  case (branch cs n)
  have two: "2 \<le> length ds" "n = length ds div 2" using branch.hyps branch.prems(1) by simp_all
  obtain l r where t: "from_chunks (take n cs) = Inr l" "from_chunks (drop n cs) = Inr r" "t = branch l r"
    using branch.prems(2) from_chunks_split [OF branch.hyps(1,2)] by (auto simp: rbind_def split: sum.splits)
  obtain l' r' where u: "from_chunks (take n ds) = Inr l'" "from_chunks (drop n ds) = Inr r'" "u = branch l' r'"
    using branch.prems(3) from_chunks_split [OF two] by (auto simp: rbind_def split: sum.splits)
  have hcs: "hashed_texts cs = combined l r # hashed_texts (take n cs) @ hashed_texts (drop n cs)" by (rule hashed_texts_split [OF branch.hyps(1,2) t(1,2)])
  have hds: "hashed_texts ds = combined l' r' # hashed_texts (take n ds) @ hashed_texts (drop n ds)" by (rule hashed_texts_split [OF two u(1,2)])
  have root: "hexdigest (combined l r) = hexdigest (combined l' r')" using branch.prems(4) t(3) u(3) by (simp add: branch_def cid_def)
  show ?case
  proof (cases "combined l r = combined l' r'")
    case False
    with root hcs hds show ?thesis by auto
  next
    case True
    from tree_hash [OF t(1)] tree_hash [OF t(2)] tree_hash [OF u(1)] tree_hash [OF u(2)] obtain a b a' b' where
      "mk_hash l = hexdigest a" "mk_hash r = hexdigest b" "mk_hash l' = hexdigest a'" "mk_hash r' = hexdigest b'" by blast
    with True combined_inj [of a b a' b'] have eq: "mk_hash l = mk_hash l'" "mk_hash r = mk_hash r'" by (simp_all add: combined_def)
    have len: "length (take n cs) = length (take n ds)" "length (drop n cs) = length (drop n ds)" using branch.prems(1) by simp_all
    from branch.IH(1) [OF len(1) t(1) u(1) eq(1)] branch.IH(2) [OF len(2) t(2) u(2) eq(2)] hcs hds
    show ?thesis by (metis Un_iff append_take_drop_id list.set_intros(2) set_append)
  qed
qed

section \<open>Properties\<close>

text \<open>
  C40. A Merkle root commits to its chunks: every non-empty list of chunks has a tree, whose root passes the check, and if two lists of the same length have trees with the same root hash, they are
  equal, or two different texts hashed while the trees were built collide under SHA-256.
\<close>

theorem merkle_root_commits:
  assumes "cs \<noteq> []" and "length cs = length ds"
  shows "\<exists>t u. from_chunks cs = Inr t \<and> from_chunks ds = Inr u \<and> node_verify t \<and> node_verify u \<and>
    (mk_hash t = mk_hash u \<longrightarrow> cs = ds \<or> (\<exists>x \<in> set (hashed_texts cs). \<exists>y \<in> set (hashed_texts ds). x \<noteq> y \<and> hexdigest x = hexdigest y))"
proof -
  have verify: "node_verify t" if "from_chunks es = Inr t" for es t
    using that by (subst (asm) from_chunks.simps)
      (auto simp: node_verify_def leaf_def branch_def rbind_def Let_def split: if_splits sum.splits)
  have "ds \<noteq> []" using assms by auto
  with assms(1) from_chunks_total obtain t u where tu: "from_chunks cs = Inr t" "from_chunks ds = Inr u" by blast
  with root_commits [OF assms tu] verify show ?thesis by blast
qed

text \<open>Requests of a run of the exchange.\<close>

inductive bitswap_step :: "bitswap_engine \<Rightarrow> bitswap_engine \<Rightarrow> bool" where
  put: "block_put d (bs_store e) = (h, s) \<Longrightarrow> bitswap_step e (e\<lparr>bs_store := s\<rparr>)"
| request: "bitswap_request p h e = (x, e') \<Longrightarrow> bitswap_step e e'"
| connect: "bitswap_step e (e\<lparr>bs_peers := peer_connect p (bs_peers e)\<rparr>)"

definition store_ok :: "content_store \<Rightarrow> bool" where
  "store_ok s \<longleftrightarrow> (\<forall>h d. dget (cs_blocks s) h = Some d \<longrightarrow> cid d = h)"

lemma bitswap_step_ok: "bitswap_step e e' \<Longrightarrow> store_ok (bs_store e) \<Longrightarrow> store_ok (bs_store e')"
  by (induction rule: bitswap_step.induct) (auto simp: store_ok_def block_put_def bitswap_request_def Let_def split: if_splits)

lemma bitswap_keeps: "bitswap_step e e' \<Longrightarrow> store_ok (bs_store e) \<Longrightarrow> dget (cs_blocks (bs_store e)) h = Some d \<Longrightarrow> \<exists>d'. dget (cs_blocks (bs_store e')) h = Some d' \<and> cid d' = h"
  by (induction rule: bitswap_step.induct) (auto simp: store_ok_def block_put_def bitswap_request_def Let_def split: if_splits)

text \<open>
  What is served has the address that was asked for: after any run of the exchange a request for a block gives data whose hash is its address, exactly if the store has it,
  and otherwise the block joins the wanted ones of that peer and nothing else changes.
\<close>

theorem served_blocks_match:
  assumes "bitswap_step\<^sup>*\<^sup>* bitswap_init e" and "bitswap_request p h e = (x, e')"
  shows "(case x of Some d \<Rightarrow> cid d = h \<and> e' = e \<and> block_has h (bs_store e) \<and> bitswap_serve p h e = Some d
    | None \<Rightarrow> \<not> block_has h (bs_store e) \<and> bs_store e' = bs_store e \<and> h \<in> set (dget_default (pm_peers (bs_peers e')) p []) \<and>
        (\<forall>q. q \<noteq> p \<longrightarrow> dget (pm_peers (bs_peers e')) q = dget (pm_peers (bs_peers e)) q))"
proof -
  have "store_ok (bs_store e)" using assms(1)
    by (induction rule: rtranclp_induct) (auto intro: bitswap_step_ok, simp add: store_ok_def bitswap_init_def)
  moreover have has: "block_has h (bs_store e) \<longleftrightarrow> dget (cs_blocks (bs_store e)) h \<noteq> None"
    unfolding block_has_def dget_None_key by simp
  ultimately show ?thesis
  proof (cases "dget (cs_blocks (bs_store e)) h")
    case None
    then show ?thesis using assms(2) has by (auto simp: bitswap_request_def peer_want_def dget_default_def)
  next
    case (Some d)
    then have "x = Some d" "e' = e" using assms(2) has by (simp_all add: bitswap_request_def block_get_def)
    then show ?thesis using Some has \<open>store_ok (bs_store e)\<close> by (simp add: store_ok_def bitswap_serve_def block_get_def)
  qed
qed

text \<open>The check of a root does not look below its children: a changed leaf is not noticed.\<close>

lemma deep_change_unnoticed:
  assumes "from_chunks [a, b, c, d] = Inr t"
  shows "\<exists>l r. mk_left t = Some l \<and> mk_right t = Some r \<and> node_verify (MerkleNode (mk_hash t) (Some (MerkleNode (mk_hash l) None None (Some x))) (Some r) None)"
  using assms by (auto simp: from_chunks_split [of "[a, b, c, d]" 2] from_chunks_split [of "[a, b]" 1] from_chunks_split [of "[c, d]" 1] from_chunks_simps
    branch_def node_verify_def combined_def)

text \<open>Leaves and branches are hashed alike: two chunks have the root of the one chunk that joins their hashes.\<close>

lemma branch_is_leaf: "from_chunks [a, b] = Inr t \<Longrightarrow> from_chunks [encode (cid a @ cid b)] = Inr u \<Longrightarrow> mk_hash t = mk_hash u"
  by (auto simp: from_chunks_split [of "[a, b]" 1] from_chunks_simps branch_def leaf_def combined_def)

section \<open>Concrete runs\<close>

theorem merkle_root_commits_witness:
  "\<exists>t. from_chunks [[1], [2], [3]] = Inr t \<and> node_verify t"
  using merkle_root_commits [of "[[1], [2], [3]]" "[[1], [2], [3]]"] by auto

theorem served_blocks_match_witness:
  "let e = bitswap_init\<lparr>bs_store := snd (block_put [7] (bs_store bitswap_init))\<rparr> in
   fst (bitswap_request ''p'' (cid [7]) e) = Some [7] \<and> bitswap_serve ''q'' (cid [7]) e = Some [7]"
proof -
  define e where "e = bitswap_init\<lparr>bs_store := snd (block_put [7] (bs_store bitswap_init))\<rparr>"
  have run: "bitswap_step\<^sup>*\<^sup>* bitswap_init e" unfolding e_def by (rule r_into_rtranclp, rule put [of "[7]"]) (simp add: prod_eq_iff)
  have r: "bitswap_request ''p'' (cid [7]) e = (Some [7], e)"
    by (simp add: e_def bitswap_request_def block_has_def block_get_def block_put_def bitswap_init_def Let_def)
  from served_blocks_match [OF run r] r show ?thesis by (simp add: e_def [symmetric] Let_def bitswap_serve_def)
qed

end
