(* ===== verification/Llm_Validator.thy ===== *)
theory Llm_Validator
  imports Sdk_Base PyNum
begin

text \<open>
  \<open>membra_sdk/llm/validator.py\<close>: a language model is asked for a vote on the artifacts of a job; when its answer holds no readable
  vote, deterministic checks decide. The model with its tokenizer is a parameter that gives, for a prompt, the decoded text
  after each generated token; the reader of \<open>json\<close> is a parameter as well. Contents and paths of artifacts are strings. The characters of
  the model stand for those of Python, where a text with a lone surrogate cannot be encoded and raises UnicodeEncodeError, a ValueError: the
  parameter \<open>encodable\<close> says which texts can be. The prompt is encoded by the tokenizer and the reason by the hash, both outside the \<open>try\<close>.
\<close>

section \<open>The prompt\<close>

definition nl :: string where "nl = [CHR 0x0A]"

record llm_artifact =
  la_path :: string
  la_content :: string

definition artifact_section :: "llm_artifact \<Rightarrow> string" where
  "artifact_section a = nl @ ''--- '' @ la_path a @ '' ---'' @ nl @ take 2000 (la_content a) @ nl"

definition quoted :: "string \<Rightarrow> string" where
  "quoted s = [CHR 0x22] @ s @ [CHR 0x22]"

definition validator_rules :: string where
  "validator_rules = nl @ join nl [
     ''Evaluate on:'',
     ''1. STRUCTURE: Does output match expected files?'',
     ''2. SECURITY: Any secrets, eval(), os.system(), unsafe patterns?'',
     ''3. USEFULNESS: Does it solve the stated intent?'',
     ''4. TESTS: Do tests pass? Is coverage adequate?'',
     ''5. POLICY: Does it comply with all policy gates?'',
     [],
     ''Respond ONLY in this JSON format:'',
     ''{'',
     ''  '' @ quoted ''vote'' @ '': 1,'',
     ''  '' @ quoted ''score'' @ '': 87,'',
     ''  '' @ quoted ''reason'' @ '': '' @ quoted ''One-line summary of evaluation'' @ '','',
     ''  '' @ quoted ''checks'' @ '': {'',
     ''    '' @ quoted ''structure'' @ '': true,'',
     ''    '' @ quoted ''security'' @ '': true,'',
     ''    '' @ quoted ''usefulness'' @ '': true,'',
     ''    '' @ quoted ''tests'' @ '': true,'',
     ''    '' @ quoted ''policy'' @ '': true'',
     ''  }'',
     ''}''] @ nl"

text \<open>An empty dictionary of test results or policies counts as none.\<close>

definition build_validator_prompt :: "string \<Rightarrow> llm_artifact list \<Rightarrow> json dict \<Rightarrow> json dict \<Rightarrow> string" where
  "build_validator_prompt job_intent artifacts tests policy =
     ''You are a MEMBRA validator. Evaluate the following job output.'' @ nl @ nl @ ''JOB INTENT:'' @ nl @ job_intent @ nl @ nl @ ''ARTIFACTS:'' @ nl
     @ concat (map artifact_section artifacts)
     @ (if tests = [] then [] else nl @ ''TESTS: '' @ json_text (dget_default tests ''passed'' (JInt 0)) @ ''/'' @ json_text (dget_default tests ''total'' (JInt 0)) @ '' passed'' @ nl)
     @ (if policy = [] then [] else nl @ ''POLICY: '' @ dumps True False (JObj policy) @ nl)
     @ validator_rules"

section \<open>The answer\<close>

record llm_vote =
  lv_vote :: int
  lv_score :: int
  lv_reason :: string
  lv_checks :: json
  lv_reason_hash :: string

text \<open>The decoded texts are read until one ends in a closing brace; with no token at all the text is empty.\<close>

fun read_response :: "string \<Rightarrow> string list \<Rightarrow> string" where
  "read_response sofar [] = sofar"
| "read_response sofar (t # ts) = (let s = strip t in if s \<noteq> [] \<and> last s = CHR ''}'' then t else read_response t ts)"

text \<open>From the first opening brace to the last closing one.\<close>

definition json_block :: "string \<Rightarrow> string option" where
  "json_block src = (if CHR ''{'' \<in> set src \<and> CHR ''}'' \<in> set src then
       Some (let start = length (takeWhile (\<lambda>c. c \<noteq> CHR ''{'') src); stop = length src - length (takeWhile (\<lambda>c. c \<noteq> CHR ''}'') (rev src))
         in drop start (take stop src))
     else None)"

text \<open>\<open>int(x)\<close>: a text that is no number raises ValueError, an infinite float OverflowError.\<close>

fun int_of :: "json \<Rightarrow> int result" where
  "int_of (JInt n) = Inr n"
| "int_of (JBool b) = Inr (if b then 1 else 0)"
| "int_of (JFloat x) = ftrunc x"
| "int_of (JStr s) = (case py_int s of None \<Rightarrow> Inl (ValueError s) | Some n \<Rightarrow> Inr n)"
| "int_of _ = Inl TypeError"

text \<open>
  \<open>_parse_vote\<close>: reading errors, ValueError and TypeError give no vote; what is read from a text in braces is an object, and other values
  would raise AttributeError. Other exceptions are not caught.
\<close>

definition vote_of :: "json dict \<Rightarrow> llm_vote result" where
  "vote_of d = rbind (num_le (JInt 1) (dget_default d ''vote'' (JInt 0))) (\<lambda>yes. rbind (int_of (dget_default d ''score'' (JInt 50))) (\<lambda>score.
     Inr \<lparr>lv_vote = (if yes then 1 else 0), lv_score = max 0 (min 100 score), lv_reason = json_text (dget_default d ''reason'' (JStr ''No reason provided'')),
       lv_checks = dget_default d ''checks'' (JObj []), lv_reason_hash = []\<rparr>))"

definition is_caught :: "py_error \<Rightarrow> bool" where
  "is_caught e = (case e of ValueError s \<Rightarrow> True | TypeError \<Rightarrow> True | _ \<Rightarrow> False)"

definition parse_vote :: "(string \<Rightarrow> json option) \<Rightarrow> string \<Rightarrow> llm_vote option result" where
  "parse_vote loads src = (case json_block src \<bind> loads of None \<Rightarrow> Inr None
     | Some (JObj d) \<Rightarrow> (case vote_of d of Inr v \<Rightarrow> Inr (Some v) | Inl e \<Rightarrow> if is_caught e then Inr None else Inl e)
     | Some _ \<Rightarrow> Inl AttributeError)"

section \<open>Deterministic checks\<close>

definition bad_patterns :: "string list" where
  "bad_patterns = [''eval('', ''os.system('', ''subprocess.call'', ''__import__'', ''exec('']"

record vote_checks =
  vc_structure :: bool
  vc_security :: bool
  vc_usefulness :: bool
  vc_tests :: bool
  vc_policy :: bool

text \<open>\<open>a <= b\<close> of two numbers or two texts; lists are not compared here.\<close>

definition count_le :: "json \<Rightarrow> json \<Rightarrow> bool result" where
  "count_le a b = (case (a, b) of (JStr s, JStr t) \<Rightarrow> Inr (s \<le> t) | _ \<Rightarrow> num_le a b)"

definition run_checks :: "string \<Rightarrow> llm_artifact list \<Rightarrow> json dict \<Rightarrow> json dict \<Rightarrow> vote_checks result" where
  "run_checks job_intent artifacts tests policy =
     rbind (if tests = [] then Inr True else count_le (dget_default tests ''total'' (JInt 1)) (dget_default tests ''passed'' (JInt 0))) (\<lambda>tests_ok.
     Inr \<lparr>vc_structure = (artifacts \<noteq> []),
       vc_security = list_all (\<lambda>a. \<not> list_ex (\<lambda>p. str_in p (la_content a)) bad_patterns) artifacts,
       vc_usefulness = (job_intent \<noteq> []),
       vc_tests = tests_ok,
       vc_policy = (dget policy ''secrets'' = Some (JStr ''blocked'') \<longrightarrow> list_all (\<lambda>a. \<not> str_in ''API_KEY'' (la_content a) \<and> \<not> str_in ''SECRET'' (la_content a)) artifacts)\<rparr>)"

definition check_list :: "vote_checks \<Rightarrow> (bool \<times> string \<times> string) list" where
  "check_list c = [(vc_structure c, ''structure'', ''missing artifacts''), (vc_security c, ''security'', ''security flags''),
     (vc_usefulness c, ''usefulness'', ''unclear intent''), (vc_tests c, ''tests'', ''tests failed''), (vc_policy c, ''policy'', ''policy violation'')]"

definition deterministic_vote :: "string \<Rightarrow> llm_artifact list \<Rightarrow> json dict \<Rightarrow> json dict \<Rightarrow> llm_vote result" where
  "deterministic_vote job_intent artifacts tests policy = rbind (run_checks job_intent artifacts tests policy) (\<lambda>c.
     let score = int (length (filter fst (check_list c))) * 20; reasons = map (\<lambda>(ok, k, r). r) (filter (\<lambda>(ok, k, r). \<not> ok) (check_list c))
     in Inr \<lparr>lv_vote = (if 60 \<le> score then 1 else 0), lv_score = score,
          lv_reason = (if reasons = [] then ''all checks passed'' else join ''; '' reasons),
          lv_checks = JObj (map (\<lambda>(ok, k, r). (k, JBool ok)) (check_list c)), lv_reason_hash = []\<rparr>)"

section \<open>Evaluation\<close>

definition llm_answer :: "(string \<Rightarrow> string list) \<Rightarrow> string \<Rightarrow> llm_artifact list \<Rightarrow> json dict \<Rightarrow> json dict \<Rightarrow> string" where
  "llm_answer generate job_intent artifacts tests policy = read_response [] (generate (build_validator_prompt job_intent artifacts tests policy))"

definition hash_reason :: "(string \<Rightarrow> bool) \<Rightarrow> string \<Rightarrow> string result" where
  "hash_reason encodable reason = (if encodable reason then Inr (sha256_hex reason) else Inl (ValueError []))"

definition llm_evaluate ::
  "(string \<Rightarrow> bool) \<Rightarrow> (string \<Rightarrow> string list) \<Rightarrow> (string \<Rightarrow> json option) \<Rightarrow> string \<Rightarrow> llm_artifact list \<Rightarrow> json dict \<Rightarrow> json dict \<Rightarrow> llm_vote result" where
  "llm_evaluate encodable generate loads job_intent artifacts tests policy =
     (if \<not> encodable (build_validator_prompt job_intent artifacts tests policy) then Inl (ValueError [])
      else rbind (parse_vote loads (llm_answer generate job_intent artifacts tests policy)) (\<lambda>v.
        rbind (case v of Some v \<Rightarrow> Inr v | None \<Rightarrow> deterministic_vote job_intent artifacts tests policy) (\<lambda>v.
        rbind (hash_reason encodable (lv_reason v)) (\<lambda>h. Inr (v\<lparr>lv_reason_hash := h\<rparr>)))))"

text \<open>The readable files of a directory, as the artifacts of a job.\<close>

definition evaluate_directory ::
  "(string \<Rightarrow> bool) \<Rightarrow> (string \<Rightarrow> string list) \<Rightarrow> (string \<Rightarrow> json option) \<Rightarrow> string \<Rightarrow> (string \<times> string option) list \<Rightarrow> llm_vote result" where
  "evaluate_directory encodable generate loads job_intent walk = llm_evaluate encodable generate loads job_intent
     (List.map_filter (\<lambda>(path, content). map_option (\<lambda>c. \<lparr>la_path = path, la_content = c\<rparr>) content) walk) [] []"

section \<open>Properties\<close>

text \<open>A vote as the chain program takes it.\<close>

definition vote_ok :: "llm_vote \<Rightarrow> bool" where
  "vote_ok v \<longleftrightarrow> lv_vote v \<in> {0, 1} \<and> 0 \<le> lv_score v \<and> lv_score v \<le> 100"

lemma vote_of_ok: "vote_of d = Inr v \<Longrightarrow> vote_ok v"
  by (auto simp: vote_of_def rbind_def vote_ok_def split: sum.splits)

lemma deterministic_ok: "deterministic_vote i as ts p = Inr v \<Longrightarrow> vote_ok v"
proof -
  have "length (filter fst (check_list c)) \<le> 5" for c
    using length_filter_le [of fst "check_list c"] by (simp add: check_list_def)
  then show "deterministic_vote i as ts p = Inr v \<Longrightarrow> vote_ok v"
    by (auto simp: deterministic_vote_def rbind_def vote_ok_def Let_def of_nat_le_iff split: sum.splits)
qed

lemma block_brace: "json_block src = Some t \<Longrightarrow> t = [] \<or> (\<exists>u. t = CHR ''{'' # u)"
proof -
  assume t: "json_block src = Some t"
  define n where "n = length (takeWhile (\<lambda>c. c \<noteq> CHR ''{'') src)"
  define k where "k = length src - length (takeWhile (\<lambda>c. c \<noteq> CHR ''}'') (rev src))"
  from t have b: "CHR ''{'' \<in> set src" "t = drop n (take k src)" by (auto simp: json_block_def n_def k_def Let_def split: if_splits)
  have "n < length src" using b(1) unfolding n_def by (induction src) auto
  then have "src ! n = CHR ''{''" using nth_length_takeWhile [of "\<lambda>c. c \<noteq> CHR ''{''" src] by (simp add: n_def)
  then show ?thesis using \<open>n < length src\<close> b(2) by (cases "n < k") (auto simp: Cons_nth_drop_Suc [symmetric])
qed

lemma vote_of_error: "vote_of d = Inl e \<Longrightarrow> \<not> is_caught e \<Longrightarrow> e = OverflowError \<and> dget_default d ''score'' (JInt 50) \<in> {JFloat PInf, JFloat NInf}"
  by (cases "dget_default d ''score'' (JInt 50)"; cases "dget_default d ''vote'' (JInt 0)")
    (auto simp: vote_of_def rbind_def num_le_def is_caught_def split: sum.splits option.splits elim!: ftrunc.elims)

definition passed_checks :: "vote_checks \<Rightarrow> nat" where
  "passed_checks c = length (filter fst (check_list c))"

text \<open>The reasons of the checks are plain ASCII.\<close>

definition plain_text :: "string \<Rightarrow> bool" where
  "plain_text s \<longleftrightarrow> list_all (\<lambda>c. \<not> digit7 c) s"

lemma plain_text_join: "plain_text sep \<Longrightarrow> list_all plain_text xs \<Longrightarrow> plain_text (join sep xs)"
  by (cases xs) (auto simp: plain_text_def join_def list_all_iff)

lemma deterministic_reason_plain: "deterministic_vote i as ts p = Inr v \<Longrightarrow> plain_text (lv_reason v)"
proof -
  have "plain_text (if reasons = [] then ''all checks passed'' else join ''; '' reasons)"
    if "reasons = map (\<lambda>(ok, k, r). r) (filter (\<lambda>(ok, k, r). \<not> ok) (check_list c))" for reasons c
  proof -
    have "list_all plain_text reasons" by (auto simp: that check_list_def plain_text_def)
    then show ?thesis using plain_text_join [of "''; ''" reasons] by (simp add: plain_text_def)
  qed
  then show "deterministic_vote i as ts p = Inr v \<Longrightarrow> plain_text (lv_reason v)"
    by (auto simp: deterministic_vote_def rbind_def Let_def split: sum.splits)
qed

text \<open>
  C34. The engine votes unless a text cannot be encoded or a score is infinite. Let every ASCII text be encodable, the json reader give objects for texts
  in braces, and the test results, if any, count in integers. Whatever the model generates, evaluation either gives a vote 0 or 1 with a score
  between 0 and 100 and the hash of its reason, or it raises: UnicodeEncodeError exactly when the prompt or the reason that was read has a
  lone surrogate, and OverflowError only when the score that was read is infinite. When the answer holds no readable vote, the checks
  decide, and the job is accepted exactly when at least three of the five pass.
\<close>

theorem validator_always_votes:
  assumes "loads [] = None" and "\<forall>t j. loads (CHR ''{'' # t) = Some j \<longrightarrow> (\<exists>d. j = JObj d)" and "\<forall>t. plain_text t \<longrightarrow> encodable t"
    and "tests = [] \<or> (\<exists>m n. dget_default tests ''total'' (JInt 1) = JInt m \<and> dget_default tests ''passed'' (JInt 0) = JInt n)"
  shows "let answer = llm_answer generate job_intent artifacts tests policy; prompt_ok = encodable (build_validator_prompt job_intent artifacts tests policy) in
    case llm_evaluate encodable generate loads job_intent artifacts tests policy of
      Inr v \<Rightarrow> prompt_ok \<and> encodable (lv_reason v) \<and> vote_ok v \<and> lv_reason_hash v = sha256_hex (lv_reason v) \<and>
        (parse_vote loads answer = Inr None \<longrightarrow> (\<exists>c. run_checks job_intent artifacts tests policy = Inr c \<and> (lv_vote v = 1 \<longleftrightarrow> 3 \<le> passed_checks c)))
    | Inl e \<Rightarrow> (e = ValueError [] \<and> (\<not> prompt_ok \<or> (\<exists>v. parse_vote loads answer = Inr (Some v) \<and> \<not> encodable (lv_reason v)))) \<or>
        (e = OverflowError \<and> (\<exists>t d. json_block answer = Some t \<and> loads t = Some (JObj d) \<and> dget_default d ''score'' (JInt 50) \<in> {JFloat PInf, JFloat NInf}))"
proof -
  define answer where "answer = llm_answer generate job_intent artifacts tests policy"
  have "\<exists>b. (if tests = [] then Inr True else count_le (dget_default tests ''total'' (JInt 1)) (dget_default tests ''passed'' (JInt 0))) = Inr b"
    using assms(4) by (auto simp: count_le_def num_le_def rbind_def)
  then obtain c where c: "run_checks job_intent artifacts tests policy = Inr c" by (auto simp: run_checks_def rbind_def)
  obtain v where v: "deterministic_vote job_intent artifacts tests policy = Inr v" "lv_vote v = 1 \<longleftrightarrow> 3 \<le> passed_checks c"
    using c by (auto simp: deterministic_vote_def rbind_def passed_checks_def Let_def)
  have ok: "vote_ok v" "encodable (lv_reason v)" using deterministic_ok [OF v(1)] deterministic_reason_plain [OF v(1)] assms(3) by auto
  show ?thesis
  proof (cases "parse_vote loads answer")
    case (Inr r)
    show ?thesis
    proof (cases r)
      case None
      with Inr v c ok show ?thesis
        by (simp add: llm_evaluate_def rbind_def hash_reason_def answer_def [symmetric] vote_ok_def)
    next
      case (Some w)
      with Inr have "\<exists>d. vote_of d = Inr w" by (auto simp: parse_vote_def split: option.splits json.splits sum.splits if_splits)
      then have "vote_ok w" using vote_of_ok by blast
      with Inr Some show ?thesis by (simp add: llm_evaluate_def rbind_def hash_reason_def answer_def [symmetric] vote_ok_def)
    qed
  next
    case (Inl e)
    then obtain t j where t: "json_block answer = Some t" "loads t = Some j" by (auto simp: parse_vote_def split: option.splits bind_splits)
    with block_brace [OF t(1)] assms(1,2) obtain d where j: "j = JObj d" by auto
    with Inl t have "vote_of d = Inl e \<and> \<not> is_caught e" by (auto simp: parse_vote_def split: sum.splits if_splits)
    with vote_of_error [of d e] t j Inl show ?thesis by (simp add: llm_evaluate_def rbind_def answer_def [symmetric])
  qed
qed

text \<open>An answer whose reason cannot be encoded raises, where other unreadable answers fall back to the checks.\<close>

lemma unencodable_reason_raises:
  assumes "encodable (build_validator_prompt job_intent artifacts tests policy)"
    and "parse_vote loads (llm_answer generate job_intent artifacts tests policy) = Inr (Some v)" and "\<not> encodable (lv_reason v)"
  shows "llm_evaluate encodable generate loads job_intent artifacts tests policy = Inl (ValueError [])"
  using assms by (simp add: llm_evaluate_def hash_reason_def rbind_def)

text \<open>A job whose only fault is dangerous code is accepted with 80 points.\<close>

lemma unsafe_code_is_accepted:
  assumes "job_intent \<noteq> []"
  shows "\<exists>v. deterministic_vote job_intent [\<lparr>la_path = p, la_content = ''eval(x)''\<rparr>] [] [] = Inr v \<and> lv_vote v = 1 \<and> lv_score v = 80"
  using assms by (simp add: deterministic_vote_def run_checks_def rbind_def check_list_def bad_patterns_def Let_def)

section \<open>A concrete run\<close>

theorem validator_always_votes_witness:
  "\<exists>v. llm_evaluate plain_text (\<lambda>p. [''no'', ''no idea'']) (\<lambda>t. None) ''job'' [] [] [] = Inr v \<and> vote_ok v \<and> lv_reason_hash v = sha256_hex (lv_reason v) \<and> lv_vote v = 1"
proof -
  have none: "parse_vote (\<lambda>t. None) a = Inr None" for a by (simp add: parse_vote_def)
  have plain: "plain_text (build_validator_prompt ''job'' [] [] [])" by code_simp
  have checks: "run_checks ''job'' [] [] [] = Inr \<lparr>vc_structure = False, vc_security = True, vc_usefulness = True, vc_tests = True, vc_policy = True\<rparr>"
    by (simp add: run_checks_def rbind_def)
  from validator_always_votes [of "\<lambda>t. None" plain_text "[]" "\<lambda>p. [''no'', ''no idea'']" "''job''" "[]" "[]"] none plain checks
  show ?thesis
    by (cases "llm_evaluate plain_text (\<lambda>p. [''no'', ''no idea'']) (\<lambda>t. None) ''job'' [] [] []") (simp_all add: passed_checks_def check_list_def)
qed

end
