(* ===== verification/Solana_Bridge.thy ===== *)
theory Solana_Bridge
  imports Llm_Validator
begin

text \<open>
  \<open>membra_sdk/llm/solana_bridge.py\<close>: the votes of the validator engine as commands for the client of the chain program. Running a command, and the client and
  the wallet of \<open>solana-py\<close>, are parameters.
\<close>

section \<open>The bridge\<close>

record solana_bridge =
  sb_cluster :: string
  sb_program_id :: string
  sb_wallet_path :: string
  sb_has_solana_py :: bool

definition or_else_default :: "string option \<Rightarrow> string \<Rightarrow> string" where
  "or_else_default x d = (case x of Some (c # s) \<Rightarrow> c # s | _ \<Rightarrow> d)"

definition solana_bridge_init :: "string \<Rightarrow> string \<Rightarrow> string option \<Rightarrow> string option \<Rightarrow> bool \<Rightarrow> solana_bridge" where
  "solana_bridge_init home cluster program_id wallet_path installed =
     \<lparr>sb_cluster = cluster, sb_program_id = or_else_default program_id ''jApWwbd5HUBdw5vxF9pXZQQhgTLPrK1zYcJdSaw49h9'',
      sb_wallet_path = or_else_default wallet_path (home @ ''/.config/solana/id.json''), sb_has_solana_py = installed\<rparr>"

definition rpc_url :: "solana_bridge \<Rightarrow> string" where
  "rpc_url b = (if sb_cluster b = ''devnet'' then ''https://api.devnet.solana.com''
     else if sb_cluster b = ''mainnet'' then ''https://api.mainnet-beta.solana.com'' else ''http://127.0.0.1:8899'')"

datatype command_outcome = Cmd_exited int string | Cmd_not_found | Cmd_timed_out

definition vote_command :: "solana_bridge \<Rightarrow> string \<Rightarrow> string \<Rightarrow> json \<Rightarrow> json \<Rightarrow> json \<Rightarrow> json list" where
  "vote_command b job_pda validator_pda vote score reason_hash = map JStr [''npx'', ''tsx'', ''scripts/submit_vote.ts'', ''--job'', job_pda,
     ''--validator'', validator_pda, ''--vote'', json_text vote, ''--score'', json_text score, ''--reason-hash''] @ [reason_hash, JStr ''--cluster'', JStr (sb_cluster b)]"

definition submit_vote_ts :: "(json list \<Rightarrow> command_outcome) \<Rightarrow> solana_bridge \<Rightarrow> string \<Rightarrow> string \<Rightarrow> json \<Rightarrow> json \<Rightarrow> json \<Rightarrow> string option" where
  "submit_vote_ts run b job_pda validator_pda vote score reason_hash =
     (case run (vote_command b job_pda validator_pda vote score reason_hash) of
        Cmd_exited rc out \<Rightarrow> if rc = 0 then Some (strip out) else None | Cmd_not_found \<Rightarrow> None | Cmd_timed_out \<Rightarrow> None)"

text \<open>The Python variant only announces that it falls back.\<close>

definition submit_vote_python :: "(json list \<Rightarrow> command_outcome) \<Rightarrow> solana_bridge \<Rightarrow> string \<Rightarrow> string \<Rightarrow> json \<Rightarrow> json \<Rightarrow> json \<Rightarrow> string option" where
  "submit_vote_python = submit_vote_ts"

definition submit_vote :: "(json list \<Rightarrow> command_outcome) \<Rightarrow> solana_bridge \<Rightarrow> string \<Rightarrow> string \<Rightarrow> json \<Rightarrow> json \<Rightarrow> json \<Rightarrow> string option" where
  "submit_vote run b = (if sb_has_solana_py b then submit_vote_python run b else submit_vote_ts run b)"

definition submit_full_evaluation :: "(json list \<Rightarrow> command_outcome) \<Rightarrow> solana_bridge \<Rightarrow> string \<Rightarrow> string \<Rightarrow> json dict \<Rightarrow> string option" where
  "submit_full_evaluation run b job_pda validator_pda evaluation = submit_vote run b job_pda validator_pda
     (dget_default evaluation ''vote'' (JInt 0)) (dget_default evaluation ''score'' (JInt 0)) (dget_default evaluation ''reason_hash'' (JStr []))"

text \<open>An account as the client returns it; an exception is printed and gives nothing.\<close>

record account_info =
  ai_lamports :: int
  ai_owner :: string
  ai_data :: "nat list"

definition get_chain_job_status :: "(string \<Rightarrow> string \<Rightarrow> account_info option result) \<Rightarrow> solana_bridge \<Rightarrow> string \<Rightarrow> json dict option" where
  "get_chain_job_status account b job_pda = (if \<not> sb_has_solana_py b then None
     else case account (rpc_url b) job_pda of Inl e \<Rightarrow> None | Inr None \<Rightarrow> None
       | Inr (Some a) \<Rightarrow> Some [(''pubkey'', JStr job_pda), (''lamports'', JInt (ai_lamports a)), (''owner'', JStr (ai_owner a)), (''data_len'', JInt (int (length (ai_data a))))])"

definition check_wallet_balance :: "(string \<Rightarrow> string \<Rightarrow> int result) \<Rightarrow> solana_bridge \<Rightarrow> pyfloat option" where
  "check_wallet_balance balance b = (if \<not> sb_has_solana_py b then None
     else case balance (rpc_url b) (sb_wallet_path b) of Inl e \<Rightarrow> None
       | Inr n \<Rightarrow> if n = 0 then Some (Fin 0)
           else (case rbind (of_pyint n) (\<lambda>x. fdiv x (Fin 1000000000)) of Inl e \<Rightarrow> None | Inr x \<Rightarrow> Some x))"

section \<open>From the validator to the chain\<close>

definition evaluation_dict :: "llm_vote \<Rightarrow> json dict" where
  "evaluation_dict v = [(''vote'', JInt (lv_vote v)), (''score'', JInt (lv_score v)), (''reason'', JStr (lv_reason v)), (''checks'', lv_checks v),
     (''reason_hash'', JStr (lv_reason_hash v))]"

lemma evaluated_vote_ok: "llm_evaluate encodable generate loads job_intent artifacts tests policy = Inr v \<Longrightarrow> vote_ok v \<and> lv_reason_hash v = sha256_hex (lv_reason v)"
proof -
  assume e: "llm_evaluate encodable generate loads job_intent artifacts tests policy = Inr v"
  then obtain r w where r: "parse_vote loads (llm_answer generate job_intent artifacts tests policy) = Inr r"
    "(case r of Some v \<Rightarrow> Inr v | None \<Rightarrow> deterministic_vote job_intent artifacts tests policy) = Inr w" "v = w\<lparr>lv_reason_hash := sha256_hex (lv_reason w)\<rparr>"
    by (auto simp: llm_evaluate_def hash_reason_def rbind_def split: sum.splits if_splits)
  have "vote_ok w"
  proof (cases r)
    case None
    with r(2) show ?thesis by (auto intro: deterministic_ok)
  next
    case (Some u)
    with r(1) have "\<exists>d. vote_of d = Inr u" by (auto simp: parse_vote_def split: option.splits json.splits sum.splits if_splits)
    with Some r(2) show ?thesis by (auto dest: vote_of_ok)
  qed
  with r(3) show ?thesis by (simp add: vote_ok_def)
qed

text \<open>
  What the engine decides is what reaches the chain: a submission gives a transaction exactly when the client of the program exits with 0 on the command that
  carries this vote, a score between 0 and 100 and the hash of the reason, with or without \<open>solana-py\<close>.
\<close>

theorem evaluation_reaches_chain:
  assumes "llm_evaluate encodable generate loads job_intent artifacts tests policy = Inr v"
  shows "lv_vote v \<in> {0, 1} \<and> 0 \<le> lv_score v \<and> lv_score v \<le> 100 \<and>
    (submit_full_evaluation run b job_pda validator_pda (evaluation_dict v) = Some tx \<longleftrightarrow>
      (\<exists>out. run (map JStr [''npx'', ''tsx'', ''scripts/submit_vote.ts'', ''--job'', job_pda, ''--validator'', validator_pda, ''--vote'', dec_int (lv_vote v),
         ''--score'', dec_int (lv_score v), ''--reason-hash'', sha256_hex (lv_reason v), ''--cluster'', sb_cluster b]) = Cmd_exited 0 out \<and> tx = strip out))"
proof -
  from evaluated_vote_ok [OF assms] have "vote_ok v" and h: "lv_reason_hash v = sha256_hex (lv_reason v)" by simp_all
  moreover have "submit_vote run b = submit_vote_ts run b" by (simp add: submit_vote_def submit_vote_python_def)
  ultimately show ?thesis
    by (auto simp: vote_ok_def submit_full_evaluation_def submit_vote_ts_def vote_command_def evaluation_dict_def dget_default_def split: command_outcome.splits)
qed

theorem evaluation_reaches_chain_witness:
  "\<exists>v. llm_evaluate (\<lambda>t. True) (\<lambda>p. []) (\<lambda>t. None) ''job'' [] [] [] = Inr v \<and>
     submit_full_evaluation (\<lambda>c. Cmd_exited 0 '' tx '') (solana_bridge_init ''h'' ''devnet'' None None False) ''j'' ''v'' (evaluation_dict v) = Some ''tx''"
proof -
  obtain v where v: "llm_evaluate (\<lambda>t. True) (\<lambda>p. []) (\<lambda>t. None) ''job'' [] [] [] = Inr v"
    by (simp add: llm_evaluate_def hash_reason_def parse_vote_def deterministic_vote_def run_checks_def rbind_def Let_def)
  have s: "strip '' tx '' = ''tx''" by (simp add: strip_def is_space_def)
  from evaluation_reaches_chain [OF v, of "\<lambda>c. Cmd_exited 0 '' tx ''" "solana_bridge_init ''h'' ''devnet'' None None False" "''j''" "''v''" "''tx''"] v s show ?thesis by auto
qed

end
