(* ===== verification/Token_Gate.thy ===== *)
theory Token_Gate
  imports Sdk_Base
begin

text \<open>
  \<open>membra_sdk/token_gate.py\<close>: the gate in front of token creation, liquidity and treasury staking. Arrows in the
  names of the phases are written as their UTF-8 bytes.
\<close>

section \<open>State\<close>

record launch_state =
  agent_online :: bool
  dashboard_online :: bool
  corpus_indexed :: bool
  proof_manifest_published :: bool
  wallet_connected :: bool
  human_or_multisig_approval :: bool
  treasury_sol :: pyfloat
  treasury_usdc :: pyfloat
  no_private_keys_stored :: bool
  mainnet_policy_enabled :: bool
  treasury_staking_policy_enabled :: bool
  staking_allocation_bps :: int

definition default_launch_state :: launch_state where
  "default_launch_state = \<lparr>agent_online = False, dashboard_online = False, corpus_indexed = False,
     proof_manifest_published = False, wallet_connected = False, human_or_multisig_approval = False,
     treasury_sol = Fin 0, treasury_usdc = Fin 0, no_private_keys_stored = True, mainnet_policy_enabled = False,
     treasury_staking_policy_enabled = False, staking_allocation_bps = 0\<rparr>"

text \<open>Creating a state runs \<open>__post_init__\<close>.\<close>

definition launch_post_init :: "launch_state \<Rightarrow> launch_state result" where
  "launch_post_init s = (if staking_allocation_bps s < 0 \<or> staking_allocation_bps s > 10000
     then Inl (ValueError ''staking_allocation_bps must be 0-10000'') else Inr s)"

section \<open>Gates\<close>

definition can_begin_token_and_liquidity :: "launch_state \<Rightarrow> bool" where
  "can_begin_token_and_liquidity s = list_all id [
     agent_online s, dashboard_online s, corpus_indexed s, proof_manifest_published s, wallet_connected s,
     human_or_multisig_approval s, fle (Fin (1 / 4)) (treasury_sol s), fle (Fin 500) (treasury_usdc s),
     no_private_keys_stored s, mainnet_policy_enabled s]"

definition can_stake_treasury_sol :: "launch_state \<Rightarrow> bool" where
  "can_stake_treasury_sol s = list_all id [
     treasury_staking_policy_enabled s, fle (Fin 1) (treasury_sol s), staking_allocation_bps s \<le> 5000,
     human_or_multisig_approval s]"

definition get_missing_conditions :: "launch_state \<Rightarrow> string list" where
  "get_missing_conditions s =
     (if agent_online s then [] else [''Agent is not online''])
     @ (if dashboard_online s then [] else [''Dashboard is not online''])
     @ (if corpus_indexed s then [] else [''Corpus is not indexed''])
     @ (if proof_manifest_published s then [] else [''Proof manifest is not published''])
     @ (if wallet_connected s then [] else [''Wallet is not connected''])
     @ (if human_or_multisig_approval s then [] else [''Human or multisig approval not granted''])
     @ (if flt (treasury_sol s) (Fin (1 / 4)) then [''Treasury SOL too low: '' @ frepr (treasury_sol s) @ '' < 0.25''] else [])
     @ (if flt (treasury_usdc s) (Fin 500) then [''Treasury USDC too low: '' @ frepr (treasury_usdc s) @ '' < 500''] else [])
     @ (if no_private_keys_stored s then [] else [''Private keys are stored (security violation)''])
     @ (if mainnet_policy_enabled s then [] else [''Mainnet policy is not enabled''])"

definition arrow :: string where "arrow = '' '' @ [CHR 0xE2, CHR 0x86, CHR 0x92] @ '' ''"

definition determine_phase :: "launch_state \<Rightarrow> string" where
  "determine_phase s =
     (if \<not> agent_online s then ''AGENT_READY''
      else if \<not> corpus_indexed s then ''AGENT_READY'' @ arrow @ ''CORPUS_INDEXED''
      else if \<not> proof_manifest_published s then ''CORPUS_INDEXED'' @ arrow @ ''PROOF_MANIFEST_PUBLISHED''
      else if \<not> wallet_connected s then ''PROOF_MANIFEST_PUBLISHED'' @ arrow @ ''WALLET_CONNECTED''
      else if flt (treasury_sol s) (Fin (1 / 4)) \<or> flt (treasury_usdc s) (Fin 500) then ''WALLET_CONNECTED'' @ arrow @ ''TREASURY_FUNDED''
      else if \<not> mainnet_policy_enabled s then ''TREASURY_FUNDED'' @ arrow @ ''MAINNET_POLICY_ENABLED''
      else if \<not> human_or_multisig_approval s then ''MAINNET_MINT_PREPARED'' @ arrow @ ''HUMAN_OR_MULTISIG_APPROVED''
      else ''READY_FOR_TOKEN_CREATION'')"

record state_summary =
  sm_ready :: bool
  sm_missing :: "string list"
  sm_treasury_sol :: pyfloat
  sm_treasury_usdc :: pyfloat
  sm_phase :: string

definition get_state_summary :: "launch_state \<Rightarrow> state_summary" where
  "get_state_summary s = (let ready = can_begin_token_and_liquidity s in
     \<lparr>sm_ready = ready, sm_missing = (if ready then [] else get_missing_conditions s), sm_treasury_sol = treasury_sol s,
      sm_treasury_usdc = treasury_usdc s, sm_phase = determine_phase s\<rparr>)"

section \<open>Claims and parameters\<close>

definition INVALID_CLAIMS :: "bool dict" where
  "INVALID_CLAIMS = map (\<lambda>k. (k, False)) [''files_are_liquidity'', ''appraisal_is_cash'', ''token_mint_is_profit'',
     ''testnet_is_settlement'', ''staking_rewards_guaranteed'', ''lp_tokens_risk_free'', ''agent_can_auto_mint'',
     ''agent_can_auto_create_pools'', ''running_agent_creates_money'']"

definition assert_valid_claim :: "string \<Rightarrow> unit result" where
  "assert_valid_claim claim = (if dget INVALID_CLAIMS claim = Some False
     then Inl (ValueError (''INVALID CLAIM: '' @ [CHR 0x27] @ claim @ [CHR 0x27]
       @ '' is documented as false. See docs/TOKEN_AND_LIQUIDITY_RUNBOOK.md''))
     else Inr ())"

definition LIQUIDITY_PARAMS :: "json dict" where
  "LIQUIDITY_PARAMS = [(''pair'', JStr ''MEMBRA/USDC''), (''venue'', JStr ''Raydium''), (''minimum_first_lp_usdc'', JInt 500),
     (''treasury_sol_reserve_min'', JFloat (Fin (1 / 4))), (''treasury_sol_reserve_max'', JFloat (Fin 1))]"

definition STAKING_PARAMS :: "json dict" where
  "STAKING_PARAMS = [(''applies_to'', JStr ''treasury_sol_only''), (''user_opt_in_required'', JBool True),
     (''max_allocation_bps'', JInt 5000), (''protocols'', jstrs [''Marinade'']),
     (''risk_disclosure'', JStr ''smart_contract_depeg_liquidity'')]"

section \<open>Properties\<close>

lemma missing_conditions_empty:
  "get_missing_conditions s = [] \<longleftrightarrow> agent_online s \<and> dashboard_online s \<and> corpus_indexed s \<and> proof_manifest_published s \<and>
     wallet_connected s \<and> human_or_multisig_approval s \<and> \<not> flt (treasury_sol s) (Fin (1 / 4)) \<and> \<not> flt (treasury_usdc s) (Fin 500) \<and>
     no_private_keys_stored s \<and> mainnet_policy_enabled s"
  by (simp add: get_missing_conditions_def)

lemma gate_iff_missing_empty:
  assumes "treasury_sol s \<noteq> NaN" and "treasury_usdc s \<noteq> NaN"
  shows "can_begin_token_and_liquidity s \<longleftrightarrow> get_missing_conditions s = []"
  unfolding missing_conditions_empty
  using not_flt_fle [OF assms(1), of "Fin (1 / 4)"] not_flt_fle [OF assms(2), of "Fin 500"]
  by (auto simp: can_begin_token_and_liquidity_def)

text \<open>
  The gate is closed without approval: token creation can begin only with a connected wallet, the
  approval of a human or multisig, at least 0.25 SOL and 500 USDC, no stored private keys and an enabled
  mainnet policy; staking needs the approval too. For treasuries that are numbers, the summary says ready exactly when
  the list of missing conditions is empty, and a ready state is in the last phase.
\<close>

theorem launch_gate_exact:
  assumes "treasury_sol s \<noteq> NaN" and "treasury_usdc s \<noteq> NaN"
  shows "(sm_ready (get_state_summary s) \<longleftrightarrow> get_missing_conditions s = []) \<and>
    sm_missing (get_state_summary s) = get_missing_conditions s \<and>
    (sm_ready (get_state_summary s) \<longrightarrow> human_or_multisig_approval s \<and> wallet_connected s \<and> no_private_keys_stored s \<and>
       mainnet_policy_enabled s \<and> fle (Fin (1 / 4)) (treasury_sol s) \<and> fle (Fin 500) (treasury_usdc s) \<and>
       sm_phase (get_state_summary s) = ''READY_FOR_TOKEN_CREATION'') \<and>
    (can_stake_treasury_sol s \<longrightarrow> human_or_multisig_approval s)"
proof -
  have ready: "sm_ready (get_state_summary s) \<longleftrightarrow> can_begin_token_and_liquidity s"
    "sm_phase (get_state_summary s) = determine_phase s"
    by (simp_all add: get_state_summary_def Let_def)
  have "sm_missing (get_state_summary s) = get_missing_conditions s"
    using gate_iff_missing_empty [OF assms] by (simp add: get_state_summary_def Let_def)
  moreover have "determine_phase s = ''READY_FOR_TOKEN_CREATION''" if "get_missing_conditions s = []"
    using that unfolding missing_conditions_empty by (simp add: determine_phase_def)
  ultimately show ?thesis using gate_iff_missing_empty [OF assms] unfolding ready
    by (auto simp: can_begin_token_and_liquidity_def can_stake_treasury_sol_def)
qed

text \<open>The last phase is reached with private keys stored, while the gate stays closed.\<close>

lemma ready_phase_with_stored_keys:
  assumes "can_begin_token_and_liquidity s"
  shows "determine_phase (s\<lparr>no_private_keys_stored := False\<rparr>) = ''READY_FOR_TOKEN_CREATION'' \<and>
    \<not> can_begin_token_and_liquidity (s\<lparr>no_private_keys_stored := False\<rparr>)"
proof -
  have "\<not> flt x y" if "fle y x" for x y using that by (cases x; cases y) auto
  then show ?thesis using assms by (auto simp: can_begin_token_and_liquidity_def determine_phase_def)
qed

text \<open>A treasury that is not a number misses no condition and still does not pass.\<close>

lemma nan_treasury_not_reported:
  assumes "can_begin_token_and_liquidity s"
  shows "get_missing_conditions (s\<lparr>treasury_usdc := NaN\<rparr>) = [] \<and> \<not> can_begin_token_and_liquidity (s\<lparr>treasury_usdc := NaN\<rparr>)"
proof -
  have "\<not> flt x y" if "fle y x" for x y using that by (cases x; cases y) auto
  then show ?thesis using assms by (auto simp: can_begin_token_and_liquidity_def get_missing_conditions_def)
qed

text \<open>The gates read the limits of the published parameters.\<close>

lemma gates_use_published_limits:
  "dget LIQUIDITY_PARAMS ''minimum_first_lp_usdc'' = Some (JInt n) \<Longrightarrow> can_begin_token_and_liquidity s \<Longrightarrow> fle (Fin (of_int n)) (treasury_usdc s)"
  "dget LIQUIDITY_PARAMS ''treasury_sol_reserve_min'' = Some (JFloat x) \<Longrightarrow> can_begin_token_and_liquidity s \<Longrightarrow> fle x (treasury_sol s)"
  "dget STAKING_PARAMS ''max_allocation_bps'' = Some (JInt b) \<Longrightarrow> can_stake_treasury_sol s \<Longrightarrow> staking_allocation_bps s \<le> b"
  by (auto simp: LIQUIDITY_PARAMS_def STAKING_PARAMS_def can_begin_token_and_liquidity_def can_stake_treasury_sol_def)

lemma invalid_claim_raises:
  "assert_valid_claim c = Inr () \<longleftrightarrow> c \<notin> set (dkeys INVALID_CLAIMS)"
proof -
  have "dget (map (\<lambda>k. (k, False)) ks) c = Some False \<longleftrightarrow> c \<in> set ks" for ks by (induction ks) auto
  then show ?thesis unfolding assert_valid_claim_def INVALID_CLAIMS_def by (simp add: comp_def)
qed

definition ready_state :: launch_state where
  "ready_state = default_launch_state\<lparr>agent_online := True, dashboard_online := True, corpus_indexed := True,
     proof_manifest_published := True, wallet_connected := True, human_or_multisig_approval := True,
     treasury_sol := Fin 1, treasury_usdc := Fin 600, mainnet_policy_enabled := True\<rparr>"

theorem launch_gate_exact_witness:
  "sm_ready (get_state_summary ready_state) \<and> sm_phase (get_state_summary ready_state) = ''READY_FOR_TOKEN_CREATION''"
proof -
  have nan: "treasury_sol ready_state \<noteq> NaN" "treasury_usdc ready_state \<noteq> NaN" by (simp_all add: ready_state_def)
  have "sm_ready (get_state_summary ready_state)"
    by (simp add: get_state_summary_def can_begin_token_and_liquidity_def ready_state_def default_launch_state_def)
  with launch_gate_exact [OF nan] show ?thesis by blast
qed

end
