(* ===== verification/Job_Spec.thy ===== *)
theory Job_Spec
  imports PyNum
begin

text \<open>
  \<open>membra_sdk/job/job_spec.py\<close> and \<open>job/chat_compiler.py\<close>: structured job specifications, the file one is
  saved to, and the compiler that turns a prompt into one. A context is a JSON object.
\<close>

section \<open>Specifications\<close>

record job_spec =
  js_schema :: string
  js_job_id :: string
  js_intent :: string
  js_inputs :: json
  js_runtime :: "json dict"
  js_model_backend :: string
  js_tools :: "string list"
  js_policy :: "json dict"
  js_expected_outputs :: "string list"
  js_yield_metric :: string
  js_prompt_hash :: string
  js_chat_summary :: string
  js_created_at :: pyfloat
  js_status :: string

definition spec_to_dict :: "job_spec \<Rightarrow> json dict" where
  "spec_to_dict j = [
     (''schema'', JStr (js_schema j)), (''job_id'', JStr (js_job_id j)), (''intent'', JStr (js_intent j)),
     (''inputs'', js_inputs j), (''runtime'', JObj (js_runtime j)), (''model_backend'', JStr (js_model_backend j)),
     (''tools'', jstrs (js_tools j)), (''policy'', JObj (js_policy j)),
     (''expected_outputs'', jstrs (js_expected_outputs j)), (''yield_metric'', JStr (js_yield_metric j)),
     (''prompt_hash'', JStr (js_prompt_hash j)), (''chat_summary'', JStr (js_chat_summary j)),
     (''created_at'', JFloat (js_created_at j)), (''status'', JStr (js_status j))]"

text \<open>The fields of the class with their defaults, given a fresh identifier and the time.\<close>

definition spec_defaults :: "string \<Rightarrow> pyfloat \<Rightarrow> json dict" where
  "spec_defaults uid now = [
     (''schema'', JStr ''membra.job.v0.1''), (''job_id'', JStr (''job_'' @ take 8 uid)), (''intent'', JStr []),
     (''inputs'', JList []), (''runtime'', JObj []), (''model_backend'', JStr ''ollama:qwen2.5-coder''),
     (''tools'', JList []), (''policy'', JObj []), (''expected_outputs'', JList []),
     (''yield_metric'', JStr ''validated_artifact_output''), (''prompt_hash'', JStr []), (''chat_summary'', JStr []),
     (''created_at'', JFloat now), (''status'', JStr ''pending'')]"

text \<open>
  \<open>cls(**data)\<close>: an unknown name raises and an absent one takes its default. The result is \<open>None\<close> also
  when a value is of another type than \<open>to_dict\<close> writes.
\<close>

definition spec_field :: "json dict \<Rightarrow> json dict \<Rightarrow> string \<Rightarrow> json" where
  "spec_field data defaults k = dget_default data k (dget_default defaults k JNull)"

definition spec_of_dict :: "json dict \<Rightarrow> string \<Rightarrow> pyfloat \<Rightarrow> job_spec option" where
  "spec_of_dict data uid now = (let ds = spec_defaults uid now; f = spec_field data ds in
     if \<not> set (dkeys data) \<subseteq> set (dkeys ds) then None
     else do {
       schema \<leftarrow> as_str (f ''schema''); job_id \<leftarrow> as_str (f ''job_id''); intent \<leftarrow> as_str (f ''intent'');
       run \<leftarrow> as_obj (f ''runtime''); model \<leftarrow> as_str (f ''model_backend''); tools \<leftarrow> as_strs (f ''tools'');
       policy \<leftarrow> as_obj (f ''policy''); outputs \<leftarrow> as_strs (f ''expected_outputs''); metric \<leftarrow> as_str (f ''yield_metric'');
       ph \<leftarrow> as_str (f ''prompt_hash''); summary \<leftarrow> as_str (f ''chat_summary''); created \<leftarrow> as_float (f ''created_at'');
       status \<leftarrow> as_str (f ''status'');
       Some \<lparr>js_schema = schema, js_job_id = job_id, js_intent = intent, js_inputs = f ''inputs'', js_runtime = run,
         js_model_backend = model, js_tools = tools, js_policy = policy, js_expected_outputs = outputs,
         js_yield_metric = metric, js_prompt_hash = ph, js_chat_summary = summary, js_created_at = created, js_status = status\<rparr> })"

text \<open>\<open>save\<close> writes the object and \<open>load\<close> reads it; the files are a dictionary from paths to values.\<close>

definition spec_save :: "string \<Rightarrow> job_spec \<Rightarrow> json dict \<Rightarrow> json dict" where
  "spec_save path j disk = dset path (JObj (spec_to_dict j)) disk"

definition spec_load :: "string \<Rightarrow> json dict \<Rightarrow> runtime \<Rightarrow> job_spec option \<times> runtime" where
  "spec_load path disk rt = (let (uid, rt) = uuid4_hex rt; (now, rt) = time_time rt in
     (case dget disk path of Some (JObj data) \<Rightarrow> spec_of_dict data uid now | _ \<Rightarrow> None, rt))"

text \<open>\<open>not policy.get("funds") is False\<close> negates the identity test.\<close>

definition spec_issues :: "job_spec \<Rightarrow> string list" where
  "spec_issues j =
     (if js_intent j = [] then [''Missing intent''] else [])
     @ (if dtruthy (js_runtime j) ''container'' then [] else [''Missing runtime.container''])
     @ (if js_expected_outputs j = [] then [''Missing expected_outputs''] else [])
     @ (if js_policy j = [] then [''Missing policy''] else [])
     @ (if dtruthy (js_policy j) ''mainnet'' \<and> dget (js_policy j) ''funds'' \<noteq> Some (JBool False)
        then [''Mainnet enabled without explicit fund policy''] else [])"

definition validate_structure :: "job_spec \<Rightarrow> bool \<times> string list \<times> string" where
  "validate_structure j = (let issues = spec_issues j in (length issues = 0, issues, js_job_id j))"

section \<open>The compiler\<close>

abbreviation mentions :: "string list \<Rightarrow> string \<Rightarrow> bool" where
  "mentions ks s \<equiv> list_ex (\<lambda>k. str_in k s) ks"

definition extract_intent :: "string \<Rightarrow> string" where
  "extract_intent prompt = (let first = strip (hd (split_on CHR ''.'' (strip prompt))) in
     if length first < 120 then first else take 117 first @ ''...'')"

definition select_runtime :: "string \<Rightarrow> json dict" where
  "select_runtime p =
     (if mentions [''rust'', ''cargo'', ''tokio''] p
      then [(''container'', JStr ''rust:1.75''), (''tools'', jstrs [''cargo'', ''clippy'', ''rustc''])]
      else if mentions [''node'', ''npm'', ''typescript'', ''react''] p
      then [(''container'', JStr ''node:20-slim''), (''tools'', jstrs [''npm'', ''node'', ''tsc''])]
      else if mentions [''solana'', ''anchor''] p
      then [(''container'', JStr ''solana:1.17''), (''tools'', jstrs [''anchor'', ''solana-cli'', ''cargo''])]
      else [(''container'', JStr ''python:3.11-slim''), (''tools'', jstrs [''pytest'', ''ruff'', ''mypy'', ''git''])])"

definition select_model :: "string \<Rightarrow> string" where
  "select_model p =
     (if mentions [''code'', ''api'', ''function'', ''script'', ''app''] p then ''ollama:qwen2.5-coder''
      else if mentions [''review'', ''audit'', ''test'', ''check''] p then ''ollama:llama3.2:3b''
      else if mentions [''doc'', ''readme'', ''explain''] p then ''ollama:llama3.1:8b''
      else ''ollama:qwen2.5-coder'')"

definition build_policy :: "string \<Rightarrow> json dict \<Rightarrow> json dict" where
  "build_policy p ctx =
     (let policy = [(''network'', JStr ''restricted''), (''secrets'', JBool False), (''funds'', JBool False), (''mainnet'', JBool False)];
          policy = (if dtruthy ctx ''allow_mainnet'' \<and> str_in ''mainnet'' p then dset ''mainnet'' (JBool True) policy else policy)
      in if dtruthy ctx ''allow_funds'' then dset ''funds'' (JBool True) policy else policy)"

text \<open>\<open>xs.insert(i, x)\<close>.\<close>

definition list_insert :: "nat \<Rightarrow> 'a \<Rightarrow> 'a list \<Rightarrow> 'a list" where
  "list_insert i x xs = take i xs @ [x] @ drop i xs"

definition infer_outputs :: "string \<Rightarrow> string list" where
  "infer_outputs p =
     (let outputs = [''README.md'', ''proof.json''];
          outputs = (if mentions [''app'', ''api'', ''server'', ''script''] p
            then list_insert 1 ''test_app.py'' (list_insert 0 ''app.py'' outputs) else outputs);
          outputs = (if mentions [''contract'', ''solana'', ''anchor''] p
            then list_insert 1 ''Cargo.toml'' (list_insert 0 ''lib.rs'' outputs) else outputs)
      in if mentions [''test'', ''pytest''] p \<and> ''test_app.py'' \<notin> set outputs then list_insert 1 ''tests/'' outputs else outputs)"

definition summarize :: "string \<Rightarrow> string" where
  "summarize prompt = join '' '' (take 12 (words prompt)) @ (if length (words prompt) > 12 then ''...'' else [])"

definition text_hash :: "string \<Rightarrow> string" where
  "text_hash t = ''sha256:'' @ sha256_hex t"

text \<open>\<open>compile\<close>; the identifier and the time are the defaults of the class.\<close>

definition compile :: "string \<Rightarrow> json dict \<Rightarrow> runtime \<Rightarrow> job_spec \<times> runtime" where
  "compile prompt ctx rt =
     (let p = lower prompt; run = select_runtime p; (uid, rt) = uuid4_hex rt; (now, rt) = time_time rt in
      (\<lparr>js_schema = ''membra.job.v0.1'', js_job_id = ''job_'' @ take 8 uid, js_intent = extract_intent prompt,
        js_inputs = dget_default ctx ''inputs'' (JList []), js_runtime = run, js_model_backend = select_model p,
        js_tools = (case dget run ''tools'' of Some v \<Rightarrow> (case as_strs v of Some ts \<Rightarrow> ts | None \<Rightarrow> []) | None \<Rightarrow> []),
        js_policy = build_policy p ctx, js_expected_outputs = infer_outputs p,
        js_yield_metric = ''validated_artifact_output'', js_prompt_hash = text_hash prompt, js_chat_summary = summarize prompt,
        js_created_at = now, js_status = ''pending''\<rparr>, rt))"

section \<open>Properties\<close>

lemma spec_of_to_dict: "spec_of_dict (spec_to_dict j) uid now = Some j"
  by (simp add: spec_of_dict_def spec_to_dict_def spec_defaults_def spec_field_def dget_default_def Let_def)

text \<open>
  A specification survives its file: what \<open>load\<close> reads from the path a specification was last saved to
  is the specification, whatever else is on the disk.
\<close>

theorem spec_survives_file: "fst (spec_load path (spec_save path j disk) rt) = Some j"
  by (simp add: spec_load_def spec_save_def spec_of_to_dict Let_def case_prod_beta)

text \<open>An object with a name the class does not have is refused.\<close>

lemma unknown_field_refused:
  "k \<in> set (dkeys data) \<Longrightarrow> k \<notin> set (dkeys (spec_defaults uid now)) \<Longrightarrow> spec_of_dict data uid now = None"
  by (auto simp: spec_of_dict_def Let_def)

lemma compile_fields:
  "js_intent (fst (compile prompt ctx rt)) = extract_intent prompt"
  "js_policy (fst (compile prompt ctx rt)) = build_policy (lower prompt) ctx"
  "js_runtime (fst (compile prompt ctx rt)) = select_runtime (lower prompt)"
  "js_expected_outputs (fst (compile prompt ctx rt)) = infer_outputs (lower prompt)"
  by (simp_all add: compile_def Let_def case_prod_beta)

lemma policy_flags:
  "dget (build_policy p ctx) ''mainnet'' = Some (JBool (dtruthy ctx ''allow_mainnet'' \<and> str_in ''mainnet'' p))"
  "dget (build_policy p ctx) ''funds'' = Some (JBool (dtruthy ctx ''allow_funds''))"
  "dget (build_policy p ctx) ''secrets'' = Some (JBool False)"
  "dget (build_policy p ctx) ''network'' = Some (JStr ''restricted'')"
  "build_policy p ctx \<noteq> []"
  by (simp_all add: build_policy_def Let_def)

lemma intent_short: "length (extract_intent prompt) \<le> 120"
  by (simp add: extract_intent_def Let_def)

lemma infer_outputs_files: "''README.md'' \<in> set (infer_outputs p)" "''proof.json'' \<in> set (infer_outputs p)" "distinct (infer_outputs p)"
  by (simp_all add: infer_outputs_def list_insert_def Let_def)

text \<open>
  A compiled job is confined: whatever the prompt, secrets are off and the network is restricted, mainnet is
  on only if the context allows it and the prompt asks for it, and funds only if the context allows
  them; the readme and the proof are always expected, and the specification is valid exactly when the
  prompt has a first sentence and mainnet and funds are not both on.
\<close>

theorem compiled_job_is_confined:
  "let j = fst (compile prompt ctx rt); mainnet = (dtruthy ctx ''allow_mainnet'' \<and> str_in ''mainnet'' (lower prompt)) in
    dget (js_policy j) ''secrets'' = Some (JBool False) \<and> dget (js_policy j) ''network'' = Some (JStr ''restricted'') \<and>
    dget (js_policy j) ''mainnet'' = Some (JBool mainnet) \<and> dget (js_policy j) ''funds'' = Some (JBool (dtruthy ctx ''allow_funds'')) \<and>
    {''README.md'', ''proof.json''} \<subseteq> set (js_expected_outputs j) \<and> length (js_intent j) \<le> 120 \<and>
    (fst (validate_structure j) \<longleftrightarrow>
       strip (hd (split_on CHR ''.'' (strip prompt))) \<noteq> [] \<and> \<not> (mainnet \<and> dtruthy ctx ''allow_funds''))"
proof -
  have "dtruthy (select_runtime p) ''container''" for p by (simp add: select_runtime_def dtruthy_def)
  moreover have "infer_outputs p \<noteq> []" for p using infer_outputs_files(1) [of p] by auto
  moreover have "extract_intent prompt = [] \<longleftrightarrow> strip (hd (split_on CHR ''.'' (strip prompt))) = []"
    by (auto simp: extract_intent_def Let_def)
  ultimately show ?thesis
    using intent_short [of prompt] infer_outputs_files [of "lower prompt"] policy_flags [of "lower prompt" ctx]
    by (auto simp: Let_def compile_fields validate_structure_def spec_issues_def dtruthy_def)
qed

end
