(* ===== verification/Proof_Of_Job.thy ===== *)
theory Proof_Of_Job
  imports Job_Spec "HOL-Library.Multiset"
begin

text \<open>
  \<open>membra_sdk/job/artifact_hasher.py\<close>, \<open>validators.py\<close>, \<open>consensus.py\<close>, \<open>proof_bundle.py\<close> and \<open>settlement.py\<close>: hashing the
  outputs of a job, the votes on it, their consensus, the proof bundle and what it can be settled for. The
  files of a directory are the list of their relative paths and bytes in the order of the directory walk. The text of a set, whose order
  Python salts, is a parameter.
\<close>

section \<open>Artifacts\<close>

type_synonym bytes = "nat list"

definition hash_file :: "bytes \<Rightarrow> string" where
  "hash_file content = ''sha256:'' @ hexdigest content"

definition hash_directory :: "(string \<times> bytes) list \<Rightarrow> json dict list" where
  "hash_directory files = map (\<lambda>(p, b). [(''path'', JStr p), (''sha256'', JStr (hash_file b)), (''bytes'', JInt (int (length b)))]) files"

text \<open>\<open>a[k]\<close> where a text is needed.\<close>

definition item_text :: "json dict \<Rightarrow> string \<Rightarrow> string result" where
  "item_text a k = (case dget a k of None \<Rightarrow> Inl (KeyError k) | Some (JStr s) \<Rightarrow> Inr s | _ \<Rightarrow> Inl TypeError)"

definition root_hash :: "json dict list \<Rightarrow> string result" where
  "root_hash artifacts = rbind (rmap (\<lambda>a. item_text a ''sha256'') artifacts) (\<lambda>hs. Inr (text_hash (concat (sort hs))))"

record output_bundle =
  ob_artifacts :: "json dict list"
  ob_root_hash :: string
  ob_count :: int
  ob_total_bytes :: int

definition hash_job_outputs :: "(string \<times> bytes) list \<Rightarrow> output_bundle result" where
  "hash_job_outputs files = (let artifacts = hash_directory files in
     rbind (root_hash artifacts) (\<lambda>h. Inr \<lparr>ob_artifacts = artifacts, ob_root_hash = h, ob_count = int (length artifacts),
       ob_total_bytes = sum_list (map (\<lambda>(p, b). int (length b)) files)\<rparr>))"

section \<open>Validators\<close>

record validator =
  va_id :: string
  va_role :: string

definition the_vote :: "string \<Rightarrow> string \<Rightarrow> json dict" where
  "the_vote v reason = [(''vote'', JStr v), (''reason'', JStr reason)]"

text \<open>Elements of a set must be hashable: lists and objects are not.\<close>

definition set_elements :: "json list \<Rightarrow> json list result" where
  "set_elements xs = (if list_ex (\<lambda>x. case x of JList _ \<Rightarrow> True | JObj _ \<Rightarrow> True | _ \<Rightarrow> False) xs then Inl TypeError else Inr xs)"

definition validate_structure_role :: "(json list \<Rightarrow> string) \<Rightarrow> json dict \<Rightarrow> json dict list \<Rightarrow> json dict result" where
  "validate_structure_role show_set spec artifacts =
     rbind (jiter (dget_default spec ''expected_outputs'' (JList []))) (\<lambda>ex. rbind (set_elements ex) (\<lambda>expected.
     rbind (set_elements (map (\<lambda>a. dget_default a ''path'' (JStr [])) artifacts)) (\<lambda>found.
       let missing = filter (\<lambda>x. x \<notin> set found) (remdups expected) in
       Inr (if missing = [] then the_vote ''accept'' ''All expected files present.''
            else the_vote ''reject'' (''Missing expected files: '' @ show_set missing)))))"

text \<open>The loop of the security check reads the paths and does nothing with them.\<close>

definition validate_security :: "json dict list \<Rightarrow> json dict result" where
  "validate_security artifacts = rbind (rmap (\<lambda>a. text_get (JObj a) ''path'') artifacts)
     (\<lambda>paths. Inr (the_vote ''accept'' ''No obvious security issues in metadata.''))"

definition validate_usefulness :: "json dict \<Rightarrow> json dict list \<Rightarrow> json dict result" where
  "validate_usefulness spec artifacts = rbind (text_get (JObj spec) ''intent'') (\<lambda>intent.
     Inr (if artifacts = [] then the_vote ''reject'' ''No artifacts produced.''
          else if length artifacts \<ge> 2 then the_vote ''accept'' ''Multiple artifacts suggest useful output.''
          else the_vote ''accept'' ''At least one artifact produced.''))"

text \<open>\<open>==\<close>: numbers by value, other values by structure.\<close>

definition py_eq :: "json \<Rightarrow> json \<Rightarrow> bool" where
  "py_eq a b = (case (num_of a, num_of b) of (Inr x, Inr y) \<Rightarrow> feq (num_key x) (num_key y) | _ \<Rightarrow> a = b)"

definition validate_tests :: "json dict \<Rightarrow> json dict" where
  "validate_tests results =
     (let passed = dget_default results ''passed'' (JInt 0); all = dget_default results ''total'' (JInt 0) in
      if py_eq all (JInt 0) then the_vote ''accept'' ''No tests configured.''
      else if py_eq passed all then the_vote ''accept'' (''All '' @ json_text all @ '' tests passed.'')
      else the_vote ''reject'' (''Tests failed: '' @ json_text passed @ ''/'' @ json_text all))"

definition validate_policy :: "json dict \<Rightarrow> json dict result" where
  "validate_policy spec = (case dget_default spec ''policy'' (JObj []) of
       JObj policy \<Rightarrow> Inr (if dtruthy policy ''mainnet'' \<and> \<not> dtruthy policy ''mainnet_explicitly_allowed''
         then the_vote ''reject'' ''Mainnet policy violation.'' else the_vote ''accept'' ''Policy checks passed.'')
     | _ \<Rightarrow> Inl AttributeError)"

definition validate :: "(json list \<Rightarrow> string) \<Rightarrow> validator \<Rightarrow> json dict \<Rightarrow> json dict list \<Rightarrow> json dict \<Rightarrow> json dict result" where
  "validate show_set v spec artifacts results =
     (if va_role v = ''structure'' then validate_structure_role show_set spec artifacts
      else if va_role v = ''security'' then validate_security artifacts
      else if va_role v = ''usefulness'' then validate_usefulness spec artifacts
      else if va_role v = ''tests'' then Inr (validate_tests results)
      else if va_role v = ''policy'' then validate_policy spec
      else Inr (the_vote ''reject'' (''Unknown validator role: '' @ va_role v)))"

record validator_set =
  vs_ids :: "string list"
  vs_validators :: "validator list"

definition DEFAULT_ROLES :: "string list" where
  "DEFAULT_ROLES = [''structure'', ''security'', ''usefulness'', ''tests'', ''policy'']"

definition validator_set_init :: "string list \<Rightarrow> validator_set" where
  "validator_set_init ids = \<lparr>vs_ids = (if ids = [] then [''validator_a'', ''validator_b'', ''validator_c''] else ids), vs_validators = []\<rparr>"

definition add_default_validators :: "validator_set \<Rightarrow> validator_set" where
  "add_default_validators s = s\<lparr>vs_validators := vs_validators s
     @ map (\<lambda>(i, role). \<lparr>va_id = vs_ids s ! (i mod length (vs_ids s)), va_role = role\<rparr>) (enumerate 0 DEFAULT_ROLES)\<rparr>"

definition add_validator :: "string \<Rightarrow> string \<Rightarrow> validator_set \<Rightarrow> validator_set" where
  "add_validator vid role s = s\<lparr>vs_validators := vs_validators s @ [\<lparr>va_id = vid, va_role = role\<rparr>]\<rparr>"

definition run_validators ::
  "(json list \<Rightarrow> string) \<Rightarrow> json dict \<Rightarrow> json dict list \<Rightarrow> json dict \<Rightarrow> validator_set \<Rightarrow> json dict list result \<times> validator_set" where
  "run_validators show_set spec artifacts results s =
     (let s = (if vs_validators s = [] then add_default_validators s else s) in
      (rmap (\<lambda>v. rbind (validate show_set v spec artifacts results) (\<lambda>vote.
         Inr (dset ''role'' (JStr (va_role v)) (dset ''validator_id'' (JStr (va_id v)) vote)))) (vs_validators s), s))"

section \<open>Consensus\<close>

text \<open>\<open>num, denom = threshold.split("/")\<close> raises unless there are two parts.\<close>

definition required_ratio :: "string \<Rightarrow> pyfloat result" where
  "required_ratio threshold =
     (if CHR ''/'' \<in> set threshold then
        (case split_on CHR ''/'' threshold of
           [n, d] \<Rightarrow> (case (py_int n, py_int d) of (Some a, Some b) \<Rightarrow> truediv a b
              | _ \<Rightarrow> Inl (ValueError ''invalid literal for int()''))
         | _ \<Rightarrow> Inl (ValueError ''too many values to unpack''))
      else case py_float threshold of Some x \<Rightarrow> Inr x | None \<Rightarrow> Inl (ValueError ''could not convert string to float''))"

record consensus =
  cn_result :: string
  cn_yes_votes :: int
  cn_no_votes :: "int option"
  cn_total_votes :: int
  cn_ratio :: pyfloat
  cn_threshold :: string
  cn_rejection_reasons :: "json list"

definition accepts :: "json dict \<Rightarrow> bool" where
  "accepts v \<longleftrightarrow> dget v ''vote'' = Some (JStr ''accept'')"

definition vote_reason :: "json dict \<Rightarrow> json result" where
  "vote_reason v = (case dget v ''reason'' of None \<Rightarrow> Inl (KeyError ''reason'') | Some r \<Rightarrow> Inr r)"

definition evaluate :: "string \<Rightarrow> json dict list \<Rightarrow> consensus result" where
  "evaluate threshold votes =
     (if votes = [] then Inr \<lparr>cn_result = ''rejected'', cn_yes_votes = 0, cn_no_votes = None, cn_total_votes = 0,
        cn_ratio = Fin 0, cn_threshold = threshold, cn_rejection_reasons = [JStr ''No validators ran'']\<rparr>
      else let n = int (length votes); yes = int (length (filter accepts votes)) in
        rbind (truediv yes n) (\<lambda>ratio. rbind (required_ratio threshold) (\<lambda>required.
        let passed = fle required ratio in
        rbind (rmap vote_reason (filter (\<lambda>v. dget v ''vote'' = Some (JStr ''reject'')) votes)) (\<lambda>reasons.
          Inr \<lparr>cn_result = (if passed then ''accepted'' else ''rejected''), cn_yes_votes = yes, cn_no_votes = Some (n - yes),
            cn_total_votes = n, cn_ratio = fround ratio 3, cn_threshold = threshold,
            cn_rejection_reasons = (if passed then [] else reasons)\<rparr>))))"

definition DEFAULT_THRESHOLD :: string where
  "DEFAULT_THRESHOLD = ''2/3''"

definition can_retry :: "consensus \<Rightarrow> bool" where
  "can_retry c = (cn_result c \<noteq> ''accepted'' \<and> cn_yes_votes c > 0)"

section \<open>Bundles\<close>

definition compute_root_hash :: "json dict \<Rightarrow> string" where
  "compute_root_hash bundle = text_hash (dumps False True (JObj bundle))"

definition bundle_body :: "json dict \<Rightarrow> json dict \<Rightarrow> json dict \<Rightarrow> json dict list \<Rightarrow> json dict \<Rightarrow> json dict \<Rightarrow> json dict \<Rightarrow> pyfloat \<Rightarrow> json dict" where
  "bundle_body chat job container artifacts yield_report con settlement now = [
     (''schema'', JStr ''membra.proof_of_job.v0.1''), (''created_at'', JFloat now), (''chat'', JObj chat), (''job'', JObj job),
     (''container'', JObj container), (''artifacts'', JList (map JObj artifacts)), (''yield'', JObj yield_report),
     (''consensus'', JObj con),
     (''settlement'', JObj (if settlement = [] then [(''status'', JStr ''unsettled''), (''external_receipts'', JList [])] else settlement))]"

definition build_bundle :: "json dict \<Rightarrow> json dict \<Rightarrow> json dict \<Rightarrow> json dict list \<Rightarrow> json dict \<Rightarrow> json dict \<Rightarrow> json dict \<Rightarrow> runtime
    \<Rightarrow> json dict \<times> runtime" where
  "build_bundle chat job container artifacts yield_report con settlement rt =
     (let (now, rt) = time_time rt; body = bundle_body chat job container artifacts yield_report con settlement now
      in (dset ''root_hash'' (JStr (compute_root_hash body)) body, rt))"

record bundle_check =
  bc_valid :: bool
  bc_reason :: string
  bc_stored :: "json option"
  bc_computed :: "string option"

text \<open>\<open>verify(bundle)\<close> on the kept bundle when none is given.\<close>

definition verify_bundle :: "json dict \<Rightarrow> json dict \<Rightarrow> bundle_check" where
  "verify_bundle given kept = (let bundle = (if given = [] then kept else given) in
     if bundle = [] then \<lparr>bc_valid = False, bc_reason = ''Empty bundle'', bc_stored = None, bc_computed = None\<rparr>
     else let stored = dget_default bundle ''root_hash'' (JStr []);
              computed = compute_root_hash (filter (\<lambda>(k, v). k \<noteq> ''root_hash'') bundle)
       in if stored = JStr computed then \<lparr>bc_valid = True, bc_reason = ''Root hash matches'', bc_stored = None, bc_computed = None\<rparr>
          else \<lparr>bc_valid = False, bc_reason = ''Root hash mismatch '' @ [CHR 0xE2, CHR 0x80, CHR 0x94] @ '' bundle may be tampered'',
            bc_stored = Some stored, bc_computed = Some computed\<rparr>)"

text \<open>A field that must be an object, absent as the empty one.\<close>

definition sub_object :: "json dict \<Rightarrow> string \<Rightarrow> json dict result" where
  "sub_object d k = (case dget_default d k (JObj []) of JObj o' \<Rightarrow> Inr o' | _ \<Rightarrow> Inl AttributeError)"

text \<open>
  Saving and packing the kept bundle. The saved file is kept as its value, and an archive as its entries; a path in the directory of the job leads
  to a file, a directory, or nothing. A name without its path, or an identifier that is no text, is written as Python prints it.
\<close>

datatype job_entry = File_entry bytes | Directory_entry

datatype zip_entry = Proof_entry "json dict" | Copied_entry job_entry

definition bundle_save :: "string \<Rightarrow> json dict \<Rightarrow> json dict dict \<Rightarrow> string \<times> json dict dict" where
  "bundle_save path kept disk = (path, dset path kept disk)"

definition packed_artifact :: "(string \<Rightarrow> job_entry option) \<Rightarrow> json \<Rightarrow> (string \<times> zip_entry) list result" where
  "packed_artifact job_dir a = (case a of
     JObj d \<Rightarrow> rbind (item_text d ''path'') (\<lambda>p. Inr (case job_dir p of None \<Rightarrow> [] | Some f \<Rightarrow> [(p, Copied_entry f)]))
   | _ \<Rightarrow> Inl TypeError)"

definition export_zip :: "(string \<Rightarrow> job_entry option) \<Rightarrow> json dict \<Rightarrow> (string \<times> zip_entry) list result" where
  "export_zip job_dir kept =
     rbind (jiter (dget_default kept ''artifacts'' (JList []))) (\<lambda>artifacts. rbind (rmap (packed_artifact job_dir) artifacts) (\<lambda>packed.
     rbind (sub_object kept ''job'') (\<lambda>job.
       let spec = job_dir (json_text (dget_default job ''job_id'' (JStr ''job'')) @ ''.json'')
       in Inr ([(''proof.json'', Proof_entry kept)] @ concat packed @ (case spec of None \<Rightarrow> [] | Some f \<Rightarrow> [(''job.json'', Copied_entry f)])))))"

section \<open>Settlement\<close>

definition add_receipt :: "string \<Rightarrow> pyfloat \<Rightarrow> string \<Rightarrow> string \<Rightarrow> string \<Rightarrow> string \<Rightarrow> json dict \<Rightarrow> json dict list \<Rightarrow> runtime
    \<Rightarrow> json dict \<times> json dict list \<times> runtime" where
  "add_receipt ty amount currency status processor tx metadata receipts rt =
     (let (now, rt) = time_time rt;
          r = [(''type'', JStr ty), (''amount'', JFloat amount), (''currency'', JStr currency), (''status'', JStr status),
            (''processor'', JStr processor), (''tx_id'', JStr tx), (''timestamp'', JFloat now), (''metadata'', JObj metadata)]
      in (r, receipts @ [r], rt))"

record preview =
  pw_settlable :: bool
  pw_note :: "(string \<times> json) option"
  pw_suggested_actions :: "string list"

definition settlement_preview :: "json dict \<Rightarrow> preview result" where
  "settlement_preview bundle = rbind (sub_object bundle ''yield'') (\<lambda>y. rbind (sub_object bundle ''consensus'') (\<lambda>c.
     if dget c ''result'' \<noteq> Some (JStr ''accepted'') then
       Inr \<lparr>pw_settlable = False, pw_note = Some (''reason'', JStr ''Consensus not reached''),
         pw_suggested_actions = [''Fix rejection reasons'', ''Re-run validators'']\<rparr>
     else let score = dget_default y ''total_score'' (JInt 0) in
       rbind (num_lt score (JInt 60)) (\<lambda>low.
         Inr (if low then \<lparr>pw_settlable = True,
               pw_note = Some (''warning'', JStr (''Low yield score '' @ [CHR 0xE2, CHR 0x80, CHR 0x94] @ '' may not attract buyers'')),
               pw_suggested_actions = [''Improve tests'', ''Add documentation'', ''Run benchmarks'']\<rparr>
             else \<lparr>pw_settlable = True, pw_note = Some (''yield_score'', score),
               pw_suggested_actions = [''Export proof bundle'', ''Submit to bounty platform'', ''Invoice customer'', ''Apply for grant'']\<rparr>))))"

record line_item =
  li_description :: string
  li_score :: json
  li_amount :: json

record invoice =
  iv_invoice_id :: string
  iv_amount :: json
  iv_currency :: string
  iv_line_items :: "line_item list"
  iv_total :: json
  iv_proof_root :: string

definition invoice_line :: "json dict \<Rightarrow> pyfloat \<Rightarrow> string \<times> string \<times> rat \<Rightarrow> line_item result" where
  "invoice_line y rate l = (case l of (desc, key, weight) \<Rightarrow>
     let sc = dget_default y key (JInt 0) in
     rbind (num_mul sc (JFloat rate)) (\<lambda>a. rbind (num_mul a (JFloat (mkf weight))) (\<lambda>b. rbind (num_round b 2) (\<lambda>amount.
       Inr \<lparr>li_description = desc, li_score = sc, li_amount = amount\<rparr>))))"

definition export_invoice :: "json dict \<Rightarrow> pyfloat \<Rightarrow> runtime \<Rightarrow> invoice result \<times> runtime" where
  "export_invoice bundle rate rt =
     (case rbind (sub_object bundle ''yield'') (\<lambda>y. rbind (num_mul (dget_default y ''total_score'' (JInt 0)) (JFloat rate)) (\<lambda>a.
         rbind (num_round a 2) (\<lambda>amount. Inr (y, amount)))) of Inl x \<Rightarrow> (Inl x, rt)
      | Inr (y, amount) \<Rightarrow> let (now, rt) = time_time rt in
          (rbind (ftrunc now) (\<lambda>secs. rbind (rmap (invoice_line y rate) [
               (''Artifact Yield'', ''artifact_yield'', 35 / 100), (''Validation Yield'', ''validation_yield'', 35 / 100),
               (''Market Yield'', ''market_yield'', 15 / 100), (''Chain Yield'', ''chain_yield'', 15 / 100)]) (\<lambda>lines.
             case dget_default bundle ''root_hash'' (JStr ''N/A'') of
               JStr h \<Rightarrow> Inr \<lparr>iv_invoice_id = ''inv-'' @ dec_int secs, iv_amount = amount, iv_currency = ''USD'',
                 iv_line_items = lines, iv_total = amount, iv_proof_root = take 16 h @ ''...''\<rparr>
             | _ \<Rightarrow> Inl TypeError)), rt))"

definition anchor_to_devnet :: "json dict \<Rightarrow> string \<Rightarrow> json dict" where
  "anchor_to_devnet bundle rpc = [(''status'', JStr ''instruction_only''), (''network'', JStr ''devnet''), (''rpc'', JStr rpc),
     (''root_hash'', dget_default bundle ''root_hash'' (JStr ''N/A'')),
     (''instruction'', JStr ''Use solana-py to send memo tx with root hash''), (''note'', JStr ''Requires SOL devnet tokens and keypair'')]"

section \<open>The consensus is two thirds\<close>

lemma default_ratio: "required_ratio DEFAULT_THRESHOLD = Inr (Fin (rnd (of_int 2 / of_int 3)))"
proof -
  have "py_int ''2'' = Some 2" "py_int ''3'' = Some 3" by code_simp+
  moreover have "truediv 2 3 = Inr (Fin (rnd (of_int 2 / of_int 3)))" by (rule truediv_small) simp_all
  ultimately show ?thesis by (simp add: required_ratio_def DEFAULT_THRESHOLD_def)
qed

lemma evaluate_default:
  assumes "list_all (\<lambda>v. dget v ''reason'' \<noteq> None) votes" and "length votes < 2 ^ 49"
  shows "\<exists>c. evaluate DEFAULT_THRESHOLD votes = Inr c \<and> cn_yes_votes c = int (length (filter accepts votes)) \<and>
    cn_total_votes c = int (length votes) \<and>
    (cn_result c = ''accepted'' \<longleftrightarrow> votes \<noteq> [] \<and> 2 * length votes \<le> 3 * length (filter accepts votes))"
proof (cases "votes = []")
  case True
  then show ?thesis by (simp add: evaluate_def)
next
  case False
  let ?n = "int (length votes)" and ?y = "int (length (filter accepts votes))"
  let ?rej = "filter (\<lambda>v. dget v ''vote'' = Some (JStr ''reject'')) votes"
  have y: "0 \<le> ?y" "?y \<le> ?n" "0 < ?n" using False by simp_all
  have "int (length votes) < int (2 ^ 49)" using assms(2) by (rule of_nat_less_iff [THEN iffD2])
  then have n: "?n * 3 < 2 ^ 51" by simp
  have "(2 :: int) ^ 51 \<le> 2 ^ 53" by simp
  then have "?y \<le> 2 ^ 53" using y n by linarith
  then have q: "truediv ?y ?n = Inr (Fin (rnd (of_int ?y / of_int ?n)))" using y by (intro truediv_small) linarith+
  have cmp: "rnd (of_int 2 / of_int 3) \<le> rnd (of_int ?y / of_int ?n) \<longleftrightarrow> 2 * ?n \<le> ?y * 3"
    using y n by (intro rnd_quotient_le_iff) simp_all
  have "rmap vote_reason ?rej = Inr (map (\<lambda>v. the (dget v ''reason'')) ?rej)"
    using assms(1) by (intro rmap_total) (auto simp: vote_reason_def list_all_iff split: option.split)
  moreover have "2 * ?n \<le> ?y * 3 \<longleftrightarrow> 2 * length votes \<le> 3 * length (filter accepts votes)" by linarith
  ultimately show ?thesis using False cmp unfolding evaluate_def Let_def q default_ratio by simp
qed

text \<open>
  The consensus engine implements its two thirds exactly: for fewer than \<open>2 ^ 49\<close> votes that carry a
  reason, the comparison of rounded ratios accepts exactly when there are votes and two thirds of them
  accept, and a rejected job can be retried exactly when some validator accepted it.
\<close>

theorem consensus_is_two_thirds:
  assumes "list_all (\<lambda>v. dget v ''reason'' \<noteq> None) votes" and "length votes < 2 ^ 49"
  shows "\<exists>c. evaluate DEFAULT_THRESHOLD votes = Inr c \<and>
    (cn_result c = ''accepted'' \<longleftrightarrow> votes \<noteq> [] \<and> 2 * length votes \<le> 3 * length (filter accepts votes)) \<and>
    (can_retry c \<longleftrightarrow> cn_result c \<noteq> ''accepted'' \<and> (\<exists>v \<in> set votes. accepts v))"
  using evaluate_default [OF assms] by (auto simp: can_retry_def filter_empty_conv)

theorem consensus_is_two_thirds_witness:
  "\<exists>c. evaluate DEFAULT_THRESHOLD [the_vote ''accept'' ''a'', the_vote ''accept'' ''b'', the_vote ''reject'' ''c''] = Inr c \<and>
    cn_result c = ''accepted''"
proof -
  let ?vs = "[the_vote ''accept'' ''a'', the_vote ''accept'' ''b'', the_vote ''reject'' ''c'']"
  have "list_all (\<lambda>v. dget v ''reason'' \<noteq> None) ?vs" "length ?vs < 2 ^ 49" by (simp_all add: the_vote_def)
  from consensus_is_two_thirds [OF this] show ?thesis by (auto simp: accepts_def the_vote_def)
qed

section \<open>The default validators\<close>

lemma vote_simps [simp]:
  "accepts (the_vote v r) \<longleftrightarrow> v = ''accept''" "dget (the_vote v r) ''reason'' = Some (JStr r)"
  "accepts (dset ''role'' x (dset ''validator_id'' y vt)) \<longleftrightarrow> accepts vt"
  "dget (dset ''role'' x (dset ''validator_id'' y vt)) ''reason'' = dget vt ''reason''"
  by (simp_all add: accepts_def the_vote_def)

text \<open>The four checks that can fail on the outputs of a job.\<close>

definition files_present :: "job_spec \<Rightarrow> (string \<times> bytes) list \<Rightarrow> bool" where
  "files_present j files \<longleftrightarrow> set (js_expected_outputs j) \<subseteq> fst ` set files"

definition tests_fine :: "json dict \<Rightarrow> bool" where
  "tests_fine results \<longleftrightarrow> py_eq (dget_default results ''total'' (JInt 0)) (JInt 0) \<or>
     py_eq (dget_default results ''passed'' (JInt 0)) (dget_default results ''total'' (JInt 0))"

definition policy_fine :: "job_spec \<Rightarrow> bool" where
  "policy_fine j \<longleftrightarrow> dtruthy (js_policy j) ''mainnet'' \<longrightarrow> dtruthy (js_policy j) ''mainnet_explicitly_allowed''"

lemma spec_dict_fields:
  "dget_default (spec_to_dict j) ''expected_outputs'' d = jstrs (js_expected_outputs j)"
  "dget_default (spec_to_dict j) ''policy'' d = JObj (js_policy j)"
  "text_get (JObj (spec_to_dict j)) ''intent'' = Inr (js_intent j)"
  by (simp_all add: spec_to_dict_def dget_default_def text_get_def)

lemma structure_vote:
  "\<exists>r. validate_structure_role show_set (spec_to_dict j) (hash_directory files) = Inr (the_vote (if files_present j files then ''accept'' else ''reject'') r)"
proof -
  have hashable: "set_elements (map (\<lambda>x. JStr (g x)) xs) = Inr (map (\<lambda>x. JStr (g x)) xs)" for g :: "'x \<Rightarrow> string" and xs
    by (simp add: set_elements_def list_ex_iff)
  have found: "map (\<lambda>a. dget_default a ''path'' (JStr [])) (hash_directory files) = map (\<lambda>f. JStr (fst f)) files"
    by (induction files) (auto simp: hash_directory_def dget_default_def)
  have "filter (\<lambda>x. x \<notin> set (map (\<lambda>f. JStr (fst f)) files)) (remdups (map JStr (js_expected_outputs j))) = [] \<longleftrightarrow> files_present j files"
    by (auto simp: filter_empty_conv files_present_def image_iff)
  then show ?thesis
    unfolding validate_structure_role_def spec_dict_fields found
    using hashable [of "\<lambda>x. x" "js_expected_outputs j"] hashable [of fst files] by (auto simp: jstrs_def Let_def)
qed

lemma security_vote: "\<exists>r. validate_security (hash_directory files) = Inr (the_vote ''accept'' r)"
proof -
  have "rmap (\<lambda>a. text_get (JObj a) ''path'') (hash_directory files) = Inr (map fst files)"
    by (induction files) (auto simp: hash_directory_def text_get_def dget_default_def simp del: rmap_total)
  then show ?thesis by (auto simp: validate_security_def)
qed

lemma usefulness_vote:
  "\<exists>r. validate_usefulness (spec_to_dict j) (hash_directory files) = Inr (the_vote (if files \<noteq> [] then ''accept'' else ''reject'') r)"
  unfolding validate_usefulness_def spec_dict_fields by (auto simp: hash_directory_def)

lemma tests_vote: "\<exists>r. validate_tests results = the_vote (if tests_fine results then ''accept'' else ''reject'') r"
  by (auto simp: validate_tests_def tests_fine_def Let_def)

lemma policy_vote: "\<exists>r. validate_policy (spec_to_dict j) = Inr (the_vote (if policy_fine j then ''accept'' else ''reject'') r)"
  unfolding validate_policy_def spec_dict_fields by (auto simp: policy_fine_def)

lemma accept_if [simp]: "((if b then ''accept'' else ''reject'') = ''accept'') = b"
  by simp

lemma run_default:
  assumes "validate_structure_role show_set spec artifacts = Inr (the_vote v1 r1)" "validate_security artifacts = Inr (the_vote v2 r2)"
    "validate_usefulness spec artifacts = Inr (the_vote v3 r3)" "validate_tests results = the_vote v4 r4" "validate_policy spec = Inr (the_vote v5 r5)"
  shows "\<exists>votes s'. run_validators show_set spec artifacts results (validator_set_init ids) = (Inr votes, s') \<and>
     map accepts votes = map (\<lambda>v. v = ''accept'') [v1, v2, v3, v4, v5] \<and> list_all (\<lambda>v. dget v ''reason'' \<noteq> None) votes"
proof -
  define ids' where "ids' = vs_ids (validator_set_init ids)"
  have vs: "vs_validators (add_default_validators (validator_set_init ids)) =
      map (\<lambda>(i, role). \<lparr>va_id = ids' ! (i mod length ids'), va_role = role\<rparr>) (enumerate 0 DEFAULT_ROLES)"
    by (simp add: add_default_validators_def ids'_def validator_set_init_def)
  have ne: "vs_validators (validator_set_init ids) = []" by (simp add: validator_set_init_def)
  show ?thesis
    unfolding run_validators_def Let_def ne vs
    by (simp add: vs DEFAULT_ROLES_def validate_def assms del: rmap_total)
qed

lemma default_votes:
  "\<exists>votes s'. run_validators show_set (spec_to_dict j) (hash_directory files) results (validator_set_init ids) = (Inr votes, s') \<and>
     map accepts votes = [files_present j files, True, files \<noteq> [], tests_fine results, policy_fine j] \<and>
     list_all (\<lambda>v. dget v ''reason'' \<noteq> None) votes"
proof -
  obtain r1 r2 r3 r4 r5 where r:
    "validate_structure_role show_set (spec_to_dict j) (hash_directory files) = Inr (the_vote (if files_present j files then ''accept'' else ''reject'') r1)"
    "validate_security (hash_directory files) = Inr (the_vote ''accept'' r2)"
    "validate_usefulness (spec_to_dict j) (hash_directory files) = Inr (the_vote (if files \<noteq> [] then ''accept'' else ''reject'') r3)"
    "validate_tests results = the_vote (if tests_fine results then ''accept'' else ''reject'') r4"
    "validate_policy (spec_to_dict j) = Inr (the_vote (if policy_fine j then ''accept'' else ''reject'') r5)"
    using structure_vote security_vote usefulness_vote tests_vote policy_vote by metis
  from run_default [OF r, of ids] show ?thesis unfolding list.map accept_if simp_thms(6) .
qed

lemma vote_counts:
  assumes "map accepts votes = bs"
  shows "length votes = length bs" and "length (filter accepts votes) = length (filter id bs)"
  using assms by (auto simp: filter_map comp_def)

text \<open>
  Compiling, building and validating compose: for any specification, files and test results the default
  validators all vote, and the default consensus accepts the job exactly when at most one of the
  four checks fails: expected files present, some output, tests passed, policy respected.
\<close>

theorem default_validation_outcome:
  "\<exists>votes s' c. run_validators show_set (spec_to_dict j) (hash_directory files) results (validator_set_init ids) = (Inr votes, s') \<and>
     evaluate DEFAULT_THRESHOLD votes = Inr c \<and>
     (cn_result c = ''accepted'' \<longleftrightarrow>
       length (filter Not [files_present j files, files \<noteq> [], tests_fine results, policy_fine j]) \<le> 1)"
proof -
  from default_votes [of show_set j files results ids] obtain votes s' where
    v: "run_validators show_set (spec_to_dict j) (hash_directory files) results (validator_set_init ids) = (Inr votes, s')"
      "map accepts votes = [files_present j files, True, files \<noteq> [], tests_fine results, policy_fine j]"
      "list_all (\<lambda>v. dget v ''reason'' \<noteq> None) votes" by (elim exE conjE) (rule that)
  note yes = vote_counts [OF v(2)]
  then have len: "length votes = 5" by simp
  have "length votes < 2 ^ 49" using len by simp
  from evaluate_default [OF v(3) this] obtain c where c: "evaluate DEFAULT_THRESHOLD votes = Inr c"
    "cn_result c = ''accepted'' \<longleftrightarrow> votes \<noteq> [] \<and> 2 * length votes \<le> 3 * length (filter accepts votes)" by blast
  have "cn_result c = ''accepted'' \<longleftrightarrow>
      length (filter Not [files_present j files, files \<noteq> [], tests_fine results, policy_fine j]) \<le> 1"
    unfolding c(2) yes(2) using len by auto
  with v(1) c(1) show ?thesis by blast
qed

text \<open>A policy violation alone does not stop a job: four of five votes are enough.\<close>

lemma policy_veto_is_outvoted:
  assumes "files_present j files" and "files \<noteq> []" and "tests_fine results" and "\<not> policy_fine j"
    and "fst (run_validators show_set (spec_to_dict j) (hash_directory files) results (validator_set_init ids)) = Inr votes"
    and "evaluate DEFAULT_THRESHOLD votes = Inr c"
  shows "cn_result c = ''accepted''"
proof -
  from default_votes [of show_set j files results ids] assms(5) have
    v: "map accepts votes = [True, True, True, True, False]" "list_all (\<lambda>v. dget v ''reason'' \<noteq> None) votes" using assms(1-4) by auto
  have len: "length votes = 5" "length (filter accepts votes) = 4" using vote_counts [OF v(1)] by simp_all
  then show ?thesis using evaluate_default [OF v(2)] assms(6) by auto
qed

section \<open>Bundles are tamper evident\<close>

text \<open>The text that is hashed.\<close>

definition canonical :: "json dict \<Rightarrow> string" where
  "canonical bundle = dumps False True (JObj (filter (\<lambda>(k, v). k \<noteq> ''root_hash'') bundle))"

lemma filter_other_keys: "k \<notin> set (dkeys d) \<Longrightarrow> filter (\<lambda>(j, v). j \<noteq> k) d = d"
  by (induction d) auto

lemma verify_bundle_valid:
  "b \<noteq> [] \<Longrightarrow> bc_valid (verify_bundle b kept) \<longleftrightarrow> dget b ''root_hash'' = Some (JStr (''sha256:'' @ sha256_hex (canonical b)))"
  by (auto simp: verify_bundle_def Let_def compute_root_hash_def text_hash_def canonical_def dget_default_def split: option.splits)

lemma built_bundle:
  "\<exists>body. fst (build_bundle chat job container artifacts y c st rt) = body @ [(''root_hash'', JStr (compute_root_hash body))] \<and>
     ''root_hash'' \<notin> set (dkeys body) \<and> dget body ''consensus'' = Some (JObj c) \<and> dget body ''yield'' = Some (JObj y)"
proof -
  let ?body = "bundle_body chat job container artifacts y c st (rt_now rt)"
  have "''root_hash'' \<notin> set (dkeys ?body)" by (simp add: bundle_body_def)
  then show ?thesis
    by (intro exI [of _ ?body]) (simp add: build_bundle_def time_time_def Let_def dset_fresh, simp add: bundle_body_def)
qed

lemma built_root:
  assumes "b = fst (build_bundle chat job container artifacts y c st rt)"
  shows "dget b ''root_hash'' = Some (JStr (''sha256:'' @ sha256_hex (canonical b))) \<and> b \<noteq> []"
proof -
  obtain body where body: "b = body @ [(''root_hash'', JStr (compute_root_hash body))]" "''root_hash'' \<notin> set (dkeys body)"
    using built_bundle [of chat job container artifacts y c st rt] assms(1) by auto
  note id = filter_other_keys [OF body(2)]
  have can: "canonical b = dumps False True (JObj body)" unfolding canonical_def body(1) by (simp add: id)
  have "dget body ''root_hash'' = None" using body(2) by (rule dget_None_key [THEN iffD2])
  then have "dget b ''root_hash'' = Some (JStr (compute_root_hash body))" by (simp add: body(1) map_add_def)
  moreover have "compute_root_hash body = ''sha256:'' @ sha256_hex (canonical b)"
    unfolding compute_root_hash_def text_hash_def can id ..
  ultimately have "dget b ''root_hash'' = Some (JStr (''sha256:'' @ sha256_hex (canonical b)))" by simp
  with body(1) show ?thesis by simp
qed

lemma built_bundle_valid: "bc_valid (verify_bundle (fst (build_bundle chat job container artifacts y c st rt)) kept)"
  using built_root [OF refl] verify_bundle_valid by blast

text \<open>
  C23. A bundle proves its contents: every bundle that is built verifies, and another bundle that verifies with
  the same root hash has the same canonical text apart from the hash, or the two texts are a collision
  of SHA-256.
\<close>

theorem bundle_proves_contents:
  assumes "b = fst (build_bundle chat job container artifacts y c st rt)"
    and "bc_valid (verify_bundle b' kept)" and "b' \<noteq> []" and "dget b' ''root_hash'' = dget b ''root_hash''"
  shows "bc_valid (verify_bundle b kept) \<and>
    (canonical b' = canonical b \<or> canonical b' \<noteq> canonical b \<and> sha256_hex (canonical b') = sha256_hex (canonical b))"
proof -
  from built_root [OF assms(1)] have root: "dget b ''root_hash'' = Some (JStr (''sha256:'' @ sha256_hex (canonical b)))" and "b \<noteq> []" by simp_all
  then have "bc_valid (verify_bundle b kept)" using verify_bundle_valid by blast
  moreover have "sha256_hex (canonical b') = sha256_hex (canonical b)"
    using assms(2-4) verify_bundle_valid [of b' kept] root by simp
  ultimately show ?thesis by blast
qed

text \<open>The archive of a built bundle holds the bundle and every hashed file that is still in the directory of the job.\<close>

lemma export_packs_files:
  assumes "\<forall>(p, b) \<in> set files. job_dir p = Some (File_entry b)" and "kept = fst (build_bundle chat job container (hash_directory files) y c st rt)"
  shows "\<exists>entries. export_zip job_dir kept = Inr entries \<and> hd entries = (''proof.json'', Proof_entry kept) \<and>
    (\<forall>(p, b) \<in> set files. (p, Copied_entry (File_entry b)) \<in> set entries)"
proof -
  have kept: "dget kept ''artifacts'' = Some (JList (map JObj (hash_directory files)))" "dget kept ''job'' = Some (JObj job)"
    by (simp_all add: assms(2) build_bundle_def bundle_body_def case_prod_beta Let_def)
  have packed: "rmap (packed_artifact job_dir) (map JObj (hash_directory files)) = Inr (map (\<lambda>(p, b). [(p, Copied_entry (File_entry b))]) files)"
    using assms(1) by (induction files) (auto simp: hash_directory_def packed_artifact_def item_text_def)
  show ?thesis
    using kept by (auto simp: export_zip_def dget_default_def packed sub_object_def Let_def split: option.splits)
qed

text \<open>
  A preview offers a settlement exactly when the consensus of the bundle accepted the job, whatever the
  score.
\<close>

lemma preview_follows_consensus:
  assumes "settlement_preview bundle = Inr p"
  shows "pw_settlable p \<longleftrightarrow> (\<exists>c. sub_object bundle ''consensus'' = Inr c \<and> dget c ''result'' = Some (JStr ''accepted''))"
  using assms
  by (cases "sub_object bundle ''yield''"; cases "sub_object bundle ''consensus''"; cases "num_lt (dget_default (projr (sub_object bundle ''yield'')) ''total_score'' (JInt 0)) (JInt 60)")
     (auto simp: settlement_preview_def Let_def split: if_splits)

section \<open>The root hash of a directory\<close>

lemma directory_hashes: "rmap (\<lambda>a. item_text a ''sha256'') (hash_directory files) = Inr (map (\<lambda>f. hash_file (snd f)) files)"
  by (induction files) (auto simp: hash_directory_def item_text_def simp del: rmap_total)

lemma hash_job_outputs_root:
  "\<exists>o1. hash_job_outputs files = Inr o1 \<and> ob_root_hash o1 = text_hash (concat (sort (map (\<lambda>f. hash_file (snd f)) files)))"
  by (simp add: hash_job_outputs_def root_hash_def Let_def directory_hashes del: rmap_total)

lemma concat_equal_lengths:
  assumes "concat xs = concat ys" and "\<forall>x \<in> set xs. length x = n" and "\<forall>y \<in> set ys. length y = n" and "0 < n"
  shows "xs = ys"
  using assms
proof (induction xs arbitrary: ys)
  case Nil
  then show ?case by (cases ys) auto
next
  case (Cons x xs)
  then obtain y ys' where ys: "ys = y # ys'" by (cases ys) auto
  with Cons.prems have "x = y \<and> concat xs = concat ys'" by (simp add: append_eq_append_conv)
  with Cons ys show ?case by simp
qed

lemma length_hash_file: "length (hash_file b) = 71"
  by (simp add: hash_file_def)

text \<open>
  The root hash of a job's outputs depends only on the contents of its files and not on the order of the
  directory walk, and it commits to them: two directories with one root hash have the same file hashes
  with the same multiplicities, or the two hashed texts are a collision of SHA-256.
\<close>

theorem root_hash_commits:
  assumes "hash_job_outputs files = Inr o1" and "hash_job_outputs files' = Inr o2"
  defines "hs \<equiv> sort (map (\<lambda>f. hash_file (snd f)) files)" and "hs' \<equiv> sort (map (\<lambda>f. hash_file (snd f)) files')"
  shows "(mset (map snd files) = mset (map snd files') \<longrightarrow> ob_root_hash o1 = ob_root_hash o2) \<and>
    (ob_root_hash o1 = ob_root_hash o2 \<longrightarrow>
      mset (map (\<lambda>f. hash_file (snd f)) files) = mset (map (\<lambda>f. hash_file (snd f)) files') \<or>
      concat hs \<noteq> concat hs' \<and> sha256_hex (concat hs) = sha256_hex (concat hs'))"
proof -
  have roots: "ob_root_hash o1 = text_hash (concat hs)" "ob_root_hash o2 = text_hash (concat hs')"
    using assms(1,2) hash_job_outputs_root [of files] hash_job_outputs_root [of files'] unfolding hs_def hs'_def by auto
  have hs: "hs = sorted_list_of_multiset (image_mset hash_file (mset (map snd files)))"
    "hs' = sorted_list_of_multiset (image_mset hash_file (mset (map snd files')))"
    unfolding hs_def hs'_def sorted_list_of_multiset_mset [symmetric] by (simp_all add: multiset.map_comp comp_def)
  have ms: "mset hs = mset (map (\<lambda>f. hash_file (snd f)) files)" "mset hs' = mset (map (\<lambda>f. hash_file (snd f)) files')"
    unfolding hs_def hs'_def by simp_all
  have len: "\<forall>h \<in> set hs. length h = 71" "\<forall>h \<in> set hs'. length h = 71"
    unfolding hs_def hs'_def by (auto simp: length_hash_file)
  have "mset hs = mset hs'" if "concat hs = concat hs'" using concat_equal_lengths [OF that len] by simp
  moreover have "hs = hs'" if "mset (map snd files) = mset (map snd files')" using hs that by simp
  ultimately show ?thesis unfolding roots ms [symmetric] text_hash_def by blast
qed

text \<open>Renaming files goes unnoticed: the paths are not hashed.\<close>

lemma root_hash_ignores_paths:
  assumes "hash_job_outputs files = Inr o1" and "hash_job_outputs (map (\<lambda>(p, b). (g p, b)) files) = Inr o2"
  shows "ob_root_hash o1 = ob_root_hash o2"
  using assms hash_job_outputs_root [of files] hash_job_outputs_root [of "map (\<lambda>(p, b). (g p, b)) files"]
  by (auto simp: comp_def case_prod_beta)

section \<open>Concrete inputs\<close>

theorem root_hash_commits_witness:
  "\<exists>o1 o2. hash_job_outputs [(''a'', [1]), (''b'', [2])] = Inr o1 \<and> hash_job_outputs [(''b'', [2]), (''a'', [1])] = Inr o2 \<and>
    ob_root_hash o1 = ob_root_hash o2"
proof -
  let ?f = "[(''a'', [1]), (''b'', [2])] :: (string \<times> bytes) list" and ?g = "[(''b'', [2]), (''a'', [1])] :: (string \<times> bytes) list"
  obtain o1 where o1: "hash_job_outputs ?f = Inr o1" using hash_job_outputs_root by blast
  obtain o2 where o2: "hash_job_outputs ?g = Inr o2" using hash_job_outputs_root by blast
  from root_hash_commits [OF o1 o2] have "ob_root_hash o1 = ob_root_hash o2" by (simp add: add_mset_commute)
  with o1 o2 show ?thesis by blast
qed

theorem bundle_proves_contents_witness:
  "let b = fst (build_bundle [] [] [] [] [] [(''result'', JStr ''accepted'')] [] sample_rt) in bc_valid (verify_bundle b []) \<and> b \<noteq> []"
proof -
  let ?b = "fst (build_bundle [] [] [] [] [] [(''result'', JStr ''accepted'')] [] sample_rt)"
  obtain body where body: "?b = body @ [(''root_hash'', JStr (compute_root_hash body))]" "''root_hash'' \<notin> set (dkeys body)"
    using built_bundle [of "[]" "[]" "[]" "[]" "[]" "[(''result'', JStr ''accepted'')]" "[]" sample_rt] by blast
  have ne: "?b \<noteq> []" unfolding body(1) by simp
  note id = filter_other_keys [OF body(2)]
  have "dget body ''root_hash'' = None" using body(2) by (rule dget_None_key [THEN iffD2])
  then have "bc_valid (verify_bundle ?b [])" unfolding verify_bundle_valid [OF ne] unfolding body(1)
    by (simp add: canonical_def id map_add_def compute_root_hash_def text_hash_def)
  from bundle_proves_contents [OF refl this ne refl] ne show ?thesis unfolding Let_def by blast
qed

end
