(* ===== verification/Yield_Meter.thy ===== *)
theory Yield_Meter
  imports Proof_Of_Job
begin

text \<open>
  \<open>membra_sdk/job/yield_meter.py\<close>: the four kinds of yield of a job and its report. Scores are Python numbers, which
  are integers or floats depending on the branch taken, so they stay JSON numbers here. The
  properties show that all scores are bounded, and that a job without external receipts is never settled.
\<close>

section \<open>The report\<close>

record yield_report =
  yr_artifact_yield :: json
  yr_validation_yield :: json
  yr_market_yield :: json
  yr_chain_yield :: json
  yr_total_score :: json
  yr_files_created :: int
  yr_tests_passed :: int
  yr_tests_total :: int
  yr_lint_passed :: bool
  yr_security_flags :: int
  yr_economic_status :: string
  yr_real_revenue :: json

definition yield_to_dict :: "yield_report \<Rightarrow> json dict" where
  "yield_to_dict r = [(''artifact_yield'', yr_artifact_yield r), (''validation_yield'', yr_validation_yield r),
     (''market_yield'', yr_market_yield r), (''chain_yield'', yr_chain_yield r), (''total_score'', yr_total_score r),
     (''files_created'', JInt (yr_files_created r)), (''tests_passed'', JInt (yr_tests_passed r)), (''tests_total'', JInt (yr_tests_total r)),
     (''lint_passed'', JBool (yr_lint_passed r)), (''security_flags'', JInt (yr_security_flags r)),
     (''economic_status'', JStr (yr_economic_status r)), (''real_revenue'', yr_real_revenue r)]"

section \<open>The scores\<close>

definition score_artifact_yield :: "json dict list \<Rightarrow> json result" where
  "score_artifact_yield artifacts = (if artifacts = [] then Inr (JFloat (Fin 0))
     else let count = int (length artifacts) in
       rbind (num_sum (JInt 0) (map (\<lambda>a. dget_default a ''bytes'' (JInt 0)) artifacts)) (\<lambda>total_bytes.
       rbind (num_div total_bytes (JInt 10000)) (\<lambda>q. rbind (num_min (JInt 20) q) (\<lambda>m.
       rbind (num_add (JInt (20 * count)) m) (\<lambda>s. rbind (num_min (JInt 100) s) (\<lambda>score. num_round score 1))))))"

definition score_validation_yield :: "int \<Rightarrow> int \<Rightarrow> bool \<Rightarrow> int \<Rightarrow> json result" where
  "score_validation_yield tests_passed tests_total lint_passed security_flags =
     rbind (if tests_total = 0 then Inr (JInt 50)
            else rbind (num_div (JInt tests_passed) (JInt tests_total)) (\<lambda>q. num_mul q (JInt 100))) (\<lambda>test_score.
       let lint_bonus = (if lint_passed then 10 else 0); security_penalty = min 50 (security_flags * 10) in
       rbind (num_add test_score (JInt lint_bonus)) (\<lambda>s. rbind (num_sub s (JInt security_penalty)) (\<lambda>score.
       rbind (num_round score 1) (\<lambda>r. num_max (JInt 0) r))))"

definition confirmed_total :: "json dict list \<Rightarrow> json result" where
  "confirmed_total receipts = num_sum (JInt 0)
     (map (\<lambda>r. dget_default r ''amount'' (JInt 0)) (filter (\<lambda>r. dget r ''status'' = Some (JStr ''confirmed'')) receipts))"

definition score_market_yield :: "json dict list \<Rightarrow> json result" where
  "score_market_yield receipts = (if receipts = [] then Inr (JFloat (Fin 0))
     else rbind (confirmed_total receipts) (\<lambda>total. rbind (num_div total (JInt 2)) (\<lambda>h.
       rbind (num_min (JInt 100) h) (\<lambda>score. num_round score 1))))"

definition score_chain_yield :: "json dict list \<Rightarrow> json result" where
  "score_chain_yield receipts = (if receipts = [] then Inr (JFloat (Fin 0))
     else let confirmed = filter (\<lambda>r. dtruthy r ''confirmed'') receipts in
       rbind (num_min (JInt 100) (JInt (int (length confirmed) * 25))) (\<lambda>score. num_round score 1))"

definition weighted :: "json \<Rightarrow> rat \<Rightarrow> json result" where
  "weighted score w = num_mul score (JFloat (mkf w))"

definition total_of :: "json \<Rightarrow> json \<Rightarrow> json \<Rightarrow> json \<Rightarrow> json result" where
  "total_of artifact validation market chain =
     rbind (weighted artifact (35 / 100)) (\<lambda>a. rbind (weighted validation (35 / 100)) (\<lambda>v.
     rbind (num_add a v) (\<lambda>av. rbind (weighted market (15 / 100)) (\<lambda>m. rbind (num_add av m) (\<lambda>avm.
     rbind (weighted chain (15 / 100)) (\<lambda>c. num_add avm c))))))"

definition measure_yield :: "json dict list \<Rightarrow> int \<Rightarrow> int \<Rightarrow> bool \<Rightarrow> int \<Rightarrow> json dict list \<Rightarrow> json dict list \<Rightarrow> yield_report result" where
  "measure_yield artifacts tests_passed tests_total lint_passed security_flags market_receipts chain_receipts =
     rbind (score_artifact_yield artifacts) (\<lambda>artifact.
     rbind (score_validation_yield tests_passed tests_total lint_passed security_flags) (\<lambda>validation.
     rbind (score_market_yield market_receipts) (\<lambda>market.
     rbind (score_chain_yield chain_receipts) (\<lambda>chain.
     rbind (total_of artifact validation market chain) (\<lambda>total.
     rbind (confirmed_total market_receipts) (\<lambda>real_revenue.
     rbind (num_round total 1) (\<lambda>total_score.
     rbind (num_lt (JInt 0) real_revenue) (\<lambda>settled.
       Inr \<lparr>yr_artifact_yield = artifact, yr_validation_yield = validation, yr_market_yield = market, yr_chain_yield = chain,
         yr_total_score = total_score, yr_files_created = int (length artifacts), yr_tests_passed = tests_passed,
         yr_tests_total = tests_total, yr_lint_passed = lint_passed, yr_security_flags = security_flags,
         yr_economic_status = (if settled then ''settled'' else ''unsettled''), yr_real_revenue = real_revenue\<rparr>))))))))"

section \<open>Numbers between bounds\<close>

text \<open>A number, integer or float, that is finite and lies between two bounds.\<close>

definition in_range :: "rat \<Rightarrow> rat \<Rightarrow> json \<Rightarrow> bool" where
  "in_range lo hi v \<longleftrightarrow> (case v of JInt n \<Rightarrow> lo \<le> of_int n \<and> of_int n \<le> hi
     | JFloat (Fin a) \<Rightarrow> lo \<le> a \<and> a \<le> hi | _ \<Rightarrow> False)"

lemma half_int_bounds [simp]:
  "half_int 0" "half_int 1" "half_int 10" "half_int 20" "half_int 35" "half_int 15" "half_int 50" "half_int (- 50)" "half_int 100" "half_int 110"
  "half_int (77 / 2)" "half_int (147 / 2)" "half_int (177 / 2)" "half_int (207 / 2)"
  by (rule half_intI [of _ 0], simp_all, rule half_intI [of _ 2], simp_all, rule half_intI [of _ 20], simp_all,
      rule half_intI [of _ 40], simp_all, rule half_intI [of _ 70], simp_all, rule half_intI [of _ 30], simp_all,
      rule half_intI [of _ 100], simp_all, rule half_intI [of _ "- 100"], simp_all, rule half_intI [of _ 200], simp_all,
      rule half_intI [of _ 220], simp_all, rule half_intI [of _ 77], simp_all, rule half_intI [of _ 147], simp_all,
      rule half_intI [of _ 177], simp_all, rule half_intI [of _ 207], simp_all)

lemma in_range_cases:
  assumes "in_range lo hi v"
  obtains n where "v = JInt n" "lo \<le> of_int n" "of_int n \<le> hi" | a where "v = JFloat (Fin a)" "lo \<le> a" "a \<le> hi"
  using assms by (auto simp: in_range_def split: json.splits pyfloat.splits)

lemma in_range_simps [simp]: "in_range lo hi (JInt n) \<longleftrightarrow> lo \<le> of_int n \<and> of_int n \<le> hi"
  "in_range lo hi (JFloat (Fin a)) \<longleftrightarrow> lo \<le> a \<and> a \<le> hi"
  by (simp_all add: in_range_def)

lemma in_range_mono: "in_range lo hi v \<Longrightarrow> lo' \<le> lo \<Longrightarrow> hi \<le> hi' \<Longrightarrow> in_range lo' hi' v"
  by (erule in_range_cases) auto

text \<open>What mixed arithmetic computes on numbers with bounds that are floats.\<close>

lemma in_range_float:
  assumes "in_range lo hi v" "half_int lo" "half_int hi"
  shows "\<exists>r. num_float v = Inr (Fin r) \<and> num_of v = Inr v \<and> lo \<le> r \<and> r \<le> hi"
  using assms(1)
proof (cases rule: in_range_cases)
  case (1 n)
  from mkf_between [OF assms(2,3) 1(2,3)] obtain r where "mkf (of_int n) = Fin r" "lo \<le> r" "r \<le> hi" by blast
  with 1 show ?thesis by (simp add: of_pyint_def)
qed simp

lemma in_range_op:
  assumes v: "in_range a b v" "half_int a" "half_int b" and w: "in_range c d w" "half_int c" "half_int d"
    and i: "\<And>m n. v = JInt m \<Longrightarrow> w = JInt n \<Longrightarrow> in_range lo hi (JInt (f m n))"
    and g: "\<And>x y. a \<le> x \<Longrightarrow> x \<le> b \<Longrightarrow> c \<le> y \<Longrightarrow> y \<le> d \<Longrightarrow> \<exists>r. g (Fin x) (Fin y) = Fin r \<and> lo \<le> r \<and> r \<le> hi"
  shows "\<exists>z. num_op f g v w = Inr z \<and> in_range lo hi z"
proof -
  obtain x where x: "num_float v = Inr (Fin x)" "num_of v = Inr v" "a \<le> x" "x \<le> b" using in_range_float [OF v] by blast
  obtain y where y: "num_float w = Inr (Fin y)" "num_of w = Inr w" "c \<le> y" "y \<le> d" using in_range_float [OF w] by blast
  obtain r where r: "g (Fin x) (Fin y) = Fin r" "lo \<le> r" "r \<le> hi" using g [OF x(3,4) y(3,4)] by blast
  show ?thesis
  proof (cases "\<exists>m n. v = JInt m \<and> w = JInt n")
    case True
    then show ?thesis using i by (auto simp: num_op_def)
  next
    case False
    then have "num_op f g v w = Inr (JFloat (Fin r))"
      using x y r(1) by (cases v; cases w) (simp_all add: num_op_def)
    with r show ?thesis by simp
  qed
qed

lemma in_range_add:
  assumes v: "in_range a b v" "half_int a" "half_int b" and w: "in_range c d w" "half_int c" "half_int d"
    and s: "half_int (a + c)" "half_int (b + d)"
  shows "\<exists>z. num_add v w = Inr z \<and> in_range (a + c) (b + d) z"
  unfolding num_add_def
proof (rule in_range_op [OF v w])
  fix x y assume "a \<le> x" "x \<le> b" "c \<le> y" "y \<le> d"
  then show "\<exists>r. fadd (Fin x) (Fin y) = Fin r \<and> a + c \<le> r \<and> r \<le> b + d" using mkf_between [OF s, of "x + y"] by simp
qed (use v(1) w(1) in auto)

lemma in_range_sub:
  assumes v: "in_range a b v" "half_int a" "half_int b" and w: "in_range c d w" "half_int c" "half_int d"
    and s: "half_int (a - d)" "half_int (b - c)"
  shows "\<exists>z. num_sub v w = Inr z \<and> in_range (a - d) (b - c) z"
  unfolding num_sub_def
proof (rule in_range_op [OF v w])
  fix x y assume "a \<le> x" "x \<le> b" "c \<le> y" "y \<le> d"
  then show "\<exists>r. fsub (Fin x) (Fin y) = Fin r \<and> a - d \<le> r \<and> r \<le> b - c" using mkf_between [OF s, of "x - y"] by (simp add: fsub_def)
qed (use v(1) w(1) in auto)

lemma in_range_round:
  assumes v: "in_range lo hi v" "half_int lo" "half_int hi"
  shows "\<exists>z. num_round v 1 = Inr z \<and> in_range lo hi z"
  using v(1)
proof (cases rule: in_range_cases)
  case (1 n)
  then show ?thesis by (simp add: num_round_def)
next
  case (2 a)
  have k: "half_int h \<Longrightarrow> \<exists>k. h * 10 = of_int k" for h :: rat
  proof -
    assume "half_int h"
    then obtain j where "2 * h = of_int j" by (auto simp: half_int_def)
    then have "h * 10 = of_int (5 * j)" by simp
    then show ?thesis by blast
  qed
  obtain k l where kl: "lo * 10 = of_int k" "hi * 10 = of_int l" using k v(2,3) by blast
  have "of_int k \<le> a * 10" "a * 10 \<le> of_int l" using 2 kl by linarith+
  then have "k \<le> rhe (a * 10)" "rhe (a * 10) \<le> l" by (auto intro: rhe_ge_int rhe_le_int)
  then have "of_int k \<le> (of_int (rhe (a * 10)) :: rat)" "(of_int (rhe (a * 10)) :: rat) \<le> of_int l" by simp_all
  then have "lo \<le> of_int (rhe (a * 10)) / 10" "of_int (rhe (a * 10)) / 10 \<le> hi" using kl by linarith+
  from mkf_between [OF v(2,3) this] 2(1) show ?thesis by (auto simp: num_round_def)
qed

section \<open>The scores are bounded\<close>

text \<open>The smaller of 100 and a number that is not negative, also an infinite one.\<close>

lemma min_bounded:
  assumes "0 \<le> c" and "fle (Fin 0) (num_key v)" and "num_of v = Inr v"
  shows "\<exists>z. num_min (JInt c) v = Inr z \<and> in_range 0 (of_int c) z"
  using assms by (cases v rule: num_key.cases; cases "num_key v") (auto simp: num_min_def num_lt_def in_range_def)

lemma in_range_num: "in_range lo hi v \<Longrightarrow> num_of v = Inr v \<and> (0 \<le> lo \<longrightarrow> fle (Fin 0) (num_key v))"
  by (erule in_range_cases) auto

lemma num_sum_ints: "num_sum (JInt a) (map JInt ns) = Inr (JInt (a + sum_list ns))"
  by (induction ns arbitrary: a) (simp_all add: add.assoc)

lemma artifact_yield_bounded:
  assumes "sum_list (map (\<lambda>f. int (length (snd f))) files) \<le> 2 ^ 53" and "int (length files) \<le> 2 ^ 40"
  shows "\<exists>z. score_artifact_yield (hash_directory files) = Inr z \<and> in_range 0 100 z"
proof (cases "files = []")
  case True
  then show ?thesis by (simp add: score_artifact_yield_def hash_directory_def)
next
  case False
  let ?n = "sum_list (map (\<lambda>f. int (length (snd f))) files)"
  have n: "0 \<le> ?n" by (intro sum_list_nonneg) auto
  have "map (\<lambda>a. dget_default a ''bytes'' (JInt 0)) (hash_directory files) = map JInt (map (\<lambda>f. int (length (snd f))) files)"
    by (auto simp: hash_directory_def dget_default_def)
  then have total: "num_sum (JInt 0) (map (\<lambda>a. dget_default a ''bytes'' (JInt 0)) (hash_directory files)) = Inr (JInt ?n)"
    using num_sum_ints [of 0 "map (\<lambda>f. int (length (snd f))) files"] by simp
  have div: "num_div (JInt ?n) (JInt 10000) = Inr (JFloat (Fin (rnd (of_int ?n / of_int 10000))))"
    using truediv_small [of 10000 ?n] n assms(1) by (simp add: num_div_def)
  have "0 \<le> rnd (of_int ?n / of_int 10000)" using n by (intro rnd_nonneg) simp
  then obtain m where m: "num_min (JInt 20) (JFloat (Fin (rnd (of_int ?n / of_int 10000)))) = Inr m" "in_range 0 20 m"
    using min_bounded [of 20 "JFloat (Fin (rnd (of_int ?n / of_int 10000)))"] by auto
  let ?c = "20 * int (length files)"
  have c: "half_int (of_int ?c)" "half_int (of_int ?c + 20)" using assms(2) half_int_of_int [of ?c] half_int_of_int [of "?c + 20"] by simp_all
  obtain s where s: "num_add (JInt ?c) m = Inr s" "in_range (of_int ?c + 0) (of_int ?c + 20) s"
    using in_range_add [of "of_int ?c" "of_int ?c" "JInt ?c" 0 20 m] c m(2) by (auto simp del: of_int_mult of_int_of_nat_eq)
  obtain z where z: "num_min (JInt 100) s = Inr z" "in_range 0 100 z"
    using min_bounded [of 100 s] in_range_num [OF s(2)] by auto
  obtain r where "num_round z 1 = Inr r" "in_range 0 100 r" using in_range_round [OF z(2)] by auto
  with False total div m s z show ?thesis by (simp add: score_artifact_yield_def hash_directory_def Let_def)
qed

lemma validation_yield_bounded:
  assumes "0 \<le> p" "p \<le> t" "t \<le> 2 ^ 53" "0 \<le> flags"
  shows "\<exists>z. score_validation_yield p t lint flags = Inr z \<and> in_range 0 110 z"
proof -
  have "\<exists>s. (if t = 0 then Inr (JInt 50) else rbind (num_div (JInt p) (JInt t)) (\<lambda>q. num_mul q (JInt 100))) = Inr s \<and> in_range 0 100 s"
  proof (cases "t = 0")
    case False
    have q: "num_div (JInt p) (JInt t) = Inr (JFloat (Fin (rnd (of_int p / of_int t))))"
      using truediv_small [of t p] False assms by (simp add: num_div_def)
    have "0 \<le> of_int p / (of_int t :: rat)" "of_int p / (of_int t :: rat) \<le> 1" using assms False by (auto simp: divide_le_eq)
    then have r: "in_range 0 1 (JFloat (Fin (rnd (of_int p / of_int t))))" using rnd_nonneg rnd_mono [of _ 1] half_int_rnd [of 1] by fastforce
    have "\<exists>z. num_mul (JFloat (Fin (rnd (of_int p / of_int t)))) (JInt 100) = Inr z \<and> in_range 0 100 z"
      unfolding num_mul_def
    proof (rule in_range_op [OF r])
      show "in_range 100 100 (JInt 100)" by simp
      show "\<exists>w. fmul (Fin x) (Fin y) = Fin w \<and> 0 \<le> w \<and> w \<le> 100" if "0 \<le> x" "x \<le> 1" "100 \<le> y" "y \<le> 100" for x y
        using mkf_between [of 0 100 "x * y"] that by simp
    qed simp_all
    with False q show ?thesis by auto
  qed simp
  then obtain s where s: "(if t = 0 then Inr (JInt 50) else rbind (num_div (JInt p) (JInt t)) (\<lambda>q. num_mul q (JInt 100))) = Inr s"
    "in_range 0 100 s" by blast
  obtain b where b: "num_add s (JInt (if lint then 10 else 0)) = Inr b" "in_range 0 110 b"
    using in_range_add [OF s(2), of 0 10 "JInt (if lint then 10 else 0)"] by (cases lint) auto
  have "0 \<le> min 50 (flags * 10)" "min 50 (flags * 10) \<le> 50" using assms(4) by simp_all
  then have "in_range 0 50 (JInt (min 50 (flags * 10)))"
    by (metis in_range_simps(1) of_int_0_le_iff of_int_le_numeral_iff)
  from in_range_sub [OF b(2) _ _ this] obtain c where c: "num_sub b (JInt (min 50 (flags * 10))) = Inr c" "in_range (- 50) 110 c" by auto
  obtain r where r: "num_round c 1 = Inr r" "in_range (- 50) 110 r" using in_range_round [OF c(2)] by auto
  have "\<exists>z. num_max (JInt 0) r = Inr z \<and> in_range 0 110 z"
    using r(2) by (cases rule: in_range_cases) (auto simp: num_max_def num_lt_def)
  with s(1) b(1) c(1) r(1) show ?thesis by (simp add: score_validation_yield_def Let_def)
qed

text \<open>The amount of a confirmed receipt is a float that is not negative, possibly infinite; other receipts may hold anything.\<close>

definition amount_ok :: "json dict \<Rightarrow> bool" where
  "amount_ok r \<longleftrightarrow> dget r ''status'' \<noteq> Some (JStr ''confirmed'') \<or>
     (case dget r ''amount'' of Some (JFloat x) \<Rightarrow> fle (Fin 0) x | _ \<Rightarrow> False)"

lemma amount_okD: "amount_ok r \<Longrightarrow> dget r ''status'' = Some (JStr ''confirmed'') \<Longrightarrow> \<exists>x. dget r ''amount'' = Some (JFloat x) \<and> fle (Fin 0) x"
  by (auto simp: amount_ok_def split: option.splits json.splits)

lemma fadd_nonneg: "fle (Fin 0) x \<Longrightarrow> fle (Fin 0) y \<Longrightarrow> fle (Fin 0) (fadd x y)"
proof (cases x; cases y)
  fix a b assume "fle (Fin 0) x" "fle (Fin 0) y" "x = Fin a" "y = Fin b"
  moreover from this have "0 \<le> rnd (a + b)" by (simp add: rnd_nonneg)
  moreover have "0 < f_overflow" by (simp add: f_overflow_def)
  ultimately show ?thesis by (auto simp: mkf_def Let_def)
qed auto

lemma num_sum_nonneg:
  assumes "list_all (\<lambda>v. \<exists>x. v = JFloat x \<and> fle (Fin 0) x) vs" and "v0 = JInt 0 \<or> (\<exists>x. v0 = JFloat x \<and> fle (Fin 0) x)"
  shows "\<exists>v. num_sum v0 vs = Inr v \<and> (v = JInt 0 \<or> (\<exists>x. v = JFloat x \<and> fle (Fin 0) x))"
  using assms
proof (induction vs arbitrary: v0)
  case (Cons w vs)
  then obtain y where y: "w = JFloat y" "fle (Fin 0) y" by auto
  have "\<exists>x. num_add v0 w = Inr (JFloat x) \<and> fle (Fin 0) x"
    using Cons.prems(2) y fadd_nonneg by (auto simp: num_add_def num_op_def of_pyint_def)
  with Cons show ?case by auto
qed simp

lemma confirmed_total_nonneg:
  assumes "list_all amount_ok receipts"
  shows "\<exists>v. confirmed_total receipts = Inr v \<and> (v = JInt 0 \<or> (\<exists>x. v = JFloat x \<and> fle (Fin 0) x))"
proof -
  have "list_all (\<lambda>v. \<exists>x. v = JFloat x \<and> fle (Fin 0) x)
      (map (\<lambda>r. dget_default r ''amount'' (JInt 0)) (filter (\<lambda>r. dget r ''status'' = Some (JStr ''confirmed'')) receipts))"
    using assms amount_okD by (fastforce simp: list_all_iff dget_default_def)
  from num_sum_nonneg [OF this, of "JInt 0"] show ?thesis by (simp add: confirmed_total_def)
qed

lemma market_yield_bounded:
  assumes "list_all amount_ok receipts"
  shows "\<exists>z. score_market_yield receipts = Inr z \<and> in_range 0 100 z"
proof (cases "receipts = []")
  case False
  obtain v where v: "confirmed_total receipts = Inr v" "v = JInt 0 \<or> (\<exists>x. v = JFloat x \<and> fle (Fin 0) x)"
    using confirmed_total_nonneg [OF assms] by blast
  have "\<exists>y. num_div v (JInt 2) = Inr (JFloat y) \<and> fle (Fin 0) y"
    using v(2)
  proof
    assume "v = JInt 0"
    then show ?thesis by (simp add: num_div_def truediv_def)
  next
    assume "\<exists>x. v = JFloat x \<and> fle (Fin 0) x"
    then obtain x where x: "v = JFloat x" "fle (Fin 0) x" by blast
    have "fle (Fin 0) (mkf (a / 2))" if "0 \<le> a" for a
      using fadd_nonneg [of "Fin (a / 2)" "Fin 0"] that by simp
    with x show ?thesis by (cases x) (auto simp: num_div_def of_pyint_def signed_inf_def)
  qed
  then obtain y where y: "num_div v (JInt 2) = Inr (JFloat y)" "fle (Fin 0) y" by blast
  obtain z where z: "num_min (JInt 100) (JFloat y) = Inr z" "in_range 0 100 z"
    using min_bounded [of 100 "JFloat y"] y(2) by auto
  obtain r where "num_round z 1 = Inr r" "in_range 0 100 r" using in_range_round [OF z(2)] by auto
  with False v(1) y(1) z(1) show ?thesis by (simp add: score_market_yield_def)
qed (simp add: score_market_yield_def)

lemma chain_yield_bounded: "\<exists>z. score_chain_yield receipts = Inr z \<and> in_range 0 100 z"
proof (cases "receipts = []")
  case False
  let ?n = "JInt (int (length (filter (\<lambda>r. dtruthy r ''confirmed'') receipts)) * 25)"
  obtain z where z: "num_min (JInt 100) ?n = Inr z" "in_range 0 100 z" using min_bounded [of 100 ?n] by auto
  obtain r where "num_round z 1 = Inr r" "in_range 0 100 r" using in_range_round [OF z(2)] by auto
  with False z(1) show ?thesis by (simp add: score_chain_yield_def Let_def)
qed (simp add: score_chain_yield_def)

lemma weight_floats: "mkf (35 / 100) = Fin (6305039478318694 * pow2 (- 54))" "mkf (15 / 100) = Fin (5404319552844595 * pow2 (- 55))"
  using mkf_eqI [of "- 54" "35 / 100" 6305039478318694] mkf_eqI [of "- 55" "15 / 100" 5404319552844595]
  by (simp_all add: pow2_def f_overflow_def)

lemma weighted_bounded:
  assumes v: "in_range 0 h v" "half_int h" and w: "mkf w = Fin w'" "0 \<le> w'" "h * w' \<le> k" and k: "half_int k"
  shows "\<exists>z. weighted v w = Inr z \<and> in_range 0 k z"
proof -
  obtain x where x: "num_float v = Inr (Fin x)" "num_of v = Inr v" "0 \<le> x" "x \<le> h" using in_range_float [OF v(1) _ v(2)] by auto
  have "x * w' \<le> k" using mult_right_mono [OF x(4) w(2)] w(3) by simp
  then obtain r where "mkf (x * w') = Fin r" "0 \<le> r" "r \<le> k" using mkf_between [of 0 k "x * w'"] x(3) w(2) k by auto
  with x w(1) show ?thesis by (cases v) (auto simp: weighted_def num_mul_def num_op_def)
qed

lemma total_bounded:
  assumes a: "in_range 0 100 a" and v: "in_range 0 110 v" and m: "in_range 0 hm m" and c: "in_range 0 hc c"
    and h: "hm * (15 / 100) \<le> km" "hc * (15 / 100) \<le> kc" "half_int hm" "half_int hc" "half_int km" "half_int kc"
      "half_int (147 / 2 + km)" "half_int (147 / 2 + km + kc)" "0 \<le> hm" "0 \<le> hc"
  shows "\<exists>z. total_of a v m c = Inr z \<and> in_range 0 (147 / 2 + km + kc) z"
proof -
  have pos: "0 \<le> pow2 e" for e by (simp add: less_imp_le)
  have w: "6305039478318694 * pow2 (- 54) \<le> 35 / 100" "5404319552844595 * pow2 (- 55) \<le> 15 / 100" by (simp_all add: pow2_def)
  obtain a' where a': "weighted a (35 / 100) = Inr a'" "in_range 0 35 a'"
    using weighted_bounded [OF a _ weight_floats(1), of 35] w pos by auto
  obtain v' where v': "weighted v (35 / 100) = Inr v'" "in_range 0 (77 / 2) v'"
    using weighted_bounded [OF v _ weight_floats(1), of "77 / 2"] w pos by auto
  have hm: "hm * (5404319552844595 * pow2 (- 55)) \<le> km" "hc * (5404319552844595 * pow2 (- 55)) \<le> kc"
    using mult_left_mono [OF w(2) h(9)] mult_left_mono [OF w(2) h(10)] h(1,2) by linarith+
  obtain m' where m': "weighted m (15 / 100) = Inr m'" "in_range 0 km m'"
    using weighted_bounded [OF m h(3) weight_floats(2) _ hm(1) h(5)] pos by auto
  obtain c' where c': "weighted c (15 / 100) = Inr c'" "in_range 0 kc c'"
    using weighted_bounded [OF c h(4) weight_floats(2) _ hm(2) h(6)] pos by auto
  obtain av where av: "num_add a' v' = Inr av" "in_range 0 (147 / 2) av"
    using in_range_add [OF a'(2) _ _ v'(2)] by auto
  obtain avm where avm: "num_add av m' = Inr avm" "in_range 0 (147 / 2 + km) avm"
    using in_range_add [OF av(2) _ _ m'(2)] h by auto
  obtain z where "num_add avm c' = Inr z" "in_range 0 (147 / 2 + km + kc) z"
    using in_range_add [OF avm(2) _ _ c'(2)] h by auto
  with a'(1) v'(1) m'(1) c'(1) av(1) avm(1) show ?thesis by (simp add: total_of_def)
qed

section \<open>Yield needs receipts\<close>

lemma zero_total:
  assumes "list_all amount_ok receipts" and "\<forall>r \<in> set receipts. dget r ''status'' = Some (JStr ''confirmed'') \<longrightarrow> dget r ''amount'' = Some (JFloat (Fin 0))"
  shows "\<exists>v. confirmed_total receipts = Inr v \<and> num_lt (JInt 0) v = Inr False"
proof -
  have "\<exists>v. num_sum v0 (map (\<lambda>r. dget_default r ''amount'' (JInt 0)) rs) = Inr v \<and> num_lt (JInt 0) v = Inr False"
    if "v0 = JInt 0 \<or> v0 = JFloat (Fin 0)" "\<forall>r \<in> set rs. dget r ''amount'' = Some (JFloat (Fin 0))" for v0 rs
    using that by (induction rs arbitrary: v0) (auto simp: num_add_def num_op_def num_lt_def of_pyint_def dget_default_def)
  then show ?thesis using assms(2) by (auto simp: confirmed_total_def)
qed

text \<open>
  C29. A job is settled by receipts and not by its scores. For the hashed outputs of a job (at most \<open>2 ^ 40\<close> files, \<open>2 ^ 53\<close> bytes
  together), test counts with \<open>0 \<le> passed \<le> tests \<le> 2 ^ 53\<close>, a count of flags that is not negative, and market receipts of which the
  confirmed ones have a float amount that is not negative, measuring never raises, every score stays within its bounds (the total
  at most 103.5), and the report says settled only if a confirmed receipt carries a positive amount; without any receipts
  the total is at most 73.5 and the market and chain yields are zero. The code accepts other counts and amounts, and then the bounds
  fail (the lemmas after the witness).
\<close>

theorem yield_needs_receipts:
  assumes "sum_list (map (\<lambda>f. int (length (snd f))) files) \<le> 2 ^ 53" and "int (length files) \<le> 2 ^ 40"
    and "0 \<le> passed" "passed \<le> tests" "tests \<le> 2 ^ 53" "0 \<le> flags" and "list_all amount_ok market"
  shows "\<exists>r. measure_yield (hash_directory files) passed tests lint flags market chain = Inr r \<and>
    in_range 0 100 (yr_artifact_yield r) \<and> in_range 0 110 (yr_validation_yield r) \<and> in_range 0 100 (yr_market_yield r) \<and>
    in_range 0 100 (yr_chain_yield r) \<and> in_range 0 (207 / 2) (yr_total_score r) \<and>
    (yr_economic_status r = ''settled'' \<longrightarrow> (\<exists>m x. m \<in> set market \<and> dget m ''status'' = Some (JStr ''confirmed'') \<and>
       dget m ''amount'' = Some (JFloat x) \<and> flt (Fin 0) x)) \<and>
    (market = [] \<and> chain = [] \<longrightarrow> yr_market_yield r = JFloat (Fin 0) \<and> yr_chain_yield r = JFloat (Fin 0) \<and>
       in_range 0 (147 / 2) (yr_total_score r))"
proof -
  obtain a where a: "score_artifact_yield (hash_directory files) = Inr a" "in_range 0 100 a"
    using artifact_yield_bounded [OF assms(1,2)] by blast
  obtain v where v: "score_validation_yield passed tests lint flags = Inr v" "in_range 0 110 v"
    using validation_yield_bounded [OF assms(3-6)] by blast
  obtain m where m: "score_market_yield market = Inr m" "in_range 0 100 m" using market_yield_bounded [OF assms(7)] by blast
  obtain c where c: "score_chain_yield chain = Inr c" "in_range 0 100 c" using chain_yield_bounded by blast
  obtain w where w: "confirmed_total market = Inr w" "w = JInt 0 \<or> (\<exists>x. w = JFloat x \<and> fle (Fin 0) x)"
    using confirmed_total_nonneg [OF assms(7)] by blast
  obtain z where z: "total_of a v m c = Inr z" "in_range 0 (207 / 2) z"
    using total_bounded [OF a(2) v(2) m(2) c(2), of 15 15] by auto
  obtain s where s: "num_round z 1 = Inr s" "in_range 0 (207 / 2) s" using in_range_round [OF z(2)] by auto
  have "\<exists>b. num_lt (JInt 0) w = Inr b" using w(2) by (auto simp: num_lt_def)
  then obtain b where b: "num_lt (JInt 0) w = Inr b" by blast
  have some: "\<exists>m x. m \<in> set market \<and> dget m ''status'' = Some (JStr ''confirmed'') \<and> dget m ''amount'' = Some (JFloat x) \<and> flt (Fin 0) x" if b
  proof (rule ccontr)
    assume no: "\<not> ?thesis"
    have "dget r ''amount'' = Some (JFloat (Fin 0))" if "r \<in> set market" "dget r ''status'' = Some (JStr ''confirmed'')" for r
    proof -
      have "amount_ok r" using assms(7) that(1) by (simp add: list_all_iff)
      from amount_okD [OF this that(2)] obtain x where "dget r ''amount'' = Some (JFloat x)" "fle (Fin 0) x" by blast
      moreover from this no that have "\<not> flt (Fin 0) x" by blast
      ultimately show ?thesis by (auto simp: fle_iff feq_def)
    qed
    with zero_total [OF assms(7)] w(1) b \<open>b\<close> show False by auto
  qed
  have low: "m = JFloat (Fin 0) \<and> c = JFloat (Fin 0) \<and> in_range 0 (147 / 2) s" if "market = [] \<and> chain = []"
  proof -
    have mc: "m = JFloat (Fin 0)" "c = JFloat (Fin 0)" using that m(1) c(1) by (simp_all add: score_market_yield_def score_chain_yield_def)
    have "\<exists>z. total_of a v m c = Inr z \<and> in_range 0 (147 / 2) z" using total_bounded [OF a(2) v(2), of 0 m 0 c 0 0] mc by simp
    then have "in_range 0 (147 / 2) z" using z(1) by simp
    with in_range_round [OF this] s(1) mc show ?thesis by simp
  qed
  show ?thesis using a v m c w(1) z(1) s b some low by (simp add: measure_yield_def)
qed

text \<open>A job with one file, all of two tests passed and a confirmed receipt of ten dollars.\<close>

definition sample_receipt :: "json dict" where
  "sample_receipt = [(''amount'', JFloat (Fin 10)), (''status'', JStr ''confirmed'')]"

theorem yield_needs_receipts_witness:
  "let r = measure_yield (hash_directory [(''a.py'', [1, 2, 3])]) 2 2 True 0 [sample_receipt] [] in
     isl r = False \<and> in_range 0 (207 / 2) (yr_total_score (projr r)) \<and> amount_ok sample_receipt"
  using yield_needs_receipts [of "[(''a.py'', [1, 2, 3])]" 2 2 0 "[sample_receipt]" True "[]"]
  by (auto simp: amount_ok_def sample_receipt_def)

text \<open>
  Outside these conditions the scores leave their bounds or measuring raises: a refund (a confirmed receipt with a negative amount) gives a
  negative market yield, more passed tests than tests or a negative count of flags gives more than 110 points, and an amount that is a string raises.
\<close>

lemma whole_float: "\<bar>n\<bar> \<le> 2 ^ 53 \<Longrightarrow> mkf (of_int n) = Fin (of_int n)"
  using mkf_rep [of n 0] by (simp add: pow2_def)

lemma whole_round: "\<bar>n\<bar> \<le> 2 ^ 53 \<Longrightarrow> fround (Fin (of_int n)) 1 = Fin (of_int n)"
  using fround_near [of "of_int n" 1 "10 * n"] whole_float [of n] by simp

lemma refund_scores_below_zero:
  "score_market_yield [[(''amount'', JFloat (Fin (- 10))), (''status'', JStr ''confirmed'')]] = Inr (JFloat (Fin (- 5)))"
  using whole_float [of "- 5"] whole_float [of "- 10"] whole_round [of "- 5"]
  by (simp add: score_market_yield_def confirmed_total_def dget_default_def num_add_def num_op_def num_div_def num_min_def num_lt_def
      num_round_def of_pyint_def rbind_def)

lemma miscounted_tests_score:
  "score_validation_yield 4 2 True 0 = Inr (JFloat (Fin 210))" "score_validation_yield 2 2 True (- 1) = Inr (JFloat (Fin 120))"
proof -
  have "rnd 1 = 1" "rnd 2 = 2" using half_int_rnd [OF half_int_of_int [of 1]] half_int_rnd [OF half_int_of_int [of 2]] by simp_all
  then show "score_validation_yield 4 2 True 0 = Inr (JFloat (Fin 210))" "score_validation_yield 2 2 True (- 1) = Inr (JFloat (Fin 120))"
    using truediv_small [of 2 4] truediv_small [of 2 2] whole_float [of 100] whole_float [of 200] whole_float [of 10] whole_float [of 110]
      whole_float [of 210] whole_float [of 120] whole_float [of "- 10"] whole_round [of 210] whole_round [of 120]
    by (simp_all add: score_validation_yield_def num_div_def num_mul_def num_add_def num_sub_def num_op_def num_max_def num_lt_def num_round_def
        of_pyint_def rbind_def fsub_def)
qed

lemma text_amount_raises:
  "score_market_yield [[(''amount'', JStr ''10''), (''status'', JStr ''confirmed'')]] = Inl TypeError"
  by (simp add: score_market_yield_def confirmed_total_def dget_default_def num_add_def num_op_def)

end
