(* ===== verification/Demo_App.thy ===== *)
theory Demo_App
  imports Yield_Meter Job_Spec
begin

text \<open>
  \<open>app.py\<close>: the demo that chains the parts of a job, from a prompt to the preview of its settlement. Each tab is the data it computes and hands to the
  next; a specification is kept as the object its text parses to. The Markdown that is shown and the user interface are left out.
\<close>

section \<open>The tabs\<close>

definition compile_chat :: "string \<Rightarrow> runtime \<Rightarrow> json dict \<times> runtime" where
  "compile_chat prompt rt = (let (job, rt) = compile prompt [] rt in (spec_to_dict job, rt))"

text \<open>The artifacts that are scored are made up: their number is what the user enters.\<close>

definition demo_artifacts :: "nat \<Rightarrow> json dict list" where
  "demo_artifacts n = map (\<lambda>i. [(''path'', JStr (''artifact_'' @ dec_nat i)), (''bytes'', JInt 1000)]) [0..<n]"

definition score_yield :: "nat \<Rightarrow> int \<Rightarrow> int \<Rightarrow> bool \<Rightarrow> int \<Rightarrow> json dict result" where
  "score_yield artifact_count tests_passed tests_total lint_passed security_flags =
     rbind (measure_yield (demo_artifacts artifact_count) tests_passed tests_total lint_passed security_flags [] []) (\<lambda>r. Inr (yield_to_dict r))"

definition consensus_dict :: "consensus \<Rightarrow> json dict" where
  "consensus_dict c = [(''result'', JStr (cn_result c))] @ (if cn_no_votes c = None then [(''reason'', JStr ''No votes received'')] else [])
     @ [(''yes_votes'', JInt (cn_yes_votes c))] @ (case cn_no_votes c of None \<Rightarrow> [] | Some n \<Rightarrow> [(''no_votes'', JInt n)])
     @ [(''total_votes'', JInt (cn_total_votes c)), (''ratio'', JFloat (cn_ratio c)), (''threshold'', JStr (cn_threshold c)),
        (''rejection_reasons'', JList (cn_rejection_reasons c))]"

text \<open>The artifacts that are validated are the expected outputs themselves.\<close>

definition claimed_artifacts :: "json dict \<Rightarrow> json dict list result" where
  "claimed_artifacts job = rbind (jiter (dget_default job ''expected_outputs'' (JList []))) (\<lambda>os. Inr (map (\<lambda>out. [(''path'', out)]) os))"

definition run_consensus :: "(json list \<Rightarrow> string) \<Rightarrow> json dict \<Rightarrow> json dict \<Rightarrow> (json dict list \<times> consensus) result" where
  "run_consensus show_set job yield_dict = rbind (claimed_artifacts job) (\<lambda>artifacts.
     let results = [(''passed'', dget_default yield_dict ''tests_passed'' (JInt 0)), (''total'', dget_default yield_dict ''tests_total'' (JInt 1))] in
     rbind (fst (run_validators show_set job artifacts results (validator_set_init []))) (\<lambda>votes.
     rbind (evaluate DEFAULT_THRESHOLD votes) (\<lambda>c. Inr (votes, c))))"

definition export_proof :: "json dict \<Rightarrow> json dict \<Rightarrow> json dict \<Rightarrow> runtime \<Rightarrow> (json dict \<times> preview) result \<times> runtime" where
  "export_proof job yield_dict con rt =
     (case claimed_artifacts job of Inl e \<Rightarrow> (Inl e, rt)
      | Inr artifacts \<Rightarrow> (case sub_object job ''runtime'' of Inl e \<Rightarrow> (Inl e, rt)
        | Inr runtime \<Rightarrow>
          let chat = [(''prompt_hash'', dget_default job ''prompt_hash'' (JStr [])), (''summary'', dget_default job ''chat_summary'' (JStr []))];
              (bundle, rt) = build_bundle chat job [(''image'', dget_default runtime ''container'' (JStr []))] artifacts yield_dict con [] rt
          in (rbind (settlement_preview bundle) (\<lambda>p. Inr (bundle, p)), rt)))"

section \<open>The demo approves itself\<close>

lemma claimed_of_spec: "claimed_artifacts (spec_to_dict j) = Inr (map (\<lambda>out. [(''path'', JStr out)]) (js_expected_outputs j))"
  by (simp add: claimed_artifacts_def spec_to_dict_def dget_default_def jstrs_def comp_def)

lemma claimed_structure:
  "validate_structure_role show_set (spec_to_dict j) (map (\<lambda>out. [(''path'', JStr out)]) (js_expected_outputs j)) = Inr (the_vote ''accept'' ''All expected files present.'')"
proof -
  have "set_elements (map JStr xs) = Inr (map JStr xs)" for xs by (auto simp: set_elements_def list_ex_iff)
  moreover have "filter (\<lambda>x. x \<notin> set (map JStr xs)) (remdups (map JStr xs)) = []" for xs by (auto simp: filter_empty_conv)
  ultimately show ?thesis
    by (simp add: validate_structure_role_def spec_to_dict_def dget_default_def jstrs_def comp_def Let_def)
qed

lemma claimed_security: "validate_security (map (\<lambda>out. [(''path'', JStr out)]) xs) = Inr (the_vote ''accept'' ''No obvious security issues in metadata.'')"
proof -
  have "rmap (\<lambda>a. text_get (JObj a) ''path'') (map (\<lambda>out. [(''path'', JStr out)]) xs) = Inr xs"
    by (induction xs) (simp_all add: text_get_def dget_default_def)
  then show ?thesis by (simp add: validate_security_def)
qed

text \<open>
  C39. The demo approves itself: whatever the prompt and whatever yield is handed on, also one without a passed test, the validators of a compiled job all vote and accept it, with at most the vote
  on the tests against, since the artifacts they see are the expected outputs of the specification; the bundle exported with that
  verdict verifies, and its preview calls the job settlable as soon as its total score is a number.
\<close>

theorem demo_approves_itself:
  assumes "(job, rt1) = compile_chat prompt rt" and "num_of (dget_default yield_dict ''total_score'' (JInt 0)) = Inr score"
  shows "\<exists>votes c. run_consensus show_set job yield_dict = Inr (votes, c) \<and> length votes = 5 \<and> 4 \<le> length (filter accepts votes) \<and> cn_result c = ''accepted'' \<and>
    (\<exists>bundle p. fst (export_proof job yield_dict (consensus_dict c) rt2) = Inr (bundle, p) \<and> bc_valid (verify_bundle bundle kept) \<and> pw_settlable p)"
proof -
  define j where "j = fst (compile prompt [] rt)"
  have job: "job = spec_to_dict j" using assms(1) by (simp add: compile_chat_def j_def case_prod_beta)
  define artifacts where "artifacts = map (\<lambda>out. [(''path'', JStr out)]) (js_expected_outputs j)"
  define results where "results = [(''passed'', dget_default yield_dict ''tests_passed'' (JInt 0)), (''total'', dget_default yield_dict ''tests_total'' (JInt 1))]"
  have "artifacts \<noteq> []" using infer_outputs_files(1) [of "lower prompt"] by (auto simp: artifacts_def j_def compile_fields)
  then obtain r3 where r3: "validate_usefulness (spec_to_dict j) artifacts = Inr (the_vote ''accept'' r3)"
    by (cases "2 \<le> length artifacts") (auto simp: validate_usefulness_def text_get_def spec_to_dict_def dget_default_def)
  have "validate_policy (spec_to_dict j) = Inr (the_vote ''accept'' ''Policy checks passed.'')"
    using policy_flags(1) [of "lower prompt" "[]"]
    by (simp add: validate_policy_def spec_to_dict_def dget_default_def j_def compile_fields dtruthy_def split: option.splits)
  moreover obtain r4 where "validate_tests results = the_vote (if tests_fine results then ''accept'' else ''reject'') r4" using tests_vote by blast
  ultimately obtain votes where votes: "fst (run_validators show_set (spec_to_dict j) artifacts results (validator_set_init [])) = Inr votes"
    "map accepts votes = [True, True, True, tests_fine results, True]" "list_all (\<lambda>v. dget v ''reason'' \<noteq> None) votes"
    using run_default [OF claimed_structure [of show_set j, folded artifacts_def] claimed_security [of "js_expected_outputs j", folded artifacts_def] r3, of results _ _ _ _ "[]"]
    unfolding list.map accept_if simp_thms(6) by fastforce
  have len: "length votes = 5" "4 \<le> length (filter accepts votes)" using vote_counts [OF votes(2)] by simp_all
  obtain c where c: "evaluate DEFAULT_THRESHOLD votes = Inr c" "cn_result c = ''accepted''"
    using evaluate_default [OF votes(3)] len by fastforce
  have run: "run_consensus show_set job yield_dict = Inr (votes, c)"
    using votes(1) c(1) by (simp add: run_consensus_def job claimed_of_spec artifacts_def results_def Let_def)
  obtain runtime where rtm: "sub_object job ''runtime'' = Inr runtime" by (simp add: sub_object_def job spec_to_dict_def dget_default_def)
  define b where "b = build_bundle [(''prompt_hash'', dget_default job ''prompt_hash'' (JStr [])), (''summary'', dget_default job ''chat_summary'' (JStr []))] job
    [(''image'', dget_default runtime ''container'' (JStr []))] artifacts yield_dict (consensus_dict c) [] rt2"
  obtain p where p: "settlement_preview (fst b) = Inr p" "pw_settlable p"
    using assms(2) c(2)
    by (auto simp: b_def build_bundle_def bundle_body_def settlement_preview_def sub_object_def dget_default_def consensus_dict_def num_lt_def case_prod_beta time_time_def Let_def)
  have ex: "fst (export_proof job yield_dict (consensus_dict c) rt2) = Inr (fst b, p)"
    using p(1) rtm by (simp add: export_proof_def job claimed_of_spec b_def artifacts_def case_prod_beta Let_def)
  have "bc_valid (verify_bundle (fst b) kept)" unfolding b_def by (rule built_bundle_valid)
  with ex p(2) run len c(2) show ?thesis by blast
qed

section \<open>A concrete run\<close>

theorem demo_approves_itself_witness:
  "\<exists>votes c. run_consensus (\<lambda>s. []) (fst (compile_chat ''Build an api.'' sample_rt)) [(''tests_passed'', JInt 0), (''tests_total'', JInt 9), (''total_score'', JInt 0)] = Inr (votes, c) \<and>
     cn_result c = ''accepted''"
proof -
  let ?c = "compile_chat ''Build an api.'' sample_rt" and ?y = "[(''tests_passed'', JInt 0), (''tests_total'', JInt 9), (''total_score'', JInt 0)]"
  have s: "num_of (dget_default ?y ''total_score'' (JInt 0)) = Inr (JInt 0)" by (simp add: dget_default_def)
  show ?thesis using demo_approves_itself [OF prod.collapse [of ?c] s, where show_set = "\<lambda>s. []"] by blast
qed

end
