(* ===== verification/Command_Line.thy ===== *)
theory Command_Line
  imports Brain_Server Membra_Node Profit_Loop Personal_Chain Defi_Operator Token_Gate Demo_App
begin

text \<open>
  \<open>membra_sdk/cli/main.py\<close>: the commands that run the components in one process and keep nothing but files between two calls. A command gives the
  data it prints; headings, colours and tables are left out, and so are the commands that start a server or send requests to one. A
  command can also exit with a code, raise, or meet a name that the module never binds.
\<close>

datatype 'a ending = Ended 'a | Exited nat | Raising py_error | Unbound_name string

definition ending_of :: "'a result \<Rightarrow> 'a ending" where
  "ending_of r = (case r of Inl e \<Rightarrow> Raising e | Inr x \<Rightarrow> Ended x)"

section \<open>The benchmark of the ledger\<close>

fun submit_ops :: "int \<Rightarrow> nat \<Rightarrow> json dict ledger \<Rightarrow> runtime \<Rightarrow> json dict ledger \<times> runtime" where
  "submit_ops i 0 l rt = (l, rt)"
| "submit_ops i (Suc n) l rt = (let (now, rt) = time_time rt;
       op = [(''id'', JInt i), (''type'', JStr ''benchmark''), (''timestamp'', JFloat now)]
     in submit_ops (i + 1) n (ledger_submit op l) rt)"

lemma drain_shrinks: "drain_batch n l = (batch, l') \<Longrightarrow> batch \<noteq> [] \<Longrightarrow> length (lg_pending l') < length (lg_pending l)"
  by (auto simp: drain_batch_def Let_def split: if_splits)

text \<open>The loop that drains batches until it gets an empty one.\<close>

function drain_all :: "'op ledger \<Rightarrow> int \<times> 'op ledger" where
  "drain_all l = (let (batch, l) = drain_batch 10000 l
     in if batch = [] then (0, l) else let (n, l) = drain_all l in (int (length batch) + n, l))"
  by pat_completeness auto

termination
  by (relation "measure (\<lambda>l. length (lg_pending l))") (auto intro: drain_shrinks [OF sym])

record benchmark_report =
  br_operations :: int
  br_drained :: int
  br_submit_time :: pyfloat
  br_drain_time :: pyfloat
  br_total_time :: pyfloat
  br_submit_tps :: pyfloat
  br_drain_tps :: pyfloat
  br_total_tps :: pyfloat

definition per_second :: "int \<Rightarrow> pyfloat \<Rightarrow> pyfloat result" where
  "per_second n t = rbind (of_pyint n) (\<lambda>x. fdiv x t)"

definition benchmark :: "int \<Rightarrow> runtime \<Rightarrow> benchmark_report ending \<times> runtime" where
  "benchmark ops rt =
     (let (t0, rt) = time_time rt; (l, rt) = submit_ops 0 (nat ops) (ledger_init 100000) rt; (t1, rt) = time_time rt;
          submit_time = fsub t1 t0;
          (t2, rt) = time_time rt; (drained, l) = drain_all l; (t3, rt) = time_time rt;
          drain_time = fsub t3 t2; total_time = fadd submit_time drain_time
      in (ending_of (rbind (per_second ops submit_time) (\<lambda>a. rbind (per_second drained drain_time) (\<lambda>b. rbind (per_second ops total_time) (\<lambda>c.
           Inr \<lparr>br_operations = ops, br_drained = drained, br_submit_time = submit_time, br_drain_time = drain_time, br_total_time = total_time,
             br_submit_tps = a, br_drain_tps = b, br_total_tps = c\<rparr>)))), rt))"

section \<open>Mining files\<close>

text \<open>The files of one directory: the walk gives their names and contents, \<^const>\<open>None\<close> where reading fails.\<close>

fun scan_files :: "int \<Rightarrow> string \<Rightarrow> (string \<times> string option) list \<Rightarrow> (string \<times> pyfloat) list \<Rightarrow> (string \<times> pyfloat) list" where
  "scan_files m dir [] results = results"
| "scan_files m dir ((fname, content) # fs) results =
     (if m \<le> int (length results) then results
      else case content of None \<Rightarrow> scan_files m dir fs results
      | Some t \<Rightarrow> (case estimate_yield (path_join dir fname) (take 2000 t) of Inl e \<Rightarrow> scan_files m dir fs results
          | Inr y \<Rightarrow> scan_files m dir fs (results @ [(fname, y)])))"

text \<open>Sorting by estimate, highest first; equal estimates keep their order.\<close>

fun insert_estimate :: "string \<times> pyfloat \<Rightarrow> (string \<times> pyfloat) list \<Rightarrow> (string \<times> pyfloat) list" where
  "insert_estimate x [] = [x]"
| "insert_estimate x (y # ys) = (if flt (snd y) (snd x) then x # y # ys else y # insert_estimate x ys)"

definition by_estimate :: "(string \<times> pyfloat) list \<Rightarrow> (string \<times> pyfloat) list" where
  "by_estimate rs = foldl (\<lambda>ys x. insert_estimate x ys) [] rs"

definition cli_mine_files :: "(string \<times> (string \<times> string option) list) list option \<Rightarrow> int \<Rightarrow> (int \<times> (string \<times> string) list) ending" where
  "cli_mine_files walk max_files = (case walk of None \<Rightarrow> Exited 1
     | Some dirs \<Rightarrow> let results = foldl (\<lambda>rs (dir, files). scan_files max_files dir files rs) [] dirs
         in Ended (int (length results), map (\<lambda>(fname, y). (fname, ffixed 6 y)) (take 20 (by_estimate results))))"

definition cli_validate_prompt :: "llm_source \<Rightarrow> string \<Rightarrow> string \<Rightarrow> (string \<times> string) ending" where
  "cli_validate_prompt llm env_key prompt = ending_of (rbind (call_llm llm (poy_init ''cli-validator'' [] env_key) prompt)
     (\<lambda>inference. Inr (inference, sha256_hex inference)))"

section \<open>The personal chain\<close>

text \<open>Logging an event; the reader of \<open>json\<close> is a parameter. The directory of the user is what is kept.\<close>

definition cli_log_event ::
  "(string \<Rightarrow> json option) \<Rightarrow> string \<Rightarrow> string \<Rightarrow> string \<Rightarrow> string \<Rightarrow> json option dict \<Rightarrow> runtime
     \<Rightarrow> chain_event option ending \<times> json option dict \<times> runtime" where
  "cli_log_event read user event_type data privacy dir rt =
     (let c = personal_chain_init user dir; event_data = (case read data of None \<Rightarrow> JObj [(''text'', JStr data)] | Some v \<Rightarrow> v) in
      case privacy_of (lower privacy) of None \<Rightarrow> (Raising (ValueError []), dir, rt)
      | Some p \<Rightarrow> (case event_type_of (lower event_type) of None \<Rightarrow> (Exited 1, dir, rt)
        | Some t \<Rightarrow> let (r, c, rt) = log_event t event_data (Some p) [] True c rt in (ending_of r, pc_dir c, rt)))"

definition cli_chain_summary :: "string \<Rightarrow> json option dict \<Rightarrow> chain_summary \<times> bool" where
  "cli_chain_summary user dir = (let c = personal_chain_init user dir in (get_chain_summary c, verify_chain_integrity c))"

definition cli_export_chain :: "string \<Rightarrow> bool \<Rightarrow> json option dict \<Rightarrow> runtime \<Rightarrow> json \<times> runtime" where
  "cli_export_chain user public_only dir rt = (let c = personal_chain_init user dir in
     if public_only then (JList (map JObj (export_public_proofs c)), rt)
     else let (archive, rt) = export_chain_archive c rt in (JObj archive, rt))"

definition cli_consent_status :: "string \<Rightarrow> json option dict \<Rightarrow> json list" where
  "cli_consent_status user dir = (let policy = pc_consent_policy (personal_chain_init user dir); shown = (\<lambda>k d. JStr (json_text (dget_default policy k (JBool d)))) in
     [shown ''auto_capture_prompts'' False, shown ''auto_capture_uploads'' False, shown ''auto_capture_builds'' True,
      dget_default policy ''default_privacy'' (JStr ''private''), shown ''public_anchor_allowed'' False, shown ''monetization_enabled'' False])"

section \<open>The marketplace\<close>

text \<open>Every command makes a new profit loop, which reads the files of the one before.\<close>

definition cli_post_job :: "string \<Rightarrow> pyfloat \<Rightarrow> string \<Rightarrow> json option list \<Rightarrow> json option \<Rightarrow> runtime
     \<Rightarrow> (string \<times> string) ending \<times> json option list \<times> runtime" where
  "cli_post_job title budget buyer job_file escrow_file rt =
     (let (r, s) = pl_post_job title ''Posted via CLI'' [] [] budget buyer (profit_loop_init job_file escrow_file rt)
      in (ending_of (rbind r (\<lambda>j. Inr (bj_job_id j, ffixed 2 budget))), jb_file (pl_jobs s), pl_rt s))"

definition cli_list_jobs :: "json option list \<Rightarrow> json option \<Rightarrow> runtime \<Rightarrow> (string \<times> string \<times> string) list" where
  "cli_list_jobs job_file escrow_file rt = map (\<lambda>j. (bj_job_id j, bj_title j, ffixed 2 (bj_budget_usd j)))
     (list_open (pl_jobs (profit_loop_init job_file escrow_file rt)))"

definition cli_mode :: "string dict \<Rightarrow> (config_status \<times> bool) ending" where
  "cli_mode env = ending_of (rbind (membra_config_init env) (\<lambda>c. Inr (config_get_status c, is_simulation c)))"

section \<open>Requests to the brain server\<close>

text \<open>
  The server answers with its state, or not at all. A status other than 200 is shown as the server's message; where the
  answer is no JSON, or does not come in time, the exception is caught and the server is reported as unreachable.
\<close>

datatype 'a answer = Answered 'a | Server_error string | Unreachable

definition cli_job_submit :: "string \<Rightarrow> string \<Rightarrow> brain_server \<Rightarrow> runtime \<Rightarrow> (string \<times> int) answer \<times> brain_server \<times> runtime" where
  "cli_job_submit prompt job_type s rt = (case bs_submit_job (Some prompt) (Some (JStr job_type)) None s rt of
     (Replied r, s, rt) \<Rightarrow> (Answered (jrc_job_id r, jrc_tasks r), s, rt)
   | (Refused c m, s, rt) \<Rightarrow> (Server_error m, s, rt)
   | (_, s, rt) \<Rightarrow> (Unreachable, s, rt))"

text \<open>The rows of the table of tasks: \<open>None[:20]\<close> raises for a task that no worker holds, and the table is printed after its last row.\<close>

definition cli_task_row :: "string \<times> task_view \<Rightarrow> (string \<times> string \<times> string) result" where
  "cli_task_row t = (case tv_worker (snd t) of None \<Rightarrow> Inl TypeError | Some w \<Rightarrow> Inr (take 20 (fst t), tv_status (snd t), take 20 w))"

record status_report =
  sr_status :: string
  sr_prompt :: string
  sr_artifact :: "string option"
  sr_tasks :: "(string \<times> string \<times> string) list answer"

definition cli_job_status :: "string \<Rightarrow> brain_server \<Rightarrow> status_report answer" where
  "cli_job_status jid s = (case bs_get_job jid s of
     Replied v \<Rightarrow> Answered \<lparr>sr_status = jv_status v, sr_prompt = take 60 (jv_prompt v) @ ''...'',
       sr_artifact = map_option (\<lambda>f. take 16 (sy_artifact_hash f) @ ''...'') (jv_final_artifact v),
       sr_tasks = (case rmap cli_task_row (jv_tasks v) of Inl e \<Rightarrow> Unreachable | Inr rows \<Rightarrow> Answered rows)\<rparr>
   | Refused c m \<Rightarrow> Server_error m
   | _ \<Rightarrow> Unreachable)"

section \<open>Jobs\<close>

definition cli_chat :: "string \<Rightarrow> string \<Rightarrow> json dict \<Rightarrow> runtime \<Rightarrow> job_spec \<times> string \<times> json dict \<times> runtime" where
  "cli_chat home prompt disk rt = (let (job, rt) = compile prompt [] rt; path = home @ ''/.membra/jobs/'' @ js_job_id job @ ''.json''
     in (job, path, spec_save path job disk, rt))"

text \<open>
  The other commands on jobs look for the file of the job in \<open>Path.home()\<close>, but the module does not import \<open>Path\<close>. They
  end there; before, they only print a line. An option that is not given is \<open>None\<close>.
\<close>

definition given :: "string option \<Rightarrow> bool" where
  "given s \<longleftrightarrow> s \<noteq> None \<and> s \<noteq> Some []"

definition cli_job :: "string \<Rightarrow> string option \<Rightarrow> string option \<Rightarrow> string ending" where
  "cli_job action from_chat job_id =
     (if action = ''create'' then
        if from_chat = Some ''latest'' then Unbound_name ''Path'' else Ended ''Use --from-chat latest to create from latest chat''
      else if action = ''run'' then if \<not> given job_id then Ended ''Error: --job-id required'' else Unbound_name ''Path''
      else if action = ''status'' then if \<not> given job_id then Ended ''Error: --job-id required''
        else Ended ''Status: pending (use membra job run to execute)''
      else Ended (''Unknown action: '' @ action @ ''. Use: create, run, status''))"

definition cli_yield :: "string \<Rightarrow> int \<Rightarrow> int \<Rightarrow> int \<Rightarrow> bool \<Rightarrow> int \<Rightarrow> yield_report option ending" where
  "cli_yield action artifacts tests_passed tests_total lint security_flags =
     (if action \<noteq> ''score'' then Ended None
      else ending_of (rbind (measure_yield (demo_artifacts (nat artifacts)) tests_passed tests_total lint security_flags [] []) (\<lambda>r. Inr (Some r))))"

definition cli_consensus :: "string \<Rightarrow> string ending" where
  "cli_consensus action = (if action \<noteq> ''validate'' then Ended ''Use: membra consensus validate --job-id <id>'' else Unbound_name ''Path'')"

definition cli_proof :: "string \<Rightarrow> string ending" where
  "cli_proof action = (if action \<noteq> ''export'' then Ended ''Use: membra proof export --job-id <id>'' else Unbound_name ''Path'')"

definition cli_settle :: "string \<Rightarrow> string ending" where
  "cli_settle action = (if action \<noteq> ''preview'' then Ended ''Use: membra settle preview --job-id <id>'' else Unbound_name ''Path'')"

section \<open>The token gate\<close>

datatype gate_answer =
    Gate_summary state_summary | All_conditions_met | Not_ready "string list" | Mint_prepared | Pool_prepared | Gate_refused | Unknown_action string

definition gate_state :: "pyfloat \<Rightarrow> pyfloat \<Rightarrow> bool \<Rightarrow> bool \<Rightarrow> bool \<Rightarrow> bool \<Rightarrow> bool \<Rightarrow> bool \<Rightarrow> bool \<Rightarrow> launch_state" where
  "gate_state sol usdc agent dashboard corpus published wallet approved mainnet = default_launch_state
     \<lparr>agent_online := agent, dashboard_online := dashboard, corpus_indexed := corpus, proof_manifest_published := published,
      wallet_connected := wallet, human_or_multisig_approval := approved, treasury_sol := sol, treasury_usdc := usdc,
      no_private_keys_stored := True, mainnet_policy_enabled := mainnet\<rparr>"

definition cli_token_gate :: "string \<Rightarrow> launch_state \<Rightarrow> gate_answer" where
  "cli_token_gate action s =
     (if action = ''status'' then Gate_summary (get_state_summary s)
      else if action = ''check-readiness'' then if can_begin_token_and_liquidity s then All_conditions_met else Not_ready (get_missing_conditions s)
      else if action = ''prepare-mint'' then if can_begin_token_and_liquidity s then Mint_prepared else Gate_refused
      else if action = ''prepare-pool'' then if can_begin_token_and_liquidity s then Pool_prepared else Gate_refused
      else Unknown_action action)"

section \<open>What the commands do\<close>

text \<open>The loop of the benchmark ends and drains everything.\<close>

lemma drain_all_drains: "fst (drain_all l) = int (length (lg_pending l)) \<and> lg_pending (snd (drain_all l)) = []"
proof (induction l rule: drain_all.induct)
  case (1 l)
  obtain batch l' where d: "drain_batch 10000 l = (batch, l')" by (cases "drain_batch 10000 l")
  have split: "lg_pending l = batch @ lg_pending l'" using d by (auto simp: drain_batch_def Let_def split: if_splits)
  show ?case
  proof (cases "batch = []")
    case True
    with d have "lg_pending l = []" by (cases "lg_pending l") (auto simp: drain_batch_def Let_def split: if_splits)
    with True d split show ?thesis by (subst (1 2) drain_all.simps) simp
  next
    case False
    from 1 [OF d [symmetric] refl False] have "fst (drain_all l') = int (length (lg_pending l'))" "lg_pending (snd (drain_all l')) = []" by simp_all
    with False d split show ?thesis by (subst (1 2) drain_all.simps) (simp add: case_prod_beta)
  qed
qed

lemma submit_ops_length:
  "length (lg_pending l) \<le> lg_max_pending l \<Longrightarrow>
     length (lg_pending (fst (submit_ops i n l rt))) = min (length (lg_pending l) + n) (lg_max_pending l)"
proof (induction n arbitrary: i l rt)
  case (Suc n)
  let ?l = "ledger_submit [(''id'', JInt i), (''type'', JStr ''benchmark''), (''timestamp'', JFloat (rt_now rt))] l"
  have "length (lg_pending ?l) = min (length (lg_pending l) + 1) (lg_max_pending l)" "lg_max_pending ?l = lg_max_pending l"
    using Suc.prems by (auto simp: ledger_submit_def Let_def)
  then show ?case using Suc.IH [of ?l "i + 1" "rt_tick rt"] by (simp add: time_time_def)
qed simp

text \<open>The benchmark counts every submitted operation, but the ledger has kept at most the newest 100000 of them.\<close>

lemma benchmark_counts_dropped:
  assumes "fst (benchmark ops rt) = Ended r"
  shows "br_operations r = ops \<and> br_drained r = min (max ops 0) 100000"
proof -
  obtain l rt' where s: "submit_ops 0 (nat ops) (ledger_init 100000) (rt_tick rt) = (l, rt')"
    by (cases "submit_ops 0 (nat ops) (ledger_init 100000) (rt_tick rt)")
  with submit_ops_length [of "ledger_init 100000" 0 "nat ops" "rt_tick rt"]
  have "int (length (lg_pending l)) = min (max ops 0) 100000" by (simp add: ledger_init_def)
  moreover obtain n l' where "drain_all l = (n, l')" by (cases "drain_all l")
  ultimately show ?thesis using assms s drain_all_drains [of l]
    by (auto simp: benchmark_def Let_def time_time_def ending_of_def rbind_def split: sum.splits)
qed

text \<open>At most the given number of files is scanned, and at most twenty are shown.\<close>

lemma scan_files_bound: "length results \<le> nat m \<Longrightarrow> length (scan_files m dir fs results) \<le> nat m"
  by (induction m dir fs results rule: scan_files.induct) (auto split: option.splits sum.splits)

lemma insert_estimate_length: "length (insert_estimate x ys) = Suc (length ys)"
  by (induction ys) auto

lemma mine_files_bounded:
  assumes "cli_mine_files walk m = Ended (n, rows)"
  shows "n \<le> max m 0 \<and> length rows \<le> 20 \<and> length rows \<le> nat n"
proof -
  have scan: "length (foldl (\<lambda>rs (dir, files). scan_files m dir files rs) rs dirs) \<le> nat m" if "length rs \<le> nat m" for rs dirs
    using that by (induction dirs arbitrary: rs) (auto simp: scan_files_bound)
  have sort: "length (foldl (\<lambda>ys x. insert_estimate x ys) ys rs) = length ys + length rs" for ys rs
    by (induction rs arbitrary: ys) (simp_all add: insert_estimate_length)
  have int_le: "int (length (foldl (\<lambda>rs (dir, files). scan_files m dir files rs) [] dirs)) \<le> max m 0" for dirs
    using scan [of "[]" dirs] by (cases "0 \<le> m") (auto simp: nat_le_iff le_nat_iff)
  from assms int_le show ?thesis
    by (auto simp: cli_mine_files_def by_estimate_def sort Let_def split: option.splits)
qed

text \<open>
  Logging an event from the command line overrides the consent policy: with a known type and label and a finite clock the event is written into
  the directory of the user, whatever the policy says.
\<close>

lemma cli_log_ignores_consent:
  assumes "event_type_of (lower ty) = Some t" and "privacy_of (lower privacy) = Some p" and "\<forall>i. \<exists>n. ftrunc (fmul (clock rt i) (Fin 1000)) = Inr n"
  shows "\<exists>e dir' rt'. cli_log_event read user ty data privacy dir rt = (Ended (Some e), dir', rt') \<and> ce_event_type e = t \<and>
    dget dir' (event_file (ce_sequence e)) = Some (Some (JObj (event_to_dict e)))"
proof -
  let ?c = "personal_chain_init user dir" and ?d = "case read data of None \<Rightarrow> JObj [(''text'', JStr data)] | Some v \<Rightarrow> v"
  obtain n where "ftrunc (fmul (clock rt (Suc (clock_pos rt))) (Fin 1000)) = Inr n" using assms(3) by blast
  then have "fst (log_event t ?d (Some p) [] True ?c rt) \<noteq> Inl e" for e
    by (auto simp: log_event_def event_privacy_def time_time_def Let_def)
  then obtain e rt' where e: "log_event t ?d (Some p) [] True ?c rt = (Inr (Some e), append_event e ?c, rt')" "ce_event_type e = t"
    by (cases rule: log_event_cases [of True t ?c ?d "Some p" "[]" rt]) auto
  then show ?thesis using assms(1,2)
    by (auto simp: cli_log_event_def ending_of_def append_event_def persist_event_def Let_def)
qed

text \<open>
  The marketplace of the command line takes one job: after a first job has been posted, no call lists it, and posting another one raises.
\<close>

lemma posted_job_is_lost:
  assumes "cli_post_job title budget buyer [] esc rt = (r, job_file, rt')" and "take 12 (rt_uuid rt2) \<noteq> take 12 (rt_uuid rt)"
  shows "cli_list_jobs job_file esc2 rt1 = [] \<and> fst (cli_post_job title2 budget2 buyer2 job_file esc2 rt2) = Raising AttributeError"
proof -
  let ?b0 = "\<lparr>jb_jobs = [], jb_file = []\<rparr>"
  let ?p = "post_job title ''Posted via CLI'' [] [] budget buyer ?b0 rt"
  define b where "b = fst (snd ?p)"
  have disk: "jb_file b = job_file"
    using assms(1) by (auto simp: cli_post_job_def pl_post_job_def profit_loop_init_def job_board_init_def on_board_def b_def case_prod_beta Let_def)
  have "job_step (?b0, rt) (b, snd (snd ?p))" unfolding b_def by (rule step_post) (auto simp: prod_eq_iff)
  then have reach: "reachable_board b" unfolding reachable_board_def by blast
  have jobs: "dkeys (jb_jobs b) = [job_id_of (rt_uuid rt)]" by (simp add: b_def post_job_eq Let_def jb_save_def jb_persist_def case_prod_beta)
  then have "jb_jobs b \<noteq> []" by auto
  moreover have "job_id_of (rt_uuid rt2) \<notin> set (dkeys (jb_jobs b))" using jobs assms(2) by (simp add: job_id_of_def)
  ultimately have stuck: "list_open (fst (job_board_init (jb_file b) rt0)) = []"
    "fst (post_job title2 ''Posted via CLI'' [] [] budget2 buyer2 (fst (job_board_init (jb_file b) rt0)) rt2) = Inl AttributeError" for rt0
    using restarted_board_is_stuck [OF reach, of rt2 rt0 undefined] by (simp_all add: Let_def)
  have init: "snd (job_board_init (jb_file b) rt0) = rt0" for rt0 using board_reloads_from_its_file [OF reach] by simp
  from stuck init show ?thesis
    by (simp add: cli_list_jobs_def cli_post_job_def pl_post_job_def profit_loop_init_def on_board_def disk ending_of_def rbind_def case_prod_beta Let_def)
qed

text \<open>The status of a job with a task that no worker holds is reported as a server that cannot be reached.\<close>

lemma waiting_task_hides_status:
  assumes "bs_get_job jid s = Replied v" and "(tid, t) \<in> set (jv_tasks v)" and "tv_worker t = None"
  shows "\<exists>r. cli_job_status jid s = Answered r \<and> sr_tasks r = Unreachable"
proof -
  have "\<exists>e. rmap cli_task_row xs = Inl e" if "(tid, t) \<in> set xs" for xs
    using that assms(3) by (induction xs) (auto simp: cli_task_row_def rbind_def split: sum.splits option.splits)
  with assms(2) obtain e where "rmap cli_task_row (jv_tasks v) = Inl e" by blast
  with assms(1) show ?thesis by (simp add: cli_job_status_def)
qed

text \<open>A transaction is prepared only for a state that passes the gate.\<close>

lemma prepared_only_when_ready:
  "(cli_token_gate action s = Mint_prepared \<longleftrightarrow> action = ''prepare-mint'' \<and> can_begin_token_and_liquidity s) \<and>
   (cli_token_gate action s = Pool_prepared \<longleftrightarrow> action = ''prepare-pool'' \<and> can_begin_token_and_liquidity s)"
  by (simp add: cli_token_gate_def)

end
