(* ===== verification/Consent.thy ===== *)
theory Consent
  imports Sdk_Base
begin

text \<open>
  \<open>membra_sdk/consent/policy.py\<close>: the consent manager of a user and the file it is kept in. The file is
  missing, or does not parse, or holds an object with the fields \<open>_save\<close> writes, any of which may be absent.
\<close>

section \<open>State\<close>

datatype consent_level = NONE | PROMPT | BUILD | FULL

fun consent_level_value :: "consent_level \<Rightarrow> string" where
  "consent_level_value NONE = ''none''"
| "consent_level_value PROMPT = ''prompt''"
| "consent_level_value BUILD = ''build''"
| "consent_level_value FULL = ''full''"

text \<open>\<open>ConsentLevel(text)\<close>, which raises on other texts.\<close>

definition consent_level_of :: "string \<Rightarrow> consent_level option" where
  "consent_level_of s = find (\<lambda>l. consent_level_value l = s) [NONE, PROMPT, BUILD, FULL]"

definition CAPTURE_TYPES :: "string list" where
  "CAPTURE_TYPES = [''prompts'', ''uploads'', ''builds'', ''file_scans'', ''llm_responses'', ''wallet_actions'',
     ''marketplace_activity'', ''stripe_receipts'']"

record consent_data =
  cd_level :: "string option"
  cd_approved_types :: "string list option"
  cd_privacy_defaults :: "string dict option"
  cd_monetization_enabled :: "bool option"
  cd_public_anchor_allowed :: "bool option"
  cd_consent_history :: "json dict list option"

datatype consent_file = NoFile | BadFile | DataFile consent_data

record consent_manager =
  cm_user_id :: string
  cm_level :: consent_level
  cm_approved_types :: "string list"
  cm_privacy_defaults :: "string dict"
  cm_monetization_enabled :: bool
  cm_public_anchor_allowed :: bool
  cm_consent_history :: "json dict list"
  cm_file :: consent_file

definition default_privacy :: "string dict" where
  "default_privacy = [(''prompts'', ''private''), (''uploads'', ''private''), (''builds'', ''protected''),
     (''file_scans'', ''private''), (''llm_responses'', ''private''), (''wallet_actions'', ''anonymous''),
     (''marketplace_activity'', ''public''), (''stripe_receipts'', ''anonymous'')]"

definition fresh_manager :: "string \<Rightarrow> consent_file \<Rightarrow> consent_manager" where
  "fresh_manager user f = \<lparr>cm_user_id = user, cm_level = PROMPT, cm_approved_types = [''builds''],
     cm_privacy_defaults = default_privacy, cm_monetization_enabled = False, cm_public_anchor_allowed = False,
     cm_consent_history = [], cm_file = f\<rparr>"

definition consent_save :: "consent_manager \<Rightarrow> consent_manager" where
  "consent_save m = m\<lparr>cm_file := DataFile \<lparr>cd_level = Some (consent_level_value (cm_level m)),
     cd_approved_types = Some (cm_approved_types m), cd_privacy_defaults = Some (cm_privacy_defaults m),
     cd_monetization_enabled = Some (cm_monetization_enabled m), cd_public_anchor_allowed = Some (cm_public_anchor_allowed m),
     cd_consent_history = Some (cm_consent_history m)\<rparr>\<rparr>"

definition or_default :: "'a option \<Rightarrow> 'a \<Rightarrow> 'a" where
  "or_default x d = (case x of None \<Rightarrow> d | Some y \<Rightarrow> y)"

text \<open>\<open>_load\<close>: the level is converted first, and if that raises nothing is taken over.\<close>

definition consent_load :: "consent_manager \<Rightarrow> consent_manager" where
  "consent_load m = (case cm_file m of DataFile d \<Rightarrow>
       (case consent_level_of (or_default (cd_level d) ''prompt'') of None \<Rightarrow> m
        | Some l \<Rightarrow> m\<lparr>cm_level := l, cm_approved_types := or_default (cd_approved_types d) [''builds''],
            cm_privacy_defaults := or_default (cd_privacy_defaults d) (cm_privacy_defaults m),
            cm_monetization_enabled := or_default (cd_monetization_enabled d) False,
            cm_public_anchor_allowed := or_default (cd_public_anchor_allowed d) False,
            cm_consent_history := or_default (cd_consent_history d) []\<rparr>)
     | _ \<Rightarrow> m)"

definition consent_manager_init :: "string \<Rightarrow> consent_file \<Rightarrow> consent_manager" where
  "consent_manager_init user f = consent_load (fresh_manager user f)"

section \<open>Operations\<close>

text \<open>An absent privacy is the empty text, which counts as absent.\<close>

definition grant :: "string \<Rightarrow> string \<Rightarrow> string \<Rightarrow> consent_manager \<Rightarrow> runtime \<Rightarrow> bool \<times> consent_manager \<times> runtime" where
  "grant capture privacy duration m rt =
     (if capture \<notin> set CAPTURE_TYPES then (False, m, rt)
      else let m = (if capture \<in> set (cm_approved_types m) then m else m\<lparr>cm_approved_types := cm_approved_types m @ [capture]\<rparr>);
               m = (if privacy = [] then m else m\<lparr>cm_privacy_defaults := dset capture privacy (cm_privacy_defaults m)\<rparr>);
               (now, rt) = time_time rt;
               m = m\<lparr>cm_consent_history := cm_consent_history m @ [[(''action'', JStr ''grant''), (''capture_type'', JStr capture),
                 (''privacy'', JStr (if privacy \<noteq> [] then privacy else dget_default (cm_privacy_defaults m) capture ''private'')),
                 (''duration'', JStr duration), (''timestamp'', JFloat now)]]\<rparr>
           in (True, consent_save m, rt))"

text \<open>\<open>list.remove\<close> takes out the first occurrence.\<close>

definition revoke :: "string \<Rightarrow> consent_manager \<Rightarrow> runtime \<Rightarrow> bool \<times> consent_manager \<times> runtime" where
  "revoke capture m rt =
     (let m = m\<lparr>cm_approved_types := remove1 capture (cm_approved_types m)\<rparr>; (now, rt) = time_time rt;
          m = m\<lparr>cm_consent_history := cm_consent_history m @ [[(''action'', JStr ''revoke''), (''capture_type'', JStr capture),
            (''timestamp'', JFloat now)]]\<rparr>
      in (True, consent_save m, rt))"

definition revoke_all :: "consent_manager \<Rightarrow> runtime \<Rightarrow> consent_manager \<times> runtime" where
  "revoke_all m rt =
     (let (now, rt) = time_time rt;
          m = m\<lparr>cm_approved_types := [], cm_level := NONE, cm_monetization_enabled := False, cm_public_anchor_allowed := False,
            cm_consent_history := cm_consent_history m @ [[(''action'', JStr ''revoke_all''), (''timestamp'', JFloat now)]]\<rparr>
      in (consent_save m, rt))"

definition is_capture_approved :: "string \<Rightarrow> consent_manager \<Rightarrow> bool" where
  "is_capture_approved capture m = (capture \<in> set (cm_approved_types m))"

definition get_privacy :: "string \<Rightarrow> consent_manager \<Rightarrow> string" where
  "get_privacy capture m = dget_default (cm_privacy_defaults m) capture ''private''"

definition can_monetize :: "consent_manager \<Rightarrow> bool" where
  "can_monetize m = cm_monetization_enabled m"

definition can_anchor_publicly :: "consent_manager \<Rightarrow> bool" where
  "can_anchor_publicly m = cm_public_anchor_allowed m"

definition export_consent_log :: "consent_manager \<Rightarrow> runtime \<Rightarrow> json dict \<times> runtime" where
  "export_consent_log m rt = (let (now, rt) = time_time rt in
     ([(''user_id'', JStr (cm_user_id m)), (''export_timestamp'', JFloat now),
       (''current_level'', JStr (consent_level_value (cm_level m))), (''approved_types'', jstrs (cm_approved_types m)),
       (''privacy_defaults'', JObj (map (\<lambda>(k, v). (k, JStr v)) (cm_privacy_defaults m))),
       (''monetization_enabled'', JBool (cm_monetization_enabled m)),
       (''public_anchor_allowed'', JBool (cm_public_anchor_allowed m)),
       (''consent_history'', JList (map JObj (cm_consent_history m)))], rt))"

section \<open>Runs\<close>

text \<open>One call, or a restart on the same file.\<close>

inductive consent_step :: "consent_manager \<times> runtime \<Rightarrow> string option \<Rightarrow> consent_manager \<times> runtime \<Rightarrow> bool" where
  step_grant: "grant c p d m rt = (r, m', rt') \<Longrightarrow> consent_step (m, rt) (Some c) (m', rt')"
| step_revoke: "revoke c m rt = (r, m', rt') \<Longrightarrow> consent_step (m, rt) None (m', rt')"
| step_revoke_all: "revoke_all m rt = (m', rt') \<Longrightarrow> consent_step (m, rt) None (m', rt')"
| step_restart: "consent_step (m, rt) None (consent_manager_init (cm_user_id m) (cm_file m), rt)"

text \<open>A run with the capture types that grants were called for along it.\<close>

inductive consent_run :: "consent_manager \<times> runtime \<Rightarrow> string list \<Rightarrow> consent_manager \<times> runtime \<Rightarrow> bool" where
  run_nil: "consent_run s [] s"
| run_step: "consent_run s gs t \<Longrightarrow> consent_step t g u \<Longrightarrow> consent_run s (gs @ (case g of None \<Rightarrow> [] | Some c \<Rightarrow> [c])) u"

text \<open>The file is missing as long as nothing was changed, and afterwards holds the state.\<close>

definition consent_ok :: "consent_manager \<Rightarrow> bool" where
  "consent_ok m \<longleftrightarrow> consent_manager_init (cm_user_id m) (cm_file m) = m \<and> distinct (cm_approved_types m) \<and>
     set (cm_approved_types m) \<subseteq> set CAPTURE_TYPES"

lemma level_roundtrip [simp]: "consent_level_of (consent_level_value l) = Some l"
  by (cases l) (simp_all add: consent_level_of_def)

lemma reload_saved: "consent_manager_init (cm_user_id m) (cm_file (consent_save m)) = consent_save m"
  by (simp add: consent_manager_init_def consent_load_def consent_save_def fresh_manager_def or_default_def)

lemma consent_save_simps [simp]:
  "cm_user_id (consent_save m) = cm_user_id m" "cm_approved_types (consent_save m) = cm_approved_types m"
  "cm_level (consent_save m) = cm_level m" "cm_privacy_defaults (consent_save m) = cm_privacy_defaults m"
  "cm_monetization_enabled (consent_save m) = cm_monetization_enabled m"
  "cm_public_anchor_allowed (consent_save m) = cm_public_anchor_allowed m"
  by (simp_all add: consent_save_def)

lemma consent_ok_save:
  "distinct (cm_approved_types m) \<Longrightarrow> set (cm_approved_types m) \<subseteq> set CAPTURE_TYPES \<Longrightarrow> consent_ok (consent_save m)"
  using reload_saved [of m] by (simp add: consent_ok_def)

lemma consent_ok_init: "consent_ok (consent_manager_init user NoFile)"
  by (simp add: consent_ok_def consent_manager_init_def consent_load_def fresh_manager_def CAPTURE_TYPES_def)

lemma consent_step_ok:
  assumes "consent_step s g t" and "consent_ok (fst s)"
  shows "consent_ok (fst t)"
  using assms
proof (induction rule: consent_step.induct)
  case (step_grant c p d m rt r m' rt')
  then have ok: "consent_ok m" "distinct (cm_approved_types m)" "set (cm_approved_types m) \<subseteq> set CAPTURE_TYPES"
    by (simp_all add: consent_ok_def)
  show ?case
  proof (cases "c \<in> set CAPTURE_TYPES")
    case True
    then show ?thesis using step_grant(1) ok(2,3)
      by (auto simp: grant_def Let_def time_time_def split: if_splits intro!: consent_ok_save)
  next
    case False
    then show ?thesis using step_grant(1) ok(1) by (simp add: grant_def)
  qed
next
  case (step_revoke c m rt r m' rt')
  then show ?case
    by (auto simp: revoke_def Let_def time_time_def consent_ok_def [of m] intro!: consent_ok_save dest: notin_set_remove1)
next
  case (step_revoke_all m rt m' rt')
  then show ?case by (auto simp: revoke_all_def Let_def time_time_def intro!: consent_ok_save)
next
  case (step_restart m rt)
  then show ?case by (simp add: consent_ok_def)
qed

lemma consent_run_ok: "consent_run s gs t \<Longrightarrow> consent_ok (fst s) \<Longrightarrow> consent_ok (fst t)"
  by (induction rule: consent_run.induct) (auto dest: consent_step_ok)

text \<open>A type that is not approved becomes approved only by a grant for it.\<close>

lemma consent_step_approved:
  assumes "consent_step s g t" and "consent_ok (fst s)" and "\<not> is_capture_approved c (fst s)" and "g \<noteq> Some c"
  shows "\<not> is_capture_approved c (fst t)"
  using assms
proof (induction rule: consent_step.induct)
  case (step_grant c' p d m rt r m' rt')
  then show ?case by (auto simp: grant_def Let_def time_time_def is_capture_approved_def split: if_splits)
next
  case (step_revoke c' m rt r m' rt')
  then show ?case by (auto simp: revoke_def Let_def time_time_def is_capture_approved_def dest: notin_set_remove1)
next
  case (step_revoke_all m rt m' rt')
  then show ?case by (auto simp: revoke_all_def Let_def time_time_def is_capture_approved_def)
next
  case (step_restart m rt)
  then show ?case by (simp add: consent_ok_def)
qed

lemma consent_run_approved:
  assumes "consent_run s gs t" and "consent_ok (fst s)" and "\<not> is_capture_approved c (fst s)" and "c \<notin> set gs"
  shows "\<not> is_capture_approved c (fst t)"
  using assms
proof (induction rule: consent_run.induct)
  case (run_nil s)
  then show ?case by simp
next
  case (run_step s gs t g u)
  then have "\<not> is_capture_approved c (fst t)" "consent_ok (fst t)" by (auto dest: consent_run_ok)
  moreover have "g \<noteq> Some c" using run_step.prems(3) by auto
  ultimately show ?case using consent_step_approved [OF run_step.hyps(2)] by blast
qed

text \<open>
  A revoked consent stays revoked: whatever calls and restarts a new manager has been through, after
  \<open>revoke\<close> of a capture type or \<open>revoke_all\<close> the type is not approved, and it stays so through every further
  sequence of calls and restarts in which it is not granted again.
\<close>

theorem revoked_stays_revoked:
  assumes "consent_run (consent_manager_init user NoFile, rt0) gs (m, rt)"
    and "m' = fst (snd (revoke c m rt)) \<or> m' = fst (revoke_all m rt)"
    and "consent_run (m', rt') hs (m'', rt'')" and "c \<notin> set hs"
  shows "\<not> is_capture_approved c m''"
proof -
  have ok: "consent_ok m" using consent_run_ok [OF assms(1)] consent_ok_init by simp
  then have "distinct (cm_approved_types m)" by (simp add: consent_ok_def)
  then have "\<not> is_capture_approved c m'" using assms(2)
    by (auto simp: revoke_def revoke_all_def Let_def time_time_def is_capture_approved_def)
  moreover have "consent_ok m'"
    using assms(2)
  proof
    assume m': "m' = fst (snd (revoke c m rt))"
    have "revoke c m rt = (fst (revoke c m rt), m', snd (snd (revoke c m rt)))" using m' by simp
    from consent_step_ok [OF step_revoke [OF this]] ok show "consent_ok m'" by simp
  next
    assume m': "m' = fst (revoke_all m rt)"
    have "revoke_all m rt = (m', snd (revoke_all m rt))" using m' by simp
    from consent_step_ok [OF step_revoke_all [OF this]] ok show "consent_ok m'" by simp
  qed
  ultimately show ?thesis using consent_run_approved [OF assms(3)] assms(4) by simp
qed

text \<open>
  C24. The consent file is well typed and complete: along every run of calls and restarts of a new manager
  the approved types are distinct known capture types, and a manager created on the file is the manager itself.
\<close>

theorem consent_survives_restart:
  assumes "consent_run (consent_manager_init user NoFile, rt0) gs (m, rt)"
  shows "distinct (cm_approved_types m) \<and> set (cm_approved_types m) \<subseteq> set CAPTURE_TYPES \<and>
    consent_manager_init (cm_user_id m) (cm_file m) = m"
  using consent_run_ok [OF assms] consent_ok_init by (simp add: consent_ok_def)

text \<open>The level is not consulted: after \<open>revoke_all\<close> a grant approves a type although no capture is allowed.\<close>

lemma level_is_ignored:
  assumes "c \<in> set CAPTURE_TYPES"
  shows "let m' = fst (snd (grant c p d (fst (revoke_all m rt)) rt')) in is_capture_approved c m' \<and> cm_level m' = NONE"
  using assms by (simp add: grant_def revoke_all_def Let_def time_time_def is_capture_approved_def)

text \<open>Monetization and public anchors cannot be turned on by any call.\<close>

lemma monetization_never_enabled:
  assumes "consent_run s gs t" and "consent_ok (fst s)" and "\<not> can_monetize (fst s)" "\<not> can_anchor_publicly (fst s)"
  shows "\<not> can_monetize (fst t) \<and> \<not> can_anchor_publicly (fst t)"
  using assms
proof (induction rule: consent_run.induct)
  case (run_nil s)
  then show ?case by simp
next
  case (run_step s gs t g u)
  then have t: "\<not> can_monetize (fst t) \<and> \<not> can_anchor_publicly (fst t)" "consent_ok (fst t)" by (auto dest: consent_run_ok)
  from run_step.hyps(2) t show ?case
    by (cases rule: consent_step.cases)
       (auto simp: grant_def revoke_def revoke_all_def Let_def time_time_def can_monetize_def can_anchor_publicly_def
         consent_ok_def split: if_splits)
qed

section \<open>A concrete run\<close>

definition granted :: "consent_manager \<times> runtime" where
  "granted = snd (grant ''prompts'' [] ''permanent'' (consent_manager_init ''u'' NoFile) sample_rt)"

lemma granted_run: "consent_run (consent_manager_init ''u'' NoFile, sample_rt) [''prompts''] granted"
proof -
  have "consent_step (consent_manager_init ''u'' NoFile, sample_rt) (Some ''prompts'') granted"
    unfolding granted_def by (metis prod.collapse step_grant)
  from run_step [OF run_nil this] show ?thesis by simp
qed

theorem revoked_stays_revoked_witness:
  "is_capture_approved ''prompts'' (fst granted) \<and>
   \<not> is_capture_approved ''prompts'' (fst (snd (revoke ''prompts'' (fst granted) (snd granted))))"
proof -
  let ?m = "fst (snd (revoke ''prompts'' (fst granted) (snd granted)))"
  have "\<not> is_capture_approved ''prompts'' ?m"
    by (rule revoked_stays_revoked [of "''u''" sample_rt "[''prompts'']" "fst granted" "snd granted" ?m "''prompts''" sample_rt "[]" ?m sample_rt])
       (use granted_run in \<open>auto intro: run_nil\<close>)
  moreover have "is_capture_approved ''prompts'' (fst granted)"
    by (simp add: granted_def grant_def Let_def time_time_def is_capture_approved_def CAPTURE_TYPES_def consent_manager_init_def
        consent_load_def fresh_manager_def)
  ultimately show ?thesis by blast
qed

theorem consent_survives_restart_witness:
  "consent_manager_init ''u'' (cm_file (fst granted)) = fst granted \<and> cm_approved_types (fst granted) = [''builds'', ''prompts'']"
proof -
  have "consent_run (consent_manager_init ''u'' NoFile, sample_rt) [''prompts''] (fst granted, snd granted)" using granted_run by simp
  from consent_survives_restart [OF this] show ?thesis
    by (simp add: granted_def grant_def Let_def time_time_def CAPTURE_TYPES_def consent_manager_init_def consent_load_def fresh_manager_def)
qed

end
