(* ===== verification/Notary.thy ===== *)
theory Notary
  imports Sdk_Base
begin

text \<open>
  \<open>membra_sdk/kyi/notary.py\<close>: identity attestations and the review of flagged events. The documents are
  hashed and not kept.
\<close>

section \<open>State\<close>

record attestation =
  at_attestation_id :: string
  at_user_id :: string
  at_method :: string
  at_status :: string
  at_identity_hash :: string
  at_timestamp :: pyfloat
  at_expires_at :: "pyfloat option"
  at_metadata :: "json dict"

record flag =
  fl_flag_id :: string
  fl_event_id :: string
  fl_event_type :: string
  fl_reason :: string
  fl_user_id :: string
  fl_status :: string
  fl_timestamp :: pyfloat
  fl_notary_notes :: "string option"
  fl_reviewed_at :: "pyfloat option"

datatype review_entry =
    AttestationReview string string pyfloat
  | FlagReview string string string pyfloat

record notary =
  nt_attestations :: "attestation dict"
  nt_flagged_events :: "flag list"
  nt_review_log :: "review_entry list"

definition notary_init :: notary where
  "notary_init = \<lparr>nt_attestations = [], nt_flagged_events = [], nt_review_log = []\<rparr>"

section \<open>Operations\<close>

text \<open>
  The clock is read three times: for the identifier, the time of the request and the expiry. An absent
  document is the empty text. \<open>int(...)\<close> raises on a reading that is not finite.
\<close>

definition request_attestation ::
  "string \<Rightarrow> string \<Rightarrow> string \<Rightarrow> notary \<Rightarrow> runtime \<Rightarrow> attestation result \<times> notary \<times> runtime" where
  "request_attestation user meth document nt rt =
     (let (t0, rt) = time_time rt in
      case ftrunc t0 of Inl x \<Rightarrow> (Inl x, nt, rt)
      | Inr secs \<Rightarrow> let (t1, rt) = time_time rt; (t2, rt) = time_time rt;
            a = \<lparr>at_attestation_id = ''att-'' @ user @ ''-'' @ dec_int secs, at_user_id = user, at_method = meth,
              at_status = ''pending'', at_identity_hash = (if document = [] then [] else sha256_hex document),
              at_timestamp = t1, at_expires_at = Some (fadd t2 (Fin (86400 * 365))), at_metadata = []\<rparr>
          in (Inr a, nt\<lparr>nt_attestations := dset (at_attestation_id a) a (nt_attestations nt)\<rparr>, rt))"

definition verify_attestation :: "string \<Rightarrow> string \<Rightarrow> notary \<Rightarrow> runtime \<Rightarrow> bool \<times> notary \<times> runtime" where
  "verify_attestation aid notes nt rt =
     (case dget (nt_attestations nt) aid of None \<Rightarrow> (False, nt, rt)
      | Some a \<Rightarrow> let (now, rt) = time_time rt in
          (True, nt\<lparr>nt_attestations := dset aid (a\<lparr>at_status := ''verified''\<rparr>) (nt_attestations nt),
                    nt_review_log := nt_review_log nt @ [AttestationReview aid notes now]\<rparr>, rt))"

definition flag_event :: "string \<Rightarrow> string \<Rightarrow> string \<Rightarrow> string \<Rightarrow> notary \<Rightarrow> runtime \<Rightarrow> flag \<times> notary \<times> runtime" where
  "flag_event eid ety reason user nt rt =
     (let (now, rt) = time_time rt;
          f = \<lparr>fl_flag_id = ''flag-'' @ eid, fl_event_id = eid, fl_event_type = ety, fl_reason = reason, fl_user_id = user,
            fl_status = ''pending_review'', fl_timestamp = now, fl_notary_notes = None, fl_reviewed_at = None\<rparr>
      in (f, nt\<lparr>nt_flagged_events := nt_flagged_events nt @ [f]\<rparr>, rt))"

definition reviewed :: "bool \<Rightarrow> string \<Rightarrow> pyfloat \<Rightarrow> flag \<Rightarrow> flag" where
  "reviewed approved notes now f = f\<lparr>fl_status := (if approved then ''approved'' else ''rejected''),
     fl_notary_notes := Some notes, fl_reviewed_at := Some now\<rparr>"

text \<open>The loop stops at the first flag with the identifier.\<close>

fun review_first :: "string \<Rightarrow> (flag \<Rightarrow> flag) \<Rightarrow> flag list \<Rightarrow> flag list option" where
  "review_first fid g [] = None"
| "review_first fid g (f # fs) = (if fl_flag_id f = fid then Some (g f # fs) else map_option ((#) f) (review_first fid g fs))"

definition review_flag :: "string \<Rightarrow> bool \<Rightarrow> string \<Rightarrow> notary \<Rightarrow> runtime \<Rightarrow> bool \<times> notary \<times> runtime" where
  "review_flag fid approved notes nt rt =
     (case review_first fid (reviewed approved notes (rt_now rt)) (nt_flagged_events nt) of None \<Rightarrow> (False, nt, rt)
      | Some fs \<Rightarrow> let (t0, rt) = time_time rt; (t1, rt) = time_time rt in
          (True, nt\<lparr>nt_flagged_events := fs,
             nt_review_log := nt_review_log nt @ [FlagReview fid (if approved then ''approve'' else ''reject'') notes t1]\<rparr>, rt))"

text \<open>The clock is read once for every verified attestation of the user that has an expiry.\<close>

fun verified_loop :: "string \<Rightarrow> attestation list \<Rightarrow> runtime \<Rightarrow> bool \<times> runtime" where
  "verified_loop user [] rt = (False, rt)"
| "verified_loop user (a # as) rt =
     (if at_user_id a = user \<and> at_status a = ''verified'' then
        (case at_expires_at a of None \<Rightarrow> (True, rt)
         | Some x \<Rightarrow> if \<not> ftruthy x then (True, rt)
             else let (now, rt) = time_time rt in if flt x now then verified_loop user as rt else (True, rt))
      else verified_loop user as rt)"

definition is_identity_verified :: "string \<Rightarrow> notary \<Rightarrow> runtime \<Rightarrow> bool \<times> runtime" where
  "is_identity_verified user nt rt = verified_loop user (dvalues (nt_attestations nt)) rt"

definition get_attestation :: "string \<Rightarrow> notary \<Rightarrow> attestation option" where
  "get_attestation user nt = foldl (\<lambda>latest a. if at_user_id a \<noteq> user then latest
     else case latest of None \<Rightarrow> Some a | Some b \<Rightarrow> if flt (at_timestamp b) (at_timestamp a) then Some a else latest)
     None (dvalues (nt_attestations nt))"

record notary_stats =
  ns_total_attestations :: int
  ns_verified :: int
  ns_pending :: int
  ns_flagged_events :: int
  ns_reviewed :: int
  ns_pending_review :: int

definition notary_get_stats :: "notary \<Rightarrow> notary_stats" where
  "notary_get_stats nt =
     (let as = dvalues (nt_attestations nt); flagged = int (length (nt_flagged_events nt));
          done_reviews = int (length (filter (\<lambda>f. fl_status f \<in> {''approved'', ''rejected''}) (nt_flagged_events nt)))
      in \<lparr>ns_total_attestations = int (length as), ns_verified = int (length (filter (\<lambda>a. at_status a = ''verified'') as)),
          ns_pending = int (length (filter (\<lambda>a. at_status a = ''pending'') as)), ns_flagged_events = flagged,
          ns_reviewed = done_reviews, ns_pending_review = flagged - done_reviews\<rparr>)"

section \<open>Runs\<close>

inductive notary_step :: "notary \<times> runtime \<Rightarrow> notary \<times> runtime \<Rightarrow> bool" where
  step_request: "request_attestation u me d nt rt = (r, nt', rt') \<Longrightarrow> notary_step (nt, rt) (nt', rt')"
| step_verify: "verify_attestation a n nt rt = (b, nt', rt') \<Longrightarrow> notary_step (nt, rt) (nt', rt')"
| step_flag: "flag_event e ty re u nt rt = (f, nt', rt') \<Longrightarrow> notary_step (nt, rt) (nt', rt')"
| step_review: "review_flag fid ap n nt rt = (b, nt', rt') \<Longrightarrow> notary_step (nt, rt) (nt', rt')"
| step_query: "is_identity_verified u nt rt = (b, rt') \<Longrightarrow> notary_step (nt, rt) (nt, rt')"

text \<open>
  Attestations are stored under their identifier, pending or verified, and a verified one has an entry
  in the log; reviewed flags have one too.
\<close>

definition attestations_ok :: "notary \<Rightarrow> bool" where
  "attestations_ok nt \<longleftrightarrow> distinct (dkeys (nt_attestations nt)) \<and>
     (\<forall>k a. dget (nt_attestations nt) k = Some a \<longrightarrow> at_attestation_id a = k \<and> at_status a \<in> {''pending'', ''verified''} \<and>
       (at_status a = ''verified'' \<longrightarrow> (\<exists>notes t. AttestationReview k notes t \<in> set (nt_review_log nt))))"

definition flags_ok :: "notary \<Rightarrow> bool" where
  "flags_ok nt \<longleftrightarrow> (\<forall>f \<in> set (nt_flagged_events nt). fl_status f \<in> {''pending_review'', ''approved'', ''rejected''} \<and>
     (fl_status f \<noteq> ''pending_review'' \<longrightarrow> (\<exists>act notes t. FlagReview (fl_flag_id f) act notes t \<in> set (nt_review_log nt))))"

definition notary_ok :: "notary \<Rightarrow> bool" where
  "notary_ok nt \<longleftrightarrow> attestations_ok nt \<and> flags_ok nt"

text \<open>Growing the log and changing the other part keeps each half.\<close>

lemma attestations_ok_frame:
  assumes "attestations_ok nt" and "nt_attestations nt' = nt_attestations nt" and "set (nt_review_log nt) \<subseteq> set (nt_review_log nt')"
  shows "attestations_ok nt'"
  using assms(1,3) unfolding attestations_ok_def assms(2) by blast

lemma flags_ok_frame:
  assumes "flags_ok nt" and "nt_flagged_events nt' = nt_flagged_events nt" and "set (nt_review_log nt) \<subseteq> set (nt_review_log nt')"
  shows "flags_ok nt'"
  using assms(1,3) unfolding flags_ok_def assms(2) by blast

lemma attestations_ok_put:
  assumes "attestations_ok nt" and "at_attestation_id a = k" and "nt_attestations nt' = dset k a (nt_attestations nt)"
    and "at_status a = ''pending'' \<or> at_status a = ''verified'' \<and> (\<exists>notes t. AttestationReview k notes t \<in> set (nt_review_log nt'))"
    and "set (nt_review_log nt) \<subseteq> set (nt_review_log nt')"
  shows "attestations_ok nt'"
proof -
  have "at_attestation_id b = j \<and> at_status b \<in> {''pending'', ''verified''} \<and>
      (at_status b = ''verified'' \<longrightarrow> (\<exists>notes t. AttestationReview j notes t \<in> set (nt_review_log nt')))"
    if "dget (nt_attestations nt') j = Some b" for j b
  proof (cases "j = k")
    case True
    with that assms show ?thesis by auto
  next
    case False
    with that assms(3) have "dget (nt_attestations nt) j = Some b" by simp
    with assms(1,5) show ?thesis unfolding attestations_ok_def by blast
  qed
  moreover have "distinct (dkeys (nt_attestations nt'))" using assms(1,3) by (simp add: attestations_ok_def)
  ultimately show ?thesis unfolding attestations_ok_def by blast
qed

lemma notary_ok_init: "notary_ok notary_init"
  by (simp add: notary_ok_def attestations_ok_def flags_ok_def notary_init_def)

lemma review_first_Some:
  assumes "review_first fid g fs = Some gs"
  shows "\<exists>as f bs. fs = as @ f # bs \<and> gs = as @ g f # bs \<and> fl_flag_id f = fid \<and> list_all (\<lambda>h. fl_flag_id h \<noteq> fid) as"
  using assms
proof (induction fs arbitrary: gs)
  case Nil
  then show ?case by simp
next
  case (Cons h fs)
  show ?case
  proof (cases "fl_flag_id h = fid")
    case True
    with Cons.prems show ?thesis by (intro exI [of _ "[]"]) auto
  next
    case False
    with Cons.prems obtain gs' where g: "review_first fid g fs = Some gs'" "gs = h # gs'" by auto
    from Cons.IH [OF g(1)] obtain as f bs where "fs = as @ f # bs" "gs' = as @ g f # bs" "fl_flag_id f = fid"
      "list_all (\<lambda>h. fl_flag_id h \<noteq> fid) as" by blast
    with g(2) False show ?thesis by (intro exI [of _ "h # as"] exI [of _ f] exI [of _ bs]) simp
  qed
qed

lemma notary_ok_request:
  assumes "notary_ok nt" and "request_attestation u me d nt rt = (r, nt', rt')"
  shows "notary_ok nt'"
proof (cases r)
  case (Inl x)
  with assms show ?thesis by (auto simp: request_attestation_def Let_def time_time_def split: sum.splits)
next
  case (Inr a)
  with assms(2) have "at_status a = ''pending''" "nt' = nt\<lparr>nt_attestations := dset (at_attestation_id a) a (nt_attestations nt)\<rparr>"
    by (auto simp: request_attestation_def Let_def time_time_def split: sum.splits)
  with assms(1) show ?thesis
    by (auto simp: notary_ok_def intro: attestations_ok_put [of nt a] flags_ok_frame [of nt])
qed

lemma notary_ok_verify:
  assumes "notary_ok nt" and "verify_attestation aid n nt rt = (b, nt', rt')"
  shows "notary_ok nt'"
proof (cases "dget (nt_attestations nt) aid")
  case None
  with assms show ?thesis by (simp add: verify_attestation_def)
next
  case (Some a)
  with assms(1) have aid: "at_attestation_id a = aid" by (auto simp: notary_ok_def attestations_ok_def)
  from assms(2) Some have nt': "nt' = nt\<lparr>nt_attestations := dset aid (a\<lparr>at_status := ''verified''\<rparr>) (nt_attestations nt),
      nt_review_log := nt_review_log nt @ [AttestationReview aid n (rt_now rt)]\<rparr>"
    by (auto simp: verify_attestation_def Let_def time_time_def)
  moreover have "attestations_ok nt'"
  proof (rule attestations_ok_put)
    show "attestations_ok nt" using assms(1) by (simp add: notary_ok_def)
    show "at_attestation_id (a\<lparr>at_status := ''verified''\<rparr>) = aid" using aid by simp
  qed (simp_all add: nt', blast+)
  moreover have "flags_ok nt'" using assms(1) flags_ok_frame [of nt nt'] by (auto simp: notary_ok_def nt')
  ultimately show ?thesis by (simp add: notary_ok_def)
qed

lemma notary_ok_review:
  assumes "notary_ok nt" and "review_flag fid ap n nt rt = (b, nt', rt')"
  shows "notary_ok nt'"
proof (cases "review_first fid (reviewed ap n (rt_now rt)) (nt_flagged_events nt)")
  case None
  with assms show ?thesis by (simp add: review_flag_def)
next
  case (Some fs)
  from review_first_Some [OF Some] obtain as f bs where
    fs: "nt_flagged_events nt = as @ f # bs" "fs = as @ reviewed ap n (rt_now rt) f # bs" "fl_flag_id f = fid" by blast
  from Some assms(2) obtain t where nt': "nt' = nt\<lparr>nt_flagged_events := fs,
      nt_review_log := nt_review_log nt @ [FlagReview fid (if ap then ''approve'' else ''reject'') n t]\<rparr>"
    by (auto simp: review_flag_def Let_def time_time_def)
  have log: "set (nt_review_log nt) \<subseteq> set (nt_review_log nt')" unfolding nt' by auto
  have "fl_status g \<in> {''pending_review'', ''approved'', ''rejected''} \<and>
      (fl_status g \<noteq> ''pending_review'' \<longrightarrow> (\<exists>act notes t. FlagReview (fl_flag_id g) act notes t \<in> set (nt_review_log nt')))"
    if "g \<in> set fs" for g
  proof (cases "g = reviewed ap n (rt_now rt) f")
    case True
    then show ?thesis using fs(3) unfolding nt' by (auto simp: reviewed_def)
  next
    case False
    with that fs have "g \<in> set (nt_flagged_events nt)" by auto
    with assms(1) log show ?thesis unfolding notary_ok_def flags_ok_def by blast
  qed
  then have "flags_ok nt'" unfolding flags_ok_def nt' by simp
  moreover have "attestations_ok nt'"
    using assms(1) log by (intro attestations_ok_frame [of nt nt']) (simp_all add: notary_ok_def nt')
  ultimately show ?thesis by (simp add: notary_ok_def)
qed

lemma notary_step_ok: "notary_step s t \<Longrightarrow> notary_ok (fst s) \<Longrightarrow> notary_ok (fst t)"
proof (induction rule: notary_step.induct)
  case (step_flag e ty re u nt rt f nt' rt')
  then have nt': "nt' = nt\<lparr>nt_flagged_events := nt_flagged_events nt @ [f]\<rparr>" "fl_status f = ''pending_review''"
    by (auto simp: flag_event_def Let_def time_time_def)
  with step_flag show ?case
    by (auto simp: notary_ok_def flags_ok_def intro: attestations_ok_frame [of nt])
qed (auto intro: notary_ok_request notary_ok_verify notary_ok_review)

interpretation notary_calls: component_invariant notary_step notary_ok
  by unfold_locales (rule notary_step_ok)

lemma notary_run_ok: "notary_step\<^sup>*\<^sup>* s t \<Longrightarrow> notary_ok (fst s) \<Longrightarrow> notary_ok (fst t)"
  by (rule notary_calls.run_ok)

lemma verified_loop_True:
  assumes "verified_loop user as rt = (True, rt')"
  shows "\<exists>a \<in> set as. at_user_id a = user \<and> at_status a = ''verified'' \<and>
    (\<forall>x. at_expires_at a = Some x \<longrightarrow> ftruthy x \<longrightarrow> (\<exists>i. \<not> flt x (clock rt i)))"
  using assms
proof (induction as arbitrary: rt)
  case Nil
  then show ?case by simp
next
  case (Cons a as)
  show ?case
  proof (cases "verified_loop user as (rt_tick rt) = (True, rt') \<or> verified_loop user as rt = (True, rt')")
    case True
    then show ?thesis using Cons.IH [of "rt_tick rt"] Cons.IH [of rt] by auto
  next
    case False
    with Cons.prems show ?thesis by (auto simp: time_time_def Let_def split: if_splits option.splits)
  qed
qed

text \<open>
  An identity counts as verified only by a notary: in every run of a new notary, when
  \<open>is_identity_verified\<close> answers yes, the user has an attestation whose verification is in the review log
  and that had not expired at some reading of the clock.
\<close>

theorem identity_verified_by_notary:
  assumes "notary_step\<^sup>*\<^sup>* (notary_init, rt0) (nt, rt)" and "is_identity_verified user nt rt = (True, rt')"
  shows "\<exists>a notes t. dget (nt_attestations nt) (at_attestation_id a) = Some a \<and> at_user_id a = user \<and>
    at_status a = ''verified'' \<and> AttestationReview (at_attestation_id a) notes t \<in> set (nt_review_log nt) \<and>
    (\<forall>x. at_expires_at a = Some x \<longrightarrow> ftruthy x \<longrightarrow> (\<exists>i. \<not> flt x (clock rt i)))"
proof -
  have ok: "notary_ok nt" using notary_run_ok [OF assms(1)] notary_ok_init by simp
  from verified_loop_True [of user "dvalues (nt_attestations nt)" rt rt'] assms(2) obtain a where
    a: "a \<in> set (dvalues (nt_attestations nt))" "at_user_id a = user" "at_status a = ''verified''"
      "\<forall>x. at_expires_at a = Some x \<longrightarrow> ftruthy x \<longrightarrow> (\<exists>i. \<not> flt x (clock rt i))"
    by (auto simp: is_identity_verified_def)
  then obtain k where "(k, a) \<in> set (nt_attestations nt)" by auto
  with ok have "dget (nt_attestations nt) k = Some a" by (simp add: notary_ok_def attestations_ok_def)
  moreover from this ok a(3) obtain ns t where "at_attestation_id a = k" "AttestationReview k ns t \<in> set (nt_review_log nt)"
    unfolding notary_ok_def attestations_ok_def by blast
  ultimately show ?thesis using a by blast
qed

text \<open>
  An event flagged twice can never be reviewed completely: both flags have the same identifier and only
  the first is found, so the second stays pending through every review.
\<close>

lemma second_flag_stays_pending:
  assumes "nt_flagged_events nt = as @ f # bs @ g # cs" and "fl_flag_id f = fl_flag_id g"
    and "review_flag fid ap n nt rt = (b, nt', rt')"
  shows "\<exists>as' f' bs' cs'. nt_flagged_events nt' = as' @ f' # bs' @ g # cs' \<and> fl_flag_id f' = fl_flag_id g"
proof (cases "review_first fid (reviewed ap n (rt_now rt)) (nt_flagged_events nt)")
  case None
  with assms show ?thesis by (auto simp: review_flag_def)
next
  case (Some fs)
  let ?r = "reviewed ap n (rt_now rt)"
  have nt': "nt_flagged_events nt' = fs" using Some assms(3) by (auto simp: review_flag_def Let_def time_time_def)
  have id: "fl_flag_id (?r h) = fl_flag_id h" for h by (simp add: reviewed_def)
  have app: "review_first fid ?r (xs @ ys) = (case review_first fid ?r xs of Some zs \<Rightarrow> Some (zs @ ys)
      | None \<Rightarrow> map_option ((@) xs) (review_first fid ?r ys))" for xs ys
    by (induction xs; cases "review_first fid ?r ys") (auto split: option.splits)
  show ?thesis
  proof (cases "review_first fid ?r (as @ f # bs)")
    case (Some zs)
    from review_first_Some [OF this] obtain us h ws where z: "as @ f # bs = us @ h # ws" "zs = us @ ?r h # ws" by blast
    have "map fl_flag_id zs = map fl_flag_id (us @ h # ws)" unfolding z(2) by (simp add: id)
    then have "map fl_flag_id zs = map fl_flag_id (as @ f # bs)" unfolding z(1) .
    then obtain as' f' bs' where "zs = as' @ f' # bs'" "fl_flag_id f' = fl_flag_id f"
      by (auto simp: map_eq_append_conv map_eq_Cons_conv)
    moreover have "fs = zs @ g # cs" using app [of "as @ f # bs" "g # cs"] Some \<open>review_first fid ?r (nt_flagged_events nt) = Some fs\<close> assms(1) by simp
    ultimately show ?thesis using nt' assms(2) by auto
  next
    case None
    have "fl_flag_id f \<noteq> fid"
    proof
      assume "fl_flag_id f = fid"
      with None app [of as "f # bs"] show False by (auto split: option.splits)
    qed
    then obtain ds where "fs = as @ f # bs @ g # ds"
      using app [of "as @ f # bs" "g # cs"] None \<open>review_first fid ?r (nt_flagged_events nt) = Some fs\<close> assms(1,2) by auto
    then show ?thesis using nt' assms(2) by blast
  qed
qed

section \<open>A concrete run\<close>

definition asked :: "notary \<times> runtime" where
  "asked = snd (request_attestation ''u'' ''email'' [] notary_init sample_rt)"

definition attested :: "notary \<times> runtime" where
  "attested = snd (verify_attestation ''att-u-0'' [] (fst asked) (snd asked))"

lemma attested_run: "notary_step\<^sup>*\<^sup>* (notary_init, sample_rt) attested"
proof -
  have "notary_step (notary_init, sample_rt) asked" unfolding asked_def by (metis prod.collapse step_request)
  moreover have "notary_step asked attested" unfolding attested_def by (metis prod.collapse step_verify)
  ultimately show ?thesis by (meson r_into_rtranclp rtranclp_trans)
qed

lemma attested_verified: "\<exists>rt'. is_identity_verified ''u'' (fst attested) (snd attested) = (True, rt')"
proof -
  have "rtrunc 0 = 0" by (simp add: rtrunc_def)
  then show ?thesis
    by (simp add: attested_def asked_def request_attestation_def verify_attestation_def notary_init_def is_identity_verified_def
        time_time_def Let_def dec_int_def dec_nat.simps digit_char_def ftruthy_def)
qed

theorem identity_verified_by_notary_witness:
  "\<exists>notes t. AttestationReview ''att-u-0'' notes t \<in> set (nt_review_log (fst attested))"
proof -
  from attested_verified obtain rt' where v: "is_identity_verified ''u'' (fst attested) (snd attested) = (True, rt')" by blast
  have run: "notary_step\<^sup>*\<^sup>* (notary_init, sample_rt) (fst attested, snd attested)" using attested_run by simp
  from identity_verified_by_notary [OF run v] obtain a ns t where
    "dget (nt_attestations (fst attested)) (at_attestation_id a) = Some a"
    "AttestationReview (at_attestation_id a) ns t \<in> set (nt_review_log (fst attested))" by blast
  then show ?thesis
    by (auto simp: attested_def asked_def request_attestation_def verify_attestation_def notary_init_def time_time_def Let_def
        dec_int_def dec_nat.simps digit_char_def rtrunc_def split: if_splits)
qed

end
