(* ===== verification/Artifact_Tracker.thy ===== *)
theory Artifact_Tracker
  imports PyNum
begin

text \<open>
  \<open>membra_sdk/core/artifacts.py\<close>: build artifacts with their content and log hashes, the tests and compilations that change their
  status, and the index file. The files and the processes of the machine are parameters. An artifact is an
  object in the list of the tracker, named here by its position; the index is the value its file parses to.
\<close>

section \<open>Data\<close>

record build_artifact =
  ba_artifact_id :: string
  ba_artifact_type :: string
  ba_path :: string
  ba_content_hash :: string
  ba_build_log_hash :: string
  ba_status :: string
  ba_timestamp :: pyfloat
  ba_metadata :: "json dict"

text \<open>What opening a path gives: no file, a directory or a file that cannot be read, or its bytes.\<close>

datatype disk_entry = NoEntry | NotReadable | Bytes "nat list"

text \<open>How a process ended: an exit code with both outputs, a missing program, or another exception with its text.\<close>

datatype process_end = Ended int string string | NoProgram string | Raised string

record tracker =
  ta_artifacts :: "build_artifact list"
  ta_index :: "json option option"

section \<open>The index\<close>

definition artifact_to_dict :: "build_artifact \<Rightarrow> json dict" where
  "artifact_to_dict a = [(''artifact_id'', JStr (ba_artifact_id a)), (''artifact_type'', JStr (ba_artifact_type a)), (''path'', JStr (ba_path a)),
     (''content_hash'', JStr (ba_content_hash a)), (''build_log_hash'', JStr (ba_build_log_hash a)), (''status'', JStr (ba_status a)),
     (''timestamp'', JFloat (ba_timestamp a)), (''metadata'', JObj (ba_metadata a))]"

definition save_index :: "tracker \<Rightarrow> tracker" where
  "save_index t = t\<lparr>ta_index := Some (Some (JList (map (\<lambda>a. JObj (artifact_to_dict a)) (ta_artifacts t))))\<rparr>"

text \<open>An entry of the index; \<open>None\<close> where a field is missing or is not of its type.\<close>

definition artifact_of_dict :: "json dict \<Rightarrow> build_artifact option" where
  "artifact_of_dict d = do {
     i \<leftarrow> Option.bind (dget d ''artifact_id'') as_str; ty \<leftarrow> Option.bind (dget d ''artifact_type'') as_str;
     p \<leftarrow> Option.bind (dget d ''path'') as_str; c \<leftarrow> Option.bind (dget d ''content_hash'') as_str;
     b \<leftarrow> Option.bind (dget d ''build_log_hash'') as_str; s \<leftarrow> Option.bind (dget d ''status'') as_str;
     t \<leftarrow> Option.bind (dget d ''timestamp'') as_float; m \<leftarrow> as_obj (dget_default d ''metadata'' (JObj []));
     Some \<lparr>ba_artifact_id = i, ba_artifact_type = ty, ba_path = p, ba_content_hash = c, ba_build_log_hash = b, ba_status = s,
       ba_timestamp = t, ba_metadata = m\<rparr> }"

text \<open>Any exception while the index is read leaves the list as it was.\<close>

definition load_index :: "tracker \<Rightarrow> tracker" where
  "load_index t = (case ta_index t of Some (Some v) \<Rightarrow>
       (case Option.bind (as_objs v) (traverse artifact_of_dict) of None \<Rightarrow> t | Some as \<Rightarrow> t\<lparr>ta_artifacts := as\<rparr>)
     | _ \<Rightarrow> t)"

definition tracker_init :: "json option option \<Rightarrow> tracker" where
  "tracker_init index = load_index \<lparr>ta_artifacts = [], ta_index = index\<rparr>"

section \<open>Operations\<close>

definition tracker_hash_file :: "(string \<Rightarrow> disk_entry) \<Rightarrow> string \<Rightarrow> string result" where
  "tracker_hash_file disk path = (case disk path of NoEntry \<Rightarrow> Inr [] | NotReadable \<Rightarrow> Inl OSError | Bytes bs \<Rightarrow> Inr (hexdigest bs))"

definition register_file :: "(string \<Rightarrow> disk_entry) \<Rightarrow> string \<Rightarrow> string \<Rightarrow> tracker \<Rightarrow> runtime \<Rightarrow> build_artifact result \<times> tracker \<times> runtime" where
  "register_file disk path ty t rt = (case tracker_hash_file disk path of Inl x \<Rightarrow> (Inl x, t, rt)
     | Inr h \<Rightarrow> let (t1, rt) = time_time rt in (case ftrunc (fmul t1 (Fin 1000)) of Inl x \<Rightarrow> (Inl x, t, rt)
       | Inr ms \<Rightarrow> let (now, rt) = time_time rt;
           a = \<lparr>ba_artifact_id = ''art-'' @ dec_int ms @ ''-'' @ take 8 (sha256_hex path), ba_artifact_type = ty, ba_path = path, ba_content_hash = h,
             ba_build_log_hash = [], ba_status = ''created'', ba_timestamp = now,
             ba_metadata = [(''size'', JInt (case disk path of Bytes bs \<Rightarrow> int (length bs) | _ \<Rightarrow> 0))]\<rparr>
         in (Inr a, save_index (t\<lparr>ta_artifacts := ta_artifacts t @ [a]\<rparr>), rt)))"

text \<open>\<open>os.path.dirname\<close>: what stands before the last slash, without trailing slashes unless there is nothing else.\<close>

definition dirname :: "string \<Rightarrow> string" where
  "dirname p = (let head = rev (dropWhile (\<lambda>c. c \<noteq> CHR ''/'') (rev p)); bare = rev (dropWhile (\<lambda>c. c = CHR ''/'') (rev head))
     in if bare = [] then head else bare)"

definition test_log :: "int \<Rightarrow> string \<Rightarrow> string \<Rightarrow> string" where
  "test_log code out err = ''exit='' @ dec_int code @ [CHR 0x0A] @ ''stdout='' @ take 2000 out @ [CHR 0x0A] @ ''stderr='' @ take 1000 err"

definition tested :: "process_end \<Rightarrow> build_artifact \<Rightarrow> build_artifact" where
  "tested r a = (case r of
     Ended code out err \<Rightarrow> a\<lparr>ba_build_log_hash := sha256_hex (test_log code out err), ba_status := (if code = 0 then ''tested'' else ''test_failed''),
       ba_metadata := dset ''test_log_preview'' (JStr (take 500 out)) (dset ''test_exit_code'' (JInt code) (ba_metadata a))\<rparr>
   | NoProgram msg \<Rightarrow> a\<lparr>ba_status := ''test_error'', ba_metadata := dset ''test_error'' (JStr msg) (ba_metadata a)\<rparr>
   | Raised msg \<Rightarrow> a\<lparr>ba_status := ''test_error'', ba_metadata := dset ''test_error'' (JStr msg) (ba_metadata a)\<rparr>)"

definition change_artifact :: "nat \<Rightarrow> (build_artifact \<Rightarrow> build_artifact) \<Rightarrow> tracker \<Rightarrow> tracker" where
  "change_artifact i f t = save_index (t\<lparr>ta_artifacts := (ta_artifacts t)[i := f (ta_artifacts t ! i)]\<rparr>)"

text \<open>The command runs in the directory of a file and in the path itself otherwise.\<close>

definition tracker_run_tests :: "(string \<Rightarrow> disk_entry) \<Rightarrow> (string list \<Rightarrow> string \<Rightarrow> process_end) \<Rightarrow> nat \<Rightarrow> string list \<Rightarrow> tracker \<Rightarrow> tracker" where
  "tracker_run_tests disk run i cmd t = (let path = ba_path (ta_artifacts t ! i);
       cwd = (case disk path of Bytes bs \<Rightarrow> dirname path | _ \<Rightarrow> path)
     in change_artifact i (tested (run cmd cwd)) t)"

definition compiled :: "string \<Rightarrow> process_end \<Rightarrow> build_artifact \<Rightarrow> build_artifact" where
  "compiled compiler r a = (case r of
     Ended code out err \<Rightarrow> if code = 0 then a\<lparr>ba_content_hash := sha256_hex (last (split_on (CHR 0x0A) (strip out))), ba_status := ''compiled'',
         ba_metadata := dset ''compiler'' (JStr compiler) (ba_metadata a)\<rparr>
       else a\<lparr>ba_status := ''compile_failed'', ba_metadata := dset ''compile_error'' (JStr (take 500 err)) (ba_metadata a)\<rparr>
   | NoProgram msg \<Rightarrow> a\<lparr>ba_status := ''compiler_missing'', ba_metadata := dset ''compile_error'' (JStr (compiler @ '' not installed'')) (ba_metadata a)\<rparr>
   | Raised msg \<Rightarrow> a\<lparr>ba_status := ''compile_error'', ba_metadata := dset ''compile_error'' (JStr msg) (ba_metadata a)\<rparr>)"

definition compile_contract :: "(string list \<Rightarrow> process_end) \<Rightarrow> nat \<Rightarrow> string \<Rightarrow> tracker \<Rightarrow> tracker" where
  "compile_contract run i compiler t = change_artifact i (compiled compiler (run [compiler, ''--bin'', ba_path (ta_artifacts t ! i)])) t"

definition get_yield_evidence :: "tracker \<Rightarrow> json dict list" where
  "get_yield_evidence t = map (\<lambda>a. [(''id'', JStr (ba_artifact_id a)), (''type'', JStr (ba_artifact_type a)), (''path'', JStr (ba_path a)),
       (''content_hash'', JStr (ba_content_hash a)), (''build_log_hash'', JStr (ba_build_log_hash a)), (''status'', JStr (ba_status a)),
       (''timestamp'', JFloat (ba_timestamp a))])
     (filter (\<lambda>a. ba_status a \<in> {''tested'', ''compiled'', ''deployed''}) (ta_artifacts t))"

record tracker_stats =
  tas_total :: int
  tas_tested :: int
  tas_compiled :: int
  tas_failed :: int
  tas_yield_evidence :: int

definition tracker_get_stats :: "tracker \<Rightarrow> tracker_stats" where
  "tracker_get_stats t = \<lparr>tas_total = int (length (ta_artifacts t)),
     tas_tested = int (length (filter (\<lambda>a. ba_status a = ''tested'') (ta_artifacts t))),
     tas_compiled = int (length (filter (\<lambda>a. ba_status a = ''compiled'') (ta_artifacts t))),
     tas_failed = int (length (filter (\<lambda>a. str_in ''failed'' (ba_status a) \<or> str_in ''error'' (ba_status a)) (ta_artifacts t))),
     tas_yield_evidence = int (length (get_yield_evidence t))\<rparr>"

section \<open>Evidence is earned\<close>

text \<open>
  The calls on a tracker: registering a file, testing and compiling a registered artifact, and a restart on the index.
\<close>

inductive tracker_step :: "tracker \<times> runtime \<Rightarrow> tracker \<times> runtime \<Rightarrow> bool" where
  register: "register_file disk path ty t rt = (r, t', rt') \<Longrightarrow> tracker_step (t, rt) (t', rt')"
| test: "i < length (ta_artifacts t) \<Longrightarrow> tracker_step (t, rt) (tracker_run_tests disk run i cmd t, rt)"
| comp: "i < length (ta_artifacts t) \<Longrightarrow> tracker_step (t, rt) (compile_contract run' i compiler t, rt)"
| restart: "tracker_step (t, rt) (tracker_init (ta_index t), rt)"

text \<open>What an artifact in each state carries.\<close>

definition artifact_ok :: "build_artifact \<Rightarrow> bool" where
  "artifact_ok a \<longleftrightarrow> ba_status a \<in> {''created'', ''tested'', ''test_failed'', ''test_error'', ''compiled'', ''compile_failed'', ''compiler_missing'', ''compile_error''} \<and>
     (ba_status a = ''tested'' \<longrightarrow> dget (ba_metadata a) ''test_exit_code'' = Some (JInt 0) \<and>
        (\<exists>out err. ba_build_log_hash a = sha256_hex (test_log 0 out err))) \<and>
     (ba_status a = ''compiled'' \<longrightarrow> (\<exists>c line. dget (ba_metadata a) ''compiler'' = Some (JStr c) \<and> ba_content_hash a = sha256_hex line))"

definition index_ok :: "tracker \<Rightarrow> bool" where
  "index_ok t \<longleftrightarrow> (ta_index t = None \<and> ta_artifacts t = []) \<or> ta_index t = Some (Some (JList (map (\<lambda>a. JObj (artifact_to_dict a)) (ta_artifacts t))))"

definition tracker_ok :: "tracker \<Rightarrow> bool" where
  "tracker_ok t \<longleftrightarrow> index_ok t \<and> list_all artifact_ok (ta_artifacts t)"

lemma artifact_roundtrip [simp]: "artifact_of_dict (artifact_to_dict a) = Some a"
  by (simp add: artifact_of_dict_def artifact_to_dict_def dget_default_def)

lemma traverse_artifacts [simp]: "traverse artifact_of_dict (map artifact_to_dict as) = Some as"
  by (induction as) simp_all

lemma index_restart: "index_ok t \<Longrightarrow> tracker_init (ta_index t) = t"
proof -
  assume "index_ok t"
  then consider "ta_index t = None" "ta_artifacts t = []" | "ta_index t = Some (Some (JList (map JObj (map artifact_to_dict (ta_artifacts t)))))"
    by (auto simp: index_ok_def comp_def)
  then show ?thesis
  proof cases
    case 2
    then show ?thesis by (cases t) (simp add: tracker_init_def load_index_def del: map_map)
  qed (cases t, simp add: tracker_init_def load_index_def)
qed

lemma index_ok_save [simp]: "index_ok (save_index t)"
  by (simp add: index_ok_def save_index_def)

lemma tested_ok: "artifact_ok (tested r a)"
  by (auto simp: artifact_ok_def tested_def split: process_end.split)

lemma compiled_ok: "artifact_ok (compiled c r a)"
  by (auto simp: artifact_ok_def compiled_def split: process_end.split)

lemma change_ok:
  assumes "tracker_ok t" and "\<And>a. artifact_ok (f a)"
  shows "tracker_ok (change_artifact i f t)"
proof -
  have "list_all artifact_ok ((ta_artifacts t)[i := f (ta_artifacts t ! i)])"
    using assms set_update_subset_insert [of "ta_artifacts t" i] by (auto simp: tracker_ok_def list_all_iff)
  then show ?thesis by (simp add: change_artifact_def tracker_ok_def) (simp add: save_index_def)
qed

lemma register_ok:
  assumes "tracker_ok t" "register_file disk path ty t rt = (r, t', rt')"
  shows "tracker_ok t'"
proof -
  from assms(2) consider "t' = t" | a where "t' = save_index (t\<lparr>ta_artifacts := ta_artifacts t @ [a]\<rparr>)" "ba_status a = ''created''"
    by (auto simp: register_file_def Let_def time_time_def split: sum.splits)
  then show ?thesis
  proof cases
    case 2
    then show ?thesis using assms(1) by (simp add: tracker_ok_def) (simp add: save_index_def artifact_ok_def)
  qed (use assms(1) in simp)
qed

lemma tracker_run_ok:
  assumes "tracker_step\<^sup>*\<^sup>* s t" "tracker_ok (fst s)"
  shows "tracker_ok (fst t)"
  using assms
proof (induction rule: rtranclp_induct)
  case (step t u)
  then have ok: "tracker_ok (fst t)" by blast
  from step.hyps(2) ok show ?case
    by (cases rule: tracker_step.cases)
       (auto simp: tracker_run_tests_def compile_contract_def Let_def index_restart tracker_ok_def [of "tracker_init _"]
         intro: register_ok change_ok tested_ok compiled_ok dest: tracker_ok_def [THEN iffD1])
qed

text \<open>
  C30. Evidence is earned and kept: along every run of a new tracker with restarts, each record of evidence stems from an artifact that is either
  tested, with exit code 0 and the hash of a test log with exit code 0, or compiled, with the hash of
  the compiler's last line of output; and a tracker created on the index is the tracker itself.
\<close>

theorem evidence_is_earned:
  assumes "tracker_step\<^sup>*\<^sup>* (tracker_init None, rt0) (t, rt)"
  shows "tracker_init (ta_index t) = t \<and> (\<forall>e \<in> set (get_yield_evidence t). \<exists>a \<in> set (ta_artifacts t). dget e ''id'' = Some (JStr (ba_artifact_id a)) \<and>
    dget e ''status'' = Some (JStr (ba_status a)) \<and>
    (ba_status a = ''tested'' \<and> dget (ba_metadata a) ''test_exit_code'' = Some (JInt 0) \<and> (\<exists>out err. dget e ''build_log_hash'' = Some (JStr (sha256_hex (test_log 0 out err)))) \<or>
     ba_status a = ''compiled'' \<and> (\<exists>line. dget e ''content_hash'' = Some (JStr (sha256_hex line)))))"
proof -
  have "tracker_ok (tracker_init None)" by (simp add: tracker_ok_def index_ok_def tracker_init_def load_index_def)
  then have ok: "tracker_ok t" using tracker_run_ok [OF assms] by simp
  have "artifact_ok a" if "a \<in> set (ta_artifacts t)" for a using ok that by (simp add: tracker_ok_def list_all_iff)
  then show ?thesis using index_restart ok by (fastforce simp: get_yield_evidence_def tracker_ok_def artifact_ok_def)
qed

text \<open>A later compilation covers up failed tests: the artifact counts as evidence again.\<close>

lemma failed_tests_are_covered_up:
  assumes "i < length (ta_artifacts t)" and "run cmd (case disk (ba_path (ta_artifacts t ! i)) of Bytes bs \<Rightarrow> dirname (ba_path (ta_artifacts t ! i)) | _ \<Rightarrow> ba_path (ta_artifacts t ! i)) = Ended 1 out err"
    and "\<And>args. run' args = Ended 0 out' err'"
  shows "let u = compile_contract run' i compiler (tracker_run_tests disk run i cmd t) in
    ba_status (ta_artifacts (tracker_run_tests disk run i cmd t) ! i) = ''test_failed'' \<and> ba_status (ta_artifacts u ! i) = ''compiled'' \<and>
    dget (ba_metadata (ta_artifacts u ! i)) ''test_exit_code'' = Some (JInt 1)"
  using assms by (simp add: tracker_run_tests_def compile_contract_def change_artifact_def save_index_def tested_def compiled_def Let_def)

text \<open>A tracker whose one artifact passed its tests.\<close>

theorem evidence_is_earned_witness:
  "let t = tracker_run_tests (\<lambda>p. Bytes [1]) (\<lambda>c d. Ended 0 [] []) 0 [''pytest''] (fst (snd (register_file (\<lambda>p. Bytes [1]) ''a.py'' ''file'' (tracker_init None) sample_rt)))
   in length (get_yield_evidence t) = 1 \<and> tracker_init (ta_index t) = t"
proof -
  obtain r t rt' where t: "register_file (\<lambda>p. Bytes [1]) ''a.py'' ''file'' (tracker_init None) sample_rt = (r, t, rt')" by (metis prod_cases3)
  let ?u = "tracker_run_tests (\<lambda>p. Bytes [1]) (\<lambda>c d. Ended 0 [] []) 0 [''pytest''] t"
  obtain a where a: "ta_artifacts t = [a]"
    using t by (auto simp: register_file_def tracker_hash_file_def time_time_def Let_def save_index_def tracker_init_def load_index_def)
  have "tracker_step\<^sup>*\<^sup>* (tracker_init None, sample_rt) (t, rt')" using tracker_step.register [OF t] by blast
  moreover have "tracker_step (t, rt') (?u, rt')" by (rule tracker_step.test) (simp add: a)
  ultimately have "tracker_step\<^sup>*\<^sup>* (tracker_init None, sample_rt) (?u, rt')" by (rule rtranclp.rtrancl_into_rtrancl)
  from evidence_is_earned [OF this] have "tracker_init (ta_index ?u) = ?u" by blast
  moreover have "length (get_yield_evidence ?u) = 1"
    by (simp add: get_yield_evidence_def tracker_run_tests_def change_artifact_def save_index_def tested_def a)
  ultimately show ?thesis using t by simp
qed

end
