(* ===== verification/Spec2Isabelle.thy ===== *)
theory Spec2Isabelle
  imports Relayer Governance Volatility_Oracle Profit_Loop Personal_Chain Coordinator Rivl_Brain Membra_Node
    Brain_Server Chat_Api Byte_Tokenizer Stripe_Payments Shared_Memory P2p_Content Solana_Bridge Command_Line Consent Notary Token_Gate Yield_Meter Artifact_Tracker Defi_Operator
begin

text \<open>
  MEMBRA: a verification development of the settlement layer \<open>membra-l3\<close> and the library \<open>membra_sdk\<close>, both in Python.

  \<^bold>\<open>The program.\<close> The settlement layer \<open>membra-l3/membra_l3\<close> lets users pay without holding gas: a sender creates a payment intent, a
  relayer claims it, pays the fee from the credits the sender has earned by verified compute, and is paid back from the reserves of a
  gas vault. Every module logs what it does in one hash-chained proof book. Beside it the layer has an identity registry that limits risk,
  token routes, a volatility oracle that gates rebases, and a governance whose proposals cite entries of the proof book. The
  library \<open>membra_sdk\<close> runs work: a marketplace with escrow and payment receipts, a coordinator and a server that spread tasks
  over workers, brains that split prompts and judge the outputs, verifiers and rewards, consensus on batches of mined
  operations, proof bundles of jobs, payments by Stripe, a personal chain of consented events, and a gate in front of token
  launches. The interface \<open>membra-chat-to-chain/apps/api\<close>, the demo \<open>app.py\<close>, the command line \<open>membra_sdk/cli/main.py\<close> and the reference
  code under \<open>omnibus-generation-engine/examples\<close> are clients of their own.

  \<^bold>\<open>How the model corresponds to the code.\<close>
    \<^item> A class is a record with the fields of its instances, an enumeration is a datatype with the source's
      constructors, and a dictionary is an association list in insertion order. A text that belongs to an enumeration is given by a function like
      \<open>proof_type_value\<close>.
    \<^item> An operation is a function of the object and of the process around it that returns its result and both of them updated. In the settlement layer the
      process has the clock, the identifiers and the proof book singleton; in the library it has the clock and the identifiers. An exception is the left
      part of a sum over \<^typ>\<open>py_error\<close>; what was changed before the raise stays changed.
    \<^item> Integers are unbounded as in Python. Floats are binary64: a finite float is a rational number and every operation rounds to
      nearest, ties to even; infinities and NaN are there, the sign of zero is not. \<open>sum\<close> adds from left to right. \<open>repr\<close>, the fixed-point formats and
      \<open>json.dumps\<close> are written out, and SHA-256 is computed on 32-bit words.
    \<^item> Strings are lists of characters below 256 that are hashed as UTF-8; text outside Latin-1 in literals is kept as its UTF-8 bytes. The
      tokenizer, which is about Unicode itself, works on code points.
    \<^item> A file is kept as the value it parses to: \<open>json\<close> reads back what it has printed. The artifacts of \<open>Shared_Memory\<close> are kept as texts and read back with universal newlines. A missing or damaged file is \<^const>\<open>None\<close> or a
      damaged line.
    \<^item> A loop over a list is a structural recursion or a fold; a loop that waits is a recursion over the finite list of arrivals it
      waits for, and gives \<^const>\<open>None\<close> while it still waits.
    \<^item> What a component can do over time is an inductive step relation over its public calls, and a property of every reachable
      state is proved by induction over runs. A turn of an \<open>asyncio\<close> loop between two sleeps is one step, and so is a request to a server: concurrent requests are
      taken one after the other. For the brain server, which is threaded, claims of tasks are in addition cut in two halves that other requests may come
      between (\<open>overlap_step\<close>); the race this shows is stated as \<open>overlapping_claims_share_a_task\<close>.

  \<^bold>\<open>Theories.\<close> The first ones are shared: \<open>Prelude\<close> (exceptions, dictionaries, slices and two generic locales), \<open>PyFloat\<close>, \<open>PyStr\<close>, \<open>PyNum\<close>
  and \<open>Py_Regex\<close> (what the code uses of Python), \<open>Sha256\<close>, \<open>Hash_Chain\<close>, \<open>Runtime\<close> and \<open>Sdk_Base\<close>. Each of the others holds one component or a few close
  ones, and its opening text names their files:
    \<^item> The settlement layer: \<open>L3_Config\<close> (\<open>config.py\<close>), \<open>Proof_Book\<close> (\<open>proof_book.py\<close>), \<open>Gas_Vault\<close> and \<open>Vault_Runs\<close> (\<open>gas_vault.py\<close>),
      \<open>Intent_Network\<close>, \<open>Token_Router\<close>, \<open>Identity\<close>, \<open>Volatility_Oracle\<close>, \<open>Governance\<close>, and \<open>Relayer\<close>, which calls identity registry, vault and
      intent network and holds what is proved about them together.
    \<^item> The marketplace: \<open>Job_Board\<close>, \<open>Escrow\<close>, \<open>Payments\<close> (\<open>payments/receipts.py\<close> and \<open>settlement.py\<close>) and \<open>Profit_Loop\<close>, which drives them from a posted
      job to the distribution of its payment; \<open>Stripe_Payments\<close> and \<open>Artifact_Builder\<close> for paid sessions and what they deliver.
    \<^item> Distributed work: \<open>Job_Queue\<close>, \<open>Worker_Node\<close>, \<open>Coordinator\<close>, \<open>Brain_Server\<close> with its polling client, and \<open>Shared_Memory\<close>.
    \<^item> Brains and verifiers: \<open>Brain\<close>, \<open>Verifier_Stack\<close>, \<open>Reward_Engine\<close>, \<open>Rivl_Brain\<close>, \<open>Llm_Validator\<close>, \<open>Solana_Bridge\<close>, \<open>Byte_Tokenizer\<close>.
    \<^item> Proof of yield: \<open>Poy_Consensus\<close> (ledger and consensus), \<open>Membra_Node\<close>, \<open>Yield_Meter\<close>, \<open>Artifact_Tracker\<close>, and for jobs \<open>Job_Spec\<close> and
      \<open>Proof_Of_Job\<close>.
    \<^item> The user's side: \<open>Personal_Chain\<close>, \<open>Consent\<close>, \<open>Notary\<close>, \<open>Token_Gate\<close>, \<open>Defi_Operator\<close> (with the library's configuration), \<open>Chat_Api\<close>,
      \<open>Demo_App\<close>, \<open>Command_Line\<close> and \<open>P2p_Content\<close>.

  \<^bold>\<open>Interfaces.\<close> Contracts that several components share are locales, proved once and interpreted on the model's own operations:
    \<^item> \<open>component_invariant\<close>: an invariant every call keeps holds in every reachable state; for the vault, the intent network, the identity
      registry, governance, escrow, the job board, the job queue, the notary, the artifact interface and the webhook server.
    \<^item> \<open>lifecycle\<close>: an object only moves along the edges of its life cycle, so a final status is final; for fee credits, intents, identity links,
      proposals, build jobs and tasks.
    \<^item> \<open>hash_chain\<close>: a log whose entries hash the entry before; two logs with the same head have the same history or exhibit a
      collision. For the proof book and the personal chain.
    \<^item> \<open>rounding\<close>: what proofs use of rounding; for the rounding of binary64.
    \<^item> \<open>routing_adapter\<close>: what the router relies on from an adapter; for the swap and the bridge adapter.
    \<^item> \<open>queue_invariant\<close>: a property of the queue that every handler of the brain server keeps; for the names of jobs, for tasks in the
      hands of a worker, and for the identifiers a request may use up.

  \<^bold>\<open>What the lemmas show.\<close> For each component: how every operation changes its state, on the error branches too (lemmas named \<open>_effect\<close>, \<open>_cases\<close>,
  \<open>_simps\<close>); an invariant and that every step keeps it (\<open>_ok\<close>, \<open>_inv\<close>); and then its properties, which carry the labels C1 to C40 in the
  texts before them. They fall into these groups:
    \<^item> Money: fee credits stay covered and are spent once, and a refused reimbursement leaves the reserves alone, though it uses up the credits; quotes are exact and a round
      trip gains nothing, within the bounds below; an escrow closes once and its shares add up; what is distributed was earned and paid.
    \<^item> History: the head of a log fixes all of it; proof bundles, root hashes and Merkle roots commit to their contents.
    \<^item> Decisions: executed proposals had the votes, consensus is reached exactly at its threshold, gates open exactly on their
      conditions, no payment is prepared against the policy, which
      does not look at personal data.
    \<^item> Progress: waiting loops and dispatching return, tasks are delivered once unless claims overlap, a full run of the profit loop reaches its end.
    \<^item> Round trips: consent, chains, specifications, artifacts, tokenizer, escrow and job files are read back as they were written.
    \<^item> Composition: the relayer refines a specification of single relays (\<open>relay_spec\<close>) and only moves vault and network by their own calls; the profit loop those of board, escrow
      and receipts; the node those of ledger and consensus; the command line starts every command from the files of the one before.
  Where the code does not do what it says, or leaves a bound under inputs that a property excludes, a lemma shows what it does instead. Properties hold under the
  conditions their texts name, and where the code does not enforce such a condition itself the texts say so.

  \<^bold>\<open>Bounds.\<close> They make the float arithmetic exact or keep numbers within the digits of a name:
  vault amounts that are not negative (the operator's part: the code accepts negative ones) and reserves of at most \<open>2^51\<close> lamports, swap quotes whose product of amount and
  basis points is below \<open>2^52\<close> and whose nominal proceeds are at most \<open>2^53\<close>, round trips of at most \<open>10^12\<close> units (the configured maximum of a route, which no code
  enforces), escrow splits up to \<open>2^30\<close> dollars, verifier votes below \<open>2^45\<close> and consensus votes below \<open>2^49\<close>, yield estimates for
  contents of at most \<open>10^5\<close> characters (the code cuts them at 2000), sizes in the yield meter up to \<open>2^53\<close> bytes with plausible test counts and amounts that are not
  negative, reputations whose score bound is an integer of at least 1 with at most
  \<open>2^52\<close> as its product with the number of reports, a personal chain of fewer than \<open>10^8\<close> events, whose files have eight digits. No fuel is used:
  loops end by structure or by a measure. Identifiers cut to twelve characters are assumed distinct only among those drawn in a run.

  \<^bold>\<open>Parameters.\<close> What is not in the repository is an argument: the clock, the identifiers, texts of the current time, the parser of the language
  and the runner of tests, the machine of a worker, the \<open>json\<close> reader on foreign texts, the language model and the remote model,
  Python's salted hash and the text of a set, which texts the engine of the language model can encode (those without a lone surrogate), Stripe's answers and signed events, the order in which SQL returns rows with equal times and its average, the
  client of the chain, and what the walk over a directory finds.

  \<^bold>\<open>Not modelled.\<close>
    \<^item> \<open>llm/gpt.py\<close>: a transformer in PyTorch; its arithmetic is that of a tensor library. \<open>llm/terminal_chat.py\<close> is a terminal loop around it.
    \<^item> \<open>run_demo.py\<close>, \<open>examples/\<close> and the scripts: they call the modelled components on sample data and print.
    \<^item> \<open>llm_os_factory.py\<close>, \<open>network_sdk_factory.py\<close> and \<open>sdk_factory.py\<close> fill text templates and write files; \<open>generated_sdk/\<close> is such an output.
    \<^item> Of modelled files: the web frameworks and their validation, user interfaces, coloured tables, progress messages, the endless loops around a turn, the probing
      of a machine for its capabilities, and in the command line the commands that only start a process.
    \<^item> The Rust programs for Solana, the C++ and Rust ports and the TypeScript clients: the development is about the Python code.
    \<^item> Threads, beyond the overlapping claims above: each call of an object with a lock is atomic, and the handlers of the servers are not interleaved otherwise; only the
      lock of the jobs in \<open>Brain_Server\<close>, which one handler takes twice, is state.
\<close>

end
